(* ===== verification/Prelude.thy ===== *)
theory Prelude
  imports "HOL-Library.Word" "HOL-Library.Multiset" "HOL-Library.Product_Lexorder"
begin

text \<open>
  Shared vocabulary of the development: the fixed-width integer types of the C code, the
  collections of rewrite rules the component theories feed and use, and the generic lemmas
  on words, lists and multisets that more than one component needs.

  Conventions of every theory: a C pointer argument that may be NULL is an \<open>option\<close>
  (\<open>None\<close> is NULL); \<open>size_t\<close> is \<open>nat\<close> (every such value in the code is bounded by an
  array length); an unsigned field of w bits is a \<open>w word\<close>, whose addition wraps as C's does.
\<close>

unbundle bit_operations_syntax

type_synonym u8 = "8 word"
type_synonym u16 = "16 word"
type_synonym u32 = "32 word"
type_synonym u64 = "64 word"

named_theorems word_nat \<open>moving word arithmetic to natural numbers\<close>
named_theorems init_defs \<open>definitions of initialisers and zeroed structures\<close>

subsection \<open>Words as natural numbers\<close>

lemma unat_inc [word_nat]:
  fixes x :: "'a::len word"
  assumes "unat x < 2 ^ LENGTH('a) - 1"
  shows "unat (x + 1) = Suc (unat x)"
proof -
  have "unat x + 1 < 2 ^ LENGTH('a)" using assms by linarith
  then show ?thesis by (simp add: unat_word_ariths)
qed

lemma unat_dec [word_nat]:
  fixes x :: "'a::len word"
  assumes "0 < unat x"
  shows "unat (x - 1) = unat x - 1"
  using assms by (intro unat_minus_one) (metis unat_0 less_numeral_extra(3))

lemma unat_minus_le [word_nat]:
  fixes x y :: "'a::len word"
  assumes "unat y \<le> unat x"
  shows "unat (x - y) = unat x - unat y"
  using assms by (intro unat_sub) (simp add: word_le_nat_alt)

lemma unat_of_nat_small [word_nat]:
  assumes "n < 2 ^ LENGTH('a::len)"
  shows "unat (of_nat n :: 'a word) = n"
  using assms by (simp add: unat_of_nat)

lemma word_eq_unat: "x = y \<longleftrightarrow> unat x = unat y" for x y :: "'a::len word"
  by (rule word_unat_eq_iff)

lemma unat_lt2p: "unat (x :: 'a::len word) < 2 ^ LENGTH('a)"
  by (rule unsigned_less)

lemma unat_u8_lt: "unat (x :: u8) < 256"
  using unat_lt2p [of x] by simp

lemma unat_u16_lt: "unat (x :: u16) < 65536"
  using unat_lt2p [of x] by simp

lemma unat_u32_lt: "unat (x :: u32) < 4294967296"
  using unat_lt2p [of x] by simp

lemma unat_u64_lt: "unat (x :: u64) < 18446744073709551616"
  using unat_lt2p [of x] by simp

text \<open>A narrow word read in a wider one keeps its value.\<close>

lemma unat_ucast_up [word_nat]:
  fixes x :: "'a::len word"
  assumes "LENGTH('a) \<le> LENGTH('b::len)"
  shows "unat (ucast x :: 'b word) = unat x"
  using assms by (simp add: unsigned_ucast_eq take_bit_nat_eq_self
      order_less_le_trans [OF unat_lt2p])

lemma unat_ucast_small [word_nat]:
  fixes x :: "'a::len word"
  assumes "unat x < 2 ^ LENGTH('b::len)"
  shows "unat (ucast x :: 'b word) = unat x"
  using assms by (simp add: unsigned_ucast_eq take_bit_nat_eq_self)

lemma unat_plus_small [word_nat]:
  fixes a b :: "'a::len word"
  assumes "unat a + unat b < 2 ^ LENGTH('a)"
  shows "unat (a + b) = unat a + unat b"
  using assms by (simp add: unat_word_ariths)

lemma unat_mult_small [word_nat]:
  fixes a b :: "'a::len word"
  assumes "unat a * unat b < 2 ^ LENGTH('a)"
  shows "unat (a * b) = unat a * unat b"
  using assms by (simp add: unat_word_ariths)

subsection \<open>Lists and multisets\<close>

lemma mset_take_Suc:
  "n < length xs \<Longrightarrow> mset (take (Suc n) xs) = add_mset (xs ! n) (mset (take n xs))"
  by (simp add: take_Suc_conv_app_nth)

lemma filter_mset_single_out:
  "x \<in># M \<Longrightarrow> \<not> P x \<Longrightarrow> filter_mset P (M - {#x#}) = filter_mset P M"
  by (simp add: filter_mset_eq_conv)

lemma find_unique:
  assumes "x \<in> set xs" and "P x" and "\<And>y. y \<in> set xs \<Longrightarrow> P y \<Longrightarrow> y = x"
  shows "find P xs = Some x"
  using assms
proof (induction xs)
  case (Cons a xs)
  show ?case
  proof (cases "P a")
    case True
    then have "a = x" using Cons.prems(3) [of a] by simp
    then show ?thesis using True by simp
  next
    case False
    then have "x \<in> set xs" using Cons.prems(1,2) by auto
    then have "find P xs = Some x"
      using Cons.prems(2) by (rule Cons.IH) (rule Cons.prems(3), auto)
    then show ?thesis using False by simp
  qed
qed simp

lemma find_Some_mem: "find P xs = Some x \<Longrightarrow> x \<in> set xs \<and> P x"
  by (induction xs) (auto split: if_splits)

subsection \<open>Byte buffers\<close>

text \<open>\<open>memcpy(&buf[off], bytes, n)\<close>; it keeps the length of the buffer exactly when it is in bounds.\<close>

definition write_at :: "'a list \<Rightarrow> nat \<Rightarrow> 'a list \<Rightarrow> 'a list" where
  "write_at buf off bytes = take off buf @ bytes @ drop (off + length bytes) buf"

lemma length_write_at: "off + length bs \<le> length buf \<Longrightarrow> length (write_at buf off bs) = length buf"
  by (simp add: write_at_def)

lemma take_drop_write_at:
  "off + length bs \<le> length buf \<Longrightarrow> take (length bs) (drop off (write_at buf off bs)) = bs"
  by (simp add: write_at_def)

lemma take_drop_write_at_other:
  assumes "off + length bs \<le> length buf" and "o2 + n \<le> off \<or> off + length bs \<le> o2"
  shows "take n (drop o2 (write_at buf off bs)) = take n (drop o2 buf)"
proof (cases "o2 + n \<le> off")
  case True
  then have "o2 \<le> length buf" "min n (off - o2) = n" "n \<le> length buf - o2" using assms(1) by simp_all
  then show ?thesis using True assms(1) by (auto simp: write_at_def drop_take min_def)
next
  case False
  then have "off + length bs \<le> o2" using assms(2) by simp
  then show ?thesis using assms(1) by (simp add: write_at_def)
qed

end
