(* ===== verification/Ring.thy ===== *)
theory Ring
  imports Prelude
begin

text \<open>
  What the ring buffers of the program share: the contents of a circular array, the
  arithmetic of its indices, and the contract of a bounded first-in first-out buffer as an
  interface. The ISR ring of core/event and the RX and TX rings of core/hal interpret it.
\<close>

subsection \<open>Contents of a circular array\<close>

definition ring_list :: "'a list \<Rightarrow> nat \<Rightarrow> nat \<Rightarrow> nat \<Rightarrow> 'a list" where
  "ring_list slots cap start n = map (\<lambda>i. slots ! ((start + i) mod cap)) [0..<n]"

lemma length_ring_list [simp]: "length (ring_list slots cap start n) = n"
  by (simp add: ring_list_def)

lemma ring_list_0 [simp]: "ring_list slots cap start 0 = []"
  by (simp add: ring_list_def)

lemma ring_index_inj:
  fixes i j :: nat
  assumes "i < cap" and "j < cap" and "(start + i) mod cap = (start + j) mod cap"
  shows "i = j"
proof -
  have "i mod cap = j mod cap" using assms(3) by (simp add: nat_mod_eq_iff)
  then show ?thesis using assms by simp
qed

lemma ring_list_frame:
  assumes "n \<le> j" and "j < cap"
  shows "ring_list (slots[(start + j) mod cap := x]) cap start n = ring_list slots cap start n"
proof -
  have "(start + i) mod cap \<noteq> (start + j) mod cap" if "i < n" for i
    using ring_index_inj [of i cap j start] that assms by auto
  then have "(start + j) mod cap \<noteq> (start + i) mod cap" if "i < n" for i
    using that by metis
  then show ?thesis by (simp add: ring_list_def)
qed

lemma ring_list_push:
  assumes "n < cap" and "cap \<le> length slots"
  shows "ring_list (slots[(start + n) mod cap := x]) cap start (Suc n) =
    ring_list slots cap start n @ [x]"
proof -
  have "(start + n) mod cap < length slots"
    using assms by (metis less_le_trans mod_less_divisor gr_zeroI not_less_zero)
  then have "ring_list (slots[(start + n) mod cap := x]) cap start (Suc n) =
      ring_list (slots[(start + n) mod cap := x]) cap start n @ [x]"
    by (simp add: ring_list_def)
  then show ?thesis using ring_list_frame [of n n cap slots start x] assms(1) by simp
qed

lemma ring_list_pop:
  "ring_list slots cap start (Suc n) =
    slots ! (start mod cap) # ring_list slots cap ((start + 1) mod cap) n"
  by (auto simp: ring_list_def mod_add_left_eq upt_conv_Cons map_Suc_upt [symmetric]
      simp del: upt_Suc)

lemma ring_list_pop_clear:
  assumes "n < cap" and "start < cap"
  shows "ring_list (slots[start := z]) cap ((start + 1) mod cap) n =
    ring_list slots cap ((start + 1) mod cap) n"
proof -
  have "((start + 1) mod cap + (cap - 1)) mod cap = (start + 1 + (cap - 1)) mod cap"
    by (rule mod_add_left_eq)
  then have "start = ((start + 1) mod cap + (cap - 1)) mod cap" using assms by simp
  then show ?thesis
    using ring_list_frame [of n "cap - 1" cap slots "(start + 1) mod cap" z] assms by simp
qed

lemma mod_succ: "i < cap \<Longrightarrow> (i + 1) mod cap = (if Suc i = cap then 0 else Suc i)" for i :: nat
  by auto

subsection \<open>A ring with one free slot\<close>

text \<open>Occupancy from the two indices.\<close>

definition ring_count :: "nat \<Rightarrow> nat \<Rightarrow> nat \<Rightarrow> nat" where
  "ring_count cap head tail = (if head \<ge> tail then head - tail else cap - (tail - head))"

lemma ring_count_less: "head < cap \<Longrightarrow> tail < cap \<Longrightarrow> ring_count cap head tail < cap"
  by (auto simp: ring_count_def)

lemma ring_count_head:
  "head < cap \<Longrightarrow> tail < cap \<Longrightarrow> head = (tail + ring_count cap head tail) mod cap"
  by (auto simp: ring_count_def)

lemma ring_count_0: "head < cap \<Longrightarrow> tail < cap \<Longrightarrow> ring_count cap head tail = 0 \<longleftrightarrow> head = tail"
  by (auto simp: ring_count_def)

lemma ring_count_push:
  "head < cap \<Longrightarrow> tail < cap \<Longrightarrow> (head + 1) mod cap \<noteq> tail \<Longrightarrow>
   ring_count cap ((head + 1) mod cap) tail = Suc (ring_count cap head tail)"
  by (auto simp: ring_count_def mod_succ simp del: One_nat_def split: if_splits)

lemma ring_count_full:
  "head < cap \<Longrightarrow> tail < cap \<Longrightarrow>
   (head + 1) mod cap = tail \<longleftrightarrow> ring_count cap head tail = cap - 1"
  by (auto simp: ring_count_def mod_succ simp del: One_nat_def split: if_splits)

lemma ring_count_pop:
  "head < cap \<Longrightarrow> tail < cap \<Longrightarrow> head \<noteq> tail \<Longrightarrow>
   ring_count cap head tail = Suc (ring_count cap head ((tail + 1) mod cap))"
  by (auto simp: ring_count_def mod_succ simp del: One_nat_def split: if_splits)

lemma unat_mod_u16:
  fixes h c :: u16
  assumes "unat h < unat c"
  shows "unat (of_nat ((unat h + 1) mod unat c) :: u16) = (unat h + 1) mod unat c"
proof -
  have "(unat h + 1) mod unat c < unat c" using assms by simp
  then have "(unat h + 1) mod unat c < 2 ^ 16"
    using unat_lt2p [of c] by (auto intro: less_trans)
  then show ?thesis by (simp add: unat_of_nat_small)
qed

subsection \<open>The bounded buffer interface\<close>

text \<open>A history of operations: \<open>Some e\<close> puts, \<open>None\<close> gets. Kept: what was accepted, what came out.\<close>

fun fifo_run :: "('q \<Rightarrow> 'e \<Rightarrow> bool \<times> 'q) \<Rightarrow> ('q \<Rightarrow> ('e \<times> 'q) option) \<Rightarrow>
    'e option list \<Rightarrow> 'q \<Rightarrow> 'e list \<times> 'e list \<times> 'q" where
  "fifo_run put get [] q = ([], [], q)"
| "fifo_run put get (Some e # ops) q =
     (case put q e of (ok, q') \<Rightarrow>
        (case fifo_run put get ops q' of (acc, out, r) \<Rightarrow> ((if ok then e # acc else acc), out, r)))"
| "fifo_run put get (None # ops) q =
     (case get q of None \<Rightarrow> fifo_run put get ops q
      | Some (e, q') \<Rightarrow>
          (case fifo_run put get ops q' of (acc, out, r) \<Rightarrow> (acc, e # out, r)))"

locale bounded_fifo =
  fixes put :: "'q \<Rightarrow> 'e \<Rightarrow> bool \<times> 'q"
    and get :: "'q \<Rightarrow> ('e \<times> 'q) option"
    and inv :: "'q \<Rightarrow> bool"
    and contents :: "'q \<Rightarrow> 'e list"
    and room :: "'q \<Rightarrow> nat"
  assumes put_contents: "inv q \<Longrightarrow> put q e = (ok, q') \<Longrightarrow>
      ok = (length (contents q) < room q) \<and>
      contents q' = (if ok then contents q @ [e] else contents q) \<and> inv q' \<and> room q' = room q"
    and get_contents: "inv q \<Longrightarrow>
      (case get q of None \<Rightarrow> contents q = []
       | Some (e, q') \<Rightarrow> contents q = e # contents q' \<and> inv q' \<and> room q' = room q)"
    and within: "inv q \<Longrightarrow> length (contents q) \<le> room q"
begin

lemma run_fifo:
  "inv q \<Longrightarrow> fifo_run put get ops q = (acc, out, r) \<Longrightarrow>
   contents q @ acc = out @ contents r \<and> inv r \<and> room r = room q"
proof (induction ops arbitrary: q acc out r)
  case Nil
  then show ?case by simp
next
  case (Cons op ops)
  show ?case
  proof (cases op)
    case None
    show ?thesis
    proof (cases "get q")
      case None': None
      then show ?thesis using Cons None by simp
    next
      case (Some p)
      obtain e q' where p: "p = (e, q')" by (cases p)
      obtain a1 o1 where r1: "fifo_run put get ops q' = (a1, o1, r)" "acc = a1" "out = e # o1"
        using Cons.prems(2) None Some p by (auto split: prod.splits)
      have g: "contents q = e # contents q'" "inv q'" "room q' = room q"
        using get_contents [OF Cons.prems(1)] Some p by auto
      show ?thesis using Cons.IH [OF g(2) r1(1)] r1 g by simp
    qed
  next
    case (Some e)
    obtain ok q' where p: "put q e = (ok, q')" by (cases "put q e")
    obtain a1 where r1: "fifo_run put get ops q' = (a1, out, r)" "acc = (if ok then e # a1 else a1)"
      using Cons.prems(2) Some p by (auto split: prod.splits)
    note c = put_contents [OF Cons.prems(1) p]
    then show ?thesis using Cons.IH [of q' a1 out r] r1 by (auto split: if_splits)
  qed
qed

lemma run_bounded:
  "inv q \<Longrightarrow> fifo_run put get ops q = (acc, out, r) \<Longrightarrow> length (contents r) \<le> room q"
  using run_fifo within by metis

end

end
