(* ===== verification/Clock.thy ===== *)
theory Clock
  imports Prelude
begin

text \<open>
  core/event/src/clock.c and clock.h: saturating time arithmetic, the virtual clock and the
  injectable clock interface. A \<open>cancestry_clock_t\<close> is a function pointer and a context
  pointer; the model keeps the function (or \<open>None\<close>) and the present contents of the context.
  \<open>cancestry_platform_now_us\<close> reads the operating system's or the board's timer: it is the
  parameter \<open>platform_now\<close> of the platform clock.
\<close>

type_synonym time_us = u64

definition TIME_US_MAX :: time_us where
  "TIME_US_MAX = 0xFFFFFFFFFFFFFFFF"

lemma unat_TIME_US_MAX [simp]: "unat TIME_US_MAX = 2 ^ 64 - 1"
  by (simp add: TIME_US_MAX_def)

definition time_sat_add :: "time_us \<Rightarrow> time_us \<Rightarrow> time_us" where
  "time_sat_add base delta =
     (if base > TIME_US_MAX - delta then TIME_US_MAX else base + delta)"

lemma unat_time_sat_add:
  "unat (time_sat_add base delta) = min (unat base + unat delta) (2 ^ 64 - 1)"
proof -
  have d: "unat delta \<le> 2 ^ 64 - 1" using unat_u64_lt [of delta] by simp
  then have sub: "unat (TIME_US_MAX - delta) = 2 ^ 64 - 1 - unat delta"
    by (simp add: unat_minus_le)
  show ?thesis
  proof (cases "base > TIME_US_MAX - delta")
    case True
    then have "unat base + unat delta > 2 ^ 64 - 1"
      using sub d by (simp add: word_less_nat_alt)
    with True show ?thesis by (simp add: time_sat_add_def)
  next
    case False
    then have le: "unat base + unat delta \<le> 2 ^ 64 - 1"
      using sub d by (simp add: word_less_nat_alt)
    then have "unat (base + delta) = unat base + unat delta"
      by (simp add: unat_word_ariths)
    with False le show ?thesis by (simp add: time_sat_add_def)
  qed
qed

lemma time_sat_add_ge: "base \<le> time_sat_add base delta"
  using unat_u64_lt [of base] by (simp add: word_le_nat_alt unat_time_sat_add)

lemma time_sat_add_mono: "a \<le> b \<Longrightarrow> time_sat_add a d \<le> time_sat_add b d"
  by (auto simp: word_le_nat_alt unat_time_sat_add)

subsection \<open>The virtual clock\<close>

record virtual_clock =
  vc_now_us :: time_us

fun virtual_clock_init :: "virtual_clock option \<Rightarrow> time_us \<Rightarrow> virtual_clock option" where
  "virtual_clock_init None start = None"
| "virtual_clock_init (Some c) start = Some (c\<lparr>vc_now_us := start\<rparr>)"

fun virtual_clock_now :: "virtual_clock option \<Rightarrow> time_us" where
  "virtual_clock_now None = 0"
| "virtual_clock_now (Some c) = vc_now_us c"

fun virtual_clock_advance :: "virtual_clock option \<Rightarrow> time_us \<Rightarrow> virtual_clock option" where
  "virtual_clock_advance None delta = None"
| "virtual_clock_advance (Some c) delta =
     Some (c\<lparr>vc_now_us := time_sat_add (vc_now_us c) delta\<rparr>)"

fun virtual_clock_set :: "virtual_clock option \<Rightarrow> time_us \<Rightarrow> bool \<times> virtual_clock option" where
  "virtual_clock_set None now = (False, None)"
| "virtual_clock_set (Some c) now =
     (if now < vc_now_us c then (False, Some c) else (True, Some (c\<lparr>vc_now_us := now\<rparr>)))"

text \<open>The operations a holder of a virtual clock can run after \<open>virtual_clock_init\<close>.\<close>

datatype vclock_op = Vc_advance time_us | Vc_set time_us

fun vclock_step :: "virtual_clock \<Rightarrow> vclock_op \<Rightarrow> virtual_clock" where
  "vclock_step c (Vc_advance d) = the (virtual_clock_advance (Some c) d)"
| "vclock_step c (Vc_set t) = the (snd (virtual_clock_set (Some c) t))"

lemma vclock_step_mono: "vc_now_us c \<le> vc_now_us (vclock_step c op)"
  by (cases op) (auto simp: time_sat_add_ge)

lemma vclock_run_mono: "vc_now_us c \<le> vc_now_us (foldl vclock_step c ops)"
proof (induction ops arbitrary: c)
  case Nil
  then show ?case by simp
next
  case (Cons op ops)
  then show ?case using vclock_step_mono [of c op] by (auto intro: order_trans)
qed

subsection \<open>The injectable clock\<close>

record 'ctx clock =
  clk_now_us :: "('ctx \<Rightarrow> time_us) option"
  clk_context :: 'ctx

fun clock_is_valid :: "'ctx clock option \<Rightarrow> bool" where
  "clock_is_valid None = False"
| "clock_is_valid (Some c) = (clk_now_us c \<noteq> None)"

fun clock_now_us :: "'ctx clock option \<Rightarrow> time_us" where
  "clock_now_us None = 0"
| "clock_now_us (Some c) =
     (case clk_now_us c of None \<Rightarrow> 0 | Some f \<Rightarrow> f (clk_context c))"

fun virtual_clock_read :: "virtual_clock option \<Rightarrow> time_us" where
  "virtual_clock_read None = 0"
| "virtual_clock_read (Some c) = vc_now_us c"

definition clock_from_virtual :: "virtual_clock option \<Rightarrow> virtual_clock option clock" where
  "clock_from_virtual c = \<lparr>clk_now_us = Some virtual_clock_read, clk_context = c\<rparr>"

definition clock_platform :: "time_us \<Rightarrow> unit clock" where
  "clock_platform platform_now = \<lparr>clk_now_us = Some (\<lambda>_. platform_now), clk_context = ()\<rparr>"

lemma clock_now_from_virtual:
  "clock_now_us (Some (clock_from_virtual c)) = virtual_clock_now c"
  by (cases c) (simp_all add: clock_from_virtual_def)

end
