(* ===== verification/Event_Types.thy ===== *)
theory Event_Types
  imports Clock
begin

text \<open>
  core/event/include/cancestry/event/types.h and core/event/src/types.c: identifiers,
  enumerations, payloads, the event structure, its validity test and the normative
  comparison of two events. The C enumerations carry their COUNT member, so the range
  tests of the code are range tests here; a numeric value outside the enumeration is not
  represented. The payload union is a datatype with one constructor per member, plus
  \<open>Payload_zero\<close> for the all-zero union that \<open>memset\<close> leaves.
\<close>

subsection \<open>Identifiers and enumerations\<close>

type_synonym event_id = u32
type_synonym sequence = u32
type_synonym interface_id = u16
type_synonym source_id = u32

definition EVENT_ID_NONE :: event_id where "EVENT_ID_NONE = 0"
definition SEQUENCE_NONE :: sequence where "SEQUENCE_NONE = 0"
definition CAN_FRAME_MAX_LENGTH :: nat where "CAN_FRAME_MAX_LENGTH = 8"
definition CAN_FD_FRAME_MAX_LENGTH :: nat where "CAN_FD_FRAME_MAX_LENGTH = 64"

datatype event_type =
    EVENT_TYPE_INVALID
  | EVENT_TYPE_CAN_RX
  | EVENT_TYPE_SIGNAL_CHANGED
  | EVENT_TYPE_TIMER_EXPIRED
  | EVENT_TYPE_STATE_ENTERED
  | EVENT_TYPE_STATE_EXITED
  | EVENT_TYPE_FAULT_RAISED
  | EVENT_TYPE_POWER_MODE_CHANGED
  | EVENT_TYPE_COUNT

fun event_type_code :: "event_type \<Rightarrow> int" where
  "event_type_code EVENT_TYPE_INVALID = 0"
| "event_type_code EVENT_TYPE_CAN_RX = 1"
| "event_type_code EVENT_TYPE_SIGNAL_CHANGED = 2"
| "event_type_code EVENT_TYPE_TIMER_EXPIRED = 3"
| "event_type_code EVENT_TYPE_STATE_ENTERED = 4"
| "event_type_code EVENT_TYPE_STATE_EXITED = 5"
| "event_type_code EVENT_TYPE_FAULT_RAISED = 6"
| "event_type_code EVENT_TYPE_POWER_MODE_CHANGED = 7"
| "event_type_code EVENT_TYPE_COUNT = 8"

datatype priority_class =
    PRIORITY_CLASS_FAULT
  | PRIORITY_CLASS_MODE
  | PRIORITY_CLASS_TIMER
  | PRIORITY_CLASS_CAN_RX
  | PRIORITY_CLASS_HOST
  | PRIORITY_CLASS_GENERATED
  | PRIORITY_CLASS_TRACE
  | PRIORITY_CLASS_COUNT

fun priority_code :: "priority_class \<Rightarrow> int" where
  "priority_code PRIORITY_CLASS_FAULT = 0"
| "priority_code PRIORITY_CLASS_MODE = 1"
| "priority_code PRIORITY_CLASS_TIMER = 2"
| "priority_code PRIORITY_CLASS_CAN_RX = 3"
| "priority_code PRIORITY_CLASS_HOST = 4"
| "priority_code PRIORITY_CLASS_GENERATED = 5"
| "priority_code PRIORITY_CLASS_TRACE = 6"
| "priority_code PRIORITY_CLASS_COUNT = 7"

lemma priority_code_inj [simp]: "priority_code a = priority_code b \<longleftrightarrow> a = b"
  by (cases a; cases b; simp)

text \<open>Priority classes are ordered by their numeric values, as the code compares them.\<close>

instantiation priority_class :: linorder
begin

definition less_eq_priority_class :: "priority_class \<Rightarrow> priority_class \<Rightarrow> bool" where
  "less_eq_priority_class a b = (priority_code a \<le> priority_code b)"

definition less_priority_class :: "priority_class \<Rightarrow> priority_class \<Rightarrow> bool" where
  "less_priority_class a b = (priority_code a < priority_code b)"

instance
  by standard (auto simp: less_eq_priority_class_def less_priority_class_def)

end

datatype fault_severity =
    FAULT_SEVERITY_INFO
  | FAULT_SEVERITY_WARNING
  | FAULT_SEVERITY_ERROR
  | FAULT_SEVERITY_CRITICAL
  | FAULT_SEVERITY_COUNT

datatype mode =
    MODE_BOOT
  | MODE_CONFIG
  | MODE_LISTEN_ONLY
  | MODE_ACTIVE
  | MODE_SAFE
  | MODE_OFF
  | MODE_COUNT

text \<open>A tagged signal value; a \<open>double\<close> member is kept as its 64-bit pattern.\<close>

datatype signal_value =
    Value_unset
  | Value_bool bool
  | Value_int "64 word"
  | Value_uint u64
  | Value_real u64

subsection \<open>Payloads and events\<close>

record can_rx_payload =
  rx_interface_id :: interface_id
  rx_can_id :: u32
  rx_is_extended :: u8
  rx_is_fd :: u8
  rx_length :: u8
  rx_data :: "u8 list"

record signal_changed_payload =
  sc_signal_id :: u32
  sc_signal_name :: "string option"
  sc_old_value :: signal_value
  sc_new_value :: signal_value

record timer_expired_payload =
  te_timer_id :: u32
  te_instance_id :: u32
  te_missed_count :: u32
  te_is_periodic :: u8

record state_payload =
  st_instance_id :: u32
  st_state_id :: u32
  st_state_name :: "string option"

record fault_raised_payload =
  fr_fault_code :: u32
  fr_severity :: fault_severity
  fr_source_id :: source_id

record mode_changed_payload =
  mc_from_mode :: mode
  mc_to_mode :: mode
  mc_reason_code :: u32

datatype event_payload =
    Payload_zero
  | Payload_can_rx can_rx_payload
  | Payload_signal_changed signal_changed_payload
  | Payload_timer_expired timer_expired_payload
  | Payload_state state_payload
  | Payload_fault fault_raised_payload
  | Payload_mode mode_changed_payload

record event =
  ev_event_id :: event_id
  ev_type :: event_type
  ev_timestamp_us :: time_us
  ev_sequence :: sequence
  ev_cause_sequence :: sequence
  ev_priority_class :: priority_class
  ev_payload :: event_payload

text \<open>\<open>memset\<close> to zero followed by the explicit INVALID type: the priority class is 0, FAULT.\<close>

definition zero_event :: event where
  "zero_event = \<lparr>ev_event_id = 0, ev_type = EVENT_TYPE_INVALID, ev_timestamp_us = 0,
     ev_sequence = 0, ev_cause_sequence = 0, ev_priority_class = PRIORITY_CLASS_FAULT,
     ev_payload = Payload_zero\<rparr>"

fun event_init :: "event option \<Rightarrow> event option" where
  "event_init None = None"
| "event_init (Some e) = Some (zero_event\<lparr>ev_type := EVENT_TYPE_INVALID\<rparr>)"

subsection \<open>Validity\<close>

definition canfd_length_by_dlc :: "nat list" where
  "canfd_length_by_dlc = [0, 1, 2, 3, 4, 5, 6, 7, 8, 12, 16, 20, 24, 32, 48, 64]"

fun dlc_table_has :: "nat list \<Rightarrow> nat \<Rightarrow> bool" where
  "dlc_table_has [] len = False"
| "dlc_table_has (d # ds) len = (if d = len then True else dlc_table_has ds len)"

definition can_payload_length_is_valid :: "bool \<Rightarrow> nat \<Rightarrow> bool" where
  "can_payload_length_is_valid is_fd len =
     (if len > CAN_FD_FRAME_MAX_LENGTH then False
      else if \<not> is_fd then len \<le> CAN_FRAME_MAX_LENGTH
      else dlc_table_has canfd_length_by_dlc len)"

definition event_type_is_valid :: "event_type \<Rightarrow> bool" where
  "event_type_is_valid t \<longleftrightarrow>
     event_type_code t > event_type_code EVENT_TYPE_INVALID \<and>
     event_type_code t < event_type_code EVENT_TYPE_COUNT"

definition priority_class_is_valid :: "priority_class \<Rightarrow> bool" where
  "priority_class_is_valid p \<longleftrightarrow>
     priority_code p \<ge> priority_code PRIORITY_CLASS_FAULT \<and>
     priority_code p < priority_code PRIORITY_CLASS_COUNT"

fun event_is_valid :: "event option \<Rightarrow> bool" where
  "event_is_valid None = False"
| "event_is_valid (Some e) =
     (event_type_is_valid (ev_type e) \<and> priority_class_is_valid (ev_priority_class e))"

subsection \<open>The selection order\<close>

fun event_compare_order :: "event option \<Rightarrow> event option \<Rightarrow> int" where
  "event_compare_order None None = 0"
| "event_compare_order None (Some r) = - 1"
| "event_compare_order (Some l) None = 1"
| "event_compare_order (Some l) (Some r) =
     (if ev_timestamp_us l < ev_timestamp_us r then - 1
      else if ev_timestamp_us l > ev_timestamp_us r then 1
      else if priority_code (ev_priority_class l) < priority_code (ev_priority_class r) then - 1
      else if priority_code (ev_priority_class l) > priority_code (ev_priority_class r) then 1
      else if ev_sequence l < ev_sequence r then - 1
      else if ev_sequence l > ev_sequence r then 1
      else 0)"

text \<open>The normative ordering key of docs/system/event-ordering.md, ordered lexicographically.\<close>

definition event_key :: "event \<Rightarrow> time_us \<times> priority_class \<times> sequence" where
  "event_key e = (ev_timestamp_us e, ev_priority_class e, ev_sequence e)"

text \<open>
  The contract of a three-way comparison: its sign is the order of a key. The queue's heap
  is built on this contract only.
\<close>

locale three_way_order =
  fixes cmp :: "'a \<Rightarrow> 'a \<Rightarrow> int"
    and key :: "'a \<Rightarrow> 'k::linorder"
  assumes cmp_neg: "cmp a b < 0 \<longleftrightarrow> key a < key b"
    and cmp_pos: "cmp a b > 0 \<longleftrightarrow> key a > key b"
begin

lemma cmp_zero: "cmp a b = 0 \<longleftrightarrow> key a = key b"
  by (metis cmp_neg cmp_pos less_irrefl linorder_neqE)

lemma cmp_flip: "cmp a b < 0 \<longleftrightarrow> cmp b a > 0"
  by (simp add: cmp_neg cmp_pos)

lemma cmp_trans: "cmp a b \<le> 0 \<Longrightarrow> cmp b c \<le> 0 \<Longrightarrow> cmp a c \<le> 0"
  by (metis cmp_pos linorder_not_less order_trans)

lemma cmp_total: "cmp a b \<le> 0 \<or> cmp b a \<le> 0"
  by (metis cmp_pos linorder_linear linorder_not_less)

end

definition event_cmp :: "event \<Rightarrow> event \<Rightarrow> int" where
  "event_cmp l r = event_compare_order (Some l) (Some r)"

interpretation ev_order: three_way_order event_cmp event_key
  by unfold_locales
    (auto simp: event_cmp_def event_key_def less_priority_class_def less_eq_priority_class_def)

lemma compare_neg [simp]:
  "event_compare_order (Some a) (Some b) < 0 \<longleftrightarrow> event_key a < event_key b"
  using ev_order.cmp_neg by (simp add: event_cmp_def)

lemma compare_pos [simp]:
  "event_compare_order (Some a) (Some b) > 0 \<longleftrightarrow> event_key a > event_key b"
  using ev_order.cmp_pos by (simp add: event_cmp_def)

declare event_compare_order.simps(4) [simp del]

subsection \<open>Name tables\<close>

fun event_type_name :: "event_type \<Rightarrow> string" where
  "event_type_name EVENT_TYPE_CAN_RX = ''can_rx''"
| "event_type_name EVENT_TYPE_SIGNAL_CHANGED = ''signal_changed''"
| "event_type_name EVENT_TYPE_TIMER_EXPIRED = ''timer_expired''"
| "event_type_name EVENT_TYPE_STATE_ENTERED = ''state_entered''"
| "event_type_name EVENT_TYPE_STATE_EXITED = ''state_exited''"
| "event_type_name EVENT_TYPE_FAULT_RAISED = ''fault_raised''"
| "event_type_name EVENT_TYPE_POWER_MODE_CHANGED = ''power_mode_changed''"
| "event_type_name _ = ''invalid''"

fun priority_class_name :: "priority_class \<Rightarrow> string" where
  "priority_class_name PRIORITY_CLASS_FAULT = ''FAULT''"
| "priority_class_name PRIORITY_CLASS_MODE = ''MODE''"
| "priority_class_name PRIORITY_CLASS_TIMER = ''TIMER''"
| "priority_class_name PRIORITY_CLASS_CAN_RX = ''CAN_RX''"
| "priority_class_name PRIORITY_CLASS_HOST = ''HOST''"
| "priority_class_name PRIORITY_CLASS_GENERATED = ''GENERATED''"
| "priority_class_name PRIORITY_CLASS_TRACE = ''TRACE''"
| "priority_class_name PRIORITY_CLASS_COUNT = ''INVALID''"

fun fault_severity_name :: "fault_severity \<Rightarrow> string" where
  "fault_severity_name FAULT_SEVERITY_INFO = ''INFO''"
| "fault_severity_name FAULT_SEVERITY_WARNING = ''WARNING''"
| "fault_severity_name FAULT_SEVERITY_ERROR = ''ERROR''"
| "fault_severity_name FAULT_SEVERITY_CRITICAL = ''CRITICAL''"
| "fault_severity_name FAULT_SEVERITY_COUNT = ''INVALID''"

fun mode_name :: "mode \<Rightarrow> string" where
  "mode_name MODE_BOOT = ''BOOT''"
| "mode_name MODE_CONFIG = ''CONFIG''"
| "mode_name MODE_LISTEN_ONLY = ''LISTEN_ONLY''"
| "mode_name MODE_ACTIVE = ''ACTIVE''"
| "mode_name MODE_SAFE = ''SAFE''"
| "mode_name MODE_OFF = ''OFF''"
| "mode_name MODE_COUNT = ''INVALID''"

end
