(* ===== verification/Fault.thy ===== *)
theory Fault
  imports Prelude
begin

text \<open>
  core/event/src/fault.c and fault.h: the ordered hard-fault escalation. A hook is a platform
  function pointer; the core only decides whether it is NULL, in which order the hooks are
  called and whether the call returns, so a hook is a flag (set: not NULL) and the effect of
  an escalation is the sequence of hook calls it makes. A call that ends in the safe-spin
  loop never returns: its result is \<open>None\<close>.
\<close>

definition FAULT_CODE_QUEUE_SATURATION :: u32 where
  "FAULT_CODE_QUEUE_SATURATION = 0x45565101"

definition FAULT_SOURCE_HARD_FAULT_ESCALATION :: u32 where
  "FAULT_SOURCE_HARD_FAULT_ESCALATION = 0x45565102"

record hard_fault_hooks =
  write_retention_register :: bool
  hal_fail_safe :: bool
  iwdg_escalate :: bool
  hook_context :: nat

datatype hook_call =
    Write_retention u32
  | Hal_fail_safe
  | Iwdg_escalate

definition no_hooks :: hard_fault_hooks where
  "no_hooks = \<lparr>write_retention_register = False, hal_fail_safe = False,
     iwdg_escalate = False, hook_context = 0\<rparr>"

definition hooks_complete :: "hard_fault_hooks \<Rightarrow> bool" where
  "hooks_complete h \<longleftrightarrow> write_retention_register h \<and> hal_fail_safe h \<and> iwdg_escalate h"

fun hard_fault_escalate :: "hard_fault_hooks option \<Rightarrow> bool option \<times> hook_call list" where
  "hard_fault_escalate None = (None, [])"
| "hard_fault_escalate (Some h) =
     (if \<not> write_retention_register h then
        (None, if hal_fail_safe h then [Hal_fail_safe] else [])
      else
        let calls = [Write_retention FAULT_CODE_QUEUE_SATURATION]
              @ (if hal_fail_safe h then [Hal_fail_safe] else [])
              @ (if iwdg_escalate h then [Iwdg_escalate] else [])
        in if \<not> hal_fail_safe h \<or> \<not> iwdg_escalate h then (None, calls)
           else (Some True, calls))"

lemma hard_fault_escalate_complete:
  "hooks_complete h \<Longrightarrow>
   hard_fault_escalate (Some h) =
     (Some True, [Write_retention FAULT_CODE_QUEUE_SATURATION, Hal_fail_safe, Iwdg_escalate])"
  by (simp add: hooks_complete_def)

lemma hard_fault_escalate_returns_iff:
  "fst (hard_fault_escalate h) \<noteq> None \<longleftrightarrow> (\<exists>h'. h = Some h' \<and> hooks_complete h')"
  by (cases h) (auto simp: hooks_complete_def Let_def)

end
