(* ===== verification/Event_Heap.thy ===== *)
theory Event_Heap
  imports Event_Types
begin

text \<open>
  The heap internals of core/event/src/queue.c: the two sift loops over the slot array and
  the search for the drop-newest victim. An array is a list; the heap is its first \<open>size\<close>
  entries. The order is the sign of \<open>event_cmp\<close>, so every proof speaks of \<open>event_key\<close>
  through the facts of the interpretation \<open>ev_order\<close>.
\<close>

definition swap_slots :: "'a list \<Rightarrow> nat \<Rightarrow> nat \<Rightarrow> 'a list" where
  "swap_slots xs i j = xs[i := xs ! j, j := xs ! i]"

lemma length_swap_slots [simp]: "length (swap_slots xs i j) = length xs"
  by (simp add: swap_slots_def)

lemma nth_swap_slots:
  "i < length xs \<Longrightarrow> j < length xs \<Longrightarrow> k < length xs \<Longrightarrow>
   swap_slots xs i j ! k = (if k = j then xs ! i else if k = i then xs ! j else xs ! k)"
  by (simp add: swap_slots_def nth_list_update)

lemma mset_take_swap_slots:
  assumes "i < n" and "j < n" and "n \<le> length xs"
  shows "mset (take n (swap_slots xs i j)) = mset (take n xs)"
proof -
  have "take n (swap_slots xs i j) = swap_slots (take n xs) i j"
    using assms by (simp add: swap_slots_def take_update_swap)
  also have "mset \<dots> = mset (take n xs)"
    unfolding swap_slots_def using assms by (intro mset_swap) auto
  finally show ?thesis .
qed

lemma drop_swap_slots: "i < n \<Longrightarrow> j < n \<Longrightarrow> drop n (swap_slots xs i j) = drop n xs"
  by (simp add: swap_slots_def)

definition heap_parent :: "nat \<Rightarrow> nat" where
  "heap_parent i = (i - 1) div 2"

lemma heap_parent_less: "0 < i \<Longrightarrow> heap_parent i < i"
  by (simp add: heap_parent_def)

lemma heap_parent_eq_iff: "0 < i \<Longrightarrow> heap_parent i = k \<longleftrightarrow> i = 2 * k + 1 \<or> i = 2 * k + 2"
  unfolding heap_parent_def by presburger

subsection \<open>The loops\<close>

function queue_sift_up :: "event list \<Rightarrow> nat \<Rightarrow> event list" where
  "queue_sift_up slots index =
     (if index > 0 then
        let parent = (index - 1) div 2 in
        if event_compare_order (Some (slots ! index)) (Some (slots ! parent)) < 0
        then queue_sift_up (swap_slots slots index parent) parent
        else slots
      else slots)"
  by pat_completeness auto
termination
  by (relation "measure snd") auto

declare queue_sift_up.simps [simp del]

definition sift_smallest :: "event list \<Rightarrow> nat \<Rightarrow> nat \<Rightarrow> nat" where
  "sift_smallest slots sz index =
     (let left = 2 * index + 1;
          right = left + 1;
          smallest = (if left < sz \<and>
              event_compare_order (Some (slots ! left)) (Some (slots ! index)) < 0
            then left else index)
      in if right < sz \<and>
            event_compare_order (Some (slots ! right)) (Some (slots ! smallest)) < 0
         then right else smallest)"

lemma sift_smallest_cases:
  "sift_smallest slots sz index = index \<or>
   (index < sift_smallest slots sz index \<and> sift_smallest slots sz index < sz \<and>
    heap_parent (sift_smallest slots sz index) = index)"
  by (auto simp: sift_smallest_def heap_parent_def Let_def)

function queue_sift_down :: "event list \<Rightarrow> nat \<Rightarrow> nat \<Rightarrow> event list" where
  "queue_sift_down slots sz index =
     (let smallest = sift_smallest slots sz index in
      if smallest = index then slots
      else queue_sift_down (swap_slots slots index smallest) sz smallest)"
  by pat_completeness auto
termination
proof (relation "measure (\<lambda>(slots, sz, index). sz - index)")
  fix slots sz index x
  assume "x = sift_smallest slots sz index" and "x \<noteq> index"
  then show "((swap_slots slots index x, sz, x), slots, sz, index)
      \<in> measure (\<lambda>(slots, sz, index). sz - index)"
    using sift_smallest_cases [of slots sz index] by auto
qed simp

declare queue_sift_down.simps [simp del]

fun newest_non_fault :: "event list \<Rightarrow> nat list \<Rightarrow> nat option \<Rightarrow> nat option" where
  "newest_non_fault slots [] best = best"
| "newest_non_fault slots (i # is) best =
     (if ev_priority_class (slots ! i) = PRIORITY_CLASS_FAULT
      then newest_non_fault slots is best
      else case best of
        None \<Rightarrow> newest_non_fault slots is (Some i)
      | Some b \<Rightarrow>
          if event_compare_order (Some (slots ! i)) (Some (slots ! b)) > 0
          then newest_non_fault slots is (Some i)
          else newest_non_fault slots is best)"

subsection \<open>What the loops leave alone\<close>

lemma length_sift_up [simp]: "length (queue_sift_up s k) = length s"
proof (induction s k rule: queue_sift_up.induct)
  case (1 slots index)
  then show ?case by (subst queue_sift_up.simps) (auto simp: Let_def)
qed

lemma length_sift_down [simp]: "length (queue_sift_down s n k) = length s"
proof (induction s n k rule: queue_sift_down.induct)
  case (1 slots sz index)
  then show ?case by (subst queue_sift_down.simps) (auto simp: Let_def)
qed

lemma sift_up_mset:
  "k < n \<Longrightarrow> n \<le> length s \<Longrightarrow> mset (take n (queue_sift_up s k)) = mset (take n s)"
proof (induction s k rule: queue_sift_up.induct)
  case (1 slots index)
  then show ?case
    by (subst queue_sift_up.simps) (auto simp: Let_def mset_take_swap_slots)
qed

lemma sift_down_mset:
  "k < n \<Longrightarrow> n \<le> length s \<Longrightarrow> mset (take n (queue_sift_down s n k)) = mset (take n s)"
proof (induction s n k rule: queue_sift_down.induct)
  case (1 slots sz index)
  then show ?case
    using sift_smallest_cases [of slots sz index]
    by (subst queue_sift_down.simps) (auto simp: Let_def mset_take_swap_slots)
qed

lemma sift_up_drop: "k < n \<Longrightarrow> drop n (queue_sift_up s k) = drop n s"
proof (induction s k rule: queue_sift_up.induct)
  case (1 slots index)
  then show ?case
    by (subst queue_sift_up.simps) (auto simp: Let_def drop_swap_slots)
qed

subsection \<open>The heap order\<close>

definition heap_on :: "event list \<Rightarrow> nat \<Rightarrow> bool" where
  "heap_on s n \<longleftrightarrow> (\<forall>i<n. 0 < i \<longrightarrow> event_key (s ! heap_parent i) \<le> event_key (s ! i))"

text \<open>The heap order but for entry k, which may be smaller than its parent.\<close>

definition heap_but_up :: "event list \<Rightarrow> nat \<Rightarrow> nat \<Rightarrow> bool" where
  "heap_but_up s n k \<longleftrightarrow>
     (\<forall>i<n. 0 < i \<and> i \<noteq> k \<longrightarrow> event_key (s ! heap_parent i) \<le> event_key (s ! i)) \<and>
     (0 < k \<longrightarrow> (\<forall>c<n. 0 < c \<and> heap_parent c = k \<longrightarrow>
        event_key (s ! heap_parent k) \<le> event_key (s ! c)))"

text \<open>
  The invariant of the sift-down loop that started at \<open>k0\<close> and stands at \<open>k\<close>: only \<open>k0\<close>
  may be smaller than its parent, and only \<open>k\<close> larger than its children.
\<close>

definition heap_down_inv :: "event list \<Rightarrow> nat \<Rightarrow> nat \<Rightarrow> nat \<Rightarrow> bool" where
  "heap_down_inv s n k0 k \<longleftrightarrow> k0 \<le> k \<and>
     (\<forall>i<n. 0 < i \<and> i \<noteq> k0 \<and> heap_parent i \<noteq> k \<longrightarrow>
        event_key (s ! heap_parent i) \<le> event_key (s ! i)) \<and>
     (0 < k \<longrightarrow> (\<forall>c<n. 0 < c \<and> heap_parent c = k \<longrightarrow>
        event_key (s ! heap_parent k) \<le> event_key (s ! c))) \<and>
     (0 < k0 \<longrightarrow> (\<forall>c<n. 0 < c \<and> heap_parent c = k0 \<longrightarrow>
        event_key (s ! heap_parent k0) \<le> event_key (s ! c))) \<and>
     (0 < k0 \<and> k \<noteq> k0 \<longrightarrow> event_key (s ! heap_parent k0) \<le> event_key (s ! k0))"

lemma sift_smallest_min:
  assumes "c < n" and "0 < c" and "heap_parent c = k"
  shows "event_key (s ! sift_smallest s n k) \<le> event_key (s ! c)"
    and "event_key (s ! sift_smallest s n k) \<le> event_key (s ! k)"
  using assms by (auto simp: sift_smallest_def heap_parent_eq_iff Let_def not_less)

lemma sift_smallest_less:
  assumes "sift_smallest s n k \<noteq> k"
  shows "event_key (s ! sift_smallest s n k) < event_key (s ! k)"
  using assms by (auto simp: sift_smallest_def Let_def split: if_splits)


lemma sift_up_heap:
  "heap_but_up s n k \<Longrightarrow> k < n \<Longrightarrow> n \<le> length s \<Longrightarrow> heap_on (queue_sift_up s k) n"
proof (induction s k rule: queue_sift_up.induct)
  case (1 s k)
  let ?p = "heap_parent k"
  show ?case
  proof (cases "0 < k \<and> event_key (s ! k) < event_key (s ! ?p)")
    case False
    with "1.prems"(1) have "heap_on s n"
      by (auto simp: heap_on_def heap_but_up_def not_less)
    with False show ?thesis
      by (subst queue_sift_up.simps) (auto simp: Let_def heap_parent_def)
  next
    case True
    then have k: "0 < k" "?p < k" "?p < n" and lt: "event_key (s ! k) < event_key (s ! ?p)"
      using heap_parent_less [of k] "1.prems"(2) by auto
    let ?s = "swap_slots s k ?p"
    have nth: "?s ! i = (if i = ?p then s ! k else if i = k then s ! ?p else s ! i)" if "i < n" for i
      using that k "1.prems" by (subst nth_swap_slots) auto
    have up: "heap_but_up ?s n ?p"
      unfolding heap_but_up_def
    proof (intro conjI allI impI)
      fix i assume i: "i < n" "0 < i \<and> i \<noteq> ?p"
      then have "heap_parent i < n" using heap_parent_less [of i] by simp
      then show "event_key (?s ! heap_parent i) \<le> event_key (?s ! i)"
        using i lt k "1.prems"(1) unfolding heap_but_up_def
        by (auto simp: nth intro: order_trans less_imp_le)
    next
      fix c assume p: "0 < ?p" and c: "c < n" "0 < c \<and> heap_parent c = ?p"
      have pp: "heap_parent ?p < ?p" using p by (rule heap_parent_less)
      have "event_key (s ! heap_parent ?p) \<le> event_key (s ! ?p)"
        using "1.prems"(1) p k unfolding heap_but_up_def by auto
      moreover have "c \<noteq> k \<Longrightarrow> event_key (s ! ?p) \<le> event_key (s ! c)"
        using "1.prems"(1) c unfolding heap_but_up_def by metis
      ultimately show "event_key (?s ! heap_parent ?p) \<le> event_key (?s ! c)"
        using pp c k heap_parent_less [of c] by (auto simp: nth intro: order_trans)
    qed
    have "heap_on (queue_sift_up ?s ?p) n"
      using "1.IH" [of ?p] True up k "1.prems"(3) by (simp add: heap_parent_def)
    with True show ?thesis
      by (subst queue_sift_up.simps) (simp add: Let_def heap_parent_def)
  qed
qed

lemma heap_down_inv_step:
  assumes inv: "heap_down_inv s n k0 k" and len: "n \<le> length s"
    and m: "m = sift_smallest s n k" "m \<noteq> k"
  shows "heap_down_inv (swap_slots s k m) n k0 m"
proof -
  let ?s = "swap_slots s k m"
  have mk: "k < m" "m < n" "heap_parent m = k"
    using sift_smallest_cases [of s n k] m by auto
  have lt: "event_key (s ! m) < event_key (s ! k)"
    using sift_smallest_less [of s n k] m by simp
  have k0: "k0 \<le> k" using inv by (simp add: heap_down_inv_def)
  have a: "\<And>i. i < n \<Longrightarrow> 0 < i \<Longrightarrow> i \<noteq> k0 \<Longrightarrow> heap_parent i \<noteq> k \<Longrightarrow>
      event_key (s ! heap_parent i) \<le> event_key (s ! i)"
    and b: "\<And>c. 0 < k \<Longrightarrow> c < n \<Longrightarrow> 0 < c \<Longrightarrow> heap_parent c = k \<Longrightarrow>
      event_key (s ! heap_parent k) \<le> event_key (s ! c)"
    and c: "\<And>c. 0 < k0 \<Longrightarrow> c < n \<Longrightarrow> 0 < c \<Longrightarrow> heap_parent c = k0 \<Longrightarrow>
      event_key (s ! heap_parent k0) \<le> event_key (s ! c)"
    and d: "0 < k0 \<Longrightarrow> k \<noteq> k0 \<Longrightarrow> event_key (s ! heap_parent k0) \<le> event_key (s ! k0)"
    using inv unfolding heap_down_inv_def by blast+
  have nth: "?s ! i = (if i = m then s ! k else if i = k then s ! m else s ! i)" if "i < n" for i
    using that mk len by (subst nth_swap_slots) auto
  have par: "heap_parent i < i" if "0 < i" for i using that by (rule heap_parent_less)
  have sib: "event_key (s ! m) \<le> event_key (s ! i)"
    if "i < n" "0 < i" "heap_parent i = k" for i
    using sift_smallest_min(1) [of i n k s] that m by simp
  have A: "event_key (?s ! heap_parent i) \<le> event_key (?s ! i)"
    if "i < n" "0 < i" "i \<noteq> k0" "heap_parent i \<noteq> m" for i
  proof -
    have pn: "heap_parent i < n" using par [of i] that by simp
    consider "i = k" | "i = m" | "heap_parent i = k" "i \<noteq> m" | "heap_parent i \<noteq> k" "i \<noteq> k" "i \<noteq> m"
      by blast
    then show ?thesis
    proof cases
      case 1
      then show ?thesis using that b [of m] mk par [of i] pn by (simp add: nth)
    next
      case 2
      then show ?thesis using lt mk pn by (simp add: nth)
    next
      case 3
      then show ?thesis using that sib [of i] mk pn par [of i] by (simp add: nth)
    next
      case 4
      then show ?thesis using that a [of i] pn by (simp add: nth)
    qed
  qed
  have B: "event_key (?s ! heap_parent m) \<le> event_key (?s ! x)"
    if "x < n" "0 < x" "heap_parent x = m" for x
    using a [of x] that par [of x] mk k0 by (simp add: nth)
  have C: "event_key (?s ! heap_parent k0) \<le> event_key (?s ! x)"
    if "0 < k0" "x < n" "0 < x" "heap_parent x = k0" for x
  proof -
    have p0: "heap_parent k0 < k0" using par that by simp
    consider "x = m" | "x = k" "x \<noteq> m" | "x \<noteq> k" "x \<noteq> m" by blast
    then show ?thesis
    proof cases
      case 1
      then have "k = k0" using that mk by simp
      with 1 have "event_key (s ! heap_parent k0) \<le> event_key (s ! m)" using c [of m] that mk by simp
      then show ?thesis using 1 lt p0 mk \<open>k = k0\<close> nth [of "heap_parent k0"] nth [of m]
        by (auto intro: order_trans less_imp_le)
    next
      case 2
      then have "event_key (s ! k0) \<le> event_key (s ! m)" using b [of m] that mk by simp
      moreover have "k \<noteq> k0" using 2 that par [of k] by auto
      ultimately show ?thesis using 2 d that p0 mk k0 by (auto simp: nth)
    next
      case 3
      then show ?thesis using c [of x] that p0 mk k0 by (simp add: nth)
    qed
  qed
  have D: "event_key (?s ! heap_parent k0) \<le> event_key (?s ! k0)" if "0 < k0"
  proof -
    have p0: "heap_parent k0 < k0" using par that by simp
    show ?thesis
    proof (cases "k = k0")
      case True
      then show ?thesis using c [of m] that p0 mk nth [of "heap_parent k0"] nth [of k0] by auto
    next
      case False
      then show ?thesis using d that p0 mk k0 nth [of "heap_parent k0"] nth [of k0] by auto
    qed
  qed
  show ?thesis unfolding heap_down_inv_def using A B C D k0 mk by auto
qed

lemma sift_down_but_up:
  "heap_down_inv s n k0 k \<Longrightarrow> n \<le> length s \<Longrightarrow> heap_but_up (queue_sift_down s n k) n k0"
proof (induction s n k rule: queue_sift_down.induct)
  case (1 s n k)
  show ?case
  proof (cases "sift_smallest s n k = k")
    case True
    have leaf: "event_key (s ! k) \<le> event_key (s ! i)" if "i < n" "0 < i" "heap_parent i = k" for i
      using sift_smallest_min(1) [of i n k s] that True by simp
    have "heap_but_up s n k0"
      unfolding heap_but_up_def
    proof (intro conjI allI impI)
      fix i assume "i < n" "0 < i \<and> i \<noteq> k0"
      then show "event_key (s ! heap_parent i) \<le> event_key (s ! i)"
        using "1.prems"(1) leaf [of i] unfolding heap_down_inv_def by metis
    qed (use "1.prems"(1) in \<open>auto simp: heap_down_inv_def\<close>)
    with True show ?thesis by (subst queue_sift_down.simps) simp
  next
    case False
    have "heap_down_inv (swap_slots s k (sift_smallest s n k)) n k0 (sift_smallest s n k)"
      using "1.prems" False by (intro heap_down_inv_step) auto
    with "1.IH" [OF refl] False "1.prems"(2) show ?thesis
      by (subst queue_sift_down.simps) (simp add: Let_def)
  qed
qed

lemma heap_root_min:
  assumes "heap_on s n" and "i < n"
  shows "event_key (s ! 0) \<le> event_key (s ! i)"
  using assms(2)
proof (induction i rule: less_induct)
  case (less i)
  show ?case
  proof (cases "i = 0")
    case False
    then have "heap_parent i < i" by (simp add: heap_parent_less)
    with less have "event_key (s ! 0) \<le> event_key (s ! heap_parent i)" by simp
    also have "\<dots> \<le> event_key (s ! i)" using assms(1) less.prems False by (simp add: heap_on_def)
    finally show ?thesis .
  qed simp
qed

end
