(* ===== verification/Event_Queue.thy ===== *)
theory Event_Queue
  imports Event_Heap Fault
begin

text \<open>
  core/event/src/queue.c and queue.h: the bounded event queue. The record keeps every field
  of \<open>cancestry_event_queue_t\<close>; the caller-owned array \<open>slots\<close> is a list (the empty list is
  the NULL pointer, a real array has at least one slot). A push on an all-fault full queue
  runs the hard-fault escalation: the result carries the hook calls it made, and its status
  is \<open>None\<close> when the escalation ends in the safe-spin loop and the push never returns.
\<close>

definition DEFAULT_RESERVED_FAULT_SLOTS :: u16 where "DEFAULT_RESERVED_FAULT_SLOTS = 2"
definition QUEUE_MAX_CAPACITY :: u16 where "QUEUE_MAX_CAPACITY = 32767"
definition PERSISTENT_OVERFLOW_THRESHOLD :: u32 where "PERSISTENT_OVERFLOW_THRESHOLD = 8"

datatype event_queue_status =
    EQ_OK
  | EQ_OK_EVICTED_VICTIM
  | EQ_ERR_NULL
  | EQ_ERR_CAPACITY
  | EQ_ERR_EVENT
  | EQ_ERR_FULL
  | EQ_ERR_FULL_FAULT
  | EQ_ERR_RESERVED_FAULT_SLOTS
  | EQ_ERR_TERMINAL
  | EQ_ERR_EMPTY

fun event_queue_status_code :: "event_queue_status \<Rightarrow> int" where
  "event_queue_status_code EQ_OK = 0"
| "event_queue_status_code EQ_OK_EVICTED_VICTIM = 1"
| "event_queue_status_code EQ_ERR_NULL = - 1"
| "event_queue_status_code EQ_ERR_CAPACITY = - 2"
| "event_queue_status_code EQ_ERR_EVENT = - 3"
| "event_queue_status_code EQ_ERR_FULL = - 4"
| "event_queue_status_code EQ_ERR_FULL_FAULT = - 5"
| "event_queue_status_code EQ_ERR_RESERVED_FAULT_SLOTS = - 7"
| "event_queue_status_code EQ_ERR_TERMINAL = - 8"
| "event_queue_status_code EQ_ERR_EMPTY = - 6"

definition event_queue_status_is_ok :: "event_queue_status \<Rightarrow> bool" where
  "event_queue_status_is_ok s \<longleftrightarrow> event_queue_status_code s \<ge> 0"

fun event_queue_status_name :: "event_queue_status \<Rightarrow> string" where
  "event_queue_status_name EQ_OK = ''OK''"
| "event_queue_status_name EQ_OK_EVICTED_VICTIM = ''OK_EVICTED_VICTIM''"
| "event_queue_status_name EQ_ERR_NULL = ''ERR_NULL''"
| "event_queue_status_name EQ_ERR_CAPACITY = ''ERR_CAPACITY''"
| "event_queue_status_name EQ_ERR_EVENT = ''ERR_EVENT''"
| "event_queue_status_name EQ_ERR_FULL = ''ERR_FULL''"
| "event_queue_status_name EQ_ERR_FULL_FAULT = ''ERR_FULL_FAULT''"
| "event_queue_status_name EQ_ERR_RESERVED_FAULT_SLOTS = ''ERR_RESERVED_FAULT_SLOTS''"
| "event_queue_status_name EQ_ERR_TERMINAL = ''ERR_TERMINAL''"
| "event_queue_status_name EQ_ERR_EMPTY = ''ERR_EMPTY''"

record queue_counters =
  qc_pushed :: u32
  qc_popped :: u32
  qc_dropped :: u32
  qc_rejected :: u32
  qc_overflow_events :: u32
  qc_consecutive_overflows :: u32
  qc_high_water :: u32
  qc_hard_fault_escalations :: u32

record event_queue =
  eq_slots :: "event list"
  eq_capacity :: u16
  eq_size :: u16
  eq_fault_count :: u16
  eq_reserved_fault_slots :: u16
  eq_hard_fault_hooks :: hard_fault_hooks
  eq_hard_fault_terminal :: bool
  eq_next_sequence :: u32
  eq_next_event_id :: u32
  eq_counters :: queue_counters

definition zero_counters :: queue_counters where
  [init_defs]: "zero_counters = \<lparr>qc_pushed = 0, qc_popped = 0, qc_dropped = 0, qc_rejected = 0,
     qc_overflow_events = 0, qc_consecutive_overflows = 0, qc_high_water = 0,
     qc_hard_fault_escalations = 0\<rparr>"

definition zero_queue :: event_queue where
  [init_defs]: "zero_queue = \<lparr>eq_slots = [], eq_capacity = 0, eq_size = 0, eq_fault_count = 0,
     eq_reserved_fault_slots = 0, eq_hard_fault_hooks = no_hooks,
     eq_hard_fault_terminal = False, eq_next_sequence = 0, eq_next_event_id = 0,
     eq_counters = zero_counters\<rparr>"

subsection \<open>Internals\<close>

definition queue_remove_at :: "event_queue \<Rightarrow> nat \<Rightarrow> event_queue" where
  "queue_remove_at q index =
     (if eq_size q = 0 \<or> index \<ge> unat (eq_size q) then q
      else
        let last = unat (eq_size q) - 1 in
        if index \<noteq> last then
          let s1 = (eq_slots q)[index := eq_slots q ! last];
              s2 = queue_sift_down s1 last index;
              s3 = queue_sift_up s2 index
          in q\<lparr>eq_slots := s3, eq_size := of_nat last\<rparr>
        else q\<lparr>eq_size := of_nat last\<rparr>)"

definition queue_find_newest_non_fault :: "event_queue \<Rightarrow> nat option" where
  "queue_find_newest_non_fault q = newest_non_fault (eq_slots q) [0..<unat (eq_size q)] None"

text \<open>Advance a 1-based counter, skipping zero: the value is also the counter's new content.\<close>

definition queue_next_id :: "u32 \<Rightarrow> u32" where
  "queue_next_id counter = (let value = counter + 1 in if value = 0 then 1 else value)"

definition queue_stored_event :: "event_queue \<Rightarrow> event \<Rightarrow> event" where
  "queue_stored_event q e =
     (let stored = e\<lparr>ev_sequence := queue_next_id (eq_next_sequence q)\<rparr>
      in if ev_event_id stored = EVENT_ID_NONE
         then stored\<lparr>ev_event_id := queue_next_id (eq_next_event_id q)\<rparr>
         else stored)"

definition queue_enqueue :: "event_queue \<Rightarrow> event \<Rightarrow> event_queue_status \<times> event_queue" where
  "queue_enqueue q e =
     (let index = unat (eq_size q);
          stored = queue_stored_event q e;
          q1 = q\<lparr>eq_next_sequence := queue_next_id (eq_next_sequence q),
                 eq_next_event_id := (if ev_event_id e = EVENT_ID_NONE
                    then queue_next_id (eq_next_event_id q) else eq_next_event_id q),
                 eq_slots := (eq_slots q)[index := stored],
                 eq_size := of_nat (index + 1)\<rparr>;
          q2 = (if ev_priority_class stored = PRIORITY_CLASS_FAULT
                then q1\<lparr>eq_fault_count := eq_fault_count q1 + 1\<rparr> else q1);
          q3 = q2\<lparr>eq_slots := queue_sift_up (eq_slots q2) index\<rparr>;
          c1 = (eq_counters q3)\<lparr>qc_pushed := qc_pushed (eq_counters q3) + 1\<rparr>;
          c2 = (if qc_high_water c1 < ucast (eq_size q3)
                then c1\<lparr>qc_high_water := ucast (eq_size q3)\<rparr> else c1)
      in (EQ_OK, q3\<lparr>eq_counters := c2\<rparr>))"

subsection \<open>Lifecycle\<close>

fun event_queue_init_with_reserved ::
    "event_queue option \<Rightarrow> event list \<Rightarrow> u16 \<Rightarrow> u16 \<Rightarrow> bool \<times> event_queue option" where
  "event_queue_init_with_reserved None storage capacity reserved = (False, None)"
| "event_queue_init_with_reserved (Some q) storage capacity reserved =
     (if storage = [] \<or> capacity = 0 \<or> capacity > QUEUE_MAX_CAPACITY \<or> reserved > capacity
      then (False, Some zero_queue)
      else (True, Some (zero_queue\<lparr>eq_slots := storage, eq_capacity := capacity, eq_size := 0,
              eq_fault_count := 0, eq_reserved_fault_slots := reserved,
              eq_next_sequence := 0, eq_next_event_id := 0\<rparr>)))"

definition event_queue_init ::
    "event_queue option \<Rightarrow> event list \<Rightarrow> u16 \<Rightarrow> bool \<times> event_queue option" where
  "event_queue_init q storage capacity =
     event_queue_init_with_reserved q storage capacity
       (if capacity \<le> DEFAULT_RESERVED_FAULT_SLOTS
        then (if capacity > 0 then capacity - 1 else 0)
        else DEFAULT_RESERVED_FAULT_SLOTS)"

fun event_queue_is_valid :: "event_queue option \<Rightarrow> bool" where
  "event_queue_is_valid None = False"
| "event_queue_is_valid (Some q) =
     (eq_slots q \<noteq> [] \<and> eq_capacity q > 0 \<and> eq_capacity q \<le> QUEUE_MAX_CAPACITY \<and>
      eq_reserved_fault_slots q \<le> eq_capacity q \<and> eq_size q \<le> eq_capacity q \<and>
      eq_fault_count q \<le> eq_size q)"

fun event_queue_set_hard_fault_hooks ::
    "event_queue option \<Rightarrow> hard_fault_hooks option \<Rightarrow> bool \<times> event_queue option" where
  "event_queue_set_hard_fault_hooks None hooks = (False, None)"
| "event_queue_set_hard_fault_hooks (Some q) None = (False, Some q)"
| "event_queue_set_hard_fault_hooks (Some q) (Some h) =
     (if \<not> event_queue_is_valid (Some q) then (False, Some q)
      else if \<not> write_retention_register h \<or> \<not> hal_fail_safe h \<or> \<not> iwdg_escalate h
      then (False, Some q)
      else (True, Some (q\<lparr>eq_hard_fault_hooks := h\<rparr>)))"

definition queue_field :: "(event_queue \<Rightarrow> u16) \<Rightarrow> event_queue option \<Rightarrow> u16" where
  "queue_field f q = (if \<not> event_queue_is_valid q then 0 else f (the q))"

definition event_queue_reserved_fault_slots :: "event_queue option \<Rightarrow> u16" where
  "event_queue_reserved_fault_slots = queue_field eq_reserved_fault_slots"
definition event_queue_capacity :: "event_queue option \<Rightarrow> u16" where
  "event_queue_capacity = queue_field eq_capacity"
definition event_queue_size :: "event_queue option \<Rightarrow> u16" where
  "event_queue_size = queue_field eq_size"
definition event_queue_fault_depth :: "event_queue option \<Rightarrow> u16" where
  "event_queue_fault_depth = queue_field eq_fault_count"

definition event_queue_is_empty :: "event_queue option \<Rightarrow> bool" where
  "event_queue_is_empty q \<longleftrightarrow> event_queue_is_valid q \<and> eq_size (the q) = 0"

definition event_queue_is_full :: "event_queue option \<Rightarrow> bool" where
  "event_queue_is_full q \<longleftrightarrow> event_queue_is_valid q \<and> eq_size (the q) \<ge> eq_capacity (the q)"

definition event_queue_is_terminal :: "event_queue option \<Rightarrow> bool" where
  "event_queue_is_terminal q \<longleftrightarrow> event_queue_is_valid q \<and> eq_hard_fault_terminal (the q)"

subsection \<open>Producer side\<close>

definition count_overflow :: "event_queue \<Rightarrow> event_queue" where
  "count_overflow q = (let c = eq_counters q in
     q\<lparr>eq_counters := c\<lparr>qc_overflow_events := qc_overflow_events c + 1,
        qc_consecutive_overflows := qc_consecutive_overflows c + 1\<rparr>\<rparr>)"

definition count_dropped :: "event_queue \<Rightarrow> event_queue" where
  "count_dropped q = (let c = eq_counters q in
     q\<lparr>eq_counters := c\<lparr>qc_dropped := qc_dropped c + 1\<rparr>\<rparr>)"

definition count_rejected :: "event_queue \<Rightarrow> event_queue" where
  "count_rejected q = (let c = eq_counters q in
     q\<lparr>eq_counters := c\<lparr>qc_rejected := qc_rejected c + 1\<rparr>\<rparr>)"

definition count_escalation :: "event_queue \<Rightarrow> event_queue" where
  "count_escalation q = (let c = eq_counters q in
     q\<lparr>eq_counters := c\<lparr>qc_hard_fault_escalations := qc_hard_fault_escalations c + 1\<rparr>\<rparr>)"

definition reset_consecutive :: "event_queue \<Rightarrow> event_queue" where
  "reset_consecutive q =
     q\<lparr>eq_counters := (eq_counters q)\<lparr>qc_consecutive_overflows := 0\<rparr>\<rparr>"

type_synonym push_result = "event_queue_status option \<times> event_queue \<times> hook_call list"

text \<open>The physical-overflow tail of the push: eviction of the newest non-fault, or escalation.\<close>

definition queue_push_full :: "event_queue \<Rightarrow> event \<Rightarrow> push_result" where
  "queue_push_full q0 e =
     (let q = count_overflow q0 in
      if ev_priority_class e \<noteq> PRIORITY_CLASS_FAULT
      then (Some EQ_ERR_FULL, count_dropped q, [])
      else case queue_find_newest_non_fault q of
        None \<Rightarrow>
          let q1 = (count_escalation (count_dropped q))\<lparr>eq_hard_fault_terminal := True\<rparr>;
              (ret, calls) = hard_fault_escalate (Some (eq_hard_fault_hooks q1))
          in (case ret of None \<Rightarrow> None | Some _ \<Rightarrow> Some EQ_ERR_FULL_FAULT, q1, calls)
      | Some victim \<Rightarrow>
          (case queue_enqueue (count_dropped (queue_remove_at q victim)) e of
             (status, q2) \<Rightarrow>
               (Some (if status \<noteq> EQ_OK then EQ_ERR_FULL_FAULT else EQ_OK_EVICTED_VICTIM),
                q2, [])))"

definition queue_push :: "event_queue \<Rightarrow> event \<Rightarrow> push_result" where
  "queue_push q e =
     (if \<not> event_queue_is_valid (Some q) then (Some EQ_ERR_NULL, q, [])
      else if eq_hard_fault_terminal q
      then (Some EQ_ERR_TERMINAL, count_dropped (count_overflow q), [])
      else if \<not> event_is_valid (Some e) then (Some EQ_ERR_EVENT, count_rejected q, [])
      else if ev_priority_class e \<noteq> PRIORITY_CLASS_FAULT \<and> eq_reserved_fault_slots q \<noteq> 0 \<and>
              eq_size q - eq_fault_count q \<ge> eq_capacity q - eq_reserved_fault_slots q
      then (Some EQ_ERR_RESERVED_FAULT_SLOTS, count_dropped (count_overflow q), [])
      else if eq_size q < eq_capacity q
      then (case queue_enqueue (reset_consecutive q) e of (st, q') \<Rightarrow> (Some st, q', []))
      else queue_push_full q e)"

fun event_queue_push ::
    "event_queue option \<Rightarrow> event option
      \<Rightarrow> event_queue_status option \<times> event_queue option \<times> hook_call list" where
  "event_queue_push None e = (Some EQ_ERR_NULL, None, [])"
| "event_queue_push (Some q) None = (Some EQ_ERR_NULL, Some q, [])"
| "event_queue_push (Some q) (Some e) =
     (case queue_push q e of (st, q', calls) \<Rightarrow> (st, Some q', calls))"

definition emitted_event ::
    "event_type \<Rightarrow> priority_class \<Rightarrow> sequence \<Rightarrow> time_us \<Rightarrow> event_payload option \<Rightarrow> event" where
  "emitted_event type prio cause ts payload =
     (let e = zero_event\<lparr>ev_type := type, ev_priority_class := prio,
                ev_cause_sequence := cause, ev_timestamp_us := ts\<rparr>
      in case payload of None \<Rightarrow> e | Some p \<Rightarrow> e\<lparr>ev_payload := p\<rparr>)"

definition event_queue_emit ::
    "event_queue option \<Rightarrow> 'ctx clock option \<Rightarrow> event_type \<Rightarrow> priority_class \<Rightarrow> sequence
      \<Rightarrow> event_payload option
      \<Rightarrow> event_queue_status option \<times> event_queue option \<times> hook_call list" where
  "event_queue_emit q clock type prio cause payload =
     (if q = None \<or> \<not> clock_is_valid clock then (Some EQ_ERR_NULL, q, [])
      else event_queue_push q
             (Some (emitted_event type prio cause (clock_now_us clock) payload)))"

definition event_queue_emit_generated ::
    "event_queue option \<Rightarrow> event option \<Rightarrow> event_type \<Rightarrow> event_payload option \<Rightarrow> time_us
      \<Rightarrow> event_queue_status option \<times> event_queue option \<times> hook_call list" where
  "event_queue_emit_generated q cause type payload delay =
     (case (q, cause) of
        (Some _, Some c) \<Rightarrow>
          event_queue_push q (Some (emitted_event type PRIORITY_CLASS_GENERATED (ev_sequence c)
            (time_sat_add (ev_timestamp_us c) delay) payload))
      | _ \<Rightarrow> (Some EQ_ERR_NULL, q, []))"

subsection \<open>Consumer side\<close>

definition event_queue_peek :: "event_queue option \<Rightarrow> event option" where
  "event_queue_peek q =
     (if \<not> event_queue_is_valid q \<or> eq_size (the q) = 0 then None
      else Some (eq_slots (the q) ! 0))"

text \<open>The third component is what \<open>*out_event\<close> receives when \<open>out_event\<close> is not NULL.\<close>

definition queue_pop :: "event_queue \<Rightarrow> event_queue_status \<times> event_queue \<times> event option" where
  "queue_pop q =
     (if \<not> event_queue_is_valid (Some q) then (EQ_ERR_NULL, q, None)
      else if eq_size q = 0 then (EQ_ERR_EMPTY, q, None)
      else
        let out = eq_slots q ! 0;
            q1 = (if ev_priority_class out = PRIORITY_CLASS_FAULT
                  then q\<lparr>eq_fault_count := eq_fault_count q - 1\<rparr> else q);
            q2 = queue_remove_at q1 0;
            q3 = q2\<lparr>eq_counters := (eq_counters q2)\<lparr>qc_popped := qc_popped (eq_counters q2) + 1\<rparr>\<rparr>
        in (EQ_OK, q3, Some out))"

fun event_queue_pop ::
    "event_queue option \<Rightarrow> event_queue_status \<times> event_queue option \<times> event option" where
  "event_queue_pop None = (EQ_ERR_NULL, None, None)"
| "event_queue_pop (Some q) = (case queue_pop q of (st, q', out) \<Rightarrow> (st, Some q', out))"

definition event_queue_clear :: "event_queue option \<Rightarrow> event_queue option" where
  "event_queue_clear q =
     (if \<not> event_queue_is_valid q then q
      else Some ((the q)\<lparr>eq_size := 0, eq_fault_count := 0\<rparr>))"

subsection \<open>Diagnostics\<close>

definition event_queue_counters :: "event_queue option \<Rightarrow> queue_counters option" where
  "event_queue_counters q =
     (if \<not> event_queue_is_valid q then None else Some (eq_counters (the q)))"

definition event_queue_overflow_is_persistent :: "event_queue option \<Rightarrow> bool" where
  "event_queue_overflow_is_persistent q \<longleftrightarrow> event_queue_is_valid q \<and>
     qc_consecutive_overflows (eq_counters (the q)) \<ge> PERSISTENT_OVERFLOW_THRESHOLD"

end
