(* ===== verification/Event_Queue_Inv.thy ===== *)
theory Event_Queue_Inv
  imports Event_Queue
begin

text \<open>
  The well-formedness invariant of the event queue and what each operation does to the
  multiset of queued events. \<open>queue_wf\<close> says that the record describes a heap whose fault
  count is exact; \<open>path_a\<close> is the admission bound of docs/system/event-ordering.md section 11:
  ordinary events never hold more than the unreserved slots.
\<close>

definition queue_events :: "event_queue \<Rightarrow> event multiset" where
  "queue_events q = mset (take (unat (eq_size q)) (eq_slots q))"

abbreviation is_fault :: "event \<Rightarrow> bool" where
  "is_fault e \<equiv> ev_priority_class e = PRIORITY_CLASS_FAULT"

definition queue_faults :: "event_queue \<Rightarrow> event multiset" where
  "queue_faults q = filter_mset is_fault (queue_events q)"

definition queue_ordinary :: "event_queue \<Rightarrow> event multiset" where
  "queue_ordinary q = filter_mset (\<lambda>e. \<not> is_fault e) (queue_events q)"

definition queue_wf :: "event_queue \<Rightarrow> bool" where
  "queue_wf q \<longleftrightarrow> event_queue_is_valid (Some q) \<and>
     unat (eq_capacity q) \<le> length (eq_slots q) \<and>
     heap_on (eq_slots q) (unat (eq_size q)) \<and>
     unat (eq_fault_count q) = size (queue_faults q)"

definition path_a :: "event_queue \<Rightarrow> bool" where
  "path_a q \<longleftrightarrow> (eq_reserved_fault_slots q \<noteq> 0 \<longrightarrow>
     size (queue_ordinary q) \<le> unat (eq_capacity q) - unat (eq_reserved_fault_slots q))"

definition queue_inv :: "event_queue \<Rightarrow> bool" where
  "queue_inv q \<longleftrightarrow> queue_wf q \<and> path_a q"

subsection \<open>Consequences of well-formedness\<close>

lemma queue_wf_bounds:
  assumes "queue_wf q"
  shows "unat (eq_size q) \<le> unat (eq_capacity q)"
    and "unat (eq_capacity q) \<le> 32767"
    and "0 < unat (eq_capacity q)"
    and "unat (eq_size q) \<le> length (eq_slots q)"
    and "unat (eq_reserved_fault_slots q) \<le> unat (eq_capacity q)"
    and "unat (eq_fault_count q) \<le> unat (eq_size q)"
    and "heap_on (eq_slots q) (unat (eq_size q))"
    and "event_queue_is_valid (Some q)"
proof -
  have v: "event_queue_is_valid (Some q)" and c: "unat (eq_capacity q) \<le> length (eq_slots q)"
    and h: "heap_on (eq_slots q) (unat (eq_size q))"
    using assms by (simp_all add: queue_wf_def)
  show "unat (eq_size q) \<le> unat (eq_capacity q)"
    and "unat (eq_reserved_fault_slots q) \<le> unat (eq_capacity q)"
    and "unat (eq_fault_count q) \<le> unat (eq_size q)"
    using v by (simp_all add: word_le_nat_alt)
  then show "unat (eq_size q) \<le> length (eq_slots q)" using c by simp
  show "unat (eq_capacity q) \<le> 32767"
    using v by (simp add: word_le_nat_alt QUEUE_MAX_CAPACITY_def)
  show "0 < unat (eq_capacity q)" using v by (simp add: word_less_nat_alt)
  show "heap_on (eq_slots q) (unat (eq_size q))" "event_queue_is_valid (Some q)" by fact+
qed

lemma size_queue_events: "queue_wf q \<Longrightarrow> size (queue_events q) = unat (eq_size q)"
  using queue_wf_bounds(4) [of q] by (simp add: queue_events_def)

lemma faults_plus_ordinary: "size (queue_faults q) + size (queue_ordinary q) = size (queue_events q)"
  unfolding queue_faults_def queue_ordinary_def
  by (metis multiset_partition size_union)

lemma event_in_queue_iff:
  assumes "queue_wf q"
  shows "e \<in># queue_events q \<longleftrightarrow> (\<exists>i < unat (eq_size q). e = eq_slots q ! i)"
  using queue_wf_bounds(4) [OF assms]
  by (auto simp: queue_events_def in_set_conv_nth min_def)

lemma queue_events_empty_iff: "queue_wf q \<Longrightarrow> queue_events q = {#} \<longleftrightarrow> eq_size q = 0"
  using size_queue_events [of q] by (metis size_eq_0_iff_empty unat_eq_zero)

lemma queue_field_valid [simp]: "queue_wf q \<Longrightarrow> queue_field f (Some q) = f q"
  using queue_wf_bounds(8) [of q] by (simp add: queue_field_def del: event_queue_is_valid.simps)

subsection \<open>Removal\<close>

lemma remove_at_slots:
  assumes heap: "heap_on s n" and len: "n \<le> length s" and k: "k < n" "k \<noteq> n - 1"
  defines "s1 \<equiv> s[k := s ! (n - 1)]"
  defines "s3 \<equiv> queue_sift_up (queue_sift_down s1 (n - 1) k) k"
  shows "heap_on s3 (n - 1)" and "mset (take (n - 1) s3) = mset (take n s) - {#s ! k#}"
    and "length s3 = length s"
proof -
  have k': "k < n - 1" using k by simp
  have len1: "n - 1 \<le> length s1" using len by (simp add: s1_def)
  have ord: "event_key (s ! heap_parent i) \<le> event_key (s ! i)" if "i < n" "0 < i" for i
    using heap that by (simp add: heap_on_def)
  have nth: "s1 ! i = (if i = k then s ! (n - 1) else s ! i)" if "i < n" for i
    using that len by (simp add: s1_def nth_list_update)
  have child: "event_key (s ! heap_parent k) \<le> event_key (s ! c)"
    if "0 < k" "c < n" "0 < c" "heap_parent c = k" for c
    using ord [of c] ord [of k] that k by (auto intro: order_trans)
  have par: "heap_parent i < i" if "0 < i" for i using that by (rule heap_parent_less)
  have "heap_down_inv s1 (n - 1) k k"
    unfolding heap_down_inv_def
  proof (intro conjI allI impI)
    fix i assume "i < n - 1" "0 < i \<and> i \<noteq> k \<and> heap_parent i \<noteq> k"
    then show "event_key (s1 ! heap_parent i) \<le> event_key (s1 ! i)"
      using ord [of i] par [of i] by (simp add: nth)
  next
    fix c assume c: "0 < k" "c < n - 1" "0 < c \<and> heap_parent c = k"
    then show "event_key (s1 ! heap_parent k) \<le> event_key (s1 ! c)"
      using child [of c] par [of c] par [of k] k by (simp add: nth)
    from c show "event_key (s1 ! heap_parent k) \<le> event_key (s1 ! c)"
      using child [of c] par [of c] par [of k] k by (simp add: nth)
  qed auto
  then have "heap_but_up (queue_sift_down s1 (n - 1) k) (n - 1) k"
    using len1 by (rule sift_down_but_up)
  then show "heap_on s3 (n - 1)"
    unfolding s3_def using k' len1 by (intro sift_up_heap) auto
  have "mset (take (n - 1) s3) = mset (take (n - 1) s1)"
    unfolding s3_def using k' len1 by (simp add: sift_up_mset sift_down_mset)
  also have "\<dots> = add_mset (s ! (n - 1)) (mset (take (n - 1) s) - {#s ! k#})"
    using k' len by (simp add: s1_def take_update_swap mset_update)
  also have "\<dots> = mset (take n s) - {#s ! k#}"
  proof -
    have "mset (take n s) = add_mset (s ! (n - 1)) (mset (take (n - 1) s))"
      using mset_take_Suc [of "n - 1" s] k len by simp
    moreover have "s ! k \<in># mset (take (n - 1) s)"
      using k' len by (auto simp: in_set_conv_nth min_def intro!: exI [of _ k])
    ultimately show ?thesis by simp
  qed
  finally show "mset (take (n - 1) s3) = mset (take n s) - {#s ! k#}" .
  show "length s3 = length s" by (simp add: s3_def s1_def)
qed

lemma queue_remove_at_fields [simp]:
  "eq_capacity (queue_remove_at q k) = eq_capacity q"
  "eq_fault_count (queue_remove_at q k) = eq_fault_count q"
  "eq_reserved_fault_slots (queue_remove_at q k) = eq_reserved_fault_slots q"
  "eq_hard_fault_hooks (queue_remove_at q k) = eq_hard_fault_hooks q"
  "eq_hard_fault_terminal (queue_remove_at q k) = eq_hard_fault_terminal q"
  "eq_next_sequence (queue_remove_at q k) = eq_next_sequence q"
  "eq_next_event_id (queue_remove_at q k) = eq_next_event_id q"
  "eq_counters (queue_remove_at q k) = eq_counters q"
  "length (eq_slots (queue_remove_at q k)) = length (eq_slots q)"
  by (simp_all add: queue_remove_at_def Let_def)

lemma queue_remove_at_heap:
  assumes heap: "heap_on (eq_slots q) (unat (eq_size q))"
    and len: "unat (eq_size q) \<le> length (eq_slots q)"
    and k: "k < unat (eq_size q)"
  shows "unat (eq_size (queue_remove_at q k)) = unat (eq_size q) - 1"
    and "heap_on (eq_slots (queue_remove_at q k)) (unat (eq_size q) - 1)"
    and "queue_events (queue_remove_at q k) = queue_events q - {#eq_slots q ! k#}"
proof -
  let ?n = "unat (eq_size q)"
  have sz: "eq_size q \<noteq> 0" using k by auto
  have small: "unat (of_nat (?n - 1) :: u16) = ?n - 1"
    using unat_u16_lt [of "eq_size q"] by (intro unat_of_nat_small) simp
  show 1: "unat (eq_size (queue_remove_at q k)) = ?n - 1"
    using sz k small by (simp add: queue_remove_at_def Let_def)
  show "heap_on (eq_slots (queue_remove_at q k)) (?n - 1)"
  proof (cases "k = ?n - 1")
    case True
    with heap sz k show ?thesis by (auto simp: queue_remove_at_def heap_on_def)
  next
    case False
    with remove_at_slots(1) [OF heap len k] sz k show ?thesis
      by (simp add: queue_remove_at_def Let_def)
  qed
  show "queue_events (queue_remove_at q k) = queue_events q - {#eq_slots q ! k#}"
  proof (cases "k = ?n - 1")
    case True
    have "mset (take ?n (eq_slots q)) =
        add_mset (eq_slots q ! (?n - 1)) (mset (take (?n - 1) (eq_slots q)))"
      using mset_take_Suc [of "?n - 1" "eq_slots q"] k len by simp
    with True sz k 1 show ?thesis
      by (simp add: queue_remove_at_def queue_events_def)
  next
    case False
    with remove_at_slots(2) [OF heap len k] sz k small show ?thesis
      by (simp add: queue_remove_at_def Let_def queue_events_def)
  qed
qed


subsection \<open>The drop-newest victim\<close>

lemma newest_non_fault_None:
  "newest_non_fault s is best = None \<longleftrightarrow> best = None \<and> (\<forall>i \<in> set is. is_fault (s ! i))"
  by (induction s "is" best rule: newest_non_fault.induct) (auto split: option.splits)

lemma newest_non_fault_Some:
  assumes "newest_non_fault s is best = Some v"
  shows "v \<in> set is \<and> \<not> is_fault (s ! v) \<or> best = Some v"
    and "i \<in> set is \<Longrightarrow> \<not> is_fault (s ! i) \<Longrightarrow> event_key (s ! i) \<le> event_key (s ! v)"
    and "best = Some b \<Longrightarrow> event_key (s ! b) \<le> event_key (s ! v)"
  using assms
proof (induction s "is" best arbitrary: b i rule: newest_non_fault.induct)
  case (1 s best)
  { case 1 then show ?case by simp next
    case 2 then show ?case by simp next
    case 3 then show ?case by simp }
next
  case (2 s j "is" best)
  { case 1 then show ?case using 2 by (auto split: if_splits option.splits)
  next
    case 2 then show ?case using "2.IH" by (fastforce split: if_splits option.splits)
  next
    case 3 then show ?case using "2.IH" by (fastforce split: if_splits option.splits) }
qed

lemma find_newest_None:
  assumes "queue_wf q"
  shows "queue_find_newest_non_fault q = None \<longleftrightarrow> queue_ordinary q = {#}"
  using queue_wf_bounds(4) [OF assms]
  by (auto simp: queue_find_newest_non_fault_def newest_non_fault_None queue_ordinary_def
      filter_mset_eq_mempty_iff event_in_queue_iff [OF assms]) blast

lemma find_newest_Some:
  assumes wf: "queue_wf q" and v: "queue_find_newest_non_fault q = Some v"
  shows "v < unat (eq_size q)" and "eq_slots q ! v \<in># queue_ordinary q"
    and "e \<in># queue_ordinary q \<Longrightarrow> event_key e \<le> event_key (eq_slots q ! v)"
proof -
  have v': "newest_non_fault (eq_slots q) [0..<unat (eq_size q)] None = Some v"
    using v by (simp add: queue_find_newest_non_fault_def)
  show lt: "v < unat (eq_size q)" using newest_non_fault_Some(1) [OF v'] by simp
  show "eq_slots q ! v \<in># queue_ordinary q"
    using newest_non_fault_Some(1) [OF v'] lt
    by (auto simp: queue_ordinary_def event_in_queue_iff [OF wf])
  show "event_key e \<le> event_key (eq_slots q ! v)" if "e \<in># queue_ordinary q"
    using that newest_non_fault_Some(2) [OF v']
    by (auto simp: queue_ordinary_def event_in_queue_iff [OF wf])
qed

subsection \<open>Insertion\<close>

lemma counters_frame [simp]:
  "queue_events (q\<lparr>eq_counters := c\<rparr>) = queue_events q"
  "queue_events (q\<lparr>eq_hard_fault_terminal := b\<rparr>) = queue_events q"
  "queue_events (q\<lparr>eq_fault_count := f\<rparr>) = queue_events q"
  "queue_faults (q\<lparr>eq_counters := c\<rparr>) = queue_faults q"
  "queue_faults (q\<lparr>eq_hard_fault_terminal := b\<rparr>) = queue_faults q"
  "queue_ordinary (q\<lparr>eq_counters := c\<rparr>) = queue_ordinary q"
  "queue_ordinary (q\<lparr>eq_hard_fault_terminal := b\<rparr>) = queue_ordinary q"
  "queue_wf (q\<lparr>eq_counters := c\<rparr>) = queue_wf q"
  "queue_wf (q\<lparr>eq_hard_fault_terminal := b\<rparr>) = queue_wf q"
  "path_a (q\<lparr>eq_counters := c\<rparr>) = path_a q"
  "path_a (q\<lparr>eq_hard_fault_terminal := b\<rparr>) = path_a q"
  "queue_inv (q\<lparr>eq_counters := c\<rparr>) = queue_inv q"
  "queue_inv (q\<lparr>eq_hard_fault_terminal := b\<rparr>) = queue_inv q"
  "queue_find_newest_non_fault (q\<lparr>eq_counters := c\<rparr>) = queue_find_newest_non_fault q"
  "queue_stored_event (q\<lparr>eq_counters := c\<rparr>) e = queue_stored_event q e"
  by (simp_all add: queue_events_def queue_faults_def queue_ordinary_def queue_wf_def path_a_def
      queue_inv_def queue_find_newest_non_fault_def queue_stored_event_def Let_def)

lemmas count_defs =
  count_overflow_def count_dropped_def count_rejected_def count_escalation_def
  reset_consecutive_def

lemma stored_event_fields [simp]:
  "ev_priority_class (queue_stored_event q e) = ev_priority_class e"
  "ev_type (queue_stored_event q e) = ev_type e"
  "ev_timestamp_us (queue_stored_event q e) = ev_timestamp_us e"
  "ev_cause_sequence (queue_stored_event q e) = ev_cause_sequence e"
  "ev_payload (queue_stored_event q e) = ev_payload e"
  "ev_sequence (queue_stored_event q e) = queue_next_id (eq_next_sequence q)"
  by (simp_all add: queue_stored_event_def Let_def)

lemma queue_enqueue_status [simp]: "fst (queue_enqueue q e) = EQ_OK"
  by (simp add: queue_enqueue_def Let_def)

lemma queue_enqueue_fields [simp]:
  "eq_capacity (snd (queue_enqueue q e)) = eq_capacity q"
  "eq_reserved_fault_slots (snd (queue_enqueue q e)) = eq_reserved_fault_slots q"
  "eq_hard_fault_hooks (snd (queue_enqueue q e)) = eq_hard_fault_hooks q"
  "eq_hard_fault_terminal (snd (queue_enqueue q e)) = eq_hard_fault_terminal q"
  "eq_next_sequence (snd (queue_enqueue q e)) = queue_next_id (eq_next_sequence q)"
  "length (eq_slots (snd (queue_enqueue q e))) = length (eq_slots q)"
  "eq_size (snd (queue_enqueue q e)) = eq_size q + 1"
  "eq_fault_count (snd (queue_enqueue q e)) =
     (if is_fault e then eq_fault_count q + 1 else eq_fault_count q)"
  by (simp_all add: queue_enqueue_def Let_def)

lemma heap_append:
  assumes "heap_on s n" and "n < length s"
  shows "heap_on (queue_sift_up (s[n := x]) n) (Suc n)"
    and "mset (take (Suc n) (queue_sift_up (s[n := x]) n)) = add_mset x (mset (take n s))"
proof -
  have "heap_but_up (s[n := x]) (Suc n) n"
    unfolding heap_but_up_def
  proof (intro conjI allI impI)
    fix i assume "i < Suc n" "0 < i \<and> i \<noteq> n"
    then show "event_key (s[n := x] ! heap_parent i) \<le> event_key (s[n := x] ! i)"
      using assms(1) heap_parent_less [of i] by (auto simp: heap_on_def)
  next
    fix c assume "c < Suc n" "0 < c \<and> heap_parent c = n"
    then show "event_key (s[n := x] ! heap_parent n) \<le> event_key (s[n := x] ! c)"
      using heap_parent_less [of c] by auto
  qed
  then show "heap_on (queue_sift_up (s[n := x]) n) (Suc n)"
    using assms(2) by (intro sift_up_heap) auto
  show "mset (take (Suc n) (queue_sift_up (s[n := x]) n)) = add_mset x (mset (take n s))"
    using assms(2) by (simp add: sift_up_mset mset_take_Suc)
qed

lemma queue_enqueue_events:
  assumes "unat (eq_size q) < length (eq_slots q)" and "unat (eq_size q) < 65535"
    and "heap_on (eq_slots q) (unat (eq_size q))"
  shows "queue_events (snd (queue_enqueue q e)) = add_mset (queue_stored_event q e) (queue_events q)"
    and "heap_on (eq_slots (snd (queue_enqueue q e))) (Suc (unat (eq_size q)))"
proof -
  have sz: "unat (eq_size q + 1) = Suc (unat (eq_size q))"
    using assms(2) by (intro unat_inc) simp
  have slots: "eq_slots (snd (queue_enqueue q e)) =
      queue_sift_up ((eq_slots q)[unat (eq_size q) := queue_stored_event q e]) (unat (eq_size q))"
    by (simp add: queue_enqueue_def Let_def)
  show "queue_events (snd (queue_enqueue q e)) = add_mset (queue_stored_event q e) (queue_events q)"
    unfolding queue_events_def slots queue_enqueue_fields sz
    using heap_append(2) [OF assms(3,1)] by simp
  show "heap_on (eq_slots (snd (queue_enqueue q e))) (Suc (unat (eq_size q)))"
    unfolding slots by (rule heap_append(1) [OF assms(3,1)])
qed

lemma queue_enqueue_wf:
  assumes wf: "queue_wf q" and room: "eq_size q < eq_capacity q"
  shows "queue_wf (snd (queue_enqueue q e))"
    and "queue_events (snd (queue_enqueue q e)) = add_mset (queue_stored_event q e) (queue_events q)"
proof -
  note b = queue_wf_bounds [OF wf]
  have lt: "unat (eq_size q) < unat (eq_capacity q)" using room by (simp add: word_less_nat_alt)
  have len: "unat (eq_capacity q) \<le> length (eq_slots q)" using wf by (simp add: queue_wf_def)
  have sz: "unat (eq_size q + 1) = Suc (unat (eq_size q))"
    and fc: "unat (eq_fault_count q + 1) = Suc (unat (eq_fault_count q))"
    using lt b(2,6) by (intro unat_inc; simp)+
  show ev: "queue_events (snd (queue_enqueue q e)) =
      add_mset (queue_stored_event q e) (queue_events q)"
    using lt len b(2,7) by (intro queue_enqueue_events) auto
  have heap: "heap_on (eq_slots (snd (queue_enqueue q e))) (Suc (unat (eq_size q)))"
    using lt len b(2,7) by (intro queue_enqueue_events) auto
  have "event_queue_is_valid (Some (snd (queue_enqueue q e)))"
  proof -
    have "unat (eq_size q + 1) \<le> unat (eq_capacity q)"
      and "unat (if is_fault e then eq_fault_count q + 1 else eq_fault_count q) \<le> unat (eq_size q + 1)"
      using lt b(6) sz fc by auto
    moreover have "eq_slots (snd (queue_enqueue q e)) \<noteq> []"
      using b(3) len by (metis length_0_conv queue_enqueue_fields(6) not_less_zero le_zero_eq)
    ultimately show ?thesis using b(8) by (simp add: word_le_nat_alt)
  qed
  then show "queue_wf (snd (queue_enqueue q e))"
    using wf len heap sz fc ev by (simp add: queue_wf_def queue_faults_def)
qed

end
