(* ===== verification/Event_Queue_Push.thy ===== *)
theory Event_Queue_Push
  imports Event_Queue_Inv
begin

text \<open>
  The admission policy of \<open>cancestry_event_queue_push\<close> and the selection of
  \<open>cancestry_event_queue_pop\<close>, as effects on the multiset of queued events: one lemma per
  branch of the code, then the invariant, the protection of queued faults and the pop order.
\<close>

lemma count_invariance [simp]:
  "queue_events (count_overflow q) = queue_events q"
  "queue_events (count_dropped q) = queue_events q"
  "queue_events (count_rejected q) = queue_events q"
  "queue_events (count_escalation q) = queue_events q"
  "queue_events (reset_consecutive q) = queue_events q"
  "queue_inv (count_overflow q) = queue_inv q"
  "queue_inv (count_dropped q) = queue_inv q"
  "queue_inv (count_rejected q) = queue_inv q"
  "queue_inv (count_escalation q) = queue_inv q"
  "queue_inv (reset_consecutive q) = queue_inv q"
  "queue_wf (count_overflow q) = queue_wf q"
  "queue_wf (count_dropped q) = queue_wf q"
  "queue_wf (reset_consecutive q) = queue_wf q"
  "queue_find_newest_non_fault (count_overflow q) = queue_find_newest_non_fault q"
  "queue_stored_event (count_dropped q) e = queue_stored_event q e"
  "queue_stored_event (count_overflow q) e = queue_stored_event q e"
  "queue_stored_event (reset_consecutive q) e = queue_stored_event q e"
  by (simp_all add: count_defs Let_def)

lemma count_fields [simp]:
  "eq_size (count_overflow q) = eq_size q" "eq_size (count_dropped q) = eq_size q"
  "eq_size (reset_consecutive q) = eq_size q"
  "eq_capacity (count_overflow q) = eq_capacity q" "eq_capacity (count_dropped q) = eq_capacity q"
  "eq_capacity (count_escalation q) = eq_capacity q"
  "eq_capacity (count_rejected q) = eq_capacity q"
  "eq_capacity (reset_consecutive q) = eq_capacity q"
  "eq_slots (count_overflow q) = eq_slots q" "eq_slots (count_dropped q) = eq_slots q"
  "eq_reserved_fault_slots (count_overflow q) = eq_reserved_fault_slots q"
  "eq_reserved_fault_slots (count_dropped q) = eq_reserved_fault_slots q"
  "eq_reserved_fault_slots (count_rejected q) = eq_reserved_fault_slots q"
  "eq_reserved_fault_slots (count_escalation q) = eq_reserved_fault_slots q"
  "eq_reserved_fault_slots (reset_consecutive q) = eq_reserved_fault_slots q"
  "eq_hard_fault_hooks (count_overflow q) = eq_hard_fault_hooks q"
  "eq_hard_fault_hooks (count_dropped q) = eq_hard_fault_hooks q"
  "eq_hard_fault_hooks (count_rejected q) = eq_hard_fault_hooks q"
  "eq_hard_fault_hooks (count_escalation q) = eq_hard_fault_hooks q"
  "eq_hard_fault_hooks (reset_consecutive q) = eq_hard_fault_hooks q"
  "eq_hard_fault_terminal (count_overflow q) = eq_hard_fault_terminal q"
  "eq_hard_fault_terminal (count_dropped q) = eq_hard_fault_terminal q"
  "eq_hard_fault_terminal (count_rejected q) = eq_hard_fault_terminal q"
  "eq_hard_fault_terminal (reset_consecutive q) = eq_hard_fault_terminal q"
  "eq_fault_count (count_overflow q) = eq_fault_count q"
  "eq_fault_count (count_dropped q) = eq_fault_count q"
  "eq_next_sequence (count_overflow q) = eq_next_sequence q"
  "eq_next_sequence (count_dropped q) = eq_next_sequence q"
  "eq_next_sequence (count_rejected q) = eq_next_sequence q"
  "eq_next_sequence (count_escalation q) = eq_next_sequence q"
  "eq_next_sequence (reset_consecutive q) = eq_next_sequence q"
  by (simp_all add: count_defs Let_def)

subsection \<open>One lemma per branch of the push\<close>

abbreviation push_status :: "push_result \<Rightarrow> event_queue_status option" where
  "push_status r \<equiv> fst r"
abbreviation push_queue :: "push_result \<Rightarrow> event_queue" where
  "push_queue r \<equiv> fst (snd r)"
abbreviation push_calls :: "push_result \<Rightarrow> hook_call list" where
  "push_calls r \<equiv> snd (snd r)"

text \<open>The Path A test of the code, on natural numbers.\<close>

lemma path_a_test:
  assumes "queue_wf q"
  shows "eq_size q - eq_fault_count q \<ge> eq_capacity q - eq_reserved_fault_slots q \<longleftrightarrow>
    size (queue_ordinary q) \<ge> unat (eq_capacity q) - unat (eq_reserved_fault_slots q)"
proof -
  note b = queue_wf_bounds [OF assms]
  have "size (queue_ordinary q) = unat (eq_size q) - unat (eq_fault_count q)"
    using faults_plus_ordinary [of q] size_queue_events [OF assms] assms
    by (simp add: queue_wf_def)
  then show ?thesis using b by (simp add: word_le_nat_alt unat_minus_le)
qed

lemma push_terminal:
  assumes "queue_wf q" and "eq_hard_fault_terminal q"
  shows "queue_push q e = (Some EQ_ERR_TERMINAL, count_dropped (count_overflow q), [])"
  using assms queue_wf_bounds(8) [OF assms(1)]
  by (simp add: queue_push_def del: event_queue_is_valid.simps)

lemma push_rejected:
  assumes "queue_wf q" and "\<not> eq_hard_fault_terminal q" and "\<not> event_is_valid (Some e)"
  shows "queue_push q e = (Some EQ_ERR_EVENT, count_rejected q, [])"
  using assms queue_wf_bounds(8) [OF assms(1)]
  by (simp add: queue_push_def del: event_queue_is_valid.simps event_is_valid.simps)

text \<open>The bound under which the code admits an event without looking at physical room.\<close>

definition admissible :: "event_queue \<Rightarrow> event \<Rightarrow> bool" where
  "admissible q e \<longleftrightarrow> is_fault e \<or> eq_reserved_fault_slots q = 0 \<or>
     size (queue_ordinary q) < unat (eq_capacity q) - unat (eq_reserved_fault_slots q)"

lemma push_reserved:
  assumes "queue_wf q" and "\<not> eq_hard_fault_terminal q" and "event_is_valid (Some e)"
    and "\<not> admissible q e"
  shows "queue_push q e =
    (Some EQ_ERR_RESERVED_FAULT_SLOTS, count_dropped (count_overflow q), [])"
  using assms queue_wf_bounds(8) [OF assms(1)] path_a_test [OF assms(1)]
  by (simp add: queue_push_def admissible_def del: event_queue_is_valid.simps event_is_valid.simps)

lemma push_room:
  assumes "queue_wf q" and "\<not> eq_hard_fault_terminal q" and "event_is_valid (Some e)"
    and "admissible q e" and "eq_size q < eq_capacity q"
  shows "queue_push q e = (Some EQ_OK, snd (queue_enqueue (reset_consecutive q) e), [])"
proof -
  have "\<not> (\<not> is_fault e \<and> eq_reserved_fault_slots q \<noteq> 0 \<and>
      eq_size q - eq_fault_count q \<ge> eq_capacity q - eq_reserved_fault_slots q)"
    using assms(4) path_a_test [OF assms(1)] by (auto simp: admissible_def)
  then show ?thesis
    using assms queue_wf_bounds(8) [OF assms(1)] queue_enqueue_status [of "reset_consecutive q" e]
    by (cases "queue_enqueue (reset_consecutive q) e")
      (simp add: queue_push_def del: event_queue_is_valid.simps event_is_valid.simps
        queue_enqueue_status)
qed

lemma push_full:
  assumes "queue_wf q" and "\<not> eq_hard_fault_terminal q" and "event_is_valid (Some e)"
    and "admissible q e" and "\<not> eq_size q < eq_capacity q"
  shows "queue_push q e = queue_push_full q e"
proof -
  have "\<not> (\<not> is_fault e \<and> eq_reserved_fault_slots q \<noteq> 0 \<and>
      eq_size q - eq_fault_count q \<ge> eq_capacity q - eq_reserved_fault_slots q)"
    using assms(4) path_a_test [OF assms(1)] by (auto simp: admissible_def)
  then show ?thesis
    using assms queue_wf_bounds(8) [OF assms(1)]
    by (auto simp: queue_push_def simp del: event_queue_is_valid.simps event_is_valid.simps)
qed

lemma push_full_ordinary:
  "\<not> is_fault e \<Longrightarrow>
   queue_push_full q e = (Some EQ_ERR_FULL, count_dropped (count_overflow q), [])"
  by (simp add: queue_push_full_def Let_def)

lemma push_full_all_faults:
  assumes "queue_wf q" and "is_fault e" and "queue_ordinary q = {#}"
  shows "queue_push_full q e =
    (if hooks_complete (eq_hard_fault_hooks q) then Some EQ_ERR_FULL_FAULT else None,
     (count_escalation (count_dropped (count_overflow q)))\<lparr>eq_hard_fault_terminal := True\<rparr>,
     snd (hard_fault_escalate (Some (eq_hard_fault_hooks q))))"
proof -
  have "queue_find_newest_non_fault q = None" using assms by (simp add: find_newest_None)
  then show ?thesis
    using assms(2) hard_fault_escalate_returns_iff [of "Some (eq_hard_fault_hooks q)"]
    by (cases "hard_fault_escalate (Some (eq_hard_fault_hooks q))")
      (auto simp: queue_push_full_def Let_def simp del: hard_fault_escalate.simps)
qed

lemma push_full_evict:
  assumes wf: "queue_wf q" and f: "is_fault e" and full: "\<not> eq_size q < eq_capacity q"
    and ord: "queue_ordinary q \<noteq> {#}"
  obtains v q' where
    "queue_push_full q e = (Some EQ_OK_EVICTED_VICTIM, q', [])"
    "v \<in># queue_ordinary q" "\<forall>x \<in># queue_ordinary q. event_key x \<le> event_key v"
    "queue_events q' = add_mset (queue_stored_event q e) (queue_events q - {#v#})"
    "queue_wf q'" "eq_capacity q' = eq_capacity q"
    "eq_reserved_fault_slots q' = eq_reserved_fault_slots q"
    "eq_hard_fault_hooks q' = eq_hard_fault_hooks q"
    "\<not> eq_hard_fault_terminal q \<Longrightarrow> \<not> eq_hard_fault_terminal q'"
    "eq_next_sequence q' = queue_next_id (eq_next_sequence q)"
proof -
  note b = queue_wf_bounds [OF wf]
  obtain k where k: "queue_find_newest_non_fault q = Some k"
    using ord find_newest_None [OF wf] by auto
  note found = find_newest_Some [OF wf k]
  let ?v = "eq_slots q ! k"
  let ?r = "queue_remove_at (count_overflow q) k"
  have ro: "unat (eq_size ?r) = unat (eq_size q) - 1"
    "heap_on (eq_slots ?r) (unat (eq_size q) - 1)"
    "queue_events ?r = queue_events q - {#?v#}"
    using queue_remove_at_heap [of "count_overflow q" k] b found(1) by simp_all
  have v: "?v \<in># queue_events q" "\<not> is_fault ?v"
    using found(2) by (auto simp: queue_ordinary_def)
  have faults: "queue_faults ?r = queue_faults q"
    using v ro(3) by (simp add: queue_faults_def filter_mset_single_out)
  have wf_r: "queue_wf (count_dropped ?r)"
  proof -
    have "unat (eq_fault_count q) \<le> unat (eq_size q) - 1"
    proof -
      have "size (queue_faults q) \<le> size (queue_events ?r)"
        using faults size_filter_mset_lesseq [of is_fault "queue_events ?r"]
        by (simp add: queue_faults_def)
      also have "\<dots> = unat (eq_size q) - 1"
        using v(1) size_queue_events [OF wf] ro(3) by (simp add: size_Diff_singleton)
      finally show ?thesis using wf by (simp add: queue_wf_def)
    qed
    moreover have "eq_slots ?r \<noteq> []"
      using b(3) wf by (metis length_0_conv queue_remove_at_fields(9) count_fields(9)
          queue_wf_def not_less_zero le_zero_eq)
    ultimately have "queue_wf ?r"
      using wf b ro faults by (auto simp: queue_wf_def word_le_nat_alt)
    then show ?thesis by simp
  qed
  have "eq_size (count_dropped ?r) < eq_capacity (count_dropped ?r)"
    using ro(1) b found(1) by (simp add: word_less_nat_alt)
  note enq = queue_enqueue_wf [OF wf_r this, of e]
  have st: "queue_stored_event (count_dropped ?r) e = queue_stored_event q e"
    by (simp add: queue_stored_event_def count_defs Let_def)
  show ?thesis
  proof (rule that [of "snd (queue_enqueue (count_dropped ?r) e)" ?v])
    show "queue_push_full q e = (Some EQ_OK_EVICTED_VICTIM, snd (queue_enqueue (count_dropped ?r) e), [])"
      using k f queue_enqueue_status [of "count_dropped ?r" e]
      by (cases "queue_enqueue (count_dropped ?r) e")
        (simp add: queue_push_full_def Let_def del: queue_enqueue_status)
    show "queue_events (snd (queue_enqueue (count_dropped ?r) e)) =
        add_mset (queue_stored_event q e) (queue_events q - {#?v#})"
      using enq(2) st ro(3) by simp
  qed (use enq found in auto)
qed


subsection \<open>The invariant and the queued faults under a push\<close>

lemma queue_wf_ordinary:
  assumes "queue_wf q"
  shows "size (queue_ordinary q) + unat (eq_fault_count q) = unat (eq_size q)"
  using faults_plus_ordinary [of q] size_queue_events [OF assms] assms
  by (simp add: queue_wf_def)

lemma faults_add [simp]:
  assumes "queue_events q' = add_mset (queue_stored_event p e) M"
  shows "queue_faults q' = (if is_fault e then add_mset (queue_stored_event p e) (filter_mset is_fault M)
           else filter_mset is_fault M)"
    and "queue_ordinary q' = (if is_fault e then filter_mset (\<lambda>x. \<not> is_fault x) M
           else add_mset (queue_stored_event p e) (filter_mset (\<lambda>x. \<not> is_fault x) M))"
  using assms by (simp_all add: queue_faults_def queue_ordinary_def)

text \<open>
  The outcome of a push on an invariant queue: refused with the contents unchanged, admitted,
  or admitted in exchange for the newest ordinary event.
\<close>

lemma queue_push_outcome:
  assumes inv: "queue_inv q"
  obtains
    (refused) "queue_events (push_queue (queue_push q e)) = queue_events q"
      "queue_inv (push_queue (queue_push q e))"
      "push_status (queue_push q e) \<notin> {Some EQ_OK, Some EQ_OK_EVICTED_VICTIM}"
  | (admitted) "push_status (queue_push q e) = Some EQ_OK"
      "queue_events (push_queue (queue_push q e)) =
         add_mset (queue_stored_event q e) (queue_events q)"
      "queue_inv (push_queue (queue_push q e))" "admissible q e"
      "eq_size q < eq_capacity q"
  | (evicted) v where "push_status (queue_push q e) = Some EQ_OK_EVICTED_VICTIM"
      "v \<in># queue_ordinary q" "\<forall>x \<in># queue_ordinary q. event_key x \<le> event_key v"
      "queue_events (push_queue (queue_push q e)) =
         add_mset (queue_stored_event q e) (queue_events q - {#v#})"
      "queue_inv (push_queue (queue_push q e))" "is_fault e"
      "\<not> eq_size q < eq_capacity q"
proof -
  have wf: "queue_wf q" and pa: "path_a q" using inv by (auto simp: queue_inv_def)
  have resv: "queue_events (push_queue (queue_push q e)) = queue_events q \<Longrightarrow>
      queue_inv (push_queue (queue_push q e)) \<Longrightarrow>
      push_status (queue_push q e) \<notin> {Some EQ_OK, Some EQ_OK_EVICTED_VICTIM} \<Longrightarrow> thesis"
    by (rule refused)
  consider (dead) "eq_hard_fault_terminal q"
    | (bad) "\<not> eq_hard_fault_terminal q" "\<not> event_is_valid (Some e)"
    | (limit) "\<not> eq_hard_fault_terminal q" "event_is_valid (Some e)" "\<not> admissible q e"
    | (room) "\<not> eq_hard_fault_terminal q" "event_is_valid (Some e)" "admissible q e"
        "eq_size q < eq_capacity q"
    | (full) "\<not> eq_hard_fault_terminal q" "event_is_valid (Some e)" "admissible q e"
        "\<not> eq_size q < eq_capacity q"
    by blast
  then show thesis
  proof cases
    case dead
    then show ?thesis using resv inv by (simp add: push_terminal [OF wf])
  next
    case bad
    then show ?thesis using resv inv by (simp add: push_rejected [OF wf] del: event_is_valid.simps)
  next
    case limit
    then show ?thesis using resv inv by (simp add: push_reserved [OF wf] del: event_is_valid.simps)
  next
    case room
    let ?q' = "snd (queue_enqueue (reset_consecutive q) e)"
    have eq: "queue_push q e = (Some EQ_OK, ?q', [])" using push_room [OF wf] room by simp
    have enq: "queue_wf ?q'" "queue_events ?q' = add_mset (queue_stored_event q e) (queue_events q)"
      using queue_enqueue_wf [of "reset_consecutive q" e] wf room by simp_all
    have "path_a ?q'"
      using pa room(3) enq(2)
      by (auto simp: path_a_def admissible_def queue_ordinary_def)
    with enq show ?thesis using admitted room eq by (simp add: queue_inv_def)
  next
    case full
    note p = push_full [OF wf full]
    show ?thesis
    proof (cases "is_fault e")
      case False
      then show ?thesis using resv inv p by (simp add: push_full_ordinary)
    next
      case True
      show ?thesis
      proof (cases "queue_ordinary q = {#}")
        case True
        then show ?thesis
          using resv inv p push_full_all_faults [OF wf \<open>is_fault e\<close>] by simp
      next
        case False
        obtain v q' where ev: "queue_push_full q e = (Some EQ_OK_EVICTED_VICTIM, q', [])"
          "v \<in># queue_ordinary q" "\<forall>x \<in># queue_ordinary q. event_key x \<le> event_key v"
          "queue_events q' = add_mset (queue_stored_event q e) (queue_events q - {#v#})"
          "queue_wf q'" "eq_capacity q' = eq_capacity q"
          "eq_reserved_fault_slots q' = eq_reserved_fault_slots q"
          using push_full_evict [OF wf True full(4) False] by metis
        have "size (queue_ordinary q') \<le> size (queue_ordinary q)"
          using ev(4) True
          by (auto simp: queue_ordinary_def intro!: size_mset_mono multiset_filter_mono)
        then have "path_a q'" using pa ev(6,7) by (auto simp: path_a_def)
        with ev show ?thesis using evicted [of v] p True full(4) by (simp add: queue_inv_def)
      qed
    qed
  qed
qed

lemma queue_push_inv: "queue_inv q \<Longrightarrow> queue_inv (push_queue (queue_push q e))"
  by (rule queue_push_outcome [of q e]) auto

lemma queue_push_keeps_faults:
  assumes "queue_inv q"
  shows "queue_faults q \<subseteq># queue_faults (push_queue (queue_push q e))"
  using assms
proof (cases rule: queue_push_outcome [of q e])
  case refused
  then show ?thesis by (simp add: queue_faults_def)
next
  case admitted
  then show ?thesis by (simp add: queue_faults_def)
next
  case (evicted v)
  have "\<not> is_fault v" "v \<in># queue_events q"
    using evicted(2) by (auto simp: queue_ordinary_def)
  then have "filter_mset is_fault (queue_events q - {#v#}) = queue_faults q"
    by (simp add: queue_faults_def filter_mset_single_out)
  then show ?thesis using faults_add(1) [OF evicted(4)] by simp
qed

text \<open>Fewer queued faults than reserved slots leave physical room.\<close>

lemma reserve_leaves_room:
  assumes "queue_inv q" and "size (queue_faults q) < unat (eq_reserved_fault_slots q)"
  shows "eq_size q < eq_capacity q"
proof -
  have wf: "queue_wf q" using assms(1) by (simp add: queue_inv_def)
  have "eq_reserved_fault_slots q \<noteq> 0" using assms(2) by auto
  then have "size (queue_ordinary q) \<le> unat (eq_capacity q) - unat (eq_reserved_fault_slots q)"
    using assms(1) by (simp add: queue_inv_def path_a_def)
  then show ?thesis
    using queue_wf_ordinary [OF wf] wf assms(2) queue_wf_bounds(5) [OF wf]
    by (simp add: queue_wf_def word_less_nat_alt)
qed

subsection \<open>Initialisation\<close>

lemma queue_inv_fresh:
  assumes "event_queue_init_with_reserved (Some q0) storage cap res = (True, Some q)"
    and "unat cap \<le> length storage"
  shows "queue_inv q" and "queue_events q = {#}" and "\<not> eq_hard_fault_terminal q"
    and "eq_capacity q = cap" and "eq_reserved_fault_slots q = res"
    and "eq_next_sequence q = 0" and "eq_hard_fault_hooks q = no_hooks"
  using assms
  by (auto simp: init_defs queue_inv_def queue_wf_def path_a_def queue_events_def queue_faults_def
      queue_ordinary_def heap_on_def word_gt_0 split: if_splits)

subsection \<open>The pop\<close>

lemma queue_pop_some:
  assumes inv: "queue_inv q" and ne: "eq_size q \<noteq> 0"
  obtains e q' where "queue_pop q = (EQ_OK, q', Some e)" "e = eq_slots q ! 0"
    "e \<in># queue_events q" "\<forall>x \<in># queue_events q. event_key e \<le> event_key x"
    "queue_events q' = queue_events q - {#e#}" "queue_inv q'"
    "eq_next_sequence q' = eq_next_sequence q"
proof -
  have wf: "queue_wf q" and pa: "path_a q" using inv by (auto simp: queue_inv_def)
  note b = queue_wf_bounds [OF wf]
  let ?e = "eq_slots q ! 0"
  let ?n = "unat (eq_size q)"
  have n: "0 < ?n" using ne by (simp add: unat_gt_0)
  define q1 where "q1 = (if is_fault ?e then q\<lparr>eq_fault_count := eq_fault_count q - 1\<rparr> else q)"
  let ?r = "queue_remove_at q1 0"
  define q3 where "q3 = ?r\<lparr>eq_counters := (eq_counters ?r)\<lparr>qc_popped := qc_popped (eq_counters ?r) + 1\<rparr>\<rparr>"
  have q1 [simp]: "eq_slots q1 = eq_slots q" "eq_size q1 = eq_size q" "eq_capacity q1 = eq_capacity q"
    "eq_reserved_fault_slots q1 = eq_reserved_fault_slots q" "queue_events q1 = queue_events q"
    "eq_next_sequence q1 = eq_next_sequence q"
    by (auto simp: q1_def)
  have pop: "queue_pop q = (EQ_OK, q3, Some ?e)"
    using b(8) ne by (simp add: queue_pop_def q1_def q3_def Let_def del: event_queue_is_valid.simps)
  have mem: "?e \<in># queue_events q" using n event_in_queue_iff [OF wf] by auto
  have min: "\<forall>x \<in># queue_events q. event_key ?e \<le> event_key x"
    using heap_root_min [OF b(7)] by (auto simp: event_in_queue_iff [OF wf])
  have rm: "unat (eq_size ?r) = ?n - 1" "heap_on (eq_slots ?r) (?n - 1)"
    "queue_events ?r = queue_events q - {#?e#}"
    using queue_remove_at_heap [of q1 0] b n by simp_all
  have fsize: "size (queue_faults ?r) = (if is_fault ?e then size (queue_faults q) - 1 else size (queue_faults q))"
    using rm(3) mem
    by (simp add: queue_faults_def filter_mset_single_out size_Diff_singleton)
  have fpos: "is_fault ?e \<Longrightarrow> 0 < size (queue_faults q)"
    using mem by (auto simp: queue_faults_def nonempty_has_size [symmetric] filter_mset_eq_mempty_iff)
  have fc: "unat (eq_fault_count q1) = size (queue_faults ?r)"
    using wf fpos fsize by (auto simp: q1_def queue_wf_def unat_dec)
  have le: "size (queue_faults ?r) \<le> ?n - 1"
    using size_filter_mset_lesseq [of is_fault "queue_events ?r"] rm(3) mem size_queue_events [OF wf]
    by (simp add: queue_faults_def size_Diff_singleton)
  have "eq_slots ?r \<noteq> []"
    using b(4) n by (metis length_0_conv queue_remove_at_fields(9) q1(1) not_less_zero le_zero_eq)
  then have "queue_wf ?r"
    using wf b rm fc le by (auto simp: queue_wf_def word_le_nat_alt)
  moreover have "path_a ?r"
  proof -
    have "size (queue_ordinary ?r) \<le> size (queue_ordinary q)"
      using rm(3) by (auto simp: queue_ordinary_def intro!: size_mset_mono multiset_filter_mono)
    then show ?thesis using pa by (auto simp: path_a_def)
  qed
  ultimately have "queue_inv q3" by (simp add: q3_def queue_inv_def)
  then show thesis
    using that [OF pop refl mem min] rm(3) by (simp add: q3_def)
qed

lemma queue_pop_empty:
  "queue_wf q \<Longrightarrow> eq_size q = 0 \<Longrightarrow> queue_pop q = (EQ_ERR_EMPTY, q, None)"
  using queue_wf_bounds(8) [of q] by (simp add: queue_pop_def del: event_queue_is_valid.simps)

lemma queue_pop_inv: "queue_inv q \<Longrightarrow> queue_inv (fst (snd (queue_pop q)))"
  using queue_pop_empty [of q] queue_pop_some [of q]
  by (metis fst_conv snd_conv queue_inv_def)

lemma queue_clear_inv:
  assumes "queue_inv q"
  obtains q' where "event_queue_clear (Some q) = Some q'" "queue_inv q'" "queue_events q' = {#}"
proof (rule that)
  have wf: "queue_wf q" using assms by (simp add: queue_inv_def)
  show "event_queue_clear (Some q) = Some (q\<lparr>eq_size := 0, eq_fault_count := 0\<rparr>)"
    using queue_wf_bounds(8) [OF wf] by (simp add: event_queue_clear_def del: event_queue_is_valid.simps)
  show "queue_inv (q\<lparr>eq_size := 0, eq_fault_count := 0\<rparr>)"
    using wf by (auto simp: queue_inv_def queue_wf_def path_a_def heap_on_def queue_faults_def
        queue_ordinary_def queue_events_def)
qed (simp add: queue_events_def)

end
