(* ===== verification/Event_Queue_Spec.thy ===== *)
theory Event_Queue_Spec
  imports Event_Queue_Push
begin

text \<open>
  What the event queue promises its clients, as two interfaces: an admission sink (any
  sequence of pushes keeps the invariant and never loses a vital event) and a minimum queue
  (popping until empty yields the contents in key order). Both are interpreted on the model
  of queue.c; the properties of the queue follow.
\<close>

subsection \<open>The producer's interface\<close>

locale admission_sink =
  fixes push :: "'s \<Rightarrow> 'e \<Rightarrow> 's"
    and inv :: "'s \<Rightarrow> bool"
    and vital :: "'s \<Rightarrow> 'e multiset"
    and closed :: "'s \<Rightarrow> bool"
    and contents :: "'s \<Rightarrow> 'e multiset"
  assumes push_inv: "inv q \<Longrightarrow> inv (push q e)"
    and push_vital: "inv q \<Longrightarrow> vital q \<subseteq># vital (push q e)"
    and push_closed: "inv q \<Longrightarrow> closed q \<Longrightarrow> closed (push q e) \<and> contents (push q e) = contents q"
begin

lemma pushes_inv: "inv q \<Longrightarrow> inv (foldl push q es)"
  by (induction es arbitrary: q) (auto simp: push_inv)

lemma pushes_vital: "inv q \<Longrightarrow> vital q \<subseteq># vital (foldl push q es)"
proof (induction es arbitrary: q)
  case Nil
  then show ?case by simp
next
  case (Cons e es)
  have "vital q \<subseteq># vital (push q e)" using Cons.prems by (rule push_vital)
  also have "\<dots> \<subseteq># vital (foldl push (push q e) es)" using Cons by (simp add: push_inv)
  finally show ?case by simp
qed

lemma pushes_closed:
  "inv q \<Longrightarrow> closed q \<Longrightarrow> closed (foldl push q es) \<and> contents (foldl push q es) = contents q"
proof (induction es arbitrary: q)
  case (Cons e es)
  then show ?case using push_closed [of q e] push_inv [of q e] by simp
qed simp

end

definition push_to :: "event_queue \<Rightarrow> event \<Rightarrow> event_queue" where
  "push_to q e = push_queue (queue_push q e)"

lemma push_to_terminal:
  assumes "queue_inv q" and "eq_hard_fault_terminal q"
  shows "eq_hard_fault_terminal (push_to q e)" and "queue_events (push_to q e) = queue_events q"
  using assms by (simp_all add: push_to_def queue_inv_def push_terminal)

interpretation eq_sink: admission_sink push_to queue_inv queue_faults eq_hard_fault_terminal queue_events
  by unfold_locales
    (auto simp: push_to_def [abs_def] queue_push_inv queue_push_keeps_faults
      intro: push_to_terminal [unfolded push_to_def])

subsection \<open>The consumer's interface\<close>

text \<open>A dispatcher's loop: pop until the queue reports empty, at most \<open>n\<close> times.\<close>

fun drain_with :: "('q \<Rightarrow> ('e \<times> 'q) option) \<Rightarrow> nat \<Rightarrow> 'q \<Rightarrow> 'e list \<times> 'q" where
  "drain_with pop 0 q = ([], q)"
| "drain_with pop (Suc n) q =
     (case pop q of None \<Rightarrow> ([], q)
      | Some (e, q') \<Rightarrow> (case drain_with pop n q' of (es, r) \<Rightarrow> (e # es, r)))"

locale min_queue =
  fixes pop :: "'q \<Rightarrow> ('e \<times> 'q) option"
    and inv :: "'q \<Rightarrow> bool"
    and contents :: "'q \<Rightarrow> 'e multiset"
    and key :: "'e \<Rightarrow> 'k::linorder"
  assumes pop_none: "inv q \<Longrightarrow> pop q = None \<longleftrightarrow> contents q = {#}"
    and pop_mem: "inv q \<Longrightarrow> pop q = Some (e, q') \<Longrightarrow> e \<in># contents q"
    and pop_min: "inv q \<Longrightarrow> pop q = Some (e, q') \<Longrightarrow> x \<in># contents q \<Longrightarrow> key e \<le> key x"
    and pop_rest: "inv q \<Longrightarrow> pop q = Some (e, q') \<Longrightarrow> contents q' = contents q - {#e#}"
    and pop_inv: "inv q \<Longrightarrow> pop q = Some (e, q') \<Longrightarrow> inv q'"
begin

lemma drain_all:
  "inv q \<Longrightarrow> size (contents q) \<le> n \<Longrightarrow>
   mset (fst (drain_with pop n q)) = contents q \<and>
   sorted (map key (fst (drain_with pop n q))) \<and>
   contents (snd (drain_with pop n q)) = {#} \<and> inv (snd (drain_with pop n q))"
proof (induction n arbitrary: q)
  case 0
  then show ?case by simp
next
  case (Suc n)
  show ?case
  proof (cases "pop q")
    case None
    then have "contents q = {#}" using pop_none [OF Suc.prems(1)] by blast
    then show ?thesis using Suc.prems(1) by (simp add: None)
  next
    case (Some eq)
    obtain e q' where eq: "eq = (e, q')" by (cases eq)
    note p = Some [unfolded eq]
    obtain es r where d: "drain_with pop n q' = (es, r)" by (cases "drain_with pop n q'")
    have rest: "contents q' = contents q - {#e#}" "e \<in># contents q" "inv q'"
      using pop_rest pop_mem pop_inv Suc.prems(1) p by blast+
    then have "size (contents q') \<le> n" using Suc.prems(2) by (simp add: size_Diff_singleton)
    then have IH: "mset es = contents q'" "sorted (map key es)" "contents r = {#}" "inv r"
      using Suc.IH [OF rest(3)] d by auto
    have "\<forall>x \<in> set es. key e \<le> key x"
      using pop_min [OF Suc.prems(1) p] IH(1) rest(1)
      by (metis in_diffD set_mset_mset)
    then show ?thesis using p d IH rest by simp
  qed
qed

lemma drain_keys:
  "inv q \<Longrightarrow> map key (fst (drain_with pop (size (contents q)) q)) =
     sorted_list_of_multiset (image_mset key (contents q))"
  using drain_all [of q "size (contents q)"]
  by (metis mset_map order_refl sorted_list_of_multiset_mset sorted_sort_id)

end

definition queue_take :: "event_queue \<Rightarrow> (event \<times> event_queue) option" where
  "queue_take q = (case queue_pop q of (EQ_OK, q', Some e) \<Rightarrow> Some (e, q') | _ \<Rightarrow> None)"

lemma queue_take_cases:
  assumes "queue_inv q"
  shows "eq_size q = 0 \<and> queue_take q = None \<or>
    (\<exists>e q'. queue_take q = Some (e, q') \<and> e = eq_slots q ! 0 \<and> e \<in># queue_events q \<and>
       (\<forall>x \<in># queue_events q. event_key e \<le> event_key x) \<and>
       queue_events q' = queue_events q - {#e#} \<and> queue_inv q' \<and>
       eq_next_sequence q' = eq_next_sequence q)"
proof (cases "eq_size q = 0")
  case True
  then show ?thesis using assms by (simp add: queue_take_def queue_pop_empty queue_inv_def)
next
  case False
  then obtain e q' where "queue_pop q = (EQ_OK, q', Some e)" "e = eq_slots q ! 0"
    "e \<in># queue_events q" "\<forall>x \<in># queue_events q. event_key e \<le> event_key x"
    "queue_events q' = queue_events q - {#e#}" "queue_inv q'"
    "eq_next_sequence q' = eq_next_sequence q"
    using queue_pop_some [OF assms] by metis
  then show ?thesis by (intro disjI2 exI [of _ e] exI [of _ q']) (simp add: queue_take_def)
qed

interpretation eq_heap: min_queue queue_take queue_inv queue_events event_key
proof
  fix q e q' x
  assume q: "queue_inv q"
  then have wf: "queue_wf q" by (simp add: queue_inv_def)
  show "queue_take q = None \<longleftrightarrow> queue_events q = {#}"
    using queue_take_cases [OF q] queue_events_empty_iff [OF wf] by auto
  assume "queue_take q = Some (e, q')"
  then show "e \<in># queue_events q" "queue_events q' = queue_events q - {#e#}" "queue_inv q'"
    "x \<in># queue_events q \<Longrightarrow> event_key e \<le> event_key x"
    using queue_take_cases [OF q] by auto
qed

subsection \<open>Sequence numbers\<close>

text \<open>
  Every queued event carries a sequence the counter has passed, and no two carry the same.
  It holds as long as the 32-bit counter has not wrapped.
\<close>

definition seq_unique :: "event_queue \<Rightarrow> bool" where
  "seq_unique q \<longleftrightarrow>
     (\<forall>e \<in># queue_events q. 0 < ev_sequence e \<and> ev_sequence e \<le> eq_next_sequence q) \<and>
     (\<forall>s. count (image_mset ev_sequence (queue_events q)) s \<le> 1)"

lemma queue_next_id_mono:
  assumes "unat c < 2 ^ 32 - 1"
  shows "unat (queue_next_id c) = Suc (unat c)"
proof -
  have s: "unat (c + 1) = Suc (unat c)" using assms by (intro unat_inc) simp
  then have "c + 1 \<noteq> 0" by (metis nat.simps(3) unat_0)
  with s show ?thesis by (simp add: queue_next_id_def)
qed

lemma queue_next_id_nonzero: "queue_next_id c \<noteq> 0"
  by (simp add: queue_next_id_def Let_def)

lemma seq_unique_insert:
  assumes u: "seq_unique q" and lim: "unat (eq_next_sequence q) < 2 ^ 32 - 1"
    and ev: "queue_events q' = add_mset (queue_stored_event q e) M" and M: "M \<subseteq># queue_events q"
    and nx: "eq_next_sequence q' = queue_next_id (eq_next_sequence q)"
  shows "seq_unique q'"
proof -
  let ?n = "queue_next_id (eq_next_sequence q)"
  have n: "eq_next_sequence q < ?n"
    using queue_next_id_mono [OF lim] by (simp add: word_less_nat_alt)
  have old: "0 < ev_sequence x \<and> ev_sequence x \<le> eq_next_sequence q" if "x \<in># M" for x
    using u mset_subset_eqD [OF M that] by (simp add: seq_unique_def)
  have sub: "image_mset ev_sequence M \<subseteq># image_mset ev_sequence (queue_events q)"
    using M by (rule image_mset_subseteq_mono)
  have cnt: "count (image_mset ev_sequence M) s \<le> 1" for s
    using mset_subset_eq_count [OF sub, of s] u by (auto simp: seq_unique_def intro: order_trans)
  have "?n \<notin># image_mset ev_sequence M" using old n by fastforce
  then have "count (image_mset ev_sequence M) ?n = 0" by (simp only: not_in_iff)
  then have "count (image_mset ev_sequence (queue_events q')) s \<le> 1" for s
    using cnt [of s] ev by auto
  moreover have "0 < ev_sequence x \<and> ev_sequence x \<le> ?n" if "x \<in># queue_events q'" for x
    using that ev old [of x] n queue_next_id_nonzero [of "eq_next_sequence q"]
    by (auto simp: word_gt_0)
  ultimately show ?thesis using nx by (simp add: seq_unique_def)
qed

lemma push_next_sequence:
  assumes inv: "queue_inv q"
  shows "queue_events (push_to q e) = queue_events q \<and> eq_next_sequence (push_to q e) = eq_next_sequence q
    \<or> eq_next_sequence (push_to q e) = queue_next_id (eq_next_sequence q)"
proof -
  have wf: "queue_wf q" using inv by (simp add: queue_inv_def)
  show ?thesis
  proof (cases "eq_hard_fault_terminal q \<or> \<not> event_is_valid (Some e) \<or> \<not> admissible q e")
    case True
    then show ?thesis
      using push_terminal [OF wf] push_rejected [OF wf] push_reserved [OF wf]
      by (cases "eq_hard_fault_terminal q"; cases "event_is_valid (Some e)")
        (auto simp: push_to_def simp del: event_is_valid.simps)
  next
    case False
    show ?thesis
    proof (cases "eq_size q < eq_capacity q")
      case True
      then show ?thesis using False push_room [OF wf] by (simp add: push_to_def)
    next
      case nofit: False
      note p = push_full [OF wf, of e]
      show ?thesis
      proof (cases "is_fault e \<and> queue_ordinary q \<noteq> {#}")
        case True
        then obtain v q' where "queue_push_full q e = (Some EQ_OK_EVICTED_VICTIM, q', [])"
          "eq_next_sequence q' = queue_next_id (eq_next_sequence q)"
          using push_full_evict [OF wf _ nofit, of e] by metis
        then show ?thesis using p False nofit by (simp add: push_to_def)
      next
        case False': False
        then show ?thesis
          using p False nofit push_full_ordinary [of e q] push_full_all_faults [OF wf, of e]
          by (cases "is_fault e") (auto simp: push_to_def simp del: hard_fault_escalate.simps)
      qed
    qed
  qed
qed

lemma push_seq_unique:
  assumes inv: "queue_inv q" and u: "seq_unique q"
    and lim: "unat (eq_next_sequence q) < 2 ^ 32 - 1"
  shows "seq_unique (push_to q e)"
proof (cases "queue_events (push_to q e) = queue_events q \<and>
    eq_next_sequence (push_to q e) = eq_next_sequence q")
  case True
  then show ?thesis using u by (simp add: seq_unique_def)
next
  case False
  then have nx: "eq_next_sequence (push_to q e) = queue_next_id (eq_next_sequence q)"
    using push_next_sequence [OF inv, of e] by blast
  have le: "eq_next_sequence q < queue_next_id (eq_next_sequence q)"
    using queue_next_id_mono [OF lim] by (simp add: word_less_nat_alt)
  show ?thesis
    using inv
  proof (cases rule: queue_push_outcome [of q e])
    case refused
    then show ?thesis
      using u nx le by (auto simp: seq_unique_def push_to_def)
  next
    case admitted
    then show ?thesis
      using seq_unique_insert [OF u lim _ subset_mset.order_refl nx] by (simp add: push_to_def)
  next
    case (evicted v)
    then show ?thesis
      using seq_unique_insert [OF u lim _ diff_subset_eq_self nx] by (simp add: push_to_def)
  qed
qed

lemma drain_strict:
  assumes "queue_inv q" and "seq_unique q"
  shows "sorted_wrt (<) (map event_key (fst (drain_with queue_take (size (queue_events q)) q)))"
proof -
  let ?es = "fst (drain_with queue_take (size (queue_events q)) q)"
  have d: "mset ?es = queue_events q" "sorted (map event_key ?es)"
    using eq_heap.drain_all [OF assms(1) order_refl] by auto
  have "count (mset (map ev_sequence ?es)) s \<le> 1" for s
    using assms(2) d(1) by (simp add: seq_unique_def)
  then have "distinct (map ev_sequence ?es)"
    by (metis count_mset_0_iff distinct_count_atmost_1 le_Suc_eq One_nat_def le_zero_eq)
  then have "distinct (map event_key ?es)"
    by (auto simp: distinct_map inj_on_def event_key_def)
  with d(2) show ?thesis by (simp add: strict_sorted_iff)
qed

lemma push_next_sequence_bound:
  assumes "queue_inv q" and "unat (eq_next_sequence q) < 2 ^ 32 - 1"
  shows "unat (eq_next_sequence (push_to q e)) \<le> Suc (unat (eq_next_sequence q))"
  using push_next_sequence [OF assms(1), of e] queue_next_id_mono [OF assms(2)] by auto

lemma pushes_seq_unique:
  "queue_inv q \<Longrightarrow> seq_unique q \<Longrightarrow> unat (eq_next_sequence q) + length es < 2 ^ 32 \<Longrightarrow>
   seq_unique (foldl push_to q es)"
proof (induction es arbitrary: q)
  case Nil
  then show ?case by simp
next
  case (Cons e es)
  have lim: "unat (eq_next_sequence q) < 2 ^ 32 - 1" using Cons.prems(3) by simp
  have "unat (eq_next_sequence (push_to q e)) + length es < 2 ^ 32"
    using push_next_sequence_bound [OF Cons.prems(1) lim, of e] Cons.prems(3) by simp
  then show ?case
    using Cons.IH [OF eq_sink.push_inv [OF Cons.prems(1)] push_seq_unique [OF Cons.prems(1,2) lim]]
    by simp
qed

lemma enqueue_hooks:
  "queue_enqueue q e = (st, q') \<Longrightarrow> eq_hard_fault_hooks q' = eq_hard_fault_hooks q"
  using queue_enqueue_fields(3) [of q e] by simp

lemma push_full_hooks:
  "eq_hard_fault_hooks (push_queue (queue_push_full q e)) = eq_hard_fault_hooks q"
  by (auto simp: queue_push_full_def Let_def simp del: hard_fault_escalate.simps
      split: prod.splits option.splits dest!: enqueue_hooks)

lemma push_hooks:
  "eq_hard_fault_hooks (push_queue (queue_push q e)) = eq_hard_fault_hooks q"
  using push_full_hooks [of q e]
  by (auto simp: queue_push_def simp del: event_queue_is_valid.simps event_is_valid.simps
      split: prod.splits dest!: enqueue_hooks)

end
