(* ===== verification/Event_Queue_Properties.thy ===== *)
theory Event_Queue_Properties
  imports Event_Queue_Spec Clock
begin

text \<open>
  The properties of the event queue, each over the model of queue.c. The first group says
  which status a push returns and what it does to the queued events; the second what any
  history of pushes keeps; the last what a consumer that pops sees.
\<close>

subsection \<open>The admission policy as a specification\<close>

text \<open>The status of a push, from the multiset of queued events and the queue's settings.\<close>

definition admission_status :: "event_queue \<Rightarrow> event \<Rightarrow> event_queue_status option" where
  "admission_status q e =
     (if eq_hard_fault_terminal q then Some EQ_ERR_TERMINAL
      else if \<not> event_is_valid (Some e) then Some EQ_ERR_EVENT
      else if \<not> admissible q e then Some EQ_ERR_RESERVED_FAULT_SLOTS
      else if size (queue_events q) < unat (eq_capacity q) then Some EQ_OK
      else if \<not> is_fault e then Some EQ_ERR_FULL
      else if queue_ordinary q \<noteq> {#} then Some EQ_OK_EVICTED_VICTIM
      else if hooks_complete (eq_hard_fault_hooks q) then Some EQ_ERR_FULL_FAULT
      else None)"

lemma push_status_spec:
  assumes inv: "queue_inv q"
  shows "push_status (queue_push q e) = admission_status q e"
proof -
  have wf: "queue_wf q" using inv by (simp add: queue_inv_def)
  have sz: "size (queue_events q) < unat (eq_capacity q) \<longleftrightarrow> eq_size q < eq_capacity q"
    by (simp add: size_queue_events [OF wf] word_less_nat_alt)
  show ?thesis
  proof (cases "eq_hard_fault_terminal q \<or> \<not> event_is_valid (Some e) \<or> \<not> admissible q e")
    case True
    then show ?thesis
      using push_terminal [OF wf] push_rejected [OF wf] push_reserved [OF wf]
      by (cases "eq_hard_fault_terminal q"; cases "event_is_valid (Some e)")
        (auto simp: admission_status_def simp del: event_is_valid.simps)
  next
    case ok: False
    show ?thesis
    proof (cases "eq_size q < eq_capacity q")
      case True
      then show ?thesis
        using ok push_room [OF wf] sz
        by (simp add: admission_status_def del: event_is_valid.simps)
    next
      case full: False
      note p = push_full [OF wf _ _ _ full, of e]
      show ?thesis
      proof (cases "is_fault e \<and> queue_ordinary q \<noteq> {#}")
        case True
        then obtain v q' where "queue_push_full q e = (Some EQ_OK_EVICTED_VICTIM, q', [])"
          using push_full_evict [OF wf _ full, of e] by metis
        then show ?thesis
          using p ok full sz True
          by (simp add: admission_status_def del: event_is_valid.simps)
      next
        case False
        then show ?thesis
          using p ok full sz push_full_ordinary [of e q] push_full_all_faults [OF wf, of e]
          by (cases "is_fault e")
            (auto simp: admission_status_def simp del: event_is_valid.simps hard_fault_escalate.simps)
      qed
    qed
  qed
qed

text \<open>What each status means for the queued events.\<close>

definition push_effect :: "event_queue \<Rightarrow> event \<Rightarrow> event multiset \<Rightarrow> bool" where
  "push_effect q e after =
     (case admission_status q e of
        Some EQ_OK \<Rightarrow> after = add_mset (queue_stored_event q e) (queue_events q)
      | Some EQ_OK_EVICTED_VICTIM \<Rightarrow>
          (\<exists>v \<in># queue_ordinary q. (\<forall>x \<in># queue_ordinary q. event_key x \<le> event_key v) \<and>
             after = add_mset (queue_stored_event q e) (queue_events q - {#v#}))
      | _ \<Rightarrow> after = queue_events q)"

lemma push_effect_holds:
  assumes inv: "queue_inv q"
  shows "push_effect q e (queue_events (push_queue (queue_push q e)))"
  using inv
proof (cases rule: queue_push_outcome [of q e])
  case refused
  then have "admission_status q e \<notin> {Some EQ_OK, Some EQ_OK_EVICTED_VICTIM}"
    using push_status_spec [OF inv] by simp
  then show ?thesis using refused(1)
    by (auto simp: push_effect_def split: option.split event_queue_status.split)
next
  case admitted
  then have "admission_status q e = Some EQ_OK" using push_status_spec [OF inv, of e] by simp
  then show ?thesis using admitted by (simp add: push_effect_def)
next
  case (evicted v)
  then have "admission_status q e = Some EQ_OK_EVICTED_VICTIM"
    using push_status_spec [OF inv, of e] by simp
  then show ?thesis using evicted by (auto simp: push_effect_def)
qed

subsection \<open>A queue to evaluate on\<close>

definition demo_queue :: "u16 \<Rightarrow> u16 \<Rightarrow> event_queue" where
  "demo_queue cap res = the (snd (event_queue_init_with_reserved (Some zero_queue)
     (replicate (unat cap) zero_event) cap res))"

definition demo_event :: "priority_class \<Rightarrow> time_us \<Rightarrow> event" where
  "demo_event p t = zero_event\<lparr>ev_type := EVENT_TYPE_SIGNAL_CHANGED, ev_priority_class := p,
     ev_timestamp_us := t\<rparr>"

lemma demo_event_valid: "p \<noteq> PRIORITY_CLASS_COUNT \<Longrightarrow> event_is_valid (Some (demo_event p t))"
  by (cases p) (simp_all add: demo_event_def event_type_is_valid_def priority_class_is_valid_def)

lemma demo_event_fields [simp]:
  "ev_priority_class (demo_event p t) = p" "ev_timestamp_us (demo_event p t) = t"
  by (simp_all add: demo_event_def)

lemma demo_queue_inits:
  "event_queue_init_with_reserved (Some zero_queue) (replicate 4 zero_event) 4 2 =
     (True, Some (demo_queue 4 2))"
  by (simp add: demo_queue_def init_defs QUEUE_MAX_CAPACITY_def)

lemma demo_queue_fresh:
  "queue_inv (demo_queue 4 2)" "queue_events (demo_queue 4 2) = {#}"
  "\<not> eq_hard_fault_terminal (demo_queue 4 2)" "eq_capacity (demo_queue 4 2) = 4"
  "eq_reserved_fault_slots (demo_queue 4 2) = 2" "eq_next_sequence (demo_queue 4 2) = 0"
  "eq_hard_fault_hooks (demo_queue 4 2) = no_hooks"
  using queue_inv_fresh [OF demo_queue_inits] by simp_all

subsection \<open>Properties of the producer side\<close>

text \<open>C1: A push refines the admission policy. From a queue that satisfies the invariant, the
  status is the one the policy prescribes from the queued events alone (terminal, invalid,
  reserved slots, room, full, eviction, or a hard-fault escalation that does not return when
  its hooks are incomplete), and the queued events change exactly as that status says: the
  stored event is added, or added in place of the newest ordinary event, or nothing changes.\<close>

lemma queue_push_refines_policy:
  assumes "queue_inv q"
  shows "push_status (queue_push q e) = admission_status q e \<and>
    push_effect q e (queue_events (push_queue (queue_push q e)))"
  using push_status_spec [OF assms] push_effect_holds [OF assms] by simp

lemma queue_push_refines_policy_witness:
  "push_status (queue_push (demo_queue 4 2) (demo_event PRIORITY_CLASS_FAULT 7)) = Some EQ_OK \<and>
   queue_events (push_queue (queue_push (demo_queue 4 2) (demo_event PRIORITY_CLASS_FAULT 7))) =
     {#queue_stored_event (demo_queue 4 2) (demo_event PRIORITY_CLASS_FAULT 7)#}"
  using queue_push_refines_policy [OF demo_queue_fresh(1), of "demo_event PRIORITY_CLASS_FAULT 7"]
    demo_event_valid [of PRIORITY_CLASS_FAULT 7]
  by (simp add: push_effect_def admission_status_def admissible_def demo_queue_fresh
      del: event_is_valid.simps)

text \<open>C2: Every operation that changes a queue keeps its invariant: the slots form a min-heap on
  (timestamp, class, sequence), the stored fault count is exact, the sizes stay within the
  capacity, and ordinary events never occupy more than the unreserved slots. A new queue has
  the invariant and is empty, and clearing empties it.\<close>

lemma queue_operations_keep_invariant:
  assumes "queue_inv q"
  shows "queue_inv (push_queue (queue_push q e)) \<and> queue_inv (fst (snd (queue_pop q))) \<and>
    (\<exists>q'. event_queue_clear (Some q) = Some q' \<and> queue_inv q' \<and> queue_events q' = {#})"
proof -
  obtain q' where "event_queue_clear (Some q) = Some q'" "queue_inv q'" "queue_events q' = {#}"
    using queue_clear_inv [OF assms] by blast
  then show ?thesis using queue_push_inv [OF assms] queue_pop_inv [OF assms] by simp
qed

lemma queue_operations_keep_invariant_witness:
  "queue_inv (push_queue (queue_push (demo_queue 4 2) (demo_event PRIORITY_CLASS_TIMER 9)))"
  using queue_operations_keep_invariant [OF demo_queue_fresh(1)] by blast

text \<open>C3: No queued FAULT event is ever lost to admission: after any sequence of pushes, of any
  events and whatever each push returned, the FAULT events that were queued are queued still.\<close>

lemma queue_pushes_keep_faults:
  assumes "queue_inv q"
  shows "queue_faults q \<subseteq># queue_faults (foldl (\<lambda>s e. push_queue (queue_push s e)) q es)"
  using eq_sink.pushes_vital [OF assms, of es] by (simp add: push_to_def [abs_def])

lemma queue_pushes_keep_faults_witness:
  "queue_faults (demo_queue 4 2) \<subseteq>#
   queue_faults (foldl (\<lambda>s e. push_queue (queue_push s e)) (demo_queue 4 2)
     [demo_event PRIORITY_CLASS_FAULT 1, demo_event PRIORITY_CLASS_HOST 2])"
  by (rule queue_pushes_keep_faults [OF demo_queue_fresh(1)])

text \<open>The reserve holds. While fewer FAULT events are queued than slots are reserved and the
  queue is not terminal, a valid FAULT event is admitted at once: status OK, nothing evicted,
  no hook called, however many ordinary events were pushed before.\<close>

lemma queue_reserve_admits_fault:
  assumes "queue_inv q" and "\<not> eq_hard_fault_terminal q"
    and "event_is_valid (Some e)" and "ev_priority_class e = PRIORITY_CLASS_FAULT"
    and "size (queue_faults q) < unat (eq_reserved_fault_slots q)"
  shows "push_status (queue_push q e) = Some EQ_OK \<and> push_calls (queue_push q e) = [] \<and>
    queue_events (push_queue (queue_push q e)) =
      add_mset (queue_stored_event q e) (queue_events q)"
proof -
  have wf: "queue_wf q" using assms(1) by (simp add: queue_inv_def)
  have room: "eq_size q < eq_capacity q" using reserve_leaves_room [OF assms(1,5)] .
  then have st: "admission_status q e = Some EQ_OK"
    using assms size_queue_events [OF wf]
    by (simp add: admission_status_def admissible_def word_less_nat_alt del: event_is_valid.simps)
  moreover have "push_calls (queue_push q e) = []"
    using push_room [OF wf assms(2,3)] room assms(4) by (simp add: admissible_def)
  ultimately show ?thesis
    using push_status_spec [OF assms(1), of e] push_effect_holds [OF assms(1), of e]
    by (simp add: push_effect_def)
qed

lemma queue_reserve_admits_fault_witness:
  "push_status (queue_push (demo_queue 4 2) (demo_event PRIORITY_CLASS_FAULT 3)) = Some EQ_OK"
  using queue_reserve_admits_fault [of "demo_queue 4 2" "demo_event PRIORITY_CLASS_FAULT 3"]
    demo_event_valid [of PRIORITY_CLASS_FAULT 3]
  by (simp add: demo_queue_fresh queue_faults_def del: event_is_valid.simps)

text \<open>C6: Saturation by FAULT events. A valid FAULT event pushed into a full queue that holds
  only FAULT events is dropped, not queued; the queue becomes terminal, one escalation is
  counted, and the hooks run in the order retention register, HAL fail-safe, watchdog. The
  push returns (with the all-fault status) exactly when the three hooks are installed, else
  it never returns.\<close>

lemma queue_saturation_escalates:
  assumes "queue_inv q" and "\<not> eq_hard_fault_terminal q"
    and "event_is_valid (Some e)" and "ev_priority_class e = PRIORITY_CLASS_FAULT"
    and "size (queue_events q) = unat (eq_capacity q)" and "queue_ordinary q = {#}"
  shows "queue_events (push_queue (queue_push q e)) = queue_events q \<and>
    eq_hard_fault_terminal (push_queue (queue_push q e)) \<and>
    qc_hard_fault_escalations (eq_counters (push_queue (queue_push q e))) =
      qc_hard_fault_escalations (eq_counters q) + 1 \<and>
    push_status (queue_push q e) =
      (if hooks_complete (eq_hard_fault_hooks q) then Some EQ_ERR_FULL_FAULT else None) \<and>
    push_calls (queue_push q e) = snd (hard_fault_escalate (Some (eq_hard_fault_hooks q))) \<and>
    (hooks_complete (eq_hard_fault_hooks q) \<longrightarrow> push_calls (queue_push q e) =
      [Write_retention FAULT_CODE_QUEUE_SATURATION, Hal_fail_safe, Iwdg_escalate])"
proof -
  have wf: "queue_wf q" using assms(1) by (simp add: queue_inv_def)
  have full: "\<not> eq_size q < eq_capacity q"
    using assms(5) size_queue_events [OF wf] by (simp add: word_less_nat_alt)
  have adm: "admissible q e" using assms(4) by (simp add: admissible_def)
  have p: "queue_push q e = queue_push_full q e"
    using push_full [OF wf assms(2,3) adm full] .
  have cnt: "qc_hard_fault_escalations (eq_counters (count_escalation (count_dropped (count_overflow q)))) =
      qc_hard_fault_escalations (eq_counters q) + 1"
    by (simp add: count_defs Let_def)
  show ?thesis
    unfolding p push_full_all_faults [OF wf assms(4,6)]
    by (simp add: cnt hard_fault_escalate_complete del: hard_fault_escalate.simps)
qed

definition all_hooks :: hard_fault_hooks where
  "all_hooks = \<lparr>write_retention_register = True, hal_fail_safe = True, iwdg_escalate = True,
     hook_context = 0\<rparr>"

definition fault_storm :: event_queue where
  "fault_storm = foldl push_to ((demo_queue 4 2)\<lparr>eq_hard_fault_hooks := all_hooks\<rparr>)
     (map (demo_event PRIORITY_CLASS_FAULT) [5, 6, 7, 8])"

lemma fault_storm_facts:
  "queue_inv fault_storm" "\<not> eq_hard_fault_terminal fault_storm"
  "size (queue_events fault_storm) = unat (eq_capacity fault_storm)"
  "queue_ordinary fault_storm = {#}" "eq_hard_fault_hooks fault_storm = all_hooks"
proof -
  have "queue_inv ((demo_queue 4 2)\<lparr>eq_hard_fault_hooks := all_hooks\<rparr>)"
    using demo_queue_fresh(1)
    by (simp add: queue_inv_def queue_wf_def path_a_def queue_events_def queue_faults_def
        queue_ordinary_def)
  then show inv: "queue_inv fault_storm" unfolding fault_storm_def by (rule eq_sink.pushes_inv)
  have "eq_size fault_storm = 4 \<and> eq_capacity fault_storm = 4" by code_simp
  then show "size (queue_events fault_storm) = unat (eq_capacity fault_storm)"
    using inv by (simp add: queue_inv_def size_queue_events)
  have "filter (\<lambda>e. \<not> is_fault e) (take 4 (eq_slots fault_storm)) = [] \<and> eq_size fault_storm = 4"
    by code_simp
  then show "queue_ordinary fault_storm = {#}"
    by (simp add: queue_ordinary_def queue_events_def flip: mset_filter)
  show "\<not> eq_hard_fault_terminal fault_storm" "eq_hard_fault_hooks fault_storm = all_hooks"
    by code_simp+
qed

lemma queue_saturation_escalates_witness:
  "push_status (queue_push fault_storm (demo_event PRIORITY_CLASS_FAULT 9)) = Some EQ_ERR_FULL_FAULT \<and>
   eq_hard_fault_terminal (push_queue (queue_push fault_storm (demo_event PRIORITY_CLASS_FAULT 9))) \<and>
   push_calls (queue_push fault_storm (demo_event PRIORITY_CLASS_FAULT 9)) =
     [Write_retention FAULT_CODE_QUEUE_SATURATION, Hal_fail_safe, Iwdg_escalate]"
  using queue_saturation_escalates
      [OF fault_storm_facts(1,2) demo_event_valid [of PRIORITY_CLASS_FAULT 9] _ fault_storm_facts(3,4)]
  by (simp add: fault_storm_facts(5) hooks_complete_def all_hooks_def del: event_is_valid.simps)

text \<open>The terminal latch absorbs: once a queue is terminal, every sequence of pushes leaves it
  terminal with the same queued events, and each further push returns the terminal error and
  calls no hook.\<close>

lemma queue_terminal_absorbs:
  assumes "queue_inv q" and "eq_hard_fault_terminal q"
  shows "let q' = foldl (\<lambda>s e. push_queue (queue_push s e)) q es
    in eq_hard_fault_terminal q' \<and> queue_events q' = queue_events q \<and>
       push_status (queue_push q' e) = Some EQ_ERR_TERMINAL \<and> push_calls (queue_push q' e) = []"
proof -
  define q' where "q' = foldl (\<lambda>s e. push_queue (queue_push s e)) q es"
  have q': "q' = foldl push_to q es" by (simp add: q'_def push_to_def [abs_def])
  have t: "eq_hard_fault_terminal q'" "queue_events q' = queue_events q"
    using eq_sink.pushes_closed [OF assms(1,2), of es] q' by auto
  moreover have "queue_wf q'"
    using eq_sink.pushes_inv [OF assms(1), of es] q' by (simp add: queue_inv_def)
  ultimately show ?thesis
    using push_terminal [of q' e] unfolding q'_def [symmetric] Let_def by simp
qed

lemma queue_terminal_absorbs_witness:
  "let q = push_queue (queue_push fault_storm (demo_event PRIORITY_CLASS_FAULT 9));
       q' = foldl (\<lambda>s e. push_queue (queue_push s e)) q [demo_event PRIORITY_CLASS_TIMER 1]
   in push_status (queue_push q' (demo_event PRIORITY_CLASS_FAULT 10)) = Some EQ_ERR_TERMINAL"
proof -
  let ?q = "push_queue (queue_push fault_storm (demo_event PRIORITY_CLASS_FAULT 9))"
  have "eq_hard_fault_terminal ?q" by code_simp
  then show ?thesis
    using queue_terminal_absorbs [of ?q "[demo_event PRIORITY_CLASS_TIMER 1]"
        "demo_event PRIORITY_CLASS_FAULT 10"] queue_push_inv [OF fault_storm_facts(1)]
    by (simp add: Let_def)
qed

subsection \<open>Properties of the consumer side\<close>

text \<open>C4: Delivery order. Start from a newly initialised queue and push fewer than 2^32 events, in
  any order: popping until empty then returns every queued event exactly once, in strictly
  increasing order of (timestamp, priority class, sequence), so simultaneous events of one
  class leave in the order they were admitted.\<close>

lemma queue_drains_in_order:
  assumes "event_queue_init_with_reserved (Some q0) storage cap res = (True, Some q)"
    and "unat cap \<le> length storage" and "length es < 2 ^ 32"
  shows "let q' = foldl (\<lambda>s e. push_queue (queue_push s e)) q es;
             out = fst (drain_with queue_take (size (queue_events q')) q')
         in mset out = queue_events q' \<and> sorted_wrt (<) (map event_key out)"
proof -
  note fresh = queue_inv_fresh [OF assms(1,2)]
  let ?q = "foldl push_to q es"
  have inv: "queue_inv ?q" using eq_sink.pushes_inv [OF fresh(1)] .
  have "seq_unique q" using fresh(2) by (simp add: seq_unique_def)
  then have "seq_unique ?q"
    using pushes_seq_unique [OF fresh(1)] fresh(6) assms(3) by simp
  then show ?thesis
    using eq_heap.drain_all [OF inv order_refl] drain_strict [OF inv]
    by (simp add: push_to_def [abs_def] Let_def)
qed

lemma queue_drains_in_order_witness:
  "let q' = foldl (\<lambda>s e. push_queue (queue_push s e)) (demo_queue 4 2)
          [demo_event PRIORITY_CLASS_TIMER 9, demo_event PRIORITY_CLASS_FAULT 9];
       out = fst (drain_with queue_take (size (queue_events q')) q')
   in mset out = queue_events q' \<and> sorted_wrt (<) (map event_key out)"
  by (rule queue_drains_in_order [OF demo_queue_inits]) simp_all

text \<open>The order breaks when the 32-bit sequence counter wraps. With one sequence number left
  before the wrap, of two events of the same class and timestamp the one pushed second is
  popped first: its sequence is 1, the first's is 2^32 - 1.\<close>

lemma queue_wrap_reorders:
  assumes "queue_inv q" and "queue_events q = {#}" and "\<not> eq_hard_fault_terminal q"
    and "eq_next_sequence q = 0xFFFFFFFE" and "2 \<le> eq_capacity q" and "eq_reserved_fault_slots q = 0"
    and "event_is_valid (Some a)" and "event_is_valid (Some b)"
    and "ev_timestamp_us a = ev_timestamp_us b" and "ev_priority_class a = ev_priority_class b"
  shows "let q1 = push_queue (queue_push q a); q2 = push_queue (queue_push q1 b)
    in (\<exists>r. queue_take q2 = Some (queue_stored_event q1 b, r)) \<and>
       ev_sequence (queue_stored_event q1 b) = 1 \<and> ev_sequence (queue_stored_event q a) = 0xFFFFFFFF"
proof -
  let ?q1 = "push_to q a" and ?q2 = "push_to (push_to q a) b"
  have wf: "queue_wf q" using assms(1) by (simp add: queue_inv_def)
  have cap: "2 \<le> unat (eq_capacity q)" using assms(5) by (simp add: word_le_nat_alt)
  have "admission_status q a = Some EQ_OK"
    using assms cap by (simp add: admission_status_def admissible_def del: event_is_valid.simps)
  then have p1: "push_status (queue_push q a) = Some EQ_OK"
    "queue_events ?q1 = {#queue_stored_event q a#}"
    using push_status_spec [OF assms(1), of a] push_effect_holds [OF assms(1), of a] assms(2)
    by (simp_all add: push_effect_def push_to_def)
  have sz: "eq_size q = 0" using assms(2) queue_events_empty_iff [OF wf] by simp
  then have room: "eq_size q < eq_capacity q" using cap by (simp add: word_less_nat_alt)
  have adm: "admissible q a" using assms(6) by (simp add: admissible_def)
  have q1: "?q1 = snd (queue_enqueue (reset_consecutive q) a)"
    using push_room [OF wf assms(3,7) adm room] by (simp add: push_to_def)
  have f1: "eq_next_sequence ?q1 = 0xFFFFFFFF" "\<not> eq_hard_fault_terminal ?q1"
    "eq_capacity ?q1 = eq_capacity q" "eq_reserved_fault_slots ?q1 = 0"
    using assms(3,4,6) by (simp_all add: q1 queue_enqueue_def Let_def queue_next_id_def)
  have inv1: "queue_inv ?q1" using eq_sink.push_inv [OF assms(1)] .
  have "admission_status ?q1 b = Some EQ_OK"
    using assms(8) f1 cap p1(2)
    by (simp add: admission_status_def admissible_def del: event_is_valid.simps)
  then have ev2: "queue_events ?q2 = {#queue_stored_event ?q1 b, queue_stored_event q a#}"
    using push_effect_holds [OF inv1, of b] p1(2) by (simp add: push_effect_def push_to_def)
  have s: "ev_sequence (queue_stored_event ?q1 b) = 1" "ev_sequence (queue_stored_event q a) = 0xFFFFFFFF"
    using f1(1) assms(4) by (simp_all add: queue_stored_event_def queue_next_id_def Let_def)
  have keys: "event_key (queue_stored_event ?q1 b) < event_key (queue_stored_event q a)"
    using s assms(9,10) by (simp add: event_key_def)
  obtain e r where t: "queue_take ?q2 = Some (e, r)"
    using eq_heap.pop_none [OF eq_sink.push_inv [OF inv1, of b]] ev2
    by (metis not_None_eq surj_pair add_mset_not_empty)
  then have "e = queue_stored_event ?q1 b"
    using eq_heap.pop_mem [OF eq_sink.push_inv [OF inv1]] eq_heap.pop_min [OF eq_sink.push_inv [OF inv1] t]
      ev2 keys by fastforce
  then show ?thesis using t s by (simp add: push_to_def Let_def)
qed

definition wrapped_queue :: event_queue where
  "wrapped_queue = (demo_queue 4 0)\<lparr>eq_next_sequence := 0xFFFFFFFE\<rparr>"

lemma wrapped_queue_facts:
  "queue_inv wrapped_queue" "queue_events wrapped_queue = {#}"
  by (simp_all add: wrapped_queue_def demo_queue_def init_defs QUEUE_MAX_CAPACITY_def queue_inv_def
      queue_wf_def path_a_def queue_events_def queue_faults_def heap_on_def)

lemma queue_wrap_reorders_witness:
  "let q1 = push_queue (queue_push wrapped_queue (demo_event PRIORITY_CLASS_TIMER 5));
       q2 = push_queue (queue_push q1 (demo_event PRIORITY_CLASS_TIMER 5))
   in \<exists>r. queue_take q2 = Some (queue_stored_event q1 (demo_event PRIORITY_CLASS_TIMER 5), r)"
proof -
  have "\<not> eq_hard_fault_terminal wrapped_queue" "eq_next_sequence wrapped_queue = 0xFFFFFFFE"
    "2 \<le> eq_capacity wrapped_queue" "eq_reserved_fault_slots wrapped_queue = 0"
    by code_simp+
  note queue_wrap_reorders [OF wrapped_queue_facts this demo_event_valid demo_event_valid]
  from this [of PRIORITY_CLASS_TIMER PRIORITY_CLASS_TIMER 5 5] show ?thesis by (simp add: Let_def)
qed

text \<open>An event generated while handling a cause never precedes it and is traceable to it. When
  the queue admits it with room, the added event has the GENERATED class, the cause's sequence,
  the given payload, and the cause's timestamp plus the delay, saturated at the end of time.\<close>

lemma queue_generated_event_follows_cause:
  assumes "queue_inv q"
    and "event_queue_emit_generated (Some q) (Some c) t p d = (Some EQ_OK, Some q', calls)"
  shows "\<exists>e. queue_events q' = add_mset e (queue_events q) \<and>
    ev_type e = t \<and> ev_priority_class e = PRIORITY_CLASS_GENERATED \<and>
    ev_cause_sequence e = ev_sequence c \<and>
    unat (ev_timestamp_us e) = min (unat (ev_timestamp_us c) + unat d) (2 ^ 64 - 1) \<and>
    ev_timestamp_us c \<le> ev_timestamp_us e \<and>
    (\<forall>pl. p = Some pl \<longrightarrow> ev_payload e = pl)"
proof -
  let ?e = "emitted_event t PRIORITY_CLASS_GENERATED (ev_sequence c) (time_sat_add (ev_timestamp_us c) d) p"
  have push: "push_status (queue_push q ?e) = Some EQ_OK" "q' = push_queue (queue_push q ?e)"
    using assms(2) by (auto simp: event_queue_emit_generated_def split: prod.splits)
  then have "queue_events q' = add_mset (queue_stored_event q ?e) (queue_events q)"
    using push_status_spec [OF assms(1), of ?e] push_effect_holds [OF assms(1), of ?e]
    by (simp add: push_effect_def)
  moreover have "ev_type ?e = t" "ev_priority_class ?e = PRIORITY_CLASS_GENERATED"
    "ev_cause_sequence ?e = ev_sequence c" "ev_timestamp_us ?e = time_sat_add (ev_timestamp_us c) d"
    "\<forall>pl. p = Some pl \<longrightarrow> ev_payload ?e = pl"
    by (auto simp: emitted_event_def Let_def split: option.splits)
  ultimately show ?thesis
    by (intro exI [of _ "queue_stored_event q ?e"])
      (simp add: queue_stored_event_def Let_def unat_time_sat_add time_sat_add_ge)
qed

lemma queue_generated_event_follows_cause_witness:
  "let c = (demo_event PRIORITY_CLASS_TIMER 0xFFFFFFFFFFFFFFF0)\<lparr>ev_sequence := 77\<rparr>;
       r = event_queue_emit_generated (Some (demo_queue 4 2)) (Some c) EVENT_TYPE_SIGNAL_CHANGED None 100
   in \<exists>e. queue_events (the (fst (snd r))) = {#e#} \<and> ev_cause_sequence e = 77 \<and>
        unat (ev_timestamp_us e) = 2 ^ 64 - 1"
proof -
  let ?c = "(demo_event PRIORITY_CLASS_TIMER 0xFFFFFFFFFFFFFFF0)\<lparr>ev_sequence := 77\<rparr>"
  let ?r = "event_queue_emit_generated (Some (demo_queue 4 2)) (Some ?c) EVENT_TYPE_SIGNAL_CHANGED None 100"
  have "fst ?r = Some EQ_OK" "fst (snd ?r) \<noteq> None" by code_simp+
  then obtain q' calls where r: "?r = (Some EQ_OK, Some q', calls)" by (cases ?r) auto
  from queue_generated_event_follows_cause [OF demo_queue_fresh(1) r] show ?thesis
    by (auto simp: r demo_queue_fresh(2) Let_def)
qed

end
