(* ===== verification/Isr_Queue.thy ===== *)
theory Isr_Queue
  imports Ring Event_Queue
begin

text \<open>
  core/event/src/isr_queue.c and isr_queue.h: the lock-free ring between an interrupt handler
  (producer) and the main loop (consumer). The operations first, run to completion; then the
  ring as a bounded FIFO; \<open>Isr_Spsc\<close> interleaves their memory accesses.
\<close>

record isr_queue =
  iq_slots :: "event list"
  iq_capacity :: u16
  iq_head :: u16
  iq_tail :: u16
  iq_dropped :: u32
  iq_pushed :: u32
  iq_popped :: u32
  iq_high_water :: u32

fun isr_queue_init :: "isr_queue option \<Rightarrow> event list \<Rightarrow> u16 \<Rightarrow> bool \<times> isr_queue option" where
  "isr_queue_init None storage capacity = (False, None)"
| "isr_queue_init (Some q) storage capacity =
     (if storage = [] \<or> capacity < 2 then (False, Some q)
      else (True, Some \<lparr>iq_slots = storage, iq_capacity = capacity, iq_head = 0, iq_tail = 0,
              iq_dropped = 0, iq_pushed = 0, iq_popped = 0, iq_high_water = 0\<rparr>))"

text \<open>\<open>(uint16_t)((i + 1u) % capacity)\<close>: the addition is done in \<open>unsigned int\<close>.\<close>

definition isr_next :: "u16 \<Rightarrow> u16 \<Rightarrow> u16" where
  "isr_next capacity i = of_nat ((unat i + 1) mod unat capacity)"

definition isr_occupancy :: "u16 \<Rightarrow> u16 \<Rightarrow> u16 \<Rightarrow> u16" where
  "isr_occupancy capacity head tail =
     (if head \<ge> tail then head - tail else capacity - (tail - head))"

definition isr_high_water :: "u16 \<Rightarrow> u16 \<Rightarrow> isr_queue \<Rightarrow> isr_queue" where
  "isr_high_water next_head current_tail q =
     (let count = isr_occupancy (iq_capacity q) next_head current_tail
      in if (ucast count :: u32) > iq_high_water q
         then q\<lparr>iq_high_water := ucast count\<rparr> else q)"

definition isr_put :: "isr_queue \<Rightarrow> event \<Rightarrow> bool \<times> isr_queue" where
  "isr_put q e =
     (let current_head = iq_head q;
          current_tail = iq_tail q;
          next_head = isr_next (iq_capacity q) current_head
      in if next_head = current_tail
         then (False, q\<lparr>iq_dropped := iq_dropped q + 1\<rparr>)
         else
           let q1 = q\<lparr>iq_slots := (iq_slots q)[unat current_head := e]\<rparr>;
               q2 = q1\<lparr>iq_head := next_head\<rparr>;
               q3 = q2\<lparr>iq_pushed := iq_pushed q2 + 1\<rparr>
           in (True, isr_high_water next_head current_tail q3))"

fun isr_queue_push :: "isr_queue option \<Rightarrow> event option \<Rightarrow> bool \<times> isr_queue option" where
  "isr_queue_push None e = (False, None)"
| "isr_queue_push (Some q) None = (False, Some q)"
| "isr_queue_push (Some q) (Some e) =
     (if iq_slots q = [] then (False, Some q)
      else case isr_put q e of (ok, q') \<Rightarrow> (ok, Some q'))"

text \<open>The event is what \<open>*out_event\<close> receives when \<open>out_event\<close> is not NULL.\<close>

definition isr_get :: "isr_queue \<Rightarrow> (event \<times> isr_queue) option" where
  "isr_get q =
     (let current_tail = iq_tail q;
          current_head = iq_head q
      in if current_tail = current_head then None
         else
           let out = iq_slots q ! unat current_tail;
               next_tail = isr_next (iq_capacity q) current_tail;
               q1 = q\<lparr>iq_tail := next_tail\<rparr>
           in Some (out, q1\<lparr>iq_popped := iq_popped q1 + 1\<rparr>))"

fun isr_queue_pop :: "isr_queue option \<Rightarrow> bool \<times> isr_queue option \<times> event option" where
  "isr_queue_pop None = (False, None, None)"
| "isr_queue_pop (Some q) =
     (if iq_slots q = [] then (False, Some q, None)
      else case isr_get q of None \<Rightarrow> (False, Some q, None)
           | Some (e, q') \<Rightarrow> (True, Some q', Some e))"

fun isr_queue_count :: "isr_queue option \<Rightarrow> u16" where
  "isr_queue_count None = 0"
| "isr_queue_count (Some q) =
     (if iq_capacity q = 0 then 0
      else isr_occupancy (iq_capacity q) (iq_head q) (iq_tail q))"

fun isr_queue_is_empty :: "isr_queue option \<Rightarrow> bool" where
  "isr_queue_is_empty None = True"
| "isr_queue_is_empty (Some q) = (iq_head q = iq_tail q)"

text \<open>
  The drain loop pops until the ring is empty. The producer may refill the ring meanwhile, so
  the loop is bounded by the turns \<open>n\<close> it is given; between two interrupts it needs one turn
  per queued event. A push that does not return (incomplete hard-fault hooks) ends the loop.
\<close>

fun isr_drain_loop :: "nat \<Rightarrow> isr_queue \<Rightarrow> event_queue \<Rightarrow> u32
    \<Rightarrow> u32 option \<times> isr_queue \<times> event_queue \<times> hook_call list" where
  "isr_drain_loop 0 q d drained = (Some drained, q, d, [])"
| "isr_drain_loop (Suc n) q d drained =
     (case isr_queue_pop (Some q) of
        (True, Some q', Some e) \<Rightarrow>
          (case queue_push d e of
             (None, d', calls) \<Rightarrow> (None, q', d', calls)
           | (Some st, d', calls) \<Rightarrow>
               (case isr_drain_loop n q' d'
                   (if event_queue_status_is_ok st then drained + 1 else drained) of
                  (r, q2, d2, calls2) \<Rightarrow> (r, q2, d2, calls @ calls2)))
      | _ \<Rightarrow> (Some drained, q, d, []))"

definition isr_queue_drain :: "isr_queue option \<Rightarrow> event_queue option
    \<Rightarrow> u32 option \<times> isr_queue option \<times> event_queue option \<times> hook_call list" where
  "isr_queue_drain q d =
     (case (q, d) of
        (Some q', Some d') \<Rightarrow>
          (case isr_drain_loop (unat (isr_queue_count q)) q' d' 0 of
             (r, q2, d2, calls) \<Rightarrow> (r, Some q2, Some d2, calls))
      | _ \<Rightarrow> (Some 0, q, d, []))"

subsection \<open>The ring as a bounded FIFO\<close>

definition isr_inv :: "isr_queue \<Rightarrow> bool" where
  "isr_inv q \<longleftrightarrow> 2 \<le> unat (iq_capacity q) \<and> unat (iq_capacity q) \<le> length (iq_slots q) \<and>
     unat (iq_head q) < unat (iq_capacity q) \<and> unat (iq_tail q) < unat (iq_capacity q)"

definition isr_size :: "isr_queue \<Rightarrow> nat" where
  "isr_size q = ring_count (unat (iq_capacity q)) (unat (iq_head q)) (unat (iq_tail q))"

definition isr_contents :: "isr_queue \<Rightarrow> event list" where
  "isr_contents q = ring_list (iq_slots q) (unat (iq_capacity q)) (unat (iq_tail q)) (isr_size q)"

definition isr_room :: "isr_queue \<Rightarrow> nat" where
  "isr_room q = unat (iq_capacity q) - 1"

lemma unat_isr_next:
  "unat i < unat c \<Longrightarrow> unat (isr_next c i) = (unat i + 1) mod unat c"
  unfolding isr_next_def by (rule unat_mod_u16)

lemma isr_next_less: "unat i < unat c \<Longrightarrow> unat (isr_next c i) < unat c"
  by (simp add: unat_isr_next)

lemma unat_isr_occupancy:
  assumes "unat h < unat c" and "unat t < unat c"
  shows "unat (isr_occupancy c h t) = ring_count (unat c) (unat h) (unat t)"
  using assms
  by (auto simp: isr_occupancy_def ring_count_def word_le_nat_alt unat_minus_le)

lemma isr_high_water_fields [simp]:
  "iq_slots (isr_high_water h t q) = iq_slots q" "iq_capacity (isr_high_water h t q) = iq_capacity q"
  "iq_head (isr_high_water h t q) = iq_head q" "iq_tail (isr_high_water h t q) = iq_tail q"
  "iq_dropped (isr_high_water h t q) = iq_dropped q" "iq_pushed (isr_high_water h t q) = iq_pushed q"
  "iq_popped (isr_high_water h t q) = iq_popped q"
  by (simp_all add: isr_high_water_def Let_def)

text \<open>Writing the head slot does not touch the contents; publishing the head appends it.\<close>

lemma isr_write_head:
  assumes "isr_inv q"
  shows "isr_contents (q\<lparr>iq_slots := (iq_slots q)[unat (iq_head q) := e]\<rparr>) = isr_contents q"
proof -
  let ?c = "unat (iq_capacity q)" and ?t = "unat (iq_tail q)"
  have b: "unat (iq_head q) < ?c" "?t < ?c" using assms by (simp_all add: isr_inv_def)
  have "isr_contents (q\<lparr>iq_slots := (iq_slots q)[unat (iq_head q) := e]\<rparr>) =
      ring_list ((iq_slots q)[(?t + isr_size q) mod ?c := e]) ?c ?t (isr_size q)"
    using ring_count_head [OF b] by (simp add: isr_contents_def isr_size_def)
  then show ?thesis
    using ring_list_frame [OF order_refl ring_count_less [OF b], of "iq_slots q" ?t e]
    by (simp add: isr_contents_def isr_size_def)
qed

lemma isr_publish_head:
  assumes "isr_inv q" and "isr_next (iq_capacity q) (iq_head q) \<noteq> iq_tail q"
  shows "isr_contents (q\<lparr>iq_head := isr_next (iq_capacity q) (iq_head q)\<rparr>) =
    isr_contents q @ [iq_slots q ! unat (iq_head q)]"
    and "isr_inv (q\<lparr>iq_head := isr_next (iq_capacity q) (iq_head q)\<rparr>)"
    and "isr_size q < isr_room q"
proof -
  let ?c = "unat (iq_capacity q)" and ?h = "unat (iq_head q)" and ?t = "unat (iq_tail q)"
  have b: "?h < ?c" "?t < ?c" "?c \<le> length (iq_slots q)" using assms(1) by (simp_all add: isr_inv_def)
  have ne: "(?h + 1) mod ?c \<noteq> ?t"
    using assms(2) unat_isr_next [OF b(1)] by (metis word_unat_eq_iff)
  note n = ring_count_less [OF b(1,2)] ring_count_head [OF b(1,2)] ring_count_push [OF b(1,2) ne]
  have "ring_list (iq_slots q) ?c ?t (Suc (isr_size q)) =
      ring_list (iq_slots q) ?c ?t (isr_size q) @ [iq_slots q ! ((?t + isr_size q) mod ?c)]"
    by (simp add: ring_list_def)
  then show "isr_contents (q\<lparr>iq_head := isr_next (iq_capacity q) (iq_head q)\<rparr>) =
      isr_contents q @ [iq_slots q ! unat (iq_head q)]"
    using n unat_isr_next [OF b(1)] by (simp add: isr_contents_def isr_size_def)
  show "isr_inv (q\<lparr>iq_head := isr_next (iq_capacity q) (iq_head q)\<rparr>)"
    using assms(1) isr_next_less [OF b(1)] by (simp add: isr_inv_def)
  show "isr_size q < isr_room q"
    using n(3) ring_count_less [of "(?h + 1) mod ?c" ?c ?t] b
    by (simp add: isr_size_def isr_room_def less_diff_conv)
qed

lemma isr_full:
  assumes "isr_inv q" and "isr_next (iq_capacity q) (iq_head q) = iq_tail q"
  shows "isr_size q = isr_room q"
proof -
  have b: "unat (iq_head q) < unat (iq_capacity q)" "unat (iq_tail q) < unat (iq_capacity q)"
    using assms(1) by (simp_all add: isr_inv_def)
  have "(unat (iq_head q) + 1) mod unat (iq_capacity q) = unat (iq_tail q)"
    using assms(2) unat_isr_next [OF b(1)] by simp
  then show ?thesis using ring_count_full [OF b] by (simp add: isr_size_def isr_room_def)
qed

lemma isr_advance_tail:
  assumes "isr_inv q" and "iq_tail q \<noteq> iq_head q"
  shows "isr_contents q = iq_slots q ! unat (iq_tail q) #
      isr_contents (q\<lparr>iq_tail := isr_next (iq_capacity q) (iq_tail q)\<rparr>)"
    and "isr_inv (q\<lparr>iq_tail := isr_next (iq_capacity q) (iq_tail q)\<rparr>)"
proof -
  let ?c = "unat (iq_capacity q)" and ?h = "unat (iq_head q)" and ?t = "unat (iq_tail q)"
  have b: "?h < ?c" "?t < ?c" using assms(1) by (simp_all add: isr_inv_def)
  have ne: "?h \<noteq> ?t" using assms(2) by (metis word_unat_eq_iff)
  show "isr_contents q = iq_slots q ! unat (iq_tail q) #
      isr_contents (q\<lparr>iq_tail := isr_next (iq_capacity q) (iq_tail q)\<rparr>)"
    using ring_count_pop [OF b ne] b unat_isr_next [OF b(2)]
      ring_list_pop [of "iq_slots q" ?c ?t "ring_count ?c ?h ((?t + 1) mod ?c)"]
    by (simp add: isr_contents_def isr_size_def)
  show "isr_inv (q\<lparr>iq_tail := isr_next (iq_capacity q) (iq_tail q)\<rparr>)"
    using assms(1) isr_next_less [OF b(2)] by (simp add: isr_inv_def)
qed

lemma length_isr_contents [simp]: "length (isr_contents q) = isr_size q"
  by (simp add: isr_contents_def)

lemma isr_contents_cong:
  "iq_slots p = iq_slots q \<Longrightarrow> iq_capacity p = iq_capacity q \<Longrightarrow> iq_head p = iq_head q \<Longrightarrow>
   iq_tail p = iq_tail q \<Longrightarrow>
   isr_contents p = isr_contents q \<and> isr_inv p = isr_inv q \<and> isr_room p = isr_room q"
  by (simp add: isr_contents_def isr_size_def isr_inv_def isr_room_def)

lemma isr_put_contents:
  assumes inv: "isr_inv q" and p: "isr_put q e = (ok, q')"
  shows "ok = (length (isr_contents q) < isr_room q) \<and>
    isr_contents q' = (if ok then isr_contents q @ [e] else isr_contents q) \<and>
    isr_inv q' \<and> isr_room q' = isr_room q"
proof (cases "isr_next (iq_capacity q) (iq_head q) = iq_tail q")
  case True
  then have "ok = False" "q' = q\<lparr>iq_dropped := iq_dropped q + 1\<rparr>"
    using p by (auto simp: isr_put_def Let_def)
  then show ?thesis
    using isr_full [OF inv True] inv isr_contents_cong [of q' q] by simp
next
  case False
  let ?q1 = "q\<lparr>iq_slots := (iq_slots q)[unat (iq_head q) := e]\<rparr>"
  let ?q2 = "?q1\<lparr>iq_head := isr_next (iq_capacity ?q1) (iq_head ?q1)\<rparr>"
  have ok: "ok" and f: "iq_slots q' = iq_slots ?q2" "iq_capacity q' = iq_capacity ?q2"
    "iq_head q' = iq_head ?q2" "iq_tail q' = iq_tail ?q2"
    using p False by (auto simp: isr_put_def Let_def)
  have inv1: "isr_inv ?q1" and lt: "unat (iq_head q) < length (iq_slots q)"
    using inv by (auto simp: isr_inv_def)
  have "isr_next (iq_capacity ?q1) (iq_head ?q1) \<noteq> iq_tail ?q1" using False by simp
  note pub = isr_publish_head [OF inv1 this]
  have "isr_contents ?q2 = isr_contents q @ [e]"
    unfolding pub(1) isr_write_head [OF inv] using lt by simp
  moreover have "isr_size q < isr_room q" using pub(3) by (simp add: isr_size_def isr_room_def)
  moreover have "isr_room ?q2 = isr_room q" by (simp add: isr_room_def)
  ultimately show ?thesis using ok pub(2) isr_contents_cong [of q' ?q2] f by simp
qed

lemma isr_get_contents:
  assumes inv: "isr_inv q"
  shows "case isr_get q of None \<Rightarrow> isr_contents q = []
    | Some (e, q') \<Rightarrow> isr_contents q = e # isr_contents q' \<and> isr_inv q' \<and> isr_room q' = isr_room q"
proof (cases "iq_tail q = iq_head q")
  case True
  then show ?thesis
    by (simp add: isr_get_def Let_def isr_contents_def isr_size_def ring_count_def)
next
  case False
  let ?q1 = "q\<lparr>iq_tail := isr_next (iq_capacity q) (iq_tail q)\<rparr>"
  have "isr_contents (?q1\<lparr>iq_popped := iq_popped ?q1 + 1\<rparr>) = isr_contents ?q1 \<and>
      isr_inv (?q1\<lparr>iq_popped := iq_popped ?q1 + 1\<rparr>) = isr_inv ?q1"
    using isr_contents_cong [of "?q1\<lparr>iq_popped := iq_popped ?q1 + 1\<rparr>" ?q1] by simp
  then show ?thesis
    using isr_advance_tail [OF inv False] False
    by (simp add: isr_get_def Let_def isr_room_def)
qed

lemma isr_within:
  assumes "isr_inv q"
  shows "length (isr_contents q) \<le> isr_room q"
proof -
  have "isr_size q < unat (iq_capacity q)"
    using assms unfolding isr_inv_def isr_size_def by (blast intro: ring_count_less)
  then show ?thesis by (simp add: isr_room_def)
qed

interpretation isr_fifo: bounded_fifo isr_put isr_get isr_inv isr_contents isr_room
  by unfold_locales (rule isr_put_contents isr_get_contents isr_within; assumption)+

end
