(* ===== verification/Isr_Spsc.thy ===== *)
theory Isr_Spsc
  imports Isr_Queue Event_Queue_Properties
begin

text \<open>
  The ISR ring under interleaving. Each shared access of \<open>cancestry_event_isr_queue_push\<close> and
  \<open>cancestry_event_isr_queue_pop\<close> is one step: a read of an index, the write of a slot, the
  publication of an index, the counters. The producer and the consumer step in any order, so
  an interrupt may arrive between any two accesses of the main loop; the barriers of the code
  keep the slot access before the index publication, as the steps do. Memory is taken to be sequentially
  consistent and a slot to be copied in one step; the code has no barrier between the consumer's read of
  the head and its read of the slot. The fields \<open>sp_accepted\<close>
  and \<open>sp_delivered\<close> are history: what pushes returned true for and what pops returned.
\<close>

datatype producer_pc =
    P_idle
  | P_got_head event u16
  | P_room event u16 u16
  | P_written event u16 u16
  | P_published u16 u16

datatype consumer_pc =
    C_idle
  | C_got_tail u16
  | C_nonempty u16
  | C_copied u16 event
  | C_published

record spsc =
  sp_ring :: isr_queue
  sp_producer :: producer_pc
  sp_consumer :: consumer_pc
  sp_accepted :: "event list"
  sp_delivered :: "event list"

text \<open>One step of the producer; \<open>e\<close> is the event of the push it starts when idle.\<close>

fun producer_step :: "event \<Rightarrow> spsc \<Rightarrow> spsc" where
  "producer_step e s =
     (let q = sp_ring s in
      case sp_producer s of
        P_idle \<Rightarrow> s\<lparr>sp_producer := P_got_head e (iq_head q)\<rparr>
      | P_got_head x h \<Rightarrow>
          (if isr_next (iq_capacity q) h = iq_tail q
           then s\<lparr>sp_ring := q\<lparr>iq_dropped := iq_dropped q + 1\<rparr>, sp_producer := P_idle\<rparr>
           else s\<lparr>sp_producer := P_room x h (iq_tail q)\<rparr>)
      | P_room x h t \<Rightarrow>
          s\<lparr>sp_ring := q\<lparr>iq_slots := (iq_slots q)[unat h := x]\<rparr>, sp_producer := P_written x h t\<rparr>
      | P_written x h t \<Rightarrow>
          s\<lparr>sp_ring := q\<lparr>iq_head := isr_next (iq_capacity q) h\<rparr>,
            sp_producer := P_published (isr_next (iq_capacity q) h) t,
            sp_accepted := sp_accepted s @ [x]\<rparr>
      | P_published n t \<Rightarrow>
          s\<lparr>sp_ring := isr_high_water n t (q\<lparr>iq_pushed := iq_pushed q + 1\<rparr>),
            sp_producer := P_idle\<rparr>)"

fun consumer_step :: "spsc \<Rightarrow> spsc" where
  "consumer_step s =
     (let q = sp_ring s in
      case sp_consumer s of
        C_idle \<Rightarrow> s\<lparr>sp_consumer := C_got_tail (iq_tail q)\<rparr>
      | C_got_tail t \<Rightarrow>
          s\<lparr>sp_consumer := (if t = iq_head q then C_idle else C_nonempty t)\<rparr>
      | C_nonempty t \<Rightarrow> s\<lparr>sp_consumer := C_copied t (iq_slots q ! unat t)\<rparr>
      | C_copied t x \<Rightarrow>
          s\<lparr>sp_ring := q\<lparr>iq_tail := isr_next (iq_capacity q) t\<rparr>, sp_consumer := C_published,
            sp_delivered := sp_delivered s @ [x]\<rparr>
      | C_published \<Rightarrow>
          s\<lparr>sp_ring := q\<lparr>iq_popped := iq_popped q + 1\<rparr>, sp_consumer := C_idle\<rparr>)"

declare producer_step.simps [simp del] consumer_step.simps [simp del]

lemmas spsc_simps = producer_step.simps consumer_step.simps Let_def

inductive spsc_step :: "spsc \<Rightarrow> spsc \<Rightarrow> bool" where
  produce: "spsc_step s (producer_step e s)"
| consume: "spsc_step s (consumer_step s)"

inductive spsc_reach :: "spsc \<Rightarrow> spsc \<Rightarrow> bool" where
  refl: "spsc_reach s s"
| step: "spsc_reach s t \<Longrightarrow> spsc_step t u \<Longrightarrow> spsc_reach s u"

inductive_cases spsc_stepE: "spsc_step s t"

definition spsc_start :: "isr_queue \<Rightarrow> spsc" where
  "spsc_start q = \<lparr>sp_ring = q, sp_producer = P_idle, sp_consumer = C_idle,
     sp_accepted = [], sp_delivered = []\<rparr>"

text \<open>Uninterrupted, the steps are the operations of \<open>Isr_Queue\<close>.\<close>

lemma producer_alone:
  assumes "sp_producer s = P_idle" and "isr_put (sp_ring s) e = (True, q')"
  shows "(producer_step e ^^ 5) s =
    s\<lparr>sp_ring := q', sp_accepted := sp_accepted s @ [e]\<rparr>"
  using assms by (auto simp: spsc_simps isr_put_def numeral_eq_Suc isr_high_water_def split: if_splits)

lemma producer_alone_full:
  assumes "sp_producer s = P_idle" and "isr_put (sp_ring s) e = (False, q')"
  shows "(producer_step e ^^ 2) s = s\<lparr>sp_ring := q'\<rparr>"
  using assms by (auto simp: spsc_simps isr_put_def numeral_eq_Suc split: if_splits)

lemma consumer_alone:
  assumes "sp_consumer s = C_idle" and "isr_get (sp_ring s) = Some (e, q')"
  shows "(consumer_step ^^ 5) s = s\<lparr>sp_ring := q', sp_delivered := sp_delivered s @ [e]\<rparr>"
  using assms by (auto simp: spsc_simps isr_get_def numeral_eq_Suc split: if_splits)

subsection \<open>The invariant of the interleaving\<close>

fun producer_ok :: "isr_queue \<Rightarrow> producer_pc \<Rightarrow> bool" where
  "producer_ok q P_idle = True"
| "producer_ok q (P_got_head x h) = (h = iq_head q)"
| "producer_ok q (P_room x h t) =
     (h = iq_head q \<and> isr_next (iq_capacity q) h \<noteq> iq_tail q)"
| "producer_ok q (P_written x h t) =
     (h = iq_head q \<and> isr_next (iq_capacity q) h \<noteq> iq_tail q \<and> iq_slots q ! unat h = x)"
| "producer_ok q (P_published n t) = True"

fun consumer_ok :: "isr_queue \<Rightarrow> consumer_pc \<Rightarrow> bool" where
  "consumer_ok q C_idle = True"
| "consumer_ok q (C_got_tail t) = (t = iq_tail q)"
| "consumer_ok q (C_nonempty t) = (t = iq_tail q \<and> t \<noteq> iq_head q)"
| "consumer_ok q (C_copied t x) =
     (t = iq_tail q \<and> t \<noteq> iq_head q \<and> iq_slots q ! unat t = x)"
| "consumer_ok q C_published = True"

definition spsc_inv :: "spsc \<Rightarrow> bool" where
  "spsc_inv s \<longleftrightarrow> isr_inv (sp_ring s) \<and> producer_ok (sp_ring s) (sp_producer s) \<and>
     consumer_ok (sp_ring s) (sp_consumer s) \<and>
     sp_accepted s = sp_delivered s @ isr_contents (sp_ring s)"

lemma isr_next_inj:
  assumes "isr_inv q" and "isr_next (iq_capacity q) (iq_head q) = isr_next (iq_capacity q) (iq_tail q)"
  shows "iq_head q = iq_tail q"
proof -
  have b: "unat (iq_head q) < unat (iq_capacity q)" "unat (iq_tail q) < unat (iq_capacity q)"
    using assms(1) by (simp_all add: isr_inv_def)
  have "(unat (iq_head q) + 1) mod unat (iq_capacity q) = (unat (iq_tail q) + 1) mod unat (iq_capacity q)"
    using assms(2) unat_isr_next [OF b(1)] unat_isr_next [OF b(2)] by simp
  then show ?thesis using b by (auto simp: mod_Suc word_unat_eq_iff split: if_splits)
qed

lemma producer_step_inv:
  assumes "spsc_inv s"
  shows "spsc_inv (producer_step e s)"
proof -
  let ?q = "sp_ring s"
  have inv: "isr_inv ?q" and c: "consumer_ok ?q (sp_consumer s)"
    and acc: "sp_accepted s = sp_delivered s @ isr_contents ?q"
    and p: "producer_ok ?q (sp_producer s)"
    using assms by (simp_all add: spsc_inv_def)
  have cong: "isr_contents (q'::isr_queue) = isr_contents ?q \<and> isr_inv q'"
    if "iq_slots q' = iq_slots ?q" "iq_capacity q' = iq_capacity ?q" "iq_head q' = iq_head ?q"
      "iq_tail q' = iq_tail ?q" for q'
    using isr_contents_cong [of q' ?q] that inv by simp
  show ?thesis
  proof (cases "sp_producer s")
    case P_idle
    then show ?thesis using inv c acc by (auto simp: spsc_simps spsc_inv_def)
  next
    case (P_got_head x h)
    have "consumer_ok (?q\<lparr>iq_dropped := d\<rparr>) pc = consumer_ok ?q pc" for d pc
      by (cases pc) simp_all
    then show ?thesis
      using P_got_head p inv c acc cong [of "?q\<lparr>iq_dropped := iq_dropped ?q + 1\<rparr>"]
      by (auto simp: spsc_simps spsc_inv_def)
  next
    case (P_room x h t)
    let ?q' = "?q\<lparr>iq_slots := (iq_slots ?q)[unat (iq_head ?q) := x]\<rparr>"
    have "unat (iq_head ?q) < length (iq_slots ?q)" using inv by (simp add: isr_inv_def)
    moreover have "consumer_ok ?q' (sp_consumer s)"
      using c by (cases "sp_consumer s") (auto simp: word_unat_eq_iff)
    moreover have "isr_inv ?q'" using inv by (simp add: isr_inv_def)
    ultimately show ?thesis
      using P_room p acc isr_write_head [OF inv, of x] by (auto simp: spsc_simps spsc_inv_def)
  next
    case (P_written x h t)
    let ?q' = "?q\<lparr>iq_head := isr_next (iq_capacity ?q) (iq_head ?q)\<rparr>"
    have h: "h = iq_head ?q" "isr_next (iq_capacity ?q) (iq_head ?q) \<noteq> iq_tail ?q"
      "iq_slots ?q ! unat (iq_head ?q) = x"
      using p P_written by auto
    have "consumer_ok ?q' (sp_consumer s)"
      using c h(2) by (cases "sp_consumer s") auto
    then show ?thesis
      using P_written h acc isr_publish_head [OF inv h(2)] by (auto simp: spsc_simps spsc_inv_def)
  next
    case (P_published n t)
    have "consumer_ok (isr_high_water n t (?q\<lparr>iq_pushed := u\<rparr>)) pc = consumer_ok ?q pc" for u pc
      by (cases pc) simp_all
    then show ?thesis
      using P_published inv c acc cong [of "isr_high_water n t (?q\<lparr>iq_pushed := iq_pushed ?q + 1\<rparr>)"]
      by (auto simp: spsc_simps spsc_inv_def)
  qed
qed

lemma consumer_step_inv:
  assumes "spsc_inv s"
  shows "spsc_inv (consumer_step s)"
proof -
  let ?q = "sp_ring s"
  have inv: "isr_inv ?q" and c: "consumer_ok ?q (sp_consumer s)"
    and acc: "sp_accepted s = sp_delivered s @ isr_contents ?q"
    and p: "producer_ok ?q (sp_producer s)"
    using assms by (simp_all add: spsc_inv_def)
  show ?thesis
  proof (cases "sp_consumer s")
    case C_idle
    then show ?thesis using inv p acc by (auto simp: spsc_simps spsc_inv_def)
  next
    case (C_got_tail t)
    then show ?thesis using inv p c acc by (auto simp: spsc_simps spsc_inv_def)
  next
    case (C_nonempty t)
    then show ?thesis using inv p c acc by (auto simp: spsc_simps spsc_inv_def)
  next
    case (C_copied t x)
    have t: "t = iq_tail ?q" "iq_tail ?q \<noteq> iq_head ?q" "iq_slots ?q ! unat (iq_tail ?q) = x"
      using c C_copied by auto
    have "producer_ok (?q\<lparr>iq_tail := isr_next (iq_capacity ?q) (iq_tail ?q)\<rparr>) (sp_producer s)"
      using p isr_next_inj [OF inv] t(2) by (cases "sp_producer s") auto
    then show ?thesis
      using C_copied t acc isr_advance_tail [OF inv t(2)] by (auto simp: spsc_simps spsc_inv_def)
  next
    case C_published
    have "producer_ok (?q\<lparr>iq_popped := u\<rparr>) pc = producer_ok ?q pc" for u pc
      by (cases pc) simp_all
    then show ?thesis
      using C_published inv p acc isr_contents_cong [of "?q\<lparr>iq_popped := iq_popped ?q + 1\<rparr>" ?q]
      by (auto simp: spsc_simps spsc_inv_def)
  qed
qed

lemma spsc_step_inv: "spsc_step s t \<Longrightarrow> spsc_inv s \<Longrightarrow> spsc_inv t"
  by (erule spsc_stepE) (simp_all add: producer_step_inv consumer_step_inv)

lemma spsc_reach_inv: "spsc_reach s t \<Longrightarrow> spsc_inv s \<Longrightarrow> spsc_inv t"
  by (induction rule: spsc_reach.induct) (auto dest: spsc_step_inv)

lemma spsc_start_inv: "isr_inv q \<Longrightarrow> isr_contents q = [] \<Longrightarrow> spsc_inv (spsc_start q)"
  by (simp add: spsc_inv_def spsc_start_def)

lemma isr_fresh:
  assumes "isr_queue_init (Some q0) storage cap = (True, Some q)" and "unat cap \<le> length storage"
  shows "isr_inv q" and "isr_contents q = []" and "isr_room q = unat cap - 1"
  using assms
  by (auto simp: isr_inv_def isr_contents_def isr_size_def ring_count_def isr_room_def
      word_less_nat_alt split: if_splits)

lemma spsc_room_fixed:
  "spsc_step s t \<Longrightarrow> isr_room (sp_ring t) = isr_room (sp_ring s)"
  by (erule spsc_stepE)
    (auto simp: isr_room_def spsc_simps split: producer_pc.splits consumer_pc.splits)

lemma spsc_reach_room: "spsc_reach s t \<Longrightarrow> isr_room (sp_ring t) = isr_room (sp_ring s)"
  by (induction rule: spsc_reach.induct) (auto simp: spsc_room_fixed)

subsection \<open>Draining into the event queue\<close>

lemma isr_pop_cases:
  assumes "isr_inv q"
  shows "isr_contents q = [] \<and> isr_queue_pop (Some q) = (False, Some q, None) \<or>
    (\<exists>e q'. isr_queue_pop (Some q) = (True, Some q', Some e) \<and>
       isr_contents q = e # isr_contents q' \<and> isr_inv q')"
  using isr_get_contents [OF assms] assms
  by (cases "isr_get q") (auto simp: isr_inv_def split: prod.splits)

text \<open>How many pushes of a sequence the destination admits.\<close>

fun pushes_admitted :: "event_queue \<Rightarrow> event list \<Rightarrow> nat" where
  "pushes_admitted d [] = 0"
| "pushes_admitted d (e # es) =
     (if \<exists>st. fst (queue_push d e) = Some st \<and> event_queue_status_is_ok st then 1 else 0)
       + pushes_admitted (push_to d e) es"

lemma pushes_admitted_le: "pushes_admitted d es \<le> length es"
proof (induction es arbitrary: d)
  case (Cons e es)
  have "pushes_admitted (push_to d e) es \<le> length es" by (rule Cons.IH)
  then show ?case by auto
qed simp

lemma isr_drain_loop_all:
  "isr_inv q \<Longrightarrow> queue_inv d \<Longrightarrow> hooks_complete (eq_hard_fault_hooks d) \<Longrightarrow>
   length (isr_contents q) \<le> n \<Longrightarrow>
   \<exists>q' calls. isr_drain_loop n q d drained =
       (Some (drained + of_nat (pushes_admitted d (isr_contents q))), q', foldl push_to d (isr_contents q), calls) \<and>
     isr_inv q' \<and> isr_contents q' = []"
proof (induction n arbitrary: q d drained)
  case 0
  then have "isr_contents q = []" by (simp flip: length_0_conv)
  then show ?case using 0 by simp
next
  case (Suc n)
  from isr_pop_cases [OF Suc.prems(1)] show ?case
  proof (elim disjE conjE exE)
    assume "isr_contents q = []" "isr_queue_pop (Some q) = (False, Some q, None)"
    then show ?thesis using Suc.prems(1) by (simp del: isr_queue_pop.simps)
  next
    fix e q'
    assume p: "isr_queue_pop (Some q) = (True, Some q', Some e)"
      "isr_contents q = e # isr_contents q'" "isr_inv q'"
    obtain st d' calls where pu: "queue_push d e = (st, d', calls)" by (cases "queue_push d e")
    have d': "d' = push_to d e" using pu by (simp add: push_to_def)
    have "st \<noteq> None"
      using push_status_spec [OF Suc.prems(2), of e] pu Suc.prems(3)
      by (auto simp: admission_status_def simp del: event_is_valid.simps split: if_splits)
    then obtain st' where st: "st = Some st'" by blast
    have inv: "queue_inv d'" unfolding d' using eq_sink.push_inv [OF Suc.prems(2)] .
    have hk: "hooks_complete (eq_hard_fault_hooks d')"
      using Suc.prems(3) by (simp add: d' push_to_def push_hooks)
    have "length (isr_contents q') \<le> n" using Suc.prems(4) p(2) by simp
    note ih = Suc.IH [OF p(3) inv hk this, of "if event_queue_status_is_ok st' then drained + 1 else drained"]
    obtain q2 c2 where
      "isr_drain_loop n q' d' (if event_queue_status_is_ok st' then drained + 1 else drained) =
         (Some ((if event_queue_status_is_ok st' then drained + 1 else drained)
            + of_nat (pushes_admitted d' (isr_contents q'))), q2, foldl push_to d' (isr_contents q'), c2)"
      "isr_inv q2" "isr_contents q2 = []" using ih by blast
    then show ?thesis using p pu st d' by (simp del: isr_queue_pop.simps)
  qed
qed

lemma isr_count_size: "isr_inv q \<Longrightarrow> unat (isr_queue_count (Some q)) = isr_size q"
  using unat_isr_occupancy [of "iq_head q" "iq_capacity q" "iq_tail q"]
  by (auto simp: isr_inv_def isr_size_def)

subsection \<open>Properties\<close>

text \<open>A schedule: \<open>Some e\<close> steps the producer, \<open>None\<close> the consumer.\<close>

fun spsc_run :: "event option list \<Rightarrow> spsc \<Rightarrow> spsc" where
  "spsc_run [] s = s"
| "spsc_run (Some e # sch) s = spsc_run sch (producer_step e s)"
| "spsc_run (None # sch) s = spsc_run sch (consumer_step s)"

lemma spsc_run_reach: "spsc_reach s0 s \<Longrightarrow> spsc_reach s0 (spsc_run sch s)"
  by (induction sch s rule: spsc_run.induct) (auto intro: spsc_reach.step spsc_step.intros)

definition demo_isr :: isr_queue where
  "demo_isr = the (snd (isr_queue_init
     (Some \<lparr>iq_slots = [], iq_capacity = 0, iq_head = 0, iq_tail = 0, iq_dropped = 0,
        iq_pushed = 0, iq_popped = 0, iq_high_water = 0\<rparr>) (replicate 3 zero_event) 3))"

lemma demo_isr_inits:
  "isr_queue_init (Some \<lparr>iq_slots = [], iq_capacity = 0, iq_head = 0, iq_tail = 0, iq_dropped = 0,
     iq_pushed = 0, iq_popped = 0, iq_high_water = 0\<rparr>) (replicate 3 zero_event) 3 = (True, Some demo_isr)"
  by (simp add: demo_isr_def)

text \<open>C5: The ISR ring is a correct single-producer single-consumer queue under every interleaving
  of the memory accesses of one pushing interrupt handler and one popping main loop: at every
  reachable moment the events popped so far, followed by the events now in the ring, are
  exactly the events whose push succeeded, in order (none lost, none duplicated, none read
  torn), and the ring never holds more than capacity - 1 events.\<close>

lemma isr_interleaving_is_fifo:
  assumes "isr_queue_init (Some q0) storage cap = (True, Some q)" and "unat cap \<le> length storage"
    and "spsc_reach (spsc_start q) s"
  shows "sp_accepted s = sp_delivered s @ isr_contents (sp_ring s) \<and>
    length (isr_contents (sp_ring s)) \<le> unat cap - 1"
proof -
  note f = isr_fresh [OF assms(1,2)]
  have "spsc_inv s" using spsc_reach_inv [OF assms(3) spsc_start_inv [OF f(1,2)]] .
  moreover have "isr_room (sp_ring s) = unat cap - 1"
    using spsc_reach_room [OF assms(3)] f(3) by (simp add: spsc_start_def)
  ultimately show ?thesis
    using isr_fifo.within [of "sp_ring s"] by (simp add: spsc_inv_def)
qed

lemma isr_interleaving_is_fifo_witness:
  "\<exists>s. spsc_reach (spsc_start demo_isr) s \<and> sp_accepted s = [zero_event] \<and>
     sp_accepted s = sp_delivered s @ isr_contents (sp_ring s)"
proof -
  let ?s = "spsc_run (None # replicate 5 (Some zero_event) @ [None, Some zero_event])
    (spsc_start demo_isr)"
  have "spsc_reach (spsc_start demo_isr) ?s" by (rule spsc_run_reach [OF spsc_reach.refl])
  moreover have "sp_accepted ?s = [zero_event]" by code_simp
  ultimately show ?thesis
    using isr_interleaving_is_fifo [OF demo_isr_inits, of ?s] by auto
qed

text \<open>C40: Draining the ISR ring into the main queue is total and exact. For a well-formed ring, and a
  well-formed destination with its hard-fault hooks installed, the drain returns, leaves the ring empty and
  well formed, and the destination is what pushing the ring's events one by one, oldest first, gives; the
  number returned is exactly the number of those pushes that were admitted, the destination keeps its
  invariant, and no FAULT event it held is lost, however full it is.\<close>

lemma isr_drain_moves_all:
  assumes "isr_inv q" and "queue_inv d" and "hooks_complete (eq_hard_fault_hooks d)"
  shows "\<exists>k q' d' calls. isr_queue_drain (Some q) (Some d) = (Some k, Some q', Some d', calls) \<and>
    d' = foldl (\<lambda>s e. push_queue (queue_push s e)) d (isr_contents q) \<and>
    unat k = pushes_admitted d (isr_contents q) \<and>
    isr_inv q' \<and> isr_contents q' = [] \<and> queue_inv d' \<and> queue_faults d \<subseteq># queue_faults d'"
proof -
  have len: "length (isr_contents q) \<le> unat (isr_queue_count (Some q))"
    using isr_count_size [OF assms(1)] by simp
  from isr_drain_loop_all [OF assms this, of 0] obtain q' calls where
    d: "isr_drain_loop (unat (isr_queue_count (Some q))) q d 0 =
      (Some (of_nat (pushes_admitted d (isr_contents q))), q', foldl push_to d (isr_contents q), calls)"
      "isr_inv q'" "isr_contents q' = []"
    by auto
  have "pushes_admitted d (isr_contents q) < 2 ^ 32"
    using pushes_admitted_le [of d "isr_contents q"] len unat_u16_lt [of "isr_queue_count (Some q)"] by simp
  then have "unat (of_nat (pushes_admitted d (isr_contents q)) :: u32) = pushes_admitted d (isr_contents q)"
    by (simp add: unat_of_nat_small)
  moreover have "queue_inv (foldl push_to d (isr_contents q))" by (rule eq_sink.pushes_inv [OF assms(2)])
  moreover have "queue_faults d \<subseteq># queue_faults (foldl push_to d (isr_contents q))"
    by (rule eq_sink.pushes_vital [OF assms(2)])
  ultimately show ?thesis
    using d by (simp add: isr_queue_drain_def push_to_def [abs_def])
qed

lemma isr_drain_moves_all_witness:
  "\<exists>k q' d' calls. isr_queue_drain (Some (snd (isr_put demo_isr zero_event))) (Some fault_storm) =
      (Some k, Some q', Some d', calls) \<and> d' = push_queue (queue_push fault_storm zero_event) \<and>
    isr_contents q' = [] \<and> queue_faults fault_storm \<subseteq># queue_faults d'"
proof -
  note f = isr_fresh [OF demo_isr_inits]
  obtain ok q where p: "isr_put demo_isr zero_event = (ok, q)" by (cases "isr_put demo_isr zero_event")
  have "ok" using p by (auto simp: isr_put_def demo_isr_def Let_def isr_next_def)
  then have q: "isr_inv q" "isr_contents q = [zero_event]"
    using isr_put_contents [OF f(1) p] f(2) by auto
  have "hooks_complete (eq_hard_fault_hooks fault_storm)"
    by (simp add: fault_storm_facts(5) hooks_complete_def all_hooks_def)
  from isr_drain_moves_all [OF q(1) fault_storm_facts(1) this] show ?thesis
    unfolding p q(2) by auto
qed

end
