(* ===== verification/Bms_Governor.thy ===== *)
theory Bms_Governor
  imports Prelude
begin

text \<open>
  core/governor/bms_governor.c: the stateless gate between a VCU power and torque request and
  the actuator response. All arithmetic is the code's 32- and 64-bit unsigned arithmetic; the
  lemmas show that none of it wraps and what the results are as naturals. An enumeration value
  that C lets a caller pass but the header does not name is \<open>BMS_STATE_unknown\<close>.
\<close>

definition BMS_EFFICIENCY_SCALE :: u16 where "BMS_EFFICIENCY_SCALE = 1000"
definition BMS_FAULT_GOVERNOR_INTERVENTION :: u32 where "BMS_FAULT_GOVERNOR_INTERVENTION = 0x42534D01"
definition BMS_FAULT_INVALID_INPUT :: u32 where "BMS_FAULT_INVALID_INPUT = 0x42534D02"
definition BMS_FAULT_BMS_UNAVAILABLE :: u32 where "BMS_FAULT_BMS_UNAVAILABLE = 0x42534D03"
definition BMS_POWER_DENOMINATOR :: u64 where "BMS_POWER_DENOMINATOR = 1000000000"
definition UINT32_MAX :: u32 where "UINT32_MAX = 0xFFFFFFFF"
definition UINT64_MAX :: u64 where "UINT64_MAX = 0xFFFFFFFFFFFFFFFF"

lemmas bms_constants = BMS_EFFICIENCY_SCALE_def BMS_FAULT_GOVERNOR_INTERVENTION_def
  BMS_FAULT_INVALID_INPUT_def BMS_FAULT_BMS_UNAVAILABLE_def

datatype bms_state =
    BMS_STATE_NORMAL
  | BMS_STATE_THERMAL_DERATING
  | BMS_STATE_FAULT
  | BMS_STATE_unknown int

datatype governor_decision = GOVERNOR_ALLOW | GOVERNOR_DERATE | GOVERNOR_BLOCK

datatype governor_status =
    GOVERNOR_OK
  | GOVERNOR_ERR_NULL
  | GOVERNOR_ERR_INVALID_INPUT
  | GOVERNOR_ERR_BMS_FAULT

record governor_request =
  gr_requested_power_w :: u32
  gr_requested_torque_mnm :: u32
  gr_bus_voltage_mv :: u32
  gr_max_discharge_current_ma :: u32
  gr_efficiency_permille :: u16
  gr_bms_state :: bms_state

record governor_result =
  gs_decision :: governor_decision
  gs_requested_current_ma :: u32
  gs_allowed_current_ma :: u32
  gs_maximum_power_w :: u32
  gs_allowed_power_w :: u32
  gs_allowed_torque_mnm :: u32
  gs_intervention :: bool
  gs_fault_code :: u32

definition bms_result_init :: governor_result where
  "bms_result_init = \<lparr>gs_decision = GOVERNOR_BLOCK, gs_requested_current_ma = 0,
     gs_allowed_current_ma = 0, gs_maximum_power_w = 0, gs_allowed_power_w = 0,
     gs_allowed_torque_mnm = 0, gs_intervention = True, gs_fault_code = BMS_FAULT_INVALID_INPUT\<rparr>"

definition bms_saturate_u32 :: "u64 \<Rightarrow> u32" where
  "bms_saturate_u32 value = (if value > ucast UINT32_MAX then UINT32_MAX else ucast value)"

definition bms_requested_current_ma :: "u32 \<Rightarrow> u32 \<Rightarrow> u16 \<Rightarrow> u32" where
  "bms_requested_current_ma power_w voltage_mv efficiency_permille =
     (let numerator = ucast power_w * BMS_POWER_DENOMINATOR;
          denominator = ucast voltage_mv * ucast efficiency_permille;
          quotient = numerator div denominator
      in if denominator = 0 then UINT32_MAX
         else bms_saturate_u32
           (if numerator mod denominator \<noteq> 0 then quotient + 1 else quotient))"

definition bms_maximum_power_w :: "u32 \<Rightarrow> u32 \<Rightarrow> u16 \<Rightarrow> u32" where
  "bms_maximum_power_w current_ma voltage_mv efficiency_permille =
     (if voltage_mv \<noteq> 0 \<and> ucast current_ma > UINT64_MAX div ucast voltage_mv
      then UINT32_MAX
      else
        let product = (ucast current_ma :: u64) * ucast voltage_mv;
            whole = product div BMS_POWER_DENOMINATOR;
            remainder = product mod BMS_POWER_DENOMINATOR;
            scaled = whole * ucast efficiency_permille +
              (remainder * ucast efficiency_permille) div BMS_POWER_DENOMINATOR
        in bms_saturate_u32 scaled)"

definition bms_scale_torque :: "u32 \<Rightarrow> u32 \<Rightarrow> u32 \<Rightarrow> u32" where
  "bms_scale_torque torque_mnm allowed_power_w requested_power_w =
     (if requested_power_w = 0 then 0
      else bms_saturate_u32
        ((ucast torque_mnm * ucast allowed_power_w) div ucast requested_power_w))"

text \<open>The evaluation of a non-NULL request; the result starts from \<open>bms_result_init\<close>.\<close>

definition bms_evaluate :: "governor_request \<Rightarrow> governor_status \<times> governor_result" where
  "bms_evaluate rq =
     (let r0 = bms_result_init\<lparr>gs_requested_current_ma :=
            bms_requested_current_ma (gr_requested_power_w rq) (gr_bus_voltage_mv rq)
              (gr_efficiency_permille rq)\<rparr>
      in if gr_bus_voltage_mv rq = 0 \<or> gr_max_discharge_current_ma rq = 0 \<or>
            gr_efficiency_permille rq = 0 \<or> gr_efficiency_permille rq > BMS_EFFICIENCY_SCALE
         then (GOVERNOR_ERR_INVALID_INPUT, r0\<lparr>gs_fault_code := BMS_FAULT_INVALID_INPUT\<rparr>)
         else
           let maximum_power = bms_maximum_power_w (gr_max_discharge_current_ma rq)
                 (gr_bus_voltage_mv rq) (gr_efficiency_permille rq);
               r1 = r0\<lparr>gs_allowed_current_ma := gr_max_discharge_current_ma rq,
                 gs_maximum_power_w := maximum_power\<rparr>
           in case gr_bms_state rq of
             BMS_STATE_FAULT \<Rightarrow>
               (GOVERNOR_ERR_BMS_FAULT, r1\<lparr>gs_decision := GOVERNOR_BLOCK,
                  gs_allowed_current_ma := 0, gs_maximum_power_w := 0, gs_allowed_power_w := 0,
                  gs_allowed_torque_mnm := 0, gs_fault_code := BMS_FAULT_BMS_UNAVAILABLE\<rparr>)
           | BMS_STATE_unknown _ \<Rightarrow>
               (GOVERNOR_ERR_INVALID_INPUT, r1\<lparr>gs_fault_code := BMS_FAULT_INVALID_INPUT\<rparr>)
           | _ \<Rightarrow>
               let allowed_power = (if gr_requested_power_w rq < maximum_power
                     then gr_requested_power_w rq else maximum_power);
                   r2 = r1\<lparr>gs_allowed_power_w := allowed_power,
                     gs_allowed_torque_mnm := bms_scale_torque (gr_requested_torque_mnm rq)
                       allowed_power (gr_requested_power_w rq)\<rparr>
               in if gr_requested_power_w rq > maximum_power
                  then (GOVERNOR_OK, r2\<lparr>gs_decision := GOVERNOR_DERATE, gs_intervention := True,
                     gs_fault_code := BMS_FAULT_GOVERNOR_INTERVENTION\<rparr>)
                  else (GOVERNOR_OK, r2\<lparr>gs_decision := GOVERNOR_ALLOW, gs_intervention := False,
                     gs_fault_code := 0\<rparr>))"

text \<open>\<open>has_result\<close>: the result pointer is not NULL.\<close>

definition bms_governor_evaluate ::
    "governor_request option \<Rightarrow> bool \<Rightarrow> governor_status \<times> governor_result option" where
  "bms_governor_evaluate request has_result =
     (if \<not> has_result then (GOVERNOR_ERR_NULL, None)
      else case request of
        None \<Rightarrow> (GOVERNOR_ERR_NULL, Some bms_result_init)
      | Some rq \<Rightarrow> (case bms_evaluate rq of (st, r) \<Rightarrow> (st, Some r)))"

fun bms_governor_may_transmit :: "governor_result option \<Rightarrow> bool" where
  "bms_governor_may_transmit None = False"
| "bms_governor_may_transmit (Some r) =
     (case gs_decision r of
        GOVERNOR_ALLOW \<Rightarrow> \<not> gs_intervention r \<and> gs_fault_code r = 0
      | GOVERNOR_DERATE \<Rightarrow>
          gs_intervention r \<and> gs_fault_code r = BMS_FAULT_GOVERNOR_INTERVENTION
      | GOVERNOR_BLOCK \<Rightarrow> False)"

text \<open>The three outputs \<open>(safe_power_w, safe_torque_mnm, fault_code)\<close>; \<open>None\<close> when a pointer is NULL.\<close>

definition bms_governor_gate_response ::
    "governor_request option \<Rightarrow> bool \<Rightarrow> bool \<times> (u32 \<times> u32 \<times> u32) option" where
  "bms_governor_gate_response request has_outputs =
     (if \<not> has_outputs then (False, None)
      else case bms_governor_evaluate request True of
        (status, result) \<Rightarrow>
          let fault_code = gs_fault_code (the result)
          in if status \<noteq> GOVERNOR_OK \<or> \<not> bms_governor_may_transmit result
             then (False, Some (0, 0, fault_code))
             else (True, Some (gs_allowed_power_w (the result),
                     gs_allowed_torque_mnm (the result), fault_code)))"

definition bms_governor_fault_name :: "u32 \<Rightarrow> string" where
  "bms_governor_fault_name c =
     (if c = 0 then ''NONE''
      else if c = BMS_FAULT_GOVERNOR_INTERVENTION then ''GOVERNOR_INTERVENTION''
      else if c = BMS_FAULT_INVALID_INPUT then ''INVALID_INPUT''
      else if c = BMS_FAULT_BMS_UNAVAILABLE then ''BMS_UNAVAILABLE''
      else ''UNKNOWN'')"

fun bms_governor_decision_name :: "governor_decision \<Rightarrow> string" where
  "bms_governor_decision_name GOVERNOR_ALLOW = ''ALLOW''"
| "bms_governor_decision_name GOVERNOR_DERATE = ''DERATE''"
| "bms_governor_decision_name GOVERNOR_BLOCK = ''BLOCK''"

subsection \<open>The arithmetic is exact\<close>

lemma unat_saturate: "unat (bms_saturate_u32 v) = min (unat v) (2 ^ 32 - 1)"
proof -
  have m: "unat (ucast UINT32_MAX :: u64) = 2 ^ 32 - 1"
    by (simp add: UINT32_MAX_def)
  show ?thesis
  proof (cases "v > ucast UINT32_MAX")
    case True
    then have "unat v > 2 ^ 32 - 1" using m by (simp add: word_less_nat_alt)
    then show ?thesis using True by (simp add: bms_saturate_u32_def UINT32_MAX_def)
  next
    case False
    then have "unat v \<le> 2 ^ 32 - 1" using m by (simp add: word_less_nat_alt)
    then show ?thesis using False by (simp add: bms_saturate_u32_def unat_ucast_small)
  qed
qed

lemma unat_ucast_u64_u32 [simp]: "unat (ucast (x :: u32) :: u64) = unat x"
  by (simp add: unat_ucast_up)

lemma unat_ucast_u64_u16 [simp]: "unat (ucast (x :: u16) :: u64) = unat x"
  by (simp add: unat_ucast_up)

lemma mult_less_bound: "a < m \<Longrightarrow> b < n \<Longrightarrow> m * n \<le> k \<Longrightarrow> a * b < (k :: nat)"
  using mult_strict_mono' [of a m b n] by linarith

lemma unat_u32_times_u32:
  "unat ((ucast (x :: u32) :: u64) * ucast (y :: u32)) = unat x * unat y"
proof -
  have "unat x * unat y < 2 ^ 64"
    by (rule mult_less_bound [OF unat_u32_lt unat_u32_lt]) simp
  then show ?thesis using unat_mult_small [of "ucast x :: u64" "ucast y"] by simp
qed

text \<open>The division before the multiplication loses nothing.\<close>

lemma split_division:
  fixes p e d :: nat
  assumes "0 < d"
  shows "p div d * e + (p mod d * e) div d = p * e div d"
proof -
  have "p * e = (p div d * e) * d + p mod d * e"
    by (metis div_mult_mod_eq distrib_right mult.assoc mult.commute)
  then have "p * e div d = (p div d * e * d + p mod d * e) div d" by simp
  also have "\<dots> = p div d * e + (p mod d * e) div d" using assms by (simp add: add.commute)
  finally show ?thesis by simp
qed

lemma ceil_div_nat:
  fixes n d :: nat
  assumes "d \<noteq> 0"
  shows "(n + (d - 1)) div d = (if n mod d = 0 then n div d else Suc (n div d))"
proof -
  have split: "(n + k) div d = n div d + (n mod d + k) div d" for k
  proof -
    have "n + k = n mod d + k + n div d * d" by (simp add: add.commute)
    then have "(n + k) div d = (n mod d + k + n div d * d) div d" by (rule arg_cong)
    also have "\<dots> = n div d + (n mod d + k) div d" by (rule div_mult_self1 [OF assms])
    finally show ?thesis .
  qed
  then have "(n + (d - 1)) div d = n div d + (n mod d + (d - 1)) div d" .
  moreover have "(n mod d + (d - 1)) div d = (if n mod d = 0 then 0 else 1)"
  proof (cases "n mod d = 0")
    case False
    have "n mod d < d" using assms by simp
    then have "d \<le> n mod d + (d - 1)" "n mod d + (d - 1) < 2 * d" using False by linarith+
    then show ?thesis using False by (simp add: div_nat_eqI)
  qed (use assms in simp)
  ultimately show ?thesis by simp
qed

lemma unat_bms_maximum_power:
  "unat (bms_maximum_power_w i v e) = min (unat i * unat v * unat e div 1000000000) (2 ^ 32 - 1)"
proof -
  let ?p = "(ucast i :: u64) * ucast v"
  have p: "unat ?p = unat i * unat v" by (rule unat_u32_times_u32)
  have plt: "unat ?p < 18446744073709551616" by (rule unat_u64_lt)
  have noov: "\<not> (v \<noteq> 0 \<and> ucast i > UINT64_MAX div (ucast v :: u64))"
  proof
    assume a: "v \<noteq> 0 \<and> ucast i > UINT64_MAX div (ucast v :: u64)"
    then have "unat i > (2 ^ 64 - 1) div unat v"
      by (simp add: word_less_nat_alt unat_div UINT64_MAX_def)
    moreover have "0 < unat v" using a by (simp add: unat_gt_0)
    ultimately have "unat i * unat v > 2 ^ 64 - 1" by (simp add: div_less_iff_less_mult)
    with p plt show False by simp
  qed
  have D: "unat BMS_POWER_DENOMINATOR = 1000000000" by (simp add: BMS_POWER_DENOMINATOR_def)
  let ?w = "?p div BMS_POWER_DENOMINATOR" and ?r = "?p mod BMS_POWER_DENOMINATOR"
  have w: "unat ?w = unat ?p div 1000000000" and r: "unat ?r = unat ?p mod 1000000000"
    by (simp_all add: unat_div unat_mod D)
  have wlt: "unat ?w < 18446744074" using plt w by simp
  have rlt: "unat ?r < 1000000000" using r by simp
  have we: "unat (?w * ucast e) = unat ?w * unat e"
    using unat_mult_small [of ?w "ucast e"] mult_less_bound [OF wlt unat_u16_lt [of e], of "2 ^ 64"]
    by simp
  have re: "unat (?r * ucast e) = unat ?r * unat e"
    using unat_mult_small [of ?r "ucast e"] mult_less_bound [OF rlt unat_u16_lt [of e], of "2 ^ 64"]
    by simp
  let ?q = "(?r * ucast e) div BMS_POWER_DENOMINATOR"
  have q: "unat ?q = unat ?r * unat e div 1000000000" using re by (simp add: unat_div D)
  have "unat ?w * unat e < 2 ^ 63"
    by (rule mult_less_bound [OF wlt unat_u16_lt]) simp
  moreover have "unat ?q < 2 ^ 63"
  proof -
    have "unat ?r * unat e < 2 ^ 63" by (rule mult_less_bound [OF rlt unat_u16_lt]) simp
    then show ?thesis unfolding q by (rule le_less_trans [OF div_le_dividend])
  qed
  ultimately have "unat (?w * ucast e + ?q) = unat (?w * ucast e) + unat ?q"
    by (intro unat_plus_small) (simp add: we)
  then have "unat (?w * ucast e + ?q) = unat ?w * unat e + unat ?r * unat e div 1000000000"
    unfolding we q .
  also have "\<dots> = unat i * unat v * unat e div 1000000000"
    using split_division [of 1000000000 "unat ?p" "unat e"] w r p by simp
  finally have s: "unat (?w * ucast e + (?r * ucast e) div BMS_POWER_DENOMINATOR) =
      unat i * unat v * unat e div 1000000000" .
  show ?thesis
    unfolding bms_maximum_power_w_def if_not_P [OF noov] Let_def unat_saturate s ..
qed

lemma unat_bms_requested_current:
  "unat (bms_requested_current_ma p v e) =
    (if unat v * unat e = 0 then 2 ^ 32 - 1
     else min ((unat p * 1000000000 + (unat v * unat e - 1)) div (unat v * unat e)) (2 ^ 32 - 1))"
proof -
  let ?n = "(ucast p :: u64) * BMS_POWER_DENOMINATOR" and ?d = "(ucast v :: u64) * ucast e"
  have D: "unat BMS_POWER_DENOMINATOR = 1000000000" by (simp add: BMS_POWER_DENOMINATOR_def)
  have nlt: "unat p * 1000000000 < 2 ^ 63"
    by (rule mult_less_bound [OF unat_u32_lt, of 1000000000 1000000001]) simp_all
  then have n: "unat ?n = unat p * 1000000000"
    using unat_mult_small [of "ucast p :: u64" BMS_POWER_DENOMINATOR] D by simp
  have "unat v * unat e < 2 ^ 64"
    by (rule mult_less_bound [OF unat_u32_lt unat_u16_lt]) simp
  then have d: "unat ?d = unat v * unat e"
    using unat_mult_small [of "ucast v :: u64" "ucast e"] by simp
  show ?thesis
  proof (cases "unat v * unat e = 0")
    case True
    then have "?d = 0" using d by (simp add: word_eq_unat)
    then show ?thesis using True by (simp add: bms_requested_current_ma_def Let_def UINT32_MAX_def)
  next
    case False
    let ?N = "unat p * 1000000000" and ?V = "unat v * unat e"
    have q: "unat (?n div ?d) = ?N div ?V" and m: "unat (?n mod ?d) = ?N mod ?V"
      using n d by (simp_all add: unat_div unat_mod)
    have "?N div ?V < 2 ^ 63" using nlt by (rule le_less_trans [OF div_le_dividend])
    then have q1: "unat (?n div ?d + 1) = Suc (?N div ?V)"
      using q by (subst unat_inc) simp_all
    have ceil: "(?N + (?V - 1)) div ?V = (if ?N mod ?V = 0 then ?N div ?V else Suc (?N div ?V))"
      using False by (rule ceil_div_nat)
    have "unat (if ?n mod ?d \<noteq> 0 then ?n div ?d + 1 else ?n div ?d) = (?N + (?V - 1)) div ?V"
      using q q1 m ceil by (simp add: word_eq_unat)
    moreover have "?d \<noteq> 0" using False d by (metis unat_0)
    ultimately show ?thesis
      using False by (simp only: bms_requested_current_ma_def Let_def if_False unat_saturate)
  qed
qed

lemma unat_bms_scale_torque:
  assumes "a \<le> p"
  shows "unat (bms_scale_torque t a p) = unat t * unat a div unat p"
proof (cases "p = 0")
  case True
  then show ?thesis by (simp add: bms_scale_torque_def)
next
  case False
  have "unat t * unat a div unat p \<le> unat t"
    using assms by (simp add: word_le_nat_alt div_le_mono mult_le_mono2 less_eq_div_iff_mult_less_eq)
      (metis div_le_mono mult_le_mono2 nonzero_mult_div_cancel_right bot_nat_0.extremum div_by_0)
  then have "unat t * unat a div unat p \<le> 2 ^ 32 - 1" using unat_u32_lt [of t] by simp
  then show ?thesis
    using False unat_u32_times_u32 [of t a]
    by (simp add: bms_scale_torque_def unat_saturate unat_div)
qed

subsection \<open>The specification of the gate\<close>

definition governor_usable :: "governor_request \<Rightarrow> bool" where
  "governor_usable rq \<longleftrightarrow> gr_bus_voltage_mv rq \<noteq> 0 \<and> gr_max_discharge_current_ma rq \<noteq> 0 \<and>
     gr_efficiency_permille rq \<noteq> 0 \<and> unat (gr_efficiency_permille rq) \<le> 1000"

text \<open>The power budget in watts: current (mA) times voltage (mV) times efficiency (per mille).\<close>

definition governor_budget :: "governor_request \<Rightarrow> nat" where
  "governor_budget rq = unat (gr_max_discharge_current_ma rq) * unat (gr_bus_voltage_mv rq) *
     unat (gr_efficiency_permille rq) div 1000000000"

definition governor_power :: "governor_request \<Rightarrow> nat" where
  "governor_power rq = min (unat (gr_requested_power_w rq)) (governor_budget rq)"

lemma evaluate_unusable:
  assumes "\<not> governor_usable rq"
  shows "fst (bms_evaluate rq) = GOVERNOR_ERR_INVALID_INPUT \<and>
    gs_fault_code (snd (bms_evaluate rq)) = BMS_FAULT_INVALID_INPUT \<and>
    gs_decision (snd (bms_evaluate rq)) = GOVERNOR_BLOCK"
  using assms
  by (auto simp: bms_evaluate_def governor_usable_def BMS_EFFICIENCY_SCALE_def word_less_nat_alt
      word_le_nat_alt bms_result_init_def Let_def not_le)

lemma evaluate_valid_state:
  assumes u: "governor_usable rq" and st: "gr_bms_state rq \<in> {BMS_STATE_NORMAL, BMS_STATE_THERMAL_DERATING}"
  shows "fst (bms_evaluate rq) = GOVERNOR_OK"
    and "unat (gs_allowed_power_w (snd (bms_evaluate rq))) = governor_power rq"
    and "unat (gs_allowed_torque_mnm (snd (bms_evaluate rq))) =
      unat (gr_requested_torque_mnm rq) * governor_power rq div unat (gr_requested_power_w rq)"
    and "gs_decision (snd (bms_evaluate rq)) =
      (if unat (gr_requested_power_w rq) \<le> governor_budget rq then GOVERNOR_ALLOW else GOVERNOR_DERATE)"
    and "gs_intervention (snd (bms_evaluate rq)) = (governor_budget rq < unat (gr_requested_power_w rq))"
    and "gs_fault_code (snd (bms_evaluate rq)) =
      (if unat (gr_requested_power_w rq) \<le> governor_budget rq then 0 else BMS_FAULT_GOVERNOR_INTERVENTION)"
proof -
  let ?P = "gr_requested_power_w rq"
  let ?m = "bms_maximum_power_w (gr_max_discharge_current_ma rq) (gr_bus_voltage_mv rq)
    (gr_efficiency_permille rq)"
  let ?a = "if ?P < ?m then ?P else ?m"
  have in_ok: "\<not> (gr_bus_voltage_mv rq = 0 \<or> gr_max_discharge_current_ma rq = 0 \<or>
      gr_efficiency_permille rq = 0 \<or> gr_efficiency_permille rq > BMS_EFFICIENCY_SCALE)"
    using u by (auto simp: governor_usable_def BMS_EFFICIENCY_SCALE_def word_less_nat_alt)
  have m: "unat ?m = min (governor_budget rq) (2 ^ 32 - 1)"
    by (simp add: unat_bms_maximum_power governor_budget_def)
  have P: "unat ?P \<le> 2 ^ 32 - 1" using unat_u32_lt [of ?P] by simp
  have a: "unat ?a = governor_power rq" and le: "?a \<le> ?P"
    using m P by (auto simp: governor_power_def word_less_nat_alt word_le_nat_alt)
  have t: "unat (bms_scale_torque (gr_requested_torque_mnm rq) ?a ?P) =
      unat (gr_requested_torque_mnm rq) * governor_power rq div unat ?P"
    using unat_bms_scale_torque [OF le] a by simp
  have dec: "?P > ?m \<longleftrightarrow> \<not> unat ?P \<le> governor_budget rq"
    using m P by (auto simp: word_less_nat_alt)
  have st': "gr_bms_state rq = BMS_STATE_NORMAL \<or> gr_bms_state rq = BMS_STATE_THERMAL_DERATING"
    using st by simp
  note ev = bms_evaluate_def Let_def if_not_P [OF in_ok]
  show "fst (bms_evaluate rq) = GOVERNOR_OK"
    using st' unfolding ev by auto
  show "unat (gs_allowed_power_w (snd (bms_evaluate rq))) = governor_power rq"
    using st' unfolding ev a [symmetric] by auto
  show "unat (gs_allowed_torque_mnm (snd (bms_evaluate rq))) =
      unat (gr_requested_torque_mnm rq) * governor_power rq div unat (gr_requested_power_w rq)"
    using st' unfolding ev t [symmetric] by auto
  show "gs_decision (snd (bms_evaluate rq)) =
      (if unat (gr_requested_power_w rq) \<le> governor_budget rq then GOVERNOR_ALLOW else GOVERNOR_DERATE)"
    "gs_intervention (snd (bms_evaluate rq)) = (governor_budget rq < unat (gr_requested_power_w rq))"
    "gs_fault_code (snd (bms_evaluate rq)) =
      (if unat (gr_requested_power_w rq) \<le> governor_budget rq then 0 else BMS_FAULT_GOVERNOR_INTERVENTION)"
    using st' unfolding ev dec by auto
qed

lemma evaluate_bad_state:
  assumes "governor_usable rq" and "gr_bms_state rq \<notin> {BMS_STATE_NORMAL, BMS_STATE_THERMAL_DERATING}"
  shows "fst (bms_evaluate rq) \<noteq> GOVERNOR_OK \<and>
    gs_fault_code (snd (bms_evaluate rq)) =
      (if gr_bms_state rq = BMS_STATE_FAULT then BMS_FAULT_BMS_UNAVAILABLE else BMS_FAULT_INVALID_INPUT)"
proof -
  have in_ok: "\<not> (gr_bus_voltage_mv rq = 0 \<or> gr_max_discharge_current_ma rq = 0 \<or>
      gr_efficiency_permille rq = 0 \<or> gr_efficiency_permille rq > BMS_EFFICIENCY_SCALE)"
    using assms(1) by (auto simp: governor_usable_def BMS_EFFICIENCY_SCALE_def word_less_nat_alt)
  show ?thesis
    using assms(2) unfolding bms_evaluate_def Let_def if_not_P [OF in_ok]
    by (cases "gr_bms_state rq") auto
qed

lemma gate_from_evaluate:
  assumes "bms_evaluate rq = (st, r)"
  shows "bms_governor_gate_response (Some rq) True =
    (if st \<noteq> GOVERNOR_OK \<or> \<not> bms_governor_may_transmit (Some r) then (False, Some (0, 0, gs_fault_code r))
     else (True, Some (gs_allowed_power_w r, gs_allowed_torque_mnm r, gs_fault_code r)))"
  by (simp add: bms_governor_gate_response_def bms_governor_evaluate_def assms Let_def)

subsection \<open>Properties\<close>

text \<open>The response gate, completely. With a usable snapshot (non-zero voltage, current and
  efficiency, efficiency at most 1000) and a BMS that is normal or thermally derated, the gate
  opens: the power is the smaller of the request and the exact floor of current x voltage x
  efficiency / 10^9, the torque is scaled by the same ratio, and the fault code says whether
  the request was reduced. In every other case it stays closed with zero outputs and a non-zero
  fault code. No intermediate 64-bit product wraps.\<close>

lemma governor_gate_functional:
  "bms_governor_gate_response (Some rq) True =
    (if governor_usable rq \<and> gr_bms_state rq \<in> {BMS_STATE_NORMAL, BMS_STATE_THERMAL_DERATING}
     then (True, Some (of_nat (governor_power rq),
       of_nat (unat (gr_requested_torque_mnm rq) * governor_power rq div unat (gr_requested_power_w rq)),
       if unat (gr_requested_power_w rq) \<le> governor_budget rq then 0 else BMS_FAULT_GOVERNOR_INTERVENTION))
     else (False, Some (0, 0,
       if governor_usable rq \<and> gr_bms_state rq = BMS_STATE_FAULT
       then BMS_FAULT_BMS_UNAVAILABLE else BMS_FAULT_INVALID_INPUT)))"
proof -
  obtain st r where ev: "bms_evaluate rq = (st, r)" by (cases "bms_evaluate rq")
  note gate = gate_from_evaluate [OF ev]
  show ?thesis
  proof (cases "governor_usable rq")
    case False
    then show ?thesis using evaluate_unusable [OF False] ev gate by simp
  next
    case u: True
    show ?thesis
    proof (cases "gr_bms_state rq \<in> {BMS_STATE_NORMAL, BMS_STATE_THERMAL_DERATING}")
      case False
      then show ?thesis using evaluate_bad_state [OF u False] ev gate u by simp
    next
      case True
      note e = evaluate_valid_state [OF u True, unfolded ev fst_conv snd_conv]
      have p: "gs_allowed_power_w r = of_nat (governor_power rq)"
        using e(2) [symmetric] by simp
      have t: "gs_allowed_torque_mnm r = of_nat (unat (gr_requested_torque_mnm rq) *
          governor_power rq div unat (gr_requested_power_w rq))"
        using e(3) [symmetric] by (simp del: of_nat_mult)
      show ?thesis using gate u True e(1,4,5,6) p t by (simp del: of_nat_mult)
    qed
  qed
qed

text \<open>C7: The safety content of the gate: whatever it lets through never asks the battery for more
  than its discharge limit. When the gate opens, the power is at most the request, drawing it
  at the reported voltage and efficiency needs no more than the reported maximum discharge
  current, and the torque is at most the request and in at most the same proportion. The fault code
  says exactly whether the power was reduced: it is the intervention code then and zero otherwise. A
  reduced torque is reported too, but for one case: a request of torque without power is cut to zero
  torque and reported as unreduced.\<close>

lemma governor_never_exceeds_limit:
  assumes "bms_governor_gate_response (Some rq) True = (True, Some (p, t, fc))"
  shows "unat p \<le> unat (gr_requested_power_w rq) \<and>
    unat p * 1000000000 \<le> unat (gr_max_discharge_current_ma rq) * unat (gr_bus_voltage_mv rq) *
      unat (gr_efficiency_permille rq) \<and>
    unat (bms_requested_current_ma p (gr_bus_voltage_mv rq) (gr_efficiency_permille rq))
      \<le> unat (gr_max_discharge_current_ma rq) \<and>
    unat t \<le> unat (gr_requested_torque_mnm rq) \<and>
    unat t * unat (gr_requested_power_w rq) \<le> unat (gr_requested_torque_mnm rq) * unat p \<and>
    fc = (if unat p < unat (gr_requested_power_w rq) then BMS_FAULT_GOVERNOR_INTERVENTION else 0) \<and>
    (unat t < unat (gr_requested_torque_mnm rq) \<longrightarrow>
       (if gr_requested_power_w rq = 0 then t = 0 \<and> fc = 0 else fc = BMS_FAULT_GOVERNOR_INTERVENTION))"
proof -
  obtain st r where ev: "bms_evaluate rq = (st, r)" by (cases "bms_evaluate rq")
  have ok: "st = GOVERNOR_OK" "p = gs_allowed_power_w r" "t = gs_allowed_torque_mnm r" "fc = gs_fault_code r"
    using assms unfolding gate_from_evaluate [OF ev] by (auto split: if_splits simp del: bms_governor_may_transmit.simps)
  have u: "governor_usable rq" using evaluate_unusable [of rq] ok(1) ev by auto
  have s: "gr_bms_state rq \<in> {BMS_STATE_NORMAL, BMS_STATE_THERMAL_DERATING}"
    using evaluate_bad_state [OF u] ok(1) ev by auto
  note e = evaluate_valid_state [OF u s, unfolded ev fst_conv snd_conv]
  let ?I = "unat (gr_max_discharge_current_ma rq)" and ?V = "unat (gr_bus_voltage_mv rq)"
  let ?e = "unat (gr_efficiency_permille rq)" and ?P = "unat (gr_requested_power_w rq)"
  let ?T = "unat (gr_requested_torque_mnm rq)"
  have p: "unat p = min ?P (governor_budget rq)" using e(2) ok(2) by (simp add: governor_power_def)
  have t: "unat t = ?T * unat p div ?P" using e(2,3) ok(2,3) by simp
  have budget: "unat p * 1000000000 \<le> ?I * ?V * ?e"
  proof -
    have "unat p * 1000000000 \<le> governor_budget rq * 1000000000" using p by simp
    also have "\<dots> \<le> ?I * ?V * ?e" by (simp add: governor_budget_def)
    finally show ?thesis .
  qed
  have pos: "0 < ?V * ?e" using u by (simp add: governor_usable_def unat_gt_0)
  have "(unat p * 1000000000 + (?V * ?e - 1)) div (?V * ?e) \<le> (?I * (?V * ?e) + (?V * ?e - 1)) div (?V * ?e)"
    using budget by (intro div_le_mono) (simp add: mult.assoc)
  also have "\<dots> = ?I" using ceil_div_nat [of "?V * ?e" "?I * (?V * ?e)"] pos by simp
  finally have "(unat p * 1000000000 + (?V * ?e - 1)) div (?V * ?e) \<le> ?I" .
  then have cur: "unat (bms_requested_current_ma p (gr_bus_voltage_mv rq) (gr_efficiency_permille rq)) \<le> ?I"
    using pos by (simp add: unat_bms_requested_current)
  have tP: "unat t * ?P \<le> ?T * unat p" using t by simp
  have "?T * unat p div ?P \<le> ?T * ?P div ?P" using p by (intro div_le_mono) simp
  also have "\<dots> \<le> ?T" by (cases "?P = 0") simp_all
  finally have "?T * unat p div ?P \<le> ?T" .
  then have tT: "unat t \<le> ?T" using t by simp
  have fc: "fc = (if unat p < ?P then BMS_FAULT_GOVERNOR_INTERVENTION else 0)" using e(6) ok(4) p by auto
  have torque: "if gr_requested_power_w rq = 0 then t = 0 \<and> fc = 0 else fc = BMS_FAULT_GOVERNOR_INTERVENTION"
    if "unat t < ?T"
  proof (cases "gr_requested_power_w rq = 0")
    case True
    then show ?thesis using t fc by (simp add: unat_eq_zero)
  next
    case False
    have "unat p \<noteq> ?P"
    proof
      assume "unat p = ?P"
      then have "unat t = ?T" using t False by (simp add: unat_gt_0)
      with that show False by simp
    qed
    then show ?thesis using False fc p by auto
  qed
  then show ?thesis using p budget cur tP tT fc by auto
qed

text \<open>400 V, 250 A, 95 %: a budget of 95 kW against a request of 100 kW and 200 Nm.\<close>

definition demo_request :: governor_request where
  "demo_request = \<lparr>gr_requested_power_w = 100000, gr_requested_torque_mnm = 200000,
     gr_bus_voltage_mv = 400000, gr_max_discharge_current_ma = 250000,
     gr_efficiency_permille = 950, gr_bms_state = BMS_STATE_THERMAL_DERATING\<rparr>"

lemma governor_never_exceeds_limit_witness:
  "\<exists>p t fc. bms_governor_gate_response (Some demo_request) True = (True, Some (p, t, fc)) \<and>
     unat p < unat (gr_requested_power_w demo_request) \<and> unat t < unat (gr_requested_torque_mnm demo_request) \<and>
     unat (bms_requested_current_ma p (gr_bus_voltage_mv demo_request) (gr_efficiency_permille demo_request))
       \<le> unat (gr_max_discharge_current_ma demo_request) \<and> fc = BMS_FAULT_GOVERNOR_INTERVENTION"
proof -
  have gate: "bms_governor_gate_response (Some demo_request) True =
      (True, Some (95000, 190000, BMS_FAULT_GOVERNOR_INTERVENTION))"
    by code_simp
  show ?thesis
    using gate governor_never_exceeds_limit [OF gate] by (simp add: demo_request_def)
qed

text \<open>C8: The decision is the current comparison the requirement asks for. For a usable snapshot in
  a normal or derated state, the request is allowed unreduced exactly when the current it needs,
  rounded up, is at most the maximum discharge current (a limit below 2^32 - 1 mA, where the needed
  current is not saturated).\<close>

lemma governor_allows_iff_current_fits:
  assumes "governor_usable rq" and "gr_bms_state rq \<in> {BMS_STATE_NORMAL, BMS_STATE_THERMAL_DERATING}"
    and "unat (gr_max_discharge_current_ma rq) < 2 ^ 32 - 1"
  shows "gs_decision (snd (bms_evaluate rq)) = GOVERNOR_ALLOW \<longleftrightarrow>
    gs_requested_current_ma (snd (bms_evaluate rq)) \<le> gr_max_discharge_current_ma rq"
proof -
  let ?I = "unat (gr_max_discharge_current_ma rq)" and ?P = "unat (gr_requested_power_w rq)"
  let ?D = "unat (gr_bus_voltage_mv rq) * unat (gr_efficiency_permille rq)"
  have D: "0 < ?D" using assms(1) by (simp add: governor_usable_def unat_gt_0)
  have "gs_requested_current_ma (snd (bms_evaluate rq)) = bms_requested_current_ma
      (gr_requested_power_w rq) (gr_bus_voltage_mv rq) (gr_efficiency_permille rq)"
    by (simp add: bms_evaluate_def Let_def split: bms_state.split)
  then have c: "unat (gs_requested_current_ma (snd (bms_evaluate rq))) =
      min ((?P * 1000000000 + (?D - 1)) div ?D) (2 ^ 32 - 1)"
    using D by (simp add: unat_bms_requested_current)
  have "?P \<le> governor_budget rq \<longleftrightarrow> ?P * 1000000000 \<le> ?I * ?D"
    by (simp add: governor_budget_def less_eq_div_iff_mult_less_eq mult.assoc)
  also have "\<dots> \<longleftrightarrow> (?P * 1000000000 + (?D - 1)) div ?D \<le> ?I"
  proof
    assume "?P * 1000000000 \<le> ?I * ?D"
    then have "(?P * 1000000000 + (?D - 1)) div ?D \<le> (?I * ?D + (?D - 1)) div ?D"
      by (intro div_le_mono) simp
    also have "\<dots> = ?I" using ceil_div_nat [of ?D "?I * ?D"] D by simp
    finally show "(?P * 1000000000 + (?D - 1)) div ?D \<le> ?I" .
  next
    assume a: "(?P * 1000000000 + (?D - 1)) div ?D \<le> ?I"
    have "?P * 1000000000 \<le> (?P * 1000000000 + (?D - 1)) div ?D * ?D"
      using ceil_div_nat [of ?D "?P * 1000000000"] D mod_div_mult_eq [of "?P * 1000000000" ?D]
        mod_less_divisor [OF D, of "?P * 1000000000"]
      by (cases "?P * 1000000000 mod ?D = 0") (simp_all only: if_True if_False mult_Suc, simp_all)
    also have "\<dots> \<le> ?I * ?D" using a by (rule mult_le_mono1)
    finally show "?P * 1000000000 \<le> ?I * ?D" .
  qed
  also have "\<dots> \<longleftrightarrow> gs_requested_current_ma (snd (bms_evaluate rq)) \<le> gr_max_discharge_current_ma rq"
    using assms(3) by (auto simp: word_le_nat_alt c)
  finally show ?thesis using evaluate_valid_state(4) [OF assms(1,2)] by simp
qed

lemma governor_allows_iff_current_fits_witness:
  "gs_decision (snd (bms_evaluate demo_request)) \<noteq> GOVERNOR_ALLOW"
proof -
  have "\<not> gs_requested_current_ma (snd (bms_evaluate demo_request)) \<le> gr_max_discharge_current_ma demo_request"
    by code_simp
  moreover have "governor_usable demo_request"
    "gr_bms_state demo_request \<in> {BMS_STATE_NORMAL, BMS_STATE_THERMAL_DERATING}"
    "unat (gr_max_discharge_current_ma demo_request) < 2 ^ 32 - 1"
    by (simp_all add: governor_usable_def demo_request_def)
  ultimately show ?thesis using governor_allows_iff_current_fits [of demo_request] by blast
qed

text \<open>A reduction the gate does not report. A torque demand sent with zero power demand is cut to
  zero torque, yet the gate opens with decision ALLOW, no intervention and fault code zero.\<close>

lemma governor_torque_only_silently_zeroed:
  assumes "governor_usable rq" and "gr_bms_state rq = BMS_STATE_NORMAL"
    and "gr_requested_power_w rq = 0"
  shows "bms_governor_gate_response (Some rq) True = (True, Some (0, 0, 0)) \<and>
    gs_decision (snd (bms_evaluate rq)) = GOVERNOR_ALLOW \<and>
    \<not> gs_intervention (snd (bms_evaluate rq))"
proof -
  obtain st r where ev: "bms_evaluate rq = (st, r)" by (cases "bms_evaluate rq")
  have s: "gr_bms_state rq \<in> {BMS_STATE_NORMAL, BMS_STATE_THERMAL_DERATING}" using assms(2) by simp
  note e = evaluate_valid_state [OF assms(1) s, unfolded ev fst_conv snd_conv]
  have "gs_allowed_power_w r = 0" "gs_allowed_torque_mnm r = 0"
    using e(2,3) assms(3) by (simp_all add: governor_power_def unat_eq_zero)
  then show ?thesis
    using e(1,4,5,6) assms(3) ev gate_from_evaluate [OF ev] by simp
qed

lemma governor_torque_only_silently_zeroed_witness:
  "bms_governor_gate_response (Some (demo_request\<lparr>gr_requested_power_w := 0,
      gr_bms_state := BMS_STATE_NORMAL\<rparr>)) True = (True, Some (0, 0, 0)) \<and>
   gr_requested_torque_mnm demo_request = 200000"
  using governor_torque_only_silently_zeroed [of "demo_request\<lparr>gr_requested_power_w := 0,
      gr_bms_state := BMS_STATE_NORMAL\<rparr>"]
  by (simp add: governor_usable_def demo_request_def)

end
