(* ===== verification/Hal_Types.thy ===== *)
theory Hal_Types
  imports Ring Event_Types Clock
begin

text \<open>
  core/hal/src/types.c and types.h: CAN frames, the bounded RX and TX rings with their
  counters, frame validation and the name tables. Both rings interpret the bounded FIFO
  interface. A popped slot is zeroed, as the code's memset does.
\<close>

definition HAL_CLASSIC_FRAME_MAX_LENGTH :: u8 where "HAL_CLASSIC_FRAME_MAX_LENGTH = 8"
definition HAL_FRAME_MAX_LENGTH :: u8 where "HAL_FRAME_MAX_LENGTH = 64"
definition HAL_INTERFACE_NAME_MAX :: nat where "HAL_INTERFACE_NAME_MAX = 16"
definition HAL_MAX_INTERFACES :: nat where "HAL_MAX_INTERFACES = 4"

datatype hal_fault_code =
    HAL_FAULT_NONE
  | HAL_FAULT_RX_RING_OVERFLOW
  | HAL_FAULT_TX_RING_OVERFLOW
  | HAL_FAULT_BUS_BACKPRESSURE
  | HAL_FAULT_INTERFACE_DOWN
  | HAL_FAULT_BUS_ERROR_PASSIVE
  | HAL_FAULT_BUS_OFF
  | HAL_FAULT_TIMESTAMP_NON_MONOTONIC
  | HAL_FAULT_MALFORMED_FRAME
  | HAL_FAULT_INIT_FAILED
  | HAL_FAULT_PROTOCOL_UNSUPPORTED
  | HAL_FAULT_COUNT

fun hal_fault_value :: "hal_fault_code \<Rightarrow> nat" where
  "hal_fault_value HAL_FAULT_NONE = 0"
| "hal_fault_value HAL_FAULT_RX_RING_OVERFLOW = 1"
| "hal_fault_value HAL_FAULT_TX_RING_OVERFLOW = 2"
| "hal_fault_value HAL_FAULT_BUS_BACKPRESSURE = 3"
| "hal_fault_value HAL_FAULT_INTERFACE_DOWN = 4"
| "hal_fault_value HAL_FAULT_BUS_ERROR_PASSIVE = 5"
| "hal_fault_value HAL_FAULT_BUS_OFF = 6"
| "hal_fault_value HAL_FAULT_TIMESTAMP_NON_MONOTONIC = 7"
| "hal_fault_value HAL_FAULT_MALFORMED_FRAME = 8"
| "hal_fault_value HAL_FAULT_INIT_FAILED = 9"
| "hal_fault_value HAL_FAULT_PROTOCOL_UNSUPPORTED = 10"
| "hal_fault_value HAL_FAULT_COUNT = 11"

lemma hal_fault_value_inj: "hal_fault_value a = hal_fault_value b \<longleftrightarrow> a = b"
  by (cases a; cases b) simp_all

lemma hal_fault_value_less: "hal_fault_value a < 12"
  by (cases a) simp_all

datatype hal_if_state =
    IF_STATE_DOWN | IF_STATE_UP | IF_STATE_ERROR_PASSIVE | IF_STATE_BUS_OFF | IF_STATE_COUNT

record hal_frame =
  fr_interface_id :: interface_id
  fr_can_id :: u32
  fr_is_extended :: u8
  fr_is_fd :: u8
  fr_length :: u8
  fr_data :: "u8 list"
  fr_timestamp_us :: time_us

definition zero_frame :: hal_frame where
  "zero_frame = \<lparr>fr_interface_id = 0, fr_can_id = 0, fr_is_extended = 0, fr_is_fd = 0,
     fr_length = 0, fr_data = replicate 64 0, fr_timestamp_us = 0\<rparr>"

record rx_ring =
  rr_slots :: "hal_frame list"
  rr_capacity :: u16
  rr_read_idx :: u16
  rr_write_idx :: u16
  rr_count :: u16
  rr_dropped :: u32
  rr_rx_total :: u32

record tx_ring =
  tr_slots :: "hal_frame list"
  tr_capacity :: u16
  tr_read_idx :: u16
  tr_write_idx :: u16
  tr_count :: u16
  tr_dropped :: u32
  tr_sent :: u32
  tr_tx_total :: u32

datatype hal_status =
    HAL_OK
  | HAL_OK_FRAMES_AVAILABLE
  | HAL_OK_IDLE
  | HAL_ERR_NULL
  | HAL_ERR_ARGUMENT
  | HAL_ERR_NO_INTERFACE
  | HAL_ERR_RING_FULL
  | HAL_ERR_IO
  | HAL_ERR_INIT
  | HAL_ERR_UNSUPPORTED

fun hal_status_value :: "hal_status \<Rightarrow> int" where
  "hal_status_value HAL_OK = 0"
| "hal_status_value HAL_OK_FRAMES_AVAILABLE = 1"
| "hal_status_value HAL_OK_IDLE = 2"
| "hal_status_value HAL_ERR_NULL = - 1"
| "hal_status_value HAL_ERR_ARGUMENT = - 2"
| "hal_status_value HAL_ERR_NO_INTERFACE = - 3"
| "hal_status_value HAL_ERR_RING_FULL = - 4"
| "hal_status_value HAL_ERR_IO = - 5"
| "hal_status_value HAL_ERR_INIT = - 6"
| "hal_status_value HAL_ERR_UNSUPPORTED = - 7"

definition hal_status_is_ok :: "hal_status \<Rightarrow> bool" where
  "hal_status_is_ok status \<longleftrightarrow> hal_status_value status \<ge> hal_status_value HAL_OK"

record hal_if_config =
  ic_interface_id :: interface_id
  ic_name :: string
  ic_bitrate :: u32
  ic_listen_only :: u8
  ic_can_fd :: u8
  ic_data_bitrate :: u32

record hal_transport_caps =
  tc_interface_id :: interface_id
  tc_can_fd :: bool
  tc_max_length :: u8

record hal_if_status =
  is_interface_id :: interface_id
  is_name :: string
  is_state :: hal_if_state
  is_rx_count :: u32
  is_tx_count :: u32
  is_rx_dropped :: u32
  is_tx_dropped :: u32
  is_fault_count :: u32
  is_last_fault :: hal_fault_code
  is_rx_protocol_rejected :: u32
  is_can_fd :: bool
  is_last_rx_timestamp_us :: time_us

subsection \<open>The RX ring\<close>

fun rx_ring_init :: "rx_ring option \<Rightarrow> hal_frame list \<Rightarrow> u16 \<Rightarrow> bool \<times> rx_ring option" where
  "rx_ring_init None storage capacity = (False, None)"
| "rx_ring_init (Some r) storage capacity =
     (if storage = [] \<or> capacity = 0 then (False, Some r)
      else (True, Some \<lparr>rr_slots = storage, rr_capacity = capacity, rr_read_idx = 0,
              rr_write_idx = 0, rr_count = 0, rr_dropped = 0, rr_rx_total = 0\<rparr>))"

fun rx_ring_count :: "rx_ring option \<Rightarrow> u16" where
  "rx_ring_count None = 0"
| "rx_ring_count (Some r) = rr_count r"

definition ring_step :: "u16 \<Rightarrow> u16 \<Rightarrow> u16" where
  "ring_step capacity i = of_nat ((unat i + 1) mod unat capacity)"

definition rx_push :: "rx_ring \<Rightarrow> hal_frame \<Rightarrow> hal_status \<times> rx_ring" where
  "rx_push r frame =
     (if rr_slots r = [] \<or> rr_capacity r = 0 then (HAL_ERR_ARGUMENT, r)
      else if rr_count r \<ge> rr_capacity r
      then (HAL_ERR_RING_FULL, r\<lparr>rr_dropped := rr_dropped r + 1\<rparr>)
      else (HAL_OK, r\<lparr>rr_slots := (rr_slots r)[unat (rr_write_idx r) := frame],
              rr_write_idx := ring_step (rr_capacity r) (rr_write_idx r),
              rr_count := rr_count r + 1, rr_rx_total := rr_rx_total r + 1\<rparr>))"

fun rx_ring_push :: "rx_ring option \<Rightarrow> hal_frame option \<Rightarrow> hal_status \<times> rx_ring option" where
  "rx_ring_push None frame = (HAL_ERR_NULL, None)"
| "rx_ring_push (Some r) None = (HAL_ERR_NULL, Some r)"
| "rx_ring_push (Some r) (Some frame) = (case rx_push r frame of (st, r') \<Rightarrow> (st, Some r'))"

text \<open>The frame is what \<open>*out_frame\<close> receives; nothing on an empty ring.\<close>

definition rx_pop :: "rx_ring \<Rightarrow> hal_status \<times> rx_ring \<times> hal_frame option" where
  "rx_pop r =
     (if rr_count r = 0 \<or> rr_slots r = [] then (HAL_OK_IDLE, r, None)
      else (HAL_OK, r\<lparr>rr_slots := (rr_slots r)[unat (rr_read_idx r) := zero_frame],
              rr_read_idx := ring_step (rr_capacity r) (rr_read_idx r),
              rr_count := rr_count r - 1\<rparr>, Some (rr_slots r ! unat (rr_read_idx r))))"

fun rx_ring_pop :: "rx_ring option \<Rightarrow> bool \<Rightarrow> hal_status \<times> rx_ring option \<times> hal_frame option" where
  "rx_ring_pop None has_out = (HAL_ERR_NULL, None, None)"
| "rx_ring_pop (Some r) has_out =
     (if \<not> has_out then (HAL_ERR_NULL, Some r, None)
      else case rx_pop r of (st, r', f) \<Rightarrow> (st, Some r', f))"

subsection \<open>The TX ring\<close>

fun tx_ring_init :: "tx_ring option \<Rightarrow> hal_frame list \<Rightarrow> u16 \<Rightarrow> bool \<times> tx_ring option" where
  "tx_ring_init None storage capacity = (False, None)"
| "tx_ring_init (Some r) storage capacity =
     (if storage = [] \<or> capacity = 0 then (False, Some r)
      else (True, Some \<lparr>tr_slots = storage, tr_capacity = capacity, tr_read_idx = 0,
              tr_write_idx = 0, tr_count = 0, tr_dropped = 0, tr_sent = 0, tr_tx_total = 0\<rparr>))"

fun tx_ring_count :: "tx_ring option \<Rightarrow> u16" where
  "tx_ring_count None = 0"
| "tx_ring_count (Some r) = tr_count r"

definition tx_push :: "tx_ring \<Rightarrow> hal_frame \<Rightarrow> hal_status \<times> tx_ring" where
  "tx_push r0 frame =
     (if tr_slots r0 = [] \<or> tr_capacity r0 = 0 then (HAL_ERR_ARGUMENT, r0)
      else
        let r = r0\<lparr>tr_tx_total := tr_tx_total r0 + 1\<rparr>
        in if tr_count r \<ge> tr_capacity r
           then (HAL_ERR_RING_FULL, r\<lparr>tr_dropped := tr_dropped r + 1\<rparr>)
           else (HAL_OK, r\<lparr>tr_slots := (tr_slots r)[unat (tr_write_idx r) := frame],
                   tr_write_idx := ring_step (tr_capacity r) (tr_write_idx r),
                   tr_count := tr_count r + 1\<rparr>))"

fun tx_ring_push :: "tx_ring option \<Rightarrow> hal_frame option \<Rightarrow> hal_status \<times> tx_ring option" where
  "tx_ring_push None frame = (HAL_ERR_NULL, None)"
| "tx_ring_push (Some r) None = (HAL_ERR_NULL, Some r)"
| "tx_ring_push (Some r) (Some frame) = (case tx_push r frame of (st, r') \<Rightarrow> (st, Some r'))"

definition tx_pop :: "tx_ring \<Rightarrow> hal_status \<times> tx_ring \<times> hal_frame option" where
  "tx_pop r =
     (if tr_count r = 0 \<or> tr_slots r = [] then (HAL_OK_IDLE, r, None)
      else (HAL_OK, r\<lparr>tr_slots := (tr_slots r)[unat (tr_read_idx r) := zero_frame],
              tr_read_idx := ring_step (tr_capacity r) (tr_read_idx r),
              tr_count := tr_count r - 1\<rparr>, Some (tr_slots r ! unat (tr_read_idx r))))"

fun tx_ring_pop :: "tx_ring option \<Rightarrow> bool \<Rightarrow> hal_status \<times> tx_ring option \<times> hal_frame option" where
  "tx_ring_pop None has_out = (HAL_ERR_NULL, None, None)"
| "tx_ring_pop (Some r) has_out =
     (if \<not> has_out then (HAL_ERR_NULL, Some r, None)
      else case tx_pop r of (st, r', f) \<Rightarrow> (st, Some r', f))"

subsection \<open>Frame validation\<close>

fun hal_frame_is_valid :: "hal_frame option \<Rightarrow> bool" where
  "hal_frame_is_valid None = False"
| "hal_frame_is_valid (Some f) =
     (if fr_length f > HAL_FRAME_MAX_LENGTH then False
      else can_payload_length_is_valid (fr_is_fd f \<noteq> 0) (unat (fr_length f)))"

subsection \<open>Name tables\<close>

fun hal_if_state_name :: "hal_if_state \<Rightarrow> string" where
  "hal_if_state_name IF_STATE_DOWN = ''DOWN''"
| "hal_if_state_name IF_STATE_UP = ''UP''"
| "hal_if_state_name IF_STATE_ERROR_PASSIVE = ''ERROR_PASSIVE''"
| "hal_if_state_name IF_STATE_BUS_OFF = ''BUS_OFF''"
| "hal_if_state_name IF_STATE_COUNT = ''INVALID''"

fun hal_fault_code_name :: "hal_fault_code \<Rightarrow> string" where
  "hal_fault_code_name HAL_FAULT_NONE = ''NONE''"
| "hal_fault_code_name HAL_FAULT_RX_RING_OVERFLOW = ''RX_RING_OVERFLOW''"
| "hal_fault_code_name HAL_FAULT_TX_RING_OVERFLOW = ''TX_RING_OVERFLOW''"
| "hal_fault_code_name HAL_FAULT_BUS_BACKPRESSURE = ''BUS_BACKPRESSURE''"
| "hal_fault_code_name HAL_FAULT_INTERFACE_DOWN = ''INTERFACE_DOWN''"
| "hal_fault_code_name HAL_FAULT_BUS_ERROR_PASSIVE = ''BUS_ERROR_PASSIVE''"
| "hal_fault_code_name HAL_FAULT_BUS_OFF = ''BUS_OFF''"
| "hal_fault_code_name HAL_FAULT_TIMESTAMP_NON_MONOTONIC = ''TIMESTAMP_NON_MONOTONIC''"
| "hal_fault_code_name HAL_FAULT_MALFORMED_FRAME = ''MALFORMED_FRAME''"
| "hal_fault_code_name HAL_FAULT_INIT_FAILED = ''INIT_FAILED''"
| "hal_fault_code_name HAL_FAULT_PROTOCOL_UNSUPPORTED = ''PROTOCOL_UNSUPPORTED''"
| "hal_fault_code_name HAL_FAULT_COUNT = ''INVALID''"

fun hal_status_name :: "hal_status \<Rightarrow> string" where
  "hal_status_name HAL_OK = ''OK''"
| "hal_status_name HAL_OK_FRAMES_AVAILABLE = ''FRAMES_AVAILABLE''"
| "hal_status_name HAL_OK_IDLE = ''IDLE''"
| "hal_status_name HAL_ERR_NULL = ''ERR_NULL''"
| "hal_status_name HAL_ERR_ARGUMENT = ''ERR_ARGUMENT''"
| "hal_status_name HAL_ERR_NO_INTERFACE = ''ERR_NO_INTERFACE''"
| "hal_status_name HAL_ERR_RING_FULL = ''ERR_RING_FULL''"
| "hal_status_name HAL_ERR_IO = ''ERR_IO''"
| "hal_status_name HAL_ERR_INIT = ''ERR_INIT''"
| "hal_status_name HAL_ERR_UNSUPPORTED = ''ERR_UNSUPPORTED''"

subsection \<open>The rings as bounded FIFOs\<close>

text \<open>What both rings keep: indices in range, the write index is read index plus count.\<close>

definition counted_ring :: "'a list \<Rightarrow> u16 \<Rightarrow> u16 \<Rightarrow> u16 \<Rightarrow> u16 \<Rightarrow> bool" where
  "counted_ring slots cap rd wr n \<longleftrightarrow> 0 < unat cap \<and> unat cap \<le> length slots \<and>
     unat rd < unat cap \<and> unat wr = (unat rd + unat n) mod unat cap \<and> unat n \<le> unat cap"

lemma unat_ring_step: "unat i < unat c \<Longrightarrow> unat (ring_step c i) = (unat i + 1) mod unat c"
  unfolding ring_step_def by (rule unat_mod_u16)

lemma counted_push:
  assumes "counted_ring slots cap rd wr n" and "n < cap"
  shows "counted_ring (slots[unat wr := x]) cap rd (ring_step cap wr) (n + 1)"
    and "ring_list (slots[unat wr := x]) (unat cap) (unat rd) (unat (n + 1)) =
      ring_list slots (unat cap) (unat rd) (unat n) @ [x]"
proof -
  note r = assms(1) [unfolded counted_ring_def]
  have lt: "unat n < unat cap" using assms(2) by (simp add: word_less_nat_alt)
  then have n1: "unat (n + 1) = Suc (unat n)"
    using unat_u16_lt [of cap] by (intro unat_inc) simp
  have "unat wr < unat cap" using r by simp
  then have "unat (ring_step cap wr) = (unat rd + Suc (unat n)) mod unat cap"
    using r by (simp add: unat_ring_step mod_Suc_eq)
  then show "counted_ring (slots[unat wr := x]) cap rd (ring_step cap wr) (n + 1)"
    using r lt n1 by (simp add: counted_ring_def)
  show "ring_list (slots[unat wr := x]) (unat cap) (unat rd) (unat (n + 1)) =
      ring_list slots (unat cap) (unat rd) (unat n) @ [x]"
    unfolding n1 using r lt ring_list_push by metis
qed

lemma counted_pop:
  assumes "counted_ring slots cap rd wr n" and "n \<noteq> 0"
  shows "counted_ring (slots[unat rd := z]) cap (ring_step cap rd) wr (n - 1)"
    and "ring_list slots (unat cap) (unat rd) (unat n) = slots ! unat rd #
      ring_list (slots[unat rd := z]) (unat cap) (unat (ring_step cap rd)) (unat (n - 1))"
proof -
  note r = assms(1) [unfolded counted_ring_def]
  have pos: "0 < unat n" using assms(2) by (simp add: unat_gt_0)
  then obtain k where k: "unat n = Suc k" by (cases "unat n") auto
  then have n1: "unat (n - 1) = k" using unat_dec [of n] pos by simp
  have s: "unat (ring_step cap rd) = (unat rd + 1) mod unat cap" using r by (simp add: unat_ring_step)
  have "((unat rd + 1) mod unat cap + k) mod unat cap = (unat rd + Suc k) mod unat cap"
    by (simp add: mod_add_left_eq)
  then show "counted_ring (slots[unat rd := z]) cap (ring_step cap rd) wr (n - 1)"
    using r n1 s k by (simp add: counted_ring_def)
  have "k < unat cap" using r k by simp
  then show "ring_list slots (unat cap) (unat rd) (unat n) = slots ! unat rd #
      ring_list (slots[unat rd := z]) (unat cap) (unat (ring_step cap rd)) (unat (n - 1))"
    unfolding n1 s k using r ring_list_pop_clear [of k "unat cap" "unat rd" slots z]
    by (simp add: ring_list_pop)
qed

definition rx_inv :: "rx_ring \<Rightarrow> bool" where
  "rx_inv r \<longleftrightarrow> counted_ring (rr_slots r) (rr_capacity r) (rr_read_idx r) (rr_write_idx r) (rr_count r)"

definition rx_contents :: "rx_ring \<Rightarrow> hal_frame list" where
  "rx_contents r =
     ring_list (rr_slots r) (unat (rr_capacity r)) (unat (rr_read_idx r)) (unat (rr_count r))"

definition tx_inv :: "tx_ring \<Rightarrow> bool" where
  "tx_inv r \<longleftrightarrow> counted_ring (tr_slots r) (tr_capacity r) (tr_read_idx r) (tr_write_idx r) (tr_count r)"

definition tx_contents :: "tx_ring \<Rightarrow> hal_frame list" where
  "tx_contents r =
     ring_list (tr_slots r) (unat (tr_capacity r)) (unat (tr_read_idx r)) (unat (tr_count r))"

definition rx_put :: "rx_ring \<Rightarrow> hal_frame \<Rightarrow> bool \<times> rx_ring" where
  "rx_put r f = (case rx_push r f of (st, r') \<Rightarrow> (st = HAL_OK, r'))"

definition rx_get :: "rx_ring \<Rightarrow> (hal_frame \<times> rx_ring) option" where
  "rx_get r = (case rx_pop r of (st, r', Some f) \<Rightarrow> Some (f, r') | _ \<Rightarrow> None)"

definition tx_put :: "tx_ring \<Rightarrow> hal_frame \<Rightarrow> bool \<times> tx_ring" where
  "tx_put r f = (case tx_push r f of (st, r') \<Rightarrow> (st = HAL_OK, r'))"

definition tx_get :: "tx_ring \<Rightarrow> (hal_frame \<times> tx_ring) option" where
  "tx_get r = (case tx_pop r of (st, r', Some f) \<Rightarrow> Some (f, r') | _ \<Rightarrow> None)"

lemma rx_not_null: "rx_inv r \<Longrightarrow> rr_slots r \<noteq> [] \<and> rr_capacity r \<noteq> 0"
  by (auto simp: rx_inv_def counted_ring_def)

lemma tx_not_null: "tx_inv r \<Longrightarrow> tr_slots r \<noteq> [] \<and> tr_capacity r \<noteq> 0"
  by (auto simp: tx_inv_def counted_ring_def)

lemma length_rx_contents [simp]: "length (rx_contents r) = unat (rr_count r)"
  by (simp add: rx_contents_def)

lemma length_tx_contents [simp]: "length (tx_contents r) = unat (tr_count r)"
  by (simp add: tx_contents_def)

interpretation rx_fifo: bounded_fifo rx_put rx_get rx_inv rx_contents "\<lambda>r. unat (rr_capacity r)"
proof
  fix q e ok q'
  assume inv: "rx_inv q" and p: "rx_put q e = (ok, q')"
  note c = inv [unfolded rx_inv_def]
  show "ok = (length (rx_contents q) < unat (rr_capacity q)) \<and>
      rx_contents q' = (if ok then rx_contents q @ [e] else rx_contents q) \<and> rx_inv q' \<and>
      unat (rr_capacity q') = unat (rr_capacity q)"
    using p rx_not_null [OF inv] inv counted_push [OF c]
    by (cases "rr_count q \<ge> rr_capacity q")
      (auto simp: rx_put_def rx_push_def rx_contents_def rx_inv_def word_le_nat_alt word_less_nat_alt
        simp del: length_rx_contents)
next
  fix q
  assume inv: "rx_inv q"
  note c = inv [unfolded rx_inv_def]
  show "case rx_get q of None \<Rightarrow> rx_contents q = []
    | Some (e, q') \<Rightarrow> rx_contents q = e # rx_contents q' \<and> rx_inv q' \<and>
        unat (rr_capacity q') = unat (rr_capacity q)"
    using rx_not_null [OF inv] counted_pop [OF c, of zero_frame]
    by (cases "rr_count q = 0")
      (simp_all add: rx_get_def rx_pop_def rx_contents_def rx_inv_def)
  show "length (rx_contents q) \<le> unat (rr_capacity q)"
    using c by (simp add: counted_ring_def)
qed

interpretation tx_fifo: bounded_fifo tx_put tx_get tx_inv tx_contents "\<lambda>r. unat (tr_capacity r)"
proof
  fix q e ok q'
  assume inv: "tx_inv q" and p: "tx_put q e = (ok, q')"
  note c = inv [unfolded tx_inv_def]
  show "ok = (length (tx_contents q) < unat (tr_capacity q)) \<and>
      tx_contents q' = (if ok then tx_contents q @ [e] else tx_contents q) \<and> tx_inv q' \<and>
      unat (tr_capacity q') = unat (tr_capacity q)"
    using p tx_not_null [OF inv] inv counted_push [OF c]
    by (cases "tr_count q \<ge> tr_capacity q")
      (auto simp: tx_put_def tx_push_def tx_contents_def tx_inv_def word_le_nat_alt word_less_nat_alt
        Let_def simp del: length_tx_contents)
next
  fix q
  assume inv: "tx_inv q"
  note c = inv [unfolded tx_inv_def]
  show "case tx_get q of None \<Rightarrow> tx_contents q = []
    | Some (e, q') \<Rightarrow> tx_contents q = e # tx_contents q' \<and> tx_inv q' \<and>
        unat (tr_capacity q') = unat (tr_capacity q)"
    using tx_not_null [OF inv] counted_pop [OF c, of zero_frame]
    by (cases "tr_count q = 0")
      (simp_all add: tx_get_def tx_pop_def tx_contents_def tx_inv_def)
  show "length (tx_contents q) \<le> unat (tr_capacity q)"
    using c by (simp add: counted_ring_def)
qed

end
