(* ===== verification/Hal.thy ===== *)
theory Hal
  imports Hal_Types Event_Queue_Spec "HOL-Library.Monad_Syntax"
begin

text \<open>
  core/hal/src/hal.c: dispatch between the rings, the backend and the event queue. A backend
  is its five callbacks over a context of any type \<open>'b\<close>; a callback that writes through a
  pointer returns the new contents. A call that pushes an event may never return (the queue's
  hard-fault escalation spins when its hooks are incomplete): such a call is \<open>None\<close>. The clock's
  context does not change during a call. The rings are not aliased between interfaces.
\<close>

type_synonym event_sink = "event_queue \<times> hook_call list"

definition push_event :: "event_sink \<Rightarrow> event \<Rightarrow> (event_queue_status \<times> event_sink) option" where
  "push_event s e =
     (case queue_push (fst s) e of
        (None, q', calls) \<Rightarrow> None
      | (Some st, q', calls) \<Rightarrow> Some (st, q', snd s @ calls))"

record 'b hal_backend =
  be_open :: "('b \<Rightarrow> hal_if_config \<Rightarrow> nat \<Rightarrow> bool \<times> 'b) option"
  be_close :: "('b \<Rightarrow> nat \<Rightarrow> 'b) option"
  be_poll :: "('b \<Rightarrow> nat \<Rightarrow> rx_ring \<Rightarrow> hal_fault_code
    \<Rightarrow> hal_status \<times> 'b \<times> rx_ring \<times> hal_fault_code) option"
  be_drain_tx :: "('b \<Rightarrow> nat \<Rightarrow> tx_ring \<Rightarrow> hal_fault_code
    \<Rightarrow> hal_status \<times> 'b \<times> tx_ring \<times> hal_fault_code) option"
  be_caps :: "('b \<Rightarrow> nat \<Rightarrow> hal_transport_caps \<Rightarrow> bool \<times> 'b \<times> hal_transport_caps) option"

record ('b, 'c) hal =
  hl_backend :: "'b hal_backend"
  hl_context :: 'b
  hl_clock :: "'c clock"
  hl_ifaces :: "hal_if_config list"
  hl_rx_rings :: "rx_ring option list"
  hl_tx_rings :: "tx_ring option list"
  hl_iface_count :: nat
  hl_if_states :: "hal_if_state list"
  hl_if_caps :: "hal_transport_caps list"
  hl_if_protocol_rejected :: "u32 list"
  hl_if_faults :: "u32 list"
  hl_if_last_fault :: "hal_fault_code list"
  hl_if_last_ts :: "time_us list"
  hl_initialized :: bool

subsection \<open>Fault shaping\<close>

fun hal_fault_severity :: "hal_fault_code \<Rightarrow> fault_severity" where
  "hal_fault_severity HAL_FAULT_RX_RING_OVERFLOW = FAULT_SEVERITY_WARNING"
| "hal_fault_severity HAL_FAULT_TX_RING_OVERFLOW = FAULT_SEVERITY_WARNING"
| "hal_fault_severity HAL_FAULT_BUS_BACKPRESSURE = FAULT_SEVERITY_WARNING"
| "hal_fault_severity HAL_FAULT_MALFORMED_FRAME = FAULT_SEVERITY_WARNING"
| "hal_fault_severity HAL_FAULT_TIMESTAMP_NON_MONOTONIC = FAULT_SEVERITY_ERROR"
| "hal_fault_severity HAL_FAULT_INTERFACE_DOWN = FAULT_SEVERITY_ERROR"
| "hal_fault_severity HAL_FAULT_BUS_ERROR_PASSIVE = FAULT_SEVERITY_ERROR"
| "hal_fault_severity HAL_FAULT_INIT_FAILED = FAULT_SEVERITY_ERROR"
| "hal_fault_severity HAL_FAULT_PROTOCOL_UNSUPPORTED = FAULT_SEVERITY_ERROR"
| "hal_fault_severity HAL_FAULT_BUS_OFF = FAULT_SEVERITY_CRITICAL"
| "hal_fault_severity HAL_FAULT_NONE = FAULT_SEVERITY_INFO"
| "hal_fault_severity HAL_FAULT_COUNT = FAULT_SEVERITY_INFO"

fun hal_find_from :: "hal_if_config list \<Rightarrow> nat list \<Rightarrow> nat \<Rightarrow> interface_id \<Rightarrow> nat" where
  "hal_find_from ifaces [] n iface = n"
| "hal_find_from ifaces (i # is) n iface =
     (if ic_interface_id (ifaces ! i) = iface then i else hal_find_from ifaces is n iface)"

definition hal_find_iface :: "('b, 'c) hal \<Rightarrow> interface_id \<Rightarrow> nat" where
  "hal_find_iface h iface =
     hal_find_from (hl_ifaces h) [0..<hl_iface_count h] (hl_iface_count h) iface"

definition hal_note_fault :: "('b, 'c) hal \<Rightarrow> nat \<Rightarrow> hal_fault_code \<Rightarrow> ('b, 'c) hal" where
  "hal_note_fault h idx fault =
     h\<lparr>hl_if_faults := (hl_if_faults h)[idx := hl_if_faults h ! idx + 1],
       hl_if_last_fault := (hl_if_last_fault h)[idx := fault],
       hl_if_states :=
         (if fault = HAL_FAULT_BUS_ERROR_PASSIVE
          then (hl_if_states h)[idx := IF_STATE_ERROR_PASSIVE]
          else if fault = HAL_FAULT_BUS_OFF \<or> fault = HAL_FAULT_INTERFACE_DOWN
          then (hl_if_states h)[idx := IF_STATE_BUS_OFF]
          else hl_if_states h)\<rparr>"

definition hal_fault_event ::
    "('b, 'c) hal \<Rightarrow> interface_id \<Rightarrow> hal_fault_code \<Rightarrow> fault_severity \<Rightarrow> event" where
  "hal_fault_event h iface fault severity =
     zero_event\<lparr>ev_type := EVENT_TYPE_FAULT_RAISED, ev_priority_class := PRIORITY_CLASS_FAULT,
       ev_timestamp_us := clock_now_us (Some (hl_clock h)),
       ev_payload := Payload_fault \<lparr>
         fr_fault_code = push_bit 16 (ucast iface) OR of_nat (hal_fault_value fault),
         fr_severity = severity, fr_source_id = ucast iface\<rparr>\<rparr>"

definition raise_fault :: "('b, 'c) hal \<Rightarrow> event_sink \<Rightarrow> interface_id \<Rightarrow> hal_fault_code
    \<Rightarrow> fault_severity \<Rightarrow> (event_queue_status \<times> ('b, 'c) hal \<times> event_sink) option" where
  "raise_fault h s iface fault severity =
     (let idx = hal_find_iface h iface;
          h1 = (if idx < hl_iface_count h then hal_note_fault h idx fault else h)
      in do {
        (st, s1) \<leftarrow> push_event s (hal_fault_event h1 iface fault severity);
        Some (st, h1, s1)
      })"

fun hal_raise_fault :: "('b, 'c) hal option \<Rightarrow> event_sink option \<Rightarrow> interface_id
    \<Rightarrow> hal_fault_code \<Rightarrow> fault_severity
    \<Rightarrow> (event_queue_status \<times> ('b, 'c) hal option \<times> event_sink option) option" where
  "hal_raise_fault (Some h) (Some s) iface fault severity =
     do { (st, h1, s1) \<leftarrow> raise_fault h s iface fault severity; Some (st, Some h1, Some s1) }"
| "hal_raise_fault h s iface fault severity = Some (EQ_ERR_NULL, h, s)"

subsection \<open>Reception\<close>

definition hal_count_rejected :: "('b, 'c) hal \<Rightarrow> nat \<Rightarrow> ('b, 'c) hal" where
  "hal_count_rejected h i = h\<lparr>hl_if_protocol_rejected :=
     (hl_if_protocol_rejected h)[i := hl_if_protocol_rejected h ! i + 1]\<rparr>"

definition hal_rx_event :: "('b, 'c) hal \<Rightarrow> hal_frame \<Rightarrow> event" where
  "hal_rx_event h f =
     zero_event\<lparr>ev_type := EVENT_TYPE_CAN_RX, ev_priority_class := PRIORITY_CLASS_CAN_RX,
       ev_timestamp_us := (if fr_timestamp_us f \<noteq> 0 then fr_timestamp_us f
         else clock_now_us (Some (hl_clock h))),
       ev_payload := Payload_can_rx \<lparr>rx_interface_id = fr_interface_id f,
         rx_can_id = fr_can_id f, rx_is_extended = fr_is_extended f, rx_is_fd = fr_is_fd f,
         rx_length = fr_length f,
         rx_data = take (unat (fr_length f)) (fr_data f) @ replicate (64 - unat (fr_length f)) 0\<rparr>\<rparr>"

text \<open>The result: delivered, the new fault counter, and the states after the call.\<close>

definition hal_deliver_rx :: "('b, 'c) hal \<Rightarrow> event_sink \<Rightarrow> nat \<Rightarrow> hal_frame \<Rightarrow> u32
    \<Rightarrow> (bool \<times> u32 \<times> ('b, 'c) hal \<times> event_sink) option" where
  "hal_deliver_rx h s i f faults =
     (let iface = ic_interface_id (hl_ifaces h ! i)
      in if \<not> hal_frame_is_valid (Some f) then
           do { (_, h1, s1) \<leftarrow> raise_fault (hal_count_rejected h i) s iface
                  HAL_FAULT_MALFORMED_FRAME FAULT_SEVERITY_WARNING;
                Some (False, faults + 1, h1, s1) }
         else if fr_is_fd f \<noteq> 0 \<and> \<not> tc_can_fd (hl_if_caps h ! i) then
           do { (_, h1, s1) \<leftarrow> raise_fault (hal_count_rejected h i) s iface
                  HAL_FAULT_PROTOCOL_UNSUPPORTED FAULT_SEVERITY_ERROR;
                Some (False, faults + 1, h1, s1) }
         else if fr_timestamp_us f \<noteq> 0 \<and> hl_if_last_ts h ! i \<noteq> 0 \<and>
                 fr_timestamp_us f \<le> hl_if_last_ts h ! i then
           do { (_, h1, s1) \<leftarrow> raise_fault h s iface
                  HAL_FAULT_TIMESTAMP_NON_MONOTONIC FAULT_SEVERITY_ERROR;
                Some (False, faults + 1, h1, s1) }
         else
           let h1 = (if fr_timestamp_us f \<noteq> 0
                 then h\<lparr>hl_if_last_ts := (hl_if_last_ts h)[i := fr_timestamp_us f]\<rparr> else h)
           in do { (_, s1) \<leftarrow> push_event s (hal_rx_event h1 f);
                   Some (True, faults, h1, s1) })"

text \<open>
  The loop that drains an RX ring, with the ring's count as its bound: delivery does not touch
  the ring, so each turn removes one frame. A ring without slots but with a non-zero count
  would be popped without effect for ever.
\<close>

definition set_rx_ring :: "('b, 'c) hal \<Rightarrow> nat \<Rightarrow> rx_ring \<Rightarrow> ('b, 'c) hal" where
  "set_rx_ring h i r = h\<lparr>hl_rx_rings := (hl_rx_rings h)[i := Some r]\<rparr>"

definition set_tx_ring :: "('b, 'c) hal \<Rightarrow> nat \<Rightarrow> tx_ring \<Rightarrow> ('b, 'c) hal" where
  "set_tx_ring h i r = h\<lparr>hl_tx_rings := (hl_tx_rings h)[i := Some r]\<rparr>"

fun hal_drain_rx :: "nat \<Rightarrow> ('b, 'c) hal \<Rightarrow> event_sink \<Rightarrow> nat \<Rightarrow> u32 \<Rightarrow> u32
    \<Rightarrow> (u32 \<times> u32 \<times> ('b, 'c) hal \<times> event_sink) option" where
  "hal_drain_rx 0 h s i rx faults = Some (rx, faults, h, s)"
| "hal_drain_rx (Suc n) h s i rx faults =
     (let ring = the (hl_rx_rings h ! i)
      in if rx_ring_count (Some ring) = 0 then Some (rx, faults, h, s)
         else case rx_pop ring of
           (st, r1, Some f) \<Rightarrow>
             do { (ok, faults1, h1, s1) \<leftarrow> hal_deliver_rx (set_rx_ring h i r1) s i
                    (f\<lparr>fr_interface_id := ic_interface_id (hl_ifaces h ! i)\<rparr>) faults;
                  hal_drain_rx n h1 s1 i (if ok then rx + 1 else rx) faults1 }
         | (st, r1, None) \<Rightarrow> None)"

definition hal_poll_backend :: "('b, 'c) hal \<Rightarrow> nat \<Rightarrow> ('b, 'c) hal \<times> hal_fault_code" where
  "hal_poll_backend h i =
     (case be_poll (hl_backend h) of
        None \<Rightarrow> (h, HAL_FAULT_NONE)
      | Some poll \<Rightarrow>
          (case poll (hl_context h) i (the (hl_rx_rings h ! i)) HAL_FAULT_NONE of
             (_, ctx, ring, fault) \<Rightarrow> (set_rx_ring (h\<lparr>hl_context := ctx\<rparr>) i ring, fault)))"

text \<open>The opportunistic drain of a TX ring that exists, when the backend has the callback.\<close>

definition hal_drain_backend :: "('b, 'c) hal \<Rightarrow> nat \<Rightarrow> ('b, 'c) hal \<times> hal_fault_code" where
  "hal_drain_backend h i =
     (case (hl_tx_rings h ! i, be_drain_tx (hl_backend h)) of
        (Some ring, Some drain) \<Rightarrow>
          (case drain (hl_context h) i ring HAL_FAULT_NONE of
             (_, ctx, ring1, fault) \<Rightarrow> (set_tx_ring (h\<lparr>hl_context := ctx\<rparr>) i ring1, fault))
      | _ \<Rightarrow> (h, HAL_FAULT_NONE))"

text \<open>Raise a fault the backend reported, counting it; nothing for FAULT\_NONE.\<close>

definition hal_report :: "('b, 'c) hal \<Rightarrow> event_sink \<Rightarrow> nat \<Rightarrow> hal_fault_code \<Rightarrow> u32
    \<Rightarrow> (u32 \<times> ('b, 'c) hal \<times> event_sink) option" where
  "hal_report h s i fault faults =
     (if fault = HAL_FAULT_NONE then Some (faults, h, s)
      else do { (_, h1, s1) \<leftarrow> raise_fault h s (ic_interface_id (hl_ifaces h ! i)) fault
                  (hal_fault_severity fault);
                Some (faults + 1, h1, s1) })"

definition hal_report_overflow :: "('b, 'c) hal \<Rightarrow> event_sink \<Rightarrow> nat \<Rightarrow> u32
    \<Rightarrow> (u32 \<times> ('b, 'c) hal \<times> event_sink) option" where
  "hal_report_overflow h s i faults =
     (if rr_dropped (the (hl_rx_rings h ! i)) > 0
      then do { (_, h1, s1) \<leftarrow> raise_fault h s (ic_interface_id (hl_ifaces h ! i))
                  HAL_FAULT_RX_RING_OVERFLOW FAULT_SEVERITY_WARNING;
                Some (faults + 1,
                  set_rx_ring h1 i ((the (hl_rx_rings h1 ! i))\<lparr>rr_dropped := 0\<rparr>), s1) }
      else Some (faults, h, s))"

definition hal_poll_iface :: "('b, 'c) hal \<Rightarrow> event_sink \<Rightarrow> nat \<Rightarrow> u32 \<Rightarrow> u32
    \<Rightarrow> (u32 \<times> u32 \<times> ('b, 'c) hal \<times> event_sink) option" where
  "hal_poll_iface h s i rx faults =
     (if hl_rx_rings h ! i = None then Some (rx, faults, h, s)
      else
        let (h1, fault) = hal_poll_backend h i
        in do {
          (faults2, h2, s2) \<leftarrow> hal_report h1 s i fault faults;
          (rx3, faults3, h3, s3) \<leftarrow>
            hal_drain_rx (unat (rx_ring_count (hl_rx_rings h2 ! i))) h2 s2 i rx faults2;
          (let (h4, tx_fault) = hal_drain_backend h3 i
           in do {
             (faults5, h5, s5) \<leftarrow> hal_report h4 s3 i tx_fault faults3;
             (faults6, h6, s6) \<leftarrow> hal_report_overflow h5 s5 i faults5;
             Some (rx3, faults6, h6, s6)
           })
        })"

fun hal_poll_from :: "nat list \<Rightarrow> ('b, 'c) hal \<Rightarrow> event_sink \<Rightarrow> u32 \<Rightarrow> u32
    \<Rightarrow> (u32 \<times> u32 \<times> ('b, 'c) hal \<times> event_sink) option" where
  "hal_poll_from [] h s rx faults = Some (rx, faults, h, s)"
| "hal_poll_from (i # is) h s rx faults =
     do { (rx1, faults1, h1, s1) \<leftarrow> hal_poll_iface h s i rx faults;
          hal_poll_from is h1 s1 rx1 faults1 }"

text \<open>The counters are written to the out parameters only on success.\<close>

fun hal_poll_rx :: "('b, 'c) hal option \<Rightarrow> event_sink option
    \<Rightarrow> (hal_status \<times> (u32 \<times> u32) option \<times> ('b, 'c) hal option \<times> event_sink option) option" where
  "hal_poll_rx (Some h) (Some s) =
     (if \<not> hl_initialized h then Some (HAL_ERR_NULL, None, Some h, Some s)
      else do { (rx, faults, h1, s1) \<leftarrow> hal_poll_from [0..<hl_iface_count h] h s 0 0;
                Some (HAL_OK, Some (rx, faults), Some h1, Some s1) })"
| "hal_poll_rx h s = Some (HAL_ERR_NULL, None, h, s)"

fun hal_iface_can_fd :: "('b, 'c) hal option \<Rightarrow> interface_id \<Rightarrow> bool" where
  "hal_iface_can_fd None iface = False"
| "hal_iface_can_fd (Some h) iface =
     (if \<not> hl_initialized h then False
      else let idx = hal_find_iface h iface
           in if idx \<ge> hl_iface_count h then False else tc_can_fd (hl_if_caps h ! idx))"

subsection \<open>Transmission\<close>

definition send_tx :: "('b, 'c) hal \<Rightarrow> event_sink \<Rightarrow> hal_frame
    \<Rightarrow> (hal_status \<times> ('b, 'c) hal \<times> event_sink) option" where
  "send_tx h s f =
     (if \<not> hl_initialized h then Some (HAL_ERR_NULL, h, s)
      else let idx = hal_find_iface h (fr_interface_id f)
      in if idx \<ge> hl_iface_count h then Some (HAL_ERR_NO_INTERFACE, h, s)
      else case hl_tx_rings h ! idx of
        None \<Rightarrow> Some (HAL_ERR_NO_INTERFACE, h, s)
      | Some ring \<Rightarrow>
          if \<not> hal_frame_is_valid (Some f) then
            do { (_, h1, s1) \<leftarrow> raise_fault (hal_count_rejected h idx) s (fr_interface_id f)
                   HAL_FAULT_MALFORMED_FRAME FAULT_SEVERITY_WARNING;
                 Some (HAL_ERR_ARGUMENT, h1, s1) }
          else if fr_is_fd f \<noteq> 0 \<and> \<not> tc_can_fd (hl_if_caps h ! idx) then
            do { (_, h1, s1) \<leftarrow> raise_fault (hal_count_rejected h idx) s (fr_interface_id f)
                   HAL_FAULT_PROTOCOL_UNSUPPORTED FAULT_SEVERITY_ERROR;
                 Some (HAL_ERR_UNSUPPORTED, h1, s1) }
          else case tx_push ring f of (status, ring1) \<Rightarrow>
            let h1 = set_tx_ring h idx ring1
            in if status = HAL_ERR_RING_FULL then
                 do { (_, h2, s2) \<leftarrow> raise_fault h1 s (fr_interface_id f)
                        HAL_FAULT_TX_RING_OVERFLOW FAULT_SEVERITY_WARNING;
                      Some (status, h2, s2) }
               else if \<not> hal_status_is_ok status then Some (status, h1, s)
               else
                 let (h2, tx_fault) = hal_drain_backend h1 idx
                 in if tx_fault \<noteq> HAL_FAULT_NONE then
                      do { (_, h3, s3) \<leftarrow> raise_fault h2 s (fr_interface_id f) tx_fault
                             (hal_fault_severity tx_fault);
                           Some (HAL_OK, h3, s3) }
                    else Some (HAL_OK, h2, s))"

fun hal_send_tx :: "('b, 'c) hal option \<Rightarrow> event_sink option \<Rightarrow> hal_frame option
    \<Rightarrow> (hal_status \<times> ('b, 'c) hal option \<times> event_sink option) option" where
  "hal_send_tx (Some h) (Some s) (Some f) =
     do { (st, h1, s1) \<leftarrow> send_tx h s f; Some (st, Some h1, Some s1) }"
| "hal_send_tx h s f = Some (HAL_ERR_NULL, h, s)"

subsection \<open>Initialisation and status\<close>

record ('b, 'c) hal_config =
  cf_backend :: "'b hal_backend option"
  cf_context :: 'b
  cf_clock :: "'c clock option"
  cf_ifaces :: "hal_if_config list option"
  cf_iface_count :: nat
  cf_rx_rings :: "rx_ring option list option"
  cf_tx_rings :: "tx_ring option list option"

definition zero_if_config :: hal_if_config where
  "zero_if_config = \<lparr>ic_interface_id = 0, ic_name = [], ic_bitrate = 0, ic_listen_only = 0,
     ic_can_fd = 0, ic_data_bitrate = 0\<rparr>"

definition zero_caps :: hal_transport_caps where
  "zero_caps = \<lparr>tc_interface_id = 0, tc_can_fd = False, tc_max_length = 0\<rparr>"

text \<open>The first \<open>n\<close> entries of an array of four, the rest zeroed.\<close>

definition array4 :: "nat \<Rightarrow> 'a \<Rightarrow> (nat \<Rightarrow> 'a) \<Rightarrow> 'a list" where
  "array4 n z f = map (\<lambda>i. if i < n then f i else z) [0..<HAL_MAX_INTERFACES]"

definition hal_setup :: "'b hal_backend \<Rightarrow> 'c clock \<Rightarrow> hal_if_config list
    \<Rightarrow> ('b, 'c) hal_config \<Rightarrow> ('b, 'c) hal" where
  "hal_setup be clk ifaces cfg =
     (let n = cf_iface_count cfg in
      \<lparr>hl_backend = be, hl_context = cf_context cfg, hl_clock = clk,
       hl_ifaces = array4 n zero_if_config (\<lambda>i. ifaces ! i),
       hl_rx_rings = array4 n None
         (\<lambda>i. case cf_rx_rings cfg of None \<Rightarrow> None | Some rs \<Rightarrow> rs ! i),
       hl_tx_rings = array4 n None
         (\<lambda>i. case cf_tx_rings cfg of None \<Rightarrow> None | Some rs \<Rightarrow> rs ! i),
       hl_iface_count = n,
       hl_if_states = replicate HAL_MAX_INTERFACES IF_STATE_DOWN,
       hl_if_caps = replicate HAL_MAX_INTERFACES zero_caps,
       hl_if_protocol_rejected = replicate HAL_MAX_INTERFACES 0,
       hl_if_faults = replicate HAL_MAX_INTERFACES 0,
       hl_if_last_fault = replicate HAL_MAX_INTERFACES HAL_FAULT_NONE,
       hl_if_last_ts = replicate HAL_MAX_INTERFACES 0,
       hl_initialized = False\<rparr>)"

text \<open>Record what the backend negotiated for interface \<open>i\<close>, which it has just opened.\<close>

definition hal_negotiate :: "('b, 'c) hal \<Rightarrow> nat \<Rightarrow> ('b, 'c) hal" where
  "hal_negotiate h i =
     (let classic = \<lparr>tc_interface_id = ic_interface_id (hl_ifaces h ! i), tc_can_fd = False,
            tc_max_length = HAL_CLASSIC_FRAME_MAX_LENGTH\<rparr>
      in case be_caps (hl_backend h) of
        None \<Rightarrow> h\<lparr>hl_if_caps := (hl_if_caps h)[i := classic]\<rparr>
      | Some caps \<Rightarrow>
          (case caps (hl_context h) i zero_caps of (ok, ctx, negotiated) \<Rightarrow>
             h\<lparr>hl_context := ctx, hl_if_caps := (hl_if_caps h)[i :=
               (if ok \<and> tc_can_fd negotiated
                then classic\<lparr>tc_can_fd := True, tc_max_length := HAL_FRAME_MAX_LENGTH\<rparr>
                else classic)]\<rparr>))"

text \<open>Close the interfaces below \<open>i\<close>, the last opened first.\<close>

fun hal_close_below :: "nat \<Rightarrow> ('b, 'c) hal \<Rightarrow> ('b, 'c) hal" where
  "hal_close_below 0 h = h"
| "hal_close_below (Suc i) h =
     (let ctx = (case be_close (hl_backend h) of None \<Rightarrow> hl_context h | Some close \<Rightarrow> close (hl_context h) i)
      in hal_close_below i (h\<lparr>hl_context := ctx, hl_if_states := (hl_if_states h)[i := IF_STATE_DOWN]\<rparr>))"

definition hal_open_failed :: "('b, 'c) hal \<Rightarrow> nat \<Rightarrow> ('b, 'c) hal" where
  "hal_open_failed h i =
     hal_close_below i (h\<lparr>hl_if_states := (hl_if_states h)[i := IF_STATE_DOWN],
       hl_if_last_fault := (hl_if_last_fault h)[i := HAL_FAULT_INIT_FAILED],
       hl_if_faults := (hl_if_faults h)[i := hl_if_faults h ! i + 1]\<rparr>)"

fun hal_open_from :: "nat list \<Rightarrow> ('b, 'c) hal \<Rightarrow> bool \<times> ('b, 'c) hal" where
  "hal_open_from [] h = (True, h\<lparr>hl_initialized := True\<rparr>)"
| "hal_open_from (i # is) h =
     (case be_open (hl_backend h) of
        None \<Rightarrow> (False, hal_open_failed h i)
      | Some open_fn \<Rightarrow>
          (case open_fn (hl_context h) (hl_ifaces h ! i) i of
             (False, ctx) \<Rightarrow> (False, hal_open_failed (h\<lparr>hl_context := ctx\<rparr>) i)
           | (True, ctx) \<Rightarrow>
               hal_open_from is (hal_negotiate (h\<lparr>hl_context := ctx,
                 hl_if_states := (hl_if_states h)[i := IF_STATE_UP]\<rparr>) i)))"

fun hal_init :: "('b, 'c) hal option \<Rightarrow> ('b, 'c) hal_config option \<Rightarrow> bool \<times> ('b, 'c) hal option" where
  "hal_init (Some h0) (Some cfg) =
     (case (cf_backend cfg, cf_clock cfg, cf_ifaces cfg) of
        (Some be, Some clk, Some ifaces) \<Rightarrow>
          (if \<not> clock_is_valid (Some clk) \<or> cf_iface_count cfg = 0 \<or>
              cf_iface_count cfg > HAL_MAX_INTERFACES
           then (False, Some h0)
           else case hal_open_from [0..<cf_iface_count cfg] (hal_setup be clk ifaces cfg) of
             (ok, h) \<Rightarrow> (ok, Some h))
      | _ \<Rightarrow> (False, Some h0))"
| "hal_init h cfg = (False, h)"

definition hal_if_status_of :: "('b, 'c) hal \<Rightarrow> nat \<Rightarrow> hal_if_status" where
  "hal_if_status_of h i =
     \<lparr>is_interface_id = ic_interface_id (hl_ifaces h ! i),
      is_name = takeWhile (\<lambda>c. c \<noteq> CHR 0x00)
        (take (HAL_INTERFACE_NAME_MAX - 1) (ic_name (hl_ifaces h ! i))),
      is_state = hl_if_states h ! i,
      is_rx_count = (case hl_rx_rings h ! i of None \<Rightarrow> 0 | Some r \<Rightarrow> rr_rx_total r),
      is_tx_count = (case hl_tx_rings h ! i of None \<Rightarrow> 0 | Some r \<Rightarrow> tr_sent r),
      is_rx_dropped = (case hl_rx_rings h ! i of None \<Rightarrow> 0 | Some r \<Rightarrow> rr_dropped r),
      is_tx_dropped = (case hl_tx_rings h ! i of None \<Rightarrow> 0 | Some r \<Rightarrow> tr_dropped r),
      is_fault_count = hl_if_faults h ! i,
      is_last_fault = hl_if_last_fault h ! i,
      is_rx_protocol_rejected = hl_if_protocol_rejected h ! i,
      is_can_fd = tc_can_fd (hl_if_caps h ! i),
      is_last_rx_timestamp_us = hl_if_last_ts h ! i\<rparr>"

text \<open>The entries written to \<open>out\<close>, which has \<open>capacity\<close> slots; their number is \<open>*out_count\<close>.\<close>

fun hal_get_status :: "('b, 'c) hal option \<Rightarrow> bool \<Rightarrow> nat \<Rightarrow> hal_status \<times> hal_if_status list" where
  "hal_get_status None has_out capacity = (HAL_ERR_NULL, [])"
| "hal_get_status (Some h) has_out capacity =
     (if \<not> has_out then (HAL_ERR_NULL, [])
      else (HAL_OK, map (hal_if_status_of h) [0..<min (hl_iface_count h) capacity]))"

end
