(* ===== verification/Mock_Hal.thy ===== *)
theory Mock_Hal
  imports Hal
begin

text \<open>
  platform/mock/mock_hal.c: the deterministic bus simulator the host build and the conformance
  tests plug under the HAL. An array with a count of used entries (the injection queue, the
  TX capture) is the list of its used entries. The contract of a HAL backend, that its
  callbacks hand the rings back well formed, is interpreted on it.
\<close>

definition MOCK_MAX_INTERFACES :: nat where "MOCK_MAX_INTERFACES = HAL_MAX_INTERFACES"
definition MOCK_INJECT_CAPACITY :: nat where "MOCK_INJECT_CAPACITY = 256"
definition MOCK_TX_CAPTURE_CAPACITY :: nat where "MOCK_TX_CAPTURE_CAPACITY = 256"

record mock_iface =
  mi_opened :: bool
  mi_fd_support :: bool
  mi_force_poll_fault :: bool
  mi_force_drain_fault :: bool
  mi_next_poll_fault :: hal_fault_code
  mi_next_drain_fault :: hal_fault_code
  mi_poll_call_count :: u32
  mi_drain_call_count :: u32
  mi_inject :: "hal_frame list"
  mi_inject_auto_timestamps :: bool
  mi_inject_next_timestamp :: time_us
  mi_inject_timestamp_step :: time_us
  mi_tx_capture :: "hal_frame list"
  mi_tx_total_captured :: u32
  mi_fd_frames_injected :: u32

record mock_hal =
  mk_ifaces :: "mock_iface list"
  mk_iface_count :: nat

definition zero_mock_iface :: mock_iface where
  "zero_mock_iface = \<lparr>mi_opened = False, mi_fd_support = False, mi_force_poll_fault = False,
     mi_force_drain_fault = False, mi_next_poll_fault = HAL_FAULT_NONE,
     mi_next_drain_fault = HAL_FAULT_NONE, mi_poll_call_count = 0, mi_drain_call_count = 0,
     mi_inject = [], mi_inject_auto_timestamps = False, mi_inject_next_timestamp = 0,
     mi_inject_timestamp_step = 0, mi_tx_capture = [], mi_tx_total_captured = 0,
     mi_fd_frames_injected = 0\<rparr>"

definition mock_hal_init :: mock_hal where
  "mock_hal_init = \<lparr>mk_ifaces = replicate MOCK_MAX_INTERFACES
       (zero_mock_iface\<lparr>mi_inject_timestamp_step := 1000\<rparr>), mk_iface_count = 0\<rparr>"

text \<open>Update one interface, when the index is in range.\<close>

definition mock_update :: "(mock_iface \<Rightarrow> mock_iface) \<Rightarrow> mock_hal \<Rightarrow> nat \<Rightarrow> mock_hal" where
  "mock_update f m i =
     (if i \<ge> MOCK_MAX_INTERFACES then m
      else m\<lparr>mk_ifaces := (mk_ifaces m)[i := f (mk_ifaces m ! i)]\<rparr>)"

definition mock_hal_open :: "mock_hal \<Rightarrow> hal_if_config \<Rightarrow> nat \<Rightarrow> bool \<times> mock_hal" where
  "mock_hal_open m cfg i =
     (if i \<ge> MOCK_MAX_INTERFACES then (False, m)
      else
        let m1 = (if i \<ge> mk_iface_count m then m\<lparr>mk_iface_count := i + 1\<rparr> else m)
        in (True, mock_update (\<lambda>mif. mif\<lparr>mi_opened := True\<rparr>) m1 i))"

definition mock_hal_close :: "mock_hal \<Rightarrow> nat \<Rightarrow> mock_hal" where
  "mock_hal_close = mock_update (\<lambda>mif. mif\<lparr>mi_opened := False\<rparr>)"

definition mock_hal_caps ::
    "mock_hal \<Rightarrow> nat \<Rightarrow> hal_transport_caps \<Rightarrow> bool \<times> mock_hal \<times> hal_transport_caps" where
  "mock_hal_caps m i caps =
     (if i \<ge> MOCK_MAX_INTERFACES then (False, m, caps)
      else let fd = mi_fd_support (mk_ifaces m ! i)
           in (True, m, caps\<lparr>tc_can_fd := fd, tc_max_length :=
                (if fd then HAL_FRAME_MAX_LENGTH else HAL_CLASSIC_FRAME_MAX_LENGTH)\<rparr>))"

definition mock_stamp :: "mock_iface \<Rightarrow> hal_frame \<Rightarrow> hal_frame \<times> mock_iface" where
  "mock_stamp mif f =
     (if mi_inject_auto_timestamps mif \<and> fr_timestamp_us f = 0
      then (f\<lparr>fr_timestamp_us := mi_inject_next_timestamp mif\<rparr>,
            mif\<lparr>mi_inject_next_timestamp :=
              mi_inject_next_timestamp mif + mi_inject_timestamp_step mif\<rparr>)
      else (f, mif))"

text \<open>Move the injected frames into the ring until it is full; the refused frame goes back first.\<close>

fun mock_fill :: "hal_frame list \<Rightarrow> mock_iface \<Rightarrow> rx_ring \<Rightarrow> mock_iface \<times> rx_ring" where
  "mock_fill [] mif ring = (mif\<lparr>mi_inject := []\<rparr>, ring)"
| "mock_fill (f # fs) mif ring =
     (case mock_stamp mif f of (f1, mif1) \<Rightarrow>
        (case rx_push ring f1 of (st, ring1) \<Rightarrow>
           if st = HAL_ERR_RING_FULL then (mif1\<lparr>mi_inject := f1 # fs\<rparr>, ring1)
           else mock_fill fs mif1 ring1))"

definition mock_hal_poll :: "mock_hal \<Rightarrow> nat \<Rightarrow> rx_ring \<Rightarrow> hal_fault_code
    \<Rightarrow> hal_status \<times> mock_hal \<times> rx_ring \<times> hal_fault_code" where
  "mock_hal_poll m i ring fault =
     (if i \<ge> MOCK_MAX_INTERFACES then (HAL_ERR_NULL, m, ring, fault)
      else
        let mif = mk_ifaces m ! i;
            mif1 = mif\<lparr>mi_poll_call_count := mi_poll_call_count mif + 1\<rparr>;
            mif2 = (if mi_inject mif1 \<noteq> [] \<and> fr_is_fd (hd (mi_inject mif1)) \<noteq> 0
              then mif1\<lparr>mi_fd_frames_injected := mi_fd_frames_injected mif1 + 1\<rparr> else mif1);
            fault1 = (if mi_next_poll_fault mif2 \<noteq> HAL_FAULT_NONE
              then mi_next_poll_fault mif2 else fault);
            mif3 = mif2\<lparr>mi_next_poll_fault := HAL_FAULT_NONE\<rparr>;
            (mif4, ring1) = mock_fill (mi_inject mif3) mif3 ring
        in (HAL_OK, mock_update (\<lambda>_. mif4) m i, ring1, fault1))"

fun mock_discard :: "nat \<Rightarrow> tx_ring \<Rightarrow> tx_ring" where
  "mock_discard 0 ring = ring"
| "mock_discard (Suc n) ring =
     (case tx_pop ring of
        (HAL_OK, r1, _) \<Rightarrow> mock_discard n (r1\<lparr>tr_dropped := tr_dropped r1 + 1\<rparr>)
      | (_, r1, _) \<Rightarrow> r1)"

fun mock_capture :: "nat \<Rightarrow> mock_iface \<Rightarrow> tx_ring \<Rightarrow> mock_iface \<times> tx_ring" where
  "mock_capture 0 mif ring = (mif, ring)"
| "mock_capture (Suc n) mif ring =
     (if tx_ring_count (Some ring) = 0 then (mif, ring)
      else case tx_pop ring of
        (HAL_OK, r1, Some f) \<Rightarrow>
          mock_capture n
            (mif\<lparr>mi_tx_capture := (if length (mi_tx_capture mif) < MOCK_TX_CAPTURE_CAPACITY
                 then mi_tx_capture mif @ [f] else mi_tx_capture mif),
               mi_tx_total_captured := mi_tx_total_captured mif + 1\<rparr>)
            (r1\<lparr>tr_sent := tr_sent r1 + 1\<rparr>)
      | (_, r1, _) \<Rightarrow> (mif, r1))"

text \<open>Both loops run once per queued frame: the ring's count bounds them.\<close>

definition mock_hal_drain_tx :: "mock_hal \<Rightarrow> nat \<Rightarrow> tx_ring \<Rightarrow> hal_fault_code
    \<Rightarrow> hal_status \<times> mock_hal \<times> tx_ring \<times> hal_fault_code" where
  "mock_hal_drain_tx m i ring fault =
     (if i \<ge> MOCK_MAX_INTERFACES then (HAL_ERR_NULL, m, ring, fault)
      else
        let mif = mk_ifaces m ! i;
            mif1 = mif\<lparr>mi_drain_call_count := mi_drain_call_count mif + 1\<rparr>;
            pending = mi_next_drain_fault mif1;
            fault1 = (if pending \<noteq> HAL_FAULT_NONE then pending else fault);
            mif2 = mif1\<lparr>mi_next_drain_fault := HAL_FAULT_NONE\<rparr>
        in if pending = HAL_FAULT_INTERFACE_DOWN \<or> pending = HAL_FAULT_BUS_OFF
           then (HAL_OK, mock_update (\<lambda>_. mif2) m i,
                 mock_discard (unat (tx_ring_count (Some ring))) ring, fault1)
           else
             let (mif3, ring1) = mock_capture (unat (tx_ring_count (Some ring))) mif2 ring
             in (HAL_OK, mock_update (\<lambda>_. mif3) m i, ring1, fault1))"

definition mock_backend :: "mock_hal hal_backend" where
  "mock_backend = \<lparr>be_open = Some mock_hal_open, be_close = Some mock_hal_close,
     be_poll = Some mock_hal_poll, be_drain_tx = Some mock_hal_drain_tx,
     be_caps = Some mock_hal_caps\<rparr>"

subsection \<open>The test controls\<close>

fun mock_hal_inject_rx :: "mock_hal option \<Rightarrow> nat \<Rightarrow> hal_frame option \<Rightarrow> bool \<times> mock_hal option" where
  "mock_hal_inject_rx (Some m) i (Some f) =
     (if i \<ge> MOCK_MAX_INTERFACES then (False, Some m)
      else if length (mi_inject (mk_ifaces m ! i)) \<ge> MOCK_INJECT_CAPACITY then (False, Some m)
      else (True, Some (mock_update (\<lambda>mif. mif\<lparr>mi_inject := mi_inject mif @ [f]\<rparr>) m i)))"
| "mock_hal_inject_rx m i f = (False, m)"

definition mock_hal_set_next_poll_fault :: "mock_hal \<Rightarrow> nat \<Rightarrow> hal_fault_code \<Rightarrow> mock_hal" where
  "mock_hal_set_next_poll_fault m i fault = mock_update (\<lambda>mif. mif\<lparr>mi_force_poll_fault :=
     (fault \<noteq> HAL_FAULT_NONE), mi_next_poll_fault := fault\<rparr>) m i"

definition mock_hal_set_next_drain_fault :: "mock_hal \<Rightarrow> nat \<Rightarrow> hal_fault_code \<Rightarrow> mock_hal" where
  "mock_hal_set_next_drain_fault m i fault = mock_update (\<lambda>mif. mif\<lparr>mi_force_drain_fault :=
     (fault \<noteq> HAL_FAULT_NONE), mi_next_drain_fault := fault\<rparr>) m i"

definition mock_hal_set_fd_support :: "mock_hal \<Rightarrow> nat \<Rightarrow> bool \<Rightarrow> mock_hal" where
  "mock_hal_set_fd_support m i can_fd = mock_update (\<lambda>mif. mif\<lparr>mi_fd_support := can_fd\<rparr>) m i"

definition mock_hal_fd_support :: "mock_hal option \<Rightarrow> nat \<Rightarrow> bool" where
  "mock_hal_fd_support m i =
     (if m = None \<or> i \<ge> MOCK_MAX_INTERFACES then False
      else mi_fd_support (mk_ifaces (the m) ! i))"

definition mock_hal_set_auto_timestamps :: "mock_hal \<Rightarrow> nat \<Rightarrow> time_us \<Rightarrow> time_us \<Rightarrow> mock_hal" where
  "mock_hal_set_auto_timestamps m i start stp =
     mock_update (\<lambda>mif. mif\<lparr>mi_inject_auto_timestamps := True,
       mi_inject_next_timestamp := start, mi_inject_timestamp_step := stp\<rparr>) m i"

definition mock_hal_tx_count :: "mock_hal option \<Rightarrow> nat \<Rightarrow> nat" where
  "mock_hal_tx_count m i =
     (if m = None \<or> i \<ge> MOCK_MAX_INTERFACES then 0
      else length (mi_tx_capture (mk_ifaces (the m) ! i)))"

definition mock_hal_tx_at :: "mock_hal option \<Rightarrow> nat \<Rightarrow> nat \<Rightarrow> hal_frame option" where
  "mock_hal_tx_at m i slot =
     (if m = None \<or> i \<ge> MOCK_MAX_INTERFACES then None
      else if slot \<ge> length (mi_tx_capture (mk_ifaces (the m) ! i)) then None
      else Some (mi_tx_capture (mk_ifaces (the m) ! i) ! slot))"

subsection \<open>The backend contract\<close>

locale ring_backend =
  fixes be :: "'b hal_backend"
  assumes poll_ring: "be_poll be = Some poll \<Longrightarrow> rx_inv r \<Longrightarrow>
      poll ctx i r fault = (st, ctx', r', fault') \<Longrightarrow> rx_inv r'"
    and drain_ring: "be_drain_tx be = Some drain \<Longrightarrow> tx_inv t \<Longrightarrow>
      drain ctx i t fault = (st, ctx', t', fault') \<Longrightarrow> tx_inv t'"

lemma rx_push_inv: "rx_inv r \<Longrightarrow> rx_inv (snd (rx_push r f))"
  using rx_fifo.put_contents [of r f] by (cases "rx_push r f") (auto simp: rx_put_def)

lemma tx_push_inv: "tx_inv r \<Longrightarrow> tx_inv (snd (tx_push r f))"
  using tx_fifo.put_contents [of r f] by (cases "tx_push r f") (auto simp: tx_put_def)

lemma rx_pop_cases:
  assumes "rx_inv r" and "rr_count r \<noteq> 0"
  obtains f r' where "rx_pop r = (HAL_OK, r', Some f)" "rx_inv r'" "rx_contents r = f # rx_contents r'"
    "rr_dropped r' = rr_dropped r"
proof -
  have p: "rx_pop r = (HAL_OK, fst (snd (rx_pop r)), Some (rr_slots r ! unat (rr_read_idx r)))"
    "rr_dropped (fst (snd (rx_pop r))) = rr_dropped r"
    using assms rx_not_null [OF assms(1)] by (simp_all add: rx_pop_def)
  then have "rx_get r = Some (rr_slots r ! unat (rr_read_idx r), fst (snd (rx_pop r)))"
    by (metis (no_types, lifting) case_prod_conv option.simps(5) rx_get_def)
  then show ?thesis using that [OF p(1)] rx_fifo.get_contents [OF assms(1)] p(2) by simp
qed

lemma tx_pop_cases:
  assumes "tx_inv r"
  shows "tr_count r = 0 \<and> tx_pop r = (HAL_OK_IDLE, r, None) \<or>
    (\<exists>f r'. tx_pop r = (HAL_OK, r', Some f) \<and> tx_inv r' \<and> tx_contents r = f # tx_contents r')"
proof (cases "tr_count r = 0")
  case True
  then show ?thesis by (simp add: tx_pop_def)
next
  case False
  have p: "tx_pop r = (HAL_OK, fst (snd (tx_pop r)), Some (tr_slots r ! unat (tr_read_idx r)))"
    using False tx_not_null [OF assms(1)] by (simp add: tx_pop_def)
  then have "tx_get r = Some (tr_slots r ! unat (tr_read_idx r), fst (snd (tx_pop r)))"
    by (metis (no_types, lifting) case_prod_conv option.simps(5) tx_get_def)
  then show ?thesis using p tx_fifo.get_contents [OF assms(1)] by auto
qed

lemma tx_counter_inv [simp]:
  "tx_inv (r\<lparr>tr_dropped := d\<rparr>) = tx_inv r" "tx_inv (r\<lparr>tr_sent := d\<rparr>) = tx_inv r"
  "tx_contents (r\<lparr>tr_dropped := d\<rparr>) = tx_contents r" "tx_contents (r\<lparr>tr_sent := d\<rparr>) = tx_contents r"
  by (simp_all add: tx_inv_def tx_contents_def)

lemma rx_counter_inv [simp]:
  "rx_inv (r\<lparr>rr_dropped := d\<rparr>) = rx_inv r" "rx_contents (r\<lparr>rr_dropped := d\<rparr>) = rx_contents r"
  by (simp_all add: rx_inv_def rx_contents_def)

lemma mock_fill_inv: "rx_inv ring \<Longrightarrow> rx_inv (snd (mock_fill fs mif ring))"
proof (induction fs arbitrary: mif ring)
  case (Cons f fs)
  show ?case
    using Cons.IH Cons.prems rx_push_inv [OF Cons.prems]
    by (auto split: prod.splits) (metis snd_conv)+
qed simp

lemma mock_discard_inv: "tx_inv ring \<Longrightarrow> tx_inv (mock_discard n ring)"
proof (induction n arbitrary: ring)
  case (Suc n)
  show ?case using tx_pop_cases [OF Suc.prems] Suc.IH Suc.prems by auto
qed simp

lemma mock_capture_inv: "tx_inv ring \<Longrightarrow> tx_inv (snd (mock_capture n mif ring))"
proof (induction n arbitrary: mif ring)
  case (Suc n)
  show ?case using tx_pop_cases [OF Suc.prems] Suc.IH Suc.prems by auto
qed simp

interpretation mock: ring_backend mock_backend
proof
  fix poll :: "mock_hal \<Rightarrow> nat \<Rightarrow> rx_ring \<Rightarrow> hal_fault_code
      \<Rightarrow> hal_status \<times> mock_hal \<times> rx_ring \<times> hal_fault_code"
    and r r' ctx i fault st ctx' fault'
  assume "be_poll mock_backend = Some poll" "rx_inv r" "poll ctx i r fault = (st, ctx', r', fault')"
  then show "rx_inv r'"
    using mock_fill_inv [of r]
    by (auto simp: mock_backend_def mock_hal_poll_def Let_def split: if_splits prod.splits)
      (metis snd_conv)+
next
  fix drain :: "mock_hal \<Rightarrow> nat \<Rightarrow> tx_ring \<Rightarrow> hal_fault_code
      \<Rightarrow> hal_status \<times> mock_hal \<times> tx_ring \<times> hal_fault_code"
    and t t' ctx i fault st ctx' fault'
  assume "be_drain_tx mock_backend = Some drain" "tx_inv t" "drain ctx i t fault = (st, ctx', t', fault')"
  then show "tx_inv t'"
    using mock_discard_inv [of t] mock_capture_inv [of t]
    by (auto simp: mock_backend_def mock_hal_drain_tx_def Let_def split: if_splits prod.splits)
      (metis snd_conv)+
qed

end
