(* ===== verification/Hal_Inv.thy ===== *)
theory Hal_Inv
  imports Mock_Hal Event_Queue_Properties
begin

text \<open>
  What every HAL operation keeps: the arrays and rings stay well formed, the event queue keeps
  its invariant and its FAULT events, receive timestamps never go back. One lemma per
  operation, over any backend that satisfies the ring contract; each also says that the
  operation returns, since the queue's hard-fault hooks are installed.
\<close>

definition hal_wf :: "('b, 'c) hal \<Rightarrow> bool" where
  "hal_wf h \<longleftrightarrow> hl_iface_count h \<le> 4 \<and> length (hl_rx_rings h) = 4 \<and> length (hl_tx_rings h) = 4 \<and>
     length (hl_if_last_ts h) = 4 \<and>
     (\<forall>r. Some r \<in> set (hl_rx_rings h) \<longrightarrow> rx_inv r) \<and>
     (\<forall>r. Some r \<in> set (hl_tx_rings h) \<longrightarrow> tx_inv r)"

definition hal_ok :: "('b, 'c) hal \<Rightarrow> event_sink \<Rightarrow> bool" where
  "hal_ok h s \<longleftrightarrow> hal_wf h \<and> ring_backend (hl_backend h) \<and> queue_inv (fst s) \<and>
     hooks_complete (eq_hard_fault_hooks (fst s))"

text \<open>What may differ between two states, and in which direction.\<close>

definition hal_after :: "('b, 'c) hal \<Rightarrow> event_sink \<Rightarrow> ('b, 'c) hal \<Rightarrow> event_sink \<Rightarrow> bool" where
  "hal_after h s h' s' \<longleftrightarrow> hal_ok h' s' \<and> hl_backend h' = hl_backend h \<and>
     hl_ifaces h' = hl_ifaces h \<and> hl_iface_count h' = hl_iface_count h \<and>
     hl_initialized h' = hl_initialized h \<and>
     queue_faults (fst s) \<subseteq># queue_faults (fst s') \<and>
     (\<forall>i < 4. hl_if_last_ts h ! i \<le> hl_if_last_ts h' ! i)"

lemma hal_after_refl: "hal_ok h s \<Longrightarrow> hal_after h s h s"
  by (simp add: hal_after_def)

lemma hal_after_trans: "hal_after h s h1 s1 \<Longrightarrow> hal_after h1 s1 h2 s2 \<Longrightarrow> hal_after h s h2 s2"
  unfolding hal_after_def by (auto intro: subset_mset.order_trans order_trans)

lemma hal_after_ok: "hal_after h s h' s' \<Longrightarrow> hal_ok h' s'"
  by (simp add: hal_after_def)

subsection \<open>Pushing events\<close>

lemma push_event_returns:
  assumes "queue_inv (fst s)" and "hooks_complete (eq_hard_fault_hooks (fst s))"
  obtains st s' where "push_event s e = Some (st, s')" "fst s' = push_to (fst s) e"
proof -
  obtain st q' calls where p: "queue_push (fst s) e = (st, q', calls)" by (cases "queue_push (fst s) e")
  have "st \<noteq> None"
    using push_status_spec [OF assms(1), of e] p assms(2)
    by (auto simp: admission_status_def simp del: event_is_valid.simps split: if_splits)
  then show thesis using that p by (auto simp: push_event_def push_to_def)
qed

lemma push_to_sink:
  assumes "queue_inv q" and "hooks_complete (eq_hard_fault_hooks q)"
  shows "queue_inv (push_to q e)" and "hooks_complete (eq_hard_fault_hooks (push_to q e))"
    and "queue_faults q \<subseteq># queue_faults (push_to q e)"
  using assms by (simp_all add: push_to_def queue_push_inv push_hooks queue_push_keeps_faults)

lemma push_event_after:
  assumes "hal_ok h s"
  obtains st s' where "push_event s e = Some (st, s')" "hal_after h s h s'"
    "fst s' = push_to (fst s) e"
proof -
  have q: "queue_inv (fst s)" "hooks_complete (eq_hard_fault_hooks (fst s))"
    using assms by (simp_all add: hal_ok_def)
  obtain st s' where p: "push_event s e = Some (st, s')" "fst s' = push_to (fst s) e"
    by (rule push_event_returns [OF q])
  have "hal_after h s h s'"
    using assms p(2) push_to_sink [OF q] by (simp add: hal_after_def hal_ok_def)
  then show thesis using that p by blast
qed

text \<open>Changes of the HAL state that touch none of the fields \<open>hal_after\<close> speaks of.\<close>

lemma hal_after_same:
  assumes "hal_ok h s" and "hl_backend h' = hl_backend h" "hl_ifaces h' = hl_ifaces h"
    "hl_iface_count h' = hl_iface_count h" "hl_initialized h' = hl_initialized h"
    "hl_rx_rings h' = hl_rx_rings h" "hl_tx_rings h' = hl_tx_rings h"
    "hl_if_last_ts h' = hl_if_last_ts h"
  shows "hal_after h s h' s"
  using assms by (simp add: hal_after_def hal_ok_def hal_wf_def)

lemma note_fault_fields [simp]:
  "hl_backend (hal_note_fault h i f) = hl_backend h" "hl_ifaces (hal_note_fault h i f) = hl_ifaces h"
  "hl_iface_count (hal_note_fault h i f) = hl_iface_count h"
  "hl_initialized (hal_note_fault h i f) = hl_initialized h"
  "hl_rx_rings (hal_note_fault h i f) = hl_rx_rings h"
  "hl_tx_rings (hal_note_fault h i f) = hl_tx_rings h"
  "hl_if_last_ts (hal_note_fault h i f) = hl_if_last_ts h"
  "hl_context (hal_note_fault h i f) = hl_context h" "hl_clock (hal_note_fault h i f) = hl_clock h"
  "hl_if_caps (hal_note_fault h i f) = hl_if_caps h"
  "hl_if_protocol_rejected (hal_note_fault h i f) = hl_if_protocol_rejected h"
  by (simp_all add: hal_note_fault_def)

lemma count_rejected_fields [simp]:
  "hl_backend (hal_count_rejected h i) = hl_backend h" "hl_ifaces (hal_count_rejected h i) = hl_ifaces h"
  "hl_iface_count (hal_count_rejected h i) = hl_iface_count h"
  "hl_initialized (hal_count_rejected h i) = hl_initialized h"
  "hl_rx_rings (hal_count_rejected h i) = hl_rx_rings h"
  "hl_tx_rings (hal_count_rejected h i) = hl_tx_rings h"
  "hl_if_last_ts (hal_count_rejected h i) = hl_if_last_ts h"
  "hl_clock (hal_count_rejected h i) = hl_clock h"
  by (simp_all add: hal_count_rejected_def)

lemma set_rx_ring_fields [simp]:
  "hl_backend (set_rx_ring h i r) = hl_backend h" "hl_ifaces (set_rx_ring h i r) = hl_ifaces h"
  "hl_iface_count (set_rx_ring h i r) = hl_iface_count h"
  "hl_initialized (set_rx_ring h i r) = hl_initialized h"
  "hl_rx_rings (set_rx_ring h i r) = (hl_rx_rings h)[i := Some r]"
  "hl_tx_rings (set_rx_ring h i r) = hl_tx_rings h"
  "hl_if_last_ts (set_rx_ring h i r) = hl_if_last_ts h"
  by (simp_all add: set_rx_ring_def)

lemma set_tx_ring_fields [simp]:
  "hl_backend (set_tx_ring h i r) = hl_backend h" "hl_ifaces (set_tx_ring h i r) = hl_ifaces h"
  "hl_iface_count (set_tx_ring h i r) = hl_iface_count h"
  "hl_initialized (set_tx_ring h i r) = hl_initialized h"
  "hl_rx_rings (set_tx_ring h i r) = hl_rx_rings h"
  "hl_tx_rings (set_tx_ring h i r) = (hl_tx_rings h)[i := Some r]"
  "hl_if_last_ts (set_tx_ring h i r) = hl_if_last_ts h"
  by (simp_all add: set_tx_ring_def)

lemma raise_fault_after:
  assumes "hal_ok h s"
  obtains st h' s' where "raise_fault h s iface f sev = Some (st, h', s')" "hal_after h s h' s'"
    "hl_rx_rings h' = hl_rx_rings h" "hl_tx_rings h' = hl_tx_rings h"
    "hl_if_last_ts h' = hl_if_last_ts h" "hl_if_protocol_rejected h' = hl_if_protocol_rejected h"
    "fst s' = push_to (fst s) (hal_fault_event h iface f sev)"
proof -
  define h1 where "h1 = (if hal_find_iface h iface < hl_iface_count h
    then hal_note_fault h (hal_find_iface h iface) f else h)"
  have h1: "hal_after h s h1 s" using assms unfolding h1_def by (intro hal_after_same) auto
  have ev: "hal_fault_event h1 iface f sev = hal_fault_event h iface f sev"
  proof -
    have c: "hl_clock h1 = hl_clock h" by (simp add: h1_def)
    show ?thesis unfolding hal_fault_event_def c ..
  qed
  obtain st s' where p: "push_event s (hal_fault_event h1 iface f sev) = Some (st, s')"
    "hal_after h1 s h1 s'" "fst s' = push_to (fst s) (hal_fault_event h1 iface f sev)"
    using push_event_after [OF hal_after_ok [OF h1]] by metis
  have "raise_fault h s iface f sev = Some (st, h1, s')"
    using p(1) by (simp add: raise_fault_def h1_def Let_def)
  then show thesis
    using that p(3) hal_after_trans [OF h1 p(2)] unfolding ev by (simp add: h1_def)
qed

lemma set_rx_ring_after:
  assumes "hal_ok h s" and "rx_inv r"
  shows "hal_after h s (set_rx_ring h i r) s"
  using assms by (auto simp: hal_after_def hal_ok_def hal_wf_def dest!: set_update_subset_insert [THEN subsetD])

lemma set_tx_ring_after:
  assumes "hal_ok h s" and "tx_inv r"
  shows "hal_after h s (set_tx_ring h i r) s"
  using assms by (auto simp: hal_after_def hal_ok_def hal_wf_def dest!: set_update_subset_insert [THEN subsetD])

subsection \<open>Delivery\<close>

text \<open>The three refusals of \<open>hal_deliver_rx\<close>, in the order the code tests them.\<close>

definition rx_refusal :: "('b, 'c) hal \<Rightarrow> nat \<Rightarrow> hal_frame \<Rightarrow> hal_fault_code option" where
  "rx_refusal h i f =
     (if \<not> hal_frame_is_valid (Some f) then Some HAL_FAULT_MALFORMED_FRAME
      else if fr_is_fd f \<noteq> 0 \<and> \<not> tc_can_fd (hl_if_caps h ! i) then Some HAL_FAULT_PROTOCOL_UNSUPPORTED
      else if fr_timestamp_us f \<noteq> 0 \<and> hl_if_last_ts h ! i \<noteq> 0 \<and>
              fr_timestamp_us f \<le> hl_if_last_ts h ! i then Some HAL_FAULT_TIMESTAMP_NON_MONOTONIC
      else None)"

lemma deliver_refused:
  assumes ok: "hal_ok h s" and r: "rx_refusal h i f = Some code"
  obtains h' s' where "hal_deliver_rx h s i f n = Some (False, n + 1, h', s')" "hal_after h s h' s'"
    "hl_rx_rings h' = hl_rx_rings h" "hl_tx_rings h' = hl_tx_rings h"
    "hl_if_last_ts h' = hl_if_last_ts h"
    "fst s' = push_to (fst s) (hal_fault_event h (ic_interface_id (hl_ifaces h ! i)) code
       (if code = HAL_FAULT_MALFORMED_FRAME then FAULT_SEVERITY_WARNING else FAULT_SEVERITY_ERROR))"
proof -
  let ?id = "ic_interface_id (hl_ifaces h ! i)" and ?hr = "hal_count_rejected h i"
  have hr: "hal_after h s ?hr s" using ok by (intro hal_after_same) simp_all
  have ev: "hal_fault_event ?hr a b c = hal_fault_event h a b c" for a b c
    unfolding hal_fault_event_def by simp
  consider (bad) "\<not> hal_frame_is_valid (Some f)" "code = HAL_FAULT_MALFORMED_FRAME"
    | (fd) "hal_frame_is_valid (Some f)" "fr_is_fd f \<noteq> 0 \<and> \<not> tc_can_fd (hl_if_caps h ! i)"
        "code = HAL_FAULT_PROTOCOL_UNSUPPORTED"
    | (ts) "hal_frame_is_valid (Some f)" "\<not> (fr_is_fd f \<noteq> 0 \<and> \<not> tc_can_fd (hl_if_caps h ! i))"
        "fr_timestamp_us f \<noteq> 0 \<and> hl_if_last_ts h ! i \<noteq> 0 \<and> fr_timestamp_us f \<le> hl_if_last_ts h ! i"
        "code = HAL_FAULT_TIMESTAMP_NON_MONOTONIC"
    using r by (auto simp: rx_refusal_def simp del: hal_frame_is_valid.simps split: if_splits)
  then show thesis
  proof cases
    case bad
    obtain st h' s' where p: "raise_fault ?hr s ?id HAL_FAULT_MALFORMED_FRAME FAULT_SEVERITY_WARNING =
        Some (st, h', s')" "hal_after ?hr s h' s'" "hl_rx_rings h' = hl_rx_rings h"
        "hl_tx_rings h' = hl_tx_rings h" "hl_if_last_ts h' = hl_if_last_ts h"
        "fst s' = push_to (fst s) (hal_fault_event h ?id HAL_FAULT_MALFORMED_FRAME FAULT_SEVERITY_WARNING)"
      using raise_fault_after [OF hal_after_ok [OF hr], of ?id] unfolding ev count_rejected_fields by metis
    show ?thesis
      using that [of h' s'] p bad hal_after_trans [OF hr p(2)]
      by (simp add: hal_deliver_rx_def Let_def del: hal_frame_is_valid.simps)
  next
    case fd
    obtain st h' s' where p: "raise_fault ?hr s ?id HAL_FAULT_PROTOCOL_UNSUPPORTED FAULT_SEVERITY_ERROR =
        Some (st, h', s')" "hal_after ?hr s h' s'" "hl_rx_rings h' = hl_rx_rings h"
        "hl_tx_rings h' = hl_tx_rings h" "hl_if_last_ts h' = hl_if_last_ts h"
        "fst s' = push_to (fst s) (hal_fault_event h ?id HAL_FAULT_PROTOCOL_UNSUPPORTED FAULT_SEVERITY_ERROR)"
      using raise_fault_after [OF hal_after_ok [OF hr], of ?id] unfolding ev count_rejected_fields by metis
    show ?thesis
      using that [of h' s'] p fd hal_after_trans [OF hr p(2)]
      by (simp add: hal_deliver_rx_def Let_def del: hal_frame_is_valid.simps)
  next
    case ts
    obtain st h' s' where p: "raise_fault h s ?id HAL_FAULT_TIMESTAMP_NON_MONOTONIC FAULT_SEVERITY_ERROR =
        Some (st, h', s')" "hal_after h s h' s'" "hl_rx_rings h' = hl_rx_rings h"
        "hl_tx_rings h' = hl_tx_rings h" "hl_if_last_ts h' = hl_if_last_ts h"
        "fst s' = push_to (fst s) (hal_fault_event h ?id HAL_FAULT_TIMESTAMP_NON_MONOTONIC FAULT_SEVERITY_ERROR)"
      using raise_fault_after [OF ok, of ?id] by metis
    show ?thesis
      using that [of h' s'] p ts
      by (simp add: hal_deliver_rx_def Let_def del: hal_frame_is_valid.simps)
  qed
qed

definition stamp_ts :: "('b, 'c) hal \<Rightarrow> nat \<Rightarrow> hal_frame \<Rightarrow> ('b, 'c) hal" where
  "stamp_ts h i f = (if fr_timestamp_us f \<noteq> 0
     then h\<lparr>hl_if_last_ts := (hl_if_last_ts h)[i := fr_timestamp_us f]\<rparr> else h)"

lemma deliver_accepted:
  assumes ok: "hal_ok h s" and r: "rx_refusal h i f = None"
  obtains s' where "hal_deliver_rx h s i f n = Some (True, n, stamp_ts h i f, s')"
    "hal_after h s (stamp_ts h i f) s'" "fst s' = push_to (fst s) (hal_rx_event h f)"
proof -
  let ?h1 = "stamp_ts h i f"
  have adm: "hal_frame_is_valid (Some f)" "\<not> (fr_is_fd f \<noteq> 0 \<and> \<not> tc_can_fd (hl_if_caps h ! i))"
    "\<not> (fr_timestamp_us f \<noteq> 0 \<and> hl_if_last_ts h ! i \<noteq> 0 \<and> fr_timestamp_us f \<le> hl_if_last_ts h ! i)"
    using r by (auto simp: rx_refusal_def simp del: hal_frame_is_valid.simps split: if_splits)
  have le: "fr_timestamp_us f \<noteq> 0 \<Longrightarrow> hl_if_last_ts h ! i \<le> fr_timestamp_us f"
    using adm(3) by (cases "hl_if_last_ts h ! i = 0") (auto simp: not_le)
  have "hl_if_last_ts h ! j \<le> hl_if_last_ts ?h1 ! j" if "j < 4" for j
    using le ok that
    by (cases "j = i") (simp_all add: stamp_ts_def hal_ok_def hal_wf_def)
  then have "hal_after h s ?h1 s"
    using ok by (simp add: stamp_ts_def hal_after_def hal_ok_def hal_wf_def)
  note h1 = this
  have ev: "hal_rx_event ?h1 f = hal_rx_event h f" by (simp add: hal_rx_event_def stamp_ts_def)
  obtain st s' where p: "push_event s (hal_rx_event ?h1 f) = Some (st, s')" "hal_after ?h1 s ?h1 s'"
    "fst s' = push_to (fst s) (hal_rx_event ?h1 f)"
    using push_event_after [OF hal_after_ok [OF h1]] by metis
  have "hal_deliver_rx h s i f n = Some (True, n, ?h1, s')"
    unfolding hal_deliver_rx_def Let_def stamp_ts_def [symmetric] if_not_P [OF adm(2)] if_not_P [OF adm(3)]
    using adm(1) p(1) by (simp del: hal_frame_is_valid.simps)
  then show thesis using that p hal_after_trans [OF h1 p(2)] unfolding ev by blast
qed

lemma stamp_ts_fields [simp]:
  "hl_rx_rings (stamp_ts h i f) = hl_rx_rings h" "hl_tx_rings (stamp_ts h i f) = hl_tx_rings h"
  by (simp_all add: stamp_ts_def)

lemma deliver_after:
  assumes "hal_ok h s"
  obtains ok n' h' s' where "hal_deliver_rx h s i f n = Some (ok, n', h', s')" "hal_after h s h' s'"
    "hl_rx_rings h' = hl_rx_rings h" "hl_tx_rings h' = hl_tx_rings h"
proof (cases "rx_refusal h i f")
  case None
  then show ?thesis using that deliver_accepted [OF assms None] by (metis stamp_ts_fields)
next
  case (Some code)
  then show ?thesis using that deliver_refused [OF assms Some] by metis
qed

subsection \<open>Polling\<close>

lemma hal_ok_rx:
  "hal_ok h s \<Longrightarrow> i < 4 \<Longrightarrow> hl_rx_rings h ! i = Some r \<Longrightarrow> rx_inv r"
  unfolding hal_ok_def hal_wf_def by (metis nth_mem)

lemma hal_ok_tx:
  "hal_ok h s \<Longrightarrow> i < 4 \<Longrightarrow> hl_tx_rings h ! i = Some r \<Longrightarrow> tx_inv r"
  unfolding hal_ok_def hal_wf_def by (metis nth_mem)

lemma hal_ok_length:
  "hal_ok h s \<Longrightarrow> length (hl_rx_rings h) = 4" "hal_ok h s \<Longrightarrow> length (hl_tx_rings h) = 4"
  by (simp_all add: hal_ok_def hal_wf_def)

lemma drain_rx_after:
  "hal_ok h s \<Longrightarrow> i < 4 \<Longrightarrow> hl_rx_rings h ! i = Some r \<Longrightarrow> unat (rr_count r) \<le> n \<Longrightarrow>
   \<exists>rx' n' h' s' r'. hal_drain_rx n h s i rx faults = Some (rx', n', h', s') \<and> hal_after h s h' s' \<and>
     hl_rx_rings h' = (hl_rx_rings h)[i := Some r'] \<and> rr_count r' = 0 \<and> rr_dropped r' = rr_dropped r \<and>
     hl_tx_rings h' = hl_tx_rings h"
proof (induction n arbitrary: h s r rx faults)
  case 0
  then have "rr_count r = 0" by (simp add: unat_eq_zero)
  moreover have "hl_rx_rings h = (hl_rx_rings h)[i := Some r]"
    using 0 by (metis list_update_id)
  ultimately show ?case using hal_after_refl [OF 0(1)] by auto
next
  case (Suc n)
  show ?case
  proof (cases "rr_count r = 0")
    case True
    moreover have "hl_rx_rings h = (hl_rx_rings h)[i := Some r]"
      using Suc.prems by (metis list_update_id)
    ultimately show ?thesis using hal_after_refl [OF Suc.prems(1)] Suc.prems(3) by auto
  next
    case False
    obtain f r1 where p: "rx_pop r = (HAL_OK, r1, Some f)" "rx_inv r1"
      "rx_contents r = f # rx_contents r1" "rr_dropped r1 = rr_dropped r"
      using rx_pop_cases [OF hal_ok_rx [OF Suc.prems(1-3)] False] by metis
    have "length (rx_contents r) = Suc (length (rx_contents r1))" using p(3) by simp
    then have n1: "unat (rr_count r1) \<le> n" using Suc.prems(4) by simp
    let ?h1 = "set_rx_ring h i r1" and ?f = "f\<lparr>fr_interface_id := ic_interface_id (hl_ifaces h ! i)\<rparr>"
    have h1: "hal_after h s ?h1 s" by (rule set_rx_ring_after [OF Suc.prems(1) p(2)])
    obtain ok n2 h2 s2 where d: "hal_deliver_rx ?h1 s i ?f faults = Some (ok, n2, h2, s2)"
      "hal_after ?h1 s h2 s2" "hl_rx_rings h2 = hl_rx_rings ?h1" "hl_tx_rings h2 = hl_tx_rings h"
      using deliver_after [OF hal_after_ok [OF h1]] by (metis set_rx_ring_fields(6))
    have r2: "hl_rx_rings h2 ! i = Some r1"
      using d(3) Suc.prems(2) hal_ok_length [OF Suc.prems(1)] by simp
    from Suc.IH [OF hal_after_ok [OF d(2)] Suc.prems(2) r2 n1, of "if ok then rx + 1 else rx" n2]
    obtain rx' n' h' s' r' where e:
      "hal_drain_rx n h2 s2 i (if ok then rx + 1 else rx) n2 = Some (rx', n', h', s')"
      "hal_after h2 s2 h' s'" "hl_rx_rings h' = (hl_rx_rings h2)[i := Some r']" "rr_count r' = 0"
      "rr_dropped r' = rr_dropped r1" "hl_tx_rings h' = hl_tx_rings h2"
      by blast
    have "hal_drain_rx (Suc n) h s i rx faults = Some (rx', n', h', s')"
      using False p(1) d(1) e(1) Suc.prems(3) by simp
    moreover have "hal_after h s h' s'"
      using hal_after_trans [OF hal_after_trans [OF h1 d(2)] e(2)] .
    ultimately show ?thesis using e d(3,4) p(4) by auto
  qed
qed

lemma poll_backend_after:
  assumes "hal_ok h s" and "i < 4" and "hl_rx_rings h ! i = Some r"
  obtains h' fault r' where "hal_poll_backend h i = (h', fault)" "hal_after h s h' s"
    "hl_rx_rings h' = (hl_rx_rings h)[i := Some r']" "hl_tx_rings h' = hl_tx_rings h"
proof (cases "be_poll (hl_backend h)")
  case None
  then show ?thesis
    using that [of h HAL_FAULT_NONE r] hal_after_refl [OF assms(1)] assms(3)
    by (simp add: hal_poll_backend_def) (metis list_update_id)
next
  case (Some poll)
  obtain st ctx r' fault where p: "poll (hl_context h) i r HAL_FAULT_NONE = (st, ctx, r', fault)"
    by (cases "poll (hl_context h) i r HAL_FAULT_NONE") auto
  have "ring_backend (hl_backend h)" using assms(1) by (simp add: hal_ok_def)
  then have "rx_inv r'" by (rule ring_backend.poll_ring [OF _ Some hal_ok_rx [OF assms] p])
  moreover have "hal_after h s (h\<lparr>hl_context := ctx\<rparr>) s" using assms(1) by (intro hal_after_same) simp_all
  ultimately have "hal_after h s (set_rx_ring (h\<lparr>hl_context := ctx\<rparr>) i r') s"
    using hal_after_trans set_rx_ring_after hal_after_ok by blast
  then show ?thesis
    using that [of "set_rx_ring (h\<lparr>hl_context := ctx\<rparr>) i r'" fault r'] Some p assms(3)
    by (simp add: hal_poll_backend_def)
qed

lemma drain_backend_after:
  assumes "hal_ok h s" and "i < 4"
  obtains h' fault where "hal_drain_backend h i = (h', fault)" "hal_after h s h' s"
    "hl_rx_rings h' = hl_rx_rings h"
proof (cases "hl_tx_rings h ! i")
  case None
  then show ?thesis
    using that [of h HAL_FAULT_NONE] hal_after_refl [OF assms(1)] by (simp add: hal_drain_backend_def)
next
  case t: (Some r)
  show ?thesis
  proof (cases "be_drain_tx (hl_backend h)")
    case None
    then show ?thesis
      using that [of h HAL_FAULT_NONE] hal_after_refl [OF assms(1)] t
      by (simp add: hal_drain_backend_def)
  next
    case (Some drain)
    obtain st ctx r' fault where p: "drain (hl_context h) i r HAL_FAULT_NONE = (st, ctx, r', fault)"
      by (cases "drain (hl_context h) i r HAL_FAULT_NONE") auto
    have "ring_backend (hl_backend h)" using assms(1) by (simp add: hal_ok_def)
    then have "tx_inv r'" by (rule ring_backend.drain_ring [OF _ Some hal_ok_tx [OF assms t] p])
    moreover have "hal_after h s (h\<lparr>hl_context := ctx\<rparr>) s" using assms(1) by (intro hal_after_same) simp_all
    ultimately have "hal_after h s (set_tx_ring (h\<lparr>hl_context := ctx\<rparr>) i r') s"
      using hal_after_trans set_tx_ring_after hal_after_ok by blast
    then show ?thesis
      using that [of "set_tx_ring (h\<lparr>hl_context := ctx\<rparr>) i r'" fault] Some p t
      by (simp add: hal_drain_backend_def)
  qed
qed

lemma report_after:
  assumes "hal_ok h s"
  obtains n' h' s' where "hal_report h s i fault n = Some (n', h', s')" "hal_after h s h' s'"
    "hl_rx_rings h' = hl_rx_rings h" "hl_tx_rings h' = hl_tx_rings h"
proof (cases "fault = HAL_FAULT_NONE")
  case True
  then show ?thesis using that hal_after_refl [OF assms] by (simp add: hal_report_def)
next
  case False
  obtain st h' s' where "raise_fault h s (ic_interface_id (hl_ifaces h ! i)) fault
      (hal_fault_severity fault) = Some (st, h', s')" "hal_after h s h' s'"
      "hl_rx_rings h' = hl_rx_rings h" "hl_tx_rings h' = hl_tx_rings h"
    by (rule raise_fault_after [OF assms])
  then show ?thesis using that False by (simp add: hal_report_def)
qed

lemma report_overflow_after:
  assumes "hal_ok h s" and "i < 4" and r: "hl_rx_rings h ! i = Some r" and "rr_count r = 0"
  obtains n' h' s' r' where "hal_report_overflow h s i n = Some (n', h', s')" "hal_after h s h' s'"
    "hl_rx_rings h' = (hl_rx_rings h)[i := Some r']" "rr_count r' = 0" "rr_dropped r' = 0"
proof (cases "rr_dropped r > 0")
  case False
  then have "rr_dropped r = 0" by (simp add: word_gt_0)
  then show ?thesis
    using that [of n h s r] hal_after_refl [OF assms(1)] assms(4) r
    by (simp add: hal_report_overflow_def) (metis list_update_id)
next
  case True
  obtain st h1 s1 where p: "raise_fault h s (ic_interface_id (hl_ifaces h ! i))
      HAL_FAULT_RX_RING_OVERFLOW FAULT_SEVERITY_WARNING = Some (st, h1, s1)" "hal_after h s h1 s1"
      "hl_rx_rings h1 = hl_rx_rings h"
    by (rule raise_fault_after [OF assms(1)])
  have "rx_inv (r\<lparr>rr_dropped := 0\<rparr>)" using hal_ok_rx [OF assms(1,2) r] by simp
  then have "hal_after h s (set_rx_ring h1 i (r\<lparr>rr_dropped := 0\<rparr>)) s1"
    using hal_after_trans [OF p(2)] set_rx_ring_after [OF hal_after_ok [OF p(2)]] by blast
  then show ?thesis
    using that [of "n + 1" "set_rx_ring h1 i (r\<lparr>rr_dropped := 0\<rparr>)" s1 "r\<lparr>rr_dropped := 0\<rparr>"] p True assms(4) r
    by (simp add: hal_report_overflow_def)
qed

text \<open>Ring \<open>i\<close> empty and its drop counter reset, when it exists.\<close>

definition rx_drained :: "('b, 'c) hal \<Rightarrow> nat \<Rightarrow> bool" where
  "rx_drained h i \<longleftrightarrow>
     (case hl_rx_rings h ! i of None \<Rightarrow> True | Some r \<Rightarrow> rx_contents r = [] \<and> rr_dropped r = 0)"

lemma poll_iface_after:
  assumes "hal_ok h s" and "i < 4"
  obtains rx' n' h' s' where "hal_poll_iface h s i rx n = Some (rx', n', h', s')"
    "hal_after h s h' s'" "rx_drained h' i" "\<And>j. j \<noteq> i \<Longrightarrow> hl_rx_rings h' ! j = hl_rx_rings h ! j"
proof (cases "hl_rx_rings h ! i")
  case None
  then show ?thesis
    using that [of rx n h s] hal_after_refl [OF assms(1)] by (simp add: hal_poll_iface_def rx_drained_def)
next
  case (Some r)
  obtain h1 fault r1 where b1: "hal_poll_backend h i = (h1, fault)" "hal_after h s h1 s"
    "hl_rx_rings h1 = (hl_rx_rings h)[i := Some r1]"
    using poll_backend_after [OF assms Some] by metis
  obtain n2 h2 s2 where b2: "hal_report h1 s i fault n = Some (n2, h2, s2)" "hal_after h1 s h2 s2"
    "hl_rx_rings h2 = hl_rx_rings h1"
    using report_after [OF hal_after_ok [OF b1(2)]] by metis
  have len: "length (hl_rx_rings h) = 4" using hal_ok_length [OF assms(1)] by simp
  have r2: "hl_rx_rings h2 ! i = Some r1" using b1(3) b2(3) assms(2) len by simp
  obtain rx3 n3 h3 s3 r3 where b3: "hal_drain_rx (unat (rr_count r1)) h2 s2 i rx n2 = Some (rx3, n3, h3, s3)"
    "hal_after h2 s2 h3 s3" "hl_rx_rings h3 = (hl_rx_rings h2)[i := Some r3]" "rr_count r3 = 0"
    using drain_rx_after [OF hal_after_ok [OF b2(2)] assms(2) r2 order_refl, of rx n2] by blast
  obtain h4 fault4 where b4: "hal_drain_backend h3 i = (h4, fault4)" "hal_after h3 s3 h4 s3"
    "hl_rx_rings h4 = hl_rx_rings h3"
    using drain_backend_after [OF hal_after_ok [OF b3(2)] assms(2)] by metis
  obtain n5 h5 s5 where b5: "hal_report h4 s3 i fault4 n3 = Some (n5, h5, s5)" "hal_after h4 s3 h5 s5"
    "hl_rx_rings h5 = hl_rx_rings h4"
    using report_after [OF hal_after_ok [OF b4(2)]] by metis
  have r5: "hl_rx_rings h5 ! i = Some r3" using b5(3) b4(3) b3(3) b2(3) b1(3) assms(2) len by simp
  obtain n6 h6 s6 r6 where b6: "hal_report_overflow h5 s5 i n5 = Some (n6, h6, s6)"
    "hal_after h5 s5 h6 s6" "hl_rx_rings h6 = (hl_rx_rings h5)[i := Some r6]" "rr_count r6 = 0"
    "rr_dropped r6 = 0"
    using report_overflow_after [OF hal_after_ok [OF b5(2)] assms(2) r5 b3(4)] by metis
  have "hal_poll_iface h s i rx n = Some (rx3, n6, h6, s6)"
    using Some r2 by (simp add: hal_poll_iface_def b1(1) b2(1) b3(1) b4(1) b5(1) b6(1))
  moreover have "hal_after h s h6 s6"
    using b1(2) b2(2) b3(2) b4(2) b5(2) b6(2) by (blast intro: hal_after_trans)
  moreover have "rx_contents r6 = []" using b6(4) by (simp flip: length_0_conv)
  ultimately show ?thesis
    using that [of rx3 n6 h6 s6] b6(3,5) b5(3) b4(3) b3(3) b2(3) b1(3) assms(2) len
    by (simp add: rx_drained_def)
qed

lemma poll_from_after:
  "hal_ok h s \<Longrightarrow> set is \<subseteq> {..<4} \<Longrightarrow>
   \<exists>rx' n' h' s'. hal_poll_from is h s rx n = Some (rx', n', h', s') \<and> hal_after h s h' s' \<and>
     (\<forall>j. rx_drained h j \<or> j \<in> set is \<longrightarrow> rx_drained h' j)"
proof (induction "is" arbitrary: h s rx n)
  case Nil
  then show ?case using hal_after_refl [OF Nil(1)] by simp
next
  case (Cons i "is")
  then have i: "i < 4" by simp
  obtain rx1 n1 h1 s1 where p: "hal_poll_iface h s i rx n = Some (rx1, n1, h1, s1)"
    "hal_after h s h1 s1" "rx_drained h1 i" "\<And>j. j \<noteq> i \<Longrightarrow> hl_rx_rings h1 ! j = hl_rx_rings h ! j"
    using poll_iface_after [OF Cons.prems(1) i] by metis
  have keep: "rx_drained h j \<Longrightarrow> rx_drained h1 j" for j
    using p(3,4) by (cases "j = i") (simp_all add: rx_drained_def)
  from Cons.IH [OF hal_after_ok [OF p(2)], of rx1 n1] Cons.prems(2)
  obtain rx' n' h' s' where q: "hal_poll_from is h1 s1 rx1 n1 = Some (rx', n', h', s')"
    "hal_after h1 s1 h' s'" "\<forall>j. rx_drained h1 j \<or> j \<in> set is \<longrightarrow> rx_drained h' j"
    by auto
  have "hal_poll_from (i # is) h s rx n = Some (rx', n', h', s')" using p(1) q(1) by simp
  moreover have "\<forall>j. rx_drained h j \<or> j \<in> set (i # is) \<longrightarrow> rx_drained h' j"
    using q(3) keep p(3) by auto
  ultimately show ?case using hal_after_trans [OF p(2) q(2)] by blast
qed

end
