(* ===== verification/Hal_Properties.thy ===== *)
theory Hal_Properties
  imports Hal_Inv
begin

text \<open>
  The properties of the HAL: its rings, the receive path from the backend to the event queue,
  the transmit path to the simulated bus, the fault events and the initialisation.
\<close>

subsection \<open>The rings\<close>

definition zero_rx_ring :: rx_ring where
  "zero_rx_ring = \<lparr>rr_slots = [], rr_capacity = 0, rr_read_idx = 0, rr_write_idx = 0,
     rr_count = 0, rr_dropped = 0, rr_rx_total = 0\<rparr>"

definition zero_tx_ring :: tx_ring where
  "zero_tx_ring = \<lparr>tr_slots = [], tr_capacity = 0, tr_read_idx = 0, tr_write_idx = 0,
     tr_count = 0, tr_dropped = 0, tr_sent = 0, tr_tx_total = 0\<rparr>"

lemma rx_ring_fresh:
  assumes "rx_ring_init (Some r0) storage cap = (True, Some r)" and "unat cap \<le> length storage"
  shows "rx_inv r" and "rx_contents r = []" and "rr_capacity r = cap"
  using assms
  by (auto simp: rx_inv_def counted_ring_def rx_contents_def unat_gt_0 split: if_splits)

lemma tx_ring_fresh:
  assumes "tx_ring_init (Some r0) storage cap = (True, Some r)" and "unat cap \<le> length storage"
  shows "tx_inv r" and "tx_contents r = []" and "tr_capacity r = cap"
  using assms
  by (auto simp: tx_inv_def counted_ring_def tx_contents_def unat_gt_0 split: if_splits)

text \<open>The HAL rings are bounded FIFOs. After any history of pushes and pops on newly initialised
  rings, what was accepted is what came out followed by what is still in the ring, in order,
  and the ring never holds more than its capacity; for the RX and for the TX ring.\<close>

lemma hal_rings_are_fifo:
  assumes "rx_ring_init (Some r0) rs cr = (True, Some r)" and "unat cr \<le> length rs"
    and "tx_ring_init (Some t0) ts ct = (True, Some t)" and "unat ct \<le> length ts"
    and "fifo_run rx_put rx_get ops r = (acc, out, r')"
    and "fifo_run tx_put tx_get ops t = (acc', out', t')"
  shows "acc = out @ rx_contents r' \<and> length (rx_contents r') \<le> unat cr \<and>
    acc' = out' @ tx_contents t' \<and> length (tx_contents t') \<le> unat ct"
  using rx_fifo.run_fifo [OF rx_ring_fresh(1) [OF assms(1,2)] assms(5)]
    rx_fifo.run_bounded [OF rx_ring_fresh(1) [OF assms(1,2)] assms(5)]
    tx_fifo.run_fifo [OF tx_ring_fresh(1) [OF assms(3,4)] assms(6)]
    tx_fifo.run_bounded [OF tx_ring_fresh(1) [OF assms(3,4)] assms(6)]
    rx_ring_fresh(2,3) [OF assms(1,2)] tx_ring_fresh(2,3) [OF assms(3,4)]
  by simp

definition demo_rx :: rx_ring where
  "demo_rx = the (snd (rx_ring_init (Some zero_rx_ring) (replicate 2 zero_frame) 2))"

definition demo_tx :: tx_ring where
  "demo_tx = the (snd (tx_ring_init (Some zero_tx_ring) (replicate 2 zero_frame) 2))"

lemma demo_ring_inits:
  "rx_ring_init (Some zero_rx_ring) (replicate 2 zero_frame) 2 = (True, Some demo_rx)"
  "tx_ring_init (Some zero_tx_ring) (replicate 2 zero_frame) 2 = (True, Some demo_tx)"
  by (simp_all add: demo_rx_def demo_tx_def)

definition demo_frame :: "u8 \<Rightarrow> time_us \<Rightarrow> hal_frame" where
  "demo_frame fd t = zero_frame\<lparr>fr_interface_id := 7, fr_can_id := 0x123, fr_is_fd := fd,
     fr_length := 8, fr_timestamp_us := t\<rparr>"

lemma hal_rings_are_fifo_witness:
  "\<exists>acc out r' acc' out' t'.
     fifo_run rx_put rx_get [Some (demo_frame 0 1), Some (demo_frame 0 2), Some (demo_frame 0 3), None] demo_rx
       = (acc, out, r') \<and> acc = out @ rx_contents r' \<and> acc' = out' @ tx_contents t'"
proof -
  let ?ops = "[Some (demo_frame 0 1), Some (demo_frame 0 2), Some (demo_frame 0 3), None]"
  obtain acc out r' where r: "fifo_run rx_put rx_get ?ops demo_rx = (acc, out, r')"
    by (cases "fifo_run rx_put rx_get ?ops demo_rx") auto
  obtain acc' out' t' where t: "fifo_run tx_put tx_get ?ops demo_tx = (acc', out', t')"
    by (cases "fifo_run tx_put tx_get ?ops demo_tx") auto
  from hal_rings_are_fifo [OF demo_ring_inits(1) _ demo_ring_inits(2) _ r t] r show ?thesis
    by auto
qed

subsection \<open>A HAL on the simulated bus\<close>

definition demo_sink :: event_sink where
  "demo_sink = ((demo_queue 4 2)\<lparr>eq_hard_fault_hooks := all_hooks\<rparr>, [])"

definition demo_config :: "(mock_hal, virtual_clock option) hal_config" where
  "demo_config = \<lparr>cf_backend = Some mock_backend, cf_context = mock_hal_init,
     cf_clock = Some (clock_from_virtual (Some \<lparr>vc_now_us = 5\<rparr>)),
     cf_ifaces = Some [zero_if_config\<lparr>ic_interface_id := 7\<rparr>], cf_iface_count = 1,
     cf_rx_rings = Some [Some demo_rx], cf_tx_rings = Some [Some demo_tx]\<rparr>"

definition demo_hal :: "(mock_hal, virtual_clock option) hal" where
  "demo_hal = the (snd (hal_init
     (Some (hal_setup mock_backend (clock_from_virtual None) [] demo_config)) (Some demo_config)))"

lemma demo_sink_facts:
  "queue_inv (fst demo_sink)" "hooks_complete (eq_hard_fault_hooks (fst demo_sink))"
  using demo_queue_fresh(1)
  by (simp_all add: demo_sink_def queue_inv_def queue_wf_def path_a_def queue_events_def
      queue_faults_def queue_ordinary_def hooks_complete_def all_hooks_def)

lemma upt_4: "[0..<4] = [0, 1, 2, 3 :: nat]" by (simp add: upt_rec)

lemma demo_hal_fields:
  "hl_rx_rings demo_hal = [Some demo_rx, None, None, None]"
  "hl_tx_rings demo_hal = [Some demo_tx, None, None, None]" "hl_iface_count demo_hal = 1"
  "hl_backend demo_hal = mock_backend" "hl_initialized demo_hal" "hl_if_last_ts demo_hal = [0, 0, 0, 0]"
  "map tc_can_fd (hl_if_caps demo_hal) = [False, False, False, False]"
  "hl_context demo_hal = snd (mock_hal_open mock_hal_init zero_if_config 0)"
  "ic_interface_id (hl_ifaces demo_hal ! 0) = 7"
  by (simp_all add: demo_hal_def demo_config_def hal_setup_def array4_def HAL_MAX_INTERFACES_def upt_4
      mock_backend_def mock_hal_open_def MOCK_MAX_INTERFACES_def hal_negotiate_def mock_hal_caps_def
      mock_update_def mock_hal_init_def zero_mock_iface_def zero_caps_def clock_from_virtual_def
      numeral_eq_Suc Let_def)

lemma demo_hal_ok: "hal_ok demo_hal demo_sink"
  using demo_sink_facts rx_ring_fresh(1) [OF demo_ring_inits(1)] tx_ring_fresh(1) [OF demo_ring_inits(2)]
    mock.ring_backend_axioms
  by (simp add: hal_ok_def hal_wf_def demo_hal_fields)

subsection \<open>The receive path\<close>

text \<open>C14: A poll returns and does its whole job. On a well-formed, initialised HAL over any backend
  that hands the rings back well formed, with an event queue whose hard-fault hooks are
  installed, polling returns OK; afterwards every configured RX ring is empty with its drop
  counter reset, the HAL and the queue still satisfy their invariants, no FAULT event that was
  queued is lost, and no interface's receive timestamp has gone back.\<close>

lemma hal_poll_drains:
  assumes "hal_ok h s" and "hl_initialized h"
  shows "\<exists>rx faults h' s'. hal_poll_rx (Some h) (Some s) = Some (HAL_OK, Some (rx, faults), Some h', Some s') \<and>
    hal_ok h' s' \<and> (\<forall>i < hl_iface_count h. rx_drained h' i) \<and>
    queue_faults (fst s) \<subseteq># queue_faults (fst s') \<and>
    (\<forall>i < 4. hl_if_last_ts h ! i \<le> hl_if_last_ts h' ! i)"
proof -
  have "set [0..<hl_iface_count h] \<subseteq> {..<4}"
    using assms(1) by (auto simp: hal_ok_def hal_wf_def)
  from poll_from_after [OF assms(1) this, of 0 0] obtain rx n h' s' where
    p: "hal_poll_from [0..<hl_iface_count h] h s 0 0 = Some (rx, n, h', s')" "hal_after h s h' s'"
      "\<forall>j. rx_drained h j \<or> j \<in> set [0..<hl_iface_count h] \<longrightarrow> rx_drained h' j"
    by blast
  then show ?thesis using assms(2) by (auto simp: hal_after_def)
qed

lemma hal_poll_drains_witness:
  "\<exists>rx faults h' s'. hal_poll_rx (Some demo_hal) (Some demo_sink) =
     Some (HAL_OK, Some (rx, faults), Some h', Some s') \<and> rx_drained h' 0"
  using hal_poll_drains [OF demo_hal_ok demo_hal_fields(5)]
  unfolding demo_hal_fields(3) by fastforce

text \<open>Delivering frames one after the other on one interface; the frames that were delivered.\<close>

fun hal_deliver_all :: "('b, 'c) hal \<Rightarrow> event_sink \<Rightarrow> nat \<Rightarrow> hal_frame list
    \<Rightarrow> (hal_frame list \<times> ('b, 'c) hal \<times> event_sink) option" where
  "hal_deliver_all h s i [] = Some ([], h, s)"
| "hal_deliver_all h s i (f # fs) =
     do { (ok, n, h1, s1) \<leftarrow> hal_deliver_rx h s i f 0;
          (acc, h2, s2) \<leftarrow> hal_deliver_all h1 s1 i fs;
          Some (if ok then f # acc else acc, h2, s2) }"

definition rx_stamps :: "hal_frame list \<Rightarrow> time_us list" where
  "rx_stamps fs = filter (\<lambda>t. t \<noteq> 0) (map fr_timestamp_us fs)"

lemma deliver_all_stamps:
  "hal_ok h s \<Longrightarrow> i < 4 \<Longrightarrow>
   \<exists>acc h' s'. hal_deliver_all h s i fs = Some (acc, h', s') \<and> hal_after h s h' s' \<and>
     sorted_wrt (<) (rx_stamps acc) \<and> (\<forall>t \<in> set (rx_stamps acc). hl_if_last_ts h ! i < t) \<and>
     (\<forall>f \<in> set acc. hal_frame_is_valid (Some f))"
proof (induction fs arbitrary: h s)
  case Nil
  then show ?case using hal_after_refl [OF Nil(1)] by (simp add: rx_stamps_def)
next
  case (Cons f fs)
  show ?case
  proof (cases "rx_refusal h i f")
    case (Some code)
    obtain h1 s1 where d: "hal_deliver_rx h s i f 0 = Some (False, 0 + 1, h1, s1)" "hal_after h s h1 s1"
      "hl_if_last_ts h1 = hl_if_last_ts h"
      by (rule deliver_refused [OF Cons.prems(1) Some])
    from Cons.IH [OF hal_after_ok [OF d(2)] Cons.prems(2)] obtain acc h' s' where
      e: "hal_deliver_all h1 s1 i fs = Some (acc, h', s')" "hal_after h1 s1 h' s'"
        "sorted_wrt (<) (rx_stamps acc)" "\<forall>t \<in> set (rx_stamps acc). hl_if_last_ts h1 ! i < t"
        "\<forall>f \<in> set acc. hal_frame_is_valid (Some f)"
      by blast
    then show ?thesis using d hal_after_trans [OF d(2) e(2)] by simp
  next
    case None
    obtain s1 where d: "hal_deliver_rx h s i f 0 = Some (True, 0, stamp_ts h i f, s1)"
      "hal_after h s (stamp_ts h i f) s1"
      by (rule deliver_accepted [OF Cons.prems(1) None])
    from Cons.IH [OF hal_after_ok [OF d(2)] Cons.prems(2)] obtain acc h' s' where
      e: "hal_deliver_all (stamp_ts h i f) s1 i fs = Some (acc, h', s')" "hal_after (stamp_ts h i f) s1 h' s'"
        "sorted_wrt (<) (rx_stamps acc)" "\<forall>t \<in> set (rx_stamps acc). hl_if_last_ts (stamp_ts h i f) ! i < t"
        "\<forall>f \<in> set acc. hal_frame_is_valid (Some f)"
      by blast
    have valid: "hal_frame_is_valid (Some f)"
      using None by (auto simp: rx_refusal_def simp del: hal_frame_is_valid.simps split: if_splits)
    have lt: "fr_timestamp_us f \<noteq> 0 \<Longrightarrow> hl_if_last_ts h ! i < fr_timestamp_us f"
      using None by (auto simp: rx_refusal_def word_gt_0 not_le simp del: hal_frame_is_valid.simps split: if_splits)
    have at: "hl_if_last_ts (stamp_ts h i f) ! i =
        (if fr_timestamp_us f \<noteq> 0 then fr_timestamp_us f else hl_if_last_ts h ! i)"
      using Cons.prems by (simp add: stamp_ts_def hal_ok_def hal_wf_def)
    have "sorted_wrt (<) (rx_stamps (f # acc))" "\<forall>t \<in> set (rx_stamps (f # acc)). hl_if_last_ts h ! i < t"
      using e(3,4) lt at by (auto simp: rx_stamps_def)
    then show ?thesis using d e(1,5) valid hal_after_trans [OF d(2) e(2)] by simp
  qed
qed

text \<open>C15: Receive timestamps are strictly monotonic per interface. Whatever frames a backend hands
  over, in whatever order, the frames that are delivered to the event queue are valid and their
  hardware timestamps (the non-zero ones) strictly increase, above the interface's watermark.\<close>

lemma hal_delivery_strictly_monotonic:
  assumes "hal_ok h s" and "i < 4"
  shows "\<exists>acc h' s'. hal_deliver_all h s i fs = Some (acc, h', s') \<and>
    sorted_wrt (<) (hl_if_last_ts h ! i # rx_stamps acc) \<and>
    (\<forall>f \<in> set acc. hal_frame_is_valid (Some f))"
  using deliver_all_stamps [OF assms, of fs] by fastforce

lemma hal_delivery_strictly_monotonic_witness:
  "\<exists>acc h' s'. hal_deliver_all demo_hal demo_sink 0 [demo_frame 0 10, demo_frame 0 9, demo_frame 0 11]
     = Some (acc, h', s') \<and> sorted_wrt (<) (hl_if_last_ts demo_hal ! 0 # rx_stamps acc)"
proof -
  have "0 < (4 :: nat)" by simp
  from hal_delivery_strictly_monotonic [OF demo_hal_ok this] show ?thesis by blast
qed

text \<open>CAN FD fails closed. A valid CAN FD frame on an interface that did not negotiate CAN FD is
  refused in both directions: sending returns the unsupported status and leaves every TX ring as
  it was, receiving reports the frame dropped, and in both cases the one event that reaches the
  queue is the PROTOCOL\_UNSUPPORTED fault, never the frame.\<close>

lemma hal_classic_interface_refuses_fd:
  assumes "hal_ok h s" and "hl_initialized h" and "hal_frame_is_valid (Some f)" and "fr_is_fd f \<noteq> 0"
    and "i = hal_find_iface h (fr_interface_id f)" and "i < hl_iface_count h"
    and "hl_tx_rings h ! i \<noteq> None" and "\<not> tc_can_fd (hl_if_caps h ! i)"
  shows "(\<exists>h' s'. send_tx h s f = Some (HAL_ERR_UNSUPPORTED, h', s') \<and>
      hl_tx_rings h' = hl_tx_rings h \<and>
      fst s' = push_to (fst s) (hal_fault_event h (fr_interface_id f)
        HAL_FAULT_PROTOCOL_UNSUPPORTED FAULT_SEVERITY_ERROR)) \<and>
    (\<exists>h' s'. hal_deliver_rx h s i f n = Some (False, n + 1, h', s') \<and>
      hl_rx_rings h' = hl_rx_rings h \<and> hl_if_last_ts h' = hl_if_last_ts h \<and>
      fst s' = push_to (fst s) (hal_fault_event h (ic_interface_id (hl_ifaces h ! i))
        HAL_FAULT_PROTOCOL_UNSUPPORTED FAULT_SEVERITY_ERROR))"
proof (intro conjI)
  let ?hr = "hal_count_rejected h i"
  have hr: "hal_after h s ?hr s" using assms(1) by (intro hal_after_same) simp_all
  obtain st h' s' where p: "raise_fault ?hr s (fr_interface_id f) HAL_FAULT_PROTOCOL_UNSUPPORTED
      FAULT_SEVERITY_ERROR = Some (st, h', s')" "hl_tx_rings h' = hl_tx_rings ?hr"
    "fst s' = push_to (fst s) (hal_fault_event ?hr (fr_interface_id f)
        HAL_FAULT_PROTOCOL_UNSUPPORTED FAULT_SEVERITY_ERROR)"
    by (rule raise_fault_after [OF hal_after_ok [OF hr]])
  have ev: "hal_fault_event ?hr a b c = hal_fault_event h a b c" for a b c
    unfolding hal_fault_event_def by simp
  obtain r where "hl_tx_rings h ! i = Some r" using assms(7) by blast
  then show "\<exists>h' s'. send_tx h s f = Some (HAL_ERR_UNSUPPORTED, h', s') \<and>
      hl_tx_rings h' = hl_tx_rings h \<and>
      fst s' = push_to (fst s) (hal_fault_event h (fr_interface_id f)
        HAL_FAULT_PROTOCOL_UNSUPPORTED FAULT_SEVERITY_ERROR)"
    using assms(2-4,6,8) p unfolding ev
    by (simp add: send_tx_def Let_def assms(5) [symmetric] del: hal_frame_is_valid.simps)
  have "rx_refusal h i f = Some HAL_FAULT_PROTOCOL_UNSUPPORTED"
    using assms(3,4,8) by (simp add: rx_refusal_def del: hal_frame_is_valid.simps)
  then obtain h' s' where "hal_deliver_rx h s i f n = Some (False, n + 1, h', s')"
    "hl_rx_rings h' = hl_rx_rings h" "hl_if_last_ts h' = hl_if_last_ts h"
    "fst s' = push_to (fst s) (hal_fault_event h (ic_interface_id (hl_ifaces h ! i))
        HAL_FAULT_PROTOCOL_UNSUPPORTED
        (if HAL_FAULT_PROTOCOL_UNSUPPORTED = HAL_FAULT_MALFORMED_FRAME then FAULT_SEVERITY_WARNING
         else FAULT_SEVERITY_ERROR))"
    by (rule deliver_refused [OF assms(1)])
  then show "\<exists>h' s'. hal_deliver_rx h s i f n = Some (False, n + 1, h', s') \<and>
      hl_rx_rings h' = hl_rx_rings h \<and> hl_if_last_ts h' = hl_if_last_ts h \<and>
      fst s' = push_to (fst s) (hal_fault_event h (ic_interface_id (hl_ifaces h ! i))
        HAL_FAULT_PROTOCOL_UNSUPPORTED FAULT_SEVERITY_ERROR)"
    by (intro exI [of _ h'] exI [of _ s']) simp
qed

lemma hal_classic_interface_refuses_fd_witness:
  "\<exists>h' s'. send_tx demo_hal demo_sink (demo_frame 1 0) = Some (HAL_ERR_UNSUPPORTED, h', s') \<and>
     hl_tx_rings h' = hl_tx_rings demo_hal"
proof -
  have v: "hal_frame_is_valid (Some (demo_frame 1 0))" "fr_is_fd (demo_frame 1 0) \<noteq> 0" by code_simp+
  have f: "0 = hal_find_iface demo_hal (fr_interface_id (demo_frame 1 0))"
    by (simp add: hal_find_iface_def demo_hal_fields demo_frame_def)
  have "\<not> tc_can_fd (hl_if_caps demo_hal ! 0)"
    using demo_hal_fields(7) by (cases "hl_if_caps demo_hal") auto
  moreover have "0 < hl_iface_count demo_hal" "hl_tx_rings demo_hal ! 0 \<noteq> None"
    by (simp_all add: demo_hal_fields)
  ultimately show ?thesis
    using hal_classic_interface_refuses_fd [OF demo_hal_ok demo_hal_fields(5) v f] by blast
qed

subsection \<open>Fault events\<close>

lemma drop_fault_value: "drop_bit 16 (of_nat (hal_fault_value f) :: u32) = 0"
  by (cases f) simp_all

lemma take_fault_value: "take_bit 16 (of_nat (hal_fault_value f) :: u32) = of_nat (hal_fault_value f)"
  by (cases f) (simp_all add: take_bit_word_eq_self)

lemma drop_push_iface: "drop_bit 16 (push_bit 16 (ucast (i :: u16) :: u32)) = ucast i"
proof (rule bit_word_eqI)
  fix n assume "n < LENGTH(32)"
  show "bit (drop_bit 16 (push_bit 16 (ucast i :: u32)) :: u32) n = bit (ucast i :: u32) n"
    using bit_imp_le_length [of i n] by (auto simp: bit_simps)
qed

lemma take_push_iface: "take_bit 16 (push_bit 16 (ucast (i :: u16) :: u32)) = 0"
  by (rule bit_word_eqI) (auto simp: bit_simps)

text \<open>A HAL fault event identifies its source. The event has the FAULT class and the time of the
  HAL clock; from its 32-bit fault code the interface id and the fault are recovered exactly (high
  and low half), so two different (interface, fault) pairs never share a code.\<close>

lemma hal_fault_event_decodes:
  "\<exists>p. ev_payload (hal_fault_event h iface f sev) = Payload_fault p \<and>
     ev_priority_class (hal_fault_event h iface f sev) = PRIORITY_CLASS_FAULT \<and>
     ev_timestamp_us (hal_fault_event h iface f sev) = clock_now_us (Some (hl_clock h)) \<and>
     drop_bit 16 (fr_fault_code p) = ucast iface \<and>
     unat (take_bit 16 (fr_fault_code p)) = hal_fault_value f \<and>
     event_is_valid (Some (hal_fault_event h iface f sev))"
proof -
  have "unat (of_nat (hal_fault_value f) :: u32) = hal_fault_value f"
    using hal_fault_value_less [of f] by (intro unat_of_nat_small) simp
  then show ?thesis
    by (simp add: hal_fault_event_def drop_bit_or take_bit_or drop_fault_value take_fault_value
        drop_push_iface take_push_iface event_type_is_valid_def priority_class_is_valid_def)
qed

subsection \<open>The transmit path on the simulated bus\<close>

lemma mock_capture_all:
  "tx_inv ring \<Longrightarrow> length (tx_contents ring) \<le> n \<Longrightarrow>
   length (mi_tx_capture mif) + length (tx_contents ring) \<le> MOCK_TX_CAPTURE_CAPACITY \<Longrightarrow>
   mi_tx_capture (fst (mock_capture n mif ring)) = mi_tx_capture mif @ tx_contents ring \<and>
   tx_contents (snd (mock_capture n mif ring)) = []"
proof (induction n arbitrary: mif ring)
  case 0
  then have "tx_contents ring = []" by (simp flip: length_0_conv)
  then show ?case by simp
next
  case (Suc n)
  show ?case
  proof (cases "tr_count ring = 0")
    case True
    then have "tx_contents ring = []" by (simp flip: length_0_conv)
    then show ?thesis using True by simp
  next
    case False
    then obtain f r where p: "tx_pop ring = (HAL_OK, r, Some f)" "tx_inv r"
      "tx_contents ring = f # tx_contents r"
      using tx_pop_cases [OF Suc.prems(1)] by auto
    let ?m = "mif\<lparr>mi_tx_capture := mi_tx_capture mif @ [f],
      mi_tx_total_captured := mi_tx_total_captured mif + 1\<rparr>"
    have len: "length (tx_contents ring) = Suc (length (tx_contents r))" using p(3) by simp
    then have room: "length (mi_tx_capture mif) < MOCK_TX_CAPTURE_CAPACITY"
      using Suc.prems(3) by linarith
    have "tx_inv (r\<lparr>tr_sent := tr_sent r + 1\<rparr>)" using p(2) by simp
    from Suc.IH [OF this, of ?m] have
      "mi_tx_capture (fst (mock_capture n ?m (r\<lparr>tr_sent := tr_sent r + 1\<rparr>))) =
         mi_tx_capture ?m @ tx_contents r \<and>
       tx_contents (snd (mock_capture n ?m (r\<lparr>tr_sent := tr_sent r + 1\<rparr>))) = []"
      using Suc.prems(2,3) len by simp
    then show ?thesis using False p room by simp
  qed
qed

text \<open>What is sent on the simulated bus arrives on it. Sending a valid frame the interface can
  carry, with room in the TX ring, returns OK, raises no event, empties the TX ring and appends
  to the capture first the frames that were already queued, in order, and then this frame.\<close>

lemma hal_send_reaches_mock_bus:
  assumes "hal_ok h s" and "hl_initialized h" and "hl_backend h = mock_backend"
    and "i = hal_find_iface h (fr_interface_id f)" and "i < hl_iface_count h"
    and "hl_tx_rings h ! i = Some r" and "length (tx_contents r) < unat (tr_capacity r)"
    and "hal_frame_is_valid (Some f)" and "fr_is_fd f = 0 \<or> tc_can_fd (hl_if_caps h ! i)"
    and "length (mk_ifaces (hl_context h)) = 4"
    and "mi_next_drain_fault (mk_ifaces (hl_context h) ! i) = HAL_FAULT_NONE"
    and "length (mi_tx_capture (mk_ifaces (hl_context h) ! i)) + length (tx_contents r) < 256"
  shows "\<exists>h' r'. send_tx h s f = Some (HAL_OK, h', s) \<and>
    mi_tx_capture (mk_ifaces (hl_context h') ! i) =
      mi_tx_capture (mk_ifaces (hl_context h) ! i) @ tx_contents r @ [f] \<and>
    hl_tx_rings h' ! i = Some r' \<and> tx_contents r' = []"
proof -
  have i4: "i < 4" using assms(1,5) by (simp add: hal_ok_def hal_wf_def)
  have inv: "tx_inv r" using hal_ok_tx [OF assms(1) i4 assms(6)] .
  obtain st r1 where p: "tx_push r f = (st, r1)" by (cases "tx_push r f")
  have "tx_put r f = (st = HAL_OK, r1)" by (simp add: tx_put_def p)
  from tx_fifo.put_contents [OF inv this] assms(7)
  have r1: "st = HAL_OK" "tx_contents r1 = tx_contents r @ [f]" "tx_inv r1" by auto
  let ?mif = "mk_ifaces (hl_context h) ! i"
  let ?mif1 = "?mif\<lparr>mi_drain_call_count := mi_drain_call_count ?mif + 1, mi_next_drain_fault := HAL_FAULT_NONE\<rparr>"
  obtain mif2 r2 where c: "mock_capture (unat (tr_count r1)) ?mif1 r1 = (mif2, r2)"
    by (cases "mock_capture (unat (tr_count r1)) ?mif1 r1")
  have len: "length (tx_contents r1) = Suc (length (tx_contents r))" using r1(2) by simp
  have "length (tx_contents r1) \<le> unat (tr_count r1)" by simp
  moreover have "length (mi_tx_capture ?mif1) + length (tx_contents r1) \<le> MOCK_TX_CAPTURE_CAPACITY"
    using assms(12) unfolding len by (simp add: MOCK_TX_CAPTURE_CAPACITY_def)
  ultimately have "mi_tx_capture mif2 = mi_tx_capture ?mif1 @ tx_contents r1 \<and> tx_contents r2 = []"
    using mock_capture_all [OF r1(3), of "unat (tr_count r1)" ?mif1] unfolding c by simp
  then have cap: "mi_tx_capture mif2 = mi_tx_capture ?mif @ tx_contents r @ [f]" "tx_contents r2 = []"
    using r1(2) by simp_all
  let ?h1 = "set_tx_ring h i r1"
  let ?ctx = "mock_update (\<lambda>_. mif2) (hl_context h) i"
  have len4: "length (hl_tx_rings h) = 4" using hal_ok_length [OF assms(1)] by simp
  have d: "mock_hal_drain_tx (hl_context h) i r1 HAL_FAULT_NONE = (HAL_OK, ?ctx, r2, HAL_FAULT_NONE)"
    using i4 assms(11) c
    by (simp add: mock_hal_drain_tx_def MOCK_MAX_INTERFACES_def HAL_MAX_INTERFACES_def Let_def)
  have ctx: "hl_context ?h1 = hl_context h" by (simp add: set_tx_ring_def)
  have "hal_drain_backend ?h1 i = (set_tx_ring (?h1\<lparr>hl_context := ?ctx\<rparr>) i r2, HAL_FAULT_NONE)"
    using d i4 len4 assms(3) ctx by (simp add: hal_drain_backend_def mock_backend_def)
  then have "send_tx h s f = Some (HAL_OK, set_tx_ring (?h1\<lparr>hl_context := ?ctx\<rparr>) i r2, s)"
    using assms(2,5,6,8,9) p r1(1)
    by (auto simp: send_tx_def Let_def assms(4) [symmetric] hal_status_is_ok_def
        simp del: hal_frame_is_valid.simps)
  then show ?thesis
    using cap i4 len4 assms(10)
    by (simp add: set_tx_ring_def mock_update_def MOCK_MAX_INTERFACES_def HAL_MAX_INTERFACES_def)
qed

lemma hal_send_reaches_mock_bus_witness:
  "\<exists>h'. send_tx demo_hal demo_sink (demo_frame 0 0) = Some (HAL_OK, h', demo_sink) \<and>
     mi_tx_capture (mk_ifaces (hl_context h') ! 0) = [demo_frame 0 0]"
proof -
  have v: "hal_frame_is_valid (Some (demo_frame 0 0))" by code_simp
  have f: "0 = hal_find_iface demo_hal (fr_interface_id (demo_frame 0 0))"
    by (simp add: hal_find_iface_def demo_hal_fields demo_frame_def)
  have t: "tx_contents demo_tx = []" "tr_capacity demo_tx = 2"
    using tx_ring_fresh(2,3) [OF demo_ring_inits(2)] by simp_all
  have m: "mk_ifaces (hl_context demo_hal) ! 0 =
      zero_mock_iface\<lparr>mi_inject_timestamp_step := 1000, mi_opened := True\<rparr>"
    "length (mk_ifaces (hl_context demo_hal)) = 4"
    by (simp_all add: demo_hal_fields mock_hal_open_def mock_update_def mock_hal_init_def
        MOCK_MAX_INTERFACES_def HAL_MAX_INTERFACES_def)
  have rest: "hl_tx_rings demo_hal ! 0 = Some demo_tx" "0 < hl_iface_count demo_hal"
    "fr_is_fd (demo_frame 0 0) = 0 \<or> tc_can_fd (hl_if_caps demo_hal ! 0)"
    "length (tx_contents demo_tx) < unat (tr_capacity demo_tx)"
    "mi_next_drain_fault (mk_ifaces (hl_context demo_hal) ! 0) = HAL_FAULT_NONE"
    "length (mi_tx_capture (mk_ifaces (hl_context demo_hal) ! 0)) + length (tx_contents demo_tx) < 256"
    using t by (simp_all add: demo_hal_fields(1-7,9) demo_frame_def m zero_mock_iface_def del: length_tx_contents)
  show ?thesis
    using hal_send_reaches_mock_bus [OF demo_hal_ok demo_hal_fields(5) demo_hal_fields(4) f
        rest(2) rest(1) rest(4) v rest(3) m(2) rest(5) rest(6)]
    by (auto simp: t m zero_mock_iface_def)
qed

subsection \<open>Initialisation\<close>

lemma close_below:
  "k \<le> length (hl_if_states h) \<Longrightarrow> be_close (hl_backend h) = Some close \<Longrightarrow>
   hl_if_states (hal_close_below k h) = replicate k IF_STATE_DOWN @ drop k (hl_if_states h) \<and>
   hl_context (hal_close_below k h) = foldl close (hl_context h) (rev [0..<k]) \<and>
   hl_initialized (hal_close_below k h) = hl_initialized h \<and>
   hl_if_last_fault (hal_close_below k h) = hl_if_last_fault h"
proof (induction k arbitrary: h)
  case (Suc k)
  let ?h1 = "h\<lparr>hl_context := close (hl_context h) k, hl_if_states := (hl_if_states h)[k := IF_STATE_DOWN]\<rparr>"
  have lt: "k < length (hl_if_states h)" using Suc.prems(1) by simp
  have "drop k ((hl_if_states h)[k := IF_STATE_DOWN]) = IF_STATE_DOWN # drop (Suc k) (hl_if_states h)"
    using lt by (simp add: drop_update_swap flip: Cons_nth_drop_Suc)
  then show ?case
    using Suc.IH [of ?h1] Suc.prems replicate_append_same [of k IF_STATE_DOWN] by simp
qed simp

lemma negotiate_fields [simp]:
  "hl_backend (hal_negotiate h i) = hl_backend h" "hl_if_states (hal_negotiate h i) = hl_if_states h"
  "hl_initialized (hal_negotiate h i) = hl_initialized h"
  "hl_if_last_fault (hal_negotiate h i) = hl_if_last_fault h"
  by (simp_all add: hal_negotiate_def Let_def split: option.splits prod.splits)

text \<open>Interfaces below \<open>i\<close> are up, the others down, nothing initialised.\<close>

definition if_opening :: "('b, 'c) hal \<Rightarrow> nat \<Rightarrow> bool" where
  "if_opening h i \<longleftrightarrow> length (hl_if_states h) = 4 \<and> length (hl_if_last_fault h) = 4 \<and>
     (\<forall>j < 4. hl_if_states h ! j = (if j < i then IF_STATE_UP else IF_STATE_DOWN)) \<and>
     \<not> hl_initialized h"

lemma open_failed:
  assumes "if_opening h i" and "i < 4" and "be_close (hl_backend h) = Some close"
  shows "(\<forall>j < 4. hl_if_states (hal_open_failed h i) ! j = IF_STATE_DOWN) \<and>
    \<not> hl_initialized (hal_open_failed h i) \<and>
    hl_context (hal_open_failed h i) = foldl close (hl_context h) (rev [0..<i]) \<and>
    hl_if_last_fault (hal_open_failed h i) ! i = HAL_FAULT_INIT_FAILED"
proof -
  let ?h = "h\<lparr>hl_if_states := (hl_if_states h)[i := IF_STATE_DOWN],
       hl_if_last_fault := (hl_if_last_fault h)[i := HAL_FAULT_INIT_FAILED],
       hl_if_faults := (hl_if_faults h)[i := hl_if_faults h ! i + 1]\<rparr>"
  have "i \<le> length (hl_if_states ?h)" using assms(1,2) by (simp add: if_opening_def)
  note c = close_below [OF this, of close]
  show ?thesis
    using c assms by (auto simp: hal_open_failed_def if_opening_def nth_append nth_list_update)
qed

lemma open_from:
  "if_opening h i \<Longrightarrow> i \<le> n \<Longrightarrow> n \<le> 4 \<Longrightarrow> be_close (hl_backend h) = Some close \<Longrightarrow>
   hal_open_from [i..<n] h = (ok, h') \<Longrightarrow>
   (if ok then hl_initialized h' \<and> (\<forall>j < n. hl_if_states h' ! j = IF_STATE_UP)
    else \<not> hl_initialized h' \<and> (\<forall>j < 4. hl_if_states h' ! j = IF_STATE_DOWN) \<and>
      (\<exists>k < n. \<exists>ctx. hl_context h' = foldl close ctx (rev [0..<k]) \<and>
         hl_if_last_fault h' ! k = HAL_FAULT_INIT_FAILED))"
proof (induction "n - i" arbitrary: h i)
  case 0
  then show ?case by (auto simp: if_opening_def)
next
  case (Suc d)
  have i: "i < n" "i < 4" using Suc by simp_all
  have upt: "[i..<n] = i # [Suc i..<n]" using i by (simp add: upt_conv_Cons)
  show ?case
  proof (cases "be_open (hl_backend h)")
    case None
    then show ?thesis
      using Suc.prems(5) open_failed [OF Suc.prems(1) i(2) Suc.prems(4)] i(1) unfolding upt by auto
  next
    case (Some op)
    obtain r ctx where op: "op (hl_context h) (hl_ifaces h ! i) i = (r, ctx)"
      by (cases "op (hl_context h) (hl_ifaces h ! i) i")
    show ?thesis
    proof (cases r)
      case False
      have "if_opening (h\<lparr>hl_context := ctx\<rparr>) i" using Suc.prems(1) by (simp add: if_opening_def)
      from open_failed [OF this i(2)] show ?thesis
        using Suc.prems(4,5) Some op False i(1) unfolding upt by auto
    next
      case True
      let ?h1 = "hal_negotiate (h\<lparr>hl_context := ctx, hl_if_states := (hl_if_states h)[i := IF_STATE_UP]\<rparr>) i"
      have "hal_open_from [Suc i..<n] ?h1 = (ok, h')"
        using Suc.prems(5) Some op True unfolding upt by simp
      moreover have "if_opening ?h1 (Suc i)"
        using Suc.prems(1) i(2) by (auto simp: if_opening_def nth_list_update less_Suc_eq)
      moreover have "d = n - Suc i" "Suc i \<le> n" using Suc.hyps(2) i(1) by simp_all
      moreover have "be_close (hl_backend ?h1) = Some close" using Suc.prems(4) by simp
      ultimately show ?thesis using Suc.hyps(1) Suc.prems(3) by blast
    qed
  qed
qed

text \<open>C16: Initialisation is all or nothing. With an accepted configuration, either every configured
  interface is UP and the HAL is initialised, or no interface is: all are DOWN, the HAL is not
  initialised, one interface carries the INIT\_FAILED fault, and the interfaces opened before
  it have been closed through the backend, the last opened first.\<close>

lemma hal_init_all_or_nothing:
  assumes "hal_init (Some h0) (Some cfg) = (ok, Some h)"
    and "cf_backend cfg = Some be" and "be_close be = Some close"
    and "cf_clock cfg = Some clk" and "clock_is_valid (Some clk)" and "cf_ifaces cfg = Some ifaces"
    and "0 < cf_iface_count cfg" and "cf_iface_count cfg \<le> 4"
  shows "if ok then hl_initialized h \<and> (\<forall>j < cf_iface_count cfg. hl_if_states h ! j = IF_STATE_UP)
    else \<not> hl_initialized h \<and> (\<forall>j < 4. hl_if_states h ! j = IF_STATE_DOWN) \<and>
      (\<exists>k < cf_iface_count cfg. \<exists>ctx. hl_context h = foldl close ctx (rev [0..<k]) \<and>
         hl_if_last_fault h ! k = HAL_FAULT_INIT_FAILED)"
proof -
  let ?h = "hal_setup be clk ifaces cfg"
  have "hal_open_from [0..<cf_iface_count cfg] ?h = (ok, h)"
    using assms by (auto simp: HAL_MAX_INTERFACES_def split: prod.splits)
  moreover have "if_opening ?h 0" by (simp add: if_opening_def hal_setup_def HAL_MAX_INTERFACES_def Let_def)
  moreover have "be_close (hl_backend ?h) = Some close"
    using assms(3) by (simp add: hal_setup_def Let_def)
  ultimately show ?thesis using open_from [of ?h 0 "cf_iface_count cfg" close ok h] assms(8) by simp
qed

text \<open>A simulated bus whose second interface cannot be opened.\<close>

definition half_config :: "(mock_hal, virtual_clock option) hal_config" where
  "half_config = demo_config\<lparr>cf_backend := Some (mock_backend\<lparr>be_open := Some (\<lambda>m c i.
       if i = 1 then (False, m) else mock_hal_open m c i)\<rparr>),
     cf_ifaces := Some [zero_if_config, zero_if_config], cf_iface_count := 2,
     cf_rx_rings := None, cf_tx_rings := None\<rparr>"

lemma hal_init_all_or_nothing_witness:
  "\<exists>h. hal_init (Some demo_hal) (Some half_config) = (False, Some h) \<and> hl_if_states h ! 0 = IF_STATE_DOWN"
proof -
  have f: "\<not> fst (hal_init (Some demo_hal) (Some half_config))" 
    by (simp add: half_config_def demo_config_def hal_setup_def array4_def HAL_MAX_INTERFACES_def
        upt_4 mock_backend_def mock_hal_open_def MOCK_MAX_INTERFACES_def hal_negotiate_def
        mock_hal_caps_def mock_update_def clock_from_virtual_def numeral_eq_Suc Let_def)
  obtain ok oh where r: "hal_init (Some demo_hal) (Some half_config) = (ok, oh)"
    by (cases "hal_init (Some demo_hal) (Some half_config)")
  then obtain h where h: "oh = Some h"
    by (auto simp: half_config_def demo_config_def split: prod.splits if_splits)
  note t = hal_init_all_or_nothing [OF r [unfolded h]]
  have "cf_backend half_config = Some (mock_backend\<lparr>be_open := Some (\<lambda>m c i.
       if i = 1 then (False, m) else mock_hal_open m c i)\<rparr>)"
    "cf_clock half_config = Some (clock_from_virtual (Some \<lparr>vc_now_us = 5\<rparr>))"
    "cf_ifaces half_config = Some [zero_if_config, zero_if_config]" "cf_iface_count half_config = 2"
    by (simp_all add: half_config_def demo_config_def)
  then show ?thesis
    using t [of _ mock_hal_close] f r h by (auto simp: mock_backend_def clock_from_virtual_def)
qed

end
