(* ===== verification/Transport_Types.thy ===== *)
theory Transport_Types
  imports Event_Types
begin

text \<open>
  core/transport/src/types.c and types.h: the ISO-TP statuses, session states, faults,
  configuration, counters, and the STmin codec. Bounds are those of classic CAN frames.
\<close>

definition TP_FRAME_MAX_LENGTH :: nat where "TP_FRAME_MAX_LENGTH = 8"
definition TP_SF_DATA_MAX :: nat where "TP_SF_DATA_MAX = 7"
definition TP_FF_DATA_MAX :: nat where "TP_FF_DATA_MAX = 6"
definition TP_CF_DATA_MAX :: nat where "TP_CF_DATA_MAX = 7"
definition TP_MESSAGE_MAX_LENGTH :: nat where "TP_MESSAGE_MAX_LENGTH = 4095"
definition TP_DEFAULT_N_AS_MS :: u32 where "TP_DEFAULT_N_AS_MS = 1000"
definition TP_DEFAULT_N_BS_MS :: u32 where "TP_DEFAULT_N_BS_MS = 1000"
definition TP_DEFAULT_N_CR_MS :: u32 where "TP_DEFAULT_N_CR_MS = 1000"
definition TP_DEFAULT_MAX_WAIT_FRAMES :: u8 where "TP_DEFAULT_MAX_WAIT_FRAMES = 8"

lemmas tp_bounds = TP_FRAME_MAX_LENGTH_def TP_SF_DATA_MAX_def TP_FF_DATA_MAX_def
  TP_CF_DATA_MAX_def TP_MESSAGE_MAX_LENGTH_def

datatype tp_status =
    TP_OK
  | TP_OK_MESSAGE
  | TP_ERR_NULL
  | TP_ERR_ARGUMENT
  | TP_ERR_STATE
  | TP_ERR_CAPACITY
  | TP_ERR_PROTOCOL
  | TP_ERR_OVERFLOW
  | TP_ERR_TIMEOUT

fun tp_status_value :: "tp_status \<Rightarrow> int" where
  "tp_status_value TP_OK = 0"
| "tp_status_value TP_OK_MESSAGE = 1"
| "tp_status_value TP_ERR_NULL = - 1"
| "tp_status_value TP_ERR_ARGUMENT = - 2"
| "tp_status_value TP_ERR_STATE = - 3"
| "tp_status_value TP_ERR_CAPACITY = - 4"
| "tp_status_value TP_ERR_PROTOCOL = - 5"
| "tp_status_value TP_ERR_OVERFLOW = - 6"
| "tp_status_value TP_ERR_TIMEOUT = - 7"

definition tp_status_is_ok :: "tp_status \<Rightarrow> bool" where
  "tp_status_is_ok status \<longleftrightarrow> tp_status_value status \<ge> tp_status_value TP_OK"

fun tp_status_name :: "tp_status \<Rightarrow> string" where
  "tp_status_name TP_OK = ''OK''"
| "tp_status_name TP_OK_MESSAGE = ''OK_MESSAGE''"
| "tp_status_name TP_ERR_NULL = ''ERR_NULL''"
| "tp_status_name TP_ERR_ARGUMENT = ''ERR_ARGUMENT''"
| "tp_status_name TP_ERR_STATE = ''ERR_STATE''"
| "tp_status_name TP_ERR_CAPACITY = ''ERR_CAPACITY''"
| "tp_status_name TP_ERR_PROTOCOL = ''ERR_PROTOCOL''"
| "tp_status_name TP_ERR_OVERFLOW = ''ERR_OVERFLOW''"
| "tp_status_name TP_ERR_TIMEOUT = ''ERR_TIMEOUT''"

datatype tp_state =
    TP_STATE_IDLE | TP_STATE_FIRST_FRAME | TP_STATE_CONSECUTIVE_FRAME | TP_STATE_FLOW_CONTROL
  | TP_STATE_COUNT

fun tp_state_name :: "tp_state \<Rightarrow> string" where
  "tp_state_name TP_STATE_IDLE = ''IDLE''"
| "tp_state_name TP_STATE_FIRST_FRAME = ''FIRST_FRAME''"
| "tp_state_name TP_STATE_CONSECUTIVE_FRAME = ''CONSECUTIVE_FRAME''"
| "tp_state_name TP_STATE_FLOW_CONTROL = ''FLOW_CONTROL''"
| "tp_state_name TP_STATE_COUNT = ''INVALID''"

datatype tp_fault_code =
    TP_FAULT_NONE | TP_FAULT_PROTOCOL | TP_FAULT_BUFFER_OVERFLOW | TP_FAULT_TIMEOUT | TP_FAULT_COUNT

fun tp_fault_value :: "tp_fault_code \<Rightarrow> u32" where
  "tp_fault_value TP_FAULT_NONE = 0"
| "tp_fault_value TP_FAULT_PROTOCOL = 1"
| "tp_fault_value TP_FAULT_BUFFER_OVERFLOW = 2"
| "tp_fault_value TP_FAULT_TIMEOUT = 3"
| "tp_fault_value TP_FAULT_COUNT = 4"

fun tp_fault_name :: "tp_fault_code \<Rightarrow> string" where
  "tp_fault_name TP_FAULT_NONE = ''TRANSPORT_NONE''"
| "tp_fault_name TP_FAULT_PROTOCOL = ''TRANSPORT_PROTOCOL_FAULT''"
| "tp_fault_name TP_FAULT_BUFFER_OVERFLOW = ''TRANSPORT_BUFFER_OVERFLOW''"
| "tp_fault_name TP_FAULT_TIMEOUT = ''TRANSPORT_TIMEOUT''"
| "tp_fault_name TP_FAULT_COUNT = ''INVALID''"

fun tp_fault_severity :: "tp_fault_code \<Rightarrow> fault_severity" where
  "tp_fault_severity TP_FAULT_PROTOCOL = FAULT_SEVERITY_WARNING"
| "tp_fault_severity TP_FAULT_BUFFER_OVERFLOW = FAULT_SEVERITY_WARNING"
| "tp_fault_severity TP_FAULT_TIMEOUT = FAULT_SEVERITY_WARNING"
| "tp_fault_severity TP_FAULT_NONE = FAULT_SEVERITY_INFO"
| "tp_fault_severity TP_FAULT_COUNT = FAULT_SEVERITY_INFO"

record tp_config =
  tf_n_as_ms :: u32
  tf_n_bs_ms :: u32
  tf_n_cr_ms :: u32
  tf_fc_block_size :: u8
  tf_fc_stmin :: u8
  tf_max_wait_frames :: u8
  tf_source_id :: source_id

record tp_counters =
  tn_ticks :: u32
  tn_frames_rx :: u32
  tn_frames_tx :: u32
  tn_frames_tx_declined :: u32
  tn_sf_rx :: u32
  tn_ff_rx :: u32
  tn_cf_rx :: u32
  tn_fc_rx :: u32
  tn_sf_tx :: u32
  tn_ff_tx :: u32
  tn_cf_tx :: u32
  tn_fc_tx :: u32
  tn_rx_messages_completed :: u32
  tn_rx_messages_delivered :: u32
  tn_rx_messages_dropped_no_sink :: u32
  tn_tx_messages_requested :: u32
  tn_tx_messages_completed :: u32
  tn_timeouts :: u32
  tn_protocol_faults :: u32
  tn_buffer_overflows :: u32
  tn_wait_frames_rx :: u32
  tn_faults_raised :: u32

definition zero_tp_counters :: tp_counters where
  [init_defs]: "zero_tp_counters = \<lparr>tn_ticks = 0, tn_frames_rx = 0, tn_frames_tx = 0,
     tn_frames_tx_declined = 0, tn_sf_rx = 0, tn_ff_rx = 0, tn_cf_rx = 0, tn_fc_rx = 0,
     tn_sf_tx = 0, tn_ff_tx = 0, tn_cf_tx = 0, tn_fc_tx = 0, tn_rx_messages_completed = 0,
     tn_rx_messages_delivered = 0, tn_rx_messages_dropped_no_sink = 0,
     tn_tx_messages_requested = 0, tn_tx_messages_completed = 0, tn_timeouts = 0,
     tn_protocol_faults = 0, tn_buffer_overflows = 0, tn_wait_frames_rx = 0,
     tn_faults_raised = 0\<rparr>"

definition zero_tp_config :: tp_config where
  [init_defs]: "zero_tp_config = \<lparr>tf_n_as_ms = 0, tf_n_bs_ms = 0, tf_n_cr_ms = 0,
     tf_fc_block_size = 0, tf_fc_stmin = 0, tf_max_wait_frames = 0, tf_source_id = 0\<rparr>"

subsection \<open>The STmin codec\<close>

definition stmin_decode_us :: "u8 \<Rightarrow> u32" where
  "stmin_decode_us stmin =
     (if stmin \<le> 0x7F then ucast stmin * 1000
      else if stmin \<ge> 0xF1 \<and> stmin \<le> 0xF9 then ucast (stmin - 0xF0) * 100
      else 0)"

definition stmin_encode_ms :: "u32 \<Rightarrow> u8" where
  "stmin_encode_ms ms = (if ms > 127 then 0x7F else ucast ms)"

end
