(* ===== verification/Transport.thy ===== *)
theory Transport
  imports Transport_Types Hal
begin

text \<open>
  core/transport/src/engine.c and engine.h: one ISO-TP engine with a reception and a
  transmission session. The sink is two callbacks over the contents \<open>'w\<close> of its user data,
  which the engine's state carries. A C array with a length (a frame, a pending slot) is the
  list of its used bytes; a NULL buffer is the empty list. The callbacks do not re-enter the
  engine. Raising a fault pushes an event and may never return: such a call is \<open>None\<close>.
\<close>

datatype tp_frame_kind =
    TX_FRAME_NONE | TX_FRAME_SF | TX_FRAME_FF | TX_FRAME_CF | TX_FRAME_FC | TX_FRAME_COUNT

record 'w tp_sink =
  sk_on_frame_tx :: "('w \<Rightarrow> tp_frame_kind \<times> u8 list \<Rightarrow> bool \<times> 'w) option"
  sk_on_message :: "('w \<Rightarrow> u8 list \<Rightarrow> 'w) option"

record tp_pending =
  pd_kind :: tp_frame_kind
  pd_data :: "u8 list"
  pd_armed :: bool
  pd_first_attempt_us :: time_us

record ('w, 'c) transport =
  tp_config :: tp_config
  tp_n_as_ms :: u32
  tp_n_bs_ms :: u32
  tp_n_cr_ms :: u32
  tp_max_wait_frames :: u8
  tp_rx_buffer :: "u8 list"
  tp_rx_capacity :: nat
  tp_tx_buffer :: "u8 list"
  tp_tx_capacity :: nat
  tp_sink :: "'w tp_sink option"
  tp_world :: 'w
  tp_queue :: "event_sink option"
  tp_clock :: "'c clock option"
  tp_now_us :: time_us
  tp_ticks :: u64
  tp_owns_time_base :: bool
  tp_rx_state :: tp_state
  tp_rx_total :: u16
  tp_rx_received :: u16
  tp_rx_expected_sn :: u8
  tp_rx_deadline_us :: time_us
  tp_rx_pending_fc :: tp_pending
  tp_tx_state :: tp_state
  tp_tx_total :: u16
  tp_tx_sent :: u16
  tp_tx_next_sn :: u8
  tp_tx_block_remaining :: u16
  tp_tx_block_unlimited :: bool
  tp_tx_stmin_us :: u32
  tp_tx_next_cf_us :: time_us
  tp_tx_deadline_us :: time_us
  tp_tx_wait_frames :: u8
  tp_tx_pending :: tp_pending
  tp_counters :: tp_counters
  tp_last_fault :: tp_fault_code
  tp_initialized :: bool

text \<open>\<open>memset(buf, 0, n)\<close>\<close>

definition zero_prefix :: "nat \<Rightarrow> u8 list \<Rightarrow> u8 list" where
  "zero_prefix n buf = write_at buf 0 (replicate n 0)"

definition count_tp :: "(tp_counters \<Rightarrow> tp_counters) \<Rightarrow> ('w, 'c) transport \<Rightarrow> ('w, 'c) transport" where
  "count_tp f tp = tp\<lparr>tp_counters := f (tp_counters tp)\<rparr>"

subsection \<open>Helpers\<close>

definition tp_can_transmit :: "('w, 'c) transport \<Rightarrow> bool" where
  "tp_can_transmit tp \<longleftrightarrow> tp_sink tp \<noteq> None \<and> sk_on_frame_tx (the (tp_sink tp)) \<noteq> None"

fun count_frame_kind :: "tp_frame_kind \<Rightarrow> tp_counters \<Rightarrow> tp_counters" where
  "count_frame_kind TX_FRAME_SF c = c\<lparr>tn_sf_tx := tn_sf_tx c + 1\<rparr>"
| "count_frame_kind TX_FRAME_FF c = c\<lparr>tn_ff_tx := tn_ff_tx c + 1\<rparr>"
| "count_frame_kind TX_FRAME_CF c = c\<lparr>tn_cf_tx := tn_cf_tx c + 1\<rparr>"
| "count_frame_kind TX_FRAME_FC c = c\<lparr>tn_fc_tx := tn_fc_tx c + 1\<rparr>"
| "count_frame_kind TX_FRAME_NONE c = c"
| "count_frame_kind TX_FRAME_COUNT c = c"

definition tp_emit_frame ::
    "('w, 'c) transport \<Rightarrow> tp_frame_kind \<Rightarrow> u8 list \<Rightarrow> bool \<times> ('w, 'c) transport" where
  "tp_emit_frame tp kind frame =
     (let declined = count_tp (\<lambda>c. c\<lparr>tn_frames_tx_declined := tn_frames_tx_declined c + 1\<rparr>)
      in if \<not> tp_can_transmit tp then (False, declined tp)
         else case the (sk_on_frame_tx (the (tp_sink tp))) (tp_world tp) (kind, frame) of
           (False, w) \<Rightarrow> (False, declined (tp\<lparr>tp_world := w\<rparr>))
         | (True, w) \<Rightarrow>
             (True, count_tp (\<lambda>c. count_frame_kind kind (c\<lparr>tn_frames_tx := tn_frames_tx c + 1\<rparr>))
                (tp\<lparr>tp_world := w\<rparr>)))"

definition tp_pending_store ::
    "tp_pending \<Rightarrow> tp_frame_kind \<Rightarrow> u8 list \<Rightarrow> time_us \<Rightarrow> tp_pending" where
  "tp_pending_store slot kind frame now =
     (let s = slot\<lparr>pd_kind := kind, pd_data := frame\<rparr>
      in if \<not> pd_armed s then s\<lparr>pd_armed := True, pd_first_attempt_us := now\<rparr> else s)"

definition tp_pending_clear :: "tp_pending \<Rightarrow> tp_pending" where
  "tp_pending_clear slot = slot\<lparr>pd_kind := TX_FRAME_NONE, pd_data := [], pd_armed := False\<rparr>"

fun count_fault :: "tp_fault_code \<Rightarrow> tp_counters \<Rightarrow> tp_counters" where
  "count_fault TP_FAULT_PROTOCOL c = c\<lparr>tn_protocol_faults := tn_protocol_faults c + 1\<rparr>"
| "count_fault TP_FAULT_BUFFER_OVERFLOW c = c\<lparr>tn_buffer_overflows := tn_buffer_overflows c + 1\<rparr>"
| "count_fault TP_FAULT_TIMEOUT c = c\<lparr>tn_timeouts := tn_timeouts c + 1\<rparr>"
| "count_fault TP_FAULT_NONE c = c"
| "count_fault TP_FAULT_COUNT c = c"

definition tp_fault_event :: "('w, 'c) transport \<Rightarrow> tp_fault_code \<Rightarrow> event" where
  "tp_fault_event tp fault =
     zero_event\<lparr>ev_type := EVENT_TYPE_FAULT_RAISED, ev_priority_class := PRIORITY_CLASS_FAULT,
       ev_timestamp_us := tp_now_us tp,
       ev_payload := Payload_fault \<lparr>
         fr_fault_code = push_bit 16 (tf_source_id (tp_config tp) AND 0xFFFF) OR tp_fault_value fault,
         fr_severity = tp_fault_severity fault, fr_source_id = tf_source_id (tp_config tp)\<rparr>\<rparr>"

definition tp_raise_fault ::
    "('w, 'c) transport \<Rightarrow> tp_fault_code \<Rightarrow> ('w, 'c) transport option" where
  "tp_raise_fault tp0 fault =
     (let tp = count_tp (\<lambda>c. (count_fault fault c)\<lparr>tn_faults_raised := tn_faults_raised c + 1\<rparr>)
            (tp0\<lparr>tp_last_fault := fault\<rparr>)
      in case tp_queue tp of
        None \<Rightarrow> Some tp
      | Some s \<Rightarrow> do { (_, s1) \<leftarrow> push_event s (tp_fault_event tp fault);
                       Some (tp\<lparr>tp_queue := Some s1\<rparr>) })"

definition tp_abort_rx :: "('w, 'c) transport \<Rightarrow> ('w, 'c) transport" where
  "tp_abort_rx tp0 =
     (let tp = (if tp_rx_state tp0 \<noteq> TP_STATE_IDLE \<and> tp_rx_buffer tp0 \<noteq> [] \<and> tp_rx_received tp0 > 0
            then tp0\<lparr>tp_rx_buffer := zero_prefix (unat (tp_rx_received tp0)) (tp_rx_buffer tp0)\<rparr>
            else tp0)
      in tp\<lparr>tp_rx_state := TP_STATE_IDLE, tp_rx_total := 0, tp_rx_received := 0,
           tp_rx_expected_sn := 0, tp_rx_deadline_us := 0,
           tp_rx_pending_fc := tp_pending_clear (tp_rx_pending_fc tp)\<rparr>)"

definition tp_abort_tx :: "('w, 'c) transport \<Rightarrow> ('w, 'c) transport" where
  "tp_abort_tx tp0 =
     (let tp = (if tp_tx_state tp0 \<noteq> TP_STATE_IDLE \<and> tp_tx_buffer tp0 \<noteq> [] \<and> tp_tx_total tp0 > 0
            then tp0\<lparr>tp_tx_buffer := zero_prefix (unat (tp_tx_total tp0)) (tp_tx_buffer tp0)\<rparr>
            else tp0)
      in tp\<lparr>tp_tx_state := TP_STATE_IDLE, tp_tx_total := 0, tp_tx_sent := 0, tp_tx_next_sn := 0,
           tp_tx_block_remaining := 0, tp_tx_block_unlimited := False, tp_tx_stmin_us := 0,
           tp_tx_next_cf_us := 0, tp_tx_deadline_us := 0, tp_tx_wait_frames := 0,
           tp_tx_pending := tp_pending_clear (tp_tx_pending tp)\<rparr>)"

definition tp_deliver_rx_message :: "('w, 'c) transport \<Rightarrow> ('w, 'c) transport" where
  "tp_deliver_rx_message tp0 =
     (let tp = count_tp (\<lambda>c. c\<lparr>tn_rx_messages_completed := tn_rx_messages_completed c + 1\<rparr>) tp0
      in case Option.bind (tp_sink tp) sk_on_message of
        Some f \<Rightarrow>
          (count_tp (\<lambda>c. c\<lparr>tn_rx_messages_delivered := tn_rx_messages_delivered c + 1\<rparr>) tp)
            \<lparr>tp_world := f (tp_world tp) (take (unat (tp_rx_received tp)) (tp_rx_buffer tp))\<rparr>
      | None \<Rightarrow>
          count_tp (\<lambda>c. c\<lparr>tn_rx_messages_dropped_no_sink := tn_rx_messages_dropped_no_sink c + 1\<rparr>) tp)"

definition tp_deadline :: "time_us \<Rightarrow> u32 \<Rightarrow> time_us" where
  "tp_deadline now ms = time_sat_add now (ucast ms * 1000)"

definition tp_arm_n_cr :: "('w, 'c) transport \<Rightarrow> ('w, 'c) transport" where
  "tp_arm_n_cr tp = tp\<lparr>tp_rx_deadline_us := tp_deadline (tp_now_us tp) (tp_n_cr_ms tp)\<rparr>"

definition tp_arm_n_bs :: "('w, 'c) transport \<Rightarrow> ('w, 'c) transport" where
  "tp_arm_n_bs tp = tp\<lparr>tp_tx_deadline_us := tp_deadline (tp_now_us tp) (tp_n_bs_ms tp)\<rparr>"

definition tp_pending_n_as_expired :: "('w, 'c) transport \<Rightarrow> tp_pending \<Rightarrow> bool" where
  "tp_pending_n_as_expired tp slot \<longleftrightarrow>
     (if \<not> pd_armed slot then False
      else tp_now_us tp \<ge> tp_deadline (pd_first_attempt_us slot) (tp_n_as_ms tp))"

definition tp_pump_rx_pending :: "('w, 'c) transport \<Rightarrow> ('w, 'c) transport option" where
  "tp_pump_rx_pending tp =
     (if pd_kind (tp_rx_pending_fc tp) = TX_FRAME_NONE then Some tp
      else if tp_pending_n_as_expired tp (tp_rx_pending_fc tp)
      then do { tp1 \<leftarrow> tp_raise_fault tp TP_FAULT_TIMEOUT; Some (tp_abort_rx tp1) }
      else case tp_emit_frame tp TX_FRAME_FC (pd_data (tp_rx_pending_fc tp)) of
        (ok, tp1) \<Rightarrow>
          Some (if ok then tp1\<lparr>tp_rx_pending_fc := tp_pending_clear (tp_rx_pending_fc tp1)\<rparr> else tp1))"

subsection \<open>Consecutive Frames\<close>

definition tp_cf_chunk :: "('w, 'c) transport \<Rightarrow> nat" where
  "tp_cf_chunk tp = min (unat (tp_tx_total tp - tp_tx_sent tp)) TP_CF_DATA_MAX"

definition tp_cf_frame :: "('w, 'c) transport \<Rightarrow> u8 list" where
  "tp_cf_frame tp = (0x20 OR (tp_tx_next_sn tp AND 0x0F)) #
     take (tp_cf_chunk tp) (drop (unat (tp_tx_sent tp)) (tp_tx_buffer tp))"

text \<open>What an accepted Consecutive Frame with sequence number \<open>sn\<close> and \<open>chunk\<close> bytes changes.\<close>

definition tp_cf_sent :: "('w, 'c) transport \<Rightarrow> u8 \<Rightarrow> u16 \<Rightarrow> ('w, 'c) transport" where
  "tp_cf_sent tp sn chunk =
     tp\<lparr>tp_tx_sent := tp_tx_sent tp + chunk, tp_tx_next_sn := (sn + 1) AND 0x0F,
        tp_tx_block_remaining :=
          (if \<not> tp_tx_block_unlimited tp \<and> tp_tx_block_remaining tp > 0
           then tp_tx_block_remaining tp - 1 else tp_tx_block_remaining tp),
        tp_tx_next_cf_us := time_sat_add (tp_now_us tp) (ucast (tp_tx_stmin_us tp))\<rparr>"

definition tp_tx_complete :: "('w, 'c) transport \<Rightarrow> ('w, 'c) transport" where
  "tp_tx_complete tp =
     (count_tp (\<lambda>c. c\<lparr>tn_tx_messages_completed := tn_tx_messages_completed c + 1\<rparr>) tp)
       \<lparr>tp_tx_state := TP_STATE_IDLE, tp_tx_total := 0, tp_tx_sent := 0\<rparr>"

definition tp_await_fc :: "('w, 'c) transport \<Rightarrow> ('w, 'c) transport" where
  "tp_await_fc tp = tp_arm_n_bs (tp\<lparr>tp_tx_state := TP_STATE_FLOW_CONTROL\<rparr>)"

definition tp_cf_due :: "('w, 'c) transport \<Rightarrow> bool" where
  "tp_cf_due tp \<longleftrightarrow> tp_tx_state tp = TP_STATE_CONSECUTIVE_FRAME \<and> tp_tx_sent tp < tp_tx_total tp \<and>
     (tp_tx_block_unlimited tp \<or> tp_tx_block_remaining tp > 0) \<and> tp_now_us tp \<ge> tp_tx_next_cf_us tp"

lemma tp_emit_frame_fields [simp]:
  "tp_config (snd (tp_emit_frame tp kind frame)) = tp_config tp"
  "tp_n_as_ms (snd (tp_emit_frame tp kind frame)) = tp_n_as_ms tp"
  "tp_n_bs_ms (snd (tp_emit_frame tp kind frame)) = tp_n_bs_ms tp"
  "tp_n_cr_ms (snd (tp_emit_frame tp kind frame)) = tp_n_cr_ms tp"
  "tp_max_wait_frames (snd (tp_emit_frame tp kind frame)) = tp_max_wait_frames tp"
  "tp_rx_buffer (snd (tp_emit_frame tp kind frame)) = tp_rx_buffer tp"
  "tp_rx_capacity (snd (tp_emit_frame tp kind frame)) = tp_rx_capacity tp"
  "tp_tx_buffer (snd (tp_emit_frame tp kind frame)) = tp_tx_buffer tp"
  "tp_tx_capacity (snd (tp_emit_frame tp kind frame)) = tp_tx_capacity tp"
  "tp_sink (snd (tp_emit_frame tp kind frame)) = tp_sink tp"
  "tp_queue (snd (tp_emit_frame tp kind frame)) = tp_queue tp"
  "tp_clock (snd (tp_emit_frame tp kind frame)) = tp_clock tp"
  "tp_now_us (snd (tp_emit_frame tp kind frame)) = tp_now_us tp"
  "tp_ticks (snd (tp_emit_frame tp kind frame)) = tp_ticks tp"
  "tp_owns_time_base (snd (tp_emit_frame tp kind frame)) = tp_owns_time_base tp"
  "tp_rx_state (snd (tp_emit_frame tp kind frame)) = tp_rx_state tp"
  "tp_rx_total (snd (tp_emit_frame tp kind frame)) = tp_rx_total tp"
  "tp_rx_received (snd (tp_emit_frame tp kind frame)) = tp_rx_received tp"
  "tp_rx_expected_sn (snd (tp_emit_frame tp kind frame)) = tp_rx_expected_sn tp"
  "tp_rx_deadline_us (snd (tp_emit_frame tp kind frame)) = tp_rx_deadline_us tp"
  "tp_rx_pending_fc (snd (tp_emit_frame tp kind frame)) = tp_rx_pending_fc tp"
  "tp_tx_state (snd (tp_emit_frame tp kind frame)) = tp_tx_state tp"
  "tp_tx_total (snd (tp_emit_frame tp kind frame)) = tp_tx_total tp"
  "tp_tx_sent (snd (tp_emit_frame tp kind frame)) = tp_tx_sent tp"
  "tp_tx_next_sn (snd (tp_emit_frame tp kind frame)) = tp_tx_next_sn tp"
  "tp_tx_block_remaining (snd (tp_emit_frame tp kind frame)) = tp_tx_block_remaining tp"
  "tp_tx_block_unlimited (snd (tp_emit_frame tp kind frame)) = tp_tx_block_unlimited tp"
  "tp_tx_stmin_us (snd (tp_emit_frame tp kind frame)) = tp_tx_stmin_us tp"
  "tp_tx_next_cf_us (snd (tp_emit_frame tp kind frame)) = tp_tx_next_cf_us tp"
  "tp_tx_deadline_us (snd (tp_emit_frame tp kind frame)) = tp_tx_deadline_us tp"
  "tp_tx_wait_frames (snd (tp_emit_frame tp kind frame)) = tp_tx_wait_frames tp"
  "tp_tx_pending (snd (tp_emit_frame tp kind frame)) = tp_tx_pending tp"
  "tp_last_fault (snd (tp_emit_frame tp kind frame)) = tp_last_fault tp"
  "tp_initialized (snd (tp_emit_frame tp kind frame)) = tp_initialized tp"
  by (simp_all add: tp_emit_frame_def count_tp_def Let_def split: prod.splits bool.splits)

lemma tp_cf_chunk_bounds:
  assumes "tp_tx_sent tp < tp_tx_total tp"
  shows "0 < tp_cf_chunk tp" and "tp_cf_chunk tp \<le> 7"
    and "unat (tp_tx_sent tp) + tp_cf_chunk tp \<le> unat (tp_tx_total tp)"
    and "unat (of_nat (tp_cf_chunk tp) :: u16) = tp_cf_chunk tp"
    and "unat (tp_tx_sent tp + of_nat (tp_cf_chunk tp)) = unat (tp_tx_sent tp) + tp_cf_chunk tp"
proof -
  have lt: "unat (tp_tx_sent tp) < unat (tp_tx_total tp)" using assms by (simp add: word_less_nat_alt)
  have sub: "unat (tp_tx_total tp - tp_tx_sent tp) = unat (tp_tx_total tp) - unat (tp_tx_sent tp)"
    using lt by (simp add: unat_minus_le)
  show "0 < tp_cf_chunk tp" "tp_cf_chunk tp \<le> 7"
    using lt sub by (simp_all add: tp_cf_chunk_def tp_bounds)
  show le: "unat (tp_tx_sent tp) + tp_cf_chunk tp \<le> unat (tp_tx_total tp)"
    using lt sub by (simp add: tp_cf_chunk_def)
  show c: "unat (of_nat (tp_cf_chunk tp) :: u16) = tp_cf_chunk tp"
    using \<open>tp_cf_chunk tp \<le> 7\<close> by (simp add: unat_of_nat_small)
  have "unat (tp_tx_total tp) < 65536" by (rule unat_u16_lt)
  then show "unat (tp_tx_sent tp + of_nat (tp_cf_chunk tp)) = unat (tp_tx_sent tp) + tp_cf_chunk tp"
    using le c by (simp add: unat_plus_small)
qed

lemma tp_cf_progress:
  assumes "tp_cf_due tp" and "tp_emit_frame tp TX_FRAME_CF frame = (ok, tp1)"
  shows "unat (tp_tx_total (tp_cf_sent tp1 sn (of_nat (tp_cf_chunk tp)))) -
      unat (tp_tx_sent (tp_cf_sent tp1 sn (of_nat (tp_cf_chunk tp))))
    < unat (tp_tx_total tp) - unat (tp_tx_sent tp)"
proof -
  have lt: "tp_tx_sent tp < tp_tx_total tp" using assms(1) by (simp add: tp_cf_due_def)
  have "tp_tx_total tp1 = tp_tx_total tp" "tp_tx_sent tp1 = tp_tx_sent tp"
    using assms(2) tp_emit_frame_fields(22-24) [of tp TX_FRAME_CF frame] by simp_all
  then show ?thesis
    using tp_cf_chunk_bounds [OF lt] lt by (simp add: tp_cf_sent_def word_less_nat_alt)
qed

text \<open>The burst of one tick. Every accepted frame advances \<open>tx_sent\<close>, so the loop ends.\<close>

function tp_tx_pump_cf :: "('w, 'c) transport \<Rightarrow> ('w, 'c) transport" where
  "tp_tx_pump_cf tp =
     (if \<not> tp_cf_due tp then tp
      else let frame = tp_cf_frame tp
           in case tp_emit_frame tp TX_FRAME_CF frame of
             (False, tp1) \<Rightarrow>
               tp1\<lparr>tp_tx_pending := tp_pending_store (tp_tx_pending tp1) TX_FRAME_CF frame (tp_now_us tp1)\<rparr>
           | (True, tp1) \<Rightarrow>
               let tp2 = tp_cf_sent tp1 (tp_tx_next_sn tp1) (of_nat (tp_cf_chunk tp))
               in if tp_tx_sent tp2 \<ge> tp_tx_total tp2 then tp_tx_complete tp2
                  else if \<not> tp_tx_block_unlimited tp2 \<and> tp_tx_block_remaining tp2 = 0
                  then tp_await_fc tp2
                  else tp_tx_pump_cf tp2)"
  by pat_completeness auto
termination
  by (relation "measure (\<lambda>tp. unat (tp_tx_total tp) - unat (tp_tx_sent tp))")
    (simp, drule sym, simp add: tp_cf_progress)

declare tp_tx_pump_cf.simps [simp del]

text \<open>A retried frame that the sink accepts moves the session on by its kind.\<close>

definition tp_pending_accepted :: "('w, 'c) transport \<Rightarrow> ('w, 'c) transport" where
  "tp_pending_accepted tp =
     (let slot = tp_tx_pending tp;
          chunk = of_nat (length (pd_data slot)) - 1;
          cleared = tp\<lparr>tp_tx_pending := tp_pending_clear slot\<rparr>
      in case pd_kind slot of
        TX_FRAME_SF \<Rightarrow>
          count_tp (\<lambda>c. c\<lparr>tn_tx_messages_completed := tn_tx_messages_completed c + 1\<rparr>) cleared
      | TX_FRAME_FF \<Rightarrow>
          tp_arm_n_bs (cleared\<lparr>tp_tx_sent := of_nat TP_FF_DATA_MAX,
            tp_tx_state := TP_STATE_FLOW_CONTROL, tp_tx_wait_frames := 0\<rparr>)
      | TX_FRAME_CF \<Rightarrow>
          (let tp1 = tp_cf_sent cleared (pd_data slot ! 0 AND 0x0F) chunk
           in if tp_tx_sent tp1 \<ge> tp_tx_total tp1 then tp_tx_complete tp1
              else if \<not> tp_tx_block_unlimited tp1 \<and> tp_tx_block_remaining tp1 = 0
              then tp_await_fc tp1
              else tp1)
      | _ \<Rightarrow> cleared)"

definition tp_pump_tx :: "('w, 'c) transport \<Rightarrow> ('w, 'c) transport option" where
  "tp_pump_tx tp =
     (if pd_kind (tp_tx_pending tp) \<noteq> TX_FRAME_NONE then
        if tp_pending_n_as_expired tp (tp_tx_pending tp)
        then do { tp1 \<leftarrow> tp_raise_fault tp TP_FAULT_TIMEOUT; Some (tp_abort_tx tp1) }
        else case tp_emit_frame tp (pd_kind (tp_tx_pending tp)) (pd_data (tp_tx_pending tp)) of
          (ok, tp1) \<Rightarrow> Some (tp_tx_pump_cf (if ok then tp_pending_accepted tp1 else tp1))
      else Some (tp_tx_pump_cf tp))"

subsection \<open>Reception\<close>

definition tp_protocol_abort_rx ::
    "('w, 'c) transport \<Rightarrow> (tp_status \<times> ('w, 'c) transport) option" where
  "tp_protocol_abort_rx tp =
     do { tp1 \<leftarrow> tp_raise_fault tp TP_FAULT_PROTOCOL; Some (TP_ERR_PROTOCOL, tp_abort_rx tp1) }"

definition tp_protocol_abort_tx ::
    "('w, 'c) transport \<Rightarrow> (tp_status \<times> ('w, 'c) transport) option" where
  "tp_protocol_abort_tx tp =
     do { tp1 \<leftarrow> tp_raise_fault tp TP_FAULT_PROTOCOL; Some (TP_ERR_PROTOCOL, tp_abort_tx tp1) }"

definition tp_fail ::
    "('w, 'c) transport \<Rightarrow> tp_fault_code \<Rightarrow> tp_status \<Rightarrow> (tp_status \<times> ('w, 'c) transport) option" where
  "tp_fail tp fault status = do { tp1 \<leftarrow> tp_raise_fault tp fault; Some (status, tp1) }"

definition tp_rx_finish :: "('w, 'c) transport \<Rightarrow> ('w, 'c) transport" where
  "tp_rx_finish tp = (tp_deliver_rx_message tp)
     \<lparr>tp_rx_state := TP_STATE_IDLE, tp_rx_total := 0, tp_rx_received := 0\<rparr>"

definition tp_rx_handle_sf ::
    "('w, 'c) transport \<Rightarrow> u8 list \<Rightarrow> (tp_status \<times> ('w, 'c) transport) option" where
  "tp_rx_handle_sf tp0 data =
     (let dl = unat (data ! 0 AND 0x0F);
          tp = count_tp (\<lambda>c. c\<lparr>tn_sf_rx := tn_sf_rx c + 1\<rparr>) tp0
      in if tp_rx_state tp \<noteq> TP_STATE_IDLE then tp_protocol_abort_rx tp
         else if dl = 0 \<or> dl > TP_SF_DATA_MAX \<or> length data \<noteq> dl + 1
         then tp_fail tp TP_FAULT_PROTOCOL TP_ERR_PROTOCOL
         else if dl > tp_rx_capacity tp then tp_fail tp TP_FAULT_BUFFER_OVERFLOW TP_ERR_OVERFLOW
         else Some (TP_OK_MESSAGE, tp_rx_finish
           (tp\<lparr>tp_rx_buffer := write_at (tp_rx_buffer tp) 0 (take dl (drop 1 data)),
               tp_rx_received := of_nat dl, tp_rx_total := of_nat dl\<rparr>)))"

text \<open>Send a Flow Control frame; it stays pending when the sink declines it.\<close>

definition tp_send_fc :: "('w, 'c) transport \<Rightarrow> u8 list \<Rightarrow> ('w, 'c) transport" where
  "tp_send_fc tp0 fc =
     (let tp = tp0\<lparr>tp_rx_pending_fc :=
            tp_pending_store (tp_rx_pending_fc tp0) TX_FRAME_FC fc (tp_now_us tp0)\<rparr>
      in case tp_emit_frame tp TX_FRAME_FC fc of
        (ok, tp1) \<Rightarrow>
          if ok then tp1\<lparr>tp_rx_pending_fc := tp_pending_clear (tp_rx_pending_fc tp1)\<rparr> else tp1)"

definition tp_ff_total :: "u8 list \<Rightarrow> u16" where
  "tp_ff_total data = push_bit 8 (ucast (data ! 0 AND 0x0F)) OR ucast (data ! 1)"

definition tp_rx_handle_ff ::
    "('w, 'c) transport \<Rightarrow> u8 list \<Rightarrow> (tp_status \<times> ('w, 'c) transport) option" where
  "tp_rx_handle_ff tp0 data =
     (let tp = count_tp (\<lambda>c. c\<lparr>tn_ff_rx := tn_ff_rx c + 1\<rparr>) tp0
      in if tp_rx_state tp \<noteq> TP_STATE_IDLE then tp_protocol_abort_rx tp
         else if length data \<noteq> TP_FRAME_MAX_LENGTH then tp_fail tp TP_FAULT_PROTOCOL TP_ERR_PROTOCOL
         else let total = tp_ff_total data
         in if unat total < TP_SF_DATA_MAX + 1 then tp_fail tp TP_FAULT_PROTOCOL TP_ERR_PROTOCOL
            else if unat total > tp_rx_capacity tp
            then tp_fail (tp_send_fc tp [0x32, 0, 0]) TP_FAULT_BUFFER_OVERFLOW TP_ERR_OVERFLOW
            else
              let tp1 = tp_arm_n_cr (tp\<lparr>tp_rx_buffer :=
                      write_at (tp_rx_buffer tp) 0 (take TP_FF_DATA_MAX (drop 2 data)),
                    tp_rx_total := total, tp_rx_received := of_nat TP_FF_DATA_MAX,
                    tp_rx_expected_sn := 1, tp_rx_state := TP_STATE_FIRST_FRAME\<rparr>)
              in Some (TP_OK, tp_send_fc tp1
                   [0x30, tf_fc_block_size (tp_config tp1), tf_fc_stmin (tp_config tp1)]))"

definition tp_rx_handle_cf ::
    "('w, 'c) transport \<Rightarrow> u8 list \<Rightarrow> (tp_status \<times> ('w, 'c) transport) option" where
  "tp_rx_handle_cf tp0 data =
     (let sn = data ! 0 AND 0x0F;
          tp = count_tp (\<lambda>c. c\<lparr>tn_cf_rx := tn_cf_rx c + 1\<rparr>) tp0
      in if tp_rx_state tp \<noteq> TP_STATE_FIRST_FRAME then tp_fail tp TP_FAULT_PROTOCOL TP_ERR_PROTOCOL
         else if sn \<noteq> tp_rx_expected_sn tp then tp_protocol_abort_rx tp
         else let chunk = min (unat (tp_rx_total tp - tp_rx_received tp)) TP_CF_DATA_MAX
         in if length data \<noteq> chunk + 1 then tp_protocol_abort_rx tp
            else
              let tp1 = tp_arm_n_cr (tp\<lparr>tp_rx_buffer :=
                      write_at (tp_rx_buffer tp) (unat (tp_rx_received tp)) (take chunk (drop 1 data)),
                    tp_rx_received := tp_rx_received tp + of_nat chunk,
                    tp_rx_expected_sn := (sn + 1) AND 0x0F\<rparr>)
              in if tp_rx_received tp1 \<ge> tp_rx_total tp1
                 then Some (TP_OK_MESSAGE, tp_rx_finish tp1)
                 else Some (TP_OK, tp1))"

definition tp_rx_handle_fc ::
    "('w, 'c) transport \<Rightarrow> u8 list \<Rightarrow> (tp_status \<times> ('w, 'c) transport) option" where
  "tp_rx_handle_fc tp0 data =
     (let tp = count_tp (\<lambda>c. c\<lparr>tn_fc_rx := tn_fc_rx c + 1\<rparr>) tp0
      in if tp_tx_state tp \<noteq> TP_STATE_FLOW_CONTROL then tp_protocol_abort_tx tp
         else if length data \<noteq> 3 then tp_protocol_abort_tx tp
         else
           let fs = data ! 0 AND 0x0F; bs = data ! 1; stmin = data ! 2
           in if fs = 0 then
                Some (TP_OK, tp\<lparr>tp_tx_state := TP_STATE_CONSECUTIVE_FRAME, tp_tx_wait_frames := 0,
                  tp_tx_block_unlimited := (bs = 0),
                  tp_tx_block_remaining := (if bs = 0 then 0 else ucast bs),
                  tp_tx_stmin_us := stmin_decode_us stmin, tp_tx_next_cf_us := tp_now_us tp\<rparr>)
              else if fs = 1 then
                let tp1 = (count_tp (\<lambda>c. c\<lparr>tn_wait_frames_rx := tn_wait_frames_rx c + 1\<rparr>) tp)
                      \<lparr>tp_tx_wait_frames := tp_tx_wait_frames tp + 1\<rparr>
                in if tp_tx_wait_frames tp1 > tp_max_wait_frames tp1 then tp_protocol_abort_tx tp1
                   else Some (TP_OK, tp_arm_n_bs tp1)
              else if fs = 2 then
                do { tp1 \<leftarrow> tp_raise_fault tp TP_FAULT_BUFFER_OVERFLOW;
                     Some (TP_ERR_OVERFLOW, tp_abort_tx tp1) }
              else tp_protocol_abort_tx tp)"

subsection \<open>The public operations\<close>

definition zero_pending :: tp_pending where
  [init_defs]: "zero_pending = \<lparr>pd_kind = TX_FRAME_NONE, pd_data = [], pd_armed = False, pd_first_attempt_us = 0\<rparr>"

definition zero_transport :: "'w \<Rightarrow> ('w, 'c) transport" where
  [init_defs]: "zero_transport w = \<lparr>tp_config = zero_tp_config, tp_n_as_ms = 0, tp_n_bs_ms = 0,
     tp_n_cr_ms = 0, tp_max_wait_frames = 0, tp_rx_buffer = [], tp_rx_capacity = 0,
     tp_tx_buffer = [], tp_tx_capacity = 0, tp_sink = None, tp_world = w, tp_queue = None,
     tp_clock = None, tp_now_us = 0, tp_ticks = 0, tp_owns_time_base = False,
     tp_rx_state = TP_STATE_IDLE, tp_rx_total = 0, tp_rx_received = 0, tp_rx_expected_sn = 0,
     tp_rx_deadline_us = 0, tp_rx_pending_fc = zero_pending, tp_tx_state = TP_STATE_IDLE,
     tp_tx_total = 0, tp_tx_sent = 0, tp_tx_next_sn = 0, tp_tx_block_remaining = 0,
     tp_tx_block_unlimited = False, tp_tx_stmin_us = 0, tp_tx_next_cf_us = 0,
     tp_tx_deadline_us = 0, tp_tx_wait_frames = 0, tp_tx_pending = zero_pending,
     tp_counters = zero_tp_counters, tp_last_fault = TP_FAULT_NONE, tp_initialized = False\<rparr>"

definition or_default :: "'a::zero \<Rightarrow> 'a \<Rightarrow> 'a" where
  "or_default x d = (if x \<noteq> 0 then x else d)"

text \<open>\<open>w\<close> is the contents of the sink's user data; NULL buffers are empty lists.\<close>

definition transport_init :: "('w, 'c) transport option \<Rightarrow> tp_config option \<Rightarrow> u8 list \<Rightarrow> nat
    \<Rightarrow> u8 list \<Rightarrow> nat \<Rightarrow> 'w tp_sink option \<Rightarrow> 'w \<Rightarrow> event_sink option \<Rightarrow> 'c clock option
    \<Rightarrow> bool \<times> ('w, 'c) transport option" where
  "transport_init tp config rx_buffer rx_capacity tx_buffer tx_capacity sink w queue clk =
     (if tp = None then (False, None)
      else if (rx_capacity > 0 \<and> rx_buffer = []) \<or> (tx_capacity > 0 \<and> tx_buffer = [])
      then (False, Some (zero_transport w))
      else
        let cfg = (case config of None \<Rightarrow> zero_tp_config | Some c \<Rightarrow> c);
            clk1 = (if clock_is_valid clk then clk else None)
        in (True, Some ((zero_transport w)\<lparr>tp_config := cfg,
             tp_n_as_ms := or_default (tf_n_as_ms cfg) TP_DEFAULT_N_AS_MS,
             tp_n_bs_ms := or_default (tf_n_bs_ms cfg) TP_DEFAULT_N_BS_MS,
             tp_n_cr_ms := or_default (tf_n_cr_ms cfg) TP_DEFAULT_N_CR_MS,
             tp_max_wait_frames := or_default (tf_max_wait_frames cfg) TP_DEFAULT_MAX_WAIT_FRAMES,
             tp_rx_buffer := rx_buffer, tp_rx_capacity := rx_capacity,
             tp_tx_buffer := tx_buffer, tp_tx_capacity := tx_capacity,
             tp_sink := sink, tp_queue := queue, tp_clock := clk1,
             tp_owns_time_base := (clk1 = None), tp_initialized := True\<rparr>)))"

definition transport_is_valid :: "('w, 'c) transport option \<Rightarrow> bool" where
  "transport_is_valid tp \<longleftrightarrow> (case tp of None \<Rightarrow> False | Some t \<Rightarrow> tp_initialized t)"

definition tp_rx_frame ::
    "('w, 'c) transport \<Rightarrow> u8 list option \<Rightarrow> (tp_status \<times> ('w, 'c) transport) option" where
  "tp_rx_frame tp0 frame =
     (if \<not> tp_initialized tp0 then Some (TP_ERR_NULL, tp0)
      else case frame of
        None \<Rightarrow> Some (TP_ERR_ARGUMENT, tp0)
      | Some data \<Rightarrow>
          if length data = 0 \<or> length data > TP_FRAME_MAX_LENGTH then Some (TP_ERR_ARGUMENT, tp0)
          else
            let tp = count_tp (\<lambda>c. c\<lparr>tn_frames_rx := tn_frames_rx c + 1\<rparr>) tp0;
                pci = drop_bit 4 (data ! 0)
            in if pci = 0 then tp_rx_handle_sf tp data
               else if pci = 1 then tp_rx_handle_ff tp data
               else if pci = 2 then tp_rx_handle_cf tp data
               else if pci = 3 then tp_rx_handle_fc tp data
               else do { tp1 \<leftarrow> tp_raise_fault tp TP_FAULT_PROTOCOL;
                         Some (TP_ERR_PROTOCOL,
                           if tp_rx_state tp1 \<noteq> TP_STATE_IDLE then tp_abort_rx tp1 else tp1) })"

definition tp_tx_busy :: "('w, 'c) transport \<Rightarrow> bool" where
  "tp_tx_busy tp \<longleftrightarrow>
     (if \<not> tp_initialized tp then False
      else tp_tx_state tp \<noteq> TP_STATE_IDLE \<or> pd_kind (tp_tx_pending tp) \<noteq> TX_FRAME_NONE)"

definition tp_send ::
    "('w, 'c) transport \<Rightarrow> u8 list option \<Rightarrow> tp_status \<times> ('w, 'c) transport" where
  "tp_send tp0 payload =
     (if \<not> tp_initialized tp0 then (TP_ERR_NULL, tp0)
      else case payload of
        None \<Rightarrow> (TP_ERR_ARGUMENT, tp0)
      | Some data \<Rightarrow>
          let n = length data in
          if n = 0 then (TP_ERR_ARGUMENT, tp0)
          else if n > TP_MESSAGE_MAX_LENGTH then (TP_ERR_CAPACITY, tp0)
          else if tp_tx_busy tp0 then (TP_ERR_STATE, tp0)
          else if n > tp_tx_capacity tp0 then (TP_ERR_CAPACITY, tp0)
          else if \<not> tp_can_transmit tp0 then (TP_ERR_NULL, tp0)
          else
            let tp = count_tp (\<lambda>c. c\<lparr>tn_tx_messages_requested := tn_tx_messages_requested c + 1\<rparr>) tp0
            in if n \<le> TP_SF_DATA_MAX then
                 let frame = of_nat n # data
                 in case tp_emit_frame tp TX_FRAME_SF frame of
                   (True, tp1) \<Rightarrow> (TP_OK, count_tp
                      (\<lambda>c. c\<lparr>tn_tx_messages_completed := tn_tx_messages_completed c + 1\<rparr>) tp1)
                 | (False, tp1) \<Rightarrow> (TP_OK, tp1\<lparr>tp_tx_pending :=
                      tp_pending_store (tp_tx_pending tp1) TX_FRAME_SF frame (tp_now_us tp1)\<rparr>)
               else
                 let tp1 = tp\<lparr>tp_tx_buffer := write_at (tp_tx_buffer tp) 0 data,
                         tp_tx_total := of_nat n, tp_tx_next_sn := 1, tp_tx_wait_frames := 0\<rparr>;
                     frame = [0x10 OR (of_nat (n div 256) AND 0x0F), of_nat (n mod 256)]
                       @ take TP_FF_DATA_MAX data
                 in case tp_emit_frame tp1 TX_FRAME_FF frame of
                   (True, tp2) \<Rightarrow> (TP_OK, tp_arm_n_bs (tp2\<lparr>tp_tx_sent := of_nat TP_FF_DATA_MAX,
                      tp_tx_state := TP_STATE_FLOW_CONTROL\<rparr>))
                 | (False, tp2) \<Rightarrow> (TP_OK, tp2\<lparr>tp_tx_sent := 0, tp_tx_pending :=
                      tp_pending_store (tp_tx_pending tp2) TX_FRAME_FF frame (tp_now_us tp2)\<rparr>))"

definition tp_advance_clock :: "('w, 'c) transport \<Rightarrow> ('w, 'c) transport" where
  "tp_advance_clock tp =
     (let tp1 = (case tp_clock tp of
            Some c \<Rightarrow> (let now = clock_now_us (Some c)
               in if now > tp_now_us tp then tp\<lparr>tp_now_us := now\<rparr> else tp)
          | None \<Rightarrow> tp\<lparr>tp_now_us := time_sat_add (tp_now_us tp) 1000\<rparr>)
      in count_tp (\<lambda>c. c\<lparr>tn_ticks := tn_ticks c + 1\<rparr>) (tp1\<lparr>tp_ticks := tp_ticks tp1 + 1\<rparr>))"

text \<open>The N\_Cr check of the reception session and the N\_Bs check of the transmission session.\<close>

definition tp_check_n_cr :: "('w, 'c) transport \<Rightarrow> ('w, 'c) transport option" where
  "tp_check_n_cr tp =
     (if tp_rx_state tp = TP_STATE_FIRST_FRAME \<and> tp_now_us tp \<ge> tp_rx_deadline_us tp
      then do { tp1 \<leftarrow> tp_raise_fault tp TP_FAULT_TIMEOUT; Some (tp_abort_rx tp1) }
      else Some tp)"

definition tp_check_n_bs :: "('w, 'c) transport \<Rightarrow> ('w, 'c) transport option" where
  "tp_check_n_bs tp =
     (if tp_tx_state tp = TP_STATE_FLOW_CONTROL \<and> tp_now_us tp \<ge> tp_tx_deadline_us tp
      then do { tp1 \<leftarrow> tp_raise_fault tp TP_FAULT_TIMEOUT; Some (tp_abort_tx tp1) }
      else Some tp)"

definition tp_tick :: "('w, 'c) transport \<Rightarrow> (tp_status \<times> ('w, 'c) transport) option" where
  "tp_tick tp0 =
     (if \<not> tp_initialized tp0 then Some (TP_ERR_NULL, tp0)
      else do {
        tp1 \<leftarrow> tp_check_n_cr (tp_advance_clock tp0);
        tp2 \<leftarrow> tp_pump_rx_pending tp1;
        tp3 \<leftarrow> tp_check_n_bs tp2;
        tp4 \<leftarrow> tp_pump_tx tp3;
        Some (if tn_timeouts (tp_counters tp4) > tn_timeouts (tp_counters tp0)
              then TP_ERR_TIMEOUT else TP_OK, tp4)
      })"

fun tp_advance_loop ::
    "nat \<Rightarrow> tp_status \<Rightarrow> ('w, 'c) transport \<Rightarrow> (tp_status \<times> ('w, 'c) transport) option" where
  "tp_advance_loop 0 result tp = Some (result, tp)"
| "tp_advance_loop (Suc n) result tp =
     do { (st, tp1) \<leftarrow> tp_tick tp;
          tp_advance_loop n
            (if tp_status_value st < tp_status_value TP_OK \<and> result = TP_OK then st else result) tp1 }"

definition tp_advance ::
    "('w, 'c) transport \<Rightarrow> u32 \<Rightarrow> (tp_status \<times> ('w, 'c) transport) option" where
  "tp_advance tp tick_count =
     (if \<not> tp_initialized tp then Some (TP_ERR_NULL, tp)
      else tp_advance_loop (unat tick_count) TP_OK tp)"

subsection \<open>Entry points with a NULL check, and inspection\<close>

fun with_tp :: "(('w, 'c) transport \<Rightarrow> (tp_status \<times> ('w, 'c) transport) option)
    \<Rightarrow> ('w, 'c) transport option \<Rightarrow> (tp_status \<times> ('w, 'c) transport option) option" where
  "with_tp f None = Some (TP_ERR_NULL, None)"
| "with_tp f (Some tp) = do { (st, tp1) \<leftarrow> f tp; Some (st, Some tp1) }"

definition transport_rx_frame :: "('w, 'c) transport option \<Rightarrow> u8 list option
    \<Rightarrow> (tp_status \<times> ('w, 'c) transport option) option" where
  "transport_rx_frame tp data = with_tp (\<lambda>t. tp_rx_frame t data) tp"

definition transport_send :: "('w, 'c) transport option \<Rightarrow> u8 list option
    \<Rightarrow> (tp_status \<times> ('w, 'c) transport option) option" where
  "transport_send tp data = with_tp (\<lambda>t. Some (tp_send t data)) tp"

definition transport_tx_busy :: "('w, 'c) transport option \<Rightarrow> bool" where
  "transport_tx_busy tp \<longleftrightarrow> (case tp of None \<Rightarrow> False | Some t \<Rightarrow> tp_tx_busy t)"

definition transport_tick ::
    "('w, 'c) transport option \<Rightarrow> (tp_status \<times> ('w, 'c) transport option) option" where
  "transport_tick = with_tp tp_tick"

definition transport_advance :: "('w, 'c) transport option \<Rightarrow> u32
    \<Rightarrow> (tp_status \<times> ('w, 'c) transport option) option" where
  "transport_advance tp n = with_tp (\<lambda>t. tp_advance t n) tp"

definition tp_inspect :: "'a \<Rightarrow> (('w, 'c) transport \<Rightarrow> 'a) \<Rightarrow> ('w, 'c) transport option \<Rightarrow> 'a" where
  "tp_inspect d f tp = (if transport_is_valid tp then f (the tp) else d)"

definition transport_rx_state :: "('w, 'c) transport option \<Rightarrow> tp_state" where
  "transport_rx_state = tp_inspect TP_STATE_IDLE tp_rx_state"
definition transport_tx_state :: "('w, 'c) transport option \<Rightarrow> tp_state" where
  "transport_tx_state = tp_inspect TP_STATE_IDLE tp_tx_state"
definition transport_counters :: "('w, 'c) transport option \<Rightarrow> tp_counters option" where
  "transport_counters = tp_inspect None (\<lambda>t. Some (tp_counters t))"
definition transport_last_fault :: "('w, 'c) transport option \<Rightarrow> tp_fault_code" where
  "transport_last_fault = tp_inspect TP_FAULT_NONE tp_last_fault"
definition transport_now_us :: "('w, 'c) transport option \<Rightarrow> time_us" where
  "transport_now_us = tp_inspect 0 tp_now_us"

end
