(* ===== verification/Transport_Inv.thy ===== *)
theory Transport_Inv
  imports Transport Hal_Inv
begin

text \<open>
  The invariant of the ISO-TP engine and its preservation by every operation. \<open>rx_ok\<close> and
  \<open>tx_ok\<close> bound the two sessions by their buffers; \<open>queue_ok\<close> is what the engine needs of the
  event queue it reports to; \<open>tp_after\<close> is what an operation may change. That the buffers keep
  their lengths says that every copy into them was in bounds (\<open>write_at\<close>).
\<close>

lemma length_zero_prefix: "n \<le> length buf \<Longrightarrow> length (zero_prefix n buf) = length buf"
  by (simp add: zero_prefix_def length_write_at)

lemma count_tp_fields [simp]:
  "tp_config (count_tp f tp) = tp_config tp" "tp_n_as_ms (count_tp f tp) = tp_n_as_ms tp"
  "tp_n_bs_ms (count_tp f tp) = tp_n_bs_ms tp" "tp_n_cr_ms (count_tp f tp) = tp_n_cr_ms tp"
  "tp_max_wait_frames (count_tp f tp) = tp_max_wait_frames tp"
  "tp_rx_buffer (count_tp f tp) = tp_rx_buffer tp" "tp_rx_capacity (count_tp f tp) = tp_rx_capacity tp"
  "tp_tx_buffer (count_tp f tp) = tp_tx_buffer tp" "tp_tx_capacity (count_tp f tp) = tp_tx_capacity tp"
  "tp_sink (count_tp f tp) = tp_sink tp" "tp_world (count_tp f tp) = tp_world tp"
  "tp_queue (count_tp f tp) = tp_queue tp" "tp_clock (count_tp f tp) = tp_clock tp"
  "tp_now_us (count_tp f tp) = tp_now_us tp" "tp_rx_state (count_tp f tp) = tp_rx_state tp"
  "tp_rx_total (count_tp f tp) = tp_rx_total tp" "tp_rx_received (count_tp f tp) = tp_rx_received tp"
  "tp_rx_expected_sn (count_tp f tp) = tp_rx_expected_sn tp"
  "tp_rx_deadline_us (count_tp f tp) = tp_rx_deadline_us tp"
  "tp_rx_pending_fc (count_tp f tp) = tp_rx_pending_fc tp" "tp_tx_state (count_tp f tp) = tp_tx_state tp"
  "tp_tx_total (count_tp f tp) = tp_tx_total tp" "tp_tx_sent (count_tp f tp) = tp_tx_sent tp"
  "tp_tx_next_sn (count_tp f tp) = tp_tx_next_sn tp"
  "tp_tx_block_remaining (count_tp f tp) = tp_tx_block_remaining tp"
  "tp_tx_block_unlimited (count_tp f tp) = tp_tx_block_unlimited tp"
  "tp_tx_stmin_us (count_tp f tp) = tp_tx_stmin_us tp"
  "tp_tx_next_cf_us (count_tp f tp) = tp_tx_next_cf_us tp"
  "tp_tx_deadline_us (count_tp f tp) = tp_tx_deadline_us tp"
  "tp_tx_wait_frames (count_tp f tp) = tp_tx_wait_frames tp"
  "tp_tx_pending (count_tp f tp) = tp_tx_pending tp"
  "tp_initialized (count_tp f tp) = tp_initialized tp"
  "tp_counters (count_tp f tp) = f (tp_counters tp)"
  by (simp_all add: count_tp_def)

subsection \<open>The invariant\<close>

definition rx_ok :: "('w, 'c) transport \<Rightarrow> bool" where
  "rx_ok tp \<longleftrightarrow> tp_rx_capacity tp \<le> length (tp_rx_buffer tp) \<and>
     tp_rx_state tp \<in> {TP_STATE_IDLE, TP_STATE_FIRST_FRAME} \<and>
     (tp_rx_state tp = TP_STATE_IDLE \<longrightarrow> tp_rx_received tp = 0 \<and> tp_rx_total tp = 0) \<and>
     (tp_rx_state tp = TP_STATE_FIRST_FRAME \<longrightarrow>
        unat (tp_rx_received tp) < unat (tp_rx_total tp) \<and> unat (tp_rx_total tp) \<le> tp_rx_capacity tp)"

text \<open>
  An idle transmission session holds a message only while its First Frame is pending. A pending
  Consecutive Frame may outlive the session (see the duplicate frame of \<open>Transport_Properties\<close>).
\<close>

definition tx_ok :: "('w, 'c) transport \<Rightarrow> bool" where
  "tx_ok tp \<longleftrightarrow> tp_tx_capacity tp \<le> length (tp_tx_buffer tp) \<and>
     unat (tp_tx_total tp) \<le> tp_tx_capacity tp \<and> unat (tp_tx_total tp) \<le> 4095 \<and>
     tp_tx_state tp \<in> {TP_STATE_IDLE, TP_STATE_CONSECUTIVE_FRAME, TP_STATE_FLOW_CONTROL} \<and>
     (tp_tx_state tp \<noteq> TP_STATE_IDLE \<longrightarrow> unat (tp_tx_sent tp) < unat (tp_tx_total tp)) \<and>
     (tp_tx_state tp = TP_STATE_IDLE \<longrightarrow> tp_tx_sent tp = 0 \<and>
        (pd_kind (tp_tx_pending tp) \<noteq> TX_FRAME_FF \<longrightarrow> tp_tx_total tp = 0)) \<and>
     (pd_kind (tp_tx_pending tp) = TX_FRAME_FF \<longrightarrow>
        tp_tx_state tp = TP_STATE_IDLE \<and> 8 \<le> unat (tp_tx_total tp)) \<and>
     (pd_kind (tp_tx_pending tp) = TX_FRAME_CF \<longrightarrow>
        0 < length (pd_data (tp_tx_pending tp)) \<and> length (pd_data (tp_tx_pending tp)) \<le> 8)"

definition queue_ok :: "event_sink option \<Rightarrow> bool" where
  "queue_ok q \<longleftrightarrow> (case q of None \<Rightarrow> True
     | Some s \<Rightarrow> queue_inv (fst s) \<and> hooks_complete (eq_hard_fault_hooks (fst s)))"

definition queue_after :: "event_sink option \<Rightarrow> event_sink option \<Rightarrow> bool" where
  "queue_after q q' \<longleftrightarrow> (case (q, q') of
       (None, None) \<Rightarrow> True
     | (Some s, Some s') \<Rightarrow> queue_faults (fst s) \<subseteq># queue_faults (fst s')
     | _ \<Rightarrow> False)"

lemma queue_after_refl [simp]: "queue_after q q"
  by (cases q) (simp_all add: queue_after_def)

lemma queue_after_trans: "queue_after p q \<Longrightarrow> queue_after q r \<Longrightarrow> queue_after p r"
  by (cases p; cases q; cases r) (auto simp: queue_after_def intro: subset_mset.order_trans)

definition tp_ok :: "('w, 'c) transport \<Rightarrow> bool" where
  "tp_ok tp \<longleftrightarrow> rx_ok tp \<and> tx_ok tp \<and> queue_ok (tp_queue tp) \<and> tp_initialized tp"

definition tp_same :: "('w, 'c) transport \<Rightarrow> ('w, 'c) transport \<Rightarrow> bool" where
  "tp_same tp tp' \<longleftrightarrow> length (tp_rx_buffer tp') = length (tp_rx_buffer tp) \<and>
     length (tp_tx_buffer tp') = length (tp_tx_buffer tp) \<and>
     tp_rx_capacity tp' = tp_rx_capacity tp \<and> tp_tx_capacity tp' = tp_tx_capacity tp \<and>
     tp_now_us tp \<le> tp_now_us tp' \<and> queue_after (tp_queue tp) (tp_queue tp')"

definition tp_after :: "('w, 'c) transport \<Rightarrow> ('w, 'c) transport \<Rightarrow> bool" where
  "tp_after tp tp' \<longleftrightarrow> tp_ok tp' \<and> tp_same tp tp'"

lemma tp_after_refl: "tp_ok tp \<Longrightarrow> tp_after tp tp"
  by (simp add: tp_after_def tp_same_def)

lemma tp_after_trans: "tp_after a b \<Longrightarrow> tp_after b c \<Longrightarrow> tp_after a c"
  unfolding tp_after_def tp_same_def by (auto intro: queue_after_trans)

lemma tp_after_ok: "tp_after a b \<Longrightarrow> tp_ok b"
  by (simp add: tp_after_def)

lemmas tp_ok_defs = tp_after_def tp_same_def tp_ok_def

lemma rx_ok_cong:
  "tp_rx_capacity p = tp_rx_capacity q \<Longrightarrow> tp_rx_buffer p = tp_rx_buffer q \<Longrightarrow>
   tp_rx_state p = tp_rx_state q \<Longrightarrow> tp_rx_received p = tp_rx_received q \<Longrightarrow>
   tp_rx_total p = tp_rx_total q \<Longrightarrow> rx_ok p = rx_ok q"
  by (simp add: rx_ok_def)

lemma tx_ok_cong:
  "tp_tx_capacity p = tp_tx_capacity q \<Longrightarrow> tp_tx_buffer p = tp_tx_buffer q \<Longrightarrow>
   tp_tx_state p = tp_tx_state q \<Longrightarrow> tp_tx_sent p = tp_tx_sent q \<Longrightarrow>
   tp_tx_total p = tp_tx_total q \<Longrightarrow> tp_tx_pending p = tp_tx_pending q \<Longrightarrow> tx_ok p = tx_ok q"
  by (simp add: tx_ok_def)

text \<open>A change outside the two sessions.\<close>

lemma tp_after_outside:
  assumes "tp_ok tp" and "rx_ok tp' = rx_ok tp" and "tx_ok tp' = tx_ok tp"
    and "tp_queue tp' = tp_queue tp" and "tp_initialized tp' = tp_initialized tp"
    and "tp_rx_buffer tp' = tp_rx_buffer tp" and "tp_tx_buffer tp' = tp_tx_buffer tp"
    and "tp_rx_capacity tp' = tp_rx_capacity tp" and "tp_tx_capacity tp' = tp_tx_capacity tp"
    and "tp_now_us tp \<le> tp_now_us tp'"
  shows "tp_after tp tp'"
  using assms by (simp add: tp_ok_defs)

lemma count_after: "tp_ok tp \<Longrightarrow> tp_after tp (count_tp f tp)"
  by (intro tp_after_outside rx_ok_cong tx_ok_cong) simp_all

lemma emit_after: "tp_ok tp \<Longrightarrow> tp_after tp (snd (tp_emit_frame tp kind frame))"
  by (intro tp_after_outside rx_ok_cong tx_ok_cong) simp_all

text \<open>What raising a fault does: counters, last fault, the queue.\<close>

definition tp_faulted :: "('w, 'c) transport \<Rightarrow> tp_fault_code \<Rightarrow> event_sink option \<Rightarrow> ('w, 'c) transport" where
  "tp_faulted tp fault q = (count_tp (\<lambda>c. (count_fault fault c)\<lparr>tn_faults_raised := tn_faults_raised c + 1\<rparr>)
        (tp\<lparr>tp_last_fault := fault\<rparr>))\<lparr>tp_queue := q\<rparr>"

lemma tp_faulted_fields [simp]:
  "tp_config (tp_faulted tp fault q) = tp_config tp"
  "tp_n_as_ms (tp_faulted tp fault q) = tp_n_as_ms tp"
  "tp_n_bs_ms (tp_faulted tp fault q) = tp_n_bs_ms tp"
  "tp_n_cr_ms (tp_faulted tp fault q) = tp_n_cr_ms tp"
  "tp_max_wait_frames (tp_faulted tp fault q) = tp_max_wait_frames tp"
  "tp_rx_buffer (tp_faulted tp fault q) = tp_rx_buffer tp"
  "tp_rx_capacity (tp_faulted tp fault q) = tp_rx_capacity tp"
  "tp_tx_buffer (tp_faulted tp fault q) = tp_tx_buffer tp"
  "tp_tx_capacity (tp_faulted tp fault q) = tp_tx_capacity tp"
  "tp_sink (tp_faulted tp fault q) = tp_sink tp" "tp_world (tp_faulted tp fault q) = tp_world tp"
  "tp_queue (tp_faulted tp fault q) = q" "tp_clock (tp_faulted tp fault q) = tp_clock tp"
  "tp_now_us (tp_faulted tp fault q) = tp_now_us tp"
  "tp_rx_state (tp_faulted tp fault q) = tp_rx_state tp"
  "tp_rx_total (tp_faulted tp fault q) = tp_rx_total tp"
  "tp_rx_received (tp_faulted tp fault q) = tp_rx_received tp"
  "tp_rx_pending_fc (tp_faulted tp fault q) = tp_rx_pending_fc tp"
  "tp_tx_state (tp_faulted tp fault q) = tp_tx_state tp"
  "tp_tx_total (tp_faulted tp fault q) = tp_tx_total tp"
  "tp_tx_sent (tp_faulted tp fault q) = tp_tx_sent tp"
  "tp_tx_pending (tp_faulted tp fault q) = tp_tx_pending tp"
  "tp_last_fault (tp_faulted tp fault q) = fault"
  "tp_initialized (tp_faulted tp fault q) = tp_initialized tp"
  "tp_counters (tp_faulted tp fault q) = (count_fault fault (tp_counters tp))
     \<lparr>tn_faults_raised := tn_faults_raised (tp_counters tp) + 1\<rparr>"
  by (simp_all add: tp_faulted_def count_tp_def)

lemma raise_after:
  assumes "tp_ok tp"
  obtains q where "tp_raise_fault tp fault = Some (tp_faulted tp fault q)"
    "tp_after tp (tp_faulted tp fault q)"
proof -
  have after: "tp_after tp (tp_faulted tp fault q)" if "queue_ok q" "queue_after (tp_queue tp) q" for q
    using assms that by (simp add: tp_ok_defs rx_ok_def tx_ok_def)
  show thesis
  proof (cases "tp_queue tp")
    case None
    then have "tp_raise_fault tp fault = Some (tp_faulted tp fault None)"
      by (simp add: tp_raise_fault_def Let_def count_tp_def tp_faulted_def)
    then show thesis using that after [of None] None by (simp add: queue_ok_def)
  next
    case (Some s)
    then have s: "queue_inv (fst s)" "hooks_complete (eq_hard_fault_hooks (fst s))"
      using assms by (simp_all add: tp_ok_def queue_ok_def)
    obtain st s' ev where p: "push_event s ev = Some (st, s')" "fst s' = push_to (fst s) ev"
      and ev: "ev = tp_fault_event (tp_faulted tp fault (Some s)) fault"
      using push_event_returns [OF s] by metis
    have "tp_raise_fault tp fault = Some (tp_faulted tp fault (Some s'))"
      using Some p(1) by (simp add: ev tp_raise_fault_def Let_def tp_faulted_def count_tp_def tp_fault_event_def)
    moreover have "queue_ok (Some s')" "queue_after (tp_queue tp) (Some s')"
      using push_to_sink [OF s] p(2) Some by (simp_all add: queue_ok_def queue_after_def)
    ultimately show thesis using that after [of "Some s'"] by simp
  qed
qed

lemma abort_rx_after: "tp_ok tp \<Longrightarrow> tp_after tp (tp_abort_rx tp)"
  by (auto simp: tp_ok_defs tp_abort_rx_def Let_def rx_ok_def tx_ok_def length_zero_prefix)

lemma abort_tx_after: "tp_ok tp \<Longrightarrow> tp_after tp (tp_abort_tx tp)"
  by (auto simp: tp_ok_defs tp_abort_tx_def Let_def rx_ok_def tx_ok_def length_zero_prefix
      tp_pending_clear_def)

subsection \<open>Reception\<close>

lemma send_fc_after: "tp_ok tp \<Longrightarrow> tp_after tp (tp_send_fc tp fc)"
proof -
  assume ok: "tp_ok tp"
  let ?p = "tp\<lparr>tp_rx_pending_fc := tp_pending_store (tp_rx_pending_fc tp) TX_FRAME_FC fc (tp_now_us tp)\<rparr>"
  have "tp_after tp ?p" using ok by (intro tp_after_outside rx_ok_cong tx_ok_cong) simp_all
  then have e: "tp_after tp (snd (tp_emit_frame ?p TX_FRAME_FC fc))"
    using emit_after tp_after_ok tp_after_trans by blast
  have "tp_after (snd (tp_emit_frame ?p TX_FRAME_FC fc))
      (snd (tp_emit_frame ?p TX_FRAME_FC fc)\<lparr>tp_rx_pending_fc := pf\<rparr>)" for pf
    using tp_after_ok [OF e] by (intro tp_after_outside rx_ok_cong tx_ok_cong) simp_all
  then show ?thesis
    using e by (auto simp: tp_send_fc_def Let_def split: prod.split intro: tp_after_trans)
qed

lemma rx_finish_after:
  assumes "tp_ok tp" and "tx_ok p = tx_ok tp" and "tp_queue p = tp_queue tp"
    and "tp_initialized p = tp_initialized tp" and "tp_now_us p = tp_now_us tp"
    and "length (tp_rx_buffer p) = length (tp_rx_buffer tp)" and "tp_rx_capacity p = tp_rx_capacity tp"
    and "length (tp_tx_buffer p) = length (tp_tx_buffer tp)" and "tp_tx_capacity p = tp_tx_capacity tp"
  shows "tp_after tp (tp_rx_finish p)"
proof -
  have "tx_ok (tp_rx_finish p) = tx_ok p"
    by (simp add: tx_ok_def tp_rx_finish_def tp_deliver_rx_message_def Let_def split: option.split)
  then show ?thesis
    using assms
    by (simp add: tp_ok_defs tp_rx_finish_def tp_deliver_rx_message_def Let_def rx_ok_def
        split: option.split)
qed

text \<open>A handler always returns, and takes a well-formed engine to a well-formed engine.\<close>

definition handled :: "('w, 'c) transport \<Rightarrow> (tp_status \<times> ('w, 'c) transport) option \<Rightarrow> bool" where
  "handled tp r \<longleftrightarrow> (\<exists>st tp'. r = Some (st, tp') \<and> tp_after tp tp')"

lemma handledI: "tp_after tp tp' \<Longrightarrow> handled tp (Some (st, tp'))"
  by (simp add: handled_def)

lemma handled_trans: "tp_after a b \<Longrightarrow> handled b r \<Longrightarrow> handled a r"
  by (auto simp: handled_def intro: tp_after_trans)

lemma fail_handled: "tp_ok tp \<Longrightarrow> handled tp (tp_fail tp fault st)"
  by (erule raise_after [where fault = fault]) (simp add: tp_fail_def handled_def)

lemma abort_rx_handled: "tp_ok tp \<Longrightarrow> handled tp (tp_protocol_abort_rx tp)"
  by (erule raise_after [where fault = TP_FAULT_PROTOCOL])
    (auto simp: tp_protocol_abort_rx_def handled_def dest: tp_after_ok
      intro: tp_after_trans abort_rx_after)

lemma abort_tx_handled: "tp_ok tp \<Longrightarrow> handled tp (tp_protocol_abort_tx tp)"
  by (erule raise_after [where fault = TP_FAULT_PROTOCOL])
    (auto simp: tp_protocol_abort_tx_def handled_def dest: tp_after_ok
      intro: tp_after_trans abort_tx_after)

lemmas handlers = fail_handled abort_rx_handled abort_tx_handled

lemma rx_capacity_le: "tp_ok tp \<Longrightarrow> tp_rx_capacity tp \<le> length (tp_rx_buffer tp)"
  by (simp add: tp_ok_def rx_ok_def)

lemma handle_sf_handled: "tp_ok tp \<Longrightarrow> handled tp (tp_rx_handle_sf tp data)"
proof -
  assume ok: "tp_ok tp"
  let ?p = "count_tp (\<lambda>c. c\<lparr>tn_sf_rx := tn_sf_rx c + 1\<rparr>) tp"
  let ?dl = "unat (data ! 0 AND 0x0F)"
  have p: "tp_after tp ?p" "tp_ok ?p" using count_after [OF ok] tp_after_ok by auto
  have "handled ?p (tp_rx_handle_sf tp data)"
  proof (cases "tp_rx_state ?p \<noteq> TP_STATE_IDLE \<or> ?dl = 0 \<or> ?dl > TP_SF_DATA_MAX
      \<or> length data \<noteq> ?dl + 1 \<or> ?dl > tp_rx_capacity ?p")
    case True
    then show ?thesis unfolding tp_rx_handle_sf_def Let_def by (auto intro: handlers p(2))
  next
    case False
    have "length (write_at (tp_rx_buffer ?p) 0 (take ?dl (drop 1 data))) = length (tp_rx_buffer ?p)"
      using False rx_capacity_le [OF p(2)] by (intro length_write_at) simp
    then have "tp_after ?p (tp_rx_finish (?p\<lparr>tp_rx_buffer := write_at (tp_rx_buffer ?p) 0 (take ?dl (drop 1 data)),
        tp_rx_received := of_nat ?dl, tp_rx_total := of_nat ?dl\<rparr>))"
      using p(2) by (intro rx_finish_after) (simp_all add: tx_ok_def)
    then show ?thesis using False by (simp add: tp_rx_handle_sf_def Let_def handledI)
  qed
  then show ?thesis by (rule handled_trans [OF p(1)])
qed

lemma handle_ff_handled: "tp_ok tp \<Longrightarrow> handled tp (tp_rx_handle_ff tp data)"
proof -
  assume ok: "tp_ok tp"
  let ?p = "count_tp (\<lambda>c. c\<lparr>tn_ff_rx := tn_ff_rx c + 1\<rparr>) tp"
  let ?t = "tp_ff_total data"
  have p: "tp_after tp ?p" "tp_ok ?p" using count_after [OF ok] tp_after_ok by auto
  have over: "handled ?p (tp_fail (tp_send_fc ?p fc) f st)" for fc f st
    using send_fc_after [OF p(2)] fail_handled [OF tp_after_ok] handled_trans by blast
  have "handled ?p (tp_rx_handle_ff tp data)"
  proof (cases "tp_rx_state ?p \<noteq> TP_STATE_IDLE \<or> length data \<noteq> TP_FRAME_MAX_LENGTH
      \<or> unat ?t < TP_SF_DATA_MAX + 1 \<or> unat ?t > tp_rx_capacity ?p")
    case True
    then show ?thesis unfolding tp_rx_handle_ff_def Let_def by (auto intro: handlers p(2) over)
  next
    case False
    let ?q = "tp_arm_n_cr (?p\<lparr>tp_rx_buffer :=
                      write_at (tp_rx_buffer ?p) 0 (take TP_FF_DATA_MAX (drop 2 data)),
                    tp_rx_total := ?t, tp_rx_received := of_nat TP_FF_DATA_MAX,
                    tp_rx_expected_sn := 1, tp_rx_state := TP_STATE_FIRST_FRAME\<rparr>)"
    have "length (write_at (tp_rx_buffer ?p) 0 (take TP_FF_DATA_MAX (drop 2 data)))
        = length (tp_rx_buffer ?p)"
      using False rx_capacity_le [OF p(2)] by (intro length_write_at) (simp add: tp_bounds)
    then have "tp_after ?p ?q"
      using p(2) False by (simp add: tp_ok_defs rx_ok_def tx_ok_def tp_arm_n_cr_def tp_bounds)
    then show ?thesis
      using False by (auto simp: tp_rx_handle_ff_def Let_def
          intro: handledI tp_after_trans send_fc_after dest: tp_after_ok)
  qed
  then show ?thesis by (rule handled_trans [OF p(1)])
qed

lemma cf_received:
  assumes "tp_ok tp" and "tp_rx_state tp = TP_STATE_FIRST_FRAME"
  defines "n \<equiv> min (unat (tp_rx_total tp - tp_rx_received tp)) TP_CF_DATA_MAX"
  shows "0 < n" "n \<le> 7" "unat (tp_rx_received tp) + n \<le> unat (tp_rx_total tp)"
    "unat (tp_rx_received tp + of_nat n) = unat (tp_rx_received tp) + n"
proof -
  have lt: "unat (tp_rx_received tp) < unat (tp_rx_total tp)"
    using assms by (simp add: tp_ok_def rx_ok_def)
  then have sub: "unat (tp_rx_total tp - tp_rx_received tp)
      = unat (tp_rx_total tp) - unat (tp_rx_received tp)" by (simp add: unat_minus_le)
  show "0 < n" "n \<le> 7" and le: "unat (tp_rx_received tp) + n \<le> unat (tp_rx_total tp)"
    using lt sub by (simp_all add: n_def tp_bounds)
  then show "unat (tp_rx_received tp + of_nat n) = unat (tp_rx_received tp) + n"
    using unat_u16_lt [of "tp_rx_total tp"] by (simp add: unat_plus_small unat_of_nat_small)
qed

lemma handle_cf_handled: "tp_ok tp \<Longrightarrow> handled tp (tp_rx_handle_cf tp data)"
proof -
  assume ok: "tp_ok tp"
  let ?p = "count_tp (\<lambda>c. c\<lparr>tn_cf_rx := tn_cf_rx c + 1\<rparr>) tp"
  let ?n = "min (unat (tp_rx_total ?p - tp_rx_received ?p)) TP_CF_DATA_MAX"
  let ?sn = "data ! 0 AND 0x0F"
  have p: "tp_after tp ?p" "tp_ok ?p" using count_after [OF ok] tp_after_ok by auto
  have "handled ?p (tp_rx_handle_cf tp data)"
  proof (cases "tp_rx_state ?p \<noteq> TP_STATE_FIRST_FRAME \<or> ?sn \<noteq> tp_rx_expected_sn ?p
      \<or> length data \<noteq> ?n + 1")
    case True
    then show ?thesis unfolding tp_rx_handle_cf_def Let_def by (auto intro: handlers p(2))
  next
    case False
    then have st: "tp_rx_state ?p = TP_STATE_FIRST_FRAME" by simp
    note n = cf_received [OF p(2) st]
    have cap: "unat (tp_rx_total ?p) \<le> tp_rx_capacity ?p"
      using p(2) st by (simp add: tp_ok_def rx_ok_def)
    let ?buf = "write_at (tp_rx_buffer ?p) (unat (tp_rx_received ?p)) (take ?n (drop 1 data))"
    have len: "length ?buf = length (tp_rx_buffer ?p)"
      using False n cap rx_capacity_le [OF p(2)] by (intro length_write_at) simp
    let ?q = "tp_arm_n_cr (?p\<lparr>tp_rx_buffer := ?buf, tp_rx_received := tp_rx_received ?p + of_nat ?n,
        tp_rx_expected_sn := (?sn + 1) AND 0x0F\<rparr>)"
    have fin: "tp_after ?p (tp_rx_finish ?q)"
      using p(2) len by (intro rx_finish_after) (simp_all add: tx_ok_def tp_arm_n_cr_def)
    have more: "tp_after ?p ?q" if "tp_rx_received ?q < tp_rx_total ?q"
      using that p(2) len cap st
      by (simp add: tp_ok_defs rx_ok_def tx_ok_def tp_arm_n_cr_def word_less_nat_alt)
    have "tp_rx_handle_cf tp data = (if tp_rx_received ?q \<ge> tp_rx_total ?q
        then Some (TP_OK_MESSAGE, tp_rx_finish ?q) else Some (TP_OK, ?q))"
      using False by (simp add: tp_rx_handle_cf_def Let_def)
    then show ?thesis using fin more by (auto intro: handledI)
  qed
  then show ?thesis by (rule handled_trans [OF p(1)])
qed

lemma handle_fc_handled: "tp_ok tp \<Longrightarrow> handled tp (tp_rx_handle_fc tp data)"
proof -
  assume ok: "tp_ok tp"
  let ?p = "count_tp (\<lambda>c. c\<lparr>tn_fc_rx := tn_fc_rx c + 1\<rparr>) tp"
  have p: "tp_after tp ?p" "tp_ok ?p" using count_after [OF ok] tp_after_ok by auto
  have ovf: "handled ?p (do { tp1 \<leftarrow> tp_raise_fault ?p TP_FAULT_BUFFER_OVERFLOW;
        Some (TP_ERR_OVERFLOW, tp_abort_tx tp1) })"
    by (rule raise_after [OF p(2), of TP_FAULT_BUFFER_OVERFLOW])
      (auto simp: handled_def dest: tp_after_ok intro: tp_after_trans abort_tx_after)
  let ?w = "(count_tp (\<lambda>c. c\<lparr>tn_wait_frames_rx := tn_wait_frames_rx c + 1\<rparr>) ?p)
      \<lparr>tp_tx_wait_frames := tp_tx_wait_frames ?p + 1\<rparr>"
  have w: "tp_after ?p ?w" using p(2) by (intro tp_after_outside rx_ok_cong tx_ok_cong) simp_all
  have wait: "handled ?p (tp_protocol_abort_tx ?w)"
    using w abort_tx_handled [OF tp_after_ok [OF w]] handled_trans by blast
  have arm: "tp_after ?p (tp_arm_n_bs ?w)"
    using p(2) by (intro tp_after_outside rx_ok_cong tx_ok_cong) (simp_all add: tp_arm_n_bs_def)
  have cts: "tp_after ?p (?p\<lparr>tp_tx_state := TP_STATE_CONSECUTIVE_FRAME, tp_tx_wait_frames := wf,
      tp_tx_block_unlimited := u, tp_tx_block_remaining := r, tp_tx_stmin_us := m,
      tp_tx_next_cf_us := nx\<rparr>)" if "tp_tx_state ?p = TP_STATE_FLOW_CONTROL" for wf u r m nx
    using p(2) that by (simp add: tp_ok_defs rx_ok_def tx_ok_def)
  have "handled ?p (tp_rx_handle_fc tp data)"
    unfolding tp_rx_handle_fc_def Let_def
    using ovf wait arm cts abort_tx_handled [OF p(2)] by (simp add: handledI)
  then show ?thesis by (rule handled_trans [OF p(1)])
qed

lemma rx_frame_handled: "tp_ok tp \<Longrightarrow> handled tp (tp_rx_frame tp frame)"
proof -
  assume ok: "tp_ok tp"
  let ?p = "count_tp (\<lambda>c. c\<lparr>tn_frames_rx := tn_frames_rx c + 1\<rparr>) tp"
  have p: "tp_after tp ?p" "tp_ok ?p" using count_after [OF ok] tp_after_ok by auto
  have bad: "handled ?p (do { tp1 \<leftarrow> tp_raise_fault ?p TP_FAULT_PROTOCOL;
      Some (TP_ERR_PROTOCOL, if tp_rx_state tp1 \<noteq> TP_STATE_IDLE then tp_abort_rx tp1 else tp1) })"
    by (rule raise_after [OF p(2), of TP_FAULT_PROTOCOL])
      (auto simp: handled_def dest: tp_after_ok intro: tp_after_trans abort_rx_after)
  note h = handle_sf_handled [OF p(2)] handle_ff_handled [OF p(2)] handle_cf_handled [OF p(2)]
    handle_fc_handled [OF p(2)] bad
  show ?thesis
    unfolding tp_rx_frame_def Let_def
    by (cases frame) (auto intro: handledI tp_after_refl [OF ok] handled_trans [OF p(1)] h)
qed

subsection \<open>Transmission\<close>

lemma pump_rx_pending_after:
  assumes "tp_ok tp"
  obtains tp' where "tp_pump_rx_pending tp = Some tp'" "tp_after tp tp'"
proof (cases "pd_kind (tp_rx_pending_fc tp) = TX_FRAME_NONE
    \<or> \<not> tp_pending_n_as_expired tp (tp_rx_pending_fc tp)")
  case True
  obtain b p where e: "tp_emit_frame tp TX_FRAME_FC (pd_data (tp_rx_pending_fc tp)) = (b, p)" by force
  then have p: "p = snd (tp_emit_frame tp TX_FRAME_FC (pd_data (tp_rx_pending_fc tp)))" by simp
  have "tp_after tp p" unfolding p by (rule emit_after [OF assms])
  moreover have "tp_after tp (p\<lparr>tp_rx_pending_fc := pf\<rparr>)" for pf
    using assms by (intro tp_after_outside rx_ok_cong tx_ok_cong) (simp_all add: p)
  ultimately show thesis
    using True e tp_after_refl [OF assms]
    by (intro that [of "if pd_kind (tp_rx_pending_fc tp) = TX_FRAME_NONE then tp
          else if b then p\<lparr>tp_rx_pending_fc := tp_pending_clear (tp_rx_pending_fc p)\<rparr> else p"])
      (auto simp: tp_pump_rx_pending_def)
next
  case False
  obtain q where q: "tp_raise_fault tp TP_FAULT_TIMEOUT = Some (tp_faulted tp TP_FAULT_TIMEOUT q)"
    "tp_after tp (tp_faulted tp TP_FAULT_TIMEOUT q)" by (rule raise_after [OF assms])
  show thesis
  proof (rule that)
    show "tp_pump_rx_pending tp = Some (tp_abort_rx (tp_faulted tp TP_FAULT_TIMEOUT q))"
      using False q(1) by (simp add: tp_pump_rx_pending_def)
    show "tp_after tp (tp_abort_rx (tp_faulted tp TP_FAULT_TIMEOUT q))"
      using q(2) abort_rx_after tp_after_ok tp_after_trans by blast
  qed
qed

text \<open>One accepted Consecutive Frame completes the message, ends a block, or goes on.\<close>

lemma cf_step_after:
  assumes ok: "tp_ok tp" and sent: "unat (tp_tx_sent tp + chunk) = unat (tp_tx_sent tp) + unat chunk"
    and kind: "pd_kind (tp_tx_pending tp) \<noteq> TX_FRAME_FF"
    and q: "q = tp_cf_sent tp sn chunk"
  shows "tp_tx_sent q \<ge> tp_tx_total q \<Longrightarrow> tp_after tp (tp_tx_complete q)"
    and "tp_tx_sent q < tp_tx_total q \<Longrightarrow> tp_after tp (tp_await_fc q)"
    and "tp_tx_sent q < tp_tx_total q \<Longrightarrow> tp_after tp q"
  using assms
  by (auto simp: q tp_ok_defs rx_ok_def tx_ok_def tp_tx_complete_def tp_cf_sent_def tp_await_fc_def
      tp_arm_n_bs_def word_less_nat_alt)

lemma pump_cf_after: "tp_ok tp \<Longrightarrow> tp_after tp (tp_tx_pump_cf tp)"
proof (induction tp rule: tp_tx_pump_cf.induct)
  case (1 tp)
  show ?case
  proof (cases "tp_cf_due tp")
    case False
    then show ?thesis using 1(2) by (simp add: tp_tx_pump_cf.simps tp_after_refl)
  next
    case True
    obtain b p where e: "tp_emit_frame tp TX_FRAME_CF (tp_cf_frame tp) = (b, p)" by force
    have p: "p = snd (tp_emit_frame tp TX_FRAME_CF (tp_cf_frame tp))" by (simp add: e)
    have after: "tp_after tp p" using emit_after [OF 1(2)] by (simp add: p)
    have f: "tp_tx_sent p = tp_tx_sent tp" "tp_tx_total p = tp_tx_total tp"
      "tp_tx_state p = tp_tx_state tp" "tp_tx_pending p = tp_tx_pending tp" by (simp_all add: p)
    have lt: "tp_tx_sent tp < tp_tx_total tp" and st: "tp_tx_state tp = TP_STATE_CONSECUTIVE_FRAME"
      using True by (simp_all add: tp_cf_due_def)
    show ?thesis
    proof (cases b)
      case False
      have "0 < length (tp_cf_frame tp)" "length (tp_cf_frame tp) \<le> 8"
        using tp_cf_chunk_bounds [OF lt] by (simp_all add: tp_cf_frame_def)
      then have "tp_after p (p\<lparr>tp_tx_pending :=
          tp_pending_store (tp_tx_pending p) TX_FRAME_CF (tp_cf_frame tp) (tp_now_us p)\<rparr>)"
        using tp_after_ok [OF after] f st
        by (simp add: tp_ok_defs rx_ok_def tx_ok_def tp_pending_store_def Let_def)
      then show ?thesis
        using after True False e by (subst tp_tx_pump_cf.simps) (simp add: tp_after_trans)
    next
      case accepted: True
      let ?q = "tp_cf_sent p (tp_tx_next_sn p) (of_nat (tp_cf_chunk tp))"
      have "unat (tp_tx_sent p + of_nat (tp_cf_chunk tp)) = unat (tp_tx_sent p)
          + unat (of_nat (tp_cf_chunk tp) :: u16)"
        using tp_cf_chunk_bounds [OF lt] f by simp
      moreover have "pd_kind (tp_tx_pending p) \<noteq> TX_FRAME_FF"
        using 1(2) f st by (auto simp: tp_ok_def tx_ok_def)
      ultimately have q: "tp_tx_sent ?q \<ge> tp_tx_total ?q \<Longrightarrow> tp_after p (tp_tx_complete ?q)"
        "tp_tx_sent ?q < tp_tx_total ?q \<Longrightarrow> tp_after p (tp_await_fc ?q)"
        "tp_tx_sent ?q < tp_tx_total ?q \<Longrightarrow> tp_after p ?q"
        using cf_step_after [OF tp_after_ok [OF after] _ _ refl] by blast+
      have rec: "tp_after ?q (tp_tx_pump_cf ?q)"
        if "tp_tx_sent ?q < tp_tx_total ?q" "\<not> (\<not> tp_tx_block_unlimited ?q \<and> tp_tx_block_remaining ?q = 0)"
        using 1(1) [OF _ refl e [symmetric] _ refl] True accepted that q(3) tp_after_ok by fastforce
      show ?thesis
        using after q rec True accepted e
        by (subst tp_tx_pump_cf.simps) (auto simp: Let_def not_le intro: tp_after_trans)
    qed
  qed
qed

lemma pending_accepted_after:
  assumes "tp_ok tp"
  shows "tp_after tp (tp_pending_accepted tp)"
proof -
  let ?slot = "tp_tx_pending tp" and ?c = "tp\<lparr>tp_tx_pending := tp_pending_clear (tp_tx_pending tp)\<rparr>"
  have clear: "pd_kind (tp_pending_clear ?slot) = TX_FRAME_NONE" by (simp add: tp_pending_clear_def)
  have keep: "tp_after tp ?c" if "pd_kind ?slot \<noteq> TX_FRAME_FF"
    using assms that clear by (simp add: tp_ok_defs rx_ok_def tx_ok_def)
  show ?thesis
  proof (cases "pd_kind ?slot")
    case TX_FRAME_FF
    then show ?thesis
      using assms clear
      by (auto simp: tp_pending_accepted_def Let_def tp_ok_defs rx_ok_def tx_ok_def tp_arm_n_bs_def tp_bounds)
  next
    case TX_FRAME_CF
    let ?chunk = "of_nat (length (pd_data ?slot)) - 1 :: u16"
    have len: "0 < length (pd_data ?slot)" "length (pd_data ?slot) \<le> 8"
      using assms TX_FRAME_CF by (simp_all add: tp_ok_def tx_ok_def)
    then have c: "?chunk = of_nat (length (pd_data ?slot) - 1)"
      by (cases "length (pd_data ?slot)") simp_all
    have "unat ?chunk \<le> 7" unfolding c using len by (simp add: unat_of_nat_small)
    moreover have "unat (tp_tx_sent ?c) \<le> 4095"
      using assms by (cases "tp_tx_state tp = TP_STATE_IDLE") (auto simp: tp_ok_def tx_ok_def)
    ultimately have "unat (tp_tx_sent ?c + ?chunk) = unat (tp_tx_sent ?c) + unat ?chunk"
      by (simp add: unat_plus_small)
    note st = cf_step_after [OF tp_after_ok [OF keep] this _ refl, where sn = "pd_data ?slot ! 0 AND 0x0F"]
    show ?thesis
      using TX_FRAME_CF keep st clear
      by (auto simp: tp_pending_accepted_def Let_def not_le intro: tp_after_trans)
  qed (use keep in \<open>auto simp: tp_pending_accepted_def Let_def dest: tp_after_ok
      intro: tp_after_trans count_after\<close>)
qed

lemma pump_tx_after:
  assumes "tp_ok tp"
  obtains tp' where "tp_pump_tx tp = Some tp'" "tp_after tp tp'"
proof (cases "pd_kind (tp_tx_pending tp) \<noteq> TX_FRAME_NONE
    \<and> tp_pending_n_as_expired tp (tp_tx_pending tp)")
  case True
  obtain q where q: "tp_raise_fault tp TP_FAULT_TIMEOUT = Some (tp_faulted tp TP_FAULT_TIMEOUT q)"
    "tp_after tp (tp_faulted tp TP_FAULT_TIMEOUT q)" by (rule raise_after [OF assms])
  show thesis
  proof (rule that)
    show "tp_pump_tx tp = Some (tp_abort_tx (tp_faulted tp TP_FAULT_TIMEOUT q))"
      using True q(1) by (simp add: tp_pump_tx_def)
    show "tp_after tp (tp_abort_tx (tp_faulted tp TP_FAULT_TIMEOUT q))"
      using q(2) abort_tx_after tp_after_ok tp_after_trans by blast
  qed
next
  case False
  let ?s = "tp_tx_pending tp"
  obtain b p where e: "tp_emit_frame tp (pd_kind ?s) (pd_data ?s) = (b, p)" by force
  then have p: "tp_after tp p" using emit_after [OF assms, of "pd_kind ?s" "pd_data ?s"] by simp
  then have "tp_after tp (if b then tp_pending_accepted p else p)"
    using tp_after_trans [OF p pending_accepted_after [OF tp_after_ok [OF p]]] by simp
  then have "tp_after tp (tp_tx_pump_cf (if b then tp_pending_accepted p else p))"
    using pump_cf_after tp_after_ok tp_after_trans by blast
  then show thesis
    using False e pump_cf_after [OF assms] that
    by (cases "pd_kind ?s = TX_FRAME_NONE") (simp_all add: tp_pump_tx_def)
qed

lemma send_after: "tp_ok tp \<Longrightarrow> tp_after tp (snd (tp_send tp payload))"
proof -
  assume ok: "tp_ok tp"
  let ?p = "count_tp (\<lambda>c. c\<lparr>tn_tx_messages_requested := tn_tx_messages_requested c + 1\<rparr>) tp"
  have p: "tp_after tp ?p" "tp_ok ?p" using count_after [OF ok] tp_after_ok by auto
  show ?thesis
  proof (cases payload)
    case None
    then show ?thesis using tp_after_refl [OF ok] by (simp add: tp_send_def)
  next
    case (Some data)
    let ?n = "length data"
    show ?thesis
    proof (cases "\<not> tp_initialized tp \<or> ?n = 0 \<or> ?n > TP_MESSAGE_MAX_LENGTH \<or> tp_tx_busy tp
        \<or> ?n > tp_tx_capacity tp \<or> \<not> tp_can_transmit tp")
      case True
      then show ?thesis using tp_after_refl [OF ok] Some by (auto simp: tp_send_def Let_def)
    next
      case False
      then have idle: "tp_tx_state tp = TP_STATE_IDLE" "pd_kind (tp_tx_pending tp) = TX_FRAME_NONE"
        by (auto simp: tp_tx_busy_def)
      show ?thesis
      proof (cases "?n \<le> TP_SF_DATA_MAX")
        case True
        let ?f = "of_nat ?n # data"
        obtain b q where e: "tp_emit_frame ?p TX_FRAME_SF ?f = (b, q)" by force
        then have q: "q = snd (tp_emit_frame ?p TX_FRAME_SF ?f)" by simp
        have aq: "tp_after tp q" unfolding q using emit_after [OF p(2)] p(1) tp_after_trans by blast
        have "tp_after tp (q\<lparr>tp_tx_pending := tp_pending_store (tp_tx_pending q) TX_FRAME_SF ?f (tp_now_us q)\<rparr>)"
          using ok idle by (simp add: q tp_ok_defs rx_ok_def tx_ok_def tp_pending_store_def Let_def)
        then show ?thesis
          using False True Some e aq
          by (cases b) (auto simp: tp_send_def Let_def intro: tp_after_trans count_after dest: tp_after_ok)
      next
        case big: False
        let ?r = "?p\<lparr>tp_tx_buffer := write_at (tp_tx_buffer ?p) 0 data,
                         tp_tx_total := of_nat ?n, tp_tx_next_sn := 1, tp_tx_wait_frames := 0\<rparr>"
        let ?f = "[0x10 OR (of_nat (?n div 256) AND 0x0F), of_nat (?n mod 256)] @ take TP_FF_DATA_MAX data"
        obtain b q where e: "tp_emit_frame ?r TX_FRAME_FF ?f = (b, q)" by force
        then have q: "q = snd (tp_emit_frame ?r TX_FRAME_FF ?f)" by simp
        have n: "unat (of_nat ?n :: u16) = ?n" "7 < ?n" "?n \<le> 4095" "?n \<le> tp_tx_capacity tp"
          using False big by (simp_all add: unat_of_nat_small tp_bounds)
        have len: "length (write_at (tp_tx_buffer tp) 0 data) = length (tp_tx_buffer tp)"
          using ok n(4) by (intro length_write_at) (simp add: tp_ok_def tx_ok_def)
        have "tp_after tp (tp_arm_n_bs (q\<lparr>tp_tx_sent := of_nat TP_FF_DATA_MAX, tp_tx_state := TP_STATE_FLOW_CONTROL\<rparr>))"
          using ok idle n len by (simp add: q tp_ok_defs rx_ok_def tx_ok_def tp_arm_n_bs_def tp_bounds)
        moreover have "tp_after tp (q\<lparr>tp_tx_sent := 0, tp_tx_pending :=
            tp_pending_store (tp_tx_pending q) TX_FRAME_FF ?f (tp_now_us q)\<rparr>)"
          using ok idle n len
          by (simp add: q tp_ok_defs rx_ok_def tx_ok_def tp_pending_store_def Let_def)
        ultimately show ?thesis
          using False big Some e by (cases b) (simp_all add: tp_send_def Let_def)
      qed
    qed
  qed
qed

subsection \<open>Time, and the operations of a client\<close>

lemma advance_clock_after:
  assumes "tp_ok tp"
  shows "tp_after tp (tp_advance_clock tp)"
proof -
  have "tp_now_us tp \<le> tp_now_us (tp_advance_clock tp)"
    by (auto simp: tp_advance_clock_def Let_def time_sat_add_ge split: option.split)
  moreover have "tp_rx_buffer (tp_advance_clock tp) = tp_rx_buffer tp"
    by (simp add: tp_advance_clock_def Let_def split: option.split)
  ultimately show ?thesis
    using assms
    by (intro tp_after_outside rx_ok_cong tx_ok_cong)
      (simp_all add: tp_advance_clock_def Let_def split: option.split)
qed

lemma check_n_cr_after:
  assumes "tp_ok tp"
  obtains tp' where "tp_check_n_cr tp = Some tp'" "tp_after tp tp'"
proof -
  obtain q where q: "tp_raise_fault tp TP_FAULT_TIMEOUT = Some (tp_faulted tp TP_FAULT_TIMEOUT q)"
    "tp_after tp (tp_faulted tp TP_FAULT_TIMEOUT q)" by (rule raise_after [OF assms])
  have "tp_after tp (tp_abort_rx (tp_faulted tp TP_FAULT_TIMEOUT q))"
    using tp_after_trans [OF q(2) abort_rx_after [OF tp_after_ok [OF q(2)]]] .
  then show thesis
    using that q(1) tp_after_refl [OF assms] by (cases "tp_check_n_cr tp") (auto simp: tp_check_n_cr_def split: if_splits)
qed

lemma check_n_bs_after:
  assumes "tp_ok tp"
  obtains tp' where "tp_check_n_bs tp = Some tp'" "tp_after tp tp'"
proof -
  obtain q where q: "tp_raise_fault tp TP_FAULT_TIMEOUT = Some (tp_faulted tp TP_FAULT_TIMEOUT q)"
    "tp_after tp (tp_faulted tp TP_FAULT_TIMEOUT q)" by (rule raise_after [OF assms])
  have "tp_after tp (tp_abort_tx (tp_faulted tp TP_FAULT_TIMEOUT q))"
    using tp_after_trans [OF q(2) abort_tx_after [OF tp_after_ok [OF q(2)]]] .
  then show thesis
    using that q(1) tp_after_refl [OF assms] by (cases "tp_check_n_bs tp") (auto simp: tp_check_n_bs_def split: if_splits)
qed

lemma tick_handled: "tp_ok tp \<Longrightarrow> handled tp (tp_tick tp)"
proof -
  assume ok: "tp_ok tp"
  let ?a = "tp_advance_clock tp"
  have a: "tp_after tp ?a" by (rule advance_clock_after [OF ok])
  obtain b where b: "tp_check_n_cr ?a = Some b" "tp_after ?a b"
    by (rule check_n_cr_after [OF tp_after_ok [OF a]])
  obtain c where c: "tp_pump_rx_pending b = Some c" "tp_after b c"
    by (rule pump_rx_pending_after [OF tp_after_ok [OF b(2)]])
  obtain d where d: "tp_check_n_bs c = Some d" "tp_after c d"
    by (rule check_n_bs_after [OF tp_after_ok [OF c(2)]])
  obtain e where e: "tp_pump_tx d = Some e" "tp_after d e"
    by (rule pump_tx_after [OF tp_after_ok [OF d(2)]])
  have "tp_after tp e"
    by (rule tp_after_trans [OF a tp_after_trans [OF b(2) tp_after_trans [OF c(2) tp_after_trans [OF d(2) e(2)]]]])
  then show ?thesis
    using ok b(1) c(1) d(1) e(1) by (simp add: tp_tick_def handled_def tp_ok_def)
qed

lemma advance_loop_handled: "tp_ok tp \<Longrightarrow> handled tp (tp_advance_loop n st tp)"
proof (induction n arbitrary: st tp)
  case 0
  then show ?case by (simp add: handled_def tp_after_refl)
next
  case (Suc n)
  obtain st1 tp1 where t: "tp_tick tp = Some (st1, tp1)" "tp_after tp tp1"
    using tick_handled [OF Suc.prems] by (auto simp: handled_def)
  show ?case
    using handled_trans [OF t(2) Suc.IH [OF tp_after_ok [OF t(2)]]] t(1) by simp
qed

lemma advance_handled: "tp_ok tp \<Longrightarrow> handled tp (tp_advance tp n)"
  using advance_loop_handled by (auto simp: tp_advance_def handled_def tp_after_refl)

end
