(* ===== verification/Transport_Segments.thy ===== *)
theory Transport_Segments
  imports Transport_Inv
begin

text \<open>
  The segmentation of ISO 15765-2 as a reference function, and the two halves of the engine
  against it: an idle receiver fed the segments of a message delivers that message, and a sender
  whose sink accepts hands the sink those segments.
\<close>

subsection \<open>The reference segmentation\<close>

function cf_frames :: "u8 \<Rightarrow> u8 list \<Rightarrow> u8 list list" where
  "cf_frames sn [] = []"
| "cf_frames sn (b # bs) =
     ((0x20 OR sn) # take 7 (b # bs)) # cf_frames ((sn + 1) AND 0x0F) (drop 7 (b # bs))"
  by pat_completeness auto
termination by (relation "measure (length \<circ> snd)") auto

definition ff_frame :: "u8 list \<Rightarrow> u8 list" where
  "ff_frame msg = [0x10 OR (of_nat (length msg div 256) AND 0x0F), of_nat (length msg mod 256)]
     @ take 6 msg"

definition tp_segments :: "u8 list \<Rightarrow> u8 list list" where
  "tp_segments msg = (if length msg \<le> 7 then [of_nat (length msg) # msg]
     else ff_frame msg # cf_frames 1 (drop 6 msg))"

text \<open>Feed frames to the engine, one call of \<open>cancestry_transport_rx_frame\<close> each.\<close>

fun tp_feed :: "('w, 'c) transport \<Rightarrow> u8 list list \<Rightarrow> (tp_status list \<times> ('w, 'c) transport) option" where
  "tp_feed tp [] = Some ([], tp)"
| "tp_feed tp (f # fs) =
     do { (st, tp1) \<leftarrow> tp_rx_frame tp (Some f);
          (sts, tp2) \<leftarrow> tp_feed tp1 fs;
          Some (st # sts, tp2) }"

subsection \<open>The header bytes\<close>

lemma nibble_values:
  fixes sn :: u8
  assumes "sn < 16"
  shows "sn \<in> {0, 1, 2, 3, 4, 5, 6, 7, 8, 9, 10, 11, 12, 13, 14, 15}"
proof -
  have "unat sn < 16" using assms by (simp add: word_less_nat_alt)
  then have "unat sn \<in> set [0..<16]" by simp
  then have "(of_nat (unat sn) :: u8) \<in> of_nat ` set [0..<16]" by blast
  then show ?thesis by (simp add: upt_rec)
qed

lemma cf_header:
  fixes sn :: u8
  assumes "sn < 16"
  shows "drop_bit 4 (0x20 OR sn) = 2" and "(0x20 OR sn) AND 0x0F = sn" and "(sn + 1) AND 0x0F < 16"
  using nibble_values [OF assms] by (auto simp: take_bit_eq_mask mask_eq_exp_minus_1)

lemma cf_frames_step:
  "bs \<noteq> [] \<Longrightarrow> cf_frames sn bs = ((0x20 OR sn) # take 7 bs) # cf_frames ((sn + 1) AND 0x0F) (drop 7 bs)"
  by (cases bs) simp_all

lemma of_nat_u8_unat: "n < 256 \<Longrightarrow> unat (of_nat n :: u8) = n"
  by (simp add: unat_of_nat_small)

text \<open>The 12-bit length of a First Frame, split into a nibble and a byte, is read back.\<close>

lemma ff_header:
  assumes "n \<le> 4095"
  defines "b0 \<equiv> 0x10 OR ((of_nat (n div 256) :: u8) AND 0x0F)"
  shows "drop_bit 4 b0 = 1" and "tp_ff_total (b0 # of_nat (n mod 256) # rest) = of_nat n"
proof -
  have hi: "(of_nat (n div 256) :: u8) < 16"
    using assms(1) by (simp add: word_less_nat_alt of_nat_u8_unat)
  then have b0: "drop_bit 4 b0 = 1 \<and> b0 AND 0x0F = of_nat (n div 256)"
    unfolding b0_def using nibble_values [OF hi] by (auto simp: take_bit_eq_mask mask_eq_exp_minus_1)
  then show "drop_bit 4 b0 = 1" ..
  let ?h = "of_nat (n div 256) :: u8" and ?l = "of_nat (n mod 256) :: u8"
  have "push_bit 8 (ucast ?h :: u16) OR ucast ?l = push_bit 8 (ucast ?h) + ucast ?l"
  proof (rule disjunctive_add [symmetric])
    show "\<not> bit (push_bit 8 (ucast ?h :: u16)) i \<or> \<not> bit (ucast ?l :: u16) i" for i
      by (auto simp: bit_simps dest: bit_imp_le_length)
  qed
  also have "\<dots> = of_nat n"
  proof -
    have "unat (push_bit 8 (ucast ?h :: u16)) = n div 256 * 256"
      using assms(1) by (simp add: push_bit_eq_mult unat_mult_small unat_ucast_up of_nat_u8_unat)
    moreover have "unat (ucast ?l :: u16) = n mod 256" by (simp add: unat_ucast_up of_nat_u8_unat)
    ultimately have "unat (push_bit 8 (ucast ?h) + ucast ?l :: u16) = unat (of_nat n :: u16)"
      using assms(1) by (simp add: unat_plus_small unat_of_nat_small)
    then show ?thesis by (simp add: word_eq_unat)
  qed
  finally show "tp_ff_total (b0 # ?l # rest) = of_nat n"
    using b0 by (simp add: tp_ff_total_def)
qed

subsection \<open>Reassembly\<close>

text \<open>The engine after it has stored the payload of one Consecutive Frame.\<close>

definition cf_stored :: "('w, 'c) transport \<Rightarrow> u8 list \<Rightarrow> ('w, 'c) transport" where
  "cf_stored tp chunk =
     (let p = count_tp (\<lambda>c. c\<lparr>tn_cf_rx := tn_cf_rx c + 1\<rparr>)
          (count_tp (\<lambda>c. c\<lparr>tn_frames_rx := tn_frames_rx c + 1\<rparr>) tp)
      in tp_arm_n_cr (p\<lparr>tp_rx_buffer := write_at (tp_rx_buffer p) (unat (tp_rx_received p)) chunk,
           tp_rx_received := tp_rx_received p + of_nat (length chunk),
           tp_rx_expected_sn := (tp_rx_expected_sn p + 1) AND 0x0F\<rparr>))"

text \<open>A reception in progress that still wants the bytes \<open>bs\<close> and holds the bytes \<open>got\<close>.\<close>

definition awaiting :: "('w, 'c) transport \<Rightarrow> u8 list \<Rightarrow> u8 list \<Rightarrow> bool" where
  "awaiting tp got bs \<longleftrightarrow> tp_initialized tp \<and> tp_rx_state tp = TP_STATE_FIRST_FRAME \<and>
     tp_rx_expected_sn tp < 16 \<and> length got + length bs \<le> length (tp_rx_buffer tp) \<and>
     length got + length bs \<le> 4095 \<and> tp_rx_received tp = of_nat (length got) \<and>
     tp_rx_total tp = of_nat (length got + length bs) \<and> bs \<noteq> [] \<and>
     take (length got) (tp_rx_buffer tp) = got"

lemma take_write_at:
  "off + length bs \<le> length buf \<Longrightarrow> take (off + length bs) (write_at buf off bs) = take off buf @ bs"
  by (simp add: write_at_def)

lemma awaiting_frame:
  assumes "awaiting tp got bs"
  shows "tp_rx_frame tp (Some ((0x20 OR tp_rx_expected_sn tp) # take 7 bs)) =
    (if length bs \<le> 7 then Some (TP_OK_MESSAGE, tp_rx_finish (cf_stored tp (take 7 bs)))
     else Some (TP_OK, cf_stored tp (take 7 bs)))"
proof -
  note a = assms [unfolded awaiting_def]
  note h = cf_header [of "tp_rx_expected_sn tp"]
  have total: "unat (tp_rx_total tp) = length got + length bs" "unat (tp_rx_received tp) = length got"
    using a by (simp_all add: unat_of_nat_small del: of_nat_add)
  then have chunk: "min (unat (tp_rx_total tp - tp_rx_received tp)) TP_CF_DATA_MAX = length (take 7 bs)"
    by (simp add: unat_minus_le tp_bounds)
  have sum: "unat (tp_rx_received tp + of_nat (length (take 7 bs))) = length got + length (take 7 bs)"
  proof -
    have "length got + length bs \<le> 4095" using a by blast
    then have "length got + min (length bs) 7 < 65536" "min (length bs) 7 < 65536" by linarith+
    then show ?thesis using total(2) by (simp add: unat_plus_small unat_of_nat_small)
  qed
  have fin: "tp_rx_total tp \<le> tp_rx_received tp + of_nat (length (take 7 bs)) \<longleftrightarrow> length bs \<le> 7"
    using total(1) sum by (auto simp: word_le_nat_alt)
  show ?thesis
    using a h chunk fin
    by (simp add: tp_rx_frame_def tp_rx_handle_cf_def cf_stored_def Let_def tp_bounds tp_arm_n_cr_def)
qed

lemma awaiting_next:
  assumes "awaiting tp got bs" and "7 < length bs"
  shows "awaiting (cf_stored tp (take 7 bs)) (got @ take 7 bs) (drop 7 bs)"
    and "tp_rx_expected_sn (cf_stored tp (take 7 bs)) = (tp_rx_expected_sn tp + 1) AND 0x0F"
proof -
  note a = assms(1) [unfolded awaiting_def]
  have r: "unat (tp_rx_received tp) = length got" using a by (simp add: unat_of_nat_small)
  have "length (write_at (tp_rx_buffer tp) (length got) (take 7 bs)) = length (tp_rx_buffer tp)"
    using a assms(2) by (simp add: length_write_at)
  moreover have "take (length got + 7) (write_at (tp_rx_buffer tp) (length got) (take 7 bs)) = got @ take 7 bs"
    using a assms(2) take_write_at [of "length got" "take 7 bs" "tp_rx_buffer tp"] by simp
  ultimately show "awaiting (cf_stored tp (take 7 bs)) (got @ take 7 bs) (drop 7 bs)"
    using a assms(2) r cf_header(3) [of "tp_rx_expected_sn tp"]
    by (simp add: awaiting_def cf_stored_def tp_arm_n_cr_def Let_def of_nat_diff)
  show "tp_rx_expected_sn (cf_stored tp (take 7 bs)) = (tp_rx_expected_sn tp + 1) AND 0x0F"
    by (simp add: cf_stored_def tp_arm_n_cr_def Let_def)
qed

text \<open>What the last frame of a message leaves: an idle session, the message in the world.\<close>

definition delivered :: "('w, 'c) transport \<Rightarrow> ('w \<Rightarrow> u8 list \<Rightarrow> 'w) \<Rightarrow> u8 list \<Rightarrow> ('w, 'c) transport \<Rightarrow> bool" where
  "delivered tp f msg tp' \<longleftrightarrow> tp_rx_state tp' = TP_STATE_IDLE \<and> tp_world tp' = f (tp_world tp) msg"

definition on_message_of :: "('w, 'c) transport \<Rightarrow> ('w \<Rightarrow> u8 list \<Rightarrow> 'w) option" where
  "on_message_of tp = Option.bind (tp_sink tp) sk_on_message"

lemma rx_finish_delivers:
  assumes "on_message_of p = Some f" and "take (unat (tp_rx_received p)) (tp_rx_buffer p) = msg"
  shows "delivered p f msg (tp_rx_finish p)"
  using assms by (simp add: delivered_def tp_rx_finish_def tp_deliver_rx_message_def on_message_of_def Let_def)

lemma cf_stored_same [simp]:
  "tp_sink (cf_stored tp bs) = tp_sink tp" "tp_world (cf_stored tp bs) = tp_world tp"
  "on_message_of (cf_stored tp bs) = on_message_of tp"
  by (simp_all add: cf_stored_def tp_arm_n_cr_def Let_def on_message_of_def)

lemma reassemble_cfs:
  assumes "awaiting tp got bs" and "on_message_of tp = Some f"
  shows "\<exists>tp'. tp_feed tp (cf_frames (tp_rx_expected_sn tp) bs) =
      Some (replicate ((length bs - 1) div 7) TP_OK @ [TP_OK_MESSAGE], tp')
    \<and> delivered tp f (got @ bs) tp'"
  using assms
proof (induction "length bs" arbitrary: tp got bs rule: less_induct)
  case less
  note a = less.prems(1) [unfolded awaiting_def]
  have ne: "bs \<noteq> []" using a by blast
  show ?case
  proof (cases "length bs \<le> 7")
    case True
    let ?q = "cf_stored tp (take 7 bs)"
    have "length got + length bs \<le> 4095" using a by blast
    then have r: "unat (tp_rx_received tp) = length got" "unat (tp_rx_received ?q) = length got + length bs"
      using a True by (simp_all add: cf_stored_def tp_arm_n_cr_def Let_def unat_of_nat_small unat_plus_small)
    then have "take (unat (tp_rx_received ?q)) (tp_rx_buffer ?q) = got @ bs"
      using a True take_write_at [of "length got" bs "tp_rx_buffer tp"]
      by (simp add: cf_stored_def tp_arm_n_cr_def Let_def)
    then have "delivered ?q f (got @ bs) (tp_rx_finish ?q)"
      using less.prems(2) by (intro rx_finish_delivers) simp_all
    then have "delivered tp f (got @ bs) (tp_rx_finish ?q)" by (simp add: delivered_def)
    then show ?thesis
      using ne True awaiting_frame [OF less.prems(1)] by (simp add: cf_frames_step)
  next
    case False
    let ?q = "cf_stored tp (take 7 bs)"
    have n: "awaiting ?q (got @ take 7 bs) (drop 7 bs)"
      and sn: "tp_rx_expected_sn ?q = (tp_rx_expected_sn tp + 1) AND 0x0F"
      using awaiting_next [OF less.prems(1)] False by simp_all
    obtain tp' where ih: "tp_feed ?q (cf_frames (tp_rx_expected_sn ?q) (drop 7 bs)) =
        Some (replicate ((length (drop 7 bs) - 1) div 7) TP_OK @ [TP_OK_MESSAGE], tp')"
      "delivered ?q f ((got @ take 7 bs) @ drop 7 bs) tp'"
      using less.hyps [OF _ n] ne less.prems(2) by auto
    have "(length bs - 1) div 7 = Suc ((length (drop 7 bs) - 1) div 7)"
      using False by simp
    moreover have "delivered tp f (got @ bs) tp'" using ih(2) by (simp add: delivered_def)
    moreover have "tp_feed tp (cf_frames (tp_rx_expected_sn tp) bs) = do {
        (sts, tp2) \<leftarrow> tp_feed ?q (cf_frames (tp_rx_expected_sn ?q) (drop 7 bs)); Some (TP_OK # sts, tp2) }"
      using False awaiting_frame [OF less.prems(1)] by (subst cf_frames_step [OF ne]) (simp add: sn)
    ultimately show ?thesis unfolding ih(1) by simp
  qed
qed

text \<open>The world after the Flow Control frame that answers a First Frame has been offered.\<close>

definition fc_world :: "('w, 'c) transport \<Rightarrow> u8 list \<Rightarrow> 'w" where
  "fc_world tp fc = tp_world (snd (tp_emit_frame tp TX_FRAME_FC fc))"

lemma emit_world_cong:
  "tp_sink p = tp_sink q \<Longrightarrow> tp_world p = tp_world q \<Longrightarrow>
   tp_world (snd (tp_emit_frame p k fr)) = tp_world (snd (tp_emit_frame q k fr))"
  by (simp add: tp_emit_frame_def tp_can_transmit_def Let_def split: prod.split bool.split)

lemma send_fc_fields [simp]:
  "tp_initialized (tp_send_fc tp fc) = tp_initialized tp"
  "tp_rx_state (tp_send_fc tp fc) = tp_rx_state tp" "tp_rx_total (tp_send_fc tp fc) = tp_rx_total tp"
  "tp_rx_received (tp_send_fc tp fc) = tp_rx_received tp"
  "tp_rx_buffer (tp_send_fc tp fc) = tp_rx_buffer tp" "tp_sink (tp_send_fc tp fc) = tp_sink tp"
  "tp_rx_expected_sn (tp_send_fc tp fc) = tp_rx_expected_sn tp"
  "tp_world (tp_send_fc tp fc) = fc_world tp fc"
proof -
  let ?p = "tp\<lparr>tp_rx_pending_fc := tp_pending_store (tp_rx_pending_fc tp) TX_FRAME_FC fc (tp_now_us tp)\<rparr>"
  obtain b q where e: "tp_emit_frame ?p TX_FRAME_FC fc = (b, q)" by force
  then have q: "q = snd (tp_emit_frame ?p TX_FRAME_FC fc)" by simp
  have w: "tp_world q = fc_world tp fc" unfolding q fc_world_def by (rule emit_world_cong) simp_all
  show "tp_initialized (tp_send_fc tp fc) = tp_initialized tp"
    "tp_rx_state (tp_send_fc tp fc) = tp_rx_state tp" "tp_rx_total (tp_send_fc tp fc) = tp_rx_total tp"
    "tp_rx_received (tp_send_fc tp fc) = tp_rx_received tp"
    "tp_rx_buffer (tp_send_fc tp fc) = tp_rx_buffer tp" "tp_sink (tp_send_fc tp fc) = tp_sink tp"
    "tp_rx_expected_sn (tp_send_fc tp fc) = tp_rx_expected_sn tp"
    "tp_world (tp_send_fc tp fc) = fc_world tp fc"
    using w by (simp_all add: tp_send_fc_def Let_def e) (simp_all add: q)
qed

lemma length_cf_frames: "length (cf_frames sn bs) = (length bs + 6) div 7"
proof (induction "length bs" arbitrary: sn bs rule: less_induct)
  case less
  show ?case
  proof (cases "bs = []")
    case False
    then have "length (cf_frames ((sn + 1) AND 0x0F) (drop 7 bs)) = (length (drop 7 bs) + 6) div 7"
      by (intro less) simp
    moreover have "(length bs + 6) div 7 = Suc ((length bs - 7 + 6) div 7)"
    proof (cases "length bs \<le> 7")
      case True
      have "1 \<le> length bs" using False by (cases bs) simp_all
      then have "(length bs + 6) div 7 = 1" using True by (intro div_nat_eqI) simp_all
      then show ?thesis using True by simp
    qed simp
    ultimately show ?thesis using False by (subst cf_frames_step) simp_all
  qed simp
qed

lemma sf_header:
  assumes "0 < n" and "n \<le> 7"
  shows "drop_bit 4 (of_nat n :: u8) = 0" and "unat ((of_nat n :: u8) AND 0x0F) = n"
proof -
  have "n \<in> {1, 2, 3, 4, 5, 6, 7}" using assms by auto
  then show "drop_bit 4 (of_nat n :: u8) = 0" "unat ((of_nat n :: u8) AND 0x0F) = n" by auto
qed

lemma reassemble_sf:
  assumes "tp_ok tp" and "tp_rx_state tp = TP_STATE_IDLE" and "on_message_of tp = Some f"
    and "msg \<noteq> []" and "length msg \<le> 7" and "length msg \<le> tp_rx_capacity tp"
  shows "\<exists>tp'. tp_rx_frame tp (Some (of_nat (length msg) # msg)) = Some (TP_OK_MESSAGE, tp')
    \<and> delivered tp f msg tp'"
proof -
  note h = sf_header [of "length msg"]
  let ?p = "count_tp (\<lambda>c. c\<lparr>tn_sf_rx := tn_sf_rx c + 1\<rparr>)
      (count_tp (\<lambda>c. c\<lparr>tn_frames_rx := tn_frames_rx c + 1\<rparr>) tp)"
  let ?q = "?p\<lparr>tp_rx_buffer := write_at (tp_rx_buffer tp) 0 msg,
      tp_rx_received := of_nat (length msg), tp_rx_total := of_nat (length msg)\<rparr>"
  have "delivered ?q f msg (tp_rx_finish ?q)"
    using assms take_write_at [of 0 msg "tp_rx_buffer tp"] rx_capacity_le [OF assms(1)]
    by (intro rx_finish_delivers) (simp_all add: on_message_of_def unat_of_nat_small)
  then have "delivered tp f msg (tp_rx_finish ?q)" by (simp add: delivered_def)
  moreover have "tp_rx_frame tp (Some (of_nat (length msg) # msg)) = Some (TP_OK_MESSAGE, tp_rx_finish ?q)"
    using assms h by (simp add: tp_rx_frame_def tp_rx_handle_sf_def tp_ok_def Let_def tp_bounds)
  ultimately show ?thesis by blast
qed

text \<open>The engine after it has accepted a First Frame and answered it.\<close>

definition ff_stored :: "('w, 'c) transport \<Rightarrow> u8 list \<Rightarrow> ('w, 'c) transport" where
  "ff_stored tp msg =
     (let p = count_tp (\<lambda>c. c\<lparr>tn_ff_rx := tn_ff_rx c + 1\<rparr>)
          (count_tp (\<lambda>c. c\<lparr>tn_frames_rx := tn_frames_rx c + 1\<rparr>) tp)
      in tp_send_fc (tp_arm_n_cr (p\<lparr>tp_rx_buffer := write_at (tp_rx_buffer p) 0 (take 6 msg),
             tp_rx_total := of_nat (length msg), tp_rx_received := 6, tp_rx_expected_sn := 1,
             tp_rx_state := TP_STATE_FIRST_FRAME\<rparr>))
           [0x30, tf_fc_block_size (tp_config tp), tf_fc_stmin (tp_config tp)])"

lemma accept_ff:
  assumes "tp_ok tp" and "tp_rx_state tp = TP_STATE_IDLE"
    and "7 < length msg" and "length msg \<le> 4095" and "length msg \<le> tp_rx_capacity tp"
  shows "tp_rx_frame tp (Some (ff_frame msg)) = Some (TP_OK, ff_stored tp msg)"
    and "awaiting (ff_stored tp msg) (take 6 msg) (drop 6 msg)"
    and "tp_rx_expected_sn (ff_stored tp msg) = 1"
    and "on_message_of (ff_stored tp msg) = on_message_of tp"
    and "tp_world (ff_stored tp msg) =
      fc_world tp [0x30, tf_fc_block_size (tp_config tp), tf_fc_stmin (tp_config tp)]"
proof -
  note h = ff_header [OF assms(4)]
  have t: "unat (of_nat (length msg) :: u16) = length msg" using assms(4) by (simp add: unat_of_nat_small)
  show "tp_rx_frame tp (Some (ff_frame msg)) = Some (TP_OK, ff_stored tp msg)"
    using assms h t
    by (simp add: tp_rx_frame_def tp_rx_handle_ff_def ff_frame_def ff_stored_def tp_ok_def Let_def tp_bounds
        tp_arm_n_cr_def)
  have buf: "length (write_at (tp_rx_buffer tp) 0 (take 6 msg)) = length (tp_rx_buffer tp)"
    using assms(3,5) rx_capacity_le [OF assms(1)] by (intro length_write_at) simp
  show "awaiting (ff_stored tp msg) (take 6 msg) (drop 6 msg)"
    using assms buf rx_capacity_le [OF assms(1)] take_write_at [of 0 "take 6 msg" "tp_rx_buffer tp"]
    by (simp add: awaiting_def ff_stored_def tp_arm_n_cr_def Let_def tp_ok_def min_def)
  show "tp_rx_expected_sn (ff_stored tp msg) = 1"
    "on_message_of (ff_stored tp msg) = on_message_of tp"
    by (simp_all add: ff_stored_def tp_arm_n_cr_def Let_def on_message_of_def)
  show "tp_world (ff_stored tp msg) =
      fc_world tp [0x30, tf_fc_block_size (tp_config tp), tf_fc_stmin (tp_config tp)]"
    unfolding ff_stored_def Let_def send_fc_fields fc_world_def
    by (rule emit_world_cong) (simp_all add: tp_arm_n_cr_def)
qed

lemma reassemble:
  assumes "tp_ok tp" and "tp_rx_state tp = TP_STATE_IDLE" and "on_message_of tp = Some f"
    and "msg \<noteq> []" and "length msg \<le> 4095" and "length msg \<le> tp_rx_capacity tp"
  shows "\<exists>tp'. tp_feed tp (tp_segments msg) =
      Some (replicate (length (tp_segments msg) - 1) TP_OK @ [TP_OK_MESSAGE], tp')
    \<and> tp_rx_state tp' = TP_STATE_IDLE
    \<and> tp_world tp' = f (if length msg \<le> 7 then tp_world tp
        else fc_world tp [0x30, tf_fc_block_size (tp_config tp), tf_fc_stmin (tp_config tp)]) msg"
proof (cases "length msg \<le> 7")
  case True
  then show ?thesis
    using reassemble_sf [OF assms(1-4)] assms(6) by (auto simp: tp_segments_def delivered_def)
next
  case False
  note ff = accept_ff [OF assms(1,2) _ assms(5,6)]
  obtain tp' where tp': "tp_feed (ff_stored tp msg) (cf_frames 1 (drop 6 msg)) =
      Some (replicate ((length (drop 6 msg) - 1) div 7) TP_OK @ [TP_OK_MESSAGE], tp')"
    "delivered (ff_stored tp msg) f msg tp'"
    using reassemble_cfs [OF ff(2), of f] ff(3,4) False assms(3) by auto
  have "length (tp_segments msg) - 1 = Suc ((length (drop 6 msg) - 1) div 7)"
    using False by (simp add: tp_segments_def length_cf_frames)
  moreover have "tp_feed tp (tp_segments msg) = do {
      (sts, tp2) \<leftarrow> tp_feed (ff_stored tp msg) (cf_frames 1 (drop 6 msg)); Some (TP_OK # sts, tp2) }"
    using False ff(1) by (simp add: tp_segments_def)
  ultimately have "tp_feed tp (tp_segments msg) =
      Some (replicate (length (tp_segments msg) - 1) TP_OK @ [TP_OK_MESSAGE], tp')"
    unfolding tp'(1) by simp
  then show ?thesis using tp'(2) ff(5) False by (simp add: delivered_def)
qed

subsection \<open>Segmentation\<close>

text \<open>A sink that accepts every frame and does \<open>h\<close> with it.\<close>

definition accepting :: "('w, 'c) transport \<Rightarrow> ('w \<Rightarrow> tp_frame_kind \<times> u8 list \<Rightarrow> 'w) \<Rightarrow> bool" where
  "accepting tp h \<longleftrightarrow> (\<exists>s g. tp_sink tp = Some s \<and> sk_on_frame_tx s = Some g \<and>
     (\<forall>w fr. g w fr = (True, h w fr)))"

lemma accepting_cong: "tp_sink p = tp_sink q \<Longrightarrow> accepting p h = accepting q h"
  by (simp add: accepting_def)

lemma emit_accepting:
  assumes "accepting tp h"
  shows "tp_can_transmit tp" and "tp_emit_frame tp k fr = (True, count_tp
    (\<lambda>c. count_frame_kind k (c\<lparr>tn_frames_tx := tn_frames_tx c + 1\<rparr>)) (tp\<lparr>tp_world := h (tp_world tp) (k, fr)\<rparr>))"
  using assms by (auto simp: accepting_def tp_emit_frame_def tp_can_transmit_def Let_def)

text \<open>
  A session that still has to send the bytes \<open>bs\<close> from offset \<open>tx_sent\<close>, with room for all their frames
  in the current block.
\<close>

definition sending :: "('w, 'c) transport \<Rightarrow> u8 list \<Rightarrow> bool" where
  "sending tp bs \<longleftrightarrow> tp_tx_state tp = TP_STATE_CONSECUTIVE_FRAME \<and> bs \<noteq> [] \<and>
     tp_tx_next_sn tp < 16 \<and>
     (tp_tx_block_unlimited tp \<or> (length bs + 6) div 7 \<le> unat (tp_tx_block_remaining tp)) \<and>
     unat (tp_tx_total tp) \<le> length (tp_tx_buffer tp) \<and>
     unat (tp_tx_total tp) = unat (tp_tx_sent tp) + length bs \<and>
     drop (unat (tp_tx_sent tp)) (take (unat (tp_tx_total tp)) (tp_tx_buffer tp)) = bs \<and>
     pd_kind (tp_tx_pending tp) = TX_FRAME_NONE"

text \<open>The session after its next Consecutive Frame has been accepted.\<close>

definition cf_gone :: "('w \<Rightarrow> tp_frame_kind \<times> u8 list \<Rightarrow> 'w) \<Rightarrow> u8 list \<Rightarrow> ('w, 'c) transport \<Rightarrow> ('w, 'c) transport" where
  "cf_gone h bs tp = tp_cf_sent
     (count_tp (\<lambda>c. count_frame_kind TX_FRAME_CF (c\<lparr>tn_frames_tx := tn_frames_tx c + 1\<rparr>))
       (tp\<lparr>tp_world := h (tp_world tp) (TX_FRAME_CF, (0x20 OR tp_tx_next_sn tp) # take 7 bs)\<rparr>))
     (tp_tx_next_sn tp) (of_nat (length (take 7 bs)))"

lemma cf_gone_fields [simp]:
  "tp_world (cf_gone h bs tp) = h (tp_world tp) (TX_FRAME_CF, (0x20 OR tp_tx_next_sn tp) # take 7 bs)"
  "tp_tx_next_sn (cf_gone h bs tp) = (tp_tx_next_sn tp + 1) AND 0x0F"
  "tp_tx_stmin_us (cf_gone h bs tp) = tp_tx_stmin_us tp" "tp_now_us (cf_gone h bs tp) = tp_now_us tp"
  "tp_tx_next_cf_us (cf_gone h bs tp) = time_sat_add (tp_now_us tp) (ucast (tp_tx_stmin_us tp))"
  "tp_tx_pending (cf_gone h bs tp) = tp_tx_pending tp" "tp_sink (cf_gone h bs tp) = tp_sink tp"
  "tp_tx_total (cf_gone h bs tp) = tp_tx_total tp" "tp_tx_state (cf_gone h bs tp) = tp_tx_state tp"
  "tp_tx_buffer (cf_gone h bs tp) = tp_tx_buffer tp" "tp_rx_state (cf_gone h bs tp) = tp_rx_state tp"
  "tp_rx_pending_fc (cf_gone h bs tp) = tp_rx_pending_fc tp" "tp_clock (cf_gone h bs tp) = tp_clock tp"
  "tp_initialized (cf_gone h bs tp) = tp_initialized tp"
  "accepting (cf_gone h bs tp) h' = accepting tp h'"
  by (simp_all add: cf_gone_def tp_cf_sent_def count_tp_def accepting_def)

lemma frame_count_step:
  assumes "7 < n" shows "(n + 6) div 7 = Suc ((n - 7 + 6) div 7)"
  using assms le_div_geq [of 7 "n + 6"] by simp

lemma sending_step:
  assumes "sending tp bs" and "tp_tx_next_cf_us tp \<le> tp_now_us tp" and "accepting tp h"
  shows "tp_tx_pump_cf tp = (if length bs \<le> 7 then tp_tx_complete (cf_gone h bs tp)
      else tp_tx_pump_cf (cf_gone h bs tp))"
    and "7 < length bs \<Longrightarrow> sending (cf_gone h bs tp) (drop 7 bs)"
proof -
  note m = assms(1) [unfolded sending_def]
  let ?s = "unat (tp_tx_sent tp)" and ?t = "unat (tp_tx_total tp)" and ?sn = "tp_tx_next_sn tp"
  let ?r = "tp_tx_block_remaining tp"
  have ne: "bs \<noteq> []" and len: "?t = ?s + length bs" and sn: "?sn < 16" using m by blast+
  have bs: "drop ?s (take ?t (tp_tx_buffer tp)) = bs" using m by blast
  have "1 \<le> (length bs + 6) div 7" using ne by (cases bs) simp_all
  then have room: "tp_tx_block_unlimited tp \<or> 0 < ?r" using m by (auto simp: word_less_nat_alt)
  then have due: "tp_cf_due tp" using m ne assms(2) by (simp add: tp_cf_due_def word_less_nat_alt)
  have lt: "tp_tx_sent tp < tp_tx_total tp" using due by (simp add: tp_cf_due_def)
  have chunk: "tp_cf_chunk tp = length (take 7 bs)"
    using len by (simp add: tp_cf_chunk_def tp_bounds unat_minus_le)
  have "?sn AND 0x0F = ?sn" using nibble_values [OF sn] by auto
  moreover have "take (length (take 7 bs)) (drop ?s (tp_tx_buffer tp)) = take 7 bs"
  proof -
    have "take 7 bs = take (length (take 7 bs)) bs" by (cases "length bs \<le> 7") simp_all
    also have "\<dots> = take (length (take 7 bs)) (drop ?s (take ?t (tp_tx_buffer tp)))" by (simp only: bs)
    also have "\<dots> = take (length (take 7 bs)) (drop ?s (tp_tx_buffer tp))"
      using len by (simp add: drop_take min_def)
    finally show ?thesis ..
  qed
  ultimately have frame: "tp_cf_frame tp = (0x20 OR ?sn) # take 7 bs"
    by (simp add: tp_cf_frame_def chunk)
  let ?q = "cf_gone h bs tp"
  have sent: "unat (tp_tx_sent ?q) = ?s + length (take 7 bs)"
    using tp_cf_chunk_bounds(5) [OF lt] chunk by (simp add: cf_gone_def tp_cf_sent_def count_tp_def)
  have last: "tp_tx_sent ?q \<ge> tp_tx_total ?q \<longleftrightarrow> length bs \<le> 7"
    using sent len by (auto simp: word_le_nat_alt)
  have unl: "tp_tx_block_unlimited ?q = tp_tx_block_unlimited tp"
    "tp_tx_block_remaining ?q = (if \<not> tp_tx_block_unlimited tp \<and> 0 < ?r then ?r - 1 else ?r)"
    by (simp_all add: cf_gone_def tp_cf_sent_def count_tp_def)
  have block: "tp_tx_block_unlimited ?q \<or> (length (drop 7 bs) + 6) div 7 \<le> unat (tp_tx_block_remaining ?q)"
    if "7 < length bs"
  proof (cases "tp_tx_block_unlimited tp")
    case False
    then have "Suc ((length bs - 7 + 6) div 7) \<le> unat ?r" using m frame_count_step [OF that] by simp
    moreover have "unat (?r - 1) = unat ?r - 1" if "1 \<le> unat ?r" using that by (subst unat_minus_le) simp_all
    ultimately show ?thesis using False room unl by simp
  qed (simp add: unl)
  have more: "\<not> (\<not> tp_tx_block_unlimited ?q \<and> tp_tx_block_remaining ?q = 0)" if "7 < length bs"
  proof -
    have "1 \<le> (length (drop 7 bs) + 6) div 7" using that by simp
    then show ?thesis using block [OF that] by auto
  qed
  have e: "tp_emit_frame tp TX_FRAME_CF (tp_cf_frame tp) = (True, count_tp
      (\<lambda>c. count_frame_kind TX_FRAME_CF (c\<lparr>tn_frames_tx := tn_frames_tx c + 1\<rparr>))
      (tp\<lparr>tp_world := h (tp_world tp) (TX_FRAME_CF, (0x20 OR ?sn) # take 7 bs)\<rparr>))"
    unfolding frame by (rule emit_accepting(2) [OF assms(3)])
  have "tp_tx_pump_cf tp = (if tp_tx_sent ?q \<ge> tp_tx_total ?q then tp_tx_complete ?q
      else if \<not> tp_tx_block_unlimited ?q \<and> tp_tx_block_remaining ?q = 0 then tp_await_fc ?q
      else tp_tx_pump_cf ?q)"
    using due by (subst tp_tx_pump_cf.simps) (simp add: e chunk Let_def cf_gone_def)
  then show "tp_tx_pump_cf tp = (if length bs \<le> 7 then tp_tx_complete ?q else tp_tx_pump_cf ?q)"
    using last more by (cases "length bs \<le> 7") (simp_all del: cf_gone_fields)
  show "sending ?q (drop 7 bs)" if "7 < length bs"
  proof -
    have "drop (unat (tp_tx_sent ?q)) (take ?t (tp_tx_buffer tp)) = drop 7 bs"
      using that sent drop_drop [of 7 ?s "take ?t (tp_tx_buffer tp)"] by (simp add: bs add.commute)
    then show ?thesis
      using that m sent len cf_header(3) [OF sn] block [OF that] by (simp add: sending_def)
  qed
qed

definition cf_world :: "('w \<Rightarrow> tp_frame_kind \<times> u8 list \<Rightarrow> 'w) \<Rightarrow> 'w \<Rightarrow> u8 list list \<Rightarrow> 'w" where
  "cf_world h w fs = foldl h w (List.map (Pair TX_FRAME_CF) fs)"

definition all_sent :: "('w, 'c) transport \<Rightarrow> 'w \<Rightarrow> bool" where
  "all_sent tp w \<longleftrightarrow> tp_tx_state tp = TP_STATE_IDLE \<and> pd_kind (tp_tx_pending tp) = TX_FRAME_NONE \<and>
     tp_world tp = w"

lemma time_sat_add_0: "time_sat_add t 0 = t"
  using unat_u64_lt [of t] by (simp add: word_eq_unat unat_time_sat_add)

text \<open>Without separation time the whole session goes out in one burst.\<close>

lemma burst_sends:
  assumes "sending tp bs" and "tp_tx_next_cf_us tp \<le> tp_now_us tp" and "tp_tx_stmin_us tp = 0"
    and "accepting tp h"
  shows "all_sent (tp_tx_pump_cf tp) (cf_world h (tp_world tp) (cf_frames (tp_tx_next_sn tp) bs))"
  using assms
proof (induction "length bs" arbitrary: tp bs rule: less_induct)
  case less
  note step = sending_step [OF less.prems(1,2,4)]
  have ne: "bs \<noteq> []" "pd_kind (tp_tx_pending tp) = TX_FRAME_NONE" using less.prems(1) by (simp_all add: sending_def)
  show ?case
  proof (cases "length bs \<le> 7")
    case True
    then show ?thesis
      using step(1) ne by (simp add: all_sent_def tp_tx_complete_def cf_frames_step cf_world_def)
  next
    case False
    let ?q = "cf_gone h bs tp"
    have "all_sent (tp_tx_pump_cf ?q) (cf_world h (tp_world ?q) (cf_frames (tp_tx_next_sn ?q) (drop 7 bs)))"
      by (rule less.hyps) (use False step(2) less.prems(3,4) in \<open>simp_all add: time_sat_add_0\<close>)
    then show ?thesis
      using False step(1) ne by (simp add: cf_frames_step [OF ne(1)] cf_world_def)
  qed
qed

lemma emit_timeouts [simp]:
  "tn_timeouts (tp_counters (snd (tp_emit_frame tp k fr))) = tn_timeouts (tp_counters tp)"
  by (cases k) (simp_all add: tp_emit_frame_def Let_def split: prod.split bool.split)

lemma pump_cf_timeouts: "tn_timeouts (tp_counters (tp_tx_pump_cf tp)) = tn_timeouts (tp_counters tp)"
proof (induction tp rule: tp_tx_pump_cf.induct)
  case (1 tp)
  obtain b p where e: "tp_emit_frame tp TX_FRAME_CF (tp_cf_frame tp) = (b, p)" by force
  then have t: "tn_timeouts (tp_counters p) = tn_timeouts (tp_counters tp)"
    using emit_timeouts [of tp TX_FRAME_CF "tp_cf_frame tp"] by simp
  let ?q = "tp_cf_sent p (tp_tx_next_sn p) (of_nat (tp_cf_chunk tp))"
  have tq: "tn_timeouts (tp_counters ?q) = tn_timeouts (tp_counters tp)" using t by (simp add: tp_cf_sent_def)
  have "tn_timeouts (tp_counters (tp_tx_pump_cf ?q)) = tn_timeouts (tp_counters ?q)"
    if "tp_cf_due tp" "b" "\<not> tp_tx_sent ?q \<ge> tp_tx_total ?q"
      "\<not> (\<not> tp_tx_block_unlimited ?q \<and> tp_tx_block_remaining ?q = 0)"
    using 1 [OF _ refl e [symmetric] _ refl] that by simp
  then show ?case
    using t tq e by (subst tp_tx_pump_cf.simps)
      (simp add: Let_def tp_tx_complete_def tp_await_fc_def tp_arm_n_bs_def split: bool.split)
qed

text \<open>\<open>send\<close> of a long message: the First Frame goes out, the session waits for Flow Control.\<close>

definition ff_sent :: "('w, 'c) transport \<Rightarrow> ('w \<Rightarrow> tp_frame_kind \<times> u8 list \<Rightarrow> 'w) \<Rightarrow> u8 list \<Rightarrow> ('w, 'c) transport" where
  "ff_sent tp h msg =
     (let p = count_tp (\<lambda>c. c\<lparr>tn_tx_messages_requested := tn_tx_messages_requested c + 1\<rparr>) tp;
          q = count_tp (\<lambda>c. count_frame_kind TX_FRAME_FF (c\<lparr>tn_frames_tx := tn_frames_tx c + 1\<rparr>))
            (p\<lparr>tp_tx_buffer := write_at (tp_tx_buffer p) 0 msg, tp_tx_total := of_nat (length msg),
               tp_tx_next_sn := 1, tp_tx_wait_frames := 0,
               tp_world := h (tp_world p) (TX_FRAME_FF, ff_frame msg)\<rparr>)
      in tp_arm_n_bs (q\<lparr>tp_tx_sent := 6, tp_tx_state := TP_STATE_FLOW_CONTROL\<rparr>))"

lemma send_long:
  assumes "tp_ok tp" and "\<not> tp_tx_busy tp" and "accepting tp h"
    and "7 < length msg" and "length msg \<le> 4095" and "length msg \<le> tp_tx_capacity tp"
  shows "tp_send tp (Some msg) = (TP_OK, ff_sent tp h msg)"
proof -
  let ?r = "count_tp (\<lambda>c. c\<lparr>tn_tx_messages_requested := tn_tx_messages_requested c + 1\<rparr>) tp
      \<lparr>tp_tx_buffer := write_at (tp_tx_buffer tp) 0 msg, tp_tx_total := of_nat (length msg),
       tp_tx_next_sn := 1, tp_tx_wait_frames := 0\<rparr>"
  have "accepting ?r h" "msg \<noteq> []" using assms(3,4) accepting_cong [of ?r tp h] by auto
  then show ?thesis
    using assms emit_accepting(1) [OF assms(3)]
    by (simp add: tp_send_def Let_def tp_ok_def tp_bounds emit_accepting(2) ff_frame_def ff_sent_def)
qed

lemma send_short:
  assumes "tp_ok tp" and "\<not> tp_tx_busy tp" and "accepting tp h"
    and "msg \<noteq> []" and "length msg \<le> 7" and "length msg \<le> tp_tx_capacity tp"
  shows "\<exists>tp'. tp_send tp (Some msg) = (TP_OK, tp') \<and>
    all_sent tp' (h (tp_world tp) (TX_FRAME_SF, of_nat (length msg) # msg))"
proof -
  let ?r = "count_tp (\<lambda>c. c\<lparr>tn_tx_messages_requested := tn_tx_messages_requested c + 1\<rparr>) tp"
  have "accepting ?r h" using assms(3) accepting_cong [of ?r tp h] by simp
  then show ?thesis
    using assms emit_accepting(1) [OF assms(3)]
    by (simp add: tp_send_def Let_def tp_ok_def tp_bounds emit_accepting(2) all_sent_def tp_tx_busy_def)
qed

text \<open>A tick with nothing pending and no session waiting is the burst of Consecutive Frames.\<close>

lemma quiet_tick:
  assumes "tp_initialized p" and "tp_rx_state (tp_advance_clock p) = TP_STATE_IDLE"
    and "tp_tx_state (tp_advance_clock p) \<noteq> TP_STATE_FLOW_CONTROL"
    and "pd_kind (tp_rx_pending_fc (tp_advance_clock p)) = TX_FRAME_NONE"
    and "pd_kind (tp_tx_pending (tp_advance_clock p)) = TX_FRAME_NONE"
    and "tn_timeouts (tp_counters (tp_advance_clock p)) = tn_timeouts (tp_counters p)"
  shows "tp_tick p = Some (TP_OK, tp_tx_pump_cf (tp_advance_clock p))"
  using assms pump_cf_timeouts [of "tp_advance_clock p"]
  by (simp add: tp_tick_def tp_check_n_cr_def tp_check_n_bs_def tp_pump_rx_pending_def tp_pump_tx_def)

end
