(* ===== verification/Transport_Link.thy ===== *)
theory Transport_Link
  imports Transport_Segments
begin

text \<open>
  Two ISO-TP engines on one lossless wire: what one hands its sink is fed to the other, in both
  directions, and both tick on their internal time base. The lemmas follow a message from the sender's
  First Frame through the receiver's Flow Control and the paced Consecutive Frames to its delivery.
\<close>

subsection \<open>The wire\<close>

text \<open>The world of an engine on the wire: the frames it has emitted and the messages it was given. Its sink
  accepts every frame.\<close>

type_synonym link_world = "(tp_frame_kind \<times> u8 list) list \<times> u8 list list"
type_synonym 'c linked = "(link_world, 'c) transport"

definition link_emit :: "link_world \<Rightarrow> tp_frame_kind \<times> u8 list \<Rightarrow> link_world" where
  "link_emit w fr = (fst w @ [fr], snd w)"

definition link_message :: "link_world \<Rightarrow> u8 list \<Rightarrow> link_world" where
  "link_message w m = (fst w, snd w @ [m])"

definition link_sink :: "link_world tp_sink" where
  "link_sink = \<lparr>sk_on_frame_tx = Some (\<lambda>w fr. (True, link_emit w fr)), sk_on_message = Some link_message\<rparr>"

text \<open>The emitted frames leave the engine; \<open>link_deliver\<close> carries those of the first engine to the second
  and its answers back.\<close>

definition link_take :: "'c linked \<Rightarrow> u8 list list \<times> 'c linked" where
  "link_take tp = (List.map snd (fst (tp_world tp)), tp\<lparr>tp_world := ([], snd (tp_world tp))\<rparr>)"

definition link_deliver :: "'c linked \<times> 'c linked \<Rightarrow> ('c linked \<times> 'c linked) option" where
  "link_deliver p = (case link_take (fst p) of (out, a) \<Rightarrow> do {
     (_, b) \<leftarrow> tp_feed (snd p) out;
     case link_take b of (back, b') \<Rightarrow> do {
       (_, a') \<leftarrow> tp_feed a back;
       Some (a', b') } })"

definition link_round :: "'c linked \<times> 'c linked \<Rightarrow> ('c linked \<times> 'c linked) option" where
  "link_round p = do {
     (_, a1) \<leftarrow> tp_tick (fst p);
     (a2, b1) \<leftarrow> link_deliver (a1, snd p);
     (_, b2) \<leftarrow> tp_tick b1;
     link_deliver (a2, b2) }"

fun link_rounds :: "nat \<Rightarrow> 'c linked \<times> 'c linked \<Rightarrow> ('c linked \<times> 'c linked) option" where
  "link_rounds 0 p = Some p"
| "link_rounds (Suc n) p = do { p1 \<leftarrow> link_round p; link_rounds n p1 }"

definition link_transfer :: "u8 list \<Rightarrow> nat \<Rightarrow> 'c linked \<times> 'c linked \<Rightarrow> ('c linked \<times> 'c linked) option" where
  "link_transfer msg n p = do {
     p1 \<leftarrow> link_deliver (snd (tp_send (fst p) (Some msg)), snd p);
     link_rounds n p1 }"

subsection \<open>The states of an engine on the wire\<close>

definition on_link :: "'c linked \<Rightarrow> u8 list list \<Rightarrow> bool" where
  "on_link tp ms \<longleftrightarrow> tp_initialized tp \<and> tp_sink tp = Some link_sink \<and> tp_clock tp = None \<and>
     tp_world tp = ([], ms) \<and> pd_kind (tp_rx_pending_fc tp) = TX_FRAME_NONE"

definition shipping :: "'c linked \<Rightarrow> u8 list list \<Rightarrow> u8 list \<Rightarrow> bool" where
  "shipping a ms bs \<longleftrightarrow> on_link a ms \<and> sending a bs \<and> tp_rx_state a = TP_STATE_IDLE"

definition receiving :: "'c linked \<Rightarrow> u8 list list \<Rightarrow> u8 list \<Rightarrow> u8 list \<Rightarrow> bool" where
  "receiving b ms got bs \<longleftrightarrow> on_link b ms \<and> awaiting b got bs \<and> tp_tx_state b = TP_STATE_IDLE \<and>
     pd_kind (tp_tx_pending b) = TX_FRAME_NONE"

definition resting :: "'c linked \<Rightarrow> u8 list list \<Rightarrow> bool" where
  "resting b ms \<longleftrightarrow> on_link b ms \<and> tp_rx_state b = TP_STATE_IDLE \<and> tp_tx_state b = TP_STATE_IDLE \<and>
     pd_kind (tp_tx_pending b) = TX_FRAME_NONE"

lemma link_accepting: "tp_sink tp = Some link_sink \<Longrightarrow> accepting tp link_emit"
  by (simp add: accepting_def link_sink_def)

lemma link_message_of: "tp_sink tp = Some link_sink \<Longrightarrow> on_message_of tp = Some link_message"
  by (simp add: on_message_of_def link_sink_def)

lemma link_take_nothing: "tp_world tp = ([], ms) \<Longrightarrow> link_take tp = ([], tp)"
  by (cases tp) (simp add: link_take_def)

lemma advance_clock_fields [simp]:
  "tp_clock tp = None \<Longrightarrow> tp_now_us (tp_advance_clock tp) = time_sat_add (tp_now_us tp) 1000"
  "tp_initialized (tp_advance_clock tp) = tp_initialized tp" "tp_sink (tp_advance_clock tp) = tp_sink tp"
  "tp_clock (tp_advance_clock tp) = tp_clock tp" "tp_world (tp_advance_clock tp) = tp_world tp"
  "tp_rx_state (tp_advance_clock tp) = tp_rx_state tp" "tp_tx_state (tp_advance_clock tp) = tp_tx_state tp"
  "tp_rx_pending_fc (tp_advance_clock tp) = tp_rx_pending_fc tp"
  "tp_tx_pending (tp_advance_clock tp) = tp_tx_pending tp"
  "tp_rx_deadline_us (tp_advance_clock tp) = tp_rx_deadline_us tp"
  "tp_n_cr_ms (tp_advance_clock tp) = tp_n_cr_ms tp" "tp_tx_next_sn (tp_advance_clock tp) = tp_tx_next_sn tp"
  "tp_rx_expected_sn (tp_advance_clock tp) = tp_rx_expected_sn tp"
  "tp_tx_stmin_us (tp_advance_clock tp) = tp_tx_stmin_us tp"
  "tp_tx_next_cf_us (tp_advance_clock tp) = tp_tx_next_cf_us tp"
  "tn_timeouts (tp_counters (tp_advance_clock tp)) = tn_timeouts (tp_counters tp)"
  by (simp_all add: tp_advance_clock_def Let_def count_tp_def split: option.split)

lemma advance_clock_states [simp]:
  "sending (tp_advance_clock tp) bs = sending tp bs" "awaiting (tp_advance_clock tp) got bs = awaiting tp got bs"
  "on_link (tp_advance_clock a) ms = on_link a ms" "shipping (tp_advance_clock a) ms bs = shipping a ms bs"
  "receiving (tp_advance_clock a) ms got bs = receiving a ms got bs"
  "resting (tp_advance_clock a) ms = resting a ms"
proof -
  show s: "sending (tp_advance_clock tp) bs = sending tp bs" for tp :: "('w, 'd) transport"
    by (simp add: sending_def tp_advance_clock_def Let_def count_tp_def split: option.split)
  show a: "awaiting (tp_advance_clock tp) got bs = awaiting tp got bs" for tp :: "('w, 'd) transport"
    by (simp add: awaiting_def tp_advance_clock_def Let_def count_tp_def split: option.split)
  show "on_link (tp_advance_clock a) ms = on_link a ms" "shipping (tp_advance_clock a) ms bs = shipping a ms bs"
    "receiving (tp_advance_clock a) ms got bs = receiving a ms got bs"
    "resting (tp_advance_clock a) ms = resting a ms"
    by (simp_all add: on_link_def shipping_def receiving_def resting_def s a)
qed

subsection \<open>One step of the receiver\<close>

lemma cf_stored_link [simp]:
  "on_link (cf_stored b chunk) ms = on_link b ms" "tp_tx_state (cf_stored b chunk) = tp_tx_state b"
  "tp_tx_pending (cf_stored b chunk) = tp_tx_pending b" "tp_now_us (cf_stored b chunk) = tp_now_us b"
  "tp_n_cr_ms (cf_stored b chunk) = tp_n_cr_ms b"
  "tp_rx_deadline_us (cf_stored b chunk) = tp_deadline (tp_now_us b) (tp_n_cr_ms b)"
  "tp_initialized (cf_stored b chunk) = tp_initialized b" "tp_clock (cf_stored b chunk) = tp_clock b"
  "tp_rx_pending_fc (cf_stored b chunk) = tp_rx_pending_fc b"
  by (simp_all add: cf_stored_def tp_arm_n_cr_def Let_def on_link_def count_tp_def)

lemma receiving_step:
  assumes "receiving b ms got bs"
  shows "length bs \<le> 7 \<Longrightarrow> \<exists>b'. tp_rx_frame b (Some ((0x20 OR tp_rx_expected_sn b) # take 7 bs)) = Some (TP_OK_MESSAGE, b')
      \<and> resting b' (ms @ [got @ bs]) \<and> tp_now_us b' = tp_now_us b"
    and "7 < length bs \<Longrightarrow> tp_rx_frame b (Some ((0x20 OR tp_rx_expected_sn b) # take 7 bs)) = Some (TP_OK, cf_stored b (take 7 bs))
      \<and> receiving (cf_stored b (take 7 bs)) ms (got @ take 7 bs) (drop 7 bs)"
proof -
  have b: "on_link b ms" "awaiting b got bs" "tp_tx_state b = TP_STATE_IDLE" "pd_kind (tp_tx_pending b) = TX_FRAME_NONE"
    using assms by (simp_all add: receiving_def)
  note f = awaiting_frame [OF b(2)]
  show "tp_rx_frame b (Some ((0x20 OR tp_rx_expected_sn b) # take 7 bs)) = Some (TP_OK, cf_stored b (take 7 bs))
      \<and> receiving (cf_stored b (take 7 bs)) ms (got @ take 7 bs) (drop 7 bs)" if "7 < length bs"
    using that f awaiting_next(1) [OF b(2) that] b by (simp add: receiving_def)
  show "\<exists>b'. tp_rx_frame b (Some ((0x20 OR tp_rx_expected_sn b) # take 7 bs)) = Some (TP_OK_MESSAGE, b')
      \<and> resting b' (ms @ [got @ bs]) \<and> tp_now_us b' = tp_now_us b" if "length bs \<le> 7"
  proof -
    let ?q = "cf_stored b (take 7 bs)"
    have "awaiting b got bs" by (rule b(2))
    then have r: "tp_rx_received b = of_nat (length got)" "length got + length bs \<le> 4095"
      "length got + length bs \<le> length (tp_rx_buffer b)" "take (length got) (tp_rx_buffer b) = got"
      by (simp_all add: awaiting_def)
    then have "unat (tp_rx_received ?q) = length got + length bs"
      using that by (simp add: cf_stored_def tp_arm_n_cr_def Let_def unat_of_nat_small unat_plus_small count_tp_def)
    then have "take (unat (tp_rx_received ?q)) (tp_rx_buffer ?q) = got @ bs"
      using r that take_write_at [of "length got" bs "tp_rx_buffer b"]
      by (simp add: cf_stored_def tp_arm_n_cr_def Let_def count_tp_def unat_of_nat_small)
    then have "resting (tp_rx_finish ?q) (ms @ [got @ bs])" "tp_now_us (tp_rx_finish ?q) = tp_now_us b"
      using b link_message_of [of ?q]
      by (simp_all add: tp_rx_finish_def tp_deliver_rx_message_def Let_def resting_def on_link_def on_message_of_def
          link_sink_def link_message_def count_tp_def)
    then show ?thesis using f that by simp
  qed
qed

lemma feed_rest:
  assumes "receiving b ms got bs"
  shows "\<exists>sts b'. tp_feed b (cf_frames (tp_rx_expected_sn b) bs) = Some (sts, b') \<and> resting b' (ms @ [got @ bs])"
  using assms
proof (induction "length bs" arbitrary: b got bs rule: less_induct)
  case less
  have ne: "bs \<noteq> []" using less.prems by (simp add: receiving_def awaiting_def)
  note step = receiving_step [OF less.prems]
  show ?case
  proof (cases "length bs \<le> 7")
    case True
    then show ?thesis using step(1) ne by (auto simp: cf_frames_step)
  next
    case False
    let ?q = "cf_stored b (take 7 bs)"
    have q: "receiving ?q ms (got @ take 7 bs) (drop 7 bs)" using step(2) False by simp
    have sn: "tp_rx_expected_sn ?q = (tp_rx_expected_sn b + 1) AND 0x0F"
      using less.prems False awaiting_next(2) [of b got bs] by (simp add: receiving_def)
    obtain sts b' where "tp_feed ?q (cf_frames (tp_rx_expected_sn ?q) (drop 7 bs)) = Some (sts, b')"
      "resting b' (ms @ [(got @ take 7 bs) @ drop 7 bs])"
      using less.hyps [OF _ q] ne False by auto
    then show ?thesis using step(2) False by (simp add: cf_frames_step [OF ne] sn)
  qed
qed

subsection \<open>Ticks on the wire\<close>

lemma pump_cf_idle: "\<not> tp_cf_due tp \<Longrightarrow> tp_tx_pump_cf tp = tp"
  by (subst tp_tx_pump_cf.simps) simp

lemma receiver_tick:
  assumes "tp_initialized b" and "pd_kind (tp_rx_pending_fc b) = TX_FRAME_NONE" and "tp_clock b = None"
    and "tp_tx_state b = TP_STATE_IDLE" and "pd_kind (tp_tx_pending b) = TX_FRAME_NONE"
    and "tp_rx_state b = TP_STATE_FIRST_FRAME \<Longrightarrow> time_sat_add (tp_now_us b) 1000 < tp_rx_deadline_us b"
  shows "tp_tick b = Some (TP_OK, tp_advance_clock b)"
proof -
  let ?a = "tp_advance_clock b"
  have "tp_tx_pump_cf ?a = ?a" using assms(4) by (intro pump_cf_idle) (simp add: tp_cf_due_def)
  then show ?thesis
    using assms by (auto simp: tp_tick_def tp_check_n_cr_def tp_check_n_bs_def tp_pump_rx_pending_def tp_pump_tx_def
        not_le [symmetric])
qed

lemma sender_tick:
  assumes "shipping a ms bs"
  shows "tp_tick a = Some (TP_OK, tp_tx_pump_cf (tp_advance_clock a))"
proof (rule quiet_tick)
qed (use assms in \<open>simp_all add: shipping_def on_link_def sending_def\<close>)

subsection \<open>What a burst leaves alone\<close>

definition link_part :: "'c linked \<Rightarrow> bool \<times> link_world tp_sink option \<times> 'c clock option \<times> tp_state \<times> tp_pending" where
  "link_part tp = (tp_initialized tp, tp_sink tp, tp_clock tp, tp_rx_state tp, tp_rx_pending_fc tp)"

lemma link_part_emit [simp]: "link_part (snd (tp_emit_frame tp k fr)) = link_part tp"
  by (simp add: link_part_def)

lemma link_part_steps [simp]:
  "link_part (tp_tx_complete tp) = link_part tp" "link_part (tp_await_fc tp) = link_part tp"
  "link_part (tp\<lparr>tp_tx_pending := sl\<rparr>) = link_part tp" "link_part (tp_advance_clock tp) = link_part tp"
  "link_part (tp_cf_sent tp sn n) = link_part tp"
  by (simp_all add: link_part_def tp_tx_complete_def tp_await_fc_def tp_arm_n_bs_def tp_cf_sent_def)

lemma link_part_pump_cf [simp]: "link_part (tp_tx_pump_cf tp) = link_part tp"
proof (induction tp rule: tp_tx_pump_cf.induct)
  case (1 tp)
  obtain b p where e: "tp_emit_frame tp TX_FRAME_CF (tp_cf_frame tp) = (b, p)" by force
  then have t: "link_part p = link_part tp" using link_part_emit [of tp TX_FRAME_CF "tp_cf_frame tp"] by simp
  let ?q = "tp_cf_sent p (tp_tx_next_sn p) (of_nat (tp_cf_chunk tp))"
  have "link_part (tp_tx_pump_cf ?q) = link_part ?q"
    if "tp_cf_due tp" "b" "\<not> tp_tx_sent ?q \<ge> tp_tx_total ?q"
      "\<not> (\<not> tp_tx_block_unlimited ?q \<and> tp_tx_block_remaining ?q = 0)"
    using 1 [OF _ refl e [symmetric] _ refl] that by simp
  then show ?case
    using t e by (subst tp_tx_pump_cf.simps) (simp add: Let_def split: bool.split)
qed

subsection \<open>One round of the exchange\<close>

lemma link_deliver_nothing:
  "tp_world a = ([], ma) \<Longrightarrow> tp_world b = ([], mb) \<Longrightarrow> link_deliver (a, b) = Some (a, b)"
  by (simp add: link_deliver_def link_take_nothing)

lemma link_deliver_out:
  assumes "tp_world a = (frs, ma)" and "tp_feed b (List.map snd frs) = Some (sts, b')" and "tp_world b' = ([], mb)"
  shows "link_deliver (a, b) = Some (a\<lparr>tp_world := ([], ma)\<rparr>, b')"
  using assms by (simp add: link_deliver_def link_take_def link_take_nothing)

lemma map_snd_Pair [simp]: "List.map snd (List.map (Pair k) fs) = fs"
  by (induction fs) simp_all

lemma sending_world [simp]: "sending (tp\<lparr>tp_world := w\<rparr>) bs = sending tp bs"
  by (simp add: sending_def)

text \<open>Nothing is due in the round: both clocks advance.\<close>

lemma quiet_round:
  assumes "shipping a ma bs" and "receiving b mb got bs"
    and "time_sat_add (tp_now_us a) 1000 < tp_tx_next_cf_us a"
    and "time_sat_add (tp_now_us b) 1000 < tp_rx_deadline_us b"
  shows "link_round (a, b) = Some (tp_advance_clock a, tp_advance_clock b)"
proof -
  have w: "tp_clock a = None" "tp_clock b = None" "tp_world a = ([], ma)" "tp_world b = ([], mb)"
    using assms(1,2) by (simp_all add: shipping_def receiving_def on_link_def)
  have "tp_tx_pump_cf (tp_advance_clock a) = tp_advance_clock a"
    using assms(3) w by (intro pump_cf_idle) (simp add: tp_cf_due_def not_le)
  moreover have "tp_tick b = Some (TP_OK, tp_advance_clock b)"
    by (rule receiver_tick) (use assms(2,4) in \<open>simp_all add: receiving_def on_link_def\<close>)
  ultimately show ?thesis
    using sender_tick [OF assms(1)] w by (simp add: link_round_def link_deliver_nothing [of _ ma _ mb])
qed

text \<open>A round that ends the message: the sender hands over all remaining frames.\<close>

lemma last_round:
  assumes "shipping a ma bs" and "receiving b mb got bs" and "tp_rx_expected_sn b = tp_tx_next_sn a"
    and "all_sent (tp_tx_pump_cf (tp_advance_clock a))
      (List.map (Pair TX_FRAME_CF) (cf_frames (tp_tx_next_sn a) bs), ma)"
  shows "\<exists>a' b'. link_round (a, b) = Some (a', b') \<and> resting a' ma \<and> resting b' (mb @ [got @ bs])"
proof -
  let ?a = "tp_tx_pump_cf (tp_advance_clock a)"
  obtain sts b1 where b1: "tp_feed b (cf_frames (tp_tx_next_sn a) bs) = Some (sts, b1)"
    "resting b1 (mb @ [got @ bs])"
    using feed_rest [OF assms(2)] assms(3) by auto
  note r = b1(2) [unfolded resting_def on_link_def]
  have "link_part ?a = link_part a" by simp
  then have a: "resting (?a\<lparr>tp_world := ([], ma)\<rparr>) ma"
    using assms(1,4) by (simp add: shipping_def on_link_def resting_def all_sent_def link_part_def)
  have "link_deliver (?a, b) = Some (?a\<lparr>tp_world := ([], ma)\<rparr>, b1)"
  proof (rule link_deliver_out)
    show "tp_world ?a = (List.map (Pair TX_FRAME_CF) (cf_frames (tp_tx_next_sn a) bs), ma)"
      using assms(4) by (simp add: all_sent_def)
    show "tp_feed b (List.map snd (List.map (Pair TX_FRAME_CF) (cf_frames (tp_tx_next_sn a) bs))) = Some (sts, b1)"
      unfolding map_snd_Pair by (rule b1(1))
    show "tp_world b1 = ([], mb @ [got @ bs])" using r by simp
  qed
  moreover have "tp_tick b1 = Some (TP_OK, tp_advance_clock b1)"
    by (rule receiver_tick) (use r in simp_all)
  moreover have "link_deliver (?a\<lparr>tp_world := ([], ma)\<rparr>, tp_advance_clock b1)
      = Some (?a\<lparr>tp_world := ([], ma)\<rparr>, tp_advance_clock b1)"
    by (rule link_deliver_nothing) (use r in simp_all)
  ultimately show ?thesis
    using sender_tick [OF assms(1)] a b1(2) by (simp add: link_round_def)
qed

text \<open>A round that moves one frame, the next one being held back by the separation time.\<close>

lemma paced_round:
  assumes "shipping a ma bs" and "receiving b mb got bs" and "tp_rx_expected_sn b = tp_tx_next_sn a"
    and "7 < length bs" and "tp_tx_next_cf_us a \<le> time_sat_add (tp_now_us a) 1000"
    and "time_sat_add (tp_now_us a) 1000 < time_sat_add (time_sat_add (tp_now_us a) 1000) (ucast (tp_tx_stmin_us a))"
    and "time_sat_add (tp_now_us b) 1000 < tp_deadline (tp_now_us b) (tp_n_cr_ms b)"
  shows "\<exists>a' b'. link_round (a, b) = Some (a', b') \<and> shipping a' ma (drop 7 bs) \<and>
    receiving b' mb (got @ take 7 bs) (drop 7 bs) \<and> tp_rx_expected_sn b' = tp_tx_next_sn a' \<and>
    tp_now_us a' = time_sat_add (tp_now_us a) 1000 \<and> tp_now_us b' = time_sat_add (tp_now_us b) 1000 \<and>
    tp_tx_next_cf_us a' = time_sat_add (tp_now_us a') (ucast (tp_tx_stmin_us a)) \<and>
    tp_tx_stmin_us a' = tp_tx_stmin_us a \<and> tp_n_cr_ms b' = tp_n_cr_ms b \<and>
    tp_rx_deadline_us b' = tp_deadline (tp_now_us b) (tp_n_cr_ms b)"
proof -
  let ?a = "tp_advance_clock a" and ?b = "cf_stored b (take 7 bs)"
  let ?g = "cf_gone link_emit bs ?a"
  let ?a1 = "?g\<lparr>tp_world := ([], ma)\<rparr>" and ?b1 = "tp_advance_clock ?b"
  have w: "tp_clock a = None" "tp_clock b = None" "tp_world a = ([], ma)" "tp_sink a = Some link_sink"
    using assms(1,2) by (simp_all add: shipping_def receiving_def on_link_def)
  have s: "sending ?a bs" and due: "tp_tx_next_cf_us ?a \<le> tp_now_us ?a" and acc: "accepting ?a link_emit"
    using assms(1,5) w link_accepting [of ?a] by (simp_all add: shipping_def)
  note step = sending_step [OF s due acc]
  have "\<not> tp_cf_due ?g" using assms(6) w by (simp add: tp_cf_due_def not_le)
  then have pump: "tp_tx_pump_cf ?a = ?g"
    using step(1) assms(4) by (simp add: pump_cf_idle)
  have sh: "shipping ?a1 ma (drop 7 bs)"
    using step(2) assms(1,4) by (simp add: shipping_def on_link_def)
  note rs = receiving_step(2) [OF assms(2,4)]
  have rb: "receiving ?b mb (got @ take 7 bs) (drop 7 bs)"
    and rf: "tp_rx_frame b (Some ((0x20 OR tp_rx_expected_sn b) # take 7 bs)) = Some (TP_OK, ?b)"
    using rs by simp_all
  have "link_deliver (?g, b) = Some (?a1, ?b)"
  proof (rule link_deliver_out)
    show "tp_world ?g = ([(TX_FRAME_CF, (0x20 OR tp_tx_next_sn a) # take 7 bs)], ma)"
      using w by (simp add: link_emit_def)
    show "tp_feed b (List.map snd [(TX_FRAME_CF, (0x20 OR tp_tx_next_sn a) # take 7 bs)]) = Some ([TP_OK], ?b)"
      using rf assms(3) by simp
    show "tp_world ?b = ([], mb)" using rb by (simp add: receiving_def on_link_def)
  qed
  moreover have "tp_tick ?b = Some (TP_OK, ?b1)"
    by (rule receiver_tick) (use rb assms(7) in \<open>simp_all add: receiving_def on_link_def\<close>)
  moreover have "link_deliver (?a1, ?b1) = Some (?a1, ?b1)"
    by (rule link_deliver_nothing [of _ ma _ mb]) (use rb in \<open>simp_all add: receiving_def on_link_def\<close>)
  ultimately have "link_round (a, b) = Some (?a1, ?b1)"
    using sender_tick [OF assms(1)] pump by (simp add: link_round_def)
  moreover have "tp_rx_expected_sn ?b = (tp_rx_expected_sn b + 1) AND 0x0F"
    using assms(2,4) awaiting_next(2) [of b got bs] by (simp add: receiving_def)
  ultimately show ?thesis using sh rb w assms(3) by simp
qed

text \<open>
  The clocks leave room for the rest of a message of \<open>n\<close> bytes: the next frame is due before the receiver's
  N\_Cr deadline, and neither clock saturates.
\<close>

definition timely :: "'c linked \<Rightarrow> 'c linked \<Rightarrow> nat \<Rightarrow> bool" where
  "timely a b n \<longleftrightarrow>
     (let wait = unat (tp_tx_next_cf_us a) - unat (tp_now_us a); s = unat (tp_tx_stmin_us a);
          d = 1000 * unat (tp_n_cr_ms b)
      in unat (tp_now_us b) + wait + 1000 < unat (tp_rx_deadline_us b) \<and> s + 2000 < d \<and>
         unat (tp_now_us a) + wait + n * (s + 2000) + 2000 < 2 ^ 64 \<and>
         unat (tp_now_us b) + wait + n * (s + 2000) + d + 2000 < 2 ^ 64)"

lemma sat_add_no_sat: "unat t + unat d < 2 ^ 64 \<Longrightarrow> unat (time_sat_add t d) = unat t + unat d" for t d :: u64
  by (simp add: unat_time_sat_add)

lemma unat_tp_deadline: "unat (tp_deadline now ms) = min (unat now + 1000 * unat ms) (2 ^ 64 - 1)"
proof -
  have "unat (ucast ms * 1000 :: u64) = 1000 * unat ms"
    using unat_u32_lt [of ms] by (simp add: unat_mult_small unat_ucast_up)
  then show ?thesis by (simp add: tp_deadline_def unat_time_sat_add)
qed

lemma deadline_no_sat: "unat now + 1000 * unat ms < 2 ^ 64 \<Longrightarrow>
    unat (tp_deadline now ms) = unat now + 1000 * unat ms"
  by (simp add: unat_tp_deadline)

lemma cf_world_link: "cf_world link_emit w fs = (fst w @ List.map (Pair TX_FRAME_CF) fs, snd w)"
  by (induction fs arbitrary: w) (simp_all add: cf_world_def link_emit_def)

lemma last_burst:
  assumes "shipping a ma bs" and "tp_tx_next_cf_us a \<le> time_sat_add (tp_now_us a) 1000"
    and "length bs \<le> 7 \<or> tp_tx_stmin_us a = 0"
  shows "all_sent (tp_tx_pump_cf (tp_advance_clock a))
      (List.map (Pair TX_FRAME_CF) (cf_frames (tp_tx_next_sn a) bs), ma)"
proof -
  let ?a = "tp_advance_clock a"
  have w: "tp_clock a = None" "tp_world a = ([], ma)" and ne: "bs \<noteq> []" "pd_kind (tp_tx_pending a) = TX_FRAME_NONE"
    using assms(1) by (simp_all add: shipping_def on_link_def sending_def)
  have s: "sending ?a bs" "tp_tx_next_cf_us ?a \<le> tp_now_us ?a" "accepting ?a link_emit"
    using assms(1,2) w link_accepting [of ?a] by (simp_all add: shipping_def on_link_def)
  have "all_sent (tp_tx_pump_cf ?a) (cf_world link_emit (tp_world ?a) (cf_frames (tp_tx_next_sn ?a) bs))"
  proof (cases "tp_tx_stmin_us a = 0")
    case True
    then show ?thesis using burst_sends [OF s(1,2) _ s(3)] by simp
  next
    case False
    then show ?thesis
      using assms(3) sending_step(1) [OF s] ne
      by (simp add: all_sent_def tp_tx_complete_def cf_frames_step [OF ne(1)] cf_world_def)
  qed
  then show ?thesis using w by (simp add: cf_world_link)
qed

lemma link_rounds_deliver:
  assumes "shipping a ma bs" and "receiving b mb got bs" and "tp_rx_expected_sn b = tp_tx_next_sn a"
    and "timely a b (length bs)"
  shows "\<exists>n a' b'. link_rounds n (a, b) = Some (a', b') \<and> resting a' ma \<and> resting b' (mb @ [got @ bs])"
  using assms
proof (induction "(unat (tp_tx_next_cf_us a) - unat (tp_now_us a)) + length bs * (unat (tp_tx_stmin_us a) + 2000)"
    arbitrary: a b got bs rule: less_induct)
  case less
  let ?s = "unat (tp_tx_stmin_us a)" and ?wait = "unat (tp_tx_next_cf_us a) - unat (tp_now_us a)"
  let ?d = "1000 * unat (tp_n_cr_ms b)"
  have t: "unat (tp_now_us b) + ?wait + 1000 < unat (tp_rx_deadline_us b)" "?s + 2000 < ?d"
    "unat (tp_now_us a) + ?wait + length bs * (?s + 2000) + 2000 < 2 ^ 64"
    "unat (tp_now_us b) + ?wait + length bs * (?s + 2000) + ?d + 2000 < 2 ^ 64"
    using less.prems(4) unfolding timely_def Let_def by blast+
  have ne: "bs \<noteq> []" using less.prems(1) by (simp add: shipping_def sending_def)
  have ticks: "unat (time_sat_add (tp_now_us a) 1000) = unat (tp_now_us a) + 1000"
    "unat (time_sat_add (tp_now_us b) 1000) = unat (tp_now_us b) + 1000"
    using t(3,4) by (simp_all add: sat_add_no_sat)
  have w: "tp_clock a = None" "tp_clock b = None" "tp_world a = ([], ma)" "tp_sink a = Some link_sink"
    using less.prems(1,2) by (simp_all add: shipping_def receiving_def on_link_def)
  consider (quiet) "\<not> tp_tx_next_cf_us a \<le> time_sat_add (tp_now_us a) 1000"
    | (last) "tp_tx_next_cf_us a \<le> time_sat_add (tp_now_us a) 1000" "length bs \<le> 7 \<or> tp_tx_stmin_us a = 0"
    | (paced) "tp_tx_next_cf_us a \<le> time_sat_add (tp_now_us a) 1000" "7 < length bs" "tp_tx_stmin_us a \<noteq> 0"
    by linarith
  then show ?case
  proof cases
    case quiet
    let ?a = "tp_advance_clock a" and ?b = "tp_advance_clock b"
    have later: "unat (tp_now_us a) + 1000 < unat (tp_tx_next_cf_us a)"
      using quiet ticks by (simp add: word_le_nat_alt)
    then have wait: "unat (tp_tx_next_cf_us ?a) - unat (tp_now_us ?a) + 1000 = ?wait" using w ticks by simp
    have "time_sat_add (tp_now_us b) 1000 < tp_rx_deadline_us b"
      using t(1) ticks by (simp add: word_less_nat_alt)
    then have r: "link_round (a, b) = Some (?a, ?b)"
      using quiet_round [OF less.prems(1,2)] quiet by simp
    have "timely ?a ?b (length bs)"
      using t wait later ticks w unfolding timely_def Let_def by simp
    moreover have "unat (tp_tx_next_cf_us ?a) - unat (tp_now_us ?a) + length bs * (unat (tp_tx_stmin_us ?a) + 2000)
        < ?wait + length bs * (?s + 2000)" using wait by simp
    ultimately have "\<exists>n a' b'. link_rounds n (?a, ?b) = Some (a', b') \<and> resting a' ma \<and> resting b' (mb @ [got @ bs])"
      using less.prems(1-3) by (intro less.hyps) simp_all
    then obtain n a' b' where "link_rounds n (?a, ?b) = Some (a', b')" "resting a' ma" "resting b' (mb @ [got @ bs])"
      by blast
    then show ?thesis using r by (intro exI [of _ "Suc n"]) simp
  next
    case last
    obtain a' b' where "link_round (a, b) = Some (a', b')" "resting a' ma" "resting b' (mb @ [got @ bs])"
      using last_round [OF less.prems(1-3) last_burst [OF less.prems(1) last]] by blast
    then show ?thesis by (intro exI [of _ 1]) simp
  next
    case paced
    have s0: "0 < ?s" using paced(3) by (simp add: unat_gt_0)
    have few: "length bs * (?s + 2000) = (length bs - 7) * (?s + 2000) + 7 * (?s + 2000)"
    proof -
      have "length bs = (length bs - 7) + 7" using paced(2) by simp
      then show ?thesis by (metis add_mult_distrib)
    qed
    have pace: "unat (time_sat_add (time_sat_add (tp_now_us a) 1000) (ucast (tp_tx_stmin_us a)))
        = unat (tp_now_us a) + 1000 + ?s"
      using t(3) few ticks by (subst sat_add_no_sat) (simp_all add: unat_ucast_up)
    have dl: "unat (tp_deadline (tp_now_us b) (tp_n_cr_ms b)) = unat (tp_now_us b) + ?d"
      using t(4) by (intro deadline_no_sat) linarith
    obtain a1 b1 where r: "link_round (a, b) = Some (a1, b1)" "shipping a1 ma (drop 7 bs)"
        "receiving b1 mb (got @ take 7 bs) (drop 7 bs)" "tp_rx_expected_sn b1 = tp_tx_next_sn a1"
        "tp_now_us a1 = time_sat_add (tp_now_us a) 1000" "tp_now_us b1 = time_sat_add (tp_now_us b) 1000"
        "tp_tx_next_cf_us a1 = time_sat_add (tp_now_us a1) (ucast (tp_tx_stmin_us a))"
        "tp_tx_stmin_us a1 = tp_tx_stmin_us a" "tp_n_cr_ms b1 = tp_n_cr_ms b"
        "tp_rx_deadline_us b1 = tp_deadline (tp_now_us b) (tp_n_cr_ms b)"
      using paced_round [OF less.prems(1-3) paced(2,1)] s0 pace dl ticks t(2) by (auto simp: word_less_nat_alt)
    have wait: "unat (tp_tx_next_cf_us a1) - unat (tp_now_us a1) = ?s" using r(5,7) pace ticks by simp
    have "timely a1 b1 (length (drop 7 bs))"
      using t wait few dl ticks r unfolding timely_def Let_def by simp
    moreover have "unat (tp_tx_next_cf_us a1) - unat (tp_now_us a1)
        + length (drop 7 bs) * (unat (tp_tx_stmin_us a1) + 2000) < ?wait + length bs * (?s + 2000)"
      using wait few r(8) by simp
    ultimately have "\<exists>n a' b'. link_rounds n (a1, b1) = Some (a', b') \<and> resting a' ma \<and>
        resting b' (mb @ [(got @ take 7 bs) @ drop 7 bs])"
      using r(2-4) by (intro less.hyps) simp_all
    then obtain n a' b' where "link_rounds n (a1, b1) = Some (a', b')" "resting a' ma" "resting b' (mb @ [got @ bs])"
      by auto
    then show ?thesis using r(1) by (intro exI [of _ "Suc n"]) simp
  qed
qed

subsection \<open>The opening of the exchange\<close>

lemma link_part_send [simp]: "link_part (snd (tp_send tp p)) = link_part tp"
  by (auto simp: tp_send_def Let_def link_part_def tp_arm_n_bs_def split: option.split prod.split bool.split
      dest!: arg_cong [of "tp_emit_frame _ _ _" _ "\<lambda>r. link_part (snd r)"])

text \<open>A Single Frame reaches the receiver whole.\<close>

lemma receive_short:
  assumes "tp_ok b" and "resting b mb" and "msg \<noteq> []" and "length msg \<le> 7" and "length msg \<le> tp_rx_capacity b"
  shows "\<exists>b'. tp_rx_frame b (Some (of_nat (length msg) # msg)) = Some (TP_OK_MESSAGE, b') \<and>
    resting b' (mb @ [msg])"
proof -
  note h = sf_header [of "length msg"]
  let ?p = "count_tp (\<lambda>c. c\<lparr>tn_sf_rx := tn_sf_rx c + 1\<rparr>)
      (count_tp (\<lambda>c. c\<lparr>tn_frames_rx := tn_frames_rx c + 1\<rparr>) b)"
  let ?q = "?p\<lparr>tp_rx_buffer := write_at (tp_rx_buffer b) 0 msg,
      tp_rx_received := of_nat (length msg), tp_rx_total := of_nat (length msg)\<rparr>"
  have "take (unat (tp_rx_received ?q)) (tp_rx_buffer ?q) = msg"
    using assms take_write_at [of 0 msg "tp_rx_buffer b"] rx_capacity_le [OF assms(1)]
    by (simp add: unat_of_nat_small)
  then have "resting (tp_rx_finish ?q) (mb @ [msg])"
    using assms(2) by (simp add: resting_def on_link_def tp_rx_finish_def tp_deliver_rx_message_def Let_def
        link_sink_def link_message_def)
  moreover have "tp_rx_frame b (Some (of_nat (length msg) # msg)) = Some (TP_OK_MESSAGE, tp_rx_finish ?q)"
    using assms h by (simp add: tp_rx_frame_def tp_rx_handle_sf_def tp_ok_def Let_def tp_bounds resting_def)
  ultimately show ?thesis by blast
qed

text \<open>The receiver's answer to a First Frame is on the wire, and it waits for the rest.\<close>

lemma send_fc_link:
  assumes "tp_sink tp = Some link_sink"
  shows "tp_world (tp_send_fc tp fc) = link_emit (tp_world tp) (TX_FRAME_FC, fc)"
    and "pd_kind (tp_rx_pending_fc (tp_send_fc tp fc)) = TX_FRAME_NONE"
    and "tp_clock (tp_send_fc tp fc) = tp_clock tp" and "tp_tx_state (tp_send_fc tp fc) = tp_tx_state tp"
    and "tp_tx_pending (tp_send_fc tp fc) = tp_tx_pending tp" and "tp_now_us (tp_send_fc tp fc) = tp_now_us tp"
    and "tp_rx_deadline_us (tp_send_fc tp fc) = tp_rx_deadline_us tp"
    and "tp_n_cr_ms (tp_send_fc tp fc) = tp_n_cr_ms tp"
proof -
  let ?p = "tp\<lparr>tp_rx_pending_fc := tp_pending_store (tp_rx_pending_fc tp) TX_FRAME_FC fc (tp_now_us tp)\<rparr>"
  note e = emit_accepting(2) [of ?p link_emit TX_FRAME_FC fc]
  have "accepting ?p link_emit" by (rule link_accepting) (simp add: assms)
  note e = e [OF this]
  show "tp_world (tp_send_fc tp fc) = link_emit (tp_world tp) (TX_FRAME_FC, fc)"
    "pd_kind (tp_rx_pending_fc (tp_send_fc tp fc)) = TX_FRAME_NONE"
    "tp_clock (tp_send_fc tp fc) = tp_clock tp" "tp_tx_state (tp_send_fc tp fc) = tp_tx_state tp"
    "tp_tx_pending (tp_send_fc tp fc) = tp_tx_pending tp" "tp_now_us (tp_send_fc tp fc) = tp_now_us tp"
    "tp_rx_deadline_us (tp_send_fc tp fc) = tp_rx_deadline_us tp"
    "tp_n_cr_ms (tp_send_fc tp fc) = tp_n_cr_ms tp"
    by (simp_all add: tp_send_fc_def Let_def e tp_pending_clear_def)
qed

lemma receive_long:
  assumes "tp_ok b" and "resting b mb"
    and "7 < length msg" and "length msg \<le> 4095" and "length msg \<le> tp_rx_capacity b"
  defines "b' \<equiv> ff_stored b msg"
  shows "tp_world b' = ([(TX_FRAME_FC, [0x30, tf_fc_block_size (tp_config b), tf_fc_stmin (tp_config b)])], mb)"
    and "receiving (b'\<lparr>tp_world := ([], mb)\<rparr>) mb (take 6 msg) (drop 6 msg)"
    and "tp_now_us b' = tp_now_us b" and "tp_n_cr_ms b' = tp_n_cr_ms b"
    and "tp_rx_deadline_us b' = tp_deadline (tp_now_us b) (tp_n_cr_ms b)"
proof -
  have r: "tp_rx_state b = TP_STATE_IDLE" "tp_initialized b" "tp_sink b = Some link_sink" "tp_clock b = None"
    "tp_world b = ([], mb)" "tp_tx_state b = TP_STATE_IDLE" "pd_kind (tp_tx_pending b) = TX_FRAME_NONE"
    using assms(2) by (simp_all add: resting_def on_link_def)
  note f = send_fc_link
  show "tp_world b' = ([(TX_FRAME_FC, [0x30, tf_fc_block_size (tp_config b), tf_fc_stmin (tp_config b)])], mb)"
    "tp_now_us b' = tp_now_us b" "tp_n_cr_ms b' = tp_n_cr_ms b"
    "tp_rx_deadline_us b' = tp_deadline (tp_now_us b) (tp_n_cr_ms b)"
    using r by (simp_all add: b'_def ff_stored_def Let_def f tp_arm_n_cr_def link_emit_def del: send_fc_fields(8))
  have "awaiting b' (take 6 msg) (drop 6 msg)" using accept_ff(2) [OF assms(1) r(1) assms(3-5)] by (simp add: b'_def)
  moreover have "awaiting (b'\<lparr>tp_world := w\<rparr>) = awaiting b'" for w by (intro ext) (simp add: awaiting_def)
  ultimately show "receiving (b'\<lparr>tp_world := ([], mb)\<rparr>) mb (take 6 msg) (drop 6 msg)"
    using r by (simp add: receiving_def on_link_def b'_def ff_stored_def Let_def f tp_arm_n_cr_def)
qed

text \<open>The sender after the Flow Control: \<open>fc_block_size\<close> frames, or any number when it is 0.\<close>

lemma clear_to_send:
  assumes "tp_ok a" and "resting a ma" and "7 < length msg" and "length msg \<le> 4095" and "length msg \<le> tp_tx_capacity a"
    and "bs = 0 \<or> length (cf_frames 1 (drop 6 msg)) \<le> unat (bs :: u8)"
  defines "p \<equiv> (ff_sent a link_emit msg)\<lparr>tp_world := ([], ma)\<rparr>"
  shows "\<exists>a'. tp_rx_frame p (Some [0x30, bs, st]) = Some (TP_OK, a') \<and> shipping a' ma (drop 6 msg) \<and>
    tp_tx_next_sn a' = 1 \<and> tp_now_us a' = tp_now_us a \<and> tp_tx_next_cf_us a' = tp_now_us a \<and>
    tp_tx_stmin_us a' = stmin_decode_us st"
proof -
  let ?a = "(count_tp (\<lambda>c. c\<lparr>tn_fc_rx := tn_fc_rx c + 1\<rparr>)
      (count_tp (\<lambda>c. c\<lparr>tn_frames_rx := tn_frames_rx c + 1\<rparr>) p))
      \<lparr>tp_tx_state := TP_STATE_CONSECUTIVE_FRAME, tp_tx_wait_frames := 0, tp_tx_block_unlimited := (bs = 0),
       tp_tx_block_remaining := (if bs = 0 then 0 else ucast bs), tp_tx_stmin_us := stmin_decode_us st,
       tp_tx_next_cf_us := tp_now_us p\<rparr>"
  have r: "tp_rx_state a = TP_STATE_IDLE" "tp_initialized a" "tp_sink a = Some link_sink" "tp_clock a = None"
    "pd_kind (tp_rx_pending_fc a) = TX_FRAME_NONE" "pd_kind (tp_tx_pending a) = TX_FRAME_NONE"
    using assms(2) by (simp_all add: resting_def on_link_def)
  have cap: "tp_tx_capacity a \<le> length (tp_tx_buffer a)" using assms(1) by (simp add: tp_ok_def tx_ok_def)
  have "tp_rx_frame p (Some [0x30, bs, st]) = Some (TP_OK, ?a)"
    using r by (simp add: tp_rx_frame_def tp_rx_handle_fc_def Let_def tp_bounds p_def ff_sent_def tp_arm_n_bs_def)
  moreover have "take (length msg) (write_at (tp_tx_buffer a) 0 msg) = msg"
    using cap assms(5) take_write_at [of 0 msg "tp_tx_buffer a"] by simp
  then have "shipping ?a ma (drop 6 msg)"
    using assms(3-6) r cap by (auto simp: shipping_def on_link_def sending_def p_def ff_sent_def Let_def tp_arm_n_bs_def
        length_cf_frames length_write_at unat_of_nat_small unat_ucast_up)
  moreover have "tp_tx_next_sn ?a = 1" "tp_now_us ?a = tp_now_us a" "tp_tx_next_cf_us ?a = tp_now_us a"
    by (simp_all add: p_def ff_sent_def Let_def tp_arm_n_bs_def)
  ultimately show ?thesis by (intro exI [of _ ?a]) simp
qed

lemma stmin_decode_le: "stmin_decode_us b \<le> 127000"
proof -
  have "unat (ucast (b - 0xF0) * 100 :: u32) \<le> 900" if "b \<ge> 0xF1" "b \<le> 0xF9"
  proof -
    have "unat (b - 0xF0) = unat b - 240" using that by (simp add: word_le_nat_alt unat_minus_le)
    then show ?thesis using that by (simp add: word_le_nat_alt unat_mult_small unat_ucast_up)
  qed
  then show ?thesis
    by (auto simp: stmin_decode_us_def word_le_nat_alt unat_mult_small unat_ucast_up)
qed

lemma transfer_long:
  assumes "tp_ok a" and "resting a ma" and "tp_ok b" and "resting b mb"
    and "7 < length msg" and "length msg \<le> 4095" and "length msg \<le> tp_tx_capacity a" and "length msg \<le> tp_rx_capacity b"
    and "tf_fc_block_size (tp_config b) = 0 \<or>
      length (cf_frames 1 (drop 6 msg)) \<le> unat (tf_fc_block_size (tp_config b))"
    and "unat (stmin_decode_us (tf_fc_stmin (tp_config b))) + 2000 < 1000 * unat (tp_n_cr_ms b)"
    and "tp_now_us a < 2 ^ 63" and "tp_now_us b < 2 ^ 63"
  shows "\<exists>n a' b'. link_transfer msg n (a, b) = Some (a', b') \<and> resting a' ma \<and> resting b' (mb @ [msg])"
proof -
  let ?p = "(ff_sent a link_emit msg)\<lparr>tp_world := ([], ma)\<rparr>" and ?q = "ff_stored b msg"
  let ?b = "?q\<lparr>tp_world := ([], mb)\<rparr>" and ?bs = "tf_fc_block_size (tp_config b)" and ?st = "tf_fc_stmin (tp_config b)"
  let ?s = "unat (stmin_decode_us ?st)" and ?d = "1000 * unat (tp_n_cr_ms b)"
  have w: "tp_world a = ([], ma)" "accepting a link_emit" "\<not> tp_tx_busy a" "tp_rx_state b = TP_STATE_IDLE"
    using assms(2,4) link_accepting [of a] by (simp_all add: resting_def on_link_def tp_tx_busy_def)
  have send: "tp_send a (Some msg) = (TP_OK, ff_sent a link_emit msg)"
    by (rule send_long) (use assms w in simp_all)
  have sent: "tp_world (ff_sent a link_emit msg) = ([(TX_FRAME_FF, ff_frame msg)], ma)"
    using w(1) by (simp add: ff_sent_def Let_def tp_arm_n_bs_def link_emit_def)
  obtain a1 where a1: "tp_rx_frame ?p (Some [0x30, ?bs, ?st]) = Some (TP_OK, a1)" "shipping a1 ma (drop 6 msg)"
    "tp_tx_next_sn a1 = 1" "tp_now_us a1 = tp_now_us a" "tp_tx_next_cf_us a1 = tp_now_us a"
    "tp_tx_stmin_us a1 = stmin_decode_us ?st"
    using clear_to_send [OF assms(1,2,5-7,9), of ?st] by blast
  note rl = receive_long [OF assms(3,4,5,6,8)] and ff = accept_ff [OF assms(3) w(4) assms(5,6,8)]
  have "link_deliver (ff_sent a link_emit msg, b) = Some (a1, ?b)"
    using sent ff(1) rl(1) a1(1) by (simp add: link_deliver_def link_take_def)
  moreover have "timely a1 ?b (length (drop 6 msg))"
  proof -
    have s: "?s \<le> 127000" using stmin_decode_le [of ?st] by (simp add: word_le_nat_alt)
    have "length (drop 6 msg) * (?s + 2000) \<le> 4095 * 129000"
      using s assms(6) by (intro mult_le_mono) simp_all
    moreover have "unat (tp_n_cr_ms b) < 4294967296" by (rule unat_u32_lt)
    moreover have now: "unat (tp_now_us a) < 2 ^ 63" "unat (tp_now_us b) < 2 ^ 63"
      using assms(11,12) by (simp_all add: word_less_nat_alt)
    moreover have "unat (tp_deadline (tp_now_us b) (tp_n_cr_ms b)) = unat (tp_now_us b) + ?d"
      using calculation by (intro deadline_no_sat) simp
    ultimately show ?thesis
      using assms(10) a1 rl unfolding timely_def Let_def by simp
  qed
  moreover have "tp_rx_expected_sn ?b = tp_tx_next_sn a1" using a1(3) ff(3) by simp
  ultimately obtain n a' b' where "link_rounds n (a1, ?b) = Some (a', b')" "resting a' ma" "resting b' (mb @ [msg])"
    using link_rounds_deliver [OF a1(2) rl(2)] by auto
  then show ?thesis using send \<open>link_deliver _ = _\<close> by (intro exI [of _ n]) (simp add: link_transfer_def)
qed

lemma transfer_short:
  assumes "tp_ok a" and "resting a ma" and "tp_ok b" and "resting b mb"
    and "msg \<noteq> []" and "length msg \<le> 7" and "length msg \<le> tp_tx_capacity a" and "length msg \<le> tp_rx_capacity b"
  shows "\<exists>n a' b'. link_transfer msg n (a, b) = Some (a', b') \<and> resting a' ma \<and> resting b' (mb @ [msg])"
proof -
  have w: "tp_world a = ([], ma)" "accepting a link_emit" "\<not> tp_tx_busy a"
    using assms(2) link_accepting [of a] by (simp_all add: resting_def on_link_def tp_tx_busy_def)
  obtain p where p: "tp_send a (Some msg) = (TP_OK, p)" "all_sent p ([(TX_FRAME_SF, of_nat (length msg) # msg)], ma)"
    using send_short [OF assms(1) w(3,2) assms(5-7)] w(1) by (auto simp: link_emit_def)
  obtain b' where b': "tp_rx_frame b (Some (of_nat (length msg) # msg)) = Some (TP_OK_MESSAGE, b')" "resting b' (mb @ [msg])"
    using receive_short [OF assms(3,4,5,6,8)] by blast
  have "link_part p = link_part a" using link_part_send [of a "Some msg"] p(1) by simp
  then have a': "resting (p\<lparr>tp_world := ([], ma)\<rparr>) ma"
    using p(2) assms(2) by (simp add: resting_def on_link_def all_sent_def link_part_def)
  have "link_deliver (p, b) = Some (p\<lparr>tp_world := ([], ma)\<rparr>, b')"
    using p(2) b' by (simp add: link_deliver_def link_take_def all_sent_def resting_def on_link_def)
  then show ?thesis
    using a' b'(2) p(1) by (intro exI [of _ 0]) (simp add: link_transfer_def)
qed

end
