(* ===== verification/Transport_Properties.thy ===== *)
theory Transport_Properties
  imports Transport_Link Hal_Properties
begin

text \<open>
  What the ISO-TP engine promises its client: any traffic is handled within the buffers, protocol
  violations fail closed, a silent peer is timed out, and a message crosses two engines unchanged.
  Two behaviours of the code that its documentation rules out are stated as they are.
\<close>

subsection \<open>Runs of an engine\<close>

datatype tp_op = Tp_rx "u8 list option" | Tp_send "u8 list option" | Tp_tick | Tp_advance u32

fun tp_step :: "tp_op \<Rightarrow> ('w, 'c) transport \<Rightarrow> (tp_status \<times> ('w, 'c) transport) option" where
  "tp_step (Tp_rx frame) tp = tp_rx_frame tp frame"
| "tp_step (Tp_send payload) tp = Some (tp_send tp payload)"
| "tp_step Tp_tick tp = tp_tick tp"
| "tp_step (Tp_advance n) tp = tp_advance tp n"

fun tp_run :: "tp_op list \<Rightarrow> ('w, 'c) transport \<Rightarrow> (tp_status list \<times> ('w, 'c) transport) option" where
  "tp_run [] tp = Some ([], tp)"
| "tp_run (op # ops) tp =
     do { (st, tp1) \<leftarrow> tp_step op tp; (sts, tp2) \<leftarrow> tp_run ops tp1; Some (st # sts, tp2) }"

lemma step_handled: "tp_ok tp \<Longrightarrow> handled tp (tp_step op tp)"
proof (cases op)
  case (Tp_send p)
  assume "tp_ok tp"
  then show ?thesis using handledI [OF send_after, of tp "fst (tp_send tp p)" p] Tp_send by simp
qed (simp_all add: rx_frame_handled tick_handled advance_handled)

lemma run_after: "tp_ok tp \<Longrightarrow> \<exists>sts tp'. tp_run ops tp = Some (sts, tp') \<and> tp_after tp tp'"
proof (induction ops arbitrary: tp)
  case Nil
  then show ?case by (simp add: tp_after_refl)
next
  case (Cons op ops)
  obtain st tp1 where s: "tp_step op tp = Some (st, tp1)" "tp_after tp tp1"
    using step_handled [OF Cons.prems, of op] by (auto simp: handled_def)
  obtain sts tp2 where r: "tp_run ops tp1 = Some (sts, tp2)" "tp_after tp1 tp2"
    using Cons.IH [OF tp_after_ok [OF s(2)]] by blast
  then show ?case using s tp_after_trans by auto
qed

lemma init_ok:
  assumes "transport_init tp0 config rxb rxc txb txc sink w queue clk = (True, Some tp)"
    and "rxc \<le> length rxb" and "txc \<le> length txb" and "queue_ok queue"
  shows "tp_ok tp" and "tp_rx_buffer tp = rxb" and "tp_tx_buffer tp = txb"
    and "tp_rx_capacity tp = rxc" and "tp_tx_capacity tp = txc" and "tp_queue tp = queue"
  using assms by (auto simp: transport_init_def Let_def tp_ok_def rx_ok_def tx_ok_def init_defs split: if_splits)

subsection \<open>A demonstration engine\<close>

text \<open>
  Its sink accepts or declines frames by a script (an exhausted script accepts) and keeps what it
  accepted and the messages it was given.
\<close>

type_synonym demo_world = "bool list \<times> (tp_frame_kind \<times> u8 list) list \<times> u8 list list"

fun script_tx :: "demo_world \<Rightarrow> tp_frame_kind \<times> u8 list \<Rightarrow> bool \<times> demo_world" where
  "script_tx ([], sent, got) fr = (True, ([], sent @ [fr], got))"
| "script_tx (True # bs, sent, got) fr = (True, (bs, sent @ [fr], got))"
| "script_tx (False # bs, sent, got) fr = (False, (bs, sent, got))"

fun script_rx :: "demo_world \<Rightarrow> u8 list \<Rightarrow> demo_world" where
  "script_rx (bs, sent, got) msg = (bs, sent, got @ [msg])"

definition demo_engine :: "tp_config \<Rightarrow> bool list \<Rightarrow> event_sink option \<Rightarrow> (demo_world, unit) transport" where
  "demo_engine config script queue = the (snd (transport_init (Some (zero_transport ([], [], [])))
     (Some config) (replicate 32 0) 32 (replicate 32 0) 32
     (Some \<lparr>sk_on_frame_tx = Some script_tx, sk_on_message = Some script_rx\<rparr>) (script, [], []) queue None))"

lemma demo_engine_init:
  "transport_init (Some (zero_transport ([], [], []))) (Some config) (replicate 32 0) 32 (replicate 32 0) 32
     (Some \<lparr>sk_on_frame_tx = Some script_tx, sk_on_message = Some script_rx\<rparr>) (script, [], []) queue
     (None :: unit clock option) = (True, Some (demo_engine config script queue))"
  by (simp add: demo_engine_def transport_init_def)

lemma demo_engine_ok: "queue_ok queue \<Longrightarrow> tp_ok (demo_engine config script queue)"
  by (rule init_ok(1) [OF demo_engine_init]) simp_all

lemma queue_ok_demo: "queue_ok None" "queue_ok (Some demo_sink)"
  using demo_sink_facts by (simp_all add: queue_ok_def)

subsection \<open>Safety\<close>

text \<open>C9: An initialised ISO-TP engine without an event queue, or whose event queue is well formed and has
its hard-fault hooks installed, survives any sequence of calls: received frames of any content and length,
sends, single ticks, advances over many ticks. (Without the hooks a protocol fault pushed into a queue full
of faults would not return.) Every call returns, every byte it
copies lands inside the caller's buffers (they keep their lengths, and what the sessions hold stays
within the capacities), and no fault event queued before is lost.\<close>

lemma transport_run_safe:
  assumes "transport_init tp0 config rxb rxc txb txc sink w queue clk = (True, Some tp)"
    and "rxc \<le> length rxb" and "txc \<le> length txb" and "queue_ok queue"
  shows "\<exists>sts tp'. tp_run ops tp = Some (sts, tp') \<and>
    length (tp_rx_buffer tp') = length rxb \<and> length (tp_tx_buffer tp') = length txb \<and>
    unat (tp_rx_received tp') \<le> rxc \<and> unat (tp_rx_total tp') \<le> rxc \<and>
    unat (tp_tx_sent tp') \<le> txc \<and> unat (tp_tx_total tp') \<le> txc \<and>
    tp_now_us tp \<le> tp_now_us tp' \<and> queue_after queue (tp_queue tp')"
proof -
  note i = init_ok [OF assms]
  obtain sts tp' where r: "tp_run ops tp = Some (sts, tp')" "tp_after tp tp'"
    using run_after [OF i(1)] by blast
  have ok: "rx_ok tp'" "tx_ok tp'" and same: "tp_same tp tp'" using r(2) by (simp_all add: tp_after_def tp_ok_def)
  have "unat (tp_rx_received tp') \<le> rxc \<and> unat (tp_rx_total tp') \<le> rxc"
    using ok(1) same i(4) by (auto simp: rx_ok_def tp_same_def)
  moreover have "unat (tp_tx_sent tp') \<le> txc \<and> unat (tp_tx_total tp') \<le> txc"
    using ok(2) same i by (cases "tp_tx_state tp' = TP_STATE_IDLE") (auto simp: tx_ok_def tp_same_def)
  ultimately show ?thesis using r(1) same i by (auto simp: tp_same_def)
qed

lemma transport_run_safe_witness:
  "\<exists>sts tp'. tp_run [Tp_rx (Some [0x10, 20, 1, 2, 3, 4, 5, 6]), Tp_tick, Tp_rx (Some [0x55]),
      Tp_send (Some [1, 2, 3]), Tp_advance 3] (demo_engine zero_tp_config [False] (Some demo_sink))
        = Some (sts, tp') \<and>
    length (tp_rx_buffer tp') = 32 \<and> queue_after (Some demo_sink) (tp_queue tp')"
  using transport_run_safe [OF demo_engine_init _ _ queue_ok_demo(2),
      of "[Tp_rx (Some [0x10, 20, 1, 2, 3, 4, 5, 6]), Tp_tick, Tp_rx (Some [0x55]),
      Tp_send (Some [1, 2, 3]), Tp_advance 3]"] by (simp del: tp_run.simps) blast

subsection \<open>Protocol violations\<close>

lemma take_zero_prefix: "n \<le> length buf \<Longrightarrow> take n (zero_prefix n buf) = replicate n 0"
  by (simp add: zero_prefix_def write_at_def)

text \<open>An aborted reception: idle, the reassembled bytes wiped, the world and the sender untouched.\<close>

definition rx_aborted :: "('w, 'c) transport \<Rightarrow> ('w, 'c) transport \<Rightarrow> bool" where
  "rx_aborted tp tp' \<longleftrightarrow> tp_rx_state tp' = TP_STATE_IDLE \<and> tp_rx_received tp' = 0 \<and> tp_rx_total tp' = 0 \<and>
     take (unat (tp_rx_received tp)) (tp_rx_buffer tp') = replicate (unat (tp_rx_received tp)) 0 \<and>
     pd_kind (tp_rx_pending_fc tp') = TX_FRAME_NONE \<and> tp_world tp' = tp_world tp \<and>
     tp_tx_state tp' = tp_tx_state tp \<and> tp_last_fault tp' = TP_FAULT_PROTOCOL \<and>
     tn_faults_raised (tp_counters tp') = tn_faults_raised (tp_counters tp) + 1"

lemma protocol_abort_rx:
  assumes "tp_ok tp" and "tp_rx_state tp = TP_STATE_FIRST_FRAME"
  shows "\<exists>tp'. tp_protocol_abort_rx tp = Some (TP_ERR_PROTOCOL, tp') \<and> rx_aborted tp tp'"
proof -
  obtain q where "tp_raise_fault tp TP_FAULT_PROTOCOL = Some (tp_faulted tp TP_FAULT_PROTOCOL q)"
    by (rule raise_after [OF assms(1)])
  moreover have "unat (tp_rx_received tp) \<le> length (tp_rx_buffer tp)"
    using assms by (simp add: tp_ok_def rx_ok_def)
  then have "rx_aborted tp (tp_abort_rx (tp_faulted tp TP_FAULT_PROTOCOL q))"
    using assms(2)
    by (auto simp: rx_aborted_def tp_abort_rx_def Let_def take_zero_prefix tp_pending_clear_def word_gt_0)
  ultimately show ?thesis by (simp add: tp_protocol_abort_rx_def)
qed

lemma rx_aborted_count: "rx_aborted (count_tp f tp) tp' \<Longrightarrow>
    tn_faults_raised (f (tp_counters tp)) = tn_faults_raised (tp_counters tp) \<Longrightarrow> rx_aborted tp tp'"
  by (simp add: rx_aborted_def)

text \<open>C11: Reassembly fails closed. While a message is being reassembled by a well-formed engine (its event
queue, if any, with its hard-fault hooks installed), every frame of legal length
that is neither a Flow Control frame nor the very Consecutive Frame that is due (right sequence number,
exactly the bytes still missing, at most 7) is refused with ERR_PROTOCOL: the session is dropped, the
bytes received so far are wiped, nothing is delivered, one fault is raised, and the transmission session
goes on.\<close>

lemma transport_reception_fails_closed:
  assumes "tp_ok tp" and "tp_rx_state tp = TP_STATE_FIRST_FRAME"
    and "0 < length data" and "length data \<le> 8" and "drop_bit 4 (data ! 0) \<noteq> 3"
    and "\<not> (drop_bit 4 (data ! 0) = 2 \<and> data ! 0 AND 0x0F = tp_rx_expected_sn tp \<and>
           length data = min 7 (unat (tp_rx_total tp) - unat (tp_rx_received tp)) + 1)"
  shows "\<exists>tp'. tp_rx_frame tp (Some data) = Some (TP_ERR_PROTOCOL, tp') \<and> rx_aborted tp tp'"
proof -
  let ?p = "count_tp (\<lambda>c. c\<lparr>tn_frames_rx := tn_frames_rx c + 1\<rparr>) tp"
  let ?pci = "drop_bit 4 (data ! 0)"
  have p: "tp_ok ?p" using count_after [OF assms(1)] tp_after_ok by auto
  have init: "tp_initialized tp" using assms(1) by (simp add: tp_ok_def)
  have abort: "\<exists>tp'. tp_protocol_abort_rx (count_tp f ?p) = Some (TP_ERR_PROTOCOL, tp') \<and> rx_aborted tp tp'"
    if "\<And>c. tn_faults_raised (f c) = tn_faults_raised c" for f
  proof -
    have "tp_ok (count_tp f ?p)" using count_after [OF p] tp_after_ok by auto
    from protocol_abort_rx [OF this] show ?thesis
      using assms(2) that by (force dest!: rx_aborted_count)
  qed
  have sub: "unat (tp_rx_total tp - tp_rx_received tp) = unat (tp_rx_total tp) - unat (tp_rx_received tp)"
    using assms(1,2) by (simp add: tp_ok_def rx_ok_def unat_minus_le)
  consider (sf) "?pci = 0" | (ff) "?pci = 1" | (cf) "?pci = 2" | (bad) "?pci \<notin> {0, 1, 2, 3}"
    using assms(5) by blast
  then show ?thesis
  proof cases
    case sf
    then show ?thesis
      using assms init abort [of "\<lambda>c. c\<lparr>tn_sf_rx := tn_sf_rx c + 1\<rparr>"]
      by (simp add: tp_rx_frame_def tp_rx_handle_sf_def Let_def tp_bounds)
  next
    case ff
    then show ?thesis
      using assms init abort [of "\<lambda>c. c\<lparr>tn_ff_rx := tn_ff_rx c + 1\<rparr>"]
      by (simp add: tp_rx_frame_def tp_rx_handle_ff_def Let_def tp_bounds)
  next
    case cf
    then have "tp_rx_frame tp (Some data) = tp_protocol_abort_rx (count_tp (\<lambda>c. c\<lparr>tn_cf_rx := tn_cf_rx c + 1\<rparr>) ?p)"
      using assms init sub
      by (auto simp: tp_rx_frame_def tp_rx_handle_cf_def Let_def tp_bounds min.commute)
    then show ?thesis using abort [of "\<lambda>c. c\<lparr>tn_cf_rx := tn_cf_rx c + 1\<rparr>"] by simp
  next
    case bad
    obtain q where q: "tp_raise_fault ?p TP_FAULT_PROTOCOL = Some (tp_faulted ?p TP_FAULT_PROTOCOL q)"
      by (rule raise_after [OF p])
    then have "tp_rx_frame tp (Some data) = tp_protocol_abort_rx ?p"
      using assms init bad by (auto simp: tp_rx_frame_def Let_def tp_bounds tp_protocol_abort_rx_def)
    moreover have "tp_rx_state ?p = TP_STATE_FIRST_FRAME" using assms(2) by simp
    ultimately show ?thesis
      using protocol_abort_rx [OF p] by (auto dest!: rx_aborted_count)
  qed
qed

definition demo_receiving :: "(demo_world, unit) transport" where
  "demo_receiving = snd (the (tp_rx_frame (demo_engine zero_tp_config [] (Some demo_sink))
     (Some [0x10, 20, 1, 2, 3, 4, 5, 6])))"

lemma demo_receiving_facts:
  "tp_ok demo_receiving" "tp_rx_state demo_receiving = TP_STATE_FIRST_FRAME"
  "tp_rx_expected_sn demo_receiving = 1"
proof -
  show "tp_ok demo_receiving"
    using rx_frame_handled [OF demo_engine_ok [OF queue_ok_demo(2)], of zero_tp_config "[]" "Some [0x10, 20, 1, 2, 3, 4, 5, 6]"]
    by (auto simp: handled_def demo_receiving_def dest: tp_after_ok)
  show "tp_rx_state demo_receiving = TP_STATE_FIRST_FRAME" "tp_rx_expected_sn demo_receiving = 1" by code_simp+
qed

lemma transport_reception_fails_closed_witness:
  "\<exists>tp'. tp_rx_frame demo_receiving (Some [0x22, 7, 8, 9, 10, 11, 12, 13]) = Some (TP_ERR_PROTOCOL, tp')
    \<and> rx_aborted demo_receiving tp'"
  by (rule transport_reception_fails_closed) (simp_all add: demo_receiving_facts)

subsection \<open>A silent peer\<close>

text \<open>What a tick reads of the reception session after its own checks.\<close>

definition rx_part :: "('w, 'c) transport \<Rightarrow> tp_state \<times> time_us \<times> time_us \<times> 'c clock option" where
  "rx_part tp = (tp_rx_state tp, tp_rx_deadline_us tp, tp_now_us tp, tp_clock tp)"

lemma rx_part_emit [simp]: "rx_part (snd (tp_emit_frame tp k fr)) = rx_part tp"
  by (simp add: rx_part_def)

lemma rx_part_pump_cf [simp]: "rx_part (tp_tx_pump_cf tp) = rx_part tp"
proof (induction tp rule: tp_tx_pump_cf.induct)
  case (1 tp)
  obtain b p where e: "tp_emit_frame tp TX_FRAME_CF (tp_cf_frame tp) = (b, p)" by force
  then have t: "rx_part p = rx_part tp" using rx_part_emit [of tp TX_FRAME_CF "tp_cf_frame tp"] by simp
  let ?q = "tp_cf_sent p (tp_tx_next_sn p) (of_nat (tp_cf_chunk tp))"
  have tq: "rx_part ?q = rx_part tp" using t by (simp add: tp_cf_sent_def rx_part_def)
  have "rx_part (tp_tx_pump_cf ?q) = rx_part ?q"
    if "tp_cf_due tp" "b" "\<not> tp_tx_sent ?q \<ge> tp_tx_total ?q"
      "\<not> (\<not> tp_tx_block_unlimited ?q \<and> tp_tx_block_remaining ?q = 0)"
    using 1 [OF _ refl e [symmetric] _ refl] that by simp
  moreover have "rx_part (tp_tx_complete ?q) = rx_part ?q" "rx_part (tp_await_fc ?q) = rx_part ?q"
    "rx_part (p\<lparr>tp_tx_pending := s\<rparr>) = rx_part p" for s
    by (simp_all add: rx_part_def tp_tx_complete_def tp_await_fc_def tp_arm_n_bs_def)
  ultimately show ?case
    using t tq e by (subst tp_tx_pump_cf.simps) (simp add: Let_def split: bool.split)
qed

lemma rx_part_accepted [simp]: "rx_part (tp_pending_accepted tp) = rx_part tp"
  by (simp add: rx_part_def tp_pending_accepted_def Let_def tp_cf_sent_def tp_tx_complete_def
      tp_await_fc_def tp_arm_n_bs_def split: tp_frame_kind.split)

lemma rx_part_abort_tx: "rx_part (tp_abort_tx tp) = rx_part tp"
  by (simp add: rx_part_def tp_abort_tx_def Let_def)

lemma rx_part_raise: "tp_raise_fault tp f = Some tp' \<Longrightarrow> rx_part tp' = rx_part tp"
  by (auto simp: rx_part_def tp_raise_fault_def Let_def count_tp_def split: option.splits bind_splits)

lemma rx_part_pump_tx: "tp_pump_tx tp = Some tp' \<Longrightarrow> rx_part tp' = rx_part tp"
proof (cases "pd_kind (tp_tx_pending tp) \<noteq> TX_FRAME_NONE \<and> tp_pending_n_as_expired tp (tp_tx_pending tp)")
  case True
  assume "tp_pump_tx tp = Some tp'"
  then obtain p where "tp_raise_fault tp TP_FAULT_TIMEOUT = Some p" "tp' = tp_abort_tx p"
    using True by (auto simp: tp_pump_tx_def split: bind_splits)
  then show ?thesis using rx_part_abort_tx [of p] rx_part_raise by simp
next
  case False
  assume t: "tp_pump_tx tp = Some tp'"
  obtain b p where e: "tp_emit_frame tp (pd_kind (tp_tx_pending tp)) (pd_data (tp_tx_pending tp)) = (b, p)"
    by force
  then have "rx_part p = rx_part tp"
    using rx_part_emit [of tp "pd_kind (tp_tx_pending tp)" "pd_data (tp_tx_pending tp)"] by simp
  then show ?thesis using t False e by (auto simp: tp_pump_tx_def split: if_splits)
qed

lemma rx_part_check_n_bs: "tp_check_n_bs tp = Some tp' \<Longrightarrow> rx_part tp' = rx_part tp"
  by (auto simp: tp_check_n_bs_def rx_part_abort_tx dest: rx_part_raise split: if_splits bind_splits)

text \<open>The reception checks of a tick either leave the session as it is or drop it.\<close>

lemma pump_rx_pending_part:
  "tp_pump_rx_pending tp = Some tp' \<Longrightarrow>
   rx_part tp' = rx_part tp \<or> tp_rx_state tp' = TP_STATE_IDLE \<and> snd (snd (rx_part tp')) = snd (snd (rx_part tp))"
proof -
  assume t: "tp_pump_rx_pending tp = Some tp'"
  obtain b p where e: "tp_emit_frame tp TX_FRAME_FC (pd_data (tp_rx_pending_fc tp)) = (b, p)" by force
  then have p: "rx_part p = rx_part tp"
    using rx_part_emit [of tp TX_FRAME_FC "pd_data (tp_rx_pending_fc tp)"] by simp
  have a: "tp_rx_state (tp_abort_rx q) = TP_STATE_IDLE"
    "snd (snd (rx_part (tp_abort_rx q))) = snd (snd (rx_part q))" for q :: "('a, 'b) transport"
    by (simp_all add: tp_abort_rx_def Let_def rx_part_def)
  have "rx_part (p\<lparr>tp_rx_pending_fc := s\<rparr>) = rx_part p" for s by (simp add: rx_part_def)
  then show ?thesis
    using t e p a by (auto simp: tp_pump_rx_pending_def dest: rx_part_raise split: if_splits bind_splits)
qed

lemma tick_reception:
  assumes "tp_ok tp" and "tp_clock tp = None" and "tp_tick tp = Some (st, tp')"
  shows "tp_clock tp' = None" and "tp_now_us tp' = time_sat_add (tp_now_us tp) 1000"
    and "tp_rx_state tp' = TP_STATE_IDLE \<or> tp_rx_state tp' = tp_rx_state tp \<and>
      (tp_rx_state tp = TP_STATE_FIRST_FRAME \<longrightarrow> tp_rx_deadline_us tp' = tp_rx_deadline_us tp
         \<and> tp_now_us tp' < tp_rx_deadline_us tp)"
proof -
  let ?a = "tp_advance_clock tp"
  obtain b c d where s: "tp_check_n_cr ?a = Some b" "tp_pump_rx_pending b = Some c"
    "tp_check_n_bs c = Some d" "tp_pump_tx d = Some tp'"
    using assms(1,3) by (auto simp: tp_tick_def tp_ok_def split: bind_splits)
  have a: "rx_part ?a = (tp_rx_state tp, tp_rx_deadline_us tp, time_sat_add (tp_now_us tp) 1000, None)"
    using assms(2) by (simp add: rx_part_def tp_advance_clock_def Let_def)
  have b: "rx_part b = rx_part ?a \<and>
      \<not> (tp_rx_state ?a = TP_STATE_FIRST_FRAME \<and> tp_now_us ?a \<ge> tp_rx_deadline_us ?a)
    \<or> tp_rx_state b = TP_STATE_IDLE \<and> snd (snd (rx_part b)) = snd (snd (rx_part ?a))"
    using s(1) rx_part_raise [of ?a TP_FAULT_TIMEOUT]
    by (auto simp: tp_check_n_cr_def tp_abort_rx_def Let_def rx_part_def split: if_splits bind_splits)
  have c: "rx_part c = rx_part b \<or> tp_rx_state c = TP_STATE_IDLE \<and> snd (snd (rx_part c)) = snd (snd (rx_part b))"
    by (rule pump_rx_pending_part [OF s(2)])
  have e: "rx_part tp' = rx_part c" using rx_part_check_n_bs [OF s(3)] rx_part_pump_tx [OF s(4)] by simp
  show "tp_clock tp' = None" "tp_now_us tp' = time_sat_add (tp_now_us tp) 1000"
    using a b c e by (auto simp: rx_part_def)
  show "tp_rx_state tp' = TP_STATE_IDLE \<or> tp_rx_state tp' = tp_rx_state tp \<and>
      (tp_rx_state tp = TP_STATE_FIRST_FRAME \<longrightarrow> tp_rx_deadline_us tp' = tp_rx_deadline_us tp
         \<and> tp_now_us tp' < tp_rx_deadline_us tp)"
    using a b c e by (auto simp: rx_part_def not_le)
qed

text \<open>The internal time base after \<open>n\<close> ticks.\<close>

lemma reception_ends:
  assumes "tp_ok tp" and "tp_clock tp = None" and "tp_advance_loop n st tp = Some (st', tp')"
    and "tp_rx_state tp = TP_STATE_IDLE \<or>
      tp_rx_state tp = TP_STATE_FIRST_FRAME \<and> n > 0 \<and>
      unat (tp_rx_deadline_us tp) \<le> min (unat (tp_now_us tp) + n * 1000) (2 ^ 64 - 1)"
  shows "tp_rx_state tp' = TP_STATE_IDLE"
  using assms
proof (induction n arbitrary: st tp)
  case 0
  then show ?case by auto
next
  case (Suc n)
  obtain st1 p where t: "tp_tick tp = Some (st1, p)" "tp_after tp p"
    using tick_handled [OF Suc.prems(1)] by (auto simp: handled_def)
  obtain st2 where l: "tp_advance_loop n st2 p = Some (st', tp')"
    using Suc.prems(3) t(1) by auto
  note r = tick_reception [OF Suc.prems(1,2) t(1)]
  have now: "unat (tp_now_us p) = min (unat (tp_now_us tp) + 1000) (2 ^ 64 - 1)"
    by (simp add: r(2) unat_time_sat_add)
  have "tp_rx_state p = TP_STATE_IDLE \<or> tp_rx_state p = TP_STATE_FIRST_FRAME \<and> n > 0 \<and>
      unat (tp_rx_deadline_us p) \<le> min (unat (tp_now_us p) + n * 1000) (2 ^ 64 - 1)"
  proof (cases "tp_rx_state p = TP_STATE_IDLE")
    case False
    then have s: "tp_rx_state p = TP_STATE_FIRST_FRAME" "tp_rx_deadline_us p = tp_rx_deadline_us tp"
      "unat (tp_now_us p) < unat (tp_rx_deadline_us tp)"
      "unat (tp_rx_deadline_us tp) \<le> min (unat (tp_now_us tp) + Suc n * 1000) (2 ^ 64 - 1)"
      using r(3) Suc.prems(4) by (auto simp: word_less_nat_alt)
    then have "n > 0" using now by (cases n) auto
    then show ?thesis using s now by auto
  qed simp
  then show ?case using Suc.IH [OF tp_after_ok [OF t(2)] r(1) l] by blast
qed

text \<open>C12: A receiver never waits for ever. In a well-formed engine (its event queue, if any, with its
hard-fault hooks installed) on the internal time base (one tick is one millisecond), a reassembly whose peer falls silent is over after at most N\_Cr ticks from the moment the deadline was armed:
the call returns and the reception session is idle. This holds for every deadline the engine can arm, up to the
saturation of the 64-bit microsecond clock.\<close>

lemma transport_silent_peer_times_out:
  assumes "tp_ok tp" and "tp_clock tp = None" and "tp_rx_state tp = TP_STATE_FIRST_FRAME"
    and "tp_rx_deadline_us tp = tp_deadline armed (tp_n_cr_ms tp)" and "armed \<le> tp_now_us tp"
    and "0 < n" and "tp_n_cr_ms tp \<le> n"
  shows "\<exists>st tp'. tp_advance tp n = Some (st, tp') \<and> tp_rx_state tp' = TP_STATE_IDLE"
proof -
  obtain st tp' where l: "tp_advance_loop (unat n) TP_OK tp = Some (st, tp')"
    using advance_loop_handled [OF assms(1), of "unat n" TP_OK] by (auto simp: handled_def)
  have "unat (ucast (tp_n_cr_ms tp) * 1000 :: u64) = unat (tp_n_cr_ms tp) * 1000"
    using unat_u32_lt [of "tp_n_cr_ms tp"] by (simp add: unat_mult_small unat_ucast_up)
  then have "unat (tp_rx_deadline_us tp) = min (unat armed + unat (tp_n_cr_ms tp) * 1000) (2 ^ 64 - 1)"
    by (simp add: assms(4) tp_deadline_def unat_time_sat_add)
  also have "\<dots> \<le> min (unat (tp_now_us tp) + unat n * 1000) (2 ^ 64 - 1)"
    using assms(5,7) by (simp add: word_le_nat_alt)
  finally have "tp_rx_state tp' = TP_STATE_IDLE"
    using reception_ends [OF assms(1,2) l] assms(3,6) by (simp add: word_gt_0 unat_gt_0)
  then show ?thesis using l assms(1) by (simp add: tp_advance_def tp_ok_def)
qed

lemma transport_silent_peer_times_out_witness:
  "\<exists>st tp'. tp_advance demo_receiving 1000 = Some (st, tp') \<and> tp_rx_state tp' = TP_STATE_IDLE"
proof (rule transport_silent_peer_times_out [where armed = 0])
  show "tp_clock demo_receiving = None" "tp_rx_deadline_us demo_receiving = tp_deadline 0 (tp_n_cr_ms demo_receiving)"
    "tp_n_cr_ms demo_receiving \<le> 1000" by code_simp+
qed (simp_all add: demo_receiving_facts)

subsection \<open>Messages\<close>

text \<open>Reassembly is correct. An idle receiver that is fed the ISO-TP segments of a message that fits
its buffer (Single Frame, or First Frame and Consecutive Frames with sequence numbers running modulo 16)
answers OK to each and OK\_MESSAGE to the last, calls \<open>on_message\<close> exactly once with exactly the message,
after having offered one Flow Control frame for a segmented message, and is idle again.\<close>

lemma transport_reassembles_message:
  assumes "tp_ok tp" and "tp_rx_state tp = TP_STATE_IDLE" and "on_message_of tp = Some f"
    and "msg \<noteq> []" and "length msg \<le> 4095" and "length msg \<le> tp_rx_capacity tp"
  shows "\<exists>tp'. tp_feed tp (tp_segments msg) =
      Some (replicate (length (tp_segments msg) - 1) TP_OK @ [TP_OK_MESSAGE], tp')
    \<and> tp_rx_state tp' = TP_STATE_IDLE
    \<and> tp_world tp' = f (if length msg \<le> 7 then tp_world tp
        else fc_world tp [0x30, tf_fc_block_size (tp_config tp), tf_fc_stmin (tp_config tp)]) msg"
  by (rule reassemble [OF assms])

lemma demo_engine_fields:
  "tp_rx_state (demo_engine c sc q) = TP_STATE_IDLE" "tp_tx_state (demo_engine c sc q) = TP_STATE_IDLE"
  "on_message_of (demo_engine c sc q) = Some script_rx" "tp_rx_capacity (demo_engine c sc q) = 32"
  "tp_tx_capacity (demo_engine c sc q) = 32" "tp_world (demo_engine c sc q) = (sc, [], [])"
  "tp_config (demo_engine c sc q) = c" "pd_kind (tp_rx_pending_fc (demo_engine c sc q)) = TX_FRAME_NONE"
  "\<not> tp_tx_busy (demo_engine c sc q)"
  "tp_sink (demo_engine c sc q) = Some \<lparr>sk_on_frame_tx = Some script_tx, sk_on_message = Some script_rx\<rparr>"
  by (simp_all add: demo_engine_def transport_init_def Let_def on_message_of_def tp_tx_busy_def init_defs)

lemma transport_reassembles_message_witness:
  "\<exists>tp'. tp_feed (demo_engine zero_tp_config [] None) (tp_segments [1, 2, 3, 4, 5, 6, 7, 8, 9, 10, 11, 12, 13, 14]) =
      Some ([TP_OK, TP_OK, TP_OK_MESSAGE], tp') \<and>
    tp_world tp' = ([], [(TX_FRAME_FC, [0x30, 0, 0])], [[1, 2, 3, 4, 5, 6, 7, 8, 9, 10, 11, 12, 13, 14]])"
proof -
  let ?m = "[1, 2, 3, 4, 5, 6, 7, 8, 9, 10, 11, 12, 13, 14] :: u8 list"
  have "length (tp_segments ?m) = 3" "fc_world (demo_engine zero_tp_config [] None) [0x30, 0, 0]
      = ([], [(TX_FRAME_FC, [0x30, 0, 0])], [])" by code_simp+
  then show ?thesis
    using transport_reassembles_message [OF demo_engine_ok [OF queue_ok_demo(1)] demo_engine_fields(1,3), of ?m zero_tp_config "[]"]
    by (simp add: demo_engine_fields zero_tp_config_def numeral_2_eq_2) blast
qed

text \<open>C10: A message crosses two connected engines unchanged. Take two initialised engines on one lossless
wire, each with a sink that puts its frames on the wire and takes messages, each on its internal time base,
both with idle sessions. A message of 1 to 4095 bytes that fits the sender's and the receiver's buffers is
handed to the first engine; the frames of each go to the other and both tick in turn. Then after some number
of rounds the receiver has been given exactly this message, once, and both engines are idle again with
nothing left on the wire or pending. The receiver answers with the block size and the separation time of its
own configuration: any separation time byte is honoured that stays 2 ms under the receiver's N\_Cr
timeout, and the block size is 0 or at least the number of Consecutive Frames, because a receiver never
sends a second Flow Control. The clocks are in the lower half of their range.\<close>

lemma transport_round_trip:
  assumes "tp_ok a" and "resting a ma" and "tp_ok b" and "resting b mb"
    and "msg \<noteq> []" and "length msg \<le> 4095" and "length msg \<le> tp_tx_capacity a" and "length msg \<le> tp_rx_capacity b"
    and "tf_fc_block_size (tp_config b) = 0 \<or>
      length msg div 7 \<le> unat (tf_fc_block_size (tp_config b))"
    and "unat (stmin_decode_us (tf_fc_stmin (tp_config b))) + 2000 < 1000 * unat (tp_n_cr_ms b)"
    and "tp_now_us a < 2 ^ 63" and "tp_now_us b < 2 ^ 63"
  shows "\<exists>n a' b'. link_transfer msg n (a, b) = Some (a', b') \<and> resting a' ma \<and> resting b' (mb @ [msg])"
proof (cases "length msg \<le> 7")
  case True
  then show ?thesis using transfer_short [OF assms(1-5) _ assms(7,8)] by simp
next
  case False
  then show ?thesis
    using assms(9) transfer_long [OF assms(1-4) _ assms(6-8) _ assms(10-12)] by (simp add: length_cf_frames)
qed

definition demo_node :: "u8 \<Rightarrow> u8 \<Rightarrow> unit linked" where
  "demo_node block_size stmin = the (snd (transport_init (Some (zero_transport ([], [])))
     (Some (zero_tp_config\<lparr>tf_fc_block_size := block_size, tf_fc_stmin := stmin\<rparr>))
     (replicate 32 0) 32 (replicate 32 0) 32 (Some link_sink) ([], []) None None))"

lemma demo_node_init:
  "transport_init (Some (zero_transport ([], [])))
     (Some (zero_tp_config\<lparr>tf_fc_block_size := bs, tf_fc_stmin := st\<rparr>))
     (replicate 32 0) 32 (replicate 32 0) 32 (Some link_sink) ([], []) None (None :: unit clock option)
     = (True, Some (demo_node bs st))"
  by (simp add: demo_node_def transport_init_def)

lemma transport_round_trip_witness:
  "\<exists>n a' b'. link_transfer [1, 2, 3, 4, 5, 6, 7, 8, 9, 10, 11, 12, 13, 14, 15, 16, 17, 18, 19, 20] n
      (demo_node 0 0, demo_node 2 0xF5) = Some (a', b') \<and>
    resting a' [] \<and> resting b' [[1, 2, 3, 4, 5, 6, 7, 8, 9, 10, 11, 12, 13, 14, 15, 16, 17, 18, 19, 20]]"
proof -
  have ok: "tp_ok (demo_node bs st)" "resting (demo_node bs st) []" for bs st
    using init_ok(1) [OF demo_node_init] by (simp_all add: queue_ok_def resting_def on_link_def demo_node_def
        transport_init_def Let_def init_defs)
  have "tp_config (demo_node 2 0xF5) = zero_tp_config\<lparr>tf_fc_block_size := 2, tf_fc_stmin := 0xF5\<rparr>"
    "tp_n_cr_ms (demo_node 2 0xF5) = 1000" "stmin_decode_us 0xF5 = 500"
    "tp_now_us (demo_node 0 0) = 0" "tp_now_us (demo_node 2 0xF5) = 0"
    "tp_tx_capacity (demo_node 0 0) = 32" "tp_rx_capacity (demo_node 2 0xF5) = 32" by code_simp+
  with transport_round_trip [OF ok ok, of "[1, 2, 3, 4, 5, 6, 7, 8, 9, 10, 11, 12, 13, 14, 15, 16, 17, 18, 19, 20]" 0 0 2 "0xF5"]
  show ?thesis by simp
qed

subsection \<open>The STmin codec\<close>

text \<open>The STmin codec. Every byte decodes to at most 127 ms, the reserved ranges decode to 0 and the
sub-millisecond codes F1 to F9 to 100 to 900 microseconds; a period of up to 127 ms survives encoding, and
every longer one is encoded as the maximum.\<close>

lemma transport_stmin_codec:
  "stmin_decode_us b \<le> 127000 \<and> stmin_encode_ms ms \<le> 0x7F \<and>
   stmin_decode_us (stmin_encode_ms ms) = (if ms \<le> 127 then ms * 1000 else 127000)"
proof (intro conjI)
  show enc: "stmin_encode_ms ms \<le> 0x7F"
    by (simp add: stmin_encode_ms_def word_le_nat_alt unat_ucast_small not_less)
  have ms: "unat (x * 1000) = unat x * 1000" if "unat x \<le> 255" for x :: u32
    using that by (simp add: unat_mult_small)
  show "stmin_decode_us (stmin_encode_ms ms) = (if ms \<le> 127 then ms * 1000 else 127000)"
  proof (cases "ms \<le> 127")
    case True
    then have "ucast (ucast ms :: u8) = ms"
      by (simp add: word_eq_unat unat_ucast_up unat_ucast_small word_le_nat_alt)
    moreover have "\<not> 127 < ms" using True by simp
    ultimately show ?thesis using True enc by (simp add: stmin_decode_us_def stmin_encode_ms_def)
  next
    case False
    then have "127 < ms" "\<not> ms \<le> 127" by simp_all
    then show ?thesis by (simp add: stmin_decode_us_def stmin_encode_ms_def)
  qed
  show "stmin_decode_us b \<le> 127000" by (rule stmin_decode_le)
qed

subsection \<open>Two deviations\<close>

lemma wait_frame_kept:
  assumes "tp_initialized tp" and "tp_tx_state tp = TP_STATE_FLOW_CONTROL" and "tp_max_wait_frames tp = 255"
  shows "\<exists>tp'. tp_rx_frame tp (Some [0x31, 0, 0]) = Some (TP_OK, tp') \<and> tp_initialized tp' \<and>
    tp_tx_state tp' = TP_STATE_FLOW_CONTROL \<and> tp_max_wait_frames tp' = 255 \<and>
    tp_tx_wait_frames tp' = tp_tx_wait_frames tp + 1"
proof -
  have "\<not> (tp_tx_wait_frames tp + 1 > 255)"
    using unat_u8_lt [of "tp_tx_wait_frames tp + 1"] by (simp add: word_less_nat_alt)
  then show ?thesis
    using assms by (simp add: tp_rx_frame_def tp_rx_handle_fc_def Let_def tp_bounds tp_arm_n_bs_def)
qed

text \<open>With the wait-frame limit configured to 255 the limit is never enforced. The 8-bit count of Wait
frames wraps from 255 to 0, so its comparison with the limit never succeeds: any number of Flow Control Wait
frames is accepted and the sender stays blocked in FLOW\_CONTROL, although the limit documents an abort.\<close>

lemma transport_wait_limit_255_never_trips:
  assumes "tp_initialized tp" and "tp_tx_state tp = TP_STATE_FLOW_CONTROL" and "tp_max_wait_frames tp = 255"
  shows "\<exists>tp'. tp_feed tp (replicate n [0x31, 0, 0]) = Some (replicate n TP_OK, tp') \<and>
    tp_tx_state tp' = TP_STATE_FLOW_CONTROL \<and> tp_tx_wait_frames tp' = tp_tx_wait_frames tp + of_nat n"
  using assms
proof (induction n arbitrary: tp)
  case (Suc n)
  obtain p where p: "tp_rx_frame tp (Some [0x31, 0, 0]) = Some (TP_OK, p)" "tp_initialized p"
    "tp_tx_state p = TP_STATE_FLOW_CONTROL" "tp_max_wait_frames p = 255"
    "tp_tx_wait_frames p = tp_tx_wait_frames tp + 1"
    using wait_frame_kept [OF Suc.prems] by blast
  then show ?case using Suc.IH [OF p(2-4)] by (auto simp: algebra_simps)
qed simp

definition demo_waiting :: "(demo_world, unit) transport" where
  "demo_waiting = snd (tp_send (demo_engine (zero_tp_config\<lparr>tf_max_wait_frames := 255\<rparr>) [] None)
     (Some [1, 2, 3, 4, 5, 6, 7, 8]))"

lemma transport_wait_limit_255_never_trips_witness:
  "\<exists>tp'. tp_feed demo_waiting (replicate 1000 [0x31, 0, 0]) = Some (replicate 1000 TP_OK, tp') \<and>
    tp_tx_state tp' = TP_STATE_FLOW_CONTROL \<and> tp_tx_wait_frames tp' = of_nat 1000"
proof -
  have "tp_initialized demo_waiting" "tp_tx_state demo_waiting = TP_STATE_FLOW_CONTROL"
    "tp_max_wait_frames demo_waiting = 255" "tp_tx_wait_frames demo_waiting = 0" by code_simp+
  with transport_wait_limit_255_never_trips [OF this(1-3), of 1000] show ?thesis by simp
qed

text \<open>The frame that a retried frame was built from is sent again: what one tick does when the sink declines
the retry and then accepts the copy the burst builds.\<close>

definition last_of_block :: "('w, 'c) transport \<Rightarrow> bool" where
  "last_of_block tp \<longleftrightarrow> tp_tx_state tp = TP_STATE_CONSECUTIVE_FRAME \<and>
     unat (tp_tx_sent tp) + 7 < unat (tp_tx_total tp) \<and>
     \<not> tp_tx_block_unlimited tp \<and> tp_tx_block_remaining tp = 1"

definition retry_part where
  "retry_part tp = (tp_initialized tp, tp_clock tp, tp_sink tp, tp_rx_state tp, tp_rx_pending_fc tp, tp_tx_total tp,
     tp_n_as_ms tp, tp_n_bs_ms tp, tp_now_us tp, tn_timeouts (tp_counters tp), tn_faults_raised (tp_counters tp),
     tn_tx_messages_completed (tp_counters tp))"

lemma emit_scripted:
  assumes "tp_sink tp = Some s" and "sk_on_frame_tx s = Some g"
  shows "g (tp_world tp) (k, fr) = (False, w) \<Longrightarrow> tp_emit_frame tp k fr =
      (False, count_tp (\<lambda>c. c\<lparr>tn_frames_tx_declined := tn_frames_tx_declined c + 1\<rparr>) (tp\<lparr>tp_world := w\<rparr>))"
    and "g (tp_world tp) (k, fr) = (True, w) \<Longrightarrow> tp_emit_frame tp k fr =
      (True, count_tp (\<lambda>c. count_frame_kind k (c\<lparr>tn_frames_tx := tn_frames_tx c + 1\<rparr>)) (tp\<lparr>tp_world := w\<rparr>))"
  using assms by (simp_all add: tp_emit_frame_def tp_can_transmit_def Let_def)

lemma declined_then_accepted:
  fixes tp :: "('w, 'c) transport"
  defines "fr \<equiv> tp_cf_frame tp"
  assumes "last_of_block tp" and "tp_tx_next_cf_us tp \<le> tp_now_us tp"
    and "pd_kind (tp_tx_pending tp) = TX_FRAME_CF" and "pd_data (tp_tx_pending tp) = fr"
    and "\<not> tp_pending_n_as_expired tp (tp_tx_pending tp)"
    and "tp_sink tp = Some s" and "sk_on_frame_tx s = Some g"
    and "g (tp_world tp) (TX_FRAME_CF, fr) = (False, w1)" and "g w1 (TX_FRAME_CF, fr) = (True, w2)"
  shows "\<exists>tp'. tp_pump_tx tp = Some tp' \<and> tp_world tp' = w2 \<and> tp_tx_pending tp' = tp_tx_pending tp \<and>
    tp_tx_state tp' = TP_STATE_FLOW_CONTROL \<and> tp_tx_sent tp' = tp_tx_sent tp + 7 \<and>
    tp_tx_deadline_us tp' = tp_deadline (tp_now_us tp) (tp_n_bs_ms tp) \<and>
    \<not> tp_tx_block_unlimited tp' \<and> tp_tx_block_remaining tp' = 0 \<and> retry_part tp' = retry_part tp"
proof -
  let ?p = "count_tp (\<lambda>c. c\<lparr>tn_frames_tx_declined := tn_frames_tx_declined c + 1\<rparr>) (tp\<lparr>tp_world := w1\<rparr>)"
  have b: "unat (tp_tx_sent tp) + 7 < unat (tp_tx_total tp)" using assms(2) by (simp add: last_of_block_def)
  have chunk: "tp_cf_chunk tp = 7" using b by (simp add: tp_cf_chunk_def tp_bounds unat_minus_le)
  have frame: "tp_cf_frame ?p = fr" by (simp add: fr_def tp_cf_frame_def tp_cf_chunk_def)
  have due: "tp_cf_due ?p" using assms(2,3) b by (simp add: tp_cf_due_def last_of_block_def word_less_nat_alt)
  have c: "tp_cf_chunk ?p = 7" using chunk by (simp add: tp_cf_chunk_def)
  have more: "\<not> tp_tx_total tp \<le> tp_tx_sent tp + 7"
    using b unat_u16_lt [of "tp_tx_total tp"] by (simp add: word_le_nat_alt unat_plus_small)
  let ?q = "tp_await_fc (tp_cf_sent (count_tp (\<lambda>c. count_frame_kind TX_FRAME_CF (c\<lparr>tn_frames_tx := tn_frames_tx c + 1\<rparr>))
      (?p\<lparr>tp_world := w2\<rparr>)) (tp_tx_next_sn tp) 7)"
  have "tp_emit_frame ?p TX_FRAME_CF fr = (True, count_tp (\<lambda>c. count_frame_kind TX_FRAME_CF (c\<lparr>tn_frames_tx := tn_frames_tx c + 1\<rparr>))
      (?p\<lparr>tp_world := w2\<rparr>))"
    by (rule emit_scripted(2) [of _ s g]) (use assms in simp_all)
  then have "tp_tx_pump_cf ?p = ?q"
    using due c frame more assms(2)
    by (subst tp_tx_pump_cf.simps) (simp add: Let_def tp_cf_sent_def last_of_block_def)
  moreover have "tp_emit_frame tp TX_FRAME_CF fr = (False, ?p)"
    by (rule emit_scripted(1) [of _ s g]) (use assms in simp_all)
  ultimately have "tp_pump_tx tp = Some ?q"
    using assms(4-6) by (simp add: tp_pump_tx_def)
  then show ?thesis using assms(2)
    by (simp add: tp_await_fc_def tp_arm_n_bs_def tp_cf_sent_def retry_part_def last_of_block_def)
qed

lemma stale_retry_accepted:
  assumes "tp_tx_state tp = TP_STATE_FLOW_CONTROL" and "\<not> tp_tx_block_unlimited tp" and "tp_tx_block_remaining tp = 0"
    and "pd_kind (tp_tx_pending tp) = TX_FRAME_CF" and "pd_data (tp_tx_pending tp) = fr" and "length fr = 8"
    and "\<not> tp_pending_n_as_expired tp (tp_tx_pending tp)"
    and "tp_sink tp = Some s" and "sk_on_frame_tx s = Some g" and "g (tp_world tp) (TX_FRAME_CF, fr) = (True, w)"
  shows "\<exists>tp'. tp_pump_tx tp = Some tp' \<and> tp_world tp' = w \<and> pd_kind (tp_tx_pending tp') = TX_FRAME_NONE \<and>
    tn_timeouts (tp_counters tp') = tn_timeouts (tp_counters tp) \<and>
    tn_faults_raised (tp_counters tp') = tn_faults_raised (tp_counters tp) \<and>
    (if tp_tx_total tp \<le> tp_tx_sent tp + 7
     then tp_tx_state tp' = TP_STATE_IDLE \<and>
       tn_tx_messages_completed (tp_counters tp') = tn_tx_messages_completed (tp_counters tp) + 1
     else tp_tx_state tp' = TP_STATE_FLOW_CONTROL \<and> tp_tx_sent tp' = tp_tx_sent tp + 7)"
proof -
  let ?p = "count_tp (\<lambda>c. count_frame_kind TX_FRAME_CF (c\<lparr>tn_frames_tx := tn_frames_tx c + 1\<rparr>)) (tp\<lparr>tp_world := w\<rparr>)"
  have e: "tp_emit_frame tp TX_FRAME_CF fr = (True, ?p)"
    by (rule emit_scripted(2) [of _ s g]) (use assms in simp_all)
  have idle: "\<not> tp_cf_due (tp_pending_accepted ?p)"
    using assms by (simp add: tp_pending_accepted_def Let_def tp_cf_sent_def tp_tx_complete_def tp_await_fc_def
        tp_arm_n_bs_def tp_cf_due_def)
  then have "tp_pump_tx tp = Some (tp_pending_accepted ?p)"
    using assms(4,5,7) e by (simp add: tp_pump_tx_def pump_cf_idle)
  then show ?thesis
    using assms by (simp add: tp_pending_accepted_def Let_def tp_cf_sent_def tp_tx_complete_def tp_await_fc_def
        tp_arm_n_bs_def tp_pending_clear_def)
qed

text \<open>What the sink answers when the due Consecutive Frame is offered in the world \<open>w\<close>.\<close>

definition offer_cf :: "('w, 'c) transport \<Rightarrow> 'w \<Rightarrow> bool \<times> 'w" where
  "offer_cf tp w = the (sk_on_frame_tx (the (tp_sink tp))) w (TX_FRAME_CF, tp_cf_frame tp)"

text \<open>C13: A declined Consecutive Frame can be sent twice and counted twice. Let a sender hold the last frame
of a block in its pending slot (the sink declined it) with at least one more frame to follow, the timeouts
not near. If the platform declines the retry and then accepts the next offer within the same tick, that tick
builds and sends the same frame from the buffer, the slot keeps its copy, and the next tick sends it once
more: the sink has accepted the same frame twice in a row, 14 bytes are counted as sent for the 7 bytes that
went out, no fault is raised, and where at most 14 bytes were left the message is counted complete and the
session ends, although its last bytes were never offered to the sink.\<close>

lemma transport_declined_frame_sent_twice:
  assumes "tp_ok tp" and "tp_clock tp = None" and "tp_rx_state tp = TP_STATE_IDLE"
    and "pd_kind (tp_rx_pending_fc tp) = TX_FRAME_NONE"
    and "last_of_block tp" and "tp_tx_next_cf_us tp \<le> tp_now_us tp"
    and "pd_kind (tp_tx_pending tp) = TX_FRAME_CF" and "pd_data (tp_tx_pending tp) = tp_cf_frame tp"
    and "unat (tp_now_us tp) + 2000 < unat (tp_deadline (pd_first_attempt_us (tp_tx_pending tp)) (tp_n_as_ms tp))"
    and "2 \<le> tp_n_bs_ms tp"
    and "tp_can_transmit tp" and "offer_cf tp (tp_world tp) = (False, w1)"
    and "offer_cf tp w1 = (True, w2)" and "offer_cf tp w2 = (True, w3)"
  shows "\<exists>tp'. tp_run [Tp_tick, Tp_tick] tp = Some ([TP_OK, TP_OK], tp') \<and> tp_world tp' = w3 \<and>
    pd_kind (tp_tx_pending tp') = TX_FRAME_NONE \<and>
    tn_faults_raised (tp_counters tp') = tn_faults_raised (tp_counters tp) \<and>
    (if unat (tp_tx_total tp) \<le> unat (tp_tx_sent tp) + 14
     then tp_tx_state tp' = TP_STATE_IDLE \<and>
       tn_tx_messages_completed (tp_counters tp') = tn_tx_messages_completed (tp_counters tp) + 1
     else tp_tx_state tp' = TP_STATE_FLOW_CONTROL \<and> unat (tp_tx_sent tp') = unat (tp_tx_sent tp) + 14)"
proof -
  let ?fr = "tp_cf_frame tp" and ?a = "tp_advance_clock tp"
  obtain s g where g: "tp_sink tp = Some s" "sk_on_frame_tx s = Some g"
    "g (tp_world tp) (TX_FRAME_CF, ?fr) = (False, w1)" "g w1 (TX_FRAME_CF, ?fr) = (True, w2)"
    "g w2 (TX_FRAME_CF, ?fr) = (True, w3)"
    using assms(11-14) by (auto simp: tp_can_transmit_def offer_cf_def)
  have w: "tp_world ?a = tp_world tp" "tp_tx_pending ?a = tp_tx_pending tp" "tp_sink ?a = tp_sink tp"
    "tp_tx_next_cf_us ?a = tp_tx_next_cf_us tp" "tp_tx_sent ?a = tp_tx_sent tp" "tp_tx_total ?a = tp_tx_total tp"
    "tp_tx_buffer ?a = tp_tx_buffer tp" "tp_tx_next_sn ?a = tp_tx_next_sn tp" "tp_n_as_ms ?a = tp_n_as_ms tp"
    "tp_n_bs_ms ?a = tp_n_bs_ms tp" "tp_now_us ?a = time_sat_add (tp_now_us tp) 1000"
    "last_of_block ?a = last_of_block tp"
    using assms(2) by (simp_all add: tp_advance_clock_def Let_def count_tp_def last_of_block_def)
  have b: "unat (tp_tx_sent tp) + 7 < unat (tp_tx_total tp)" "tp_initialized tp"
    "unat (tp_tx_total tp) \<le> length (tp_tx_buffer tp)" "unat (tp_tx_total tp) \<le> 4095"
    using assms(1,5) by (simp_all add: last_of_block_def tp_ok_def tx_ok_def)
  have frame: "tp_cf_frame ?a = ?fr" by (simp add: tp_cf_frame_def tp_cf_chunk_def w)
  have "tp_cf_chunk tp = 7" using b by (simp add: tp_cf_chunk_def tp_bounds unat_minus_le)
  then have len: "length ?fr = 8" using b by (simp add: tp_cf_frame_def)
  let ?dl = "tp_deadline (pd_first_attempt_us (tp_tx_pending tp)) (tp_n_as_ms tp)"
  have "unat ?dl < 2 ^ 64" using unat_u64_lt [of ?dl] by simp
  then have now: "unat (time_sat_add (tp_now_us tp) 1000) = unat (tp_now_us tp) + 1000"
    "unat (time_sat_add (time_sat_add (tp_now_us tp) 1000) 1000) = unat (tp_now_us tp) + 2000"
    using assms(9) by (simp_all add: unat_time_sat_add)
  obtain p where p: "tp_pump_tx ?a = Some p" "tp_world p = w2" "tp_tx_pending p = tp_tx_pending tp"
    "tp_tx_state p = TP_STATE_FLOW_CONTROL" "tp_tx_sent p = tp_tx_sent tp + 7"
    "tp_tx_deadline_us p = tp_deadline (time_sat_add (tp_now_us tp) 1000) (tp_n_bs_ms tp)"
    "\<not> tp_tx_block_unlimited p" "tp_tx_block_remaining p = 0" "retry_part p = retry_part ?a"
  proof -
    have "time_sat_add (tp_now_us tp) 1000 < ?dl" using now(1) assms(9) by (simp add: word_less_nat_alt)
    then have "\<not> tp_pending_n_as_expired ?a (tp_tx_pending ?a)" by (simp add: w tp_pending_n_as_expired_def not_le)
    moreover have "tp_tx_next_cf_us ?a \<le> tp_now_us ?a" using assms(6) now(1) by (simp add: w word_le_nat_alt)
    ultimately have "\<exists>p. tp_pump_tx ?a = Some p \<and> tp_world p = w2 \<and> tp_tx_pending p = tp_tx_pending ?a \<and>
      tp_tx_state p = TP_STATE_FLOW_CONTROL \<and> tp_tx_sent p = tp_tx_sent ?a + 7 \<and>
      tp_tx_deadline_us p = tp_deadline (tp_now_us ?a) (tp_n_bs_ms ?a) \<and>
      \<not> tp_tx_block_unlimited p \<and> tp_tx_block_remaining p = 0 \<and> retry_part p = retry_part ?a"
      by (intro declined_then_accepted [where s = s and g = g and ?w1.0 = w1]) (use assms g in \<open>simp_all add: w frame\<close>)
    then show thesis using that w by auto
  qed
  note r = p(9) [unfolded retry_part_def w, simplified]
  have tick1: "tp_tick tp = Some (TP_OK, p)"
    using p(1) r b(2) assms(2-5) by (simp add: tp_tick_def tp_check_n_cr_def tp_check_n_bs_def tp_pump_rx_pending_def
        last_of_block_def w tp_advance_clock_def Let_def)
  let ?b = "tp_advance_clock p"
  have v: "tp_world ?b = w2" "tp_tx_pending ?b = tp_tx_pending tp" "tp_sink ?b = tp_sink tp"
    "tp_tx_state ?b = TP_STATE_FLOW_CONTROL" "tp_tx_sent ?b = tp_tx_sent tp + 7" "tp_tx_total ?b = tp_tx_total tp"
    "tp_n_as_ms ?b = tp_n_as_ms tp" "\<not> tp_tx_block_unlimited ?b" "tp_tx_block_remaining ?b = 0"
    "tp_tx_deadline_us ?b = tp_deadline (time_sat_add (tp_now_us tp) 1000) (tp_n_bs_ms tp)"
    "tp_now_us ?b = time_sat_add (time_sat_add (tp_now_us tp) 1000) 1000"
    "tp_initialized ?b" "tp_rx_state ?b = TP_STATE_IDLE" "tp_rx_pending_fc ?b = tp_rx_pending_fc tp"
    "tn_timeouts (tp_counters ?b) = tn_timeouts (tp_counters p)"
    "tn_faults_raised (tp_counters ?b) = tn_faults_raised (tp_counters tp)"
    "tn_tx_messages_completed (tp_counters ?b) = tn_tx_messages_completed (tp_counters tp)"
    using p(2-8) r b(2) assms(2,3) by (simp_all add: tp_advance_clock_def Let_def count_tp_def)
  have "time_sat_add (time_sat_add (tp_now_us tp) 1000) 1000 < ?dl" using now(2) assms(9) by (simp add: word_less_nat_alt)
  then have live: "\<not> tp_pending_n_as_expired ?b (tp_tx_pending ?b)" by (simp add: v p(3) tp_pending_n_as_expired_def not_le)
  have "\<exists>q. tp_pump_tx ?b = Some q \<and> tp_world q = w3 \<and> pd_kind (tp_tx_pending q) = TX_FRAME_NONE \<and>
      tn_timeouts (tp_counters q) = tn_timeouts (tp_counters ?b) \<and>
      tn_faults_raised (tp_counters q) = tn_faults_raised (tp_counters ?b) \<and>
      (if tp_tx_total ?b \<le> tp_tx_sent ?b + 7
       then tp_tx_state q = TP_STATE_IDLE \<and>
         tn_tx_messages_completed (tp_counters q) = tn_tx_messages_completed (tp_counters ?b) + 1
       else tp_tx_state q = TP_STATE_FLOW_CONTROL \<and> tp_tx_sent q = tp_tx_sent ?b + 7)"
    by (rule stale_retry_accepted [where s = s and g = g and fr = ?fr]) (use live assms g len r in \<open>simp_all add: v p(2-4)\<close>)
  then obtain q where q: "tp_pump_tx ?b = Some q" "tp_world q = w3" "pd_kind (tp_tx_pending q) = TX_FRAME_NONE"
    "tn_timeouts (tp_counters q) = tn_timeouts (tp_counters p)"
    "tn_faults_raised (tp_counters q) = tn_faults_raised (tp_counters tp)"
    "if tp_tx_total tp \<le> tp_tx_sent tp + 7 + 7
       then tp_tx_state q = TP_STATE_IDLE \<and>
         tn_tx_messages_completed (tp_counters q) = tn_tx_messages_completed (tp_counters tp) + 1
       else tp_tx_state q = TP_STATE_FLOW_CONTROL \<and> tp_tx_sent q = tp_tx_sent tp + 7 + 7"
    unfolding v by blast
  have "tp_initialized p" using r b(2) by simp
  moreover have "\<not> tp_deadline (time_sat_add (tp_now_us tp) 1000) (tp_n_bs_ms tp)
      \<le> time_sat_add (time_sat_add (tp_now_us tp) 1000) 1000"
    using now assms(9,10) by (auto simp: word_le_nat_alt unat_tp_deadline min_le_iff_disj)
  ultimately have "tp_tick p = Some (TP_OK, q)"
    using q(1,4) r p(4,6) assms(3,4) by (simp add: tp_tick_def tp_check_n_cr_def tp_check_n_bs_def tp_pump_rx_pending_def v)
  moreover have "unat (tp_tx_sent tp + 7 + 7) = unat (tp_tx_sent tp) + 14"
    using b(1,4) by (simp add: unat_plus_small)
  ultimately show ?thesis using tick1 q by (simp add: word_le_nat_alt)
qed

definition demo_declined :: "(demo_world, unit) transport" where
  "demo_declined = snd (the (tp_run [Tp_send (Some [1, 2, 3, 4, 5, 6, 7, 8, 9, 10, 11, 12, 13, 14, 15, 16, 17, 18, 19, 20]),
     Tp_rx (Some [0x30, 1, 0]), Tp_tick] (demo_engine zero_tp_config [True, False, False] None)))"

lemma transport_declined_frame_sent_twice_witness:
  "\<exists>tp'. tp_run [Tp_tick, Tp_tick] demo_declined = Some ([TP_OK, TP_OK], tp') \<and>
    tp_world tp' = ([], [(TX_FRAME_FF, [0x10, 20, 1, 2, 3, 4, 5, 6]),
      (TX_FRAME_CF, [0x21, 7, 8, 9, 10, 11, 12, 13]), (TX_FRAME_CF, [0x21, 7, 8, 9, 10, 11, 12, 13])], []) \<and>
    tp_tx_state tp' = TP_STATE_IDLE \<and> tn_tx_messages_completed (tp_counters tp') = 1"
proof -
  have n: "unat (tp_tx_total demo_declined) = 20" "unat (tp_tx_sent demo_declined) = 6"
    "tn_tx_messages_completed (tp_counters demo_declined) = 0" by code_simp+
  have ok: "tp_ok demo_declined"
    using run_after [OF demo_engine_ok [OF queue_ok_demo(1)], of
      "[Tp_send (Some [1, 2, 3, 4, 5, 6, 7, 8, 9, 10, 11, 12, 13, 14, 15, 16, 17, 18, 19, 20]), Tp_rx (Some [0x30, 1, 0]), Tp_tick]"
      zero_tp_config "[True, False, False]"]
    by (auto simp: demo_declined_def simp del: tp_run.simps dest: tp_after_ok)
  have "\<exists>tp'. tp_run [Tp_tick, Tp_tick] demo_declined = Some ([TP_OK, TP_OK], tp') \<and>
    tp_world tp' = ([], [(TX_FRAME_FF, [0x10, 20, 1, 2, 3, 4, 5, 6]),
      (TX_FRAME_CF, [0x21, 7, 8, 9, 10, 11, 12, 13]), (TX_FRAME_CF, [0x21, 7, 8, 9, 10, 11, 12, 13])], []) \<and>
    pd_kind (tp_tx_pending tp') = TX_FRAME_NONE \<and>
    tn_faults_raised (tp_counters tp') = tn_faults_raised (tp_counters demo_declined) \<and>
    (if unat (tp_tx_total demo_declined) \<le> unat (tp_tx_sent demo_declined) + 14
     then tp_tx_state tp' = TP_STATE_IDLE \<and>
       tn_tx_messages_completed (tp_counters tp') = tn_tx_messages_completed (tp_counters demo_declined) + 1
     else tp_tx_state tp' = TP_STATE_FLOW_CONTROL \<and> unat (tp_tx_sent tp') = unat (tp_tx_sent demo_declined) + 14)"
  proof (rule transport_declined_frame_sent_twice)
    show "tp_can_transmit demo_declined"
      "offer_cf demo_declined (tp_world demo_declined) = (False, [], [(TX_FRAME_FF, [0x10, 20, 1, 2, 3, 4, 5, 6])], [])"
      "offer_cf demo_declined ([], [(TX_FRAME_FF, [0x10, 20, 1, 2, 3, 4, 5, 6])], []) =
        (True, [], [(TX_FRAME_FF, [0x10, 20, 1, 2, 3, 4, 5, 6]), (TX_FRAME_CF, [0x21, 7, 8, 9, 10, 11, 12, 13])], [])"
      "offer_cf demo_declined ([], [(TX_FRAME_FF, [0x10, 20, 1, 2, 3, 4, 5, 6]), (TX_FRAME_CF, [0x21, 7, 8, 9, 10, 11, 12, 13])], []) =
        (True, [], [(TX_FRAME_FF, [0x10, 20, 1, 2, 3, 4, 5, 6]), (TX_FRAME_CF, [0x21, 7, 8, 9, 10, 11, 12, 13]),
          (TX_FRAME_CF, [0x21, 7, 8, 9, 10, 11, 12, 13])], [])"
      "tp_clock demo_declined = None" "tp_rx_state demo_declined = TP_STATE_IDLE"
      "pd_kind (tp_rx_pending_fc demo_declined) = TX_FRAME_NONE" "last_of_block demo_declined"
      "tp_tx_next_cf_us demo_declined \<le> tp_now_us demo_declined"
      "pd_kind (tp_tx_pending demo_declined) = TX_FRAME_CF" "2 \<le> tp_n_bs_ms demo_declined"
      "pd_data (tp_tx_pending demo_declined) = tp_cf_frame demo_declined"
      by code_simp+
    have "tp_now_us demo_declined = 1000" "pd_first_attempt_us (tp_tx_pending demo_declined) = 1000"
      "tp_n_as_ms demo_declined = 1000" by code_simp+
    then show "unat (tp_now_us demo_declined) + 2000
        < unat (tp_deadline (pd_first_attempt_us (tp_tx_pending demo_declined)) (tp_n_as_ms demo_declined))"
      by (simp add: unat_tp_deadline)
  qed (rule ok)
  then show ?thesis using n by auto
qed

text \<open>The peer's view of those frames: it refuses the duplicate and delivers nothing.\<close>

lemma duplicate_frame_refused:
  "case tp_feed (demo_engine zero_tp_config [] None) [[0x10, 20, 1, 2, 3, 4, 5, 6],
       [0x21, 7, 8, 9, 10, 11, 12, 13], [0x21, 7, 8, 9, 10, 11, 12, 13]] of
     None \<Rightarrow> False
   | Some (replies, b) \<Rightarrow> replies = [TP_OK, TP_OK, TP_ERR_PROTOCOL] \<and> snd (snd (tp_world b)) = []"
  by code_simp

end
