(* ===== verification/Double.thy ===== *)
theory Double
  imports Prelude
begin

text \<open>
  C's \<open>double\<close>, as the 64-bit pattern the code stores: IEEE 754 binary64 with the default
  rounding (to nearest, ties to even), the arithmetic of every target the repository builds for.
  A finite pattern stands for an integer multiple of the smallest subnormal, \<open>2^-1074\<close>: its
  \<open>fp_units\<close>. Every operation computes exactly on integers and rounds once. The payload of a NaN
  result is fixed, since no code reads it. Integers rather than naturals, so that the definitions
  evaluate on binary numerals.
\<close>

type_synonym double = u64

definition fp_neg :: "double \<Rightarrow> bool" where
  "fp_neg x \<longleftrightarrow> 0x8000000000000000 \<le> x"

definition fp_mag :: "double \<Rightarrow> int" where
  "fp_mag x = uint x mod 2 ^ 63"

definition FP_INF_MAG :: int where "FP_INF_MAG = 2047 * 2 ^ 52"

definition fp_nan :: "double \<Rightarrow> bool" where
  "fp_nan x \<longleftrightarrow> FP_INF_MAG < fp_mag x"

definition fp_inf :: "double \<Rightarrow> bool" where
  "fp_inf x \<longleftrightarrow> fp_mag x = FP_INF_MAG"

text \<open>Mantissa and exponent of a magnitude; infinity counts as \<open>2^2098\<close> units.\<close>

definition mag_mant :: "int \<Rightarrow> int" where
  "mag_mant m = (if m < 2 ^ 52 then m else 2 ^ 52 + m mod 2 ^ 52)"

definition mag_exp :: "int \<Rightarrow> int" where
  "mag_exp m = max 0 (m div 2 ^ 52 - 1)"

definition pow2 :: "int \<Rightarrow> int" where "pow2 e = 2 ^ nat e"

definition fp_units :: "double \<Rightarrow> int" where
  "fp_units x = (let u = mag_mant (fp_mag x) * pow2 (mag_exp (fp_mag x)) in if fp_neg x then - u else u)"

definition fp_pattern :: "bool \<Rightarrow> int \<Rightarrow> double" where
  "fp_pattern neg mag = (if neg then 0x8000000000000000 else 0) + word_of_int (min mag FP_INF_MAG)"

definition FP_NAN :: double where "FP_NAN = 0x7FF8000000000000"

subsection \<open>Rounding\<close>

function int_bits :: "int \<Rightarrow> int" where
  "int_bits n = (if n \<le> 0 then 0 else 1 + int_bits (n div 2))"
  by pat_completeness auto
termination by (relation "measure nat") auto

declare int_bits.simps [simp del]

definition round_half_even :: "int \<Rightarrow> int \<Rightarrow> int" where
  "round_half_even n d =
     (let q = n div d; r = n mod d
      in if 2 * r < d then q else if d < 2 * r then q + 1 else if even q then q else q + 1)"

text \<open>
  The magnitude nearest to \<open>n / d * 2^e\<close> units: \<open>fl\<close> is the binary logarithm of \<open>n / d\<close>, rounded
  down, and \<open>k\<close> the exponent of the last of 53 significant bits.
\<close>

definition round_mag :: "int \<Rightarrow> int \<Rightarrow> int \<Rightarrow> int" where
  "round_mag n d e =
     (if n = 0 then 0
      else
        let l = int_bits n - int_bits d;
            fl = (if d * pow2 l \<le> n * pow2 (- l) then l else l - 1);
            k = max 0 (fl + e - 52)
        in k * 2 ^ 52 + round_half_even (n * pow2 (e - k)) (d * pow2 (k - e)))"

definition fp_round :: "bool \<Rightarrow> int \<Rightarrow> int \<Rightarrow> int \<Rightarrow> double" where
  "fp_round neg n d e = fp_pattern neg (round_mag n d e)"

subsection \<open>Operations\<close>

definition fp_of_int :: "int \<Rightarrow> double" where
  "fp_of_int i = fp_round (i < 0) \<bar>i\<bar> 1 1074"

text \<open>Truncation towards zero, the conversion to an integer type of a value that fits it.\<close>

definition fp_to_int :: "double \<Rightarrow> int" where
  "fp_to_int x =
     (let m = mag_mant (fp_mag x); e = mag_exp (fp_mag x) - 1074;
          t = m * pow2 e div pow2 (- e)
      in if fp_neg x then - t else t)"

definition fp_less :: "double \<Rightarrow> double \<Rightarrow> bool" where
  "fp_less x y \<longleftrightarrow> \<not> fp_nan x \<and> \<not> fp_nan y \<and> fp_units x < fp_units y"

definition fp_le :: "double \<Rightarrow> double \<Rightarrow> bool" where
  "fp_le x y \<longleftrightarrow> \<not> fp_nan x \<and> \<not> fp_nan y \<and> fp_units x \<le> fp_units y"

definition fp_eq :: "double \<Rightarrow> double \<Rightarrow> bool" where
  "fp_eq x y \<longleftrightarrow> \<not> fp_nan x \<and> \<not> fp_nan y \<and> fp_units x = fp_units y"

definition fp_uminus :: "double \<Rightarrow> double" where
  "fp_uminus x = x + 0x8000000000000000"

definition fp_add :: "double \<Rightarrow> double \<Rightarrow> double" where
  "fp_add x y =
     (if fp_nan x \<or> fp_nan y then FP_NAN
      else if fp_inf x then (if fp_inf y \<and> fp_neg x \<noteq> fp_neg y then FP_NAN else x)
      else if fp_inf y then y
      else let ex = mag_exp (fp_mag x); ey = mag_exp (fp_mag y); e = min ex ey;
               mx = mag_mant (fp_mag x) * pow2 (ex - e); my = mag_mant (fp_mag y) * pow2 (ey - e);
               u = (if fp_neg x then - mx else mx) + (if fp_neg y then - my else my)
           in if u = 0 then fp_pattern (fp_neg x \<and> fp_neg y) 0
              else fp_round (u < 0) \<bar>u\<bar> 1 e)"

definition fp_sub :: "double \<Rightarrow> double \<Rightarrow> double" where
  "fp_sub x y = fp_add x (fp_uminus y)"

definition fp_mul :: "double \<Rightarrow> double \<Rightarrow> double" where
  "fp_mul x y =
     (let s = (fp_neg x \<noteq> fp_neg y); a = mag_mant (fp_mag x); b = mag_mant (fp_mag y)
      in if fp_nan x \<or> fp_nan y then FP_NAN
         else if fp_inf x \<or> fp_inf y
         then (if a = 0 \<or> b = 0 then FP_NAN else fp_pattern s FP_INF_MAG)
         else fp_round s (a * b) 1 (mag_exp (fp_mag x) + mag_exp (fp_mag y) - 1074))"

definition fp_div :: "double \<Rightarrow> double \<Rightarrow> double" where
  "fp_div x y =
     (let s = (fp_neg x \<noteq> fp_neg y); a = mag_mant (fp_mag x); b = mag_mant (fp_mag y)
      in if fp_nan x \<or> fp_nan y then FP_NAN
         else if fp_inf x then (if fp_inf y then FP_NAN else fp_pattern s FP_INF_MAG)
         else if fp_inf y then fp_pattern s 0
         else if b = 0 then (if a = 0 then FP_NAN else fp_pattern s FP_INF_MAG)
         else fp_round s a b (mag_exp (fp_mag x) - mag_exp (fp_mag y) + 1074))"

subsection \<open>Patterns\<close>

lemma pow2_nonneg: "pow2 (int n) = 2 ^ n" "pow2 (- int n) = 1"
  by (simp_all add: pow2_def)

lemma pow2_pos [simp]: "0 < pow2 e"
  by (simp add: pow2_def)

lemma uint_fp_pattern:
  assumes "0 \<le> m"
  shows "uint (fp_pattern neg m) = (if neg then 2 ^ 63 else 0) + min m FP_INF_MAG"
proof -
  have r: "0 \<le> min m FP_INF_MAG" "min m FP_INF_MAG < 2 ^ 63" using assms by (auto simp: FP_INF_MAG_def)
  have w: "uint (word_of_int (min m FP_INF_MAG) :: double) = min m FP_INF_MAG"
    using r by (simp add: uint_word_of_int)
  show ?thesis
  proof (cases neg)
    case True
    have "uint (0x8000000000000000 + word_of_int (min m FP_INF_MAG) :: double)
        = 2 ^ 63 + min m FP_INF_MAG"
      using r by (simp only: uint_word_ariths w) simp
    then show ?thesis using True by (simp add: fp_pattern_def)
  qed (simp add: fp_pattern_def w)
qed

lemma fp_pattern_parts:
  assumes "0 \<le> m"
  shows "fp_mag (fp_pattern neg m) = min m FP_INF_MAG" and "fp_neg (fp_pattern neg m) = neg"
proof -
  have r: "0 \<le> min m FP_INF_MAG" "min m FP_INF_MAG < 2 ^ 63" using assms by (auto simp: FP_INF_MAG_def)
  show "fp_mag (fp_pattern neg m) = min m FP_INF_MAG"
    using r by (simp add: fp_mag_def uint_fp_pattern [OF assms])
  show "fp_neg (fp_pattern neg m) = neg"
    using r by (cases neg) (simp_all add: fp_neg_def word_le_def uint_fp_pattern [OF assms] not_le FP_INF_MAG_def)
qed

lemma not_nan_pattern: "0 \<le> m \<Longrightarrow> \<not> fp_nan (fp_pattern neg m)"
  by (simp add: fp_nan_def fp_pattern_parts)

lemma round_half_even_nonneg: "0 \<le> n \<Longrightarrow> 0 < d \<Longrightarrow> 0 \<le> round_half_even n d"
  by (simp add: round_half_even_def Let_def pos_imp_zdiv_nonneg_iff)

lemma round_mag_nonneg:
  assumes "0 \<le> n" and "0 < d"
  shows "0 \<le> round_mag n d e"
proof -
  have "0 \<le> k * 2 ^ 52 + round_half_even (n * pow2 i) (d * pow2 j)" if "0 \<le> k" for k i j :: int
    using that assms by (intro add_nonneg_nonneg round_half_even_nonneg) (simp_all add: less_imp_le)
  then show ?thesis by (simp add: round_mag_def Let_def)
qed

lemma fp_of_int_not_nan: "\<not> fp_nan (fp_of_int i)"
  by (simp add: fp_of_int_def fp_round_def not_nan_pattern round_mag_nonneg)

lemma fp_eq_refl: "\<not> fp_nan x \<Longrightarrow> fp_eq x x"
  by (simp add: fp_eq_def)

subsection \<open>Exactness of the conversion of integers\<close>

lemma int_bits_nonneg: "0 \<le> int_bits n"
  by (induction n rule: int_bits.induct) (simp add: int_bits.simps)

lemma int_bits_step: "0 < n \<Longrightarrow> nat (int_bits n) = Suc (nat (int_bits (n div 2)))"
  using int_bits_nonneg [of "n div 2"] by (subst int_bits.simps) simp

lemma int_bits_bounds: "0 < n \<Longrightarrow> 2 ^ nat (int_bits n) \<le> 2 * n \<and> n < 2 ^ nat (int_bits n)"
proof (induction n rule: int_bits.induct)
  case (1 n)
  show ?case
  proof (cases "0 < n div 2")
    case True
    then have ih: "2 ^ nat (int_bits (n div 2)) \<le> 2 * (n div 2)" "n div 2 < 2 ^ nat (int_bits (n div 2))"
      using 1 by simp_all
    have "2 ^ nat (int_bits n) = (2 :: int) * 2 ^ nat (int_bits (n div 2))"
      using int_bits_step [OF 1(2)] by simp
    then show ?thesis using ih by linarith
  next
    case False
    then have "n = 1" using 1(2) by simp
    moreover have "int_bits 0 = 0" by (simp add: int_bits.simps)
    ultimately show ?thesis by (simp add: int_bits.simps)
  qed
qed

lemma int_bits_eq:
  assumes "2 ^ b \<le> n" and "n < 2 ^ Suc b"
  shows "int_bits n = int b + 1"
proof -
  have n: "0 < n" using assms(1) by (meson less_le_trans zero_less_numeral zero_less_power)
  have u: "(2::int) ^ nat (int_bits n) < 2 ^ Suc (Suc b)" "(2::int) ^ b < 2 ^ nat (int_bits n)"
    using int_bits_bounds [OF n] assms by (simp, linarith)
  have "nat (int_bits n) < Suc (Suc b)" using u(1) by (rule power_less_imp_less_exp [rotated]) simp
  moreover have "b < nat (int_bits n)" using u(2) by (rule power_less_imp_less_exp [rotated]) simp
  ultimately show ?thesis by linarith
qed

lemma round_half_even_exact: "0 < d \<Longrightarrow> round_half_even (q * d) d = q"
  by (simp add: round_half_even_def Let_def)

text \<open>An integer of \<open>b + 1\<close> bits, with its leading bit at \<open>2^52\<close> of the mantissa.\<close>

lemma round_mag_int:
  assumes "2 ^ b \<le> n" and "n < 2 ^ Suc b"
  shows "round_mag n 1 1074 = (int b + 1022) * 2 ^ 52 +
    (if b \<le> 52 then n * 2 ^ (52 - b) else round_half_even n (2 ^ (b - 52)))"
proof -
  have n: "0 < n" using assms(1) by (meson less_le_trans zero_less_numeral zero_less_power)
  have one: "int_bits 1 = 1" by (simp add: int_bits_eq [of 0])
  have l: "int_bits n - int_bits 1 = int b" using int_bits_eq [OF assms] one by simp
  have k: "max 0 (int b + 1074 - 52) = int b + 1022" by simp
  have up: "pow2 (52 - int b) = 2 ^ (52 - b)" "pow2 (int b - 52) = 2 ^ (b - 52)"
    by (simp_all add: pow2_def nat_diff_distrib')
  have "round_mag n 1 1074 = (int b + 1022) * 2 ^ 52 + round_half_even (n * 2 ^ (52 - b)) (2 ^ (b - 52))"
    using n assms(1) by (simp only: round_mag_def Let_def l k) (simp add: pow2_nonneg up)
  then show ?thesis using round_half_even_exact [of 1 "n * 2 ^ (52 - b)"] by simp
qed

lemma power2_split: "a \<le> j \<Longrightarrow> (2::int) ^ a * 2 ^ (j - a) = 2 ^ j"
  by (simp flip: power_add)

lemmas pow2_split = power2_split [of _ 52]

lemma div_mod_offset: "0 \<le> f \<Longrightarrow> f < c \<Longrightarrow> (x * c + f) div c = x \<and> (x * c + f) mod c = f"
  for x c f :: int
  by simp

lemma fp_to_int_normal:
  assumes "0 \<le> e" and "e < 1024" and "0 \<le> f" and "f < 2 ^ 52"
  shows "fp_to_int (fp_pattern neg ((e + 1023) * 2 ^ 52 + f)) =
    (let t = (2 ^ 52 + f) * pow2 (e - 52) div pow2 (52 - e) in if neg then - t else t)"
proof -
  define m where "m = (e + 1023) * 2 ^ 52 + f"
  have dm: "m div 2 ^ 52 = e + 1023" "m mod 2 ^ 52 = f"
    using div_mod_offset [OF assms(3,4), of "e + 1023"] by (simp_all add: m_def)
  have m: "0 \<le> m" "min m FP_INF_MAG = m" "\<not> m < 2 ^ 52"
    using assms by (simp_all add: FP_INF_MAG_def min_def m_def)
  have "mag_mant m = 2 ^ 52 + f" "mag_exp m - 1074 = e - 52" "- (mag_exp m - 1074) = 52 - e"
    using assms(1) m(3) dm by (simp_all add: mag_mant_def mag_exp_def)
  then show ?thesis
    unfolding m_def [symmetric] by (simp only: fp_to_int_def fp_pattern_parts [OF m(1)] m(2) Let_def)
qed

lemma fp_of_nat_exact:
  assumes "0 < n" and "n < 2 ^ 53"
  shows "fp_to_int (fp_pattern neg (round_mag n 1 1074)) = (if neg then - n else n)"
proof -
  define b where "b = nat (int_bits n) - 1"
  have bits: "nat (int_bits n) = Suc b"
    using int_bits_step [OF assms(1)] by (simp add: b_def)
  then have b: "2 ^ b \<le> n" "n < 2 ^ Suc b" using int_bits_bounds [OF assms(1)] by simp_all
  have "(2::int) ^ b < 2 ^ 53" using b(1) assms(2) by linarith
  then have "b < 53" by (rule power_less_imp_less_exp [rotated]) simp
  then have b52: "b \<le> 52" by simp
  have "2 ^ b * 2 ^ (52 - b) \<le> n * 2 ^ (52 - b)" "n * 2 ^ (52 - b) < (2 * 2 ^ b) * 2 ^ (52 - b)"
    using b by (intro mult_right_mono mult_strict_right_mono, simp_all)+
  moreover have "(2 * 2 ^ b) * (2 ^ (52 - b) :: int) = 2 * (2 ^ b * 2 ^ (52 - b))" by simp
  ultimately have lo: "2 ^ 52 \<le> n * 2 ^ (52 - b)" and hi: "n * 2 ^ (52 - b) < 2 ^ 53"
    unfolding pow2_split [OF b52] by simp_all
  let ?f = "n * 2 ^ (52 - b) - 2 ^ 52"
  have "round_mag n 1 1074 = (int b + 1023) * 2 ^ 52 + ?f"
    using round_mag_int [OF b] b52 by simp
  moreover have "(2 ^ 52 + ?f) * pow2 (int b - 52) div pow2 (52 - int b) = n"
    using b52 by (simp add: pow2_def nat_diff_distrib')
  ultimately show ?thesis
    using fp_to_int_normal [of "int b" ?f neg] lo hi b52 by simp
qed

lemma fp_to_int_of_int:
  assumes "\<bar>i\<bar> < 2 ^ 53"
  shows "fp_to_int (fp_of_int i) = i"
proof (cases "i = 0")
  case True
  have "fp_to_int (fp_of_int 0) = 0" by code_simp
  then show ?thesis using True by simp
next
  case False
  then show ?thesis
    using fp_of_nat_exact [of "\<bar>i\<bar>" "i < 0"] assms by (simp add: fp_of_int_def fp_round_def)
qed

lemma round_mag_pow2:
  assumes "j < 1024"
  shows "round_mag (2 ^ j) 1 1074 = (int j + 1023) * 2 ^ 52"
proof (cases "j \<le> 52")
  case True
  then show ?thesis
    using round_mag_int [of j "2 ^ j"] pow2_split [OF True] by simp
next
  case False
  have "(2::int) ^ j = 2 ^ 52 * 2 ^ (j - 52)" using False by (intro power2_split [symmetric]) simp
  then show ?thesis
    using round_mag_int [of j "2 ^ j"] False round_half_even_exact [of "2 ^ (j - 52)" "2 ^ 52"] by simp
qed

lemma fp_to_int_pow2:
  assumes "j < 1024"
  shows "fp_to_int (fp_of_int (2 ^ j)) = 2 ^ j"
proof -
  have "(2 ^ 52) * pow2 (int j - 52) div pow2 (52 - int j) = 2 ^ j"
  proof (cases "j \<le> 52")
    case True
    have "(2::int) ^ 52 div 2 ^ (52 - j) = 2 ^ j"
      unfolding pow2_split [OF True, symmetric] by simp
    then show ?thesis using True by (simp add: pow2_def nat_diff_distrib')
  next
    case False
    then show ?thesis using power2_split [of 52 j] by (simp add: pow2_def nat_diff_distrib')
  qed
  then show ?thesis
    using fp_to_int_normal [of "int j" 0 False] assms
    by (simp add: fp_of_int_def fp_round_def round_mag_pow2)
qed

text \<open>From 54 bits on, the largest number of \<open>j\<close> bits rounds up to the next power of two.\<close>

lemma fp_of_int_mask_rounds_up:
  assumes "54 \<le> j" and "j < 1024"
  shows "fp_of_int (2 ^ j - 1) = fp_of_int (2 ^ j)"
proof -
  have j: "Suc (j - 1) = j" "(2::int) ^ j = 2 * 2 ^ (j - 1)" using assms(1) by (simp_all flip: power_Suc)
  let ?d = "2 ^ (j - 53) :: int"
  have d: "2 \<le> ?d" "(2::int) ^ j = 2 ^ 53 * ?d"
    using assms(1) power_increasing [of 1 "j - 53" "2::int"] power2_split [of 53 j] by simp_all
  have dm: "(2 ^ j - 1) div ?d = 2 ^ 53 - 1" "(2 ^ j - 1) mod ?d = ?d - 1"
  proof -
    have "2 ^ j - 1 = (2 ^ 53 - 1) * ?d + (?d - 1)" unfolding d(2) by (simp add: algebra_simps)
    then show "(2 ^ j - 1) div ?d = 2 ^ 53 - 1" "(2 ^ j - 1) mod ?d = ?d - 1"
      using d(1) div_mod_offset [of "?d - 1" ?d "2 ^ 53 - 1"] by (simp_all only: )
  qed
  have "round_half_even (2 ^ j - 1) ?d = 2 ^ 53"
    unfolding round_half_even_def Let_def dm using d(1) by auto
  moreover have "2 ^ (j - 1) \<le> (2::int) ^ j - 1" using j(2) one_le_power [of "2::int" "j - 1"] by linarith
  moreover have "\<not> j - 1 \<le> 52" "j - 1 - 52 = j - 53" using assms(1) by simp_all
  ultimately have "round_mag (2 ^ j - 1) 1 1074 = (int (j - 1) + 1022) * 2 ^ 52 + 2 ^ 53"
    using round_mag_int [of "j - 1" "2 ^ j - 1"] j(1) by simp
  then have "round_mag (2 ^ j - 1) 1 1074 = round_mag (2 ^ j) 1 1074"
    using assms by (simp add: round_mag_pow2 of_nat_diff)
  moreover have "(1::int) \<le> 2 ^ j" by simp
  then have "\<bar>2 ^ j - 1\<bar> = (2::int) ^ j - 1" "\<bar>2 ^ j\<bar> = (2::int) ^ j" "\<not> (2::int) ^ j - 1 < 0"
    "\<not> (2::int) ^ j < 0" by linarith+
  ultimately show ?thesis unfolding fp_of_int_def fp_round_def by (simp only: if_False simp_thms)
qed

lemma fp_to_int_uminus: "fp_to_int (fp_uminus x) = - fp_to_int x"
proof -
  have r: "uint x < 2 ^ 64" "0 \<le> uint x" using uint_lt2p [of x] by simp_all
  have u: "uint (fp_uminus x) = (if uint x < 2 ^ 63 then uint x + 2 ^ 63 else uint x - 2 ^ 63)"
  proof (cases "uint x < 2 ^ 63")
    case True
    then show ?thesis using r by (simp add: fp_uminus_def uint_word_ariths)
  next
    case False
    then have "(uint x + 2 ^ 63) mod 2 ^ 64 = uint x - 2 ^ 63"
      using r by (intro int_mod_pos_eq [where a = "uint x + 2 ^ 63" and q = 1]) simp_all
    then show ?thesis using False by (simp add: fp_uminus_def uint_word_ariths)
  qed
  have "fp_mag (fp_uminus x) = fp_mag x" "fp_neg (fp_uminus x) \<longleftrightarrow> \<not> fp_neg x"
    using r by (simp_all add: fp_mag_def fp_neg_def word_le_def u)
  then show ?thesis by (simp add: fp_to_int_def Let_def)
qed

end
