(* ===== verification/Codec_Types.thy ===== *)
theory Codec_Types
  imports Event_Types Double
begin

text \<open>
  core/codec/include/cancestry/codec/types.h and src/types.c: statuses, signal and message
  definitions, the loaded map, warning counters. A codec map is read-only here: the loader
  produced it. Strings are character lists without NUL; an array with a count is its list.
\<close>

datatype codec_status =
    CODEC_OK
  | CODEC_WARN_FRAME_TOO_SHORT
  | CODEC_WARN_VALUE_CLAMPED
  | CODEC_WARN_ENUM_UNKNOWN
  | CODEC_ERR_NULL
  | CODEC_ERR_ARGUMENT
  | CODEC_ERR_NOT_FOUND
  | CODEC_ERR_AMBIGUOUS
  | CODEC_ERR_CONFLICT
  | CODEC_ERR_RANGE
  | CODEC_ERR_FRAME_TOO_SHORT
  | CODEC_ERR_PARSE
  | CODEC_ERR_NO_MEMORY
  | CODEC_ERR_CAPACITY
  | CODEC_ERR_UNSUPPORTED

fun codec_status_value :: "codec_status \<Rightarrow> int" where
  "codec_status_value CODEC_OK = 0"
| "codec_status_value CODEC_WARN_FRAME_TOO_SHORT = 1"
| "codec_status_value CODEC_WARN_VALUE_CLAMPED = 2"
| "codec_status_value CODEC_WARN_ENUM_UNKNOWN = 3"
| "codec_status_value CODEC_ERR_NULL = - 1"
| "codec_status_value CODEC_ERR_ARGUMENT = - 2"
| "codec_status_value CODEC_ERR_NOT_FOUND = - 3"
| "codec_status_value CODEC_ERR_AMBIGUOUS = - 4"
| "codec_status_value CODEC_ERR_CONFLICT = - 5"
| "codec_status_value CODEC_ERR_RANGE = - 6"
| "codec_status_value CODEC_ERR_FRAME_TOO_SHORT = - 7"
| "codec_status_value CODEC_ERR_PARSE = - 8"
| "codec_status_value CODEC_ERR_NO_MEMORY = - 9"
| "codec_status_value CODEC_ERR_CAPACITY = - 10"
| "codec_status_value CODEC_ERR_UNSUPPORTED = - 11"

definition codec_status_is_warning :: "codec_status \<Rightarrow> bool" where
  "codec_status_is_warning st \<longleftrightarrow> codec_status_value st > 0"

fun codec_status_name :: "codec_status \<Rightarrow> string" where
  "codec_status_name CODEC_OK = ''OK''"
| "codec_status_name CODEC_WARN_FRAME_TOO_SHORT = ''WARN_FRAME_TOO_SHORT''"
| "codec_status_name CODEC_WARN_VALUE_CLAMPED = ''WARN_VALUE_CLAMPED''"
| "codec_status_name CODEC_WARN_ENUM_UNKNOWN = ''WARN_ENUM_UNKNOWN''"
| "codec_status_name CODEC_ERR_NULL = ''ERR_NULL''"
| "codec_status_name CODEC_ERR_ARGUMENT = ''ERR_ARGUMENT''"
| "codec_status_name CODEC_ERR_NOT_FOUND = ''ERR_NOT_FOUND''"
| "codec_status_name CODEC_ERR_AMBIGUOUS = ''ERR_AMBIGUOUS''"
| "codec_status_name CODEC_ERR_CONFLICT = ''ERR_CONFLICT''"
| "codec_status_name CODEC_ERR_RANGE = ''ERR_RANGE''"
| "codec_status_name CODEC_ERR_FRAME_TOO_SHORT = ''ERR_FRAME_TOO_SHORT''"
| "codec_status_name CODEC_ERR_PARSE = ''ERR_PARSE''"
| "codec_status_name CODEC_ERR_NO_MEMORY = ''ERR_NO_MEMORY''"
| "codec_status_name CODEC_ERR_CAPACITY = ''ERR_CAPACITY''"
| "codec_status_name CODEC_ERR_UNSUPPORTED = ''ERR_UNSUPPORTED''"

datatype codec_signal_type =
    SIGNAL_TYPE_UINT | SIGNAL_TYPE_INT | SIGNAL_TYPE_BOOLEAN | SIGNAL_TYPE_ENUM | SIGNAL_TYPE_COUNT

datatype codec_endianness = ENDIANNESS_LITTLE | ENDIANNESS_BIG

datatype codec_layout = LAYOUT_CONTIGUOUS | LAYOUT_SAWTOOTH | LAYOUT_COUNT

fun codec_signal_type_name :: "codec_signal_type \<Rightarrow> string" where
  "codec_signal_type_name SIGNAL_TYPE_UINT = ''uint''"
| "codec_signal_type_name SIGNAL_TYPE_INT = ''int''"
| "codec_signal_type_name SIGNAL_TYPE_BOOLEAN = ''boolean''"
| "codec_signal_type_name SIGNAL_TYPE_ENUM = ''enum''"
| "codec_signal_type_name SIGNAL_TYPE_COUNT = ''invalid''"

fun codec_endianness_name :: "codec_endianness \<Rightarrow> string" where
  "codec_endianness_name ENDIANNESS_LITTLE = ''little''"
| "codec_endianness_name ENDIANNESS_BIG = ''big''"

fun codec_layout_name :: "codec_layout \<Rightarrow> string" where
  "codec_layout_name LAYOUT_CONTIGUOUS = ''contiguous''"
| "codec_layout_name LAYOUT_SAWTOOTH = ''sawtooth''"
| "codec_layout_name LAYOUT_COUNT = ''invalid''"

record codec_value_mapping =
  vm_raw :: u64
  vm_name :: string

record codec_signal =
  cs_name :: string
  cs_start_bit :: u32
  cs_bit_length :: u32
  cs_type :: codec_signal_type
  cs_endianness :: codec_endianness
  cs_scale :: double
  cs_offset :: double
  cs_unit :: "string option"
  cs_values :: "codec_value_mapping list option"
  cs_has_min :: bool
  cs_has_max :: bool
  cs_min :: double
  cs_max :: double
  cs_strict :: bool
  cs_first_bit :: u32
  cs_last_bit :: u32
  cs_message_id :: u32
  cs_layout :: codec_layout

record codec_message =
  cm_id :: u32
  cm_name :: string
  cm_dlc :: u8
  cm_period_ms :: u32
  cm_description :: "string option"
  cm_signals :: "codec_signal list"

record codec_map =
  cmap_name :: string
  cmap_version :: string
  cmap_description :: "string option"
  cmap_messages :: "codec_message list"
  cmap_can_fd :: bool

record codec_warnings =
  cw_frame_too_short :: u32
  cw_value_clamped :: u32
  cw_enum_unknown :: u32

record decoded_signal =
  ds_signal :: "codec_signal option"
  ds_raw :: u64
  ds_value :: signal_value
  ds_label :: "string option"

definition CODEC_CLASSIC_FRAME_MAX_LENGTH :: nat where
  "CODEC_CLASSIC_FRAME_MAX_LENGTH = CAN_FRAME_MAX_LENGTH"
definition CODEC_FRAME_MAX_LENGTH :: nat where
  "CODEC_FRAME_MAX_LENGTH = CAN_FD_FRAME_MAX_LENGTH"

text \<open>\<open>cancestry_codec_map_find_message\<close>\<close>

definition map_find_message :: "codec_map option \<Rightarrow> u32 \<Rightarrow> codec_message option" where
  "map_find_message m can_id = (case m of None \<Rightarrow> None
     | Some cm \<Rightarrow> find (\<lambda>msg. cm_id msg = can_id) (cmap_messages cm))"

end
