(* ===== verification/Codec_Bits.thy ===== *)
theory Codec_Bits
  imports Codec_Types
begin

text \<open>
  core/codec/src/codec_bits.h: bit access to a payload in linear LSB0 numbering, for contiguous
  signals and for the DBC Motorola sawtooth order. Both pairs of loops run over a count of bits;
  step \<open>k\<close> moves one bit between payload bit \<open>p k\<close> and raw bit \<open>s k\<close>.
\<close>

definition payload_bit :: "u8 list \<Rightarrow> u32 \<Rightarrow> u8" where
  "payload_bit frame p = drop_bit (unat (p AND 7)) (frame ! unat (drop_bit 3 p)) AND 1"

definition payload_put :: "u8 list \<Rightarrow> u32 \<Rightarrow> bool \<Rightarrow> u8 list" where
  "payload_put frame p b =
     (let i = unat (drop_bit 3 p); mask = push_bit (unat (p AND 7)) (1 :: u8)
      in frame[i := if b then frame ! i OR mask else frame ! i AND NOT mask])"

fun load_loop :: "u8 list \<Rightarrow> (nat \<Rightarrow> u32) \<Rightarrow> (nat \<Rightarrow> nat) \<Rightarrow> nat \<Rightarrow> u64" where
  "load_loop frame p s 0 = 0"
| "load_loop frame p s (Suc k) =
     load_loop frame p s k OR push_bit (s k) (ucast (payload_bit frame (p k)))"

fun store_loop :: "u8 list \<Rightarrow> (nat \<Rightarrow> u32) \<Rightarrow> (nat \<Rightarrow> nat) \<Rightarrow> u64 \<Rightarrow> nat \<Rightarrow> u8 list" where
  "store_loop frame p s v 0 = frame"
| "store_loop frame p s v (Suc k) =
     payload_put (store_loop frame p s v k) (p k) (drop_bit (s k) v AND 1 \<noteq> 0)"

definition bits_load :: "u8 list \<Rightarrow> u32 \<Rightarrow> u32 \<Rightarrow> u64" where
  "bits_load frame first_bit cnt =
     load_loop frame (\<lambda>i. first_bit + of_nat i) (\<lambda>i. i) (unat cnt)"

definition bits_store :: "u8 list \<Rightarrow> u32 \<Rightarrow> u32 \<Rightarrow> u64 \<Rightarrow> u8 list" where
  "bits_store frame first_bit cnt v =
     store_loop frame (\<lambda>i. first_bit + of_nat i) (\<lambda>i. i) v (unat cnt)"

definition be_idx :: "u32 \<Rightarrow> u32" where
  "be_idx p = drop_bit 3 p * 8 + (7 - (p AND 7))"

definition be_bit :: "u32 \<Rightarrow> u32" where
  "be_bit idx = drop_bit 3 idx * 8 + (7 - (idx AND 7))"

definition bits_load_saw :: "u8 list \<Rightarrow> u32 \<Rightarrow> u32 \<Rightarrow> u64" where
  "bits_load_saw frame start_bit cnt =
     load_loop frame (\<lambda>k. be_bit (be_idx start_bit + of_nat k)) (\<lambda>k. unat cnt - 1 - k) (unat cnt)"

definition bits_store_saw :: "u8 list \<Rightarrow> u32 \<Rightarrow> u32 \<Rightarrow> u64 \<Rightarrow> u8 list" where
  "bits_store_saw frame start_bit cnt v =
     store_loop frame (\<lambda>k. be_bit (be_idx start_bit + of_nat k)) (\<lambda>k. unat cnt - 1 - k) v (unat cnt)"

definition bits_saw_fits :: "nat \<Rightarrow> u32 \<Rightarrow> u32 \<Rightarrow> bool" where
  "bits_saw_fits len start_bit cnt \<longleftrightarrow>
     list_all (\<lambda>k. \<not> unat (be_bit (be_idx start_bit + of_nat k)) \<ge> len * 8) [0..<unat cnt]"

definition bits_saw_range :: "u32 \<Rightarrow> u32 \<Rightarrow> u32 \<times> u32" where
  "bits_saw_range start_bit cnt =
     fold (\<lambda>k (min_p, max_p). let p = be_bit (be_idx start_bit + of_nat k)
        in (if p < min_p then p else min_p, if p > max_p then p else max_p))
       [0..<unat cnt] (0xFFFFFFFF, 0)"

definition codec_frame_length_ok :: "nat \<Rightarrow> bool" where
  "codec_frame_length_ok len \<longleftrightarrow>
     (if len = 0 \<or> len > CODEC_FRAME_MAX_LENGTH then False
      else if len \<le> CODEC_CLASSIC_FRAME_MAX_LENGTH then True
      else can_payload_length_is_valid True len)"

definition bits_sign_extend :: "u64 \<Rightarrow> u32 \<Rightarrow> u64" where
  "bits_sign_extend raw len =
     (if len = 64 then raw
      else signed_drop_bit (unat (64 - len)) (push_bit (unat (64 - len)) raw))"

definition bits_mask :: "u32 \<Rightarrow> u64" where
  "bits_mask len = (if len = 64 then 0xFFFFFFFFFFFFFFFF else push_bit (unat len) 1 - 1)"

subsection \<open>Bits of a frame\<close>

definition frame_bit :: "u8 list \<Rightarrow> nat \<Rightarrow> bool" where
  "frame_bit frame g = bit (frame ! (g div 8)) (g mod 8)"

lemma word_bit_index:
  fixes p :: u32
  shows "unat (drop_bit 3 p) = unat p div 8" and "unat (p AND 7) = unat p mod 8"
proof -
  have "unat (drop_bit 3 p) = drop_bit 3 (unat p)" by (rule unat_drop_bit_eq)
  then show "unat (drop_bit 3 p) = unat p div 8" by (simp add: drop_bit_eq_div [of 3 "unat p"])
  have "p AND 7 = take_bit 3 p" by (simp add: take_bit_eq_mask mask_eq_exp_minus_1)
  moreover have "unat (take_bit 3 p) = take_bit 3 (unat p)" by (rule unsigned_take_bit_eq)
  ultimately show "unat (p AND 7) = unat p mod 8" by (simp only: take_bit_eq_mod [of 3 "unat p"]) simp
qed

lemma payload_bit_frame: "payload_bit frame p = of_bool (frame_bit frame (unat p))"
  by (simp add: payload_bit_def word_bit_index frame_bit_def bit_iff_odd_drop_bit and_one_eq odd_iff_mod_2_eq_one of_bool_def)

lemma length_payload_put [simp]: "length (payload_put frame p b) = length frame"
  by (simp add: payload_put_def Let_def)

lemma frame_bit_put:
  assumes "unat p < 8 * length frame" and "g < 8 * length frame"
  shows "frame_bit (payload_put frame p b) g = (if g = unat p then b else frame_bit frame g)"
proof -
  have i: "unat p div 8 < length frame" "g div 8 < length frame" using assms by auto
  have eq: "g = unat p \<longleftrightarrow> g div 8 = unat p div 8 \<and> g mod 8 = unat p mod 8"
    by (metis div_mult_mod_eq)
  have m: "bit (push_bit n (1 :: u8)) k \<longleftrightarrow> k = n" if "k < 8" "n < 8" for k n
    using that by (auto simp: bit_simps)
  show ?thesis
    using i m [of "g mod 8" "unat p mod 8"]
    by (auto simp: payload_put_def frame_bit_def Let_def word_bit_index nth_list_update eq
        bit_or_iff bit_and_iff bit_not_iff)
qed

lemma length_store_loop [simp]: "length (store_loop frame p s v n) = length frame"
  by (induction n) simp_all

text \<open>After \<open>n\<close> steps a payload bit holds the raw bit stored there, the others are untouched.\<close>

lemma store_loop_other:
  assumes "\<And>k. k < n \<Longrightarrow> unat (p k) < 8 * length frame \<and> unat (p k) \<noteq> g" and "g < 8 * length frame"
  shows "frame_bit (store_loop frame p s v n) g = frame_bit frame g"
  using assms
proof (induction n)
  case (Suc n)
  from Suc.prems(1) [of n] have "g \<noteq> unat (p n)" by auto
  then show ?case using Suc frame_bit_put [of "p n" "store_loop frame p s v n" g] by (simp add: less_Suc_eq)
qed simp

lemma store_loop_bit:
  assumes "\<And>k. k < n \<Longrightarrow> unat (p k) < 8 * length frame" and "inj_on p {..<n}" and "k < n"
  shows "frame_bit (store_loop frame p s v n) (unat (p k)) = bit v (s k)"
  using assms
proof (induction n)
  case (Suc n)
  have b: "(drop_bit (s n) v AND 1 \<noteq> 0) = bit v (s n)"
    by (simp add: bit_iff_odd_drop_bit and_one_eq odd_iff_mod_2_eq_one)
  show ?case
  proof (cases "k = n")
    case True
    then show ?thesis
      using frame_bit_put [of "p n" "store_loop frame p s v n" "unat (p n)"] Suc.prems(1) [of n] b by simp
  next
    case False
    then have "unat (p k) \<noteq> unat (p n)"
      using Suc.prems(2,3) by (auto simp: inj_on_def word_eq_unat)
    moreover have "frame_bit (store_loop frame p s v n) (unat (p k)) = bit v (s k)"
      using Suc.prems False by (intro Suc.IH) (auto simp: inj_on_def)
    ultimately show ?thesis
      using frame_bit_put [of "p n" "store_loop frame p s v n" "unat (p k)"]
        Suc.prems(1) [of n] Suc.prems(1) [OF Suc.prems(3)] by simp
  qed
qed simp

lemma bit_load_loop:
  assumes "\<And>k. k < n \<Longrightarrow> s k < 64"
  shows "bit (load_loop frame p s n) i \<longleftrightarrow> (\<exists>k<n. s k = i \<and> frame_bit frame (unat (p k)))"
  using assms
proof (induction n)
  case (Suc n)
  have "bit (push_bit (s n) (ucast (payload_bit frame (p n)) :: u64)) i \<longleftrightarrow>
      s n = i \<and> frame_bit frame (unat (p n))"
    using Suc.prems [of n] by (auto simp: payload_bit_frame bit_simps)
  then show ?case using Suc by (auto simp: bit_or_iff less_Suc_eq)
qed simp

text \<open>What a store of \<open>n\<close> bits at injective positions puts there is read back by the same loop.\<close>

lemma load_store_loop:
  assumes "\<And>k. k < n \<Longrightarrow> unat (p k) < 8 * length frame" and "inj_on p {..<n}"
    and "\<And>k. k < n \<Longrightarrow> s k < n" and "\<And>i. i < n \<Longrightarrow> \<exists>k<n. s k = i" and "n \<le> 64"
  shows "load_loop (store_loop frame p s v n) p s n = take_bit n v"
proof (rule bit_word_eqI)
  fix i
  assume "i < LENGTH(64)"
  have "bit (load_loop (store_loop frame p s v n) p s n) i \<longleftrightarrow> (\<exists>k<n. s k = i \<and> bit v (s k))"
    using assms(3,5) store_loop_bit [OF assms(1,2)] by (subst bit_load_loop) fastforce+
  also have "\<dots> \<longleftrightarrow> i < n \<and> bit v i" using assms(3,4) by blast
  finally show "bit (load_loop (store_loop frame p s v n) p s n) i = bit (take_bit n v) i"
    by (simp add: bit_take_bit_iff)
qed

text \<open>A frame is determined by its bits.\<close>

lemma frame_eqI:
  assumes "length a = length b" and "\<And>g. g < 8 * length a \<Longrightarrow> frame_bit a g = frame_bit b g"
  shows "a = b"
proof (rule nth_equalityI [OF assms(1)])
  fix i
  assume i: "i < length a"
  show "a ! i = b ! i"
  proof (rule bit_word_eqI)
    fix k
    assume "k < LENGTH(8)"
    then have "frame_bit a (8 * i + k) = frame_bit b (8 * i + k)" using i by (intro assms(2)) simp
    then show "bit (a ! i) k = bit (b ! i) k" using \<open>k < LENGTH(8)\<close> by (simp add: frame_bit_def)
  qed
qed

text \<open>Storing what was loaded changes nothing.\<close>

lemma store_load_loop:
  assumes "\<And>k. k < n \<Longrightarrow> unat (p k) < 8 * length frame" and "inj_on p {..<n}"
    and "inj_on s {..<n}" and "\<And>k. k < n \<Longrightarrow> s k < 64"
  shows "store_loop frame p s (load_loop frame p s n) n = frame"
proof (rule frame_eqI)
  fix g
  assume "g < 8 * length (store_loop frame p s (load_loop frame p s n) n)"
  then have g: "g < 8 * length frame" by simp
  show "frame_bit (store_loop frame p s (load_loop frame p s n) n) g = frame_bit frame g"
  proof (cases "\<exists>k<n. unat (p k) = g")
    case True
    then obtain k where k: "k < n" "unat (p k) = g" by blast
    have "bit (load_loop frame p s n) (s k) = frame_bit frame g"
      using k assms(3,4) by (subst bit_load_loop) (auto simp: inj_on_def)
    then show ?thesis using store_loop_bit [OF assms(1,2) k(1)] k(2) by auto
  next
    case False
    then show ?thesis using assms(1) g by (intro store_loop_other) auto
  qed
qed simp

subsection \<open>The two layouts\<close>

lemma unat_first_plus:
  fixes first :: u32
  assumes "unat first + n \<le> 512" and "k < n"
  shows "unat (first + of_nat k) = unat first + k"
  using assms by (subst unat_plus_small) (simp_all add: unat_of_nat_small)

lemma unat_be:
  assumes "unat p < 2 ^ 31"
  shows "unat (be_idx p) = unat p div 8 * 8 + (7 - unat p mod 8)"
    and "unat (be_bit p) = unat p div 8 * 8 + (7 - unat p mod 8)"
proof -
  have "unat (p AND 7) \<le> 7" by (simp add: word_bit_index)
  then have s: "unat (7 - (p AND 7)) = 7 - unat p mod 8" by (simp add: unat_minus_le word_bit_index)
  have m: "unat (drop_bit 3 p * 8) = unat p div 8 * 8"
    using assms by (subst unat_mult_small) (simp_all add: word_bit_index)
  have "unat (drop_bit 3 p * 8 + (7 - (p AND 7))) = unat p div 8 * 8 + (7 - unat p mod 8)"
    using assms s m by (subst unat_plus_small) simp_all
  then show "unat (be_idx p) = unat p div 8 * 8 + (7 - unat p mod 8)"
    "unat (be_bit p) = unat p div 8 * 8 + (7 - unat p mod 8)"
    by (simp_all add: be_idx_def be_bit_def)
qed

text \<open>The sawtooth order is an involution on bit numbers.\<close>

definition saw :: "nat \<Rightarrow> nat" where
  "saw n = n div 8 * 8 + (7 - n mod 8)"

lemma saw_saw [simp]: "saw (saw n) = n"
proof -
  define r where "r = 7 - n mod 8"
  have "r < 8" "saw n = n div 8 * 8 + r" by (simp_all add: r_def saw_def)
  then have "saw n div 8 = n div 8" "saw n mod 8 = 7 - n mod 8" by (simp_all add: r_def [symmetric])
  then show ?thesis using mod_less_divisor [of 8 n] by (simp add: saw_def [of "saw n"])
qed

lemma saw_less: "saw n < 8 * m \<longleftrightarrow> n < 8 * m"
proof -
  have "saw n div 8 = n div 8" by (simp add: saw_def)
  moreover have "x < 8 * m \<longleftrightarrow> x div 8 < m" for x by (simp add: div_less_iff_less_mult mult.commute)
  ultimately show ?thesis by simp
qed

lemma unat_saw_position:
  assumes "unat start < 512" and "n \<le> 64" and "k < n"
  shows "unat (be_bit (be_idx start + of_nat k)) = saw (saw (unat start) + k)"
proof -
  have "saw (unat start) < 512" using saw_less [of "unat start" 64] assms(1) by simp
  moreover have i: "unat (be_idx start) = saw (unat start)" using assms(1) by (simp add: unat_be saw_def)
  ultimately have "unat (be_idx start + of_nat k) = saw (unat start) + k"
    using assms(2,3) by (subst unat_plus_small) (simp_all add: unat_of_nat_small)
  then show ?thesis
    using \<open>saw (unat start) < 512\<close> assms(2,3) by (simp add: unat_be saw_def)
qed

end
