(* ===== verification/Codec.thy ===== *)
theory Codec
  imports Codec_Bits
begin

text \<open>
  core/codec/src/decoder.c and encoder.c. A payload with its length is a byte list, NULL is
  \<open>None\<close>. Output arrays and warning counters are returned updated. A conversion between
  \<open>double\<close> and an integer type is guarded in the code so that it is in range, where it is
  \<open>fp_to_int\<close>; contraction of \<open>a * b + c\<close> into one rounding is not modelled.
\<close>

definition FP_ONE :: double where "FP_ONE = 0x3FF0000000000000"
definition FP_HALF :: double where "FP_HALF = 0x3FE0000000000000"
definition FP_2_63 :: double where "FP_2_63 = 0x43E0000000000000"
definition FP_2_64 :: double where "FP_2_64 = 0x43F0000000000000"

text \<open>\<open>scale == 1.0 && offset == 0.0\<close>\<close>

definition cs_unscaled :: "codec_signal \<Rightarrow> bool" where
  "cs_unscaled sg \<longleftrightarrow> fp_eq (cs_scale sg) FP_ONE \<and> fp_eq (cs_offset sg) 0"

subsection \<open>Decoding\<close>

definition physical_of :: "codec_signal \<Rightarrow> int \<Rightarrow> double" where
  "physical_of sg i = fp_add (fp_mul (fp_of_int i) (cs_scale sg)) (cs_offset sg)"

definition label_of_raw :: "codec_value_mapping list option \<Rightarrow> u64 \<Rightarrow> string option" where
  "label_of_raw vals raw = (case vals of None \<Rightarrow> None
     | Some vs \<Rightarrow> map_option vm_name (find (\<lambda>m. vm_raw m = raw) vs))"

definition decode_raw_into :: "codec_signal \<Rightarrow> u64 \<Rightarrow> codec_status \<times> decoded_signal" where
  "decode_raw_into sg raw =
     (let ok = (\<lambda>v. (CODEC_OK, \<lparr>ds_signal = Some sg, ds_raw = raw, ds_value = v,
            ds_label = label_of_raw (cs_values sg) raw\<rparr>))
      in case cs_type sg of
        SIGNAL_TYPE_UINT \<Rightarrow>
          ok (if cs_unscaled sg then Value_uint raw else Value_real (physical_of sg (uint raw)))
      | SIGNAL_TYPE_INT \<Rightarrow>
          let signed_raw = bits_sign_extend raw (cs_bit_length sg)
          in ok (if cs_unscaled sg then Value_int signed_raw
                 else Value_real (physical_of sg (sint signed_raw)))
      | SIGNAL_TYPE_BOOLEAN \<Rightarrow> ok (Value_bool (raw AND 1 \<noteq> 0))
      | SIGNAL_TYPE_ENUM \<Rightarrow> ok (Value_int raw)
      | SIGNAL_TYPE_COUNT \<Rightarrow>
          (CODEC_ERR_ARGUMENT, \<lparr>ds_signal = Some sg, ds_raw = raw, ds_value = Value_unset, ds_label = None\<rparr>))"

definition signal_too_long :: "codec_signal \<Rightarrow> nat \<Rightarrow> bool" where
  "signal_too_long sg len \<longleftrightarrow>
     (if cs_layout sg = LAYOUT_SAWTOOTH then \<not> bits_saw_fits len (cs_start_bit sg) (cs_bit_length sg)
      else unat (cs_last_bit sg) \<ge> len * 8)"

definition signal_load :: "codec_signal \<Rightarrow> u8 list \<Rightarrow> u64" where
  "signal_load sg frame =
     (if cs_layout sg = LAYOUT_SAWTOOTH then bits_load_saw frame (cs_start_bit sg) (cs_bit_length sg)
      else bits_load frame (cs_first_bit sg) (cs_bit_length sg))"

definition codec_decode_signal ::
    "codec_signal option \<Rightarrow> u8 list option \<Rightarrow> decoded_signal option \<Rightarrow> codec_status \<times> decoded_signal option" where
  "codec_decode_signal sg frame out = (case (sg, frame, out) of
       (Some g, Some fr, Some _) \<Rightarrow>
         if \<not> codec_frame_length_ok (length fr) then (CODEC_ERR_ARGUMENT, out)
         else if signal_too_long g (length fr) then (CODEC_ERR_FRAME_TOO_SHORT, out)
         else (case decode_raw_into g (signal_load g fr) of (st, d) \<Rightarrow> (st, Some d))
     | _ \<Rightarrow> (CODEC_ERR_NULL, out))"

definition count_too_short :: "codec_warnings \<Rightarrow> codec_warnings" where
  "count_too_short w = w\<lparr>cw_frame_too_short := cw_frame_too_short w + 1\<rparr>"
definition count_enum_unknown :: "codec_warnings \<Rightarrow> codec_warnings" where
  "count_enum_unknown w = w\<lparr>cw_enum_unknown := cw_enum_unknown w + 1\<rparr>"
definition count_clamped :: "codec_warnings \<Rightarrow> codec_warnings" where
  "count_clamped w = w\<lparr>cw_value_clamped := cw_value_clamped w + 1\<rparr>"

text \<open>The second loop of \<open>cancestry_codec_decode_frame\<close>, from output index \<open>i\<close> on.\<close>

fun decode_signals :: "codec_signal list \<Rightarrow> u8 list \<Rightarrow> nat \<Rightarrow> decoded_signal list \<Rightarrow> codec_warnings option
    \<Rightarrow> decoded_signal list \<times> codec_warnings option" where
  "decode_signals [] frame i out w = (out, w)"
| "decode_signals (g # gs) frame i out w =
     (let d = snd (decode_raw_into g (signal_load g frame));
          w1 = (if cs_type g = SIGNAL_TYPE_ENUM \<and> ds_label d = None
                then map_option count_enum_unknown w else w)
      in decode_signals gs frame (i + 1) (out[i := d]) w1)"

text \<open>\<open>signals\<close> is the caller's array (NULL is \<open>None\<close>), \<open>cnt\<close> its output count.\<close>

definition codec_decode_frame :: "codec_map option \<Rightarrow> u32 \<Rightarrow> u8 list option \<Rightarrow> decoded_signal list option
    \<Rightarrow> nat option \<Rightarrow> codec_warnings option
    \<Rightarrow> codec_status \<times> decoded_signal list option \<times> nat option \<times> codec_warnings option" where
  "codec_decode_frame m can_id frame signals cnt w =
     (if m = None \<or> frame = None \<or> cnt = None then (CODEC_ERR_NULL, signals, cnt, w)
      else if signals = None \<or> length (the signals) = 0 then (CODEC_ERR_ARGUMENT, signals, cnt, w)
      else if \<not> codec_frame_length_ok (length (the frame)) then (CODEC_ERR_ARGUMENT, signals, cnt, w)
      else case map_find_message m can_id of
        None \<Rightarrow> (CODEC_ERR_NOT_FOUND, signals, cnt, w)
      | Some msg \<Rightarrow>
          if length (cm_signals msg) > length (the signals) then (CODEC_ERR_ARGUMENT, signals, cnt, w)
          else if list_ex (\<lambda>g. signal_too_long g (length (the frame))) (cm_signals msg)
          then (CODEC_WARN_FRAME_TOO_SHORT, signals, cnt, map_option count_too_short w)
          else (case decode_signals (cm_signals msg) (the frame) 0 (the signals) w of
             (out, w1) \<Rightarrow> (CODEC_OK, Some out, Some (length (cm_signals msg)), w1)))"

subsection \<open>Encoding\<close>

definition codec_round_half_away :: "double \<Rightarrow> double" where
  "codec_round_half_away q =
     (if fp_le FP_2_63 q then q
      else if fp_less q (fp_uminus FP_2_63) then q
      else if fp_le 0 q then fp_of_int (fp_to_int (fp_add q FP_HALF))
      else fp_of_int (fp_to_int (fp_sub q FP_HALF)))"

text \<open>\<open>None\<close> is the result \<open>false\<close>.\<close>

definition codec_physical_to_raw :: "codec_signal \<Rightarrow> double \<Rightarrow> double option" where
  "codec_physical_to_raw sg physical =
     (if \<not> fp_eq physical physical then None
      else let q = (if cs_unscaled sg then physical
                    else fp_div (fp_sub physical (cs_offset sg)) (cs_scale sg))
           in Some (codec_round_half_away q))"

definition codec_apply_limits :: "codec_signal \<Rightarrow> double \<Rightarrow> codec_status \<times> double" where
  "codec_apply_limits sg physical =
     (if cs_has_min sg \<and> fp_less physical (cs_min sg) \<and> cs_strict sg then (CODEC_ERR_RANGE, physical)
      else
        let c1 = (if cs_has_min sg \<and> fp_less physical (cs_min sg) then cs_min sg else physical)
        in if cs_has_max sg \<and> fp_less (cs_max sg) c1 \<and> cs_strict sg then (CODEC_ERR_RANGE, physical)
           else
             let c2 = (if cs_has_max sg \<and> fp_less (cs_max sg) c1 then cs_max sg else c1)
             in if \<not> fp_eq c2 physical then (CODEC_WARN_VALUE_CLAMPED, c2) else (CODEC_OK, physical))"

definition codec_encode_boolean :: "signal_value \<Rightarrow> codec_status \<times> u64" where
  "codec_encode_boolean v =
     (let check = (\<lambda>b. if b > 1 then (CODEC_ERR_RANGE, 0) else (CODEC_OK, b))
      in case v of
        Value_bool b \<Rightarrow> check (if b then 1 else 0)
      | Value_int i \<Rightarrow> check i
      | Value_uint u \<Rightarrow> check u
      | _ \<Rightarrow> (CODEC_ERR_ARGUMENT, 0))"

definition codec_encode_enum :: "codec_signal \<Rightarrow> signal_value \<Rightarrow> codec_status \<times> u64" where
  "codec_encode_enum sg v =
     (let check = (\<lambda>raw. if raw > bits_mask (cs_bit_length sg) then (CODEC_ERR_RANGE, 0) else (CODEC_OK, raw))
      in case v of
        Value_int i \<Rightarrow> if i <s 0 then (CODEC_ERR_RANGE, 0) else check i
      | Value_uint u \<Rightarrow> check u
      | _ \<Rightarrow> (CODEC_ERR_ARGUMENT, 0))"

text \<open>The two range checks of unsigned encoding: below zero, and above the signal's maximum.\<close>

definition encode_uint_exact :: "codec_signal \<Rightarrow> u64 \<Rightarrow> codec_status \<times> u64" where
  "encode_uint_exact sg raw =
     (let mask = bits_mask (cs_bit_length sg)
      in case codec_apply_limits sg (fp_of_int (uint raw)) of (status, physical) \<Rightarrow>
        if status = CODEC_ERR_RANGE then (status, 0)
        else if status = CODEC_WARN_VALUE_CLAMPED then
          if fp_less physical 0 then (CODEC_ERR_RANGE, 0)
          else if cs_bit_length sg < 64 \<and> fp_less (fp_of_int (uint mask)) physical then (CODEC_ERR_RANGE, 0)
          else if cs_bit_length sg = 64 \<and> fp_le FP_2_64 physical then (CODEC_ERR_RANGE, 0)
          else (status, word_of_int (fp_to_int physical))
        else if cs_bit_length sg < 64 \<and> raw > mask then (CODEC_ERR_RANGE, 0)
        else (CODEC_OK, raw))"

definition encode_uint_physical :: "codec_signal \<Rightarrow> double \<Rightarrow> codec_status \<times> u64" where
  "encode_uint_physical sg physical0 =
     (case codec_apply_limits sg physical0 of (status, physical) \<Rightarrow>
        if status = CODEC_ERR_RANGE then (status, 0)
        else case codec_physical_to_raw sg physical of
          None \<Rightarrow> (CODEC_ERR_ARGUMENT, 0)
        | Some raw_d \<Rightarrow>
            if fp_less raw_d 0 then (CODEC_ERR_RANGE, 0)
            else if cs_bit_length sg < 64 \<and> fp_less (fp_of_int (uint (bits_mask (cs_bit_length sg)))) raw_d
            then (CODEC_ERR_RANGE, 0)
            else if \<not> cs_bit_length sg < 64 \<and> fp_le FP_2_64 raw_d then (CODEC_ERR_RANGE, 0)
            else (status, word_of_int (fp_to_int raw_d)))"

definition codec_encode_uint :: "codec_signal \<Rightarrow> signal_value \<Rightarrow> codec_status \<times> u64" where
  "codec_encode_uint sg v =
     (case v of
        Value_uint u \<Rightarrow>
          if cs_unscaled sg then encode_uint_exact sg u
          else encode_uint_physical sg (fp_of_int (uint u))
      | Value_real r \<Rightarrow>
          if \<not> cs_unscaled sg then encode_uint_physical sg r else (CODEC_ERR_ARGUMENT, 0)
      | _ \<Rightarrow> (CODEC_ERR_ARGUMENT, 0))"

text \<open>\<open>min_d\<close> and \<open>max_d\<close>, the bounds of a signed signal as the code computes them in \<open>double\<close>.\<close>

definition int_min_d :: "u32 \<Rightarrow> double" where
  "int_min_d len = (if len = 64 then fp_uminus FP_2_63
     else fp_uminus (fp_of_int (uint (push_bit (unat (len - 1)) (1 :: u64)))))"

definition int_max_d :: "u32 \<Rightarrow> double" where
  "int_max_d len = (if len = 64 then fp_sub FP_2_63 FP_ONE
     else fp_of_int (uint (push_bit (unat (len - 1)) (1 :: u64) - 1)))"

definition encode_int_exact :: "codec_signal \<Rightarrow> u64 \<Rightarrow> codec_status \<times> u64" where
  "encode_int_exact sg raw =
     (let len = cs_bit_length sg; mask = bits_mask len
      in case codec_apply_limits sg (fp_of_int (sint raw)) of (status, physical) \<Rightarrow>
        if status = CODEC_ERR_RANGE then (status, 0)
        else if status = CODEC_WARN_VALUE_CLAMPED then
          if fp_less physical (int_min_d len) \<or>
             fp_le (if len = 64 then FP_2_63 else fp_add (int_max_d len) FP_ONE) physical
          then (CODEC_ERR_RANGE, 0)
          else (status, word_of_int (fp_to_int physical) AND mask)
        else if len \<noteq> 64 \<and>
             (sint raw < fp_to_int (int_min_d len) \<or> sint raw > fp_to_int (int_max_d len))
        then (CODEC_ERR_RANGE, 0)
        else (CODEC_OK, raw AND mask))"

definition encode_int_physical :: "codec_signal \<Rightarrow> double \<Rightarrow> codec_status \<times> u64" where
  "encode_int_physical sg physical0 =
     (let len = cs_bit_length sg
      in case codec_apply_limits sg physical0 of (status, physical) \<Rightarrow>
        if status = CODEC_ERR_RANGE then (status, 0)
        else case codec_physical_to_raw sg physical of
          None \<Rightarrow> (CODEC_ERR_ARGUMENT, 0)
        | Some raw_d \<Rightarrow>
            if len = 64 \<and> (fp_less raw_d (int_min_d len) \<or> fp_le FP_2_63 raw_d) then (CODEC_ERR_RANGE, 0)
            else if len \<noteq> 64 \<and> (fp_less raw_d (int_min_d len) \<or> fp_less (int_max_d len) raw_d)
            then (CODEC_ERR_RANGE, 0)
            else (status, word_of_int (fp_to_int raw_d) AND bits_mask len))"

definition codec_encode_int :: "codec_signal \<Rightarrow> signal_value \<Rightarrow> codec_status \<times> u64" where
  "codec_encode_int sg v =
     (case v of
        Value_int i \<Rightarrow>
          if cs_unscaled sg then encode_int_exact sg i
          else encode_int_physical sg (fp_of_int (sint i))
      | Value_real r \<Rightarrow>
          if \<not> cs_unscaled sg then encode_int_physical sg r else (CODEC_ERR_ARGUMENT, 0)
      | _ \<Rightarrow> (CODEC_ERR_ARGUMENT, 0))"

text \<open>\<open>None\<close> is the result \<open>false\<close>.\<close>

definition codec_label_to_raw :: "codec_signal option \<Rightarrow> string option \<Rightarrow> u64 option" where
  "codec_label_to_raw sg label = (case (sg, label) of
       (Some g, Some l) \<Rightarrow> (case cs_values g of None \<Rightarrow> None
         | Some vs \<Rightarrow> map_option vm_raw (find (\<lambda>m. vm_name m = l) vs))
     | _ \<Rightarrow> None)"

definition encode_raw :: "codec_signal \<Rightarrow> signal_value \<Rightarrow> codec_status \<times> u64" where
  "encode_raw sg v = (case cs_type sg of
       SIGNAL_TYPE_BOOLEAN \<Rightarrow> codec_encode_boolean v
     | SIGNAL_TYPE_ENUM \<Rightarrow> codec_encode_enum sg v
     | SIGNAL_TYPE_UINT \<Rightarrow> codec_encode_uint sg v
     | SIGNAL_TYPE_INT \<Rightarrow> codec_encode_int sg v
     | SIGNAL_TYPE_COUNT \<Rightarrow> (CODEC_ERR_ARGUMENT, 0))"

definition signal_store :: "codec_signal \<Rightarrow> u8 list \<Rightarrow> u64 \<Rightarrow> u8 list" where
  "signal_store sg frame raw =
     (if cs_layout sg = LAYOUT_SAWTOOTH
      then bits_store_saw frame (cs_start_bit sg) (cs_bit_length sg) raw
      else bits_store frame (cs_first_bit sg) (cs_bit_length sg) raw)"

definition codec_encode_signal :: "codec_signal option \<Rightarrow> signal_value option \<Rightarrow> u8 list option
    \<Rightarrow> codec_warnings option \<Rightarrow> codec_status \<times> u8 list option \<times> codec_warnings option" where
  "codec_encode_signal sg v frame w = (case (sg, v, frame) of
       (Some g, Some val, Some fr) \<Rightarrow>
         if \<not> codec_frame_length_ok (length fr) then (CODEC_ERR_ARGUMENT, frame, w)
         else if signal_too_long g (length fr) then (CODEC_ERR_FRAME_TOO_SHORT, frame, w)
         else (case encode_raw g val of (status, raw) \<Rightarrow>
           if codec_status_value status < 0 then (status, frame, w)
           else (status, Some (signal_store g fr raw),
             if status = CODEC_WARN_VALUE_CLAMPED then map_option count_clamped w else w))
     | _ \<Rightarrow> (CODEC_ERR_NULL, frame, w))"

end
