(* ===== verification/Codec_Inv.thy ===== *)
theory Codec_Inv
  imports Codec
begin

text \<open>
  Lemmas on the runtime codec: the bits of a well-formed signal in either layout, and the range
  checks of the encoder. \<open>signal_wf\<close> is what the loader guarantees of every signal it accepts
  (\<open>cancestry_codec_map_load_checked\<close>).
\<close>

definition signal_wf :: "codec_signal \<Rightarrow> bool" where
  "signal_wf sg \<longleftrightarrow> 1 \<le> unat (cs_bit_length sg) \<and> unat (cs_bit_length sg) \<le> 64 \<and>
     (cs_layout sg = LAYOUT_SAWTOOTH \<longrightarrow> unat (cs_start_bit sg) < 512) \<and>
     (cs_layout sg \<noteq> LAYOUT_SAWTOOTH \<longrightarrow> unat (cs_last_bit sg) < 512 \<and>
        unat (cs_first_bit sg) + unat (cs_bit_length sg) = unat (cs_last_bit sg) + 1) \<and>
     cs_type sg \<noteq> SIGNAL_TYPE_COUNT \<and>
     (cs_type sg = SIGNAL_TYPE_BOOLEAN \<longrightarrow> cs_bit_length sg = 1)"

definition sig_pos :: "codec_signal \<Rightarrow> nat \<Rightarrow> u32" where
  "sig_pos sg k = (if cs_layout sg = LAYOUT_SAWTOOTH then be_bit (be_idx (cs_start_bit sg) + of_nat k)
     else cs_first_bit sg + of_nat k)"

definition sig_shift :: "codec_signal \<Rightarrow> nat \<Rightarrow> nat" where
  "sig_shift sg k = (if cs_layout sg = LAYOUT_SAWTOOTH then unat (cs_bit_length sg) - 1 - k else k)"

lemma signal_loops:
  "signal_load sg frame = load_loop frame (sig_pos sg) (sig_shift sg) (unat (cs_bit_length sg))"
  "signal_store sg frame v = store_loop frame (sig_pos sg) (sig_shift sg) v (unat (cs_bit_length sg))"
proof -
  have p: "sig_pos sg = (if cs_layout sg = LAYOUT_SAWTOOTH
      then (\<lambda>k. be_bit (be_idx (cs_start_bit sg) + of_nat k)) else (\<lambda>k. cs_first_bit sg + of_nat k))"
    and s: "sig_shift sg = (if cs_layout sg = LAYOUT_SAWTOOTH
      then (\<lambda>k. unat (cs_bit_length sg) - 1 - k) else (\<lambda>k. k))"
    by (rule ext, simp add: sig_pos_def, rule ext, simp add: sig_shift_def)
  show "signal_load sg frame = load_loop frame (sig_pos sg) (sig_shift sg) (unat (cs_bit_length sg))"
    unfolding p s signal_load_def bits_load_def bits_load_saw_def by simp
  show "signal_store sg frame v = store_loop frame (sig_pos sg) (sig_shift sg) v (unat (cs_bit_length sg))"
    unfolding p s signal_store_def bits_store_def bits_store_saw_def by simp
qed

lemma unat_sig_pos:
  assumes "signal_wf sg" and "k < unat (cs_bit_length sg)"
  shows "unat (sig_pos sg k) = (if cs_layout sg = LAYOUT_SAWTOOTH then saw (saw (unat (cs_start_bit sg)) + k)
    else unat (cs_first_bit sg) + k)"
  using assms unat_saw_position [of "cs_start_bit sg" "unat (cs_bit_length sg)" k]
    unat_first_plus [of "cs_first_bit sg" "unat (cs_bit_length sg)" k]
  by (auto simp: signal_wf_def sig_pos_def)

lemma sig_pos_inj:
  assumes "signal_wf sg"
  shows "inj_on (sig_pos sg) {..<unat (cs_bit_length sg)}"
proof (rule inj_onI)
  fix i j
  assume "i \<in> {..<unat (cs_bit_length sg)}" "j \<in> {..<unat (cs_bit_length sg)}" "sig_pos sg i = sig_pos sg j"
  then have "(if cs_layout sg = LAYOUT_SAWTOOTH then saw (saw (unat (cs_start_bit sg)) + i) else unat (cs_first_bit sg) + i) =
      (if cs_layout sg = LAYOUT_SAWTOOTH then saw (saw (unat (cs_start_bit sg)) + j) else unat (cs_first_bit sg) + j)"
    using unat_sig_pos [OF assms, of i] unat_sig_pos [OF assms, of j] by simp
  then show "i = j"
  proof (cases "cs_layout sg = LAYOUT_SAWTOOTH")
    case True
    then have "saw (saw (saw (unat (cs_start_bit sg)) + i)) = saw (saw (saw (unat (cs_start_bit sg)) + j))"
      using \<open>(if _ then _ else _) = _\<close> by (simp only: simp_thms if_True)
    then show ?thesis by (simp only: saw_saw add_left_cancel)
  qed simp
qed

lemma sig_pos_fits:
  assumes "signal_wf sg" and "\<not> signal_too_long sg (length frame)" and "k < unat (cs_bit_length sg)"
  shows "unat (sig_pos sg k) < 8 * length frame"
proof (cases "cs_layout sg = LAYOUT_SAWTOOTH")
  case True
  then show ?thesis
    using assms(2,3) by (simp add: signal_too_long_def bits_saw_fits_def list_all_iff sig_pos_def not_le mult.commute)
next
  case False
  then show ?thesis
    using assms unat_sig_pos [OF assms(1,3)] by (auto simp: signal_too_long_def signal_wf_def)
qed

lemma sig_shift_facts:
  assumes "signal_wf sg"
  shows "\<And>k. k < unat (cs_bit_length sg) \<Longrightarrow> sig_shift sg k < unat (cs_bit_length sg)"
    and "\<And>i. i < unat (cs_bit_length sg) \<Longrightarrow> \<exists>k<unat (cs_bit_length sg). sig_shift sg k = i"
    and "inj_on (sig_shift sg) {..<unat (cs_bit_length sg)}"
    and "unat (cs_bit_length sg) \<le> 64"
proof -
  show "\<exists>k<unat (cs_bit_length sg). sig_shift sg k = i" if "i < unat (cs_bit_length sg)" for i
    using that by (cases "cs_layout sg = LAYOUT_SAWTOOTH")
      (auto simp: sig_shift_def intro: exI [of _ "unat (cs_bit_length sg) - 1 - i"])
qed (use assms in \<open>auto simp: sig_shift_def signal_wf_def inj_on_def\<close>)

text \<open>A stored value is read back, cut to the width; storing what is there changes nothing.\<close>

lemma signal_load_store:
  assumes "signal_wf sg" and "\<not> signal_too_long sg (length frame)"
  shows "signal_load sg (signal_store sg frame v) = take_bit (unat (cs_bit_length sg)) v"
  unfolding signal_loops
  by (rule load_store_loop [OF sig_pos_fits [OF assms] sig_pos_inj [OF assms(1)] sig_shift_facts(1,2,4) [OF assms(1)]])

lemma signal_store_load:
  assumes "signal_wf sg" and "\<not> signal_too_long sg (length frame)"
  shows "signal_store sg frame (signal_load sg frame) = frame"
  unfolding signal_loops
proof (rule store_load_loop [OF sig_pos_fits [OF assms] sig_pos_inj [OF assms(1)] sig_shift_facts(3) [OF assms(1)]])
  show "sig_shift sg k < 64" if "k < unat (cs_bit_length sg)" for k
    using sig_shift_facts(1,4) [OF assms(1)] that by (meson less_le_trans)
qed

lemma signal_store_other:
  assumes "signal_wf sg" and "\<not> signal_too_long sg (length frame)" and "g < 8 * length frame"
    and "\<forall>k<unat (cs_bit_length sg). unat (sig_pos sg k) \<noteq> g"
  shows "frame_bit (signal_store sg frame v) g = frame_bit frame g"
  unfolding signal_loops using assms sig_pos_fits [OF assms(1,2)] by (intro store_loop_other) auto

lemma length_signal_store [simp]: "length (signal_store sg frame v) = length frame"
  by (simp add: signal_loops)

lemma signal_load_range:
  assumes "signal_wf sg"
  shows "take_bit (unat (cs_bit_length sg)) (signal_load sg frame) = signal_load sg frame"
proof (rule bit_word_eqI)
  fix i
  assume "i < LENGTH(64)"
  have "bit (signal_load sg frame) i \<Longrightarrow> i < unat (cs_bit_length sg)"
    unfolding signal_loops using sig_shift_facts [OF assms] by (subst (asm) bit_load_loop) fastforce+
  then show "bit (take_bit (unat (cs_bit_length sg)) (signal_load sg frame)) i = bit (signal_load sg frame) i"
    by (auto simp: bit_take_bit_iff)
qed

subsection \<open>Masks and signs\<close>

lemma bits_mask_eq:
  assumes "1 \<le> unat len" and "unat len \<le> 64"
  shows "bits_mask len = mask (unat len)"
proof (cases "len = 64")
  case True
  have "(0xFFFFFFFFFFFFFFFF :: u64) = mask 64" by (simp add: mask_eq_exp_minus_1)
  then show ?thesis using True by (simp add: bits_mask_def)
next
  case False
  then show ?thesis by (simp add: bits_mask_def mask_eq_exp_minus_1 push_bit_eq_mult)
qed

lemma and_mask_take_bit: "x AND mask n = take_bit n x" for x :: u64
  by (simp add: take_bit_eq_mask)

lemma bits_sign_extend_bit:
  assumes "1 \<le> unat len" and "unat len \<le> 64" and "i < 64"
  shows "bit (bits_sign_extend raw len) i = bit raw (min (unat len - 1) i)"
proof (cases "len = 64")
  case True
  then have "min (unat len - 1) i = i" using assms(3) by simp
  then show ?thesis using True by (simp add: bits_sign_extend_def)
next
  case False
  then have l: "unat len < 64" using assms(2) by (simp add: word_eq_unat [of len])
  have d: "unat (64 - len) = 64 - unat len" using assms(2) by (subst unat_minus_le) simp_all
  have "min (unat len - 1) i = (if i < unat len then i else unat len - 1)" using assms(1) by auto
  then show ?thesis
    using assms l by (auto simp: bits_sign_extend_def False d bit_signed_drop_bit_iff bit_push_bit_iff bit_simps)
qed

end
