(* ===== verification/Codec_Properties.thy ===== *)
theory Codec_Properties
  imports Codec_Inv
begin

text \<open>
  Properties of the runtime codec: encoding touches the signal's bits only, decoding and encoding
  are inverse to each other on unscaled signals, decoding a frame is all or nothing.
\<close>

subsection \<open>Signed values of a width\<close>

lemma bits_sign_extend_word:
  assumes "1 \<le> unat len" and "unat len \<le> 64"
  shows "bits_sign_extend raw len = word_of_int (signed_take_bit (unat len - 1) (uint raw))"
proof (rule bit_word_eqI)
  fix i
  assume i: "i < LENGTH(64)"
  then show "bit (bits_sign_extend raw len) i =
      bit (word_of_int (signed_take_bit (unat len - 1) (uint raw)) :: u64) i"
    using assms bits_sign_extend_bit [OF assms, of i raw]
    by (simp add: bit_word_of_int_iff bit_signed_take_bit_iff bit_uint_iff min_less_iff_disj)
qed

lemma sint_sign_extend:
  assumes "1 \<le> unat len" and "unat len \<le> 64"
  shows "sint (bits_sign_extend raw len) = signed_take_bit (unat len - 1) (uint raw)"
    and "sint (bits_sign_extend raw len) < 2 ^ (unat len - 1)"
    and "- (2 ^ (unat len - 1)) \<le> sint (bits_sign_extend raw len)"
proof -
  show "sint (bits_sign_extend raw len) = signed_take_bit (unat len - 1) (uint raw)"
    using assms by (simp add: bits_sign_extend_word sint_sbintrunc' min_absorb1)
  then show "sint (bits_sign_extend raw len) < 2 ^ (unat len - 1)"
    and "- (2 ^ (unat len - 1)) \<le> sint (bits_sign_extend raw len)"
    by (simp_all add: signed_take_bit_int_less_exp signed_take_bit_int_greater_eq_minus_exp)
qed

lemma sign_extend_mask:
  assumes "1 \<le> unat len" and "unat len \<le> 64"
  shows "bits_sign_extend raw len AND bits_mask len = take_bit (unat len) raw"
  unfolding bits_mask_eq [OF assms] and_mask_take_bit
proof (rule bit_word_eqI)
  fix k
  assume "k < LENGTH(64)"
  moreover have "k < unat len \<Longrightarrow> min (unat len - 1) k = k" by simp
  ultimately show "bit (take_bit (unat len) (bits_sign_extend raw len)) k = bit (take_bit (unat len) raw) k"
    using assms by (auto simp: bit_take_bit_iff bits_sign_extend_bit)
qed


text \<open>The bounds of a signed signal, computed in \<open>double\<close>: from width 55 on the upper one rounds up.\<close>

lemma unat_minus_one:
  assumes "1 \<le> unat (len :: u32)"
  shows "unat (len - 1) = unat len - 1"
  using assms by (subst unat_minus_le) simp_all

lemma uint_push_one:
  assumes "k < 64"
  shows "uint (push_bit k (1 :: u64)) = 2 ^ k" and "uint (push_bit k (1 :: u64) - 1) = 2 ^ k - 1"
proof -
  have "(2 :: int) ^ k < 2 ^ 64" using assms by (intro power_strict_increasing) simp_all
  moreover have w: "push_bit k (1 :: u64) = word_of_int (2 ^ k)" by (simp add: push_bit_eq_mult)
  ultimately show p: "uint (push_bit k (1 :: u64)) = 2 ^ k"
    unfolding w uint_word_of_int by simp
  have "(1 :: int) \<le> 2 ^ k" by simp
  then show "uint (push_bit k (1 :: u64) - 1) = 2 ^ k - 1"
    using p uint_sub_lem [of "1 :: u64" "push_bit k 1"] by simp
qed

lemma int_bounds:
  assumes "1 \<le> unat len" and "unat len < 64"
  shows "fp_to_int (int_min_d len) = - (2 ^ (unat len - 1))"
    and "unat len \<le> 54 \<Longrightarrow> fp_to_int (int_max_d len) = 2 ^ (unat len - 1) - 1"
    and "55 \<le> unat len \<Longrightarrow> fp_to_int (int_max_d len) = 2 ^ (unat len - 1)"
proof -
  have l: "len \<noteq> 64" using assms(2) by (auto simp: word_eq_unat)
  have k: "unat len - 1 < 64" using assms(2) by simp
  have d: "int_min_d len = fp_uminus (fp_of_int (2 ^ (unat len - 1)))"
    "int_max_d len = fp_of_int (2 ^ (unat len - 1) - 1)"
    using l by (simp_all only: int_min_d_def int_max_d_def if_False unat_minus_one [OF assms(1)] uint_push_one [OF k])
  show "fp_to_int (int_min_d len) = - (2 ^ (unat len - 1))"
    using k unfolding d fp_to_int_uminus by (simp only: fp_to_int_pow2)
  show "fp_to_int (int_max_d len) = 2 ^ (unat len - 1) - 1" if "unat len \<le> 54"
  proof -
    have "(2 :: int) ^ (unat len - 1) \<le> 2 ^ 53" using that by (intro power_increasing) simp_all
    moreover have "(1 :: int) \<le> 2 ^ (unat len - 1)" by simp
    ultimately have "\<bar>2 ^ (unat len - 1) - 1\<bar> < (2 :: int) ^ 53" by linarith
    then show ?thesis unfolding d by (rule fp_to_int_of_int)
  qed
  show "fp_to_int (int_max_d len) = 2 ^ (unat len - 1)" if "55 \<le> unat len"
  proof -
    have "54 \<le> unat len - 1" "unat len - 1 < 1024" using that k by simp_all
    then show ?thesis unfolding d by (simp only: fp_of_int_mask_rounds_up fp_to_int_pow2)
  qed
qed

subsection \<open>Encoding unscaled values\<close>

text \<open>A physical value that the configured limits let through unchanged.\<close>

definition limits_allow :: "codec_signal \<Rightarrow> double \<Rightarrow> bool" where
  "limits_allow sg x \<longleftrightarrow> (cs_has_min sg \<longrightarrow> \<not> fp_less x (cs_min sg)) \<and>
     (cs_has_max sg \<longrightarrow> \<not> fp_less (cs_max sg) x)"

lemma apply_limits_allow:
  assumes "limits_allow sg x" and "fp_eq x x"
  shows "codec_apply_limits sg x = (CODEC_OK, x)"
  using assms by (auto simp: codec_apply_limits_def limits_allow_def Let_def)

lemma fp_of_int_eq_self: "fp_eq (fp_of_int i) (fp_of_int i)"
  by (rule fp_eq_refl [OF fp_of_int_not_nan])

text \<open>The configured limits of a numeric signal admit the value; the other signals have none.\<close>

definition within_limits :: "codec_signal \<Rightarrow> signal_value \<Rightarrow> bool" where
  "within_limits sg v = (case (cs_type sg, v) of
       (SIGNAL_TYPE_UINT, Value_uint u) \<Rightarrow> limits_allow sg (fp_of_int (uint u))
     | (SIGNAL_TYPE_INT, Value_int i) \<Rightarrow> limits_allow sg (fp_of_int (sint i))
     | _ \<Rightarrow> True)"

text \<open>The raw values the encoder accepts, for each kind of unscaled signal.\<close>

lemma mask_compare:
  assumes "1 \<le> unat len" and "unat len \<le> 64"
  shows "raw > bits_mask len \<longleftrightarrow> take_bit (unat len) raw \<noteq> (raw :: u64)"
proof -
  have "uint (mask (unat len) :: u64) = 2 ^ unat len - 1"
  proof (cases "unat len = 64")
    case True
    have "uint (mask 64 :: u64) = 2 ^ 64 - 1" by (simp add: mask_eq_exp_minus_1)
    then show ?thesis by (simp only: True)
  next
    case False
    then show ?thesis
      using assms(2) uint_push_one(2) [of "unat len"] by (simp add: mask_eq_exp_minus_1 push_bit_eq_mult)
  qed
  then have "raw > bits_mask len \<longleftrightarrow> \<not> uint raw < 2 ^ unat len"
    unfolding bits_mask_eq [OF assms] word_less_def by auto
  also have "\<dots> \<longleftrightarrow> take_bit (unat len) (uint raw) \<noteq> uint raw"
    using take_bit_int_eq_self_iff [of "unat len" "uint raw"] by simp
  also have "\<dots> \<longleftrightarrow> uint (take_bit (unat len) raw) \<noteq> uint raw"
    by (simp only: unsigned_take_bit_eq)
  finally show ?thesis by (simp only: word_uint_eq_iff)
qed

text \<open>Encoding what \<open>decode_raw_into\<close> reads from a raw value gives that raw value.\<close>

definition signal_exact :: "codec_signal \<Rightarrow> bool" where
  "signal_exact sg \<longleftrightarrow> signal_wf sg \<and>
     (cs_type sg = SIGNAL_TYPE_UINT \<or> cs_type sg = SIGNAL_TYPE_INT \<longrightarrow> cs_unscaled sg)"

lemma signal_wf_width:
  assumes "signal_wf sg"
  shows "1 \<le> unat (cs_bit_length sg)" and "unat (cs_bit_length sg) \<le> 64"
    and "cs_bit_length sg \<noteq> 64 \<Longrightarrow> unat (cs_bit_length sg) < 64"
  using assms by (auto simp: signal_wf_def word_eq_unat [of "cs_bit_length sg"])

lemma encode_decoded_raw:
  assumes "signal_exact sg" and "take_bit (unat (cs_bit_length sg)) raw = raw"
    and "within_limits sg (ds_value (snd (decode_raw_into sg raw)))"
  shows "encode_raw sg (ds_value (snd (decode_raw_into sg raw))) =
    (if cs_type sg = SIGNAL_TYPE_ENUM \<and> bit raw 63 then (CODEC_ERR_RANGE, 0) else (CODEC_OK, raw))"
proof -
  have wf: "signal_wf sg" using assms(1) by (simp add: signal_exact_def)
  note w = signal_wf_width [OF wf]
  have m: "\<not> bits_mask (cs_bit_length sg) < raw" using mask_compare [OF w(1,2)] assms(2) by simp
  show ?thesis
  proof (cases "cs_type sg")
    case SIGNAL_TYPE_UINT
    then show ?thesis
      using assms m apply_limits_allow [OF _ fp_of_int_eq_self, of sg "uint raw"]
      by (simp add: decode_raw_into_def signal_exact_def encode_raw_def codec_encode_uint_def
          encode_uint_exact_def within_limits_def Let_def)
  next
    case SIGNAL_TYPE_INT
    define i where "i = bits_sign_extend raw (cs_bit_length sg)"
    have "i AND bits_mask (cs_bit_length sg) = raw"
      using sign_extend_mask [OF w(1,2)] assms(2) by (simp add: i_def)
    moreover have "cs_bit_length sg = 64 \<or> \<not> (sint i < fp_to_int (int_min_d (cs_bit_length sg)) \<or>
        fp_to_int (int_max_d (cs_bit_length sg)) < sint i)"
    proof (cases "cs_bit_length sg = 64")
      case False
      from int_bounds [OF w(1) w(3) [OF False]] show ?thesis
        using sint_sign_extend(2,3) [OF w(1,2), of raw]
        by (cases "unat (cs_bit_length sg) \<le> 54") (simp_all add: i_def)
    qed simp
    ultimately show ?thesis
      using SIGNAL_TYPE_INT assms apply_limits_allow [OF _ fp_of_int_eq_self, of sg "sint i"]
      by (simp add: decode_raw_into_def signal_exact_def encode_raw_def codec_encode_int_def
          encode_int_exact_def within_limits_def Let_def i_def)
  next
    case SIGNAL_TYPE_BOOLEAN
    then have "cs_bit_length sg = 1" using wf by (simp add: signal_wf_def)
    then have "take_bit 1 raw = raw" using assms(2) by simp
    then have "raw mod 2 = raw" by simp
    then have "raw = of_bool (odd raw)" using mod_2_eq_odd [of raw] by simp
    then have "raw = 0 \<or> raw = 1" by (metis of_bool_eq(1,2))
    then show ?thesis
      using SIGNAL_TYPE_BOOLEAN
      by (auto simp: decode_raw_into_def encode_raw_def codec_encode_boolean_def Let_def)
  next
    case SIGNAL_TYPE_ENUM
    moreover have "raw <s 0 \<longleftrightarrow> bit raw 63" using bit_last_iff [of raw] by (simp add: word_sless_alt)
    ultimately show ?thesis
      using m by (simp add: decode_raw_into_def encode_raw_def codec_encode_enum_def Let_def)
  next
    case SIGNAL_TYPE_COUNT
    then show ?thesis using wf by (simp add: signal_wf_def)
  qed
qed







subsection \<open>Frames\<close>

lemma decode_signal_ok:
  assumes "codec_decode_signal (Some sg) (Some frame) (Some d0) = (CODEC_OK, out)"
  shows "codec_frame_length_ok (length frame)" and "\<not> signal_too_long sg (length frame)"
    and "out = Some (snd (decode_raw_into sg (signal_load sg frame)))"
  using assms by (auto simp: codec_decode_signal_def split: if_splits prod.splits)


lemma encode_signal_raw:
  assumes "codec_frame_length_ok (length frame)" and "\<not> signal_too_long sg (length frame)"
    and "encode_raw sg v = (CODEC_OK, raw)"
  shows "codec_encode_signal (Some sg) (Some v) (Some frame) w = (CODEC_OK, Some (signal_store sg frame raw), w)"
  using assms by (simp add: codec_encode_signal_def)

lemma decode_raw_status:
  assumes "signal_wf sg"
  shows "fst (decode_raw_into sg raw) = CODEC_OK"
  using assms by (cases "cs_type sg") (simp_all add: decode_raw_into_def signal_wf_def Let_def)

lemma decode_signal_raw:
  assumes "signal_wf sg" and "codec_frame_length_ok (length frame)" and "\<not> signal_too_long sg (length frame)"
  shows "codec_decode_signal (Some sg) (Some frame) (Some d0) =
    (CODEC_OK, Some (snd (decode_raw_into sg (signal_load sg frame))))"
  using assms decode_raw_status [OF assms(1), of "signal_load sg frame"]
  by (simp add: codec_decode_signal_def split_beta)

lemma decode_signals_eq:
  assumes "i + length gs \<le> length out"
  shows "fst (decode_signals gs frame i out w) =
    take i out @ List.map (\<lambda>g. snd (decode_raw_into g (signal_load g frame))) gs @ drop (i + length gs) out"
  using assms
proof (induction gs arbitrary: i out w)
  case (Cons g gs)
  then have "i < length out" by simp
  then show ?case
    using Cons.prems by (simp add: Let_def Cons.IH take_update_cancel take_Suc_conv_app_nth drop_update_cancel)
qed simp

lemma decode_signals_warnings:
  "map_option cw_frame_too_short (snd (decode_signals gs frame i out w)) = map_option cw_frame_too_short w"
  "map_option cw_value_clamped (snd (decode_signals gs frame i out w)) = map_option cw_value_clamped w"
  by (induction gs arbitrary: i out w)
    (simp_all add: Let_def option.map_comp comp_def count_enum_unknown_def)

subsection \<open>Properties\<close>

text \<open>A 12-bit signed Motorola signal from bit 6 on, and a 56-bit signed signal.\<close>

definition motorola_signal :: codec_signal where
  "motorola_signal = \<lparr>cs_name = ''Torque'', cs_start_bit = 6, cs_bit_length = 12, cs_type = SIGNAL_TYPE_INT,
     cs_endianness = ENDIANNESS_BIG, cs_scale = FP_ONE, cs_offset = 0, cs_unit = None, cs_values = None,
     cs_has_min = False, cs_has_max = False, cs_min = 0, cs_max = 0, cs_strict = True,
     cs_first_bit = 0, cs_last_bit = 0, cs_message_id = 0x123, cs_layout = LAYOUT_SAWTOOTH\<rparr>"

definition wide_signal :: codec_signal where
  "wide_signal = motorola_signal\<lparr>cs_start_bit := 0, cs_bit_length := 56, cs_endianness := ENDIANNESS_LITTLE,
     cs_first_bit := 0, cs_last_bit := 55, cs_layout := LAYOUT_CONTIGUOUS\<rparr>"

definition any_decoded :: decoded_signal where
  "any_decoded = \<lparr>ds_signal = None, ds_raw = 0, ds_value = Value_unset, ds_label = None\<rparr>"

text \<open>C19: Encoding a value changes no payload bit outside the signal, in either bit order and
  whatever the value; when it reports an error it changes no bit at all and no counter.\<close>

theorem codec_encode_isolated:
  assumes "signal_wf sg"
    and "codec_encode_signal (Some sg) (Some v) (Some frame) w = (st, out, w')"
  shows "(codec_status_value st < 0 \<longrightarrow> out = Some frame \<and> w' = w) \<and>
    (\<exists>fr. out = Some fr \<and> length fr = length frame \<and>
      (\<forall>g < 8 * length frame. (\<forall>k < unat (cs_bit_length sg). unat (sig_pos sg k) \<noteq> g) \<longrightarrow>
        frame_bit fr g = frame_bit frame g))"
proof (cases "out = Some frame")
  case True
  then show ?thesis using assms(2)
    by (auto simp: codec_encode_signal_def split: if_splits prod.splits)
next
  case False
  then have "\<not> signal_too_long sg (length frame)" "\<not> codec_status_value st < 0"
    "out = Some (signal_store sg frame (snd (encode_raw sg v)))"
    using assms(2) by (auto simp: codec_encode_signal_def split: if_splits prod.splits)
  then show ?thesis using signal_store_other [OF assms(1)] by simp
qed

lemma codec_encode_isolated_witness:
  "codec_encode_signal (Some motorola_signal) (Some (Value_int 0x2BC)) (Some [0x80, 0x07]) None =
     (CODEC_OK, Some [0x95, 0xE7], None)
   \<and> frame_bit [0x95, 0xE7] 7 = frame_bit [0x80, 0x07] 7"
proof -
  have wf: "signal_wf motorola_signal" by code_simp
  have r: "codec_encode_signal (Some motorola_signal) (Some (Value_int 0x2BC)) (Some [0x80, 0x07]) None =
     (CODEC_OK, Some [0x95, 0xE7], None)" by code_simp
  have "list_all (\<lambda>k. unat (sig_pos motorola_signal k) \<noteq> 7) [0..<unat (cs_bit_length motorola_signal)]"
    by code_simp
  then have p: "\<forall>k < unat (cs_bit_length motorola_signal). unat (sig_pos motorola_signal k) \<noteq> 7"
    by (simp add: list_all_iff)
  from codec_encode_isolated [OF wf r] p r show ?thesis by auto
qed

text \<open>C17: Encoding the value just decoded gives the payload back bit for bit, and writes the same
  raw value into any other payload of that length; no counter moves. This holds for unscaled numeric
  signals whose configured limits, if any, admit the value, and for boolean and enumerated signals, in
  either bit order. The one exception is a 64-bit enumerated signal with its top bit set: it decodes to a
  negative integer, which the encoder refuses with ERR\_RANGE, leaving the payload as it is.\<close>

theorem codec_decode_encode_identity:
  assumes "signal_exact sg"
    and "codec_decode_signal (Some sg) (Some frame) (Some d0) = (CODEC_OK, Some d)"
    and "within_limits sg (ds_value d)"
  shows "if cs_type sg = SIGNAL_TYPE_ENUM \<and> bit (ds_raw d) 63
    then codec_encode_signal (Some sg) (Some (ds_value d)) (Some frame) w = (CODEC_ERR_RANGE, Some frame, w)
    else codec_encode_signal (Some sg) (Some (ds_value d)) (Some frame) w = (CODEC_OK, Some frame, w) \<and>
      (\<forall>fr. length fr = length frame \<longrightarrow>
        codec_encode_signal (Some sg) (Some (ds_value d)) (Some fr) w =
          (CODEC_OK, Some (signal_store sg fr (signal_load sg frame)), w) \<and>
        signal_load sg (signal_store sg fr (signal_load sg frame)) = signal_load sg frame)"
proof -
  have wf: "signal_wf sg" using assms(1) by (simp add: signal_exact_def)
  note d = decode_signal_ok [OF assms(2)]
  have dv: "d = snd (decode_raw_into sg (signal_load sg frame))" using d(3) by simp
  have raw: "ds_raw d = signal_load sg frame"
    unfolding dv by (cases "cs_type sg") (simp_all add: decode_raw_into_def Let_def)
  have e: "encode_raw sg (ds_value d) = (if cs_type sg = SIGNAL_TYPE_ENUM \<and> bit (ds_raw d) 63
      then (CODEC_ERR_RANGE, 0) else (CODEC_OK, signal_load sg frame))"
    using encode_decoded_raw [OF assms(1) signal_load_range [OF wf]] assms(3) unfolding raw by (simp add: dv)
  show ?thesis
  proof (cases "cs_type sg = SIGNAL_TYPE_ENUM \<and> bit (ds_raw d) 63")
    case True
    then show ?thesis using e d(1,2) by (simp add: codec_encode_signal_def)
  next
    case False
    then have f: "encode_raw sg (ds_value d) = (CODEC_OK, signal_load sg frame)" using e by simp
    show ?thesis
      using False encode_signal_raw [OF d(1,2) f] signal_store_load [OF wf d(2)] encode_signal_raw [OF _ _ f]
        d(1,2) signal_load_store [OF wf] signal_load_range [OF wf] by simp
  qed
qed

lemma codec_decode_encode_identity_witness:
  "codec_encode_signal (Some motorola_signal) (Some (Value_int (- 700))) (Some [0x6A, 0x20]) None =
     (CODEC_OK, Some [0x6A, 0x20], None)"
proof -
  have "codec_decode_signal (Some motorola_signal) (Some [0x6A, 0x20]) (Some any_decoded) =
    (CODEC_OK, Some \<lparr>ds_signal = Some motorola_signal, ds_raw = 0xD44, ds_value = Value_int (- 700), ds_label = None\<rparr>)"
    by code_simp
  from codec_decode_encode_identity [OF _ this, of None] show ?thesis
    by (simp add: signal_exact_def signal_wf_def within_limits_def limits_allow_def motorola_signal_def
        cs_unscaled_def FP_ONE_def fp_eq_refl fp_nan_def fp_mag_def FP_INF_MAG_def)
qed



text \<open>C20: The documented round trip fails at the widths 55 to 63 of unscaled signed signals: their
  largest value, rounded to a \<open>double\<close>, is one too big, so the first value out of range,
  \<open>2 ^ (width - 1)\<close>, unless a configured limit excludes it, is accepted with status OK and reads back
  as \<open>- (2 ^ (width - 1))\<close>.\<close>

theorem codec_encode_wide_int_wraps:
  assumes "signal_exact sg" and "cs_type sg = SIGNAL_TYPE_INT"
    and "55 \<le> unat (cs_bit_length sg)" and "unat (cs_bit_length sg) \<le> 63"
    and "limits_allow sg (fp_of_int (2 ^ (unat (cs_bit_length sg) - 1)))"
    and "codec_frame_length_ok (length frame)" and "\<not> signal_too_long sg (length frame)"
  shows "\<exists>fr d. codec_encode_signal (Some sg) (Some (Value_int (push_bit (unat (cs_bit_length sg) - 1) 1)))
        (Some frame) w = (CODEC_OK, Some fr, w) \<and>
      codec_decode_signal (Some sg) (Some fr) (Some d0) = (CODEC_OK, Some d) \<and>
      ds_value d = Value_int (- push_bit (unat (cs_bit_length sg) - 1) 1)"
proof -
  define n where "n = unat (cs_bit_length sg)"
  define i :: u64 where "i = push_bit (n - 1) 1"
  have wf: "signal_wf sg" and un: "cs_unscaled sg" using assms(1,2) by (simp_all add: signal_exact_def)
  note w = signal_wf_width [OF wf, folded n_def]
  have n: "55 \<le> n" "n \<le> 63" "n - 1 < 64" using assms(3,4) by (simp_all add: n_def)
  have "(2 :: int) ^ (n - 1) < 2 ^ 63" using n by (intro power_strict_increasing) simp_all
  moreover have "- (2 ^ 63) \<le> (2 :: int) ^ (n - 1)" by (rule order_trans [of _ 0]) simp_all
  ultimately have "signed_take_bit 63 ((2 :: int) ^ (n - 1)) = 2 ^ (n - 1)"
    by (intro signed_take_bit_int_eq_self) simp_all
  then have si: "sint i = 2 ^ (n - 1)"
    using uint_push_one(1) [OF n(3)] by (simp add: i_def sint_uint)
  have b: "bit i k \<longleftrightarrow> k = n - 1" if "k < 64" for k
    using that n by (auto simp: i_def bit_exp_iff)
  have lim: "limits_allow sg (fp_of_int (sint i))" using assms(5) by (simp add: si n_def)
  have nl: "cs_bit_length sg \<noteq> 64" using n n_def by auto
  have e: "encode_raw sg (Value_int i) = (CODEC_OK, i)"
  proof -
    have "i AND bits_mask (cs_bit_length sg) = i"
      unfolding bits_mask_eq [OF w(1,2) [unfolded n_def]] and_mask_take_bit n_def [symmetric]
      by (rule bit_word_eqI) (use b n in \<open>auto simp: bit_take_bit_iff\<close>)
    moreover have "fp_to_int (int_min_d (cs_bit_length sg)) = - (2 ^ (n - 1))"
      "fp_to_int (int_max_d (cs_bit_length sg)) = 2 ^ (n - 1)"
      using int_bounds(1,3) [of "cs_bit_length sg", folded n_def] n by simp_all
    ultimately show ?thesis
      using si un assms(2) apply_limits_allow [OF lim fp_of_int_eq_self]
      by (simp add: encode_raw_def codec_encode_int_def encode_int_exact_def Let_def)
  qed
  have "bits_sign_extend i (cs_bit_length sg) = - i"
  proof (rule bit_word_eqI)
    fix k
    assume k: "k < LENGTH(64)"
    have "bit (- i) k \<longleftrightarrow> n - 1 \<le> k"
      using k n by (auto simp: i_def minus_exp_eq_not_mask bit_not_iff bit_mask_iff)
    then show "bit (bits_sign_extend i (cs_bit_length sg)) k = bit (- i) k"
      using k b n bits_sign_extend_bit [OF w(1,2) [unfolded n_def], of k i, folded n_def] by (auto simp: min_def)
  qed
  then have "ds_value (snd (decode_raw_into sg i)) = Value_int (- i)"
    using assms(2) un by (simp add: decode_raw_into_def Let_def)
  moreover have "signal_load sg (signal_store sg frame i) = i"
    unfolding signal_load_store [OF wf assms(7)] n_def [symmetric]
    by (rule bit_word_eqI) (use b n in \<open>auto simp: bit_take_bit_iff\<close>)
  ultimately show ?thesis
    using encode_signal_raw [OF assms(6,7) e, of w] decode_signal_raw [OF wf, of "signal_store sg frame i" d0] assms(6,7)
    unfolding i_def n_def by simp
qed

lemma codec_encode_wide_int_wraps_witness:
  "\<exists>fr d. codec_encode_signal (Some wide_signal) (Some (Value_int 0x80000000000000)) (Some [0, 0, 0, 0, 0, 0, 0, 0]) None
      = (CODEC_OK, Some fr, None) \<and>
    codec_decode_signal (Some wide_signal) (Some fr) (Some any_decoded) = (CODEC_OK, Some d) \<and>
    ds_value d = Value_int (- 0x80000000000000)"
proof -
  have f: "signal_exact wide_signal" "cs_type wide_signal = SIGNAL_TYPE_INT" "unat (cs_bit_length wide_signal) = 56"
    "limits_allow wide_signal (fp_of_int (2 ^ (unat (cs_bit_length wide_signal) - 1)))"
    "codec_frame_length_ok (length [0, 0, 0, 0, 0, 0, 0, 0 :: u8])"
    "\<not> signal_too_long wide_signal (length [0, 0, 0, 0, 0, 0, 0, 0 :: u8])" by code_simp+
  show ?thesis
    using codec_encode_wide_int_wraps [OF f(1,2) _ _ f(4-6), of None any_decoded] f(3) by simp
qed

text \<open>Decoding a frame is all or nothing. With status OK every signal of the message is at its
  index in the output, exactly what decoding it alone gives, and the rest of the caller's array is
  untouched; with any other status neither the array nor the count has changed, and a payload too
  short for one signal moves the short-frame counter by one and nothing else.\<close>

theorem codec_decode_frame_all_or_nothing:
  assumes "codec_decode_frame (Some m) can_id (Some frame) (Some out) (Some n) w = (st, out', n', w')"
  shows "(st \<noteq> CODEC_OK \<longrightarrow> out' = Some out \<and> n' = Some n \<and>
      w' = (if st = CODEC_WARN_FRAME_TOO_SHORT then map_option count_too_short w else w)) \<and>
    (st = CODEC_OK \<longrightarrow> (\<exists>msg sigs. map_find_message (Some m) can_id = Some msg \<and> n' = Some (length (cm_signals msg)) \<and>
      out' = Some (sigs @ drop (length sigs) out) \<and> length sigs = length (cm_signals msg) \<and>
      (\<forall>j < length sigs. snd (codec_decode_signal (Some (cm_signals msg ! j)) (Some frame) (Some (out ! j))) = Some (sigs ! j)) \<and>
      map_option cw_frame_too_short w' = map_option cw_frame_too_short w))"
proof (cases "st = CODEC_OK")
  case False
  then show ?thesis using assms
    by (auto simp: codec_decode_frame_def split: if_splits option.splits prod.splits)
next
  case True
  then obtain msg where m: "map_find_message (Some m) can_id = Some msg"
    and ok: "codec_frame_length_ok (length frame)" "length (cm_signals msg) \<le> length out"
      "\<forall>g \<in> set (cm_signals msg). \<not> signal_too_long g (length frame)"
    and r: "out' = Some (fst (decode_signals (cm_signals msg) frame 0 out w))"
      "w' = snd (decode_signals (cm_signals msg) frame 0 out w)" "n' = Some (length (cm_signals msg))"
    using assms by (auto simp: codec_decode_frame_def list_ex_iff split: if_splits option.splits prod.splits)
  let ?sigs = "List.map (\<lambda>g. snd (decode_raw_into g (signal_load g frame))) (cm_signals msg)"
  have "out' = Some (?sigs @ drop (length ?sigs) out)"
    using r(1) decode_signals_eq [of 0 "cm_signals msg" out frame w] ok(2) by simp
  moreover have "\<forall>j < length ?sigs.
      snd (codec_decode_signal (Some (cm_signals msg ! j)) (Some frame) (Some (out ! j))) = Some (?sigs ! j)"
    using ok(1,3) by (simp add: codec_decode_signal_def split_beta)
  moreover have "map_option cw_frame_too_short w' = map_option cw_frame_too_short w"
    by (simp only: r(2) decode_signals_warnings)
  ultimately have "\<exists>sigs. n' = Some (length (cm_signals msg)) \<and> out' = Some (sigs @ drop (length sigs) out) \<and>
      length sigs = length (cm_signals msg) \<and>
      (\<forall>j < length sigs. snd (codec_decode_signal (Some (cm_signals msg ! j)) (Some frame) (Some (out ! j))) = Some (sigs ! j)) \<and>
      map_option cw_frame_too_short w' = map_option cw_frame_too_short w"
    using r(3) by (intro exI [of _ ?sigs]) simp
  then show ?thesis using True m by blast
qed

definition engine_map :: codec_map where
  "engine_map = \<lparr>cmap_name = ''engine'', cmap_version = ''1'', cmap_description = None, cmap_messages =
     [\<lparr>cm_id = 0x123, cm_name = ''Status'', cm_dlc = 2, cm_period_ms = 0, cm_description = None,
        cm_signals = [motorola_signal]\<rparr>], cmap_can_fd = False\<rparr>"

lemma codec_decode_frame_all_or_nothing_witness:
  "codec_decode_frame (Some engine_map) 0x123 (Some [0x15]) (Some [any_decoded]) (Some 7) None =
    (CODEC_WARN_FRAME_TOO_SHORT, Some [any_decoded], Some 7, None)"
proof -
  obtain out n w where r: "codec_decode_frame (Some engine_map) 0x123 (Some [0x15]) (Some [any_decoded]) (Some 7) None =
    (CODEC_WARN_FRAME_TOO_SHORT, out, n, w)"
  proof -
    have "fst (codec_decode_frame (Some engine_map) 0x123 (Some [0x15]) (Some [any_decoded]) (Some 7) None)
        = CODEC_WARN_FRAME_TOO_SHORT" by code_simp
    then show thesis using that by (metis prod.exhaust_sel)
  qed
  then show ?thesis using codec_decode_frame_all_or_nothing [OF r] by simp
qed

end
