(* ===== verification/Codec_Namespace.thy ===== *)
theory Codec_Namespace
  imports Codec_Properties
begin

text \<open>
  core/codec/src/namespace.c: the registry of codec maps, the lookup of signals by canonical name,
  short name and id. The borrowed map pointers are the slot's contents; a pointer to a registered
  map or signal is its position \<open>(slot, message, signal)\<close>. Registered maps have distinct names, so
  distinct slots are distinct pointers.
\<close>

type_synonym signal_pos = "nat \<times> nat \<times> nat"

record codec_namespace =
  ns_slots :: "codec_map list"
  ns_capacity :: u16
  ns_count :: u16

record codec_resolution =
  rs_signal_id :: u32
  rs_map :: "nat option"
  rs_signal :: "signal_pos option"

definition CODEC_NAMESPACE_MAX_CAPACITY :: u16 where "CODEC_NAMESPACE_MAX_CAPACITY = 256"

definition namespace_init ::
    "codec_namespace option \<Rightarrow> codec_map list option \<Rightarrow> u16 \<Rightarrow> bool \<times> codec_namespace option" where
  "namespace_init ns slots capacity = (case ns of None \<Rightarrow> (False, None)
     | Some n \<Rightarrow>
         if slots = None \<or> capacity = 0 \<or> capacity > CODEC_NAMESPACE_MAX_CAPACITY
         then (False, Some (n\<lparr>ns_slots := [], ns_capacity := 0, ns_count := 0\<rparr>))
         else (True, Some (n\<lparr>ns_slots := the slots, ns_capacity := capacity, ns_count := 0\<rparr>)))"

definition namespace_is_valid :: "codec_namespace option \<Rightarrow> bool" where
  "namespace_is_valid ns = (case ns of None \<Rightarrow> False
     | Some n \<Rightarrow> ns_slots n \<noteq> [] \<and> ns_capacity n > 0 \<and>
         ns_capacity n \<le> CODEC_NAMESPACE_MAX_CAPACITY \<and> ns_count n \<le> ns_capacity n)"

definition namespace_size :: "codec_namespace option \<Rightarrow> u16" where
  "namespace_size ns = (if \<not> namespace_is_valid ns then 0 else ns_count (the ns))"

text \<open>The registered maps, \<open>slots[0 .. count)\<close>.\<close>

abbreviation ns_maps :: "codec_namespace \<Rightarrow> codec_map list" where
  "ns_maps n \<equiv> take (unat (ns_count n)) (ns_slots n)"

definition count_signals :: "codec_map \<Rightarrow> u32 \<Rightarrow> u32" where
  "count_signals mp cur = fold (\<lambda>msg t. t + of_nat (length (cm_signals msg))) (cmap_messages mp) cur"

definition namespace_signal_count :: "codec_namespace option \<Rightarrow> u32" where
  "namespace_signal_count ns =
     (if \<not> namespace_is_valid ns then 0 else fold count_signals (ns_maps (the ns)) 0)"

fun signals_repeat :: "codec_signal list \<Rightarrow> codec_message list \<Rightarrow> bool" where
  "signals_repeat [] rest = False"
| "signals_repeat (a # as) rest =
     (list_ex (\<lambda>b. cs_name a = cs_name b) as \<or>
      list_ex (\<lambda>msg. list_ex (\<lambda>b. cs_name a = cs_name b) (cm_signals msg)) rest \<or>
      signals_repeat as rest)"

fun map_has_duplicate_signal_names :: "codec_message list \<Rightarrow> bool" where
  "map_has_duplicate_signal_names [] = False"
| "map_has_duplicate_signal_names (msg # msgs) =
     (signals_repeat (cm_signals msg) msgs \<or> map_has_duplicate_signal_names msgs)"

definition namespace_register ::
    "codec_namespace option \<Rightarrow> codec_map option \<Rightarrow> codec_status \<times> codec_namespace option" where
  "namespace_register ns mp = (case (ns, mp) of
       (Some n, Some m) \<Rightarrow>
         if \<not> namespace_is_valid ns then (CODEC_ERR_NULL, ns)
         else if cmap_messages m = [] then (CODEC_ERR_ARGUMENT, ns)
         else if list_ex (\<lambda>r. cmap_name r = cmap_name m) (ns_maps n) then (CODEC_ERR_CONFLICT, ns)
         else if map_has_duplicate_signal_names (cmap_messages m) then (CODEC_ERR_CONFLICT, ns)
         else if ns_count n \<ge> ns_capacity n then (CODEC_ERR_CAPACITY, ns)
         else (CODEC_OK, Some (n\<lparr>ns_slots := (ns_slots n)[unat (ns_count n) := m],
                 ns_count := ns_count n + 1\<rparr>))
     | _ \<Rightarrow> (CODEC_ERR_NULL, ns))"

subsection \<open>Signals in registration order\<close>

definition message_positions :: "nat \<Rightarrow> codec_message \<Rightarrow> (nat \<times> nat) list" where
  "message_positions j msg = List.map (\<lambda>s. (j, s)) [0..<length (cm_signals msg)]"

definition map_positions :: "codec_map \<Rightarrow> (nat \<times> nat) list" where
  "map_positions mp = concat (List.map (\<lambda>(j, msg). message_positions j msg) (enumerate 0 (cmap_messages mp)))"

definition ns_positions :: "nat \<Rightarrow> codec_map list \<Rightarrow> signal_pos list" where
  "ns_positions i mps = concat (List.map (\<lambda>(k, mp). List.map (Pair k) (map_positions mp)) (enumerate i mps))"

definition signal_of :: "codec_namespace \<Rightarrow> signal_pos \<Rightarrow> codec_signal" where
  "signal_of n p = (case p of (i, j, s) \<Rightarrow> cm_signals (cmap_messages (ns_slots n ! i) ! j) ! s)"

text \<open>\<open>None\<close> is the result \<open>false\<close>.\<close>

fun at_loop :: "signal_pos list \<Rightarrow> u32 \<Rightarrow> u32 \<Rightarrow> signal_pos option" where
  "at_loop [] cur target = None"
| "at_loop (p # ps) cur target = (if cur = target then Some p else at_loop ps (cur + 1) target)"

definition namespace_signal_at :: "codec_namespace \<Rightarrow> u32 \<Rightarrow> signal_pos option" where
  "namespace_signal_at n target = at_loop (ns_positions 0 (ns_maps n)) 1 target"

text \<open>The scan of one map: the id of the signal, or the counter after the map.\<close>

fun id_scan :: "(nat \<times> nat) list \<Rightarrow> u32 \<Rightarrow> nat \<times> nat \<Rightarrow> u32 + u32" where
  "id_scan [] cur p = Inr cur"
| "id_scan (q # qs) cur p = (if q = p then Inl cur else id_scan qs (cur + 1) p)"

fun id_loop :: "codec_map list \<Rightarrow> nat \<Rightarrow> u32 \<Rightarrow> signal_pos \<Rightarrow> u32" where
  "id_loop [] i cur p = 0"
| "id_loop (mp # mps) i cur p =
     (if i \<noteq> fst p then id_loop mps (i + 1) (count_signals mp cur) p
      else case id_scan (map_positions mp) cur (snd p) of
        Inl found \<Rightarrow> found
      | Inr next_cur \<Rightarrow> id_loop mps (i + 1) next_cur p)"

definition namespace_id_of :: "codec_namespace \<Rightarrow> signal_pos \<Rightarrow> u32" where
  "namespace_id_of n p = id_loop (ns_maps n) 0 1 p"

subsection \<open>Resolution\<close>

text \<open>\<open>cancestry_codec_map_find_signal\<close>: the first signal of that name, in map order.\<close>

definition map_find_signal :: "codec_map \<Rightarrow> string \<Rightarrow> (nat \<times> nat) option" where
  "map_find_signal mp name =
     find (\<lambda>(j, s). cs_name (cm_signals (cmap_messages mp ! j) ! s) = name) (map_positions mp)"

text \<open>The scan for a canonical prefix stops at the end of the candidate's name, at the dot, or at
  the first difference.\<close>

fun prefix_matches :: "string \<Rightarrow> string \<Rightarrow> nat \<Rightarrow> bool" where
  "prefix_matches [] name dot \<longleftrightarrow> dot = 0"
| "prefix_matches (c # cs) name 0 \<longleftrightarrow> False"
| "prefix_matches (c # cs) (x # xs) (Suc dot) \<longleftrightarrow> c = x \<and> prefix_matches cs xs dot"
| "prefix_matches (c # cs) [] (Suc dot) \<longleftrightarrow> False"

definition find_slot :: "codec_namespace \<Rightarrow> (codec_map \<Rightarrow> bool) \<Rightarrow> nat option" where
  "find_slot n P = find (\<lambda>i. P (ns_slots n ! i)) [0..<unat (ns_count n)]"

definition resolved :: "codec_namespace \<Rightarrow> signal_pos \<Rightarrow> codec_resolution \<Rightarrow> codec_resolution" where
  "resolved n p out = out\<lparr>rs_signal_id := namespace_id_of n p, rs_map := Some (fst p), rs_signal := Some p\<rparr>"

definition resolve_canonical ::
    "codec_namespace \<Rightarrow> string \<Rightarrow> nat \<Rightarrow> codec_resolution \<Rightarrow> codec_status \<times> codec_resolution" where
  "resolve_canonical n name dot out =
     (let signal_name = drop (dot + 1) name
      in if dot = 0 \<or> signal_name = [] then (CODEC_ERR_ARGUMENT, out)
         else case find_slot n (\<lambda>mp. prefix_matches (cmap_name mp) name dot) of
           None \<Rightarrow> (CODEC_ERR_NOT_FOUND, out)
         | Some i \<Rightarrow> (case map_find_signal (ns_slots n ! i) signal_name of
             None \<Rightarrow> (CODEC_ERR_NOT_FOUND, out)
           | Some p \<Rightarrow> (CODEC_OK, resolved n (i, p) out)))"

text \<open>The scan for a short name counts the matches in 32 bits and keeps the last one.\<close>

definition short_matches ::
    "codec_namespace \<Rightarrow> string \<Rightarrow> u32 \<times> signal_pos option" where
  "short_matches n name =
     fold (\<lambda>p (matches, found). if cs_name (signal_of n p) = name then (matches + 1, Some p)
         else (matches, found))
       (ns_positions 0 (ns_maps n)) (0, None)"

definition resolve_short ::
    "codec_namespace \<Rightarrow> string \<Rightarrow> codec_resolution \<Rightarrow> codec_status \<times> codec_resolution" where
  "resolve_short n name out =
     (case short_matches n name of (matches, found) \<Rightarrow>
        if matches = 0 then (CODEC_ERR_NOT_FOUND, out)
        else if matches > 1 then (CODEC_ERR_AMBIGUOUS, out)
        else (case found of None \<Rightarrow> (CODEC_ERR_NOT_FOUND, out)
          | Some p \<Rightarrow> (CODEC_OK, resolved n p out)))"

fun find_dot :: "string \<Rightarrow> nat option" where
  "find_dot [] = None"
| "find_dot (c # cs) = (if c = CHR ''.'' then Some 0 else map_option Suc (find_dot cs))"

definition namespace_resolve :: "codec_namespace option \<Rightarrow> string option \<Rightarrow> codec_resolution option
    \<Rightarrow> codec_status \<times> codec_resolution option" where
  "namespace_resolve ns name out = (case (ns, name, out) of
       (Some n, Some nm, Some o1) \<Rightarrow>
         if \<not> namespace_is_valid ns \<or> nm = [] then (CODEC_ERR_ARGUMENT, out)
         else (case find_dot nm of
             Some dot \<Rightarrow> apsnd Some (resolve_canonical n nm dot o1)
           | None \<Rightarrow> apsnd Some (resolve_short n nm o1))
     | _ \<Rightarrow> (CODEC_ERR_NULL, out))"

definition namespace_resolve_id :: "codec_namespace option \<Rightarrow> u32 \<Rightarrow> codec_resolution option
    \<Rightarrow> codec_status \<times> codec_resolution option" where
  "namespace_resolve_id ns signal_id out = (case (ns, out) of
       (Some n, Some o1) \<Rightarrow>
         if \<not> namespace_is_valid ns \<or> signal_id = 0 then (CODEC_ERR_ARGUMENT, out)
         else (case namespace_signal_at n signal_id of
             None \<Rightarrow> (CODEC_ERR_NOT_FOUND, out)
           | Some p \<Rightarrow> (CODEC_OK, Some (o1\<lparr>rs_signal_id := signal_id, rs_map := Some (fst p),
                 rs_signal := Some p\<rparr>)))
     | _ \<Rightarrow> (CODEC_ERR_NULL, out))"

end
