(* ===== verification/Codec_Namespace_Properties.thy ===== *)
theory Codec_Namespace_Properties
  imports Codec_Namespace
begin

text \<open>
  Properties of the signal namespace: ids are the positions in registration order, lookups by name
  and by id agree, canonical names always resolve, short names while they are unique.
\<close>

subsection \<open>Positions and ids\<close>

lemma map_positions_from:
  "distinct (concat (List.map (\<lambda>(j, msg). message_positions j msg) (enumerate i msgs)))"
  "(j, s) \<in> set (concat (List.map (\<lambda>(j, msg). message_positions j msg) (enumerate i msgs))) \<longleftrightarrow>
    i \<le> j \<and> j < i + length msgs \<and> s < length (cm_signals (msgs ! (j - i)))"
proof (induction msgs arbitrary: i j s)
  case (Cons msg msgs)
  { case 1
    show ?case using Cons(2) [of _ _ "Suc i"] Cons(1)
      by (auto simp: message_positions_def distinct_map inj_on_def in_set_enumerate_eq) }
  { case 2
    show ?case using Cons(2) [of j s "Suc i"]
      by (cases "j = i") (auto simp: message_positions_def nth_Cons') }
qed simp_all

lemma distinct_map_positions: "distinct (map_positions mp)"
  unfolding map_positions_def by (rule map_positions_from)

lemma in_map_positions:
  "(j, s) \<in> set (map_positions mp) \<longleftrightarrow>
    j < length (cmap_messages mp) \<and> s < length (cm_signals (cmap_messages mp ! j))"
  unfolding map_positions_def map_positions_from by simp

lemma ns_positions_simps [simp]:
  "ns_positions i [] = []"
  "ns_positions i (mp # mps) = List.map (Pair i) (map_positions mp) @ ns_positions (Suc i) mps"
  by (simp_all add: ns_positions_def)

lemma ns_positions_append:
  "ns_positions i (as @ bs) = ns_positions i as @ ns_positions (i + length as) bs"
  by (induction as arbitrary: i) simp_all

lemma in_ns_positions:
  "p \<in> set (ns_positions i mps) \<longleftrightarrow>
    i \<le> fst p \<and> fst p < i + length mps \<and> snd p \<in> set (map_positions (mps ! (fst p - i)))"
proof (induction mps arbitrary: i)
  case (Cons mp mps)
  then show ?case by (cases "fst p = i"; cases p) (auto simp: nth_Cons')
qed simp

lemma count_signals_eq: "count_signals mp cur = cur + of_nat (length (map_positions mp))"
proof -
  have "fold (\<lambda>msg t. t + of_nat (length (cm_signals msg))) msgs cur =
      cur + of_nat (length (concat (List.map (\<lambda>(j, msg). message_positions j msg) (enumerate i msgs))))"
    for msgs i and cur :: u32
  proof (induction msgs arbitrary: i cur)
    case (Cons msg msgs)
    show ?case using Cons.IH [of "cur + of_nat (length (cm_signals msg))" "Suc i"]
      by (simp add: message_positions_def add.assoc)
  qed simp
  then show ?thesis by (simp add: count_signals_def map_positions_def)
qed

lemma of_nat_Suc_u32: "k < 2 ^ 32 - 1 \<Longrightarrow> (of_nat (Suc k) :: u32) \<noteq> 0"
  by (auto simp only: word_of_nat_eq_0_iff dest!: dvd_imp_le) simp

lemma at_loop_nth:
  assumes "k < length ps" and "length ps < 2 ^ 32"
  shows "at_loop ps cur (cur + of_nat k) = Some (ps ! k)"
  using assms
proof (induction ps arbitrary: cur k)
  case (Cons p ps)
  show ?case
  proof (cases k)
    case (Suc j)
    then have "(of_nat (Suc j) :: u32) \<noteq> 0" using Cons.prems by (intro of_nat_Suc_u32) simp
    then show ?thesis using Cons.IH [of j "cur + 1"] Cons.prems Suc by (simp add: add.assoc)
  qed simp
qed simp

lemma at_loop_some:
  assumes "at_loop ps cur target = Some p"
  shows "p \<in> set ps"
  using assms by (induction ps arbitrary: cur) (auto split: if_splits)

lemma id_scan_nth:
  assumes "distinct qs" and "k < length qs"
  shows "id_scan qs cur (qs ! k) = Inl (cur + of_nat k)"
  using assms
proof (induction qs arbitrary: cur k)
  case (Cons q qs)
  then show ?case by (cases k) (auto simp: add.assoc)
qed simp

text \<open>The id of the signal at position \<open>k\<close> of the registration order is \<open>k + 1\<close>.\<close>

lemma id_loop_nth:
  assumes "k < length (ns_positions i mps)"
  shows "id_loop mps i cur (ns_positions i mps ! k) = cur + of_nat k"
  using assms
proof (induction mps arbitrary: i cur k)
  case (Cons mp mps)
  let ?len = "length (map_positions mp)"
  show ?case
  proof (cases "k < ?len")
    case True
    then show ?thesis by (simp add: nth_append id_scan_nth [OF distinct_map_positions])
  next
    case False
    then have k: "k - ?len < length (ns_positions (Suc i) mps)" using Cons.prems by simp
    have "ns_positions (Suc i) mps ! (k - ?len) \<in> set (ns_positions (Suc i) mps)" using k by simp
    then have "fst (ns_positions (Suc i) mps ! (k - ?len)) \<noteq> i" by (auto simp: in_ns_positions)
    then show ?thesis
      using False Cons.IH [OF k, of "count_signals mp cur"]
      by (simp add: nth_append count_signals_eq flip: of_nat_add)
  qed
qed simp

definition ns_signals :: "codec_namespace \<Rightarrow> signal_pos list" where
  "ns_signals n = ns_positions 0 (ns_maps n)"

lemma id_of_nth: "k < length (ns_signals n) \<Longrightarrow> namespace_id_of n (ns_signals n ! k) = 1 + of_nat k"
  unfolding namespace_id_of_def ns_signals_def by (rule id_loop_nth)

lemma signal_at_id_of:
  assumes "p \<in> set (ns_signals n)" and "length (ns_signals n) < 2 ^ 32 - 1"
  shows "namespace_signal_at n (namespace_id_of n p) = Some p" and "namespace_id_of n p \<noteq> 0"
proof -
  obtain k where k: "k < length (ns_signals n)" "p = ns_signals n ! k"
    using assms(1) by (auto simp: in_set_conv_nth)
  have id: "namespace_id_of n p = 1 + of_nat k" using id_of_nth [OF k(1)] k(2) by simp
  show "namespace_signal_at n (namespace_id_of n p) = Some p"
    unfolding id using k assms(2) at_loop_nth [of k "ns_signals n" 1]
    by (simp add: namespace_signal_at_def ns_signals_def)
  have "(of_nat (Suc k) :: u32) \<noteq> 0" using k(1) assms(2) by (intro of_nat_Suc_u32) simp
  then show "namespace_id_of n p \<noteq> 0" unfolding id by simp
qed

subsection \<open>Registered maps\<close>

lemma map_position_signals:
  "List.map (\<lambda>(j, s). cm_signals (cmap_messages mp ! j) ! s) (map_positions mp) = concat (List.map cm_signals (cmap_messages mp))"
proof -
  have "List.map (\<lambda>(j, s). cm_signals ((pre @ msgs) ! j) ! s)
      (concat (List.map (\<lambda>(j, msg). message_positions j msg) (enumerate (length pre) msgs))) =
      concat (List.map cm_signals msgs)" for pre msgs
  proof (induction msgs arbitrary: pre)
    case (Cons msg msgs)
    have "List.map (\<lambda>s. cm_signals msg ! s) [0..<length (cm_signals msg)] = cm_signals msg"
      by (rule map_nth)
    then show ?case
      using Cons.IH [of "pre @ [msg]"] by (simp add: message_positions_def comp_def)
  qed simp
  from this [of "[]"] show ?thesis by (simp add: map_positions_def)
qed

lemma duplicate_names:
  "map_has_duplicate_signal_names msgs \<longleftrightarrow> \<not> distinct (List.map cs_name (concat (List.map cm_signals msgs)))"
proof -
  have r: "signals_repeat gs rest \<longleftrightarrow> \<not> distinct (List.map cs_name gs) \<or>
      (set (List.map cs_name gs) \<inter> set (List.map cs_name (concat (List.map cm_signals rest))) \<noteq> {})" for gs rest
    by (induction gs) (auto simp: list_ex_iff)
  show ?thesis
  proof (induction msgs)
    case (Cons msg msgs)
    show ?case
      unfolding map_has_duplicate_signal_names.simps r Cons list.map concat.simps map_append distinct_append by blast
  qed simp
qed

definition map_ok :: "codec_map \<Rightarrow> bool" where
  "map_ok mp \<longleftrightarrow> \<not> map_has_duplicate_signal_names (cmap_messages mp)"

lemma map_find_signal_eq:
  assumes "map_ok mp" and "(j, s) \<in> set (map_positions mp)"
  shows "map_find_signal mp (cs_name (cm_signals (cmap_messages mp ! j) ! s)) = Some (j, s)"
proof -
  let ?f = "\<lambda>p. cs_name (case p of (j, s) \<Rightarrow> cm_signals (cmap_messages mp ! j) ! s)"
  have "List.map ?f (map_positions mp) = List.map cs_name (concat (List.map cm_signals (cmap_messages mp)))"
    unfolding map_position_signals [symmetric] by simp
  then have i: "inj_on ?f (set (map_positions mp))"
    using assms(1) by (metis distinct_map duplicate_names map_ok_def)
  have "y = (j, s)" if "y \<in> set (map_positions mp)" "?f y = ?f (j, s)" for y
    using inj_onD [OF i that(2,1) assms(2)] .
  then have "find (\<lambda>p. ?f p = ?f (j, s)) (map_positions mp) = Some (j, s)"
    using assms(2) by (intro find_unique) blast+
  moreover have "(\<lambda>p. ?f p = ?f (j, s)) =
      (\<lambda>(j', s'). cs_name (cm_signals (cmap_messages mp ! j') ! s') = cs_name (cm_signals (cmap_messages mp ! j) ! s))"
    by (simp add: fun_eq_iff)
  ultimately show ?thesis unfolding map_find_signal_def by (simp only:)
qed

lemma map_find_signal_some:
  assumes "map_find_signal mp name = Some (j, s)"
  shows "(j, s) \<in> set (map_positions mp)" and "cs_name (cm_signals (cmap_messages mp ! j) ! s) = name"
  using find_Some_mem [OF assms [unfolded map_find_signal_def]] by simp_all

text \<open>The registries a program can build: initialised over storage of the stated capacity, then
  filled by successful registrations.\<close>

inductive ns_reach :: "codec_namespace \<Rightarrow> bool" where
  init: "namespace_init (Some n0) (Some slots) capacity = (True, Some n) \<Longrightarrow> length slots = unat capacity \<Longrightarrow> ns_reach n"
| register: "ns_reach n \<Longrightarrow> namespace_register (Some n) (Some mp) = (CODEC_OK, Some n') \<Longrightarrow> ns_reach n'"

definition ns_ok :: "codec_namespace \<Rightarrow> bool" where
  "ns_ok n \<longleftrightarrow> namespace_is_valid (Some n) \<and> length (ns_slots n) = unat (ns_capacity n) \<and>
     distinct (List.map cmap_name (ns_maps n)) \<and> (\<forall>mp \<in> set (ns_maps n). map_ok mp)"

lemma register_ok:
  assumes "namespace_register (Some n) (Some mp) = (CODEC_OK, Some n')" and "length (ns_slots n) = unat (ns_capacity n)"
  shows "ns_maps n' = ns_maps n @ [mp]" and "ns_capacity n' = ns_capacity n"
    and "length (ns_slots n') = length (ns_slots n)" and "namespace_is_valid (Some n)" and "namespace_is_valid (Some n')"
    and "cmap_name mp \<notin> set (List.map cmap_name (ns_maps n))" and "map_ok mp"
proof -
  from assms(1) have v: "namespace_is_valid (Some n)"
    and c: "ns_count n < ns_capacity n"
    and n': "n' = n\<lparr>ns_slots := (ns_slots n)[unat (ns_count n) := mp], ns_count := ns_count n + 1\<rparr>"
    and nm: "\<not> list_ex (\<lambda>r. cmap_name r = cmap_name mp) (ns_maps n)"
    and d: "\<not> map_has_duplicate_signal_names (cmap_messages mp)"
    by (auto simp: namespace_register_def not_le split: if_splits)
  have lt: "unat (ns_count n) < length (ns_slots n)" using c assms(2) by (simp add: word_less_nat_alt)
  have cap: "unat (ns_capacity n) \<le> 256"
    using v by (simp add: namespace_is_valid_def CODEC_NAMESPACE_MAX_CAPACITY_def word_le_nat_alt)
  then have u: "unat (ns_count n + 1) = Suc (unat (ns_count n))"
    using lt assms(2) by (subst unat_plus_small) simp_all
  show "ns_maps n' = ns_maps n @ [mp]"
    using lt by (simp add: n' u take_Suc_conv_app_nth)
  show "ns_capacity n' = ns_capacity n" "length (ns_slots n') = length (ns_slots n)" by (simp_all add: n')
  show "namespace_is_valid (Some n)" by (rule v)
  show "namespace_is_valid (Some n')"
    using v lt assms(2) u by (auto simp: n' namespace_is_valid_def word_le_nat_alt)
  show "cmap_name mp \<notin> set (List.map cmap_name (ns_maps n))" using nm by (auto simp: list_ex_iff)
  show "map_ok mp" using d by (simp add: map_ok_def)
qed

lemma ns_reach_ok: "ns_reach n \<Longrightarrow> ns_ok n"
proof (induction rule: ns_reach.induct)
  case (init n0 slots capacity n)
  then show ?case
    by (auto simp: namespace_init_def ns_ok_def namespace_is_valid_def not_less unat_eq_zero word_gt_0
        split: if_splits)
next
  case (register n mp n')
  then show ?case using register_ok [of n mp n'] by (auto simp: ns_ok_def)
qed

subsection \<open>Names\<close>

lemma prefix_matches_take: "dot \<le> length name \<Longrightarrow> prefix_matches cand name dot \<longleftrightarrow> cand = take dot name"
  by (induction cand name dot rule: prefix_matches.induct) auto

lemma find_dot_some: "find_dot name = Some dot \<Longrightarrow> dot < length name"
  by (induction name arbitrary: dot) (auto split: if_splits)

lemma find_dot_append: "CHR ''.'' \<notin> set cs \<Longrightarrow> find_dot (cs @ CHR ''.'' # ds) = Some (length cs)"
  by (induction cs) auto

lemma short_matches_eq:
  "short_matches n name = (let ms = filter (\<lambda>p. cs_name (signal_of n p) = name) (ns_signals n)
     in (of_nat (length ms), if ms = [] then None else Some (last ms)))"
proof -
  have "fold (\<lambda>p (matches, found). if P p then (matches + 1, Some p) else (matches, found)) ps (c, f) =
      (c + of_nat (length (filter P ps)), if filter P ps = [] then f else Some (last (filter P ps)))"
    for P :: "signal_pos \<Rightarrow> bool" and ps f and c :: u32
    by (induction ps arbitrary: c f) (simp_all add: add.assoc)
  then show ?thesis by (simp add: short_matches_def ns_signals_def Let_def)
qed

lemma find_slot_eq:
  assumes "distinct (List.map cmap_name (ns_maps n))" and "length (ns_maps n) = unat (ns_count n)"
    and "i < unat (ns_count n)"
  shows "find_slot n (\<lambda>mp. cmap_name mp = cmap_name (ns_slots n ! i)) = Some i"
  unfolding find_slot_def
proof (rule find_unique)
  fix k
  assume "k \<in> set [0..<unat (ns_count n)]" "cmap_name (ns_slots n ! k) = cmap_name (ns_slots n ! i)"
  then have "List.map cmap_name (ns_maps n) ! k = List.map cmap_name (ns_maps n) ! i" "k < length (ns_maps n)"
    using assms(2,3) by simp_all
  then show "k = i" using nth_eq_iff_index_eq [OF assms(1), of k i] assms(2,3) by simp
qed (use assms(3) in simp_all)

lemma ns_maps_length: "ns_ok n \<Longrightarrow> length (ns_maps n) = unat (ns_count n)"
  by (simp add: ns_ok_def namespace_is_valid_def word_le_nat_alt)

lemma in_ns_signals:
  assumes "ns_ok n"
  shows "(i, q) \<in> set (ns_signals n) \<longleftrightarrow> i < unat (ns_count n) \<and> q \<in> set (map_positions (ns_slots n ! i))"
  using ns_maps_length [OF assms] by (auto simp: ns_signals_def in_ns_positions)

lemma resolve_id_some:
  assumes "namespace_is_valid (Some n)" and "sid \<noteq> 0" and "namespace_signal_at n sid = Some p"
  shows "namespace_resolve_id (Some n) sid (Some o1) =
    (CODEC_OK, Some (o1\<lparr>rs_signal_id := sid, rs_map := Some (fst p), rs_signal := Some p\<rparr>))"
  using assms by (simp add: namespace_resolve_id_def)

subsection \<open>Properties\<close>

definition brake_map :: codec_map where
  "brake_map = engine_map\<lparr>cmap_name := ''brake''\<rparr>"

definition empty_resolution :: codec_resolution where
  "empty_resolution = \<lparr>rs_signal_id = 0, rs_map = None, rs_signal = None\<rparr>"

definition two_maps :: codec_namespace where
  "two_maps = \<lparr>ns_slots = [engine_map, brake_map, engine_map], ns_capacity = 3, ns_count = 2\<rparr>"

lemma two_maps_reach: "ns_reach two_maps"
proof -
  let ?s = "[engine_map, engine_map, engine_map]"
  have "ns_reach \<lparr>ns_slots = ?s, ns_capacity = 3, ns_count = 0\<rparr>"
    by (rule ns_reach.init [of "\<lparr>ns_slots = [], ns_capacity = 0, ns_count = 0\<rparr>" ?s 3])
      (simp_all add: namespace_init_def CODEC_NAMESPACE_MAX_CAPACITY_def)
  then have "ns_reach \<lparr>ns_slots = ?s, ns_capacity = 3, ns_count = 1\<rparr>"
    by (rule ns_reach.register [where mp = engine_map])
      (simp add: namespace_register_def namespace_is_valid_def CODEC_NAMESPACE_MAX_CAPACITY_def engine_map_def)
  then show ?thesis
    by (rule ns_reach.register [where mp = brake_map])
      (simp add: namespace_register_def namespace_is_valid_def CODEC_NAMESPACE_MAX_CAPACITY_def word_le_def
        engine_map_def brake_map_def two_maps_def)
qed

text \<open>C21: In every registry a program can build, each signal with a non-empty name of each registered map
  with a non-empty name free of dots is found under its canonical name \<open>map.signal\<close>, and the id returned with it leads back to the same signal.\<close>

theorem namespace_canonical_complete:
  assumes "ns_reach n" and "length (ns_signals n) < 2 ^ 32 - 1" and "(i, q) \<in> set (ns_signals n)"
    and "cmap_name (ns_slots n ! i) \<noteq> []" and "CHR ''.'' \<notin> set (cmap_name (ns_slots n ! i))"
    and "cs_name (signal_of n (i, q)) \<noteq> []"
  shows "\<exists>r. namespace_resolve (Some n) (Some (cmap_name (ns_slots n ! i) @ ''.'' @ cs_name (signal_of n (i, q)))) (Some o1)
      = (CODEC_OK, Some r) \<and> rs_signal r = Some (i, q) \<and> rs_map r = Some i \<and>
    namespace_resolve_id (Some n) (rs_signal_id r) (Some r) = (CODEC_OK, Some r)"
proof -
  note ok = ns_reach_ok [OF assms(1)]
  let ?mp = "ns_slots n ! i" and ?sn = "cs_name (signal_of n (i, q))"
  have i: "i < unat (ns_count n)" and q: "q \<in> set (map_positions ?mp)"
    using assms(3) in_ns_signals [OF ok] by simp_all
  have v: "namespace_is_valid (Some n)" and d: "distinct (List.map cmap_name (ns_maps n))"
    using ok by (simp_all add: ns_ok_def)
  have "?mp \<in> set (ns_maps n)"
    using i ns_maps_length [OF ok] by (auto simp: in_set_conv_nth intro: exI [of _ i])
  then have m: "map_ok ?mp" using ok by (simp add: ns_ok_def)
  have fs: "find_slot n (\<lambda>mp. prefix_matches (cmap_name mp) (cmap_name ?mp @ ''.'' @ ?sn) (length (cmap_name ?mp))) = Some i"
    using find_slot_eq [OF d ns_maps_length [OF ok] i] by (simp add: prefix_matches_take)
  have fg: "map_find_signal ?mp ?sn = Some q"
    using map_find_signal_eq [OF m, of "fst q" "snd q"] q by (simp add: signal_of_def split_beta)
  have r: "namespace_resolve (Some n) (Some (cmap_name ?mp @ ''.'' @ ?sn)) (Some o1) =
      (CODEC_OK, Some (resolved n (i, q) o1))"
    using v assms(4-6) fs fg find_dot_append [OF assms(5), of ?sn]
    by (simp add: namespace_resolve_def resolve_canonical_def Let_def)
  have "namespace_resolve_id (Some n) (rs_signal_id (resolved n (i, q) o1)) (Some (resolved n (i, q) o1)) =
      (CODEC_OK, Some (resolved n (i, q) o1))"
    using resolve_id_some [OF v] signal_at_id_of [OF assms(3,2)] by (simp add: resolved_def)
  then show ?thesis using r by (intro exI [of _ "resolved n (i, q) o1"]) (simp add: resolved_def)
qed

lemma namespace_canonical_complete_witness:
  "\<exists>r. namespace_resolve (Some two_maps) (Some ''brake.Torque'') (Some empty_resolution) = (CODEC_OK, Some r)
    \<and> rs_signal r = Some (1, 0, 0)"
proof -
  have p: "ns_signals two_maps = [(0, 0, 0), (1, 0, 0)]" by code_simp
  have nm: "cmap_name (ns_slots two_maps ! 1) = ''brake''" "cs_name (signal_of two_maps (1, 0, 0)) = ''Torque''"
    by code_simp+
  from namespace_canonical_complete [OF two_maps_reach, of 1 "(0, 0)" empty_resolution]
  show ?thesis unfolding p nm by auto
qed

text \<open>A short name resolves exactly when one registered signal has it. Two or more matches are
  reported as ambiguous, none as not found, and in both cases the output is untouched.\<close>

theorem namespace_short_name:
  assumes "namespace_is_valid (Some n)" and "length (ns_signals n) < 2 ^ 32"
    and "nm \<noteq> []" and "CHR ''.'' \<notin> set nm"
  shows "namespace_resolve (Some n) (Some nm) (Some o1) =
    (case filter (\<lambda>p. cs_name (signal_of n p) = nm) (ns_signals n) of
       [] \<Rightarrow> (CODEC_ERR_NOT_FOUND, Some o1)
     | [p] \<Rightarrow> (CODEC_OK, Some (resolved n p o1))
     | _ \<Rightarrow> (CODEC_ERR_AMBIGUOUS, Some o1))"
proof -
  define ms where "ms = filter (\<lambda>p. cs_name (signal_of n p) = nm) (ns_signals n)"
  have len: "length ms < 2 ^ 32"
    using assms(2) length_filter_le [of _ "ns_signals n"] unfolding ms_def by (rule le_less_trans [rotated])
  then have u: "unat (of_nat (length ms) :: u32) = length ms" by (simp add: unat_of_nat_small)
  then have z: "(of_nat (length ms) :: u32) = 0 \<longleftrightarrow> ms = []"
    and o: "(of_nat (length ms) :: u32) > 1 \<longleftrightarrow> length ms > 1"
    by (auto simp: word_less_nat_alt unat_eq_zero [symmetric])
  have "find_dot nm = None" using assms(4) by (induction nm) auto
  then have "namespace_resolve (Some n) (Some nm) (Some o1) = apsnd Some (resolve_short n nm o1)"
    using assms(1,3) by (simp add: namespace_resolve_def)
  also have "\<dots> = (case ms of [] \<Rightarrow> (CODEC_ERR_NOT_FOUND, Some o1) | [p] \<Rightarrow> (CODEC_OK, Some (resolved n p o1))
     | _ \<Rightarrow> (CODEC_ERR_AMBIGUOUS, Some o1))"
    unfolding resolve_short_def short_matches_eq ms_def [symmetric] Let_def
    using z o by (cases ms rule: remdups_adj.cases) simp_all
  finally show ?thesis unfolding ms_def .
qed

lemma namespace_short_name_witness:
  "namespace_resolve (Some two_maps) (Some ''Torque'') (Some empty_resolution) =
    (CODEC_ERR_AMBIGUOUS, Some empty_resolution)"
proof -
  have p: "ns_signals two_maps = [(0, 0, 0), (1, 0, 0)]" by code_simp
  have nm: "cs_name (signal_of two_maps (0, 0, 0)) = ''Torque''" "cs_name (signal_of two_maps (1, 0, 0)) = ''Torque''"
    "namespace_is_valid (Some two_maps)" by code_simp+
  show ?thesis using namespace_short_name [OF nm(3), of "''Torque''" empty_resolution] nm(1,2) by (simp add: p)
qed

text \<open>Registering another map never moves an id: what an id named before, it names after.\<close>

theorem namespace_ids_stable:
  assumes "ns_reach n" and "namespace_register (Some n) (Some mp) = (CODEC_OK, Some n')"
    and "namespace_resolve_id (Some n) sid (Some o1) = (CODEC_OK, r)"
  shows "namespace_resolve_id (Some n') sid (Some o1) = (CODEC_OK, r)"
proof -
  have "length (ns_slots n) = unat (ns_capacity n)" using ns_reach_ok [OF assms(1)] by (simp add: ns_ok_def)
  note reg = register_ok [OF assms(2) this]
  from assms(3) obtain p where p: "namespace_signal_at n sid = Some p" "sid \<noteq> 0"
    by (auto simp: namespace_resolve_id_def split: if_splits option.splits)
  have app: "at_loop (xs @ ys) cur t = Some p" if "at_loop xs cur t = Some p" for xs ys cur t
    using that by (induction xs arbitrary: cur) (auto split: if_splits)
  have "namespace_signal_at n' sid = Some p"
    using p(1) app unfolding namespace_signal_at_def reg(1) ns_positions_append by blast
  then show ?thesis
    using resolve_id_some [OF reg(5) p(2), of p o1] resolve_id_some [OF reg(4) p(2,1), of o1] assms(3) by simp
qed

lemma namespace_ids_stable_witness:
  "namespace_resolve_id (Some (two_maps\<lparr>ns_slots := [engine_map, brake_map, engine_map\<lparr>cmap_name := ''abs''\<rparr>], ns_count := 3\<rparr>))
     2 (Some empty_resolution) = (CODEC_OK, Some \<lparr>rs_signal_id = 2, rs_map = Some 1, rs_signal = Some (1, 0, 0)\<rparr>)"
proof -
  have reg: "namespace_register (Some two_maps) (Some (engine_map\<lparr>cmap_name := ''abs''\<rparr>)) = (CODEC_OK,
    Some (two_maps\<lparr>ns_slots := [engine_map, brake_map, engine_map\<lparr>cmap_name := ''abs''\<rparr>], ns_count := 3\<rparr>))"
    by (simp add: namespace_register_def namespace_is_valid_def CODEC_NAMESPACE_MAX_CAPACITY_def
        engine_map_def brake_map_def two_maps_def)
  have "namespace_resolve_id (Some two_maps) 2 (Some empty_resolution) =
      (CODEC_OK, Some \<lparr>rs_signal_id = 2, rs_map = Some 1, rs_signal = Some (1, 0, 0)\<rparr>)" by code_simp
  then show ?thesis by (rule namespace_ids_stable [OF two_maps_reach reg])
qed

end
