(* ===== verification/Signal_Store.thy ===== *)
theory Signal_Store
  imports Event_Types
begin

text \<open>
  The shared signal value store of core/recipe/src/engine.c with its slot and store types, and the
  recipe statuses it reports. \<open>value_store\<close> is the contract its clients rely on: what was set is
  what is read, under its key only.
\<close>

datatype recipe_status =
    RECIPE_OK | RECIPE_ERR_NULL | RECIPE_ERR_ARGUMENT | RECIPE_ERR_NOT_FOUND | RECIPE_ERR_AMBIGUOUS
  | RECIPE_ERR_DENIED | RECIPE_ERR_EXPRESSION | RECIPE_ERR_ENCODING | RECIPE_ERR_CAPACITY
  | RECIPE_ERR_PARSE | RECIPE_ERR_CONFLICT | RECIPE_ERR_NO_MEMORY | RECIPE_ERR_UNSUPPORTED

fun recipe_status_value :: "recipe_status \<Rightarrow> int" where
  "recipe_status_value RECIPE_OK = 0"
| "recipe_status_value RECIPE_ERR_NULL = - 1"
| "recipe_status_value RECIPE_ERR_ARGUMENT = - 2"
| "recipe_status_value RECIPE_ERR_NOT_FOUND = - 3"
| "recipe_status_value RECIPE_ERR_AMBIGUOUS = - 4"
| "recipe_status_value RECIPE_ERR_DENIED = - 5"
| "recipe_status_value RECIPE_ERR_EXPRESSION = - 6"
| "recipe_status_value RECIPE_ERR_ENCODING = - 7"
| "recipe_status_value RECIPE_ERR_CAPACITY = - 8"
| "recipe_status_value RECIPE_ERR_PARSE = - 9"
| "recipe_status_value RECIPE_ERR_CONFLICT = - 10"
| "recipe_status_value RECIPE_ERR_NO_MEMORY = - 11"
| "recipe_status_value RECIPE_ERR_UNSUPPORTED = - 12"

definition recipe_status_is_ok :: "recipe_status \<Rightarrow> bool" where
  "recipe_status_is_ok st \<longleftrightarrow> recipe_status_value st \<ge> 0"

record signal_slot =
  sl_signal_id :: u32
  sl_value :: signal_value

record sig_store =
  st_slots :: "signal_slot list"
  st_capacity :: nat
  st_count :: nat

definition zero_slot :: signal_slot where
  "zero_slot = \<lparr>sl_signal_id = 0, sl_value = Value_unset\<rparr>"

definition signal_store_init ::
    "sig_store option \<Rightarrow> signal_slot list option \<Rightarrow> nat \<Rightarrow> bool \<times> sig_store option" where
  "signal_store_init store slots capacity = (case store of None \<Rightarrow> (False, None)
     | Some s \<Rightarrow>
         if slots = None \<or> capacity = 0
         then (False, Some (s\<lparr>st_slots := [], st_capacity := 0, st_count := 0\<rparr>))
         else (True, Some (s\<lparr>st_slots := replicate capacity zero_slot, st_capacity := capacity, st_count := 0\<rparr>)))"

definition signal_store_is_valid :: "sig_store option \<Rightarrow> bool" where
  "signal_store_is_valid store = (case store of None \<Rightarrow> False
     | Some s \<Rightarrow> st_slots s \<noteq> [] \<and> st_capacity s > 0 \<and> st_count s \<le> st_capacity s)"

definition signal_store_size :: "sig_store option \<Rightarrow> nat" where
  "signal_store_size store = (if \<not> signal_store_is_valid store then 0 else st_count (the store))"

text \<open>The index of the first used slot of a signal.\<close>

definition store_index :: "sig_store \<Rightarrow> u32 \<Rightarrow> nat option" where
  "store_index s sid = find (\<lambda>i. sl_signal_id (st_slots s ! i) = sid) [0..<st_count s]"

definition signal_store_get :: "sig_store option \<Rightarrow> u32 \<Rightarrow> signal_value option
    \<Rightarrow> recipe_status \<times> signal_value option" where
  "signal_store_get store sid out =
     (if store = None \<or> out = None then (RECIPE_ERR_NULL, out)
      else if \<not> signal_store_is_valid store then (RECIPE_ERR_NULL, out)
      else case store_index (the store) sid of
        Some i \<Rightarrow> (RECIPE_OK, Some (sl_value (st_slots (the store) ! i)))
      | None \<Rightarrow> (RECIPE_ERR_NOT_FOUND, out))"

definition signal_store_set :: "sig_store option \<Rightarrow> u32 \<Rightarrow> signal_value option
    \<Rightarrow> recipe_status \<times> sig_store option" where
  "signal_store_set store sid v =
     (if store = None \<or> v = None then (RECIPE_ERR_NULL, store)
      else if \<not> signal_store_is_valid store then (RECIPE_ERR_NULL, store)
      else let s = the store
        in case store_index s sid of
          Some i \<Rightarrow> (RECIPE_OK, Some (s\<lparr>st_slots := (st_slots s)[i := (st_slots s ! i)\<lparr>sl_value := the v\<rparr>]\<rparr>))
        | None \<Rightarrow>
            if st_count s \<ge> st_capacity s then (RECIPE_ERR_CAPACITY, store)
            else (RECIPE_OK, Some (s\<lparr>
              st_slots := (st_slots s)[st_count s := \<lparr>sl_signal_id = sid, sl_value = the v\<rparr>],
              st_count := st_count s + 1\<rparr>)))"

subsection \<open>The contract\<close>

locale value_store =
  fixes lookup :: "'s \<Rightarrow> 'k \<Rightarrow> 'v option"
    and update :: "'s \<Rightarrow> 'k \<Rightarrow> 'v \<Rightarrow> 's option"
    and inv :: "'s \<Rightarrow> bool"
  assumes update_inv: "inv s \<Longrightarrow> update s k v = Some t \<Longrightarrow> inv t"
    and lookup_update: "inv s \<Longrightarrow> update s k v = Some t \<Longrightarrow> lookup t k' = (if k' = k then Some v else lookup s k')"
    and update_known: "inv s \<Longrightarrow> lookup s k \<noteq> None \<Longrightarrow> update s k v \<noteq> None"
begin

fun updates :: "'s \<Rightarrow> ('k \<times> 'v) list \<Rightarrow> 's" where
  "updates s [] = s"
| "updates s ((k, v) # kvs) = (case update s k v of None \<Rightarrow> updates s kvs | Some t \<Rightarrow> updates t kvs)"

lemma updates_inv: "inv s \<Longrightarrow> inv (updates s kvs)"
  by (induction s kvs rule: updates.induct) (auto split: option.split dest: update_inv)

lemma updates_known: "inv s \<Longrightarrow> lookup s k \<noteq> None \<Longrightarrow> lookup (updates s kvs) k \<noteq> None"
proof (induction s kvs rule: updates.induct)
  case (2 s k' v kvs)
  then show ?case by (auto split: option.split simp: lookup_update dest: update_inv)
qed simp

text \<open>A known key keeps the last value written under it, whatever else is written.\<close>

lemma last_write_wins:
  assumes "inv s" and "lookup s k \<noteq> None"
  shows "lookup (updates s kvs) k =
    (if filter (\<lambda>p. fst p = k) kvs = [] then lookup s k else Some (snd (last (filter (\<lambda>p. fst p = k) kvs))))"
  using assms
proof (induction s kvs rule: updates.induct)
  case (2 s k' v kvs)
  show ?case
  proof (cases "update s k' v")
    case None
    then have "k' \<noteq> k" using 2(3,4) update_known by blast
    then show ?thesis using 2 None by simp
  next
    case (Some t)
    have t: "inv t" "lookup t k = (if k = k' then Some v else lookup s k)"
      using update_inv [OF 2(3) Some] lookup_update [OF 2(3) Some] by simp_all
    then have "lookup t k \<noteq> None" using 2(4) by simp
    from 2(2) [OF Some t(1) this] show ?thesis
      using Some t(2) by simp
  qed
qed simp

end

subsection \<open>The store keeps it\<close>

definition store_ok :: "sig_store \<Rightarrow> bool" where
  "store_ok s \<longleftrightarrow> signal_store_is_valid (Some s) \<and> length (st_slots s) = st_capacity s"

definition store_lookup :: "sig_store \<Rightarrow> u32 \<Rightarrow> signal_value option" where
  "store_lookup s sid = (case signal_store_get (Some s) sid (Some Value_unset) of
     (RECIPE_OK, v) \<Rightarrow> v | _ \<Rightarrow> None)"

definition store_update :: "sig_store \<Rightarrow> u32 \<Rightarrow> signal_value \<Rightarrow> sig_store option" where
  "store_update s sid v = (case signal_store_set (Some s) sid (Some v) of
     (RECIPE_OK, t) \<Rightarrow> t | _ \<Rightarrow> None)"

lemma store_index_found:
  assumes "store_index s sid = Some i"
  shows "i < st_count s" and "sl_signal_id (st_slots s ! i) = sid" and "\<And>j. j < i \<Longrightarrow> sl_signal_id (st_slots s ! j) \<noteq> sid"
  using assms by (auto simp: store_index_def find_Some_iff)

lemma store_index_cong:
  assumes "st_count s \<le> st_count t" and "\<And>i. i < st_count s \<Longrightarrow> sl_signal_id (st_slots t ! i) = sl_signal_id (st_slots s ! i)"
  shows "store_index t sid = (case store_index s sid of Some i \<Rightarrow> Some i
    | None \<Rightarrow> find (\<lambda>i. sl_signal_id (st_slots t ! i) = sid) [st_count s..<st_count t])"
proof -
  have app: "find P (xs @ ys) = (case find P xs of Some i \<Rightarrow> Some i | None \<Rightarrow> find P ys)" for P xs and ys :: "nat list"
    by (induction xs) simp_all
  have split: "[0..<st_count t] = [0..<st_count s] @ [st_count s..<st_count t]"
    using assms(1) by (metis le0 le_add_diff_inverse upt_add_eq_append)
  have "find (\<lambda>i. sl_signal_id (st_slots t ! i) = sid) [0..<st_count s] = store_index s sid"
    unfolding store_index_def using assms(2) by (intro find_cong) auto
  then show ?thesis unfolding store_index_def [of t] split app by simp
qed

lemma store_lookup_index:
  assumes "store_ok s"
  shows "store_lookup s sid = map_option (\<lambda>i. sl_value (st_slots s ! i)) (store_index s sid)"
  using assms by (simp add: store_lookup_def signal_store_get_def store_ok_def split: option.split)

lemma store_set_index:
  assumes "store_ok s" and "signal_store_set (Some s) sid (Some v) = (st, t)"
  shows "store_index s sid = Some i \<Longrightarrow> st = RECIPE_OK \<and>
      t = Some (s\<lparr>st_slots := (st_slots s)[i := (st_slots s ! i)\<lparr>sl_value := v\<rparr>]\<rparr>)"
    and "store_index s sid = None \<Longrightarrow> st_count s < st_capacity s \<Longrightarrow> st = RECIPE_OK \<and>
      t = Some (s\<lparr>st_slots := (st_slots s)[st_count s := \<lparr>sl_signal_id = sid, sl_value = v\<rparr>], st_count := st_count s + 1\<rparr>)"
    and "store_index s sid = None \<Longrightarrow> \<not> st_count s < st_capacity s \<Longrightarrow> st = RECIPE_ERR_CAPACITY \<and> t = Some s"
  using assms by (simp_all add: signal_store_set_def store_ok_def Let_def)

lemma store_update_cases:
  assumes "store_ok s"
  shows "store_index s sid = Some i \<Longrightarrow>
      store_update s sid v = Some (s\<lparr>st_slots := (st_slots s)[i := (st_slots s ! i)\<lparr>sl_value := v\<rparr>]\<rparr>)"
    and "store_index s sid = None \<Longrightarrow> st_count s < st_capacity s \<Longrightarrow> store_update s sid v =
      Some (s\<lparr>st_slots := (st_slots s)[st_count s := \<lparr>sl_signal_id = sid, sl_value = v\<rparr>], st_count := st_count s + 1\<rparr>)"
    and "store_index s sid = None \<Longrightarrow> \<not> st_count s < st_capacity s \<Longrightarrow> store_update s sid v = None"
  using assms by (simp_all add: store_update_def signal_store_set_def store_ok_def Let_def)

lemma store_lookup_after:
  assumes "store_ok s" and "store_update s k v = Some t"
  shows "store_ok t" and "store_lookup t k' = (if k' = k then Some v else store_lookup s k')"
proof -
  have c: "st_count s \<le> length (st_slots s)" "st_slots s \<noteq> []" "length (st_slots s) = st_capacity s"
    using assms(1) by (simp_all add: store_ok_def signal_store_is_valid_def)
  have "store_ok t \<and> store_lookup t k' = (if k' = k then Some v else store_lookup s k')"
  proof (cases "store_index s k")
    case (Some i)
    note f = store_index_found [OF Some]
    have t: "t = s\<lparr>st_slots := (st_slots s)[i := (st_slots s ! i)\<lparr>sl_value := v\<rparr>]\<rparr>"
      using store_update_cases(1) [OF assms(1) Some, of v] assms(2) by simp
    have il: "i < length (st_slots s)" using f(1) c(1) by simp
    then have ids: "sl_signal_id (st_slots t ! j) = sl_signal_id (st_slots s ! j)" for j
      by (cases "j = i") (simp_all add: t)
    have ok: "store_ok t" using assms(1) c(2) by (simp add: t store_ok_def signal_store_is_valid_def)
    have ix: "store_index t k' = store_index s k'"
      using store_index_cong [of s t k'] ids by (simp add: t split: option.splits)
    have "store_lookup t k' = (if k' = k then Some v else store_lookup s k')"
    proof (cases "store_index s k'")
      case None
      then show ?thesis using Some ix by (auto simp: store_lookup_index [OF ok] store_lookup_index [OF assms(1)])
    next
      case (Some j)
      have "j = i \<Longrightarrow> k' = k" using store_index_found(2) [OF Some] f(2) by simp
      moreover have "k' = k \<Longrightarrow> j = i" using Some \<open>store_index s k = Some i\<close> by simp
      ultimately have "(j = i) = (k' = k)" by blast
      moreover have "store_lookup t k' = Some (sl_value (st_slots t ! j))"
        using Some ix by (simp add: store_lookup_index [OF ok])
      moreover have "sl_value (st_slots t ! j) = (if j = i then v else sl_value (st_slots s ! j))"
        using il by (simp add: t)
      ultimately show ?thesis using Some by (simp add: store_lookup_index [OF assms(1)])
    qed
    then show ?thesis using ok by simp
  next
    case None
    then have lt: "st_count s < st_capacity s" and
      t: "t = s\<lparr>st_slots := (st_slots s)[st_count s := \<lparr>sl_signal_id = k, sl_value = v\<rparr>], st_count := st_count s + 1\<rparr>"
      using store_update_cases(2,3) [OF assms(1) None, of v] assms(2) by (cases "st_count s < st_capacity s"; simp)+
    have ok: "store_ok t" using assms(1) lt c(2) by (simp add: t store_ok_def signal_store_is_valid_def)
    have ix: "store_index t k' = (case store_index s k' of Some i \<Rightarrow> Some i
        | None \<Rightarrow> if k' = k then Some (st_count s) else None)"
      using store_index_cong [of s t k'] lt c(3) by (simp add: t split: option.splits)
    have "store_lookup t k' = (if k' = k then Some v else store_lookup s k')"
    proof (cases "store_index s k'")
      case (Some j)
      then have "k' \<noteq> k" "j \<noteq> st_count s" using None store_index_found(1) [OF Some] by auto
      note \<open>k' \<noteq> k\<close>
      moreover have "store_lookup t k' = Some (sl_value (st_slots t ! j))"
        using Some ix by (simp add: store_lookup_index [OF ok])
      moreover have "st_slots t ! j = st_slots s ! j" using \<open>j \<noteq> st_count s\<close> by (simp add: t)
      ultimately show ?thesis using Some by (simp add: store_lookup_index [OF assms(1)])
    next
      case None
      then show ?thesis
        using ix lt c(3) by (simp add: store_lookup_index [OF ok] store_lookup_index [OF assms(1)]) (simp add: t)
    qed
    then show ?thesis using ok by simp
  qed
  then show "store_ok t" and "store_lookup t k' = (if k' = k then Some v else store_lookup s k')" by simp_all
qed

interpretation signals: value_store store_lookup store_update store_ok
proof unfold_locales
  fix s k v
  assume "store_ok s" "store_lookup s k \<noteq> None"
  then show "store_update s k v \<noteq> None"
    using store_update_cases(1) [of s k _ v] by (auto simp: store_lookup_index)
qed (auto simp: store_lookup_after)

lemma store_init_ok:
  assumes "signal_store_init (Some s0) (Some slots) capacity = (True, Some s)"
  shows "store_ok s" and "store_lookup s sid = None"
proof -
  have "s = s0\<lparr>st_slots := replicate capacity zero_slot, st_capacity := capacity, st_count := 0\<rparr>" "capacity \<noteq> 0"
    using assms by (simp_all add: signal_store_init_def split: if_splits)
  then show ok: "store_ok s" by (simp add: store_ok_def signal_store_is_valid_def)
  show "store_lookup s sid = None"
    unfolding store_lookup_index [OF ok] using \<open>s = _\<close> by (simp add: store_index_def)
qed

end
