(* ===== verification/Uds_Types.thy ===== *)
theory Uds_Types
  imports Event_Types
begin

text \<open>
  core/uds/include/cancestry/uds/types.h and src/types.c: bounds, service identifiers, negative
  response codes, statuses, and the DID and routine tables the loader produces.
\<close>

definition UDS_DID_SIGNAL_LENGTH_MAX :: u16 where "UDS_DID_SIGNAL_LENGTH_MAX = 8"

definition UDS_SID_RDBI :: u8 where "UDS_SID_RDBI = 0x22"
definition UDS_SID_WDBI :: u8 where "UDS_SID_WDBI = 0x2E"
definition UDS_SID_ROUTINE_CONTROL :: u8 where "UDS_SID_ROUTINE_CONTROL = 0x31"
definition UDS_SID_POSITIVE_OFFSET :: u8 where "UDS_SID_POSITIVE_OFFSET = 0x40"
definition UDS_SID_NEGATIVE :: u8 where "UDS_SID_NEGATIVE = 0x7F"

definition UDS_RC_START :: u8 where "UDS_RC_START = 1"
definition UDS_RC_STOP :: u8 where "UDS_RC_STOP = 2"
definition UDS_RC_RESULTS :: u8 where "UDS_RC_RESULTS = 3"

definition NRC_SERVICE_NOT_SUPPORTED :: u8 where "NRC_SERVICE_NOT_SUPPORTED = 0x11"
definition NRC_SUB_FUNCTION_NOT_SUPPORTED :: u8 where "NRC_SUB_FUNCTION_NOT_SUPPORTED = 0x12"
definition NRC_INCORRECT_MESSAGE_LENGTH :: u8 where "NRC_INCORRECT_MESSAGE_LENGTH = 0x13"
definition NRC_CONDITIONS_NOT_CORRECT :: u8 where "NRC_CONDITIONS_NOT_CORRECT = 0x22"
definition NRC_REQUEST_OUT_OF_RANGE :: u8 where "NRC_REQUEST_OUT_OF_RANGE = 0x31"
definition NRC_GENERAL_PROGRAMMING_FAILURE :: u8 where "NRC_GENERAL_PROGRAMMING_FAILURE = 0x72"

lemmas uds_constants = UDS_DID_SIGNAL_LENGTH_MAX_def UDS_SID_RDBI_def UDS_SID_WDBI_def
  UDS_SID_ROUTINE_CONTROL_def UDS_SID_POSITIVE_OFFSET_def UDS_SID_NEGATIVE_def UDS_RC_START_def
  UDS_RC_STOP_def UDS_RC_RESULTS_def NRC_SERVICE_NOT_SUPPORTED_def NRC_SUB_FUNCTION_NOT_SUPPORTED_def
  NRC_INCORRECT_MESSAGE_LENGTH_def NRC_CONDITIONS_NOT_CORRECT_def NRC_REQUEST_OUT_OF_RANGE_def
  NRC_GENERAL_PROGRAMMING_FAILURE_def

datatype uds_status =
    UDS_OK | UDS_ERR_NULL | UDS_ERR_ARGUMENT | UDS_ERR_CAPACITY | UDS_ERR_NOT_FOUND | UDS_ERR_LENGTH
  | UDS_ERR_DENIED | UDS_ERR_UNSUPPORTED | UDS_ERR_PROGRAMMING | UDS_ERR_PARSE | UDS_ERR_CONFLICT
  | UDS_ERR_NO_MEMORY

fun uds_status_value :: "uds_status \<Rightarrow> int" where
  "uds_status_value UDS_OK = 0"
| "uds_status_value UDS_ERR_NULL = - 1"
| "uds_status_value UDS_ERR_ARGUMENT = - 2"
| "uds_status_value UDS_ERR_CAPACITY = - 3"
| "uds_status_value UDS_ERR_NOT_FOUND = - 4"
| "uds_status_value UDS_ERR_LENGTH = - 5"
| "uds_status_value UDS_ERR_DENIED = - 6"
| "uds_status_value UDS_ERR_UNSUPPORTED = - 7"
| "uds_status_value UDS_ERR_PROGRAMMING = - 8"
| "uds_status_value UDS_ERR_PARSE = - 9"
| "uds_status_value UDS_ERR_CONFLICT = - 10"
| "uds_status_value UDS_ERR_NO_MEMORY = - 11"

definition uds_status_is_ok :: "uds_status \<Rightarrow> bool" where
  "uds_status_is_ok st \<longleftrightarrow> uds_status_value st \<ge> 0"

fun uds_status_name :: "uds_status \<Rightarrow> string" where
  "uds_status_name UDS_OK = ''OK''"
| "uds_status_name UDS_ERR_NULL = ''ERR_NULL''"
| "uds_status_name UDS_ERR_ARGUMENT = ''ERR_ARGUMENT''"
| "uds_status_name UDS_ERR_CAPACITY = ''ERR_CAPACITY''"
| "uds_status_name UDS_ERR_NOT_FOUND = ''ERR_NOT_FOUND''"
| "uds_status_name UDS_ERR_LENGTH = ''ERR_LENGTH''"
| "uds_status_name UDS_ERR_DENIED = ''ERR_DENIED''"
| "uds_status_name UDS_ERR_UNSUPPORTED = ''ERR_UNSUPPORTED''"
| "uds_status_name UDS_ERR_PROGRAMMING = ''ERR_PROGRAMMING''"
| "uds_status_name UDS_ERR_PARSE = ''ERR_PARSE''"
| "uds_status_name UDS_ERR_CONFLICT = ''ERR_CONFLICT''"
| "uds_status_name UDS_ERR_NO_MEMORY = ''ERR_NO_MEMORY''"

definition uds_nrc_name :: "u8 \<Rightarrow> string" where
  "uds_nrc_name nrc =
     (if nrc = NRC_SERVICE_NOT_SUPPORTED then ''SERVICE_NOT_SUPPORTED''
      else if nrc = NRC_SUB_FUNCTION_NOT_SUPPORTED then ''SUB_FUNCTION_NOT_SUPPORTED''
      else if nrc = NRC_INCORRECT_MESSAGE_LENGTH then ''INCORRECT_MESSAGE_LENGTH_OR_INVALID_FORMAT''
      else if nrc = NRC_CONDITIONS_NOT_CORRECT then ''CONDITIONS_NOT_CORRECT''
      else if nrc = NRC_REQUEST_OUT_OF_RANGE then ''REQUEST_OUT_OF_RANGE''
      else if nrc = NRC_GENERAL_PROGRAMMING_FAILURE then ''GENERAL_PROGRAMMING_FAILURE''
      else ''INVALID'')"

record uds_did =
  ud_did :: u16
  ud_length :: u16
  ud_read_only :: bool
  ud_signal :: "string option"
  ud_default_data :: "u8 list option"
  ud_data_offset :: nat

record uds_routine_op =
  uo_declared :: bool
  uo_allowed :: bool
  uo_response :: "u8 list option"
  uo_response_length :: u16

record uds_routine =
  ur_routine :: u16
  ur_start :: uds_routine_op
  ur_stop :: uds_routine_op
  ur_results :: uds_routine_op

record uds_config =
  uc_dids :: "uds_did list"
  uc_routines :: "uds_routine list"
  uc_did_data_length :: nat

end
