(* ===== verification/Uds.thy ===== *)
theory Uds
  imports Uds_Types Signal_Store Codec_Namespace
begin

text \<open>
  core/uds/src/services.c: the UDS server. The configuration is read-only. The response buffer is
  the list of its \<open>response_capacity\<close> bytes, \<open>response_length\<close> the value of the output parameter.
  The governor callback is a function on the contents \<open>'w\<close> of its user data and the request; it
  does not touch the server.
\<close>

datatype uds_governor_decision = GOVERNOR_APPROVE | GOVERNOR_DENY

datatype uds_governor_request_kind = GOVERNOR_WRITE_DID | GOVERNOR_RUN_ROUTINE

record uds_governor_request =
  gr_kind :: uds_governor_request_kind
  gr_did :: u16
  gr_did_entry :: "uds_did option"
  gr_data :: "u8 list option"
  gr_data_length :: nat
  gr_has_signal :: bool
  gr_signal_name :: "string option"
  gr_signal_id :: u32
  gr_signal_value :: signal_value
  gr_routine_id :: u16
  gr_routine_entry :: "uds_routine option"
  gr_subfunction :: u8

record uds_counters =
  un_requests_processed :: u32
  un_positive_responses :: u32
  un_negative_responses :: u32
  un_did_reads :: u32
  un_did_writes :: u32
  un_routine_controls :: u32
  un_nrc_service_not_supported :: u32
  un_nrc_sub_function_not_supported :: u32
  un_nrc_incorrect_message_length :: u32
  un_nrc_conditions_not_correct :: u32
  un_nrc_request_out_of_range :: u32
  un_nrc_general_programming_failure :: u32
  un_governor_denials :: u32

type_synonym 'w uds_governor = "'w \<Rightarrow> uds_governor_request \<Rightarrow> uds_governor_decision \<times> 'w"

record 'w uds_server_config =
  sc_config :: "uds_config option"
  sc_did_data :: "u8 list option"
  sc_did_signal_ids :: "u32 list option"
  sc_namespace :: "codec_namespace option"
  sc_signals :: "sig_store option"
  sc_governor :: "'w uds_governor option"
  sc_governor_user_data :: 'w

record 'w uds_server =
  us_config :: "uds_config option"
  us_did_data :: "u8 list option"
  us_did_signal_ids :: "u32 list option"
  us_namespace :: "codec_namespace option"
  us_signals :: "sig_store option"
  us_governor :: "'w uds_governor option"
  us_governor_user_data :: 'w
  us_counters :: uds_counters
  us_initialized :: bool

definition zero_uds_counters :: uds_counters where
  "zero_uds_counters = \<lparr>un_requests_processed = 0, un_positive_responses = 0, un_negative_responses = 0,
     un_did_reads = 0, un_did_writes = 0, un_routine_controls = 0, un_nrc_service_not_supported = 0,
     un_nrc_sub_function_not_supported = 0, un_nrc_incorrect_message_length = 0,
     un_nrc_conditions_not_correct = 0, un_nrc_request_out_of_range = 0,
     un_nrc_general_programming_failure = 0, un_governor_denials = 0\<rparr>"

abbreviation count_uds :: "(uds_counters \<Rightarrow> uds_counters) \<Rightarrow> 'w uds_server \<Rightarrow> 'w uds_server" where
  "count_uds f s \<equiv> s\<lparr>us_counters := f (us_counters s)\<rparr>"

type_synonym 'w uds_result = "uds_status \<times> 'w uds_server \<times> u8 list \<times> nat"

subsection \<open>Responses and values\<close>

definition count_nrc :: "u8 \<Rightarrow> uds_counters \<Rightarrow> uds_counters" where
  "count_nrc nrc c =
     (if nrc = NRC_SERVICE_NOT_SUPPORTED
      then c\<lparr>un_nrc_service_not_supported := un_nrc_service_not_supported c + 1\<rparr>
      else if nrc = NRC_SUB_FUNCTION_NOT_SUPPORTED
      then c\<lparr>un_nrc_sub_function_not_supported := un_nrc_sub_function_not_supported c + 1\<rparr>
      else if nrc = NRC_INCORRECT_MESSAGE_LENGTH
      then c\<lparr>un_nrc_incorrect_message_length := un_nrc_incorrect_message_length c + 1\<rparr>
      else if nrc = NRC_CONDITIONS_NOT_CORRECT
      then c\<lparr>un_nrc_conditions_not_correct := un_nrc_conditions_not_correct c + 1\<rparr>
      else if nrc = NRC_REQUEST_OUT_OF_RANGE
      then c\<lparr>un_nrc_request_out_of_range := un_nrc_request_out_of_range c + 1\<rparr>
      else if nrc = NRC_GENERAL_PROGRAMMING_FAILURE
      then c\<lparr>un_nrc_general_programming_failure := un_nrc_general_programming_failure c + 1\<rparr>
      else c)"

definition count_negative :: "u8 \<Rightarrow> uds_counters \<Rightarrow> uds_counters" where
  "count_negative nrc c = count_nrc nrc (c\<lparr>un_negative_responses := un_negative_responses c + 1\<rparr>)"

definition uds_negative ::
    "'w uds_server \<Rightarrow> u8 \<Rightarrow> u8 \<Rightarrow> uds_status \<Rightarrow> u8 list \<Rightarrow> nat \<Rightarrow> 'w uds_result" where
  "uds_negative s sid nrc st response len =
     (if length response < 3 then (UDS_ERR_CAPACITY, s, response, len)
      else (st, count_uds (count_negative nrc) s, write_at response 0 [UDS_SID_NEGATIVE, sid, nrc], 3))"

fun uds_decode_le :: "u8 list \<Rightarrow> u64" where
  "uds_decode_le [] = 0"
| "uds_decode_le (b # bs) = push_bit 8 (uds_decode_le bs) OR ucast b"

text \<open>The bytes written to \<open>out\<close>, or \<open>None\<close> for the result \<open>false\<close>. The shift by \<open>8 * length - 1\<close>
  needs a length of at least 1.\<close>

definition uds_le_bytes :: "u64 \<Rightarrow> nat \<Rightarrow> u8 list" where
  "uds_le_bytes raw n = List.map (\<lambda>i. ucast (drop_bit (8 * i) raw AND 0xFF)) [0..<n]"

definition uds_value_raw :: "signal_value \<Rightarrow> u16 \<Rightarrow> u64 option" where
  "uds_value_raw v len =
     (let fits = (\<lambda>raw. \<not> (len < 8 \<and> raw > push_bit (8 * unat len) (1 :: u64) - 1))
      in case v of
        Value_bool b \<Rightarrow> let raw = (if b then 1 else 0) in if fits raw then Some raw else None
      | Value_uint u \<Rightarrow> if fits u then Some u else None
      | Value_int i \<Rightarrow>
          if len = 8 then Some i
          else let bound = push_bit (8 * unat len - 1) (1 :: u64)
            in if i <s - bound \<or> bound - 1 <s i then None else Some i
      | _ \<Rightarrow> None)"

definition uds_encode_value_le :: "signal_value \<Rightarrow> u16 \<Rightarrow> u8 list option" where
  "uds_encode_value_le v len = map_option (\<lambda>raw. uds_le_bytes raw (unat len)) (uds_value_raw v len)"

text \<open>\<open>None\<close> is the result \<open>false\<close>; the configuration and the ids of an initialised server are there.\<close>

definition uds_did_signal_index :: "'w uds_server \<Rightarrow> nat \<Rightarrow> u32 option" where
  "uds_did_signal_index s index =
     (if ud_signal (uc_dids (the (us_config s)) ! index) = None then None
      else Some (the (us_did_signal_ids s) ! index))"

definition uds_governor_approves :: "'w uds_server \<Rightarrow> uds_governor_request \<Rightarrow> bool \<times> 'w uds_server" where
  "uds_governor_approves s req =
     (let denied = (\<lambda>s. (False, count_uds (\<lambda>c. c\<lparr>un_governor_denials := un_governor_denials c + 1\<rparr>) s))
      in case us_governor s of
        None \<Rightarrow> denied s
      | Some g \<Rightarrow> (case g (us_governor_user_data s) req of (decision, w) \<Rightarrow>
          let s1 = s\<lparr>us_governor_user_data := w\<rparr>
          in if decision \<noteq> GOVERNOR_APPROVE then denied s1 else (True, s1)))"

subsection \<open>Lookups and lifecycle\<close>

definition config_find_did :: "uds_config option \<Rightarrow> u16 \<Rightarrow> (uds_did \<times> nat) option" where
  "config_find_did cfg did = (case cfg of None \<Rightarrow> None
     | Some c \<Rightarrow> map_option (\<lambda>i. (uc_dids c ! i, i))
         (find (\<lambda>i. ud_did (uc_dids c ! i) = did) [0..<length (uc_dids c)]))"

definition config_find_routine :: "uds_config option \<Rightarrow> u16 \<Rightarrow> (uds_routine \<times> nat) option" where
  "config_find_routine cfg routine = (case cfg of None \<Rightarrow> None
     | Some c \<Rightarrow> map_option (\<lambda>i. (uc_routines c ! i, i))
         (find (\<lambda>i. ur_routine (uc_routines c ! i) = routine) [0..<length (uc_routines c)]))"

definition zero_server :: "'w \<Rightarrow> 'w uds_server" where
  "zero_server w = \<lparr>us_config = None, us_did_data = None, us_did_signal_ids = None, us_namespace = None,
     us_signals = None, us_governor = None, us_governor_user_data = w, us_counters = zero_uds_counters,
     us_initialized = False\<rparr>"

text \<open>The first loop of \<open>cancestry_uds_server_init\<close> from DID index \<open>i\<close> on; \<open>None\<close> when a name does not
  resolve. The result holds the ids filled in. A failed initialisation leaves a zeroed server,
  whose user data pointer is null and never read; the caller's id array, which it may have
  partly filled, is not part of the result.\<close>

definition unset_resolution :: codec_resolution where
  "unset_resolution = \<lparr>rs_signal_id = 0, rs_map = None, rs_signal = None\<rparr>"

fun resolve_dids :: "codec_namespace option \<Rightarrow> uds_did list \<Rightarrow> nat \<Rightarrow> u32 list \<Rightarrow> u32 list option" where
  "resolve_dids ns [] i ids = Some ids"
| "resolve_dids ns (d # ds) i ids =
     (let ids0 = ids[i := 0]
      in case ud_signal d of
        None \<Rightarrow> resolve_dids ns ds (i + 1) ids0
      | Some name \<Rightarrow>
          if ns = None then None
          else (case namespace_resolve ns (Some name) (Some unset_resolution) of (st, r) \<Rightarrow>
            if st \<noteq> CODEC_OK then None
            else resolve_dids ns ds (i + 1) (ids0[i := rs_signal_id (the r)])))"

fun seed_defaults :: "uds_did list \<Rightarrow> u8 list \<Rightarrow> u8 list" where
  "seed_defaults [] buf = buf"
| "seed_defaults (d # ds) buf = seed_defaults ds (case ud_default_data d of None \<Rightarrow> buf
     | Some bytes \<Rightarrow> write_at buf (ud_data_offset d) (take (unat (ud_length d)) bytes))"

definition uds_server_init ::
    "'w uds_server option \<Rightarrow> 'w uds_server_config option \<Rightarrow> bool \<times> 'w uds_server option" where
  "uds_server_init server config = (case (server, config) of
       (Some s0, Some c) \<Rightarrow>
         (case sc_config c of None \<Rightarrow> (False, server)
          | Some cfg \<Rightarrow>
            if uc_dids cfg \<noteq> [] \<and> (sc_did_data c = None \<or> sc_did_signal_ids c = None) then (False, server)
            else
              let zeroed = zero_server (sc_governor_user_data c);
                  ids0 = (case sc_did_signal_ids c of None \<Rightarrow> [] | Some ids \<Rightarrow> ids)
              in case resolve_dids (sc_namespace c) (uc_dids cfg) 0 ids0 of
                None \<Rightarrow> (False, Some zeroed)
              | Some ids \<Rightarrow>
                  let seeded = (case sc_did_data c of None \<Rightarrow> None
                        | Some buf \<Rightarrow> if uc_did_data_length cfg > 0
                            then Some (seed_defaults (uc_dids cfg)
                              (write_at buf 0 (replicate (uc_did_data_length cfg) 0)))
                            else Some buf)
                  in (True, Some (zeroed\<lparr>us_config := Some cfg, us_did_data := seeded,
                       us_did_signal_ids := (if sc_did_signal_ids c = None then None else Some ids),
                       us_namespace := sc_namespace c, us_signals := sc_signals c,
                       us_governor := sc_governor c, us_initialized := True\<rparr>)))
     | _ \<Rightarrow> (False, server))"

definition uds_server_is_valid :: "'w uds_server option \<Rightarrow> bool" where
  "uds_server_is_valid server = (case server of None \<Rightarrow> False | Some s \<Rightarrow> us_initialized s)"

definition uds_server_counters :: "'w uds_server option \<Rightarrow> uds_counters option" where
  "uds_server_counters server = (case server of None \<Rightarrow> None
     | Some s \<Rightarrow> if \<not> us_initialized s then None else Some (us_counters s))"

subsection \<open>Services\<close>

definition be16 :: "u8 \<Rightarrow> u8 \<Rightarrow> u16" where
  "be16 hi lo = push_bit 8 (ucast hi) OR ucast lo"

definition did_bytes :: "u16 \<Rightarrow> u8 list" where
  "did_bytes did = [ucast (drop_bit 8 did), ucast (did AND 0xFF)]"

text \<open>What a signal-mapped DID reads from the signal store: \<open>Inl ()\<close> when the value cannot be
  encoded, \<open>Inr None\<close> when the stored bytes are served.\<close>

definition rdbi_signal_bytes :: "'w uds_server \<Rightarrow> uds_did \<Rightarrow> nat \<Rightarrow> unit + u8 list option" where
  "rdbi_signal_bytes s entry index =
     (if ud_signal entry = None then Inr None
      else if ud_length entry > UDS_DID_SIGNAL_LENGTH_MAX then Inl ()
      else if us_signals s = None then Inr None
      else case signal_store_get (us_signals s) (the (us_did_signal_ids s) ! index) (Some Value_unset) of
        (st, v) \<Rightarrow>
          if st \<noteq> RECIPE_OK then Inr None
          else (case uds_encode_value_le (the v) (ud_length entry) of
            None \<Rightarrow> Inl () | Some bytes \<Rightarrow> Inr (Some bytes)))"

definition uds_rdbi :: "'w uds_server \<Rightarrow> u8 list \<Rightarrow> u8 list \<Rightarrow> nat \<Rightarrow> 'w uds_result" where
  "uds_rdbi s request response len =
     (if length request \<noteq> 3
      then uds_negative s UDS_SID_RDBI NRC_INCORRECT_MESSAGE_LENGTH UDS_ERR_LENGTH response len
      else
        let did = be16 (request ! 1) (request ! 2)
        in case config_find_did (us_config s) did of
          None \<Rightarrow> uds_negative s UDS_SID_RDBI NRC_REQUEST_OUT_OF_RANGE UDS_ERR_NOT_FOUND response len
        | Some (entry, index) \<Rightarrow>
            let n = unat (ud_length entry)
            in if length response < n + 3 then (UDS_ERR_CAPACITY, s, response, len)
               else (case rdbi_signal_bytes s entry index of
                 Inl _ \<Rightarrow> uds_negative s UDS_SID_RDBI NRC_CONDITIONS_NOT_CORRECT UDS_ERR_DENIED response len
               | Inr encoded \<Rightarrow>
                   let bytes = (case encoded of Some b \<Rightarrow> b
                         | None \<Rightarrow> take n (drop (ud_data_offset entry) (the (us_did_data s))))
                   in (UDS_OK,
                       count_uds (\<lambda>c. c\<lparr>un_did_reads := un_did_reads c + 1,
                         un_positive_responses := un_positive_responses c + 1\<rparr>) s,
                       write_at (write_at response 0 ([UDS_SID_RDBI + UDS_SID_POSITIVE_OFFSET] @ did_bytes did)) 3 bytes,
                       n + 3)))"

definition wdbi_request :: "'w uds_server \<Rightarrow> u16 \<Rightarrow> uds_did \<Rightarrow> nat \<Rightarrow> u8 list \<Rightarrow> uds_governor_request" where
  "wdbi_request s did entry index data =
     (let sig = uds_did_signal_index s index
      in \<lparr>gr_kind = GOVERNOR_WRITE_DID, gr_did = did, gr_did_entry = Some entry, gr_data = Some data,
          gr_data_length = unat (ud_length entry), gr_has_signal = (sig \<noteq> None),
          gr_signal_name = (if sig = None then None else ud_signal entry),
          gr_signal_id = (case sig of None \<Rightarrow> 0 | Some i \<Rightarrow> i),
          gr_signal_value = (if sig = None then Value_unset else Value_uint (uds_decode_le data)),
          gr_routine_id = 0, gr_routine_entry = None, gr_subfunction = 0\<rparr>)"

text \<open>The mirror of an approved write: \<open>None\<close> when the signal store refuses it.\<close>

definition wdbi_mirror :: "'w uds_server \<Rightarrow> uds_governor_request \<Rightarrow> 'w uds_server option" where
  "wdbi_mirror s req =
     (if gr_has_signal req \<and> us_signals s \<noteq> None
      then (case signal_store_set (us_signals s) (gr_signal_id req) (Some (gr_signal_value req)) of
        (st, t) \<Rightarrow> if st \<noteq> RECIPE_OK then None else Some (s\<lparr>us_signals := t\<rparr>))
      else Some s)"

definition uds_wdbi :: "'w uds_server \<Rightarrow> u8 list \<Rightarrow> u8 list \<Rightarrow> nat \<Rightarrow> 'w uds_result" where
  "uds_wdbi s request response len =
     (if length request < 3
      then uds_negative s UDS_SID_WDBI NRC_INCORRECT_MESSAGE_LENGTH UDS_ERR_LENGTH response len
      else
        let did = be16 (request ! 1) (request ! 2)
        in case config_find_did (us_config s) did of
          None \<Rightarrow> uds_negative s UDS_SID_WDBI NRC_REQUEST_OUT_OF_RANGE UDS_ERR_NOT_FOUND response len
        | Some (entry, index) \<Rightarrow>
            if length request \<noteq> unat (ud_length entry) + 3
            then uds_negative s UDS_SID_WDBI NRC_INCORRECT_MESSAGE_LENGTH UDS_ERR_LENGTH response len
            else if length response < 3 then (UDS_ERR_CAPACITY, s, response, len)
            else
              let data = drop 3 request; req = wdbi_request s did entry index data
              in if gr_has_signal req \<and> ud_length entry > UDS_DID_SIGNAL_LENGTH_MAX
                 then uds_negative s UDS_SID_WDBI NRC_CONDITIONS_NOT_CORRECT UDS_ERR_DENIED response len
                 else (case uds_governor_approves s req of (approved, s1) \<Rightarrow>
                   if \<not> approved
                   then uds_negative s1 UDS_SID_WDBI NRC_CONDITIONS_NOT_CORRECT UDS_ERR_DENIED response len
                   else (case wdbi_mirror s1 req of
                     None \<Rightarrow> uds_negative s1 UDS_SID_WDBI NRC_GENERAL_PROGRAMMING_FAILURE UDS_ERR_PROGRAMMING response len
                   | Some s2 \<Rightarrow>
                       let s3 = s2\<lparr>us_did_data := Some (write_at (the (us_did_data s2)) (ud_data_offset entry) data)\<rparr>
                       in (UDS_OK,
                           count_uds (\<lambda>c. c\<lparr>un_did_writes := un_did_writes c + 1,
                             un_positive_responses := un_positive_responses c + 1\<rparr>) s3,
                           write_at response 0 ([UDS_SID_WDBI + UDS_SID_POSITIVE_OFFSET] @ did_bytes did), 3))))"

definition routine_op :: "uds_routine \<Rightarrow> u8 \<Rightarrow> uds_routine_op" where
  "routine_op entry subfunction =
     (if subfunction = UDS_RC_START then ur_start entry
      else if subfunction = UDS_RC_STOP then ur_stop entry else ur_results entry)"

definition routine_request :: "u16 \<Rightarrow> uds_routine \<Rightarrow> u8 \<Rightarrow> uds_governor_request" where
  "routine_request routine entry subfunction =
     \<lparr>gr_kind = GOVERNOR_RUN_ROUTINE, gr_did = 0, gr_did_entry = None, gr_data = None, gr_data_length = 0,
      gr_has_signal = False, gr_signal_name = None, gr_signal_id = 0, gr_signal_value = Value_unset,
      gr_routine_id = routine, gr_routine_entry = Some entry, gr_subfunction = subfunction\<rparr>"

definition uds_routine_control :: "'w uds_server \<Rightarrow> u8 list \<Rightarrow> u8 list \<Rightarrow> nat \<Rightarrow> 'w uds_result" where
  "uds_routine_control s request response len =
     (if length request \<noteq> 4
      then uds_negative s UDS_SID_ROUTINE_CONTROL NRC_INCORRECT_MESSAGE_LENGTH UDS_ERR_LENGTH response len
      else
        let subfunction = request ! 1; routine = be16 (request ! 2) (request ! 3)
        in if subfunction \<noteq> UDS_RC_START \<and> subfunction \<noteq> UDS_RC_STOP \<and> subfunction \<noteq> UDS_RC_RESULTS
           then uds_negative s UDS_SID_ROUTINE_CONTROL NRC_SUB_FUNCTION_NOT_SUPPORTED UDS_ERR_UNSUPPORTED response len
           else case config_find_routine (us_config s) routine of
             None \<Rightarrow> uds_negative s UDS_SID_ROUTINE_CONTROL NRC_REQUEST_OUT_OF_RANGE UDS_ERR_NOT_FOUND response len
           | Some (entry, _) \<Rightarrow>
               let op1 = routine_op entry subfunction; n = unat (uo_response_length op1)
               in if \<not> uo_declared op1 \<or> \<not> uo_allowed op1
                  then uds_negative s UDS_SID_ROUTINE_CONTROL NRC_SUB_FUNCTION_NOT_SUPPORTED UDS_ERR_UNSUPPORTED response len
                  else if length response < n + 4 then (UDS_ERR_CAPACITY, s, response, len)
                  else (case uds_governor_approves s (routine_request routine entry subfunction) of (approved, s1) \<Rightarrow>
                    if \<not> approved
                    then uds_negative s1 UDS_SID_ROUTINE_CONTROL NRC_CONDITIONS_NOT_CORRECT UDS_ERR_DENIED response len
                    else
                      let r1 = write_at response 0
                            ([UDS_SID_ROUTINE_CONTROL + UDS_SID_POSITIVE_OFFSET, subfunction] @ did_bytes routine);
                          r2 = (case uo_response op1 of
                              Some bytes \<Rightarrow> if uo_response_length op1 > 0 then write_at r1 4 (take n bytes) else r1
                            | None \<Rightarrow> r1)
                      in (UDS_OK,
                          count_uds (\<lambda>c. c\<lparr>un_routine_controls := un_routine_controls c + 1,
                            un_positive_responses := un_positive_responses c + 1\<rparr>) s1,
                          r2, n + 4)))"

text \<open>The dispatcher behind its pointer checks, and the entry points with them.\<close>

definition uds_dispatch :: "'w uds_server \<Rightarrow> u8 list \<Rightarrow> u8 list \<Rightarrow> nat \<Rightarrow> 'w uds_result" where
  "uds_dispatch s0 request response len =
     (let s = count_uds (\<lambda>c. c\<lparr>un_requests_processed := un_requests_processed c + 1\<rparr>) s0
      in if request = []
         then uds_negative s 0 NRC_SERVICE_NOT_SUPPORTED UDS_ERR_UNSUPPORTED response len
         else
           let sid = request ! 0
           in if sid = UDS_SID_RDBI then uds_rdbi s request response len
              else if sid = UDS_SID_WDBI then uds_wdbi s request response len
              else if sid = UDS_SID_ROUTINE_CONTROL then uds_routine_control s request response len
              else uds_negative s sid NRC_SERVICE_NOT_SUPPORTED UDS_ERR_UNSUPPORTED response len)"

definition uds_entry :: "('w uds_server \<Rightarrow> u8 list \<Rightarrow> u8 list \<Rightarrow> nat \<Rightarrow> 'w uds_result)
    \<Rightarrow> 'w uds_server option \<Rightarrow> u8 list option \<Rightarrow> u8 list option \<Rightarrow> nat option
    \<Rightarrow> uds_status \<times> 'w uds_server option \<times> u8 list option \<times> nat option" where
  "uds_entry service server request response len =
     (if server = None \<or> \<not> us_initialized (the server) then (UDS_ERR_NULL, server, response, len)
      else if request = None \<or> response = None \<or> len = None then (UDS_ERR_NULL, server, response, len)
      else case service (the server) (the request) (the response) (the len) of
        (st, s, r, n) \<Rightarrow> (st, Some s, Some r, Some n))"

definition uds_read_data_by_identifier where "uds_read_data_by_identifier = uds_entry uds_rdbi"
definition uds_write_data_by_identifier where "uds_write_data_by_identifier = uds_entry uds_wdbi"
definition uds_routine_control_service where "uds_routine_control_service = uds_entry uds_routine_control"
definition uds_server_process where "uds_server_process = uds_entry uds_dispatch"

end
