(* ===== verification/Uds_Properties.thy ===== *)
theory Uds_Properties
  imports Uds
begin

text \<open>
  Properties of the UDS server: every request is answered with the response its status names, no
  effect happens without the governor's approval, what was written is what is read.
\<close>

subsection \<open>Bytes\<close>

lemma bit_uds_decode_le:
  assumes "length data \<le> 8"
  shows "bit (uds_decode_le data) k \<longleftrightarrow> k div 8 < length data \<and> bit (data ! (k div 8)) (k mod 8)"
  using assms
proof (induction data arbitrary: k)
  case (Cons b bs)
  have ub: "bit (ucast b :: u64) k \<longleftrightarrow> k < 8 \<and> bit b k"
    using bit_imp_le_length [of b k] by (auto simp: bit_ucast_iff)
  show ?case
  proof (cases "k < 8")
    case True
    then show ?thesis using ub by (auto simp: bit_or_iff bit_push_bit_iff)
  next
    case False
    then have k: "k div 8 = Suc ((k - 8) div 8)" "k mod 8 = (k - 8) mod 8" "k = (k - 8) + 8"
      by (simp_all add: le_div_geq le_mod_geq)
    have "bit (uds_decode_le bs) (k - 8) \<Longrightarrow> k < 64"
      using Cons.IH [of "k - 8"] Cons.prems by (auto simp: div_less_iff_less_mult)
    then have "bit (push_bit 8 (uds_decode_le bs) OR ucast b) k \<longleftrightarrow> bit (uds_decode_le bs) (k - 8)"
      using False ub by (auto simp: bit_or_iff bit_push_bit_iff)
    then show ?thesis using Cons.IH [of "k - 8"] Cons.prems unfolding k(1,2) by simp
  qed
qed simp

lemma uds_le_round_trip:
  assumes "length data \<le> 8"
  shows "uds_le_bytes (uds_decode_le data) (length data) = data"
proof (rule nth_equalityI)
  fix i
  assume "i < length (uds_le_bytes (uds_decode_le data) (length data))"
  then have i: "i < length data" by (simp add: uds_le_bytes_def)
  show "uds_le_bytes (uds_decode_le data) (length data) ! i = data ! i"
  proof (rule bit_word_eqI)
    fix k
    assume k: "k < LENGTH(8)"
    have ff: "bit (0xFF :: u64) k"
    proof -
      have "(0xFF :: u64) = mask 8" by (simp add: mask_eq_exp_minus_1)
      then show ?thesis using k by (simp only: bit_mask_iff) simp
    qed
    have "bit (uds_le_bytes (uds_decode_le data) (length data) ! i) k \<longleftrightarrow> bit (uds_decode_le data) (8 * i + k)"
      using i k ff by (simp add: uds_le_bytes_def bit_ucast_iff bit_and_iff bit_drop_bit_eq)
    also have "\<dots> \<longleftrightarrow> bit (data ! i) k"
      using bit_uds_decode_le [OF assms, of "8 * i + k"] i k by simp
    finally show "bit (uds_le_bytes (uds_decode_le data) (length data) ! i) k = bit (data ! i) k" .
  qed
qed (simp add: uds_le_bytes_def)

lemma uds_decode_le_less:
  assumes "length data < 8"
  shows "\<not> uds_decode_le data > push_bit (8 * length data) 1 - 1"
proof -
  have "take_bit (8 * length data) (uds_decode_le data) = uds_decode_le data"
    by (rule bit_word_eqI) (use assms in \<open>auto simp: bit_take_bit_iff bit_uds_decode_le div_less_iff_less_mult\<close>)
  then have "take_bit (8 * length data) (uint (uds_decode_le data)) = uint (uds_decode_le data)"
    by (metis unsigned_take_bit_eq)
  then have "uint (uds_decode_le data) < 2 ^ (8 * length data)" by (metis take_bit_int_less_exp)
  then show ?thesis using uint_push_one(2) [of "8 * length data"] assms by (simp add: word_less_def)
qed

text \<open>Writing bytes into a mapped signal and reading it back gives the bytes.\<close>

lemma uds_encode_decode:
  assumes "length data = unat len" and "len \<le> UDS_DID_SIGNAL_LENGTH_MAX"
  shows "uds_encode_value_le (Value_uint (uds_decode_le data)) len = Some data"
proof -
  have l: "length data \<le> 8" using assms by (simp add: UDS_DID_SIGNAL_LENGTH_MAX_def word_le_nat_alt)
  have "\<not> (len < 8 \<and> uds_decode_le data > push_bit (8 * unat len) 1 - 1)"
    using uds_decode_le_less [of data] assms(1) by (auto simp: word_less_nat_alt)
  then show ?thesis
    using uds_le_round_trip [OF l] assms(1) by (simp add: uds_encode_value_le_def uds_value_raw_def Let_def)
qed

lemma did_bytes_be16: "did_bytes (be16 hi lo) = [hi, lo]"
proof -
  have "ucast (drop_bit 8 (be16 hi lo)) = hi"
    by (rule bit_word_eqI)
      (auto simp: be16_def bit_ucast_iff bit_drop_bit_eq bit_or_iff bit_push_bit_iff dest: bit_imp_le_length)
  moreover have "ucast (be16 hi lo AND 0xFF) = lo"
  proof (rule bit_word_eqI)
    fix k
    assume k: "k < LENGTH(8)"
    have "(0xFF :: u16) = mask 8" by (simp add: mask_eq_exp_minus_1)
    then have "bit (0xFF :: u16) k" using k by (simp only: bit_mask_iff) simp
    then show "bit (ucast (be16 hi lo AND 0xFF) :: u8) k = bit lo k"
      using k by (auto simp: be16_def bit_ucast_iff bit_or_iff bit_and_iff bit_push_bit_iff)
  qed
  ultimately show ?thesis by (simp add: did_bytes_def)
qed

subsection \<open>Servers\<close>

text \<open>What the loader and the initialisation guarantee: the slots lie in the data store and do not
  overlap, mapped slots hold 1 to 8 bytes, the static records are as long as they say.\<close>

definition did_ok :: "nat \<Rightarrow> uds_did \<Rightarrow> bool" where
  "did_ok cap d \<longleftrightarrow> ud_data_offset d + unat (ud_length d) \<le> cap \<and>
     (ud_signal d \<noteq> None \<longrightarrow> ud_length d \<le> UDS_DID_SIGNAL_LENGTH_MAX)"

definition op_ok :: "uds_routine_op \<Rightarrow> bool" where
  "op_ok op1 \<longleftrightarrow> (case uo_response op1 of None \<Rightarrow> True | Some bytes \<Rightarrow> unat (uo_response_length op1) \<le> length bytes)"

definition server_ok :: "'w uds_server \<Rightarrow> bool" where
  "server_ok s \<longleftrightarrow> us_initialized s \<and> (\<exists>cfg. us_config s = Some cfg \<and>
     (\<forall>r \<in> set (uc_routines cfg). op_ok (ur_start r) \<and> op_ok (ur_stop r) \<and> op_ok (ur_results r)) \<and>
     (uc_dids cfg \<noteq> [] \<longrightarrow> (\<exists>buf ids. us_did_data s = Some buf \<and> us_did_signal_ids s = Some ids \<and>
        length ids = length (uc_dids cfg) \<and> (\<forall>d \<in> set (uc_dids cfg). did_ok (length buf) d)))) \<and>
     (\<forall>st. us_signals s = Some st \<longrightarrow> store_ok st)"

definition nrc_matches :: "uds_status \<Rightarrow> u8 \<Rightarrow> bool" where
  "nrc_matches st nrc \<longleftrightarrow> (st = UDS_ERR_LENGTH \<and> nrc = NRC_INCORRECT_MESSAGE_LENGTH)
     \<or> (st = UDS_ERR_NOT_FOUND \<and> nrc = NRC_REQUEST_OUT_OF_RANGE)
     \<or> (st = UDS_ERR_DENIED \<and> nrc = NRC_CONDITIONS_NOT_CORRECT)
     \<or> (st = UDS_ERR_PROGRAMMING \<and> nrc = NRC_GENERAL_PROGRAMMING_FAILURE)
     \<or> (st = UDS_ERR_UNSUPPORTED \<and> (nrc = NRC_SERVICE_NOT_SUPPORTED \<or> nrc = NRC_SUB_FUNCTION_NOT_SUPPORTED))"

text \<open>The answer to a request with service id \<open>sid\<close>: positive, negative with the code of the status,
  or nothing written when the buffer is too small.\<close>

definition answered :: "u8 \<Rightarrow> u8 list \<Rightarrow> nat \<Rightarrow> 'w uds_result \<Rightarrow> bool" where
  "answered sid response len res = (case res of (st, s, r, n) \<Rightarrow>
     server_ok s \<and> length r = length response \<and>
     (if st = UDS_OK then 3 \<le> n \<and> n \<le> length r \<and> r ! 0 = sid + UDS_SID_POSITIVE_OFFSET
      else if st = UDS_ERR_CAPACITY then r = response \<and> n = len
      else n = 3 \<and> 3 \<le> length r \<and> r ! 0 = UDS_SID_NEGATIVE \<and> r ! 1 = sid \<and> nrc_matches st (r ! 2)))"

lemma server_ok_cong:
  assumes "us_initialized t = us_initialized s" "us_config t = us_config s" "us_did_data t = us_did_data s"
    "us_did_signal_ids t = us_did_signal_ids s" "us_signals t = us_signals s"
  shows "server_ok t = server_ok s"
  using assms by (simp add: server_ok_def)

lemma server_ok_count [simp]: "server_ok (s\<lparr>us_counters := c\<rparr>) = server_ok s"
  by (rule server_ok_cong) simp_all

lemma negative_answered:
  assumes "server_ok s" and "nrc_matches st nrc"
  shows "answered sid response len (uds_negative s sid nrc st response len)"
proof -
  have "st \<noteq> UDS_OK" "st \<noteq> UDS_ERR_CAPACITY" using assms(2) by (auto simp: nrc_matches_def)
  then show ?thesis
    using assms by (auto simp: answered_def uds_negative_def write_at_def nth_append)
qed

lemma approves_fields:
  assumes "uds_governor_approves s req = (approved, t)"
  shows "us_config t = us_config s" "us_did_data t = us_did_data s" "us_did_signal_ids t = us_did_signal_ids s"
    "us_signals t = us_signals s" "us_initialized t = us_initialized s" "us_governor t = us_governor s"
    and "approved \<longleftrightarrow> (\<exists>g. us_governor s = Some g \<and> fst (g (us_governor_user_data s) req) = GOVERNOR_APPROVE)"
  using assms by (auto simp: uds_governor_approves_def Let_def split: option.splits prod.splits if_splits)

lemma approves_ok:
  assumes "uds_governor_approves s req = (approved, t)"
  shows "server_ok t = server_ok s"
  by (rule server_ok_cong) (use approves_fields [OF assms] in simp_all)

lemma find_did_some:
  assumes "config_find_did (us_config s) did = Some (entry, index)" and "server_ok s"
  obtains cfg buf ids where "us_config s = Some cfg" "index < length (uc_dids cfg)" "entry = uc_dids cfg ! index"
    "us_did_data s = Some buf" "us_did_signal_ids s = Some ids" "length ids = length (uc_dids cfg)"
    "did_ok (length buf) entry" "ud_did entry = did"
proof -
  from assms(1) obtain cfg where c: "us_config s = Some cfg" "entry = uc_dids cfg ! index"
    "find (\<lambda>i. ud_did (uc_dids cfg ! i) = did) [0..<length (uc_dids cfg)] = Some index"
    by (auto simp: config_find_did_def split: option.splits)
  have i: "index < length (uc_dids cfg)" "ud_did entry = did" using find_Some_mem [OF c(3)] c(2) by simp_all
  then obtain buf ids where "us_did_data s = Some buf" "us_did_signal_ids s = Some ids"
    "length ids = length (uc_dids cfg)" "\<forall>d \<in> set (uc_dids cfg). did_ok (length buf) d"
    using assms(2) c(1) by (auto simp: server_ok_def)
  then show thesis using that c i by simp
qed

lemma slot_bytes_length:
  assumes "did_ok (length buf) entry"
  shows "length (take (unat (ud_length entry)) (drop (ud_data_offset entry) buf)) = unat (ud_length entry)"
  using assms by (auto simp: did_ok_def)

lemma rdbi_signal_bytes_length:
  assumes "rdbi_signal_bytes s entry index = Inr (Some bytes)"
  shows "length bytes = unat (ud_length entry)"
  using assms by (auto simp: rdbi_signal_bytes_def uds_encode_value_le_def uds_le_bytes_def
      split: if_splits prod.splits option.splits)

lemma answered_positive:
  assumes "server_ok s" and "bytes = (sid + UDS_SID_POSITIVE_OFFSET) # rest" and "length bytes = m"
    and "m + length tail \<le> length response" and "n = m + length tail" and "3 \<le> m"
  shows "answered sid response len (UDS_OK, s, write_at (write_at response 0 bytes) m tail, n)"
  using assms by (auto simp: answered_def write_at_def nth_append)

lemma rdbi_answered:
  assumes "server_ok s"
  shows "answered UDS_SID_RDBI response len (uds_rdbi s request response len)"
proof (cases "length request = 3")
  case False
  then show ?thesis
    using negative_answered [OF assms] by (simp add: uds_rdbi_def nrc_matches_def)
next
  case True
  define did where "did = be16 (request ! 1) (request ! 2)"
  show ?thesis
  proof (cases "config_find_did (us_config s) did")
    case None
    then show ?thesis using True negative_answered [OF assms]
      by (simp add: uds_rdbi_def nrc_matches_def Let_def did_def)
  next
    case (Some p)
    obtain entry index where p: "p = (entry, index)" by (cases p)
    define n where "n = unat (ud_length entry)"
    from find_did_some [OF Some [unfolded p] assms] obtain buf where
      b: "us_did_data s = Some buf" "did_ok (length buf) entry" by metis
    show ?thesis
    proof (cases "length response < n + 3 \<or> (\<exists>u. rdbi_signal_bytes s entry index = Inl u)")
      case False
      then obtain enc where enc: "rdbi_signal_bytes s entry index = Inr enc"
        by (cases "rdbi_signal_bytes s entry index") auto
      define bytes where "bytes = (case enc of Some b \<Rightarrow> b
          | None \<Rightarrow> take n (drop (ud_data_offset entry) (the (us_did_data s))))"
      have "length bytes = n"
        using slot_bytes_length [OF b(2)] b(1) rdbi_signal_bytes_length enc
        by (auto simp: bytes_def n_def split: option.split)
      then have "answered UDS_SID_RDBI response len (UDS_OK,
          count_uds (\<lambda>c. c\<lparr>un_did_reads := un_did_reads c + 1, un_positive_responses := un_positive_responses c + 1\<rparr>) s,
          write_at (write_at response 0 ([UDS_SID_RDBI + UDS_SID_POSITIVE_OFFSET] @ did_bytes did)) 3 bytes, n + 3)"
        using False assms by (intro answered_positive [where rest = "did_bytes did"]) (simp_all add: did_bytes_def)
      then show ?thesis
        using True Some False enc
        by (cases enc) (simp_all add: uds_rdbi_def Let_def did_def p n_def bytes_def)
    next
      case stop: True
      show ?thesis
      proof (cases "length response < n + 3")
        case True
        then show ?thesis using \<open>length request = 3\<close> Some assms
          by (simp add: uds_rdbi_def Let_def did_def p n_def answered_def)
      next
        case False
        then have "uds_rdbi s request response len =
            uds_negative s UDS_SID_RDBI NRC_CONDITIONS_NOT_CORRECT UDS_ERR_DENIED response len"
          using \<open>length request = 3\<close> Some stop by (auto simp: uds_rdbi_def Let_def did_def p n_def)
        then show ?thesis using negative_answered [OF assms] by (simp add: nrc_matches_def)
      qed
    qed
  qed
qed

lemma mirror_ok:
  assumes "wdbi_mirror s req = Some t" and "server_ok s"
  shows "server_ok t" and "us_did_data t = us_did_data s" and "us_config t = us_config s"
    and "us_did_signal_ids t = us_did_signal_ids s"
proof -
  have "server_ok t \<and> us_did_data t = us_did_data s \<and> us_config t = us_config s \<and>
      us_did_signal_ids t = us_did_signal_ids s"
  proof (cases "gr_has_signal req \<and> us_signals s \<noteq> None")
    case True
    then obtain st0 where st0: "us_signals s = Some st0" by auto
    have ok: "store_ok st0" using assms(2) st0 by (simp add: server_ok_def)
    obtain st1 where set: "signal_store_set (Some st0) (gr_signal_id req) (Some (gr_signal_value req)) = (RECIPE_OK, st1)"
      and t: "t = s\<lparr>us_signals := st1\<rparr>"
      using assms(1) True st0 by (auto simp: wdbi_mirror_def split: prod.splits if_splits)
    have "\<exists>x. st1 = Some x"
      using set by (auto simp: signal_store_set_def Let_def split: if_splits option.splits)
    then obtain x where x: "st1 = Some x" ..
    then have "store_update st0 (gr_signal_id req) (gr_signal_value req) = Some x"
      using set by (simp add: store_update_def)
    then have "store_ok x" by (rule store_lookup_after(1) [OF ok])
    then show ?thesis using assms(2) x by (simp add: t server_ok_def)
  next
    case False
    then have "t = s" using assms(1) by (auto simp: wdbi_mirror_def split: if_splits)
    then show ?thesis using assms(2) by simp
  qed
  then show "server_ok t" and "us_did_data t = us_did_data s" and "us_config t = us_config s"
    and "us_did_signal_ids t = us_did_signal_ids s" by blast+
qed

lemma store_bytes_ok:
  assumes "server_ok s" and "us_did_data s = Some buf" and "length buf' = length buf"
  shows "server_ok (s\<lparr>us_did_data := Some buf'\<rparr>)"
  using assms by (auto simp: server_ok_def)

lemma positive_short:
  assumes "server_ok s" and "3 \<le> length response"
  shows "answered sid response len (UDS_OK, s, write_at response 0 ([sid + UDS_SID_POSITIVE_OFFSET] @ did_bytes did), 3)"
  using assms by (simp add: answered_def write_at_def did_bytes_def)

lemma wdbi_answered:
  assumes "server_ok s"
  shows "answered UDS_SID_WDBI response len (uds_wdbi s request response len)"
proof (cases "3 \<le> length request")
  case False
  then show ?thesis using negative_answered [OF assms] by (simp add: uds_wdbi_def nrc_matches_def)
next
  case True
  define did where "did = be16 (request ! 1) (request ! 2)"
  show ?thesis
  proof (cases "config_find_did (us_config s) did")
    case None
    then show ?thesis using True negative_answered [OF assms]
      by (simp add: uds_wdbi_def nrc_matches_def Let_def did_def)
  next
    case (Some p)
    obtain entry index where p: "p = (entry, index)" by (cases p)
    define req where "req = wdbi_request s did entry index (drop 3 request)"
    from find_did_some [OF Some [unfolded p] assms] obtain buf where
      b: "us_did_data s = Some buf" "did_ok (length buf) entry" by metis
    note step = uds_wdbi_def Let_def did_def p req_def
    show ?thesis
    proof (cases "length request \<noteq> unat (ud_length entry) + 3 \<or> length response < 3 \<or>
        gr_has_signal req \<and> ud_length entry > UDS_DID_SIGNAL_LENGTH_MAX")
      case True
      then show ?thesis using \<open>3 \<le> length request\<close> Some negative_answered [OF assms] assms
        by (auto simp: step answered_def nrc_matches_def)
    next
      case False
      obtain approved s1 where a: "uds_governor_approves s req = (approved, s1)" by fastforce
      have s1: "server_ok s1" using approves_ok [OF a] assms by simp
      show ?thesis
      proof (cases "approved \<and> wdbi_mirror s1 req \<noteq> None")
        case True
        then obtain s2 where m: "wdbi_mirror s1 req = Some s2" by auto
        note mo = mirror_ok [OF m s1]
        have b2: "us_did_data s2 = Some buf" using mo(2) approves_fields(2) [OF a] b(1) by simp
        have "ud_data_offset entry + length (drop 3 request) \<le> length buf"
          using b(2) False by (simp add: did_ok_def)
        then have "server_ok (s2\<lparr>us_did_data := Some (write_at buf (ud_data_offset entry) (drop 3 request))\<rparr>)"
          by (intro store_bytes_ok [OF mo(1) b2] length_write_at)
        then have ok3: "server_ok (s2\<lparr>us_did_data := Some (write_at buf (ud_data_offset entry) (drop 3 request)), us_counters := c\<rparr>)" for c
          by simp
        have "uds_wdbi s request response len = (UDS_OK,
            s2\<lparr>us_did_data := Some (write_at buf (ud_data_offset entry) (drop 3 request)),
              us_counters := us_counters s2\<lparr>un_did_writes := un_did_writes (us_counters s2) + 1,
                un_positive_responses := un_positive_responses (us_counters s2) + 1\<rparr>\<rparr>,
            write_at response 0 ([UDS_SID_WDBI + UDS_SID_POSITIVE_OFFSET] @ did_bytes did), 3)"
          using \<open>3 \<le> length request\<close> Some False a m True b2 by (auto simp: step)
        then show ?thesis using positive_short [OF ok3] False by simp
      next
        case nope: False
        then show ?thesis
          using \<open>3 \<le> length request\<close> Some False a negative_answered [OF s1]
          by (cases approved) (auto simp: step nrc_matches_def)
      qed
    qed
  qed
qed

lemma find_routine_ops:
  assumes "config_find_routine (us_config s) rid = Some (entry, index)" and "server_ok s"
  shows "op_ok (routine_op entry sub)"
proof -
  from assms(1) obtain cfg where c: "us_config s = Some cfg" "entry = uc_routines cfg ! index"
    "find (\<lambda>i. ur_routine (uc_routines cfg ! i) = rid) [0..<length (uc_routines cfg)] = Some index"
    by (auto simp: config_find_routine_def split: option.splits)
  then have "entry \<in> set (uc_routines cfg)" using find_Some_mem [OF c(3)] by simp
  then show ?thesis using assms(2) c(1) by (auto simp: server_ok_def routine_op_def)
qed

lemma routine_answered:
  assumes "server_ok s"
  shows "answered UDS_SID_ROUTINE_CONTROL response len (uds_routine_control s request response len)"
proof -
  define sub where "sub = request ! 1"
  define rid where "rid = be16 (request ! 2) (request ! 3)"
  note step = uds_routine_control_def Let_def sub_def rid_def
  show ?thesis
  proof (cases "length request \<noteq> 4 \<or> sub \<noteq> UDS_RC_START \<and> sub \<noteq> UDS_RC_STOP \<and> sub \<noteq> UDS_RC_RESULTS
      \<or> config_find_routine (us_config s) rid = None")
    case True
    then show ?thesis using negative_answered [OF assms] by (auto simp: step nrc_matches_def)
  next
    case False
    then obtain entry index where e: "config_find_routine (us_config s) rid = Some (entry, index)" by auto
    define op1 where "op1 = routine_op entry sub"
    define n where "n = unat (uo_response_length op1)"
    have opok: "op_ok op1" unfolding op1_def by (rule find_routine_ops [OF e assms])
    show ?thesis
    proof (cases "\<not> uo_declared op1 \<or> \<not> uo_allowed op1 \<or> length response < n + 4")
      case True
      then show ?thesis using False e negative_answered [OF assms] assms
        by (auto simp: step op1_def n_def nrc_matches_def answered_def)
    next
      case ready: False
      obtain approved s1 where a: "uds_governor_approves s (routine_request rid entry sub) = (approved, s1)" by fastforce
      have s1: "server_ok s1" using approves_ok [OF a] assms by simp
      show ?thesis
      proof (cases approved)
        case True
        define r1 where "r1 = write_at response 0
          ([UDS_SID_ROUTINE_CONTROL + UDS_SID_POSITIVE_OFFSET, sub] @ did_bytes rid)"
        have r1: "length r1 = length response" "r1 ! 0 = UDS_SID_ROUTINE_CONTROL + UDS_SID_POSITIVE_OFFSET"
          using ready length_write_at [of 0 "[UDS_SID_ROUTINE_CONTROL + UDS_SID_POSITIVE_OFFSET, sub] @ did_bytes rid" response]
          by (simp_all add: r1_def did_bytes_def write_at_def)
        define r2 where "r2 = (case uo_response op1 of
            Some bytes \<Rightarrow> if uo_response_length op1 > 0 then write_at r1 4 (take n bytes) else r1 | None \<Rightarrow> r1)"
        have r2: "length r2 = length response" "r2 ! 0 = UDS_SID_ROUTINE_CONTROL + UDS_SID_POSITIVE_OFFSET"
          using ready r1 opok
          by (auto simp: r2_def op_ok_def n_def write_at_def nth_append split: option.splits)
        have "uds_routine_control s request response len = (UDS_OK,
            s1\<lparr>us_counters := us_counters s1\<lparr>un_routine_controls := un_routine_controls (us_counters s1) + 1,
              un_positive_responses := un_positive_responses (us_counters s1) + 1\<rparr>\<rparr>, r2, n + 4)"
          using False e ready a True by (cases "uo_response op1") (auto simp: step op1_def n_def r1_def r2_def)
        then show ?thesis using r2 s1 ready by (simp add: answered_def)
      next
        case False
        then have "uds_routine_control s request response len =
            uds_negative s1 UDS_SID_ROUTINE_CONTROL NRC_CONDITIONS_NOT_CORRECT UDS_ERR_DENIED response len"
          using \<open>\<not> (length request \<noteq> 4 \<or> _ \<or> _)\<close> e ready a by (auto simp: step op1_def n_def)
        then show ?thesis using negative_answered [OF s1] by (simp add: nrc_matches_def)
      qed
    qed
  qed
qed

text \<open>Which request the governor was asked about.\<close>

definition asks_for :: "u8 list \<Rightarrow> uds_governor_request \<Rightarrow> bool" where
  "asks_for request req \<longleftrightarrow>
     request ! 0 = UDS_SID_WDBI \<and> gr_kind req = GOVERNOR_WRITE_DID \<and>
       gr_did req = be16 (request ! 1) (request ! 2) \<and> gr_data req = Some (drop 3 request)
     \<or> request ! 0 = UDS_SID_ROUTINE_CONTROL \<and> gr_kind req = GOVERNOR_RUN_ROUTINE \<and>
       gr_subfunction req = request ! 1 \<and> gr_routine_id req = be16 (request ! 2) (request ! 3)"

definition governor_consents :: "'w uds_server \<Rightarrow> u8 list \<Rightarrow> bool" where
  "governor_consents s request \<longleftrightarrow> (\<exists>g req. us_governor s = Some g \<and> asks_for request req \<and>
     fst (g (us_governor_user_data s) req) = GOVERNOR_APPROVE)"

text \<open>What a service may change without consent: counters and the governor's own data.\<close>

definition no_effect :: "'w uds_server \<Rightarrow> 'w uds_server \<Rightarrow> bool" where
  "no_effect s t \<longleftrightarrow> us_did_data t = us_did_data s \<and> us_signals t = us_signals s \<and>
     us_config t = us_config s \<and> us_did_signal_ids t = us_did_signal_ids s"

lemma negative_no_effect:
  assumes "no_effect s0 s" and "st \<noteq> UDS_OK"
  shows "no_effect s0 (fst (snd (uds_negative s sid nrc st response len)))"
    and "fst (uds_negative s sid nrc st response len) \<noteq> UDS_OK"
  using assms by (simp_all add: uds_negative_def no_effect_def)

lemma no_effect_refl [simp]: "no_effect s s"
  by (simp add: no_effect_def)

lemma approves_no_effect: "uds_governor_approves s req = (approved, t) \<Longrightarrow> no_effect s t"
  using approves_fields [of s req approved t] by (simp add: no_effect_def)

lemma rdbi_no_effect: "no_effect s (fst (snd (uds_rdbi s request response len)))"
  by (auto simp: uds_rdbi_def Let_def uds_negative_def no_effect_def split: option.split sum.split)

lemma wdbi_consent:
  assumes "request ! 0 = UDS_SID_WDBI"
  shows "no_effect s (fst (snd (uds_wdbi s request response len))) \<and> fst (uds_wdbi s request response len) \<noteq> UDS_OK
    \<or> governor_consents s request \<and> fst (uds_wdbi s request response len) = UDS_OK"
proof (cases "length request < 3 \<or> config_find_did (us_config s) (be16 (request ! 1) (request ! 2)) = None")
  case True
  then show ?thesis using negative_no_effect [of s s] by (auto simp: uds_wdbi_def Let_def)
next
  case False
  then obtain entry index where e: "config_find_did (us_config s) (be16 (request ! 1) (request ! 2)) = Some (entry, index)"
    by auto
  define req where "req = wdbi_request s (be16 (request ! 1) (request ! 2)) entry index (drop 3 request)"
  show ?thesis
  proof (cases "length request \<noteq> unat (ud_length entry) + 3 \<or> length response < 3 \<or>
      gr_has_signal req \<and> ud_length entry > UDS_DID_SIGNAL_LENGTH_MAX")
    case True
    then show ?thesis using False e negative_no_effect [of s s] by (auto simp: uds_wdbi_def Let_def req_def)
  next
    case ready: False
    obtain approved s1 where a: "uds_governor_approves s req = (approved, s1)" by fastforce
    note s1 = approves_no_effect [OF a]
    show ?thesis
    proof (cases "approved \<and> wdbi_mirror s1 req \<noteq> None")
      case True
      have "asks_for request req"
        using assms by (simp add: asks_for_def req_def wdbi_request_def Let_def)
      then have "governor_consents s request"
        using True approves_fields(7) [OF a] by (auto simp: governor_consents_def)
      then show ?thesis using True False e ready a by (auto simp: uds_wdbi_def Let_def req_def)
    next
      case nope: False
      then have "(\<exists>nrc st. st \<noteq> UDS_OK \<and> uds_wdbi s request response len = uds_negative s1 UDS_SID_WDBI nrc st response len)"
        using False e ready a by (cases approved) (auto simp: uds_wdbi_def Let_def req_def)
      then show ?thesis using negative_no_effect [OF s1] by metis
    qed
  qed
qed

lemma routine_consent:
  assumes "request ! 0 = UDS_SID_ROUTINE_CONTROL"
  shows "no_effect s (fst (snd (uds_routine_control s request response len))) \<and>
    (fst (uds_routine_control s request response len) = UDS_OK \<longrightarrow> governor_consents s request)"
proof -
  define sub where "sub = request ! 1"
  define rid where "rid = be16 (request ! 2) (request ! 3)"
  note step = uds_routine_control_def Let_def sub_def rid_def
  show ?thesis
  proof (cases "length request \<noteq> 4 \<or> sub \<noteq> UDS_RC_START \<and> sub \<noteq> UDS_RC_STOP \<and> sub \<noteq> UDS_RC_RESULTS
      \<or> config_find_routine (us_config s) rid = None")
    case True
    then show ?thesis using negative_no_effect [of s s] by (auto simp: step)
  next
    case False
    then obtain entry index where e: "config_find_routine (us_config s) rid = Some (entry, index)" by auto
    obtain approved s1 where a: "uds_governor_approves s (routine_request rid entry sub) = (approved, s1)" by fastforce
    note s1 = approves_no_effect [OF a]
    have "asks_for request (routine_request rid entry sub)"
      using assms by (simp add: asks_for_def routine_request_def sub_def rid_def)
    then have "approved \<Longrightarrow> governor_consents s request"
      using approves_fields(7) [OF a] by (auto simp: governor_consents_def)
    then show ?thesis
      using False e a s1 negative_no_effect [of s s] negative_no_effect [OF s1]
      by (cases approved) (auto simp: step no_effect_def)
  qed
qed

lemma dispatch_cases:
  fixes s :: "'w uds_server"
  defines "t \<equiv> count_uds (\<lambda>c. c\<lparr>un_requests_processed := un_requests_processed c + 1\<rparr>) s"
  obtains "request \<noteq> []" "request ! 0 = UDS_SID_RDBI" "uds_dispatch s request response len = uds_rdbi t request response len"
  | "request \<noteq> []" "request ! 0 = UDS_SID_WDBI" "uds_dispatch s request response len = uds_wdbi t request response len"
  | "request \<noteq> []" "request ! 0 = UDS_SID_ROUTINE_CONTROL"
      "uds_dispatch s request response len = uds_routine_control t request response len"
  | "request = [] \<or> request ! 0 \<notin> {UDS_SID_RDBI, UDS_SID_WDBI, UDS_SID_ROUTINE_CONTROL}"
      "uds_dispatch s request response len =
        uds_negative t (if request = [] then 0 else request ! 0) NRC_SERVICE_NOT_SUPPORTED UDS_ERR_UNSUPPORTED response len"
  by (cases "request = []"; cases "request ! 0 = UDS_SID_RDBI"; cases "request ! 0 = UDS_SID_WDBI";
      cases "request ! 0 = UDS_SID_ROUTINE_CONTROL")
    (simp_all add: uds_dispatch_def Let_def t_def)

subsection \<open>Properties\<close>

subsection \<open>What was written is what is read\<close>

text \<open>The signal mapped to DID \<open>index\<close>, when there is a store, holds \<open>value\<close>.\<close>

definition mirrored :: "'w uds_server \<Rightarrow> uds_did \<Rightarrow> nat \<Rightarrow> signal_value \<Rightarrow> bool" where
  "mirrored s entry index value \<longleftrightarrow> (ud_signal entry = None \<or> us_signals s = None \<or>
     signal_store_get (us_signals s) (the (us_did_signal_ids s) ! index) (Some Value_unset) = (RECIPE_OK, Some value))"

lemma mirror_mirrored:
  assumes "wdbi_mirror s req = Some t" and "server_ok s" and "entry = uc_dids (the (us_config s)) ! index"
    and "req = wdbi_request s0 did entry index data" and "us_config s0 = us_config s"
    and "us_did_signal_ids s0 = us_did_signal_ids s"
  shows "mirrored t entry index (Value_uint (uds_decode_le data))"
proof (cases "ud_signal entry = None \<or> us_signals s = None")
  case True
  then have "t = s" using assms(1,3,4,5)
    by (auto simp: wdbi_mirror_def wdbi_request_def uds_did_signal_index_def Let_def split: if_splits)
  then show ?thesis using True by (auto simp: mirrored_def)
next
  case False
  then obtain st0 where st0: "us_signals s = Some st0" by auto
  have ok: "store_ok st0" using assms(2) st0 by (simp add: server_ok_def)
  have "uds_did_signal_index s0 index = Some (the (us_did_signal_ids s) ! index)"
    using False assms(3,5,6) by (auto simp: uds_did_signal_index_def)
  then have req: "gr_has_signal req" "gr_signal_id req = the (us_did_signal_ids s) ! index"
    "gr_signal_value req = Value_uint (uds_decode_le data)"
    by (simp_all add: assms(4) wdbi_request_def Let_def)
  obtain st1 where set: "signal_store_set (Some st0) (gr_signal_id req) (Some (gr_signal_value req)) = (RECIPE_OK, st1)"
    and t: "t = s\<lparr>us_signals := st1\<rparr>"
    using assms(1) req(1) st0 by (auto simp: wdbi_mirror_def split: prod.splits if_splits)
  have "\<exists>x. st1 = Some x"
    using set by (auto simp: signal_store_set_def Let_def split: if_splits option.splits)
  then obtain x where x: "st1 = Some x" ..
  then have u: "store_update st0 (gr_signal_id req) (gr_signal_value req) = Some x"
    using set by (simp add: store_update_def)
  have "store_lookup x (gr_signal_id req) = Some (gr_signal_value req)"
    using store_lookup_after(2) [OF ok u, of "gr_signal_id req"] by simp
  then have "signal_store_get (Some x) (gr_signal_id req) (Some Value_unset) = (RECIPE_OK, Some (gr_signal_value req))"
    by (auto simp: store_lookup_def split: prod.splits recipe_status.splits)
  then show ?thesis by (simp add: mirrored_def t x req)
qed

lemma rdbi_signal_bytes_mirrored:
  assumes "mirrored s entry index (Value_uint (uds_decode_le data))" and "length data = unat (ud_length entry)"
    and "did_ok cap entry"
  shows "rdbi_signal_bytes s entry index \<in> {Inr None, Inr (Some data)}"
  using assms uds_encode_decode [OF assms(2)]
  by (auto simp: rdbi_signal_bytes_def mirrored_def did_ok_def split: option.split)

lemma wdbi_effect:
  assumes "server_ok s" and "uds_wdbi s request response len = (UDS_OK, t, r, n)"
  shows "\<exists>entry index buf. config_find_did (us_config s) (be16 (request ! 1) (request ! 2)) = Some (entry, index) \<and>
    us_did_data s = Some buf \<and> did_ok (length buf) entry \<and> length request = unat (ud_length entry) + 3 \<and>
    us_did_data t = Some (write_at buf (ud_data_offset entry) (drop 3 request)) \<and> us_config t = us_config s \<and>
    mirrored t entry index (Value_uint (uds_decode_le (drop 3 request)))"
proof -
  have neg: "uds_negative s1 sid nrc st response len \<noteq> (UDS_OK, t, r, n)" if "st \<noteq> UDS_OK" for s1 sid nrc st
    using that by (auto simp: uds_negative_def)
  define did where "did = be16 (request ! 1) (request ! 2)"
  note step = uds_wdbi_def Let_def did_def [symmetric]
  have l3: "\<not> length request < 3" using assms(2) neg by (auto simp: uds_wdbi_def)
  have "config_find_did (us_config s) did \<noteq> None"
  proof
    assume "config_find_did (us_config s) did = None"
    then have "uds_wdbi s request response len = uds_negative s UDS_SID_WDBI NRC_REQUEST_OUT_OF_RANGE UDS_ERR_NOT_FOUND response len"
      using l3 unfolding step by simp
    then show False using assms(2) neg [of UDS_ERR_NOT_FOUND s UDS_SID_WDBI NRC_REQUEST_OUT_OF_RANGE] by simp
  qed
  then obtain entry index where e: "config_find_did (us_config s) did = Some (entry, index)" by auto
  define req where "req = wdbi_request s did entry index (drop 3 request)"
  have body: "uds_wdbi s request response len = (if length request \<noteq> unat (ud_length entry) + 3
      then uds_negative s UDS_SID_WDBI NRC_INCORRECT_MESSAGE_LENGTH UDS_ERR_LENGTH response len
      else if length response < 3 then (UDS_ERR_CAPACITY, s, response, len)
      else if gr_has_signal req \<and> ud_length entry > UDS_DID_SIGNAL_LENGTH_MAX
      then uds_negative s UDS_SID_WDBI NRC_CONDITIONS_NOT_CORRECT UDS_ERR_DENIED response len
      else (case uds_governor_approves s req of (approved, s1) \<Rightarrow>
        if \<not> approved then uds_negative s1 UDS_SID_WDBI NRC_CONDITIONS_NOT_CORRECT UDS_ERR_DENIED response len
        else (case wdbi_mirror s1 req of
          None \<Rightarrow> uds_negative s1 UDS_SID_WDBI NRC_GENERAL_PROGRAMMING_FAILURE UDS_ERR_PROGRAMMING response len
        | Some s2 \<Rightarrow> (UDS_OK, count_uds (\<lambda>c. c\<lparr>un_did_writes := un_did_writes c + 1,
              un_positive_responses := un_positive_responses c + 1\<rparr>)
              (s2\<lparr>us_did_data := Some (write_at (the (us_did_data s2)) (ud_data_offset entry) (drop 3 request))\<rparr>),
            write_at response 0 ([UDS_SID_WDBI + UDS_SID_POSITIVE_OFFSET] @ did_bytes did), 3))))"
    using l3 e unfolding step req_def by simp
  have l: "length request = unat (ud_length entry) + 3" "\<not> length response < 3"
    "\<not> (gr_has_signal req \<and> ud_length entry > UDS_DID_SIGNAL_LENGTH_MAX)"
    using assms(2) neg unfolding body by (auto split: if_splits)
  obtain approved s1 where a: "uds_governor_approves s req = (approved, s1)" by fastforce
  have ap: "approved" using assms(2) neg l a unfolding body by (auto split: if_splits)
  have "wdbi_mirror s1 req \<noteq> None"
  proof
    assume "wdbi_mirror s1 req = None"
    then have "uds_wdbi s request response len =
        uds_negative s1 UDS_SID_WDBI NRC_GENERAL_PROGRAMMING_FAILURE UDS_ERR_PROGRAMMING response len"
      using l a ap unfolding body by auto
    then show False using assms(2) neg [of UDS_ERR_PROGRAMMING s1 UDS_SID_WDBI NRC_GENERAL_PROGRAMMING_FAILURE] by simp
  qed
  then obtain s2 where m: "wdbi_mirror s1 req = Some s2" by auto
  note f = approves_fields [OF a]
  have ok1: "server_ok s1" using approves_ok [OF a] assms(1) by simp
  note k = mirror_ok [OF m ok1]
  from find_did_some [OF e assms(1)] obtain buf where b: "us_did_data s = Some buf" "did_ok (length buf) entry"
    "entry = uc_dids (the (us_config s)) ! index" by (metis option.sel)
  have t: "t = count_uds (\<lambda>c. c\<lparr>un_did_writes := un_did_writes c + 1, un_positive_responses := un_positive_responses c + 1\<rparr>)
      (s2\<lparr>us_did_data := Some (write_at (the (us_did_data s2)) (ud_data_offset entry) (drop 3 request))\<rparr>)"
    using assms(2) l a ap m unfolding body by auto
  have "mirrored s2 entry index (Value_uint (uds_decode_le (drop 3 request)))"
    by (rule mirror_mirrored [OF m ok1 _ req_def]) (use b(3) f in simp_all)
  then have mt: "mirrored t entry index (Value_uint (uds_decode_le (drop 3 request)))"
    by (simp add: t mirrored_def)
  have "us_did_data t = Some (write_at buf (ud_data_offset entry) (drop 3 request))" and "us_config t = us_config s"
    using k f b by (simp_all add: t)
  then show ?thesis using e [unfolded did_def] b(1,2) l(1) mt by blast
qed

lemma rdbi_value:
  assumes "config_find_did (us_config s) (be16 hi lo) = Some (entry, index)" and "us_did_data s = Some buf"
    and "rdbi_signal_bytes s entry index \<in> {Inr None, Inr (Some data)}" and "length data = unat (ud_length entry)"
    and "take (length data) (drop (ud_data_offset entry) buf) = data" and "length data + 3 \<le> length response"
  shows "\<exists>u. uds_rdbi s [UDS_SID_RDBI, hi, lo] response len =
    (UDS_OK, u, [0x62, hi, lo] @ data @ drop (length data + 3) response, length data + 3)"
proof -
  have d: "drop (3 + k) (a # b # c # ys) = drop k ys" for k a b c and ys :: "u8 list"
    by (simp add: numeral_3_eq_3)
  have w: "write_at (write_at response 0 ([UDS_SID_RDBI + UDS_SID_POSITIVE_OFFSET] @ did_bytes (be16 hi lo))) 3 data
      = [0x62, hi, lo] @ data @ drop (length data + 3) response"
    by (simp add: write_at_def did_bytes_be16 UDS_SID_RDBI_def UDS_SID_POSITIVE_OFFSET_def d numeral_3_eq_3)
  have l: "\<not> length response < unat (ud_length entry) + 3" using assms(4,6) by simp
  show ?thesis
  proof (cases "rdbi_signal_bytes s entry index = Inr None")
    case True
    then show ?thesis using assms(1,2,5) l w by (simp add: uds_rdbi_def Let_def assms(4) [symmetric])
  next
    case False
    then have "rdbi_signal_bytes s entry index = Inr (Some data)" using assms(3) by simp
    then show ?thesis using assms(1,2) l w by (simp add: uds_rdbi_def Let_def assms(4) [symmetric])
  qed
qed

subsection \<open>A server\<close>

definition door_did :: uds_did where
  "door_did = \<lparr>ud_did = 0xF190, ud_length = 2, ud_read_only = False, ud_signal = Some ''brake.Torque'',
     ud_default_data = Some [1, 2], ud_data_offset = 0\<rparr>"

definition door_op :: uds_routine_op where
  "door_op = \<lparr>uo_declared = True, uo_allowed = True, uo_response = None, uo_response_length = 0\<rparr>"

definition door_config :: uds_config where
  "door_config = \<lparr>uc_dids = [door_did], uc_routines =
     [\<lparr>ur_routine = 0x0203, ur_start = door_op, ur_stop = door_op, ur_results = door_op\<rparr>], uc_did_data_length = 2\<rparr>"

text \<open>A server whose governor approves its first request and denies the later ones.\<close>

definition door_server :: "nat uds_server" where
  "door_server = \<lparr>us_config = Some door_config, us_did_data = Some [1, 2], us_did_signal_ids = Some [2],
     us_namespace = None, us_signals = Some \<lparr>st_slots = [zero_slot], st_capacity = 1, st_count = 0\<rparr>,
     us_governor = Some (\<lambda>k req. (if k = 0 then GOVERNOR_APPROVE else GOVERNOR_DENY, k + 1)),
     us_governor_user_data = 0, us_counters = zero_uds_counters, us_initialized = True\<rparr>"

lemma door_server_ok: "server_ok door_server"
  by (simp add: server_ok_def door_server_def door_config_def door_did_def door_op_def did_ok_def op_ok_def
      UDS_DID_SIGNAL_LENGTH_MAX_def store_ok_def signal_store_is_valid_def)

text \<open>C23: Every request, malformed or not, is answered with what its status names: OK with the
  positive response of the service, an error with 7F, the service id and the code of that error, a
  short buffer with nothing. The response never leaves its buffer and the server stays well formed.\<close>

theorem uds_every_request_answered:
  assumes "server_ok s"
  shows "answered (if request = [] then 0 else request ! 0) response len (uds_dispatch s request response len)"
proof -
  have t: "server_ok (count_uds (\<lambda>c. c\<lparr>un_requests_processed := un_requests_processed c + 1\<rparr>) s)"
    using assms by simp
  show ?thesis
    by (rule dispatch_cases [of request s response len])
      (use rdbi_answered [OF t] wdbi_answered [OF t] routine_answered [OF t] negative_answered [OF t]
        in \<open>simp_all add: nrc_matches_def\<close>)
qed

lemma uds_every_request_answered_witness:
  "answered 0x2E (replicate 8 0) 0 (uds_dispatch door_server [0x2E, 0xF1, 0x90, 7] (replicate 8 0) 0)
   \<and> fst (uds_dispatch door_server [0x2E, 0xF1, 0x90, 7] (replicate 8 0) 0) = UDS_ERR_LENGTH"
proof -
  have "fst (uds_dispatch door_server [0x2E, 0xF1, 0x90, 7] (replicate 8 0) 0) = UDS_ERR_LENGTH" by code_simp
  then show ?thesis
    using uds_every_request_answered [OF door_server_ok, of "[0x2E, 0xF1, 0x90, 7]" "replicate 8 0" 0] by simp
qed

text \<open>C22: Nothing is written without the governor. If a request changes the stored data or a shared
  signal, or gets a positive answer to a write or a routine, then the configured governor was asked
  about exactly this request and approved it; without a governor, or when it denies, data and
  signals stay as they are.\<close>

theorem uds_no_effect_without_approval:
  assumes "uds_dispatch s request response len = (st, t, r, n)"
    and "us_did_data t \<noteq> us_did_data s \<or> us_signals t \<noteq> us_signals s \<or> st = UDS_OK \<and> request ! 0 \<noteq> UDS_SID_RDBI"
  shows "st = UDS_OK \<and> governor_consents s request"
proof -
  define s1 where "s1 = count_uds (\<lambda>c. c\<lparr>un_requests_processed := un_requests_processed c + 1\<rparr>) s"
  have c: "governor_consents s1 request = governor_consents s request"
    and e: "no_effect s1 t = no_effect s t" for t
    by (simp_all add: s1_def governor_consents_def no_effect_def)
  have "\<not> (no_effect s t \<and> (st \<noteq> UDS_OK \<or> request ! 0 = UDS_SID_RDBI))"
    using assms(2) by (auto simp: no_effect_def)
  moreover have "no_effect s t \<and> (st \<noteq> UDS_OK \<or> request ! 0 = UDS_SID_RDBI) \<or> st = UDS_OK \<and> governor_consents s request"
  proof (rule dispatch_cases [of request s response len, folded s1_def])
    assume sid: "request ! 0 = UDS_SID_RDBI" and u: "uds_dispatch s request response len = uds_rdbi s1 request response len"
    then have d: "uds_rdbi s1 request response len = (st, t, r, n)" using assms(1) by metis
    show ?thesis using rdbi_no_effect [of s1 request response len] sid unfolding d fst_conv snd_conv e by blast
  next
    assume sid: "request ! 0 = UDS_SID_WDBI" and u: "uds_dispatch s request response len = uds_wdbi s1 request response len"
    then have d: "uds_wdbi s1 request response len = (st, t, r, n)" using assms(1) by metis
    show ?thesis using wdbi_consent [OF sid, of s1 response len] unfolding d fst_conv snd_conv e c by blast
  next
    assume sid: "request ! 0 = UDS_SID_ROUTINE_CONTROL"
      and u: "uds_dispatch s request response len = uds_routine_control s1 request response len"
    then have d: "uds_routine_control s1 request response len = (st, t, r, n)" using assms(1) by metis
    show ?thesis using routine_consent [OF sid, of s1 response len] unfolding d fst_conv snd_conv e c by blast
  next
    assume u: "uds_dispatch s request response len = uds_negative s1 (if request = [] then 0 else request ! 0)
      NRC_SERVICE_NOT_SUPPORTED UDS_ERR_UNSUPPORTED response len"
    have "no_effect s1 (fst (snd (uds_dispatch s request response len))) \<and> fst (uds_dispatch s request response len) \<noteq> UDS_OK"
      unfolding u by (intro conjI negative_no_effect [of s1 s1]) simp_all
    then show ?thesis unfolding assms(1) fst_conv snd_conv e by blast
  qed
  ultimately show ?thesis by blast
qed

lemma uds_no_effect_without_approval_witness:
  "governor_consents door_server [0x2E, 0xF1, 0x90, 7, 9]"
proof -
  obtain st t r n where d: "uds_dispatch door_server [0x2E, 0xF1, 0x90, 7, 9] (replicate 8 0) 0 = (st, t, r, n)"
    by (metis prod.exhaust)
  have "us_did_data (fst (snd (uds_dispatch door_server [0x2E, 0xF1, 0x90, 7, 9] (replicate 8 0) 0))) = Some [7, 9]"
    by code_simp
  then have "us_did_data t = Some [7, 9]" by (simp add: d)
  moreover have "us_did_data door_server = Some [1, 2]" by (simp add: door_server_def)
  ultimately have "us_did_data t \<noteq> us_did_data door_server" by simp
  then show ?thesis using uds_no_effect_without_approval [OF d] by blast
qed

text \<open>C24: After an accepted write the next read of the same DID answers with exactly the bytes
  written, for plain slots and for slots mirrored into the shared signal store, where they travel
  through the little-endian integer of the signal. The rest of the response buffer stays.\<close>

theorem uds_read_after_write:
  assumes "server_ok s" and "uds_dispatch s ([UDS_SID_WDBI, hi, lo] @ data) response len = (UDS_OK, t, r, n)"
    and "length data + 3 \<le> length buffer"
  shows "\<exists>u. uds_dispatch t [UDS_SID_RDBI, hi, lo] buffer len2 =
    (UDS_OK, u, [0x62, hi, lo] @ data @ drop (length data + 3) buffer, length data + 3)"
proof -
  define s1 where "s1 = count_uds (\<lambda>c. c\<lparr>un_requests_processed := un_requests_processed c + 1\<rparr>) s"
  define t1 where "t1 = count_uds (\<lambda>c. c\<lparr>un_requests_processed := un_requests_processed c + 1\<rparr>) t"
  have sids: "UDS_SID_WDBI \<noteq> UDS_SID_RDBI" by (simp add: UDS_SID_WDBI_def UDS_SID_RDBI_def)
  have ok: "server_ok s1" using assms(1) by (simp add: s1_def)
  have w: "uds_wdbi s1 ([UDS_SID_WDBI, hi, lo] @ data) response len = (UDS_OK, t, r, n)"
    using assms(2) sids by (simp add: uds_dispatch_def Let_def s1_def)
  from wdbi_effect [OF ok w] obtain entry index buf where
    e: "config_find_did (us_config s1) (be16 hi lo) = Some (entry, index)" "us_did_data s1 = Some buf"
    "did_ok (length buf) entry" "length data = unat (ud_length entry)"
    "us_did_data t = Some (write_at buf (ud_data_offset entry) data)" "us_config t = us_config s1"
    "mirrored t entry index (Value_uint (uds_decode_le data))"
    by auto
  have m: "mirrored t1 entry index (Value_uint (uds_decode_le data))" using e(7) by (simp add: t1_def mirrored_def)
  have tk: "take (length data) (drop (ud_data_offset entry) (write_at buf (ud_data_offset entry) data)) = data"
    by (rule take_drop_write_at) (use e(3,4) in \<open>simp add: did_ok_def\<close>)
  have "\<exists>u. uds_rdbi t1 [UDS_SID_RDBI, hi, lo] buffer len2 =
      (UDS_OK, u, [0x62, hi, lo] @ data @ drop (length data + 3) buffer, length data + 3)"
    by (rule rdbi_value [OF _ _ rdbi_signal_bytes_mirrored [OF m e(4,3)] e(4) tk assms(3)])
      (use e in \<open>simp_all add: t1_def\<close>)
  then show ?thesis by (simp add: uds_dispatch_def Let_def t1_def)
qed

lemma uds_read_after_write_witness:
  "\<exists>(t :: nat uds_server) u. uds_dispatch t [UDS_SID_RDBI, 0xF1, 0x90] (replicate 5 0) 0 = (UDS_OK, u, [0x62, 0xF1, 0x90, 7, 9], 5)"
proof -
  obtain st t r n where d: "uds_dispatch door_server ([UDS_SID_WDBI, 0xF1, 0x90] @ [7, 9]) (replicate 8 0) 0 = (st, t, r, n)"
    by (metis prod.exhaust)
  have "fst (uds_dispatch door_server ([UDS_SID_WDBI, 0xF1, 0x90] @ [7, 9]) (replicate 8 0) 0) = UDS_OK" by code_simp
  then have "st = UDS_OK" by (simp only: d fst_conv)
  with d have "uds_dispatch door_server ([UDS_SID_WDBI, 0xF1, 0x90] @ [7, 9]) (replicate 8 0) 0 = (UDS_OK, t, r, n)" by simp
  from uds_read_after_write [OF door_server_ok this, of "replicate 5 0" 0] show ?thesis by auto
qed

end
