(* ===== verification/Fsm_Types.thy ===== *)
theory Fsm_Types
  imports Event_Types
begin

text \<open>
  core/fsm/include/cancestry/fsm/types.h: bounds, statuses, lifecycles and the definition tables of
  a loaded state machine set, with the name helpers at the end of core/fsm/src/engine.c. An array
  with its count is a list, an optional string an option; the flags \<open>has_x\<close> of optional fields
  are options too. Names the schema requires are strings.
\<close>

subsection \<open>Bounds\<close>

definition FSM_NAME_MAX :: nat where "FSM_NAME_MAX = 64"
definition FSM_EXPRESSION_MAX :: nat where "FSM_EXPRESSION_MAX = 256"
definition FSM_TRANSITION_CHAIN_MAX_DEPTH :: u16 where "FSM_TRANSITION_CHAIN_MAX_DEPTH = 4"
definition FSM_MAX_EVENTS_PER_ACTIVATION :: u16 where "FSM_MAX_EVENTS_PER_ACTIVATION = 64"
definition FSM_MAX_ACTIONS_PER_EVENT :: u16 where "FSM_MAX_ACTIONS_PER_EVENT = 128"

subsection \<open>Status and lifecycle\<close>

datatype fsm_status =
    FSM_OK | FSM_ERR_NULL | FSM_ERR_ARGUMENT | FSM_ERR_NOT_FOUND | FSM_ERR_AMBIGUOUS | FSM_ERR_DENIED
  | FSM_ERR_EXPRESSION | FSM_ERR_ENCODING | FSM_ERR_CAPACITY | FSM_ERR_PARSE | FSM_ERR_CONFLICT
  | FSM_ERR_NO_MEMORY | FSM_ERR_UNSUPPORTED | FSM_ERR_STATE | FSM_ERR_CHAIN_LIMIT | FSM_ERR_BUDGET
  | FSM_ERR_QUEUE_FULL

fun fsm_status_value :: "fsm_status \<Rightarrow> int" where
  "fsm_status_value FSM_OK = 0"
| "fsm_status_value FSM_ERR_NULL = - 1"
| "fsm_status_value FSM_ERR_ARGUMENT = - 2"
| "fsm_status_value FSM_ERR_NOT_FOUND = - 3"
| "fsm_status_value FSM_ERR_AMBIGUOUS = - 4"
| "fsm_status_value FSM_ERR_DENIED = - 5"
| "fsm_status_value FSM_ERR_EXPRESSION = - 6"
| "fsm_status_value FSM_ERR_ENCODING = - 7"
| "fsm_status_value FSM_ERR_CAPACITY = - 8"
| "fsm_status_value FSM_ERR_PARSE = - 9"
| "fsm_status_value FSM_ERR_CONFLICT = - 10"
| "fsm_status_value FSM_ERR_NO_MEMORY = - 11"
| "fsm_status_value FSM_ERR_UNSUPPORTED = - 12"
| "fsm_status_value FSM_ERR_STATE = - 13"
| "fsm_status_value FSM_ERR_CHAIN_LIMIT = - 14"
| "fsm_status_value FSM_ERR_BUDGET = - 15"
| "fsm_status_value FSM_ERR_QUEUE_FULL = - 16"

definition fsm_status_is_ok :: "fsm_status \<Rightarrow> bool" where
  "fsm_status_is_ok st \<longleftrightarrow> fsm_status_value st \<ge> 0"

fun fsm_status_name :: "fsm_status \<Rightarrow> string" where
  "fsm_status_name FSM_OK = ''ok''"
| "fsm_status_name FSM_ERR_NULL = ''null''"
| "fsm_status_name FSM_ERR_ARGUMENT = ''argument''"
| "fsm_status_name FSM_ERR_NOT_FOUND = ''not_found''"
| "fsm_status_name FSM_ERR_AMBIGUOUS = ''ambiguous''"
| "fsm_status_name FSM_ERR_DENIED = ''denied''"
| "fsm_status_name FSM_ERR_EXPRESSION = ''expression''"
| "fsm_status_name FSM_ERR_ENCODING = ''encoding''"
| "fsm_status_name FSM_ERR_CAPACITY = ''capacity''"
| "fsm_status_name FSM_ERR_PARSE = ''parse''"
| "fsm_status_name FSM_ERR_CONFLICT = ''conflict''"
| "fsm_status_name FSM_ERR_NO_MEMORY = ''no_memory''"
| "fsm_status_name FSM_ERR_UNSUPPORTED = ''unsupported''"
| "fsm_status_name FSM_ERR_STATE = ''state''"
| "fsm_status_name FSM_ERR_CHAIN_LIMIT = ''chain_limit''"
| "fsm_status_name FSM_ERR_BUDGET = ''budget''"
| "fsm_status_name FSM_ERR_QUEUE_FULL = ''queue_full''"

datatype fsm_lifecycle =
    LIFECYCLE_DISABLED | LIFECYCLE_READY | LIFECYCLE_RUNNING | LIFECYCLE_SUSPENDED | LIFECYCLE_FAULT

fun fsm_lifecycle_name :: "fsm_lifecycle \<Rightarrow> string" where
  "fsm_lifecycle_name LIFECYCLE_DISABLED = ''disabled''"
| "fsm_lifecycle_name LIFECYCLE_READY = ''ready''"
| "fsm_lifecycle_name LIFECYCLE_RUNNING = ''running''"
| "fsm_lifecycle_name LIFECYCLE_SUSPENDED = ''suspended''"
| "fsm_lifecycle_name LIFECYCLE_FAULT = ''fault''"

definition fsm_lifecycle_is_active :: "fsm_lifecycle \<Rightarrow> bool" where
  "fsm_lifecycle_is_active l \<longleftrightarrow> l = LIFECYCLE_RUNNING"

subsection \<open>Definition tables\<close>

datatype fsm_operand = Operand_literal signal_value | Operand_expression string

datatype fsm_log_level = FSM_LOG_INFO | FSM_LOG_WARNING | FSM_LOG_ERROR

fun fsm_log_level_name :: "fsm_log_level \<Rightarrow> string" where
  "fsm_log_level_name FSM_LOG_INFO = ''info''"
| "fsm_log_level_name FSM_LOG_WARNING = ''warning''"
| "fsm_log_level_name FSM_LOG_ERROR = ''error''"

text \<open>The tagged union of actions; the second component of a start is the declared duration, the
  third the declared repeat flag. A transition carries its target's name and compiled index. The
  source line of an action, which no code reads, is left out.\<close>

datatype fsm_action =
    Action_send_message string string "(string \<times> fsm_operand) list"
  | Action_set_signal string fsm_operand
  | Action_set_variable string fsm_operand
  | Action_start_timer string "u32 option" "bool option"
  | Action_stop_timer string
  | Action_reset_timer string
  | Action_log fsm_log_level string
  | Action_raise_fault string fault_severity
  | Action_transition string nat

fun fsm_action_kind_name :: "fsm_action \<Rightarrow> string" where
  "fsm_action_kind_name (Action_send_message _ _ _) = ''send_message''"
| "fsm_action_kind_name (Action_set_signal _ _) = ''set_signal''"
| "fsm_action_kind_name (Action_set_variable _ _) = ''set_variable''"
| "fsm_action_kind_name (Action_start_timer _ _ _) = ''start_timer''"
| "fsm_action_kind_name (Action_stop_timer _) = ''stop_timer''"
| "fsm_action_kind_name (Action_reset_timer _) = ''reset_timer''"
| "fsm_action_kind_name (Action_log _ _) = ''log''"
| "fsm_action_kind_name (Action_raise_fault _ _) = ''raise_fault''"
| "fsm_action_kind_name (Action_transition _ _) = ''transition''"

record fsm_transition =
  ft_event :: event_type
  ft_interface :: "string option"
  ft_message :: "string option"
  ft_signal :: "string option"
  ft_timer :: "string option"
  ft_guard :: "string option"
  ft_actions :: "fsm_action list"
  ft_target :: string
  ft_target_index :: nat

record fsm_state =
  fs_name :: string
  fs_entry :: "fsm_action list"
  fs_exit :: "fsm_action list"
  fs_transitions :: "fsm_transition list"

datatype value_kind = KIND_UNSET | KIND_BOOL | KIND_INT | KIND_UINT | KIND_REAL

definition fsm_variable_type_from_name :: "string option \<Rightarrow> value_kind" where
  "fsm_variable_type_from_name name =
     (if name = Some ''boolean'' then KIND_BOOL
      else if name = Some ''integer'' then KIND_INT
      else if name = Some ''float'' then KIND_REAL
      else KIND_UNSET)"

record fsm_variable_def =
  vd_name :: string
  vd_type :: value_kind
  vd_default :: "fsm_operand option"

record fsm_timer_def =
  td_name :: string
  td_duration_ms :: u32
  td_repeat :: bool
  td_auto_start :: bool

record fsm_machine =
  fm_name :: string
  fm_description :: "string option"
  fm_initial :: string
  fm_initial_index :: nat
  fm_variables :: "fsm_variable_def list"
  fm_timers :: "fsm_timer_def list"
  fm_states :: "fsm_state list"

record fsm_can_rx_subscription =
  cr_interface :: string
  cr_can_id :: "u32 option"
  cr_message :: "string option"

type_synonym fsm_binding = "string \<times> string"

record fsm_subscriptions =
  sb_can_rx :: "fsm_can_rx_subscription list option"
  sb_signals :: "string list option"
  sb_timers :: "bool option"
  sb_faults :: "bool option"
  sb_power_mode :: "bool option"

record fsm_instance_def =
  fd_id :: string
  fd_machine :: string
  fd_machine_index :: nat
  fd_enabled :: bool
  fd_bindings :: "fsm_binding list"
  fd_variables :: "(string \<times> fsm_operand) list"
  fd_subscriptions :: fsm_subscriptions

record fsm_set =
  fq_machines :: "fsm_machine list"
  fq_instances :: "fsm_instance_def list"

fun fsm_event_type_name :: "event_type \<Rightarrow> string" where
  "fsm_event_type_name EVENT_TYPE_CAN_RX = ''can_rx''"
| "fsm_event_type_name EVENT_TYPE_SIGNAL_CHANGED = ''signal_changed''"
| "fsm_event_type_name EVENT_TYPE_TIMER_EXPIRED = ''timer_expired''"
| "fsm_event_type_name EVENT_TYPE_STATE_ENTERED = ''state_entered''"
| "fsm_event_type_name EVENT_TYPE_STATE_EXITED = ''state_exited''"
| "fsm_event_type_name EVENT_TYPE_FAULT_RAISED = ''fault_raised''"
| "fsm_event_type_name EVENT_TYPE_POWER_MODE_CHANGED = ''power_mode_changed''"
| "fsm_event_type_name _ = ''invalid''"

end
