(* ===== verification/Fsm_Expression.thy ===== *)
theory Fsm_Expression
  imports Fsm_Types Double "HOL-Library.Char_ord" "HOL-Library.Signed_Division"
begin

text \<open>
  core/fsm/src/expression.c and fsm_expression.h: the safe expression evaluator. The text of the
  parser, its context and its mode never change, so they form the environment \<open>expr_env\<close>; the
  position and the depth are arguments. A parser function that returns true is \<open>Parsed\<close> with the
  value and the position, one that returns false is \<open>Failed\<close> with the error and the offset it
  recorded: failures are never recovered from, so the first one recorded is the only one. The read
  callbacks are functions of the name, since reading does not change what they read.
\<close>

subsection \<open>Values\<close>

datatype expr_error =
    EXPR_OK | EXPR_ERR_SYNTAX | EXPR_ERR_TRAILING | EXPR_ERR_DEPTH | EXPR_ERR_NAMESPACE
  | EXPR_ERR_UNDEFINED | EXPR_ERR_UNAUTHORIZED | EXPR_ERR_TYPE | EXPR_ERR_OVERFLOW
  | EXPR_ERR_ZERO_DIVIDE | EXPR_ERR_NOT_A_NUMBER | EXPR_ERR_FUNCTION | EXPR_ERR_DOMAIN
  | EXPR_ERR_LENGTH

fun expr_error_code :: "expr_error \<Rightarrow> int" where
  "expr_error_code EXPR_OK = 0"
| "expr_error_code EXPR_ERR_SYNTAX = 1"
| "expr_error_code EXPR_ERR_TRAILING = 2"
| "expr_error_code EXPR_ERR_DEPTH = 3"
| "expr_error_code EXPR_ERR_NAMESPACE = 4"
| "expr_error_code EXPR_ERR_UNDEFINED = 5"
| "expr_error_code EXPR_ERR_UNAUTHORIZED = 6"
| "expr_error_code EXPR_ERR_TYPE = 7"
| "expr_error_code EXPR_ERR_OVERFLOW = 8"
| "expr_error_code EXPR_ERR_ZERO_DIVIDE = 9"
| "expr_error_code EXPR_ERR_NOT_A_NUMBER = 10"
| "expr_error_code EXPR_ERR_FUNCTION = 11"
| "expr_error_code EXPR_ERR_DOMAIN = 12"
| "expr_error_code EXPR_ERR_LENGTH = 13"

fun expr_error_name :: "expr_error \<Rightarrow> string" where
  "expr_error_name EXPR_OK = ''ok''"
| "expr_error_name EXPR_ERR_SYNTAX = ''syntax''"
| "expr_error_name EXPR_ERR_TRAILING = ''trailing input''"
| "expr_error_name EXPR_ERR_DEPTH = ''nesting too deep''"
| "expr_error_name EXPR_ERR_NAMESPACE = ''namespace''"
| "expr_error_name EXPR_ERR_UNDEFINED = ''undefined identifier''"
| "expr_error_name EXPR_ERR_UNAUTHORIZED = ''unauthorized signal access''"
| "expr_error_name EXPR_ERR_TYPE = ''invalid type coercion''"
| "expr_error_name EXPR_ERR_OVERFLOW = ''integer overflow''"
| "expr_error_name EXPR_ERR_ZERO_DIVIDE = ''division by zero''"
| "expr_error_name EXPR_ERR_NOT_A_NUMBER = ''nan or infinity result''"
| "expr_error_name EXPR_ERR_FUNCTION = ''unknown function or bad arity''"
| "expr_error_name EXPR_ERR_DOMAIN = ''domain''"
| "expr_error_name EXPR_ERR_LENGTH = ''expression length''"

definition EXPRESSION_MAX_DEPTH :: nat where "EXPRESSION_MAX_DEPTH = 32"
definition NUMBER_TOKEN_MAX :: nat where "NUMBER_TOKEN_MAX = 48"
definition DBL_MAX :: double where "DBL_MAX = 0x7FEFFFFFFFFFFFFF"
definition REAL_HALF :: double where "REAL_HALF = 0x3FE0000000000000"
definition INT64_MIN_AS_REAL :: double where "INT64_MIN_AS_REAL = 0xC3E0000000000000"
definition INT64_MAX_PLUS_AS_REAL :: double where "INT64_MAX_PLUS_AS_REAL = 0x43E0000000000000"
definition I64_MAX :: "64 word" where "I64_MAX = 0x7FFFFFFFFFFFFFFF"
definition I64_MIN :: "64 word" where "I64_MIN = 0x8000000000000000"

text \<open>The wildcard of validation mode is the unset value.\<close>

definition expr_is_wild :: "signal_value \<Rightarrow> bool" where
  "expr_is_wild v \<longleftrightarrow> v = Value_unset"

fun expr_is_numeric :: "signal_value \<Rightarrow> bool" where
  "expr_is_numeric (Value_int _) = True"
| "expr_is_numeric (Value_real _) = True"
| "expr_is_numeric _ = False"

definition expr_is_finite :: "double \<Rightarrow> bool" where
  "expr_is_finite x \<longleftrightarrow> fp_le (fp_uminus DBL_MAX) x \<and> fp_le x DBL_MAX"

fun expr_is_real :: "signal_value \<Rightarrow> bool" where
  "expr_is_real (Value_real _) = True"
| "expr_is_real _ = False"

definition expr_any_real :: "signal_value list \<Rightarrow> bool" where
  "expr_any_real vs \<longleftrightarrow> list_ex expr_is_real vs"

text \<open>Only called on numeric values.\<close>

fun expr_to_real :: "signal_value \<Rightarrow> double" where
  "expr_to_real (Value_real x) = x"
| "expr_to_real (Value_int i) = fp_of_int (sint i)"
| "expr_to_real _ = 0"

definition expr_from_u64 :: "u64 \<Rightarrow> signal_value" where
  "expr_from_u64 u = (if u \<le> I64_MAX then Value_int u else Value_real (fp_of_int (uint u)))"

text \<open>\<open>None\<close> is the result \<open>false\<close>.\<close>

fun expr_from_value :: "signal_value \<Rightarrow> signal_value option" where
  "expr_from_value (Value_bool b) = Some (Value_bool b)"
| "expr_from_value (Value_int i) = Some (Value_int i)"
| "expr_from_value (Value_real x) = Some (Value_real x)"
| "expr_from_value (Value_uint u) = Some (expr_from_u64 u)"
| "expr_from_value Value_unset = None"

definition expr_round :: "double \<Rightarrow> 64 word option" where
  "expr_round x =
     (if \<not> (fp_le INT64_MIN_AS_REAL x \<and> fp_less x INT64_MAX_PLUS_AS_REAL) then None
      else
        let base = word_of_int (fp_to_int x) :: 64 word; truncated = fp_of_int (sint base)
        in Some (if fp_less truncated x
           then (if fp_le REAL_HALF (fp_sub x truncated) \<and> base <s I64_MAX then base + 1 else base)
           else if fp_less x truncated
           then (if fp_le REAL_HALF (fp_sub truncated x) \<and> I64_MIN <s base then base - 1 else base)
           else base))"

subsection \<open>Operators\<close>

definition i64_mag :: "64 word \<Rightarrow> u64" where
  "i64_mag i = (if i <s 0 then - (i + 1) + 1 else i)"

definition arith_mul :: "64 word \<Rightarrow> 64 word \<Rightarrow> expr_error + 64 word" where
  "arith_mul lhs rhs =
     (let limit = I64_MAX + 1; lm = i64_mag lhs; rm = i64_mag rhs; negative = ((lhs <s 0) \<noteq> (rhs <s 0))
      in if lm \<noteq> 0 \<and> rm \<noteq> 0 \<and> lm > limit div rm then Inl EXPR_ERR_OVERFLOW
         else
           let m = lm * rm
           in if m > limit then Inl EXPR_ERR_OVERFLOW
              else if negative then Inr (if m = limit then I64_MIN else - m)
              else if m > I64_MAX then Inl EXPR_ERR_OVERFLOW
              else Inr m)"

definition arith_int :: "char \<Rightarrow> 64 word \<Rightarrow> 64 word \<Rightarrow> expr_error + 64 word" where
  "arith_int op lhs rhs =
     (if op = CHR ''+'' then
        (if 0 <s rhs \<and> I64_MAX - rhs <s lhs \<or> rhs <s 0 \<and> lhs <s I64_MIN - rhs then Inl EXPR_ERR_OVERFLOW
         else Inr (lhs + rhs))
      else if op = CHR ''-'' then
        (if rhs <s 0 \<and> I64_MAX + rhs <s lhs \<or> 0 <s rhs \<and> lhs <s I64_MIN + rhs then Inl EXPR_ERR_OVERFLOW
         else Inr (lhs - rhs))
      else if op = CHR ''*'' then arith_mul lhs rhs
      else if rhs = 0 then Inl EXPR_ERR_ZERO_DIVIDE
      else if lhs = I64_MIN \<and> rhs = - 1 then Inl EXPR_ERR_OVERFLOW
      else Inr (word_of_int (if op = CHR ''/'' then sint lhs sdiv sint rhs else sint lhs smod sint rhs)))"

definition arith_real :: "char \<Rightarrow> double \<Rightarrow> double \<Rightarrow> expr_error + double" where
  "arith_real op lhs rhs =
     (let finish = (\<lambda>x. if expr_is_finite x then Inr x else Inl EXPR_ERR_NOT_A_NUMBER)
      in if op = CHR ''*'' then finish (fp_mul lhs rhs)
         else if op = CHR ''/'' then (if fp_eq rhs 0 then Inl EXPR_ERR_ZERO_DIVIDE else finish (fp_div lhs rhs))
         else if op = CHR ''%'' then Inl EXPR_ERR_TYPE
         else if op = CHR ''+'' then finish (fp_add lhs rhs)
         else finish (fp_sub lhs rhs))"

text \<open>The operators \<open>* / % + -\<close>.\<close>

definition expr_arith :: "char \<Rightarrow> signal_value \<Rightarrow> signal_value \<Rightarrow> expr_error + signal_value" where
  "expr_arith op lhs rhs =
     (if expr_is_wild lhs \<or> expr_is_wild rhs then Inr Value_unset
      else if \<not> expr_is_numeric lhs \<or> \<not> expr_is_numeric rhs then Inl EXPR_ERR_TYPE
      else case (lhs, rhs) of
        (Value_int l, Value_int r) \<Rightarrow> map_sum id Value_int (arith_int op l r)
      | _ \<Rightarrow> map_sum id Value_real (arith_real op (expr_to_real lhs) (expr_to_real rhs)))"

definition expr_compare :: "char \<Rightarrow> bool \<Rightarrow> signal_value \<Rightarrow> signal_value \<Rightarrow> expr_error + signal_value" where
  "expr_compare op or_equal lhs rhs =
     (if expr_is_wild lhs \<or> expr_is_wild rhs then Inr (Value_bool False)
      else case (lhs, rhs) of
        (Value_bool l, Value_bool r) \<Rightarrow>
          if op \<noteq> CHR ''='' \<and> op \<noteq> CHR ''!'' then Inl EXPR_ERR_TYPE
          else Inr (Value_bool (if op = CHR ''='' then l = r else l \<noteq> r))
      | _ \<Rightarrow>
          if expr_is_numeric lhs \<and> expr_is_numeric rhs
          then
            let x = expr_to_real lhs; y = expr_to_real rhs
            in Inr (Value_bool
              (if op = CHR ''='' then fp_eq x y
               else if op = CHR ''!'' then \<not> fp_eq x y
               else if op = CHR ''<'' then (if or_equal then fp_le x y else fp_less x y)
               else (if or_equal then fp_le y x else fp_less y x)))
          else Inl EXPR_ERR_TYPE)"

definition expr_junction :: "(bool \<Rightarrow> bool \<Rightarrow> bool) \<Rightarrow> signal_value \<Rightarrow> signal_value \<Rightarrow> expr_error + signal_value" where
  "expr_junction f lhs rhs =
     (if expr_is_wild lhs \<or> expr_is_wild rhs then Inr (Value_bool False)
      else case (lhs, rhs) of
        (Value_bool l, Value_bool r) \<Rightarrow> Inr (Value_bool (f l r))
      | _ \<Rightarrow> Inl EXPR_ERR_TYPE)"

definition expr_not :: "signal_value \<Rightarrow> expr_error + signal_value" where
  "expr_not v =
     (if expr_is_wild v then Inr v
      else case v of Value_bool b \<Rightarrow> Inr (Value_bool (\<not> b)) | _ \<Rightarrow> Inl EXPR_ERR_TYPE)"

definition expr_negate :: "signal_value \<Rightarrow> expr_error + signal_value" where
  "expr_negate v =
     (case v of
        Value_bool _ \<Rightarrow> Inl EXPR_ERR_TYPE
      | Value_int i \<Rightarrow> if i = I64_MIN then Inl EXPR_ERR_OVERFLOW else Inr (Value_int (- i))
      | Value_real x \<Rightarrow> Inr (Value_real (fp_uminus x))
      | _ \<Rightarrow> Inr v)"


subsection \<open>Built-in functions\<close>

definition call_round :: "signal_value list \<Rightarrow> expr_error + signal_value" where
  "call_round args =
     (if length args \<noteq> 1 then Inl EXPR_ERR_FUNCTION
      else if list_ex expr_is_wild args then Inr (Value_int 0)
      else case args ! 0 of
        Value_int i \<Rightarrow> Inr (Value_int i)
      | Value_real x \<Rightarrow> (case expr_round x of None \<Rightarrow> Inl EXPR_ERR_DOMAIN | Some i \<Rightarrow> Inr (Value_int i))
      | _ \<Rightarrow> Inl EXPR_ERR_TYPE)"

definition call_abs :: "signal_value list \<Rightarrow> expr_error + signal_value" where
  "call_abs args =
     (if length args \<noteq> 1 then Inl EXPR_ERR_FUNCTION
      else if list_ex expr_is_wild args then Inr Value_unset
      else case args ! 0 of
        Value_int i \<Rightarrow> if i = I64_MIN then Inl EXPR_ERR_OVERFLOW else Inr (Value_int (if i <s 0 then - i else i))
      | Value_real x \<Rightarrow> Inr (Value_real (if fp_less x 0 then fp_uminus x else x))
      | _ \<Rightarrow> Inl EXPR_ERR_TYPE)"

definition call_min_max :: "bool \<Rightarrow> signal_value list \<Rightarrow> expr_error + signal_value" where
  "call_min_max want_min args =
     (if length args \<noteq> 2 then Inl EXPR_ERR_FUNCTION
      else if list_ex expr_is_wild args then Inr Value_unset
      else if \<not> list_all expr_is_numeric args then Inl EXPR_ERR_TYPE
      else
        let x = expr_to_real (args ! 0); y = expr_to_real (args ! 1);
            first_smaller = fp_less x y; equal = fp_eq x y;
            pick = (if (if want_min then first_smaller \<or> equal else \<not> first_smaller \<or> equal) then args ! 0 else args ! 1)
        in Inr (if expr_any_real args then Value_real (expr_to_real pick) else pick))"

definition call_clamp :: "signal_value list \<Rightarrow> expr_error + signal_value" where
  "call_clamp args =
     (if length args \<noteq> 3 then Inl EXPR_ERR_FUNCTION
      else if list_ex expr_is_wild args then Inr Value_unset
      else if \<not> list_all expr_is_numeric args then Inl EXPR_ERR_TYPE
      else
        let low = expr_to_real (args ! 1); high = expr_to_real (args ! 2); v0 = expr_to_real (args ! 0)
        in if fp_less high low then Inl EXPR_ERR_DOMAIN
           else
             let v = (if fp_less v0 low then low else if fp_less high v0 then high else v0)
             in if expr_any_real args then Inr (Value_real v)
                else (case expr_round v of None \<Rightarrow> Inl EXPR_ERR_DOMAIN | Some i \<Rightarrow> Inr (Value_int i)))"

text \<open>An unknown name fails without an error of its own, for which the caller records FUNCTION.\<close>

definition expr_apply_call :: "string \<Rightarrow> signal_value list \<Rightarrow> expr_error + signal_value" where
  "expr_apply_call name args =
     (if name = ''round'' then call_round args
      else if name = ''abs'' then call_abs args
      else if name = ''min'' \<or> name = ''max'' then call_min_max (name = ''min'') args
      else if name = ''clamp'' then call_clamp args
      else Inl EXPR_ERR_FUNCTION)"

definition expr_builtins :: "string list" where
  "expr_builtins = [''min'', ''max'', ''clamp'', ''abs'', ''round'']"

subsection \<open>Names\<close>

record expr_context =
  xc_read_signal :: "(string \<Rightarrow> fsm_status \<times> signal_value) option"
  xc_read_variable :: "(string \<Rightarrow> fsm_status \<times> signal_value) option"
  xc_event :: "event option"

record expr_env =
  xe_text :: string
  xe_context :: "expr_context option"
  xe_validate_only :: bool

definition expr_event_fields :: "string list" where
  "expr_event_fields =
     [''event_id'', ''timestamp_us'', ''sequence'', ''cause_sequence'', ''priority_class'',
      ''type'', ''interface_id'', ''can_id'', ''length'', ''signal_id'',
      ''value'', ''timer_id'', ''instance_id'', ''missed_count'', ''state_id'',
      ''fault_code'', ''severity'', ''from_mode'', ''to_mode'', ''reason_code'']"

fun severity_code :: "fault_severity \<Rightarrow> int" where
  "severity_code FAULT_SEVERITY_INFO = 0"
| "severity_code FAULT_SEVERITY_WARNING = 1"
| "severity_code FAULT_SEVERITY_ERROR = 2"
| "severity_code FAULT_SEVERITY_CRITICAL = 3"
| "severity_code FAULT_SEVERITY_COUNT = 4"

fun mode_code :: "mode \<Rightarrow> int" where
  "mode_code MODE_BOOT = 0"
| "mode_code MODE_CONFIG = 1"
| "mode_code MODE_LISTEN_ONLY = 2"
| "mode_code MODE_ACTIVE = 3"
| "mode_code MODE_SAFE = 4"
| "mode_code MODE_OFF = 5"
| "mode_code MODE_COUNT = 6"

text \<open>
  The fields of the payload member an event type selects. The all-zero union reads as zeros, and its
  signal value as unset; a payload of another constructor, which no builder of events makes, has
  no fields. Only the \<open>value\<close> of a changed signal can be absent.
\<close>

definition zero_fields :: "event_type \<Rightarrow> string list" where
  "zero_fields ty = (case ty of
       EVENT_TYPE_CAN_RX \<Rightarrow> [''interface_id'', ''can_id'', ''length'']
     | EVENT_TYPE_SIGNAL_CHANGED \<Rightarrow> [''signal_id'']
     | EVENT_TYPE_TIMER_EXPIRED \<Rightarrow> [''timer_id'', ''instance_id'', ''missed_count'']
     | EVENT_TYPE_STATE_ENTERED \<Rightarrow> [''instance_id'', ''state_id'']
     | EVENT_TYPE_STATE_EXITED \<Rightarrow> [''instance_id'', ''state_id'']
     | EVENT_TYPE_FAULT_RAISED \<Rightarrow> [''fault_code'', ''severity'']
     | EVENT_TYPE_POWER_MODE_CHANGED \<Rightarrow> [''from_mode'', ''to_mode'', ''reason_code'']
     | _ \<Rightarrow> [])"

definition payload_fields :: "event_type \<Rightarrow> event_payload \<Rightarrow> (string \<times> signal_value option) list" where
  "payload_fields ty payload =
     (case (ty, payload) of
        (EVENT_TYPE_CAN_RX, Payload_can_rx p) \<Rightarrow>
          [(''interface_id'', Some (expr_from_u64 (ucast (rx_interface_id p)))),
           (''can_id'', Some (expr_from_u64 (ucast (rx_can_id p)))),
           (''length'', Some (expr_from_u64 (ucast (rx_length p))))]
      | (EVENT_TYPE_SIGNAL_CHANGED, Payload_signal_changed p) \<Rightarrow>
          [(''signal_id'', Some (expr_from_u64 (ucast (sc_signal_id p)))),
           (''value'', expr_from_value (sc_new_value p))]
      | (EVENT_TYPE_TIMER_EXPIRED, Payload_timer_expired p) \<Rightarrow>
          [(''timer_id'', Some (expr_from_u64 (ucast (te_timer_id p)))),
           (''instance_id'', Some (expr_from_u64 (ucast (te_instance_id p)))),
           (''missed_count'', Some (expr_from_u64 (ucast (te_missed_count p))))]
      | (EVENT_TYPE_STATE_ENTERED, Payload_state p) \<Rightarrow>
          [(''instance_id'', Some (expr_from_u64 (ucast (st_instance_id p)))),
           (''state_id'', Some (expr_from_u64 (ucast (st_state_id p))))]
      | (EVENT_TYPE_STATE_EXITED, Payload_state p) \<Rightarrow>
          [(''instance_id'', Some (expr_from_u64 (ucast (st_instance_id p)))),
           (''state_id'', Some (expr_from_u64 (ucast (st_state_id p))))]
      | (EVENT_TYPE_FAULT_RAISED, Payload_fault p) \<Rightarrow>
          [(''fault_code'', Some (expr_from_u64 (ucast (fr_fault_code p)))),
           (''severity'', Some (expr_from_u64 (word_of_int (severity_code (fr_severity p)))))]
      | (EVENT_TYPE_POWER_MODE_CHANGED, Payload_mode p) \<Rightarrow>
          [(''from_mode'', Some (expr_from_u64 (word_of_int (mode_code (mc_from_mode p))))),
           (''to_mode'', Some (expr_from_u64 (word_of_int (mode_code (mc_to_mode p))))),
           (''reason_code'', Some (expr_from_u64 (ucast (mc_reason_code p))))]
      | (_, Payload_zero) \<Rightarrow> List.map (\<lambda>n. (n, Some (Value_int 0))) (zero_fields ty)
      | _ \<Rightarrow> [])"

definition expr_field_value :: "event \<Rightarrow> string \<Rightarrow> signal_value option" where
  "expr_field_value e name =
     (case map_of
        ([(''event_id'', Some (expr_from_u64 (ucast (ev_event_id e)))),
          (''timestamp_us'', Some (expr_from_u64 (ev_timestamp_us e))),
          (''sequence'', Some (expr_from_u64 (ucast (ev_sequence e)))),
          (''cause_sequence'', Some (expr_from_u64 (ucast (ev_cause_sequence e)))),
          (''priority_class'', Some (expr_from_u64 (word_of_int (priority_code (ev_priority_class e))))),
          (''type'', Some (expr_from_u64 (word_of_int (event_type_code (ev_type e)))))]
         @ payload_fields (ev_type e) (ev_payload e)) name of
        None \<Rightarrow> None
      | Some v \<Rightarrow> v)"

text \<open>A read through a callback: what the two callbacks have in common.\<close>

definition expr_read :: "(string \<Rightarrow> fsm_status \<times> signal_value) option \<Rightarrow> bool \<Rightarrow> string \<Rightarrow> expr_error + signal_value" where
  "expr_read read_fn denied_is_fault name =
     (case read_fn of
        None \<Rightarrow> Inl EXPR_ERR_UNDEFINED
      | Some f \<Rightarrow> (case f name of (st, v) \<Rightarrow>
          if denied_is_fault \<and> st = FSM_ERR_DENIED then Inl EXPR_ERR_UNAUTHORIZED
          else if st \<noteq> FSM_OK then Inl EXPR_ERR_UNDEFINED
          else (case expr_from_value v of None \<Rightarrow> Inl EXPR_ERR_UNDEFINED | Some w \<Rightarrow> Inr w)))"

definition expr_resolve :: "expr_env \<Rightarrow> string \<Rightarrow> expr_error + signal_value" where
  "expr_resolve env name =
     (let prefix = take 4 name; rest = drop 4 name;
          wild_or = (\<lambda>r. if xe_validate_only env then Inr Value_unset else r)
      in if length name > 4 \<and> prefix = ''sig.'' then
           (if length rest \<ge> FSM_NAME_MAX then Inl EXPR_ERR_NAMESPACE
            else wild_or (case xe_context env of None \<Rightarrow> Inl EXPR_ERR_UNDEFINED
              | Some c \<Rightarrow> expr_read (xc_read_signal c) True rest))
         else if length name > 4 \<and> prefix = ''var.'' then
           (if length rest \<ge> FSM_NAME_MAX then Inl EXPR_ERR_NAMESPACE
            else wild_or (case xe_context env of None \<Rightarrow> Inl EXPR_ERR_UNDEFINED
              | Some c \<Rightarrow> expr_read (xc_read_variable c) False rest))
         else if length name > 4 \<and> prefix = ''evt.'' then
           (if rest \<notin> set expr_event_fields then Inl EXPR_ERR_NAMESPACE
            else wild_or (case xe_context env of None \<Rightarrow> Inl EXPR_ERR_UNDEFINED
              | Some c \<Rightarrow> (case xc_event c of None \<Rightarrow> Inl EXPR_ERR_UNDEFINED
                | Some e \<Rightarrow> (case expr_field_value e rest of
                    None \<Rightarrow> Inl EXPR_ERR_UNDEFINED | Some v \<Rightarrow> Inr v))))
         else Inl EXPR_ERR_NAMESPACE)"


subsection \<open>Characters\<close>

definition char_at :: "string \<Rightarrow> nat \<Rightarrow> char" where
  "char_at text pos = (if pos < length text then text ! pos else CHR 0x00)"

function skip_space :: "string \<Rightarrow> nat \<Rightarrow> nat" where
  "skip_space text pos =
     (if pos < length text \<and> (text ! pos = CHR '' '' \<or> text ! pos = CHR 0x09) then skip_space text (pos + 1) else pos)"
  by pat_completeness auto
termination by (relation "measure (\<lambda>(text, pos). length text - pos)") auto

declare skip_space.simps [simp del]

text \<open>\<open>fsm_expr_accept_char\<close>: whether the character is there, and the position afterwards.\<close>

definition accept_char :: "string \<Rightarrow> char \<Rightarrow> nat \<Rightarrow> bool \<times> nat" where
  "accept_char text c pos =
     (let p = skip_space text pos in if char_at text p = c then (True, p + 1) else (False, p))"

definition char_in_range :: "char \<Rightarrow> char \<Rightarrow> char \<Rightarrow> bool" where
  "char_in_range low high c \<longleftrightarrow> low \<le> c \<and> c \<le> high"

definition expr_is_digit :: "char \<Rightarrow> bool" where
  "expr_is_digit c \<longleftrightarrow> char_in_range (CHR ''0'') (CHR ''9'') c"

definition expr_is_ident_start :: "char \<Rightarrow> bool" where
  "expr_is_ident_start c \<longleftrightarrow>
     char_in_range (CHR ''a'') (CHR ''z'') c \<or> char_in_range (CHR ''A'') (CHR ''Z'') c \<or> c = CHR ''_''"

definition expr_is_ident_char :: "char \<Rightarrow> bool" where
  "expr_is_ident_char c \<longleftrightarrow> expr_is_ident_start c \<or> expr_is_digit c"

definition accept_word :: "string \<Rightarrow> string \<Rightarrow> nat \<Rightarrow> bool \<times> nat" where
  "accept_word text word pos =
     (let p = skip_space text pos; q = p + length word
      in if take (length word) (drop p text) \<noteq> word then (False, p)
         else if q < length text \<and> (expr_is_ident_char (text ! q) \<or> text ! q = CHR ''.'') then (False, p)
         else (True, q))"

subsection \<open>Numbers\<close>

text \<open>
  \<open>strtod\<close> on the tokens the scanner makes: an optional integer part, fraction and exponent, all
  decimal. The conversion is correctly rounded; \<open>errno\<close> is \<open>ERANGE\<close> when the result overflows, or
  is below the normal range and inexact. The exponent is bounded before the power is computed.
\<close>

definition digits_value :: "string \<Rightarrow> int" where
  "digits_value ds = foldl (\<lambda>v c. 10 * v + (of_char c - 48)) 0 ds"

definition decimal_to_double :: "string \<Rightarrow> int \<Rightarrow> double \<times> bool" where
  "decimal_to_double ds e10 =
     (let sig = dropWhile (\<lambda>c. c = CHR ''0'') ds; m = digits_value sig; scale = int (length sig) + e10
      in if sig = [] then (0, False)
         else if scale > 310 then (fp_pattern False FP_INF_MAG, True)
         else if scale < - 330 then (0, True)
         else
           let n = m * 10 ^ nat e10; d = 10 ^ nat (- e10); x = fp_round False n d 1074
           in (x, fp_inf x \<or> fp_mag x < 2 ^ 52 \<and> fp_units x * d \<noteq> n * 2 ^ 1074))"

text \<open>The value, \<open>ERANGE\<close>, and whether the whole token was consumed.\<close>

definition strtod_token :: "string \<Rightarrow> double \<times> bool \<times> bool" where
  "strtod_token token =
     (let whole = takeWhile expr_is_digit token; r1 = drop (length whole) token;
          frac = (if r1 \<noteq> [] \<and> hd r1 = CHR ''.'' then takeWhile expr_is_digit (tl r1) else []);
          r2 = (if r1 \<noteq> [] \<and> hd r1 = CHR ''.'' then drop (length frac) (tl r1) else r1);
          has_exp = (r2 \<noteq> [] \<and> hd r2 \<in> {CHR ''e'', CHR ''E''});
          sign = (if has_exp \<and> tl r2 \<noteq> [] \<and> hd (tl r2) \<in> {CHR ''+'', CHR ''-''} then 1 else 0);
          ex = (if has_exp then takeWhile expr_is_digit (drop (1 + sign) r2) else []);
          e = (if sign = 1 \<and> hd (tl r2) = CHR ''-'' then - digits_value ex else digits_value ex);
          rest = (if ex = [] then r2 else drop (1 + sign + length ex) r2)
      in case decimal_to_double (whole @ frac) (e - int (length frac)) of (x, erange) \<Rightarrow> (x, erange, rest = []))"

record number_scan =
  ns_token :: string
  ns_is_real :: bool
  ns_seen_digit :: bool
  ns_seen_fraction_digit :: bool
  ns_magnitude :: u64
  ns_overflow :: bool

definition number_start :: number_scan where
  "number_start = \<lparr>ns_token = [], ns_is_real = False, ns_seen_digit = False, ns_seen_fraction_digit = False,
     ns_magnitude = 0, ns_overflow = False\<rparr>"

definition scan_digit :: "number_scan \<Rightarrow> char \<Rightarrow> number_scan" where
  "scan_digit s c =
     (let digit = of_char c - 48;
          s1 = (if ns_is_real s then s
                else if ns_magnitude s > (0xFFFFFFFFFFFFFFFF - digit) div 10 then s\<lparr>ns_overflow := True\<rparr>
                else s\<lparr>ns_magnitude := ns_magnitude s * 10 + digit\<rparr>)
      in s1\<lparr>ns_seen_digit := True\<rparr>)"

definition exponent_end :: "string \<Rightarrow> nat \<Rightarrow> nat \<times> bool" where
  "exponent_end text pos =
     (let n1 = (if pos + 1 < length text \<and> (text ! (pos + 1) = CHR ''+'' \<or> text ! (pos + 1) = CHR ''-'')
                then pos + 2 else pos + 1);
          ds = takeWhile expr_is_digit (drop n1 text)
      in (n1 + length ds, ds \<noteq> []))"

lemma exponent_end_after: "pos < fst (exponent_end text pos)"
  by (simp add: exponent_end_def Let_def)

text \<open>A parser result: the value and the position after it, the error and the offset recorded with
  it, or no result, when a loop would not end.\<close>

datatype 'a parsed = Parsed 'a nat | Failed expr_error nat | Stuck

function scan_number :: "string \<Rightarrow> number_scan \<Rightarrow> nat \<Rightarrow> number_scan parsed" where
  "scan_number text s pos =
     (if pos \<ge> length text then Parsed s pos
      else
        let c = text ! pos
        in if expr_is_digit c then
             let s1 = scan_digit s c
             in if length (ns_token s) + 1 \<ge> NUMBER_TOKEN_MAX then Failed EXPR_ERR_SYNTAX pos
                else scan_number text (s1\<lparr>ns_token := ns_token s @ [c]\<rparr>) (pos + 1)
           else if \<not> ns_is_real s \<and> c = CHR ''.'' \<and> expr_is_digit (char_at text (pos + 1)) then
             if length (ns_token s) + 1 \<ge> NUMBER_TOKEN_MAX then Failed EXPR_ERR_SYNTAX pos
             else scan_number text
               (s\<lparr>ns_is_real := True, ns_token := ns_token s @ [c], ns_seen_fraction_digit := True\<rparr>) (pos + 1)
           else if ns_seen_digit s \<and> (c = CHR ''e'' \<or> c = CHR ''E'') then
             let nx = fst (exponent_end text pos)
             in if \<not> snd (exponent_end text pos) then Failed EXPR_ERR_SYNTAX pos
                else if length (ns_token s) + (nx - pos) \<ge> NUMBER_TOKEN_MAX then Failed EXPR_ERR_SYNTAX pos
                else scan_number text
                  (s\<lparr>ns_is_real := True, ns_token := ns_token s @ take (nx - pos) (drop pos text)\<rparr>) nx
           else Parsed s pos)"
  by pat_completeness auto

termination
  by (relation "measure (\<lambda>(text, s, pos). length text - pos)")
    (auto intro: diff_less_mono2 exponent_end_after)

declare scan_number.simps [simp del]

definition number_value :: "number_scan \<Rightarrow> expr_error + signal_value" where
  "number_value s =
     (if \<not> ns_seen_digit s then Inl EXPR_ERR_SYNTAX
      else case strtod_token (ns_token s) of (x, erange, whole) \<Rightarrow>
        if \<not> ns_is_real s then
          (if ns_overflow s \<or> ns_magnitude s > I64_MAX
           then (if expr_is_finite x then Inr (Value_real x) else Inl EXPR_ERR_OVERFLOW)
           else Inr (Value_int (ns_magnitude s)))
        else if \<not> whole \<or> erange \<or> \<not> expr_is_finite x
        then Inl (if ns_seen_fraction_digit s then EXPR_ERR_NOT_A_NUMBER else EXPR_ERR_OVERFLOW)
        else Inr (Value_real x))"

definition parse_number :: "expr_env \<Rightarrow> nat \<Rightarrow> signal_value parsed" where
  "parse_number env pos =
     (case scan_number (xe_text env) number_start pos of
        Parsed s p \<Rightarrow> (case number_value s of
            Inl e \<Rightarrow> Failed e p
          | Inr v \<Rightarrow> Parsed (if xe_validate_only env then Value_unset else v) p)
      | Failed e p \<Rightarrow> Failed e p
      | Stuck \<Rightarrow> Stuck)"

subsection \<open>The grammar\<close>

text \<open>
  The loop of the binary operators: \<open>next\<close> looks for an operator, \<open>operand\<close> parses the right
  operand, \<open>combine\<close> applies. The first argument bounds the number of operators: each takes a
  character, so the length of the text is enough.
\<close>

fun operator_loop :: "nat \<Rightarrow> (nat \<Rightarrow> char option \<times> nat) \<Rightarrow> (nat \<Rightarrow> signal_value parsed)
    \<Rightarrow> (char \<Rightarrow> signal_value \<Rightarrow> signal_value \<Rightarrow> expr_error + signal_value)
    \<Rightarrow> signal_value \<Rightarrow> nat \<Rightarrow> signal_value parsed" where
  "operator_loop 0 next_op operand combine lhs pos = Stuck"
| "operator_loop (Suc n) next_op operand combine lhs pos =
     (case next_op pos of
        (None, p) \<Rightarrow> Parsed lhs p
      | (Some op, p) \<Rightarrow> (case operand p of
          Parsed rhs q \<Rightarrow> (case combine op lhs rhs of
              Inl e \<Rightarrow> Failed e q
            | Inr v \<Rightarrow> operator_loop n next_op operand combine v q)
        | Failed e q \<Rightarrow> Failed e q
        | Stuck \<Rightarrow> Stuck))"

definition next_word :: "string \<Rightarrow> string \<Rightarrow> nat \<Rightarrow> char option \<times> nat" where
  "next_word text word pos = (case accept_word text word pos of (b, p) \<Rightarrow> (if b then Some (hd word) else None, p))"

definition next_symbol :: "string \<Rightarrow> char list \<Rightarrow> nat \<Rightarrow> char option \<times> nat" where
  "next_symbol text symbols pos =
     (let p = skip_space text pos; c = char_at text p
      in if c \<in> set symbols then (Some c, p + 1) else (None, p))"

text \<open>The comparison operator at a position, with its length: \<open>None\<close> when there is none,
  \<open>Some None\<close> when its first character is there but not the operator.\<close>

definition compare_token :: "char \<Rightarrow> char \<Rightarrow> (char \<times> bool \<times> nat) option option" where
  "compare_token c1 c2 =
     (if c1 \<noteq> CHR ''='' \<and> c1 \<noteq> CHR ''!'' \<and> c1 \<noteq> CHR ''<'' \<and> c1 \<noteq> CHR ''>'' then None
      else if c1 = CHR ''='' \<and> c2 = CHR ''='' then Some (Some (CHR ''='', False, 2))
      else if c1 = CHR ''!'' \<and> c2 = CHR ''='' then Some (Some (CHR ''!'', False, 2))
      else if c1 = CHR ''<'' \<and> c2 = CHR ''='' then Some (Some (CHR ''<'', True, 2))
      else if c1 = CHR ''>'' \<and> c2 = CHR ''='' then Some (Some (CHR ''>'', True, 2))
      else if c1 = CHR ''<'' \<or> c1 = CHR ''>'' then Some (Some (c1, False, 1))
      else Some None)"

definition ident_end :: "string \<Rightarrow> nat \<Rightarrow> nat" where
  "ident_end text pos = pos + length (takeWhile (\<lambda>c. expr_is_ident_char c \<or> c = CHR ''.'') (drop pos text))"

definition lift_result :: "nat \<Rightarrow> expr_error + 'a \<Rightarrow> 'a parsed" where
  "lift_result pos r = (case r of Inl e \<Rightarrow> Failed e pos | Inr v \<Rightarrow> Parsed v pos)"


text \<open>
  One function per grammar level. \<open>depth\<close> is the depth on entry; \<open>fsm_expr_enter\<close> is the test and the
  \<open>depth + 1\<close> of the calls.
\<close>

function (sequential)
  parse_or :: "expr_env \<Rightarrow> nat \<Rightarrow> nat \<Rightarrow> signal_value parsed" and
  parse_and :: "expr_env \<Rightarrow> nat \<Rightarrow> nat \<Rightarrow> signal_value parsed" and
  parse_not :: "expr_env \<Rightarrow> nat \<Rightarrow> nat \<Rightarrow> signal_value parsed" and
  parse_cmp :: "expr_env \<Rightarrow> nat \<Rightarrow> nat \<Rightarrow> signal_value parsed" and
  parse_add :: "expr_env \<Rightarrow> nat \<Rightarrow> nat \<Rightarrow> signal_value parsed" and
  parse_mul :: "expr_env \<Rightarrow> nat \<Rightarrow> nat \<Rightarrow> signal_value parsed" and
  parse_unary :: "expr_env \<Rightarrow> nat \<Rightarrow> nat \<Rightarrow> signal_value parsed" and
  parse_primary :: "expr_env \<Rightarrow> nat \<Rightarrow> nat \<Rightarrow> signal_value parsed" and
  parse_call :: "expr_env \<Rightarrow> nat \<Rightarrow> string \<Rightarrow> nat \<Rightarrow> signal_value parsed" and
  parse_args :: "expr_env \<Rightarrow> nat \<Rightarrow> signal_value list \<Rightarrow> nat \<Rightarrow> signal_value list parsed"
where
  "parse_or env depth pos =
     (if depth \<ge> EXPRESSION_MAX_DEPTH then Failed EXPR_ERR_DEPTH pos
      else case parse_and env (depth + 1) pos of
        Parsed v p \<Rightarrow> operator_loop (Suc (length (xe_text env))) (next_word (xe_text env) ''or'')
          (\<lambda>q. parse_and env (depth + 1) q) (\<lambda>_. expr_junction (\<or>)) v p
      | r \<Rightarrow> r)"
| "parse_and env depth pos =
     (case parse_not env depth pos of
        Parsed v p \<Rightarrow> operator_loop (Suc (length (xe_text env))) (next_word (xe_text env) ''and'')
          (\<lambda>q. parse_not env depth q) (\<lambda>_. expr_junction (\<and>)) v p
      | r \<Rightarrow> r)"
| "parse_not env depth pos =
     (if depth \<ge> EXPRESSION_MAX_DEPTH then Failed EXPR_ERR_DEPTH pos
      else case accept_word (xe_text env) ''not'' pos of
        (True, p) \<Rightarrow> (case parse_not env (depth + 1) p of
            Parsed v q \<Rightarrow> lift_result q (expr_not v)
          | r \<Rightarrow> r)
      | (False, p) \<Rightarrow> parse_cmp env (depth + 1) p)"
| "parse_cmp env depth pos =
     (case parse_add env depth pos of
        Parsed lhs p \<Rightarrow>
          let q = skip_space (xe_text env) p
          in (case compare_token (char_at (xe_text env) q) (char_at (xe_text env) (q + 1)) of
            None \<Rightarrow> Parsed lhs q
          | Some None \<Rightarrow> Failed EXPR_ERR_SYNTAX q
          | Some (Some (op, or_equal, n)) \<Rightarrow> (case parse_add env depth (q + n) of
              Parsed rhs r \<Rightarrow> lift_result r (expr_compare op or_equal lhs rhs)
            | r \<Rightarrow> r))
      | r \<Rightarrow> r)"
| "parse_add env depth pos =
     (if depth \<ge> EXPRESSION_MAX_DEPTH then Failed EXPR_ERR_DEPTH pos
      else case parse_mul env (depth + 1) pos of
        Parsed v p \<Rightarrow> operator_loop (Suc (length (xe_text env))) (next_symbol (xe_text env) ''+-'')
          (\<lambda>q. parse_mul env (depth + 1) q) expr_arith v p
      | r \<Rightarrow> r)"
| "parse_mul env depth pos =
     (if depth \<ge> EXPRESSION_MAX_DEPTH then Failed EXPR_ERR_DEPTH pos
      else case parse_unary env (depth + 1) pos of
        Parsed v p \<Rightarrow> operator_loop (Suc (length (xe_text env))) (next_symbol (xe_text env) ''*/%'')
          (\<lambda>q. parse_unary env (depth + 1) q) expr_arith v p
      | r \<Rightarrow> r)"
| "parse_unary env depth pos =
     (if depth \<ge> EXPRESSION_MAX_DEPTH then Failed EXPR_ERR_DEPTH pos
      else case accept_char (xe_text env) (CHR ''-'') pos of
        (True, p) \<Rightarrow> (case parse_unary env (depth + 1) p of
            Parsed v q \<Rightarrow> lift_result q (expr_negate v)
          | r \<Rightarrow> r)
      | (False, p) \<Rightarrow> (case accept_char (xe_text env) (CHR ''+'') p of
            (True, q) \<Rightarrow> Failed EXPR_ERR_SYNTAX q
          | (False, q) \<Rightarrow> parse_primary env (depth + 1) q))"
| "parse_primary env depth pos =
     (let text = xe_text env; p = skip_space text pos; c = char_at text p;
          (is_true, pt) = accept_word text ''true'' p; (is_false, pf) = accept_word text ''false'' p
      in if c = CHR 0x00 then Failed EXPR_ERR_SYNTAX p
         else if c = CHR ''('' then
           (case parse_or env depth (p + 1) of
              Parsed v q \<Rightarrow> (case accept_char text (CHR '')'') q of
                  (True, r) \<Rightarrow> Parsed v r | (False, r) \<Rightarrow> Failed EXPR_ERR_SYNTAX r)
            | r \<Rightarrow> r)
         else if expr_is_digit c \<or> c = CHR ''.'' \<and> expr_is_digit (char_at text (p + 1)) then parse_number env p
         else if is_true then Parsed (if xe_validate_only env then Value_unset else Value_bool True) pt
         else if is_false then Parsed (if xe_validate_only env then Value_unset else Value_bool False) pf
         else if expr_is_ident_start c then
           (let e = ident_end text p; name = take (e - p) (drop p text); q = skip_space text e
            in if char_at text q = CHR ''('' then parse_call env depth name q
               else lift_result q (expr_resolve env name))
         else Failed EXPR_ERR_SYNTAX p)"
| "parse_call env depth name pos =
     (if name \<notin> set expr_builtins then Failed EXPR_ERR_FUNCTION pos
      else case accept_char (xe_text env) (CHR ''('') pos of
        (False, p) \<Rightarrow> Failed EXPR_ERR_SYNTAX p
      | (True, p) \<Rightarrow>
          (case (let q = skip_space (xe_text env) p
                 in if char_at (xe_text env) q \<noteq> CHR '')'' then parse_args env depth [] q else Parsed [] q) of
            Parsed args q \<Rightarrow> (case accept_char (xe_text env) (CHR '')'') q of
                (True, r) \<Rightarrow> lift_result r (expr_apply_call name args)
              | (False, r) \<Rightarrow> Failed EXPR_ERR_SYNTAX r)
          | Failed e q \<Rightarrow> Failed e q
          | Stuck \<Rightarrow> Stuck))"
| "parse_args env depth args pos =
     (if length args \<ge> 3 then Failed EXPR_ERR_FUNCTION pos
      else if depth \<ge> EXPRESSION_MAX_DEPTH then Failed EXPR_ERR_DEPTH pos
      else case parse_or env (depth + 1) pos of
        Parsed v p \<Rightarrow> (case accept_char (xe_text env) (CHR '','') p of
            (True, q) \<Rightarrow> parse_args env depth (args @ [v]) q
          | (False, q) \<Rightarrow> Parsed (args @ [v]) q)
      | Failed e p \<Rightarrow> Failed e p
      | Stuck \<Rightarrow> Stuck)"
  by pat_completeness auto

termination
  by (relation "measures
    [case_sum (case_sum (case_sum (\<lambda>(env, d, p). EXPRESSION_MAX_DEPTH - d) (\<lambda>(env, d, p). EXPRESSION_MAX_DEPTH - d)) (case_sum (\<lambda>(env, d, p). EXPRESSION_MAX_DEPTH - d) (case_sum (\<lambda>(env, d, p). EXPRESSION_MAX_DEPTH - d) (\<lambda>(env, d, p). EXPRESSION_MAX_DEPTH - d)))) (case_sum (case_sum (\<lambda>(env, d, p). EXPRESSION_MAX_DEPTH - d) (\<lambda>(env, d, p). EXPRESSION_MAX_DEPTH - d)) (case_sum (\<lambda>(env, d, p). EXPRESSION_MAX_DEPTH - d) (case_sum (\<lambda>(env, d, x, p). EXPRESSION_MAX_DEPTH - d) (\<lambda>(env, d, x, p). EXPRESSION_MAX_DEPTH - d)))),
     case_sum (case_sum (case_sum (\<lambda>_. 0) (\<lambda>_. 1)) (case_sum (\<lambda>_. 0) (case_sum (\<lambda>_. 1) (\<lambda>_. 0)))) (case_sum (case_sum (\<lambda>_. 0) (\<lambda>_. 0)) (case_sum (\<lambda>_. 3) (case_sum (\<lambda>_. 2) (\<lambda>_. 1)))),
     case_sum (case_sum (case_sum (\<lambda>_. 0) (\<lambda>_. 0)) (case_sum (\<lambda>_. 0) (case_sum (\<lambda>_. 0) (\<lambda>_. 0)))) (case_sum (case_sum (\<lambda>_. 0) (\<lambda>_. 0)) (case_sum (\<lambda>_. 0) (case_sum (\<lambda>_. 0) (\<lambda>(env, d, args, p). 3 - length args))))]")
    auto

declare parse_or.simps [simp del] parse_and.simps [simp del] parse_not.simps [simp del] parse_cmp.simps [simp del]
  parse_add.simps [simp del] parse_mul.simps [simp del] parse_unary.simps [simp del] parse_primary.simps [simp del]
  parse_call.simps [simp del] parse_args.simps [simp del]


subsection \<open>Entry points\<close>

text \<open>
  \<open>cancestry_fsm_expression_evaluate\<close>: \<open>Inl\<close> is the result false with the error stored through
  \<open>error_out\<close>, \<open>Inr\<close> the result true with the value stored through \<open>result_out\<close>; \<open>None\<close> would be a
  call that does not return. \<open>cancestry_fsm_expression_validate\<close> gives the error and its offset, or
  the result true.
\<close>

definition expression_evaluate :: "string option \<Rightarrow> expr_context option \<Rightarrow> (expr_error + signal_value) option" where
  "expression_evaluate text context = (case text of
       None \<Rightarrow> Some (Inl EXPR_ERR_LENGTH)
     | Some t \<Rightarrow>
         if length t > FSM_EXPRESSION_MAX then Some (Inl EXPR_ERR_LENGTH)
         else (case parse_or \<lparr>xe_text = t, xe_context = context, xe_validate_only = (context = None)\<rparr> 0 0 of
           Failed e _ \<Rightarrow> Some (Inl e)
         | Parsed v p \<Rightarrow>
             if p < length t then Some (Inl EXPR_ERR_TRAILING)
             else if v = Value_unset then Some (Inl EXPR_ERR_UNDEFINED)
             else Some (Inr v)
         | Stuck \<Rightarrow> None))"

definition expression_validate :: "string option \<Rightarrow> (expr_error \<times> nat + unit) option" where
  "expression_validate text = (case text of
       None \<Rightarrow> Some (Inl (EXPR_ERR_LENGTH, 0))
     | Some t \<Rightarrow>
         if length t > FSM_EXPRESSION_MAX then Some (Inl (EXPR_ERR_LENGTH, 0))
         else (case parse_or \<lparr>xe_text = t, xe_context = None, xe_validate_only = True\<rparr> 0 0 of
           Failed e off \<Rightarrow> Some (Inl (e, off))
         | Parsed v p \<Rightarrow> if p < length t then Some (Inl (EXPR_ERR_TRAILING, p)) else Some (Inr ())
         | Stuck \<Rightarrow> None))"

definition result_is_guard :: "signal_value option \<Rightarrow> bool" where
  "result_is_guard result \<longleftrightarrow> (case result of Some (Value_bool _) \<Rightarrow> True | _ \<Rightarrow> False)"

end
