(* ===== verification/Fsm_Expression_Properties.thy ===== *)
theory Fsm_Expression_Properties
  imports Fsm_Expression
begin

text \<open>
  Properties of the expression evaluator: the parser always returns and stays inside the text, what
  validation accepts has no structural error at run time, results are typed, integer arithmetic is
  exact.
\<close>

lemmas parse_induct = parse_or_parse_and_parse_not_parse_cmp_parse_add_parse_mul_parse_unary_parse_primary_parse_call_parse_args.induct

lemmas parse_unfold = parse_or.simps parse_and.simps parse_not.simps parse_cmp.simps parse_add.simps
  parse_mul.simps parse_unary.simps parse_primary.simps parse_call.simps parse_args.simps

subsection \<open>Positions\<close>

lemma skip_space_range: "pos \<le> length tx \<Longrightarrow> pos \<le> skip_space tx pos \<and> skip_space tx pos \<le> length tx"
proof (induction tx pos rule: skip_space.induct)
  case (1 tx pos)
  then show ?case by (subst (1 2) skip_space.simps) auto
qed

lemma char_at_some: "char_at tx pos \<noteq> CHR 0x00 \<Longrightarrow> pos < length tx"
  by (auto simp: char_at_def split: if_splits)

lemma accept_char_range:
  assumes "pos \<le> length tx" and "accept_char tx c pos = (b, p)" and "c \<noteq> CHR 0x00"
  shows "pos \<le> p" and "p \<le> length tx" and "b \<Longrightarrow> pos < p"
proof -
  have "pos \<le> p \<and> p \<le> length tx \<and> (b \<longrightarrow> pos < p)"
    using assms skip_space_range [OF assms(1)] char_at_some [of tx "skip_space tx pos"]
    by (auto simp: accept_char_def Let_def split: if_splits)
  then show "pos \<le> p" and "p \<le> length tx" and "b \<Longrightarrow> pos < p" by blast+
qed

lemma accept_word_range:
  assumes "pos \<le> length tx" and "accept_word tx w pos = (b, p)"
  shows "pos \<le> p" and "p \<le> length tx" and "b \<Longrightarrow> w \<noteq> [] \<Longrightarrow> pos < p"
proof -
  let ?q = "skip_space tx pos"
  have "?q + length w \<le> length tx" if "take (length w) (drop ?q tx) = w"
    using arg_cong [OF that, of length] skip_space_range [OF assms(1)] by (simp add: min_def split: if_splits)
  then have "pos \<le> p \<and> p \<le> length tx \<and> (b \<longrightarrow> w \<noteq> [] \<longrightarrow> pos < p)"
    using assms skip_space_range [OF assms(1)]
    by (auto simp: accept_word_def Let_def split: if_splits intro: le_less_trans)
  then show "pos \<le> p" and "p \<le> length tx" and "b \<Longrightarrow> w \<noteq> [] \<Longrightarrow> pos < p" by blast+
qed

lemma ident_end_range: "pos \<le> length tx \<Longrightarrow> pos \<le> ident_end tx pos \<and> ident_end tx pos \<le> length tx"
  using length_takeWhile_le [of "\<lambda>c. expr_is_ident_char c \<or> c = CHR ''.''" "drop pos tx"]
  by (auto simp: ident_end_def)

lemma exponent_end_range: "pos < length tx \<Longrightarrow> fst (exponent_end tx pos) \<le> length tx"
  using length_takeWhile_le [of expr_is_digit "drop (pos + 2) tx"] length_takeWhile_le [of expr_is_digit "drop (pos + 1) tx"]
  by (auto simp: exponent_end_def Let_def)

text \<open>A result of a parser started at \<open>pos\<close>: it returned, and behind \<open>pos\<close> in the text.\<close>

fun in_range :: "string \<Rightarrow> nat \<Rightarrow> 'a parsed \<Rightarrow> bool" where
  "in_range tx pos (Parsed v p) \<longleftrightarrow> pos \<le> p \<and> p \<le> length tx"
| "in_range tx pos (Failed e p) \<longleftrightarrow> p \<le> length tx"
| "in_range tx pos Stuck \<longleftrightarrow> False"

lemma in_range_later: "in_range tx p r \<Longrightarrow> pos \<le> p \<Longrightarrow> in_range tx pos r"
  by (cases r) auto

lemma in_range_lift [simp]: "in_range tx pos (lift_result p r) \<longleftrightarrow> (\<forall>v. r = Inr v \<longrightarrow> pos \<le> p) \<and> p \<le> length tx"
  by (cases r) (auto simp: lift_result_def)

lemma in_range_if: "(b \<Longrightarrow> in_range tx p x) \<Longrightarrow> (\<not> b \<Longrightarrow> in_range tx p y) \<Longrightarrow> in_range tx p (if b then x else y)"
  by simp

lemma scan_number_in_range: "pos \<le> length tx \<Longrightarrow> in_range tx pos (scan_number tx s pos)"
proof (induction tx s pos rule: scan_number.induct)
  case (1 tx s pos)
  have e: "pos < length tx \<Longrightarrow> pos \<le> fst (exponent_end tx pos) \<and> fst (exponent_end tx pos) \<le> length tx"
    using exponent_end_range [of pos tx] exponent_end_after [of pos tx] by simp
  have later: "in_range tx pos (scan_number tx s' p)" if "in_range tx p (scan_number tx s' p)" "pos \<le> p" for s' p
    using that by (rule in_range_later)
  show ?case
  proof (cases "pos < length tx")
    case False
    then show ?thesis using 1(4) by (simp add: scan_number.simps)
  next
    case True
    define c where "c = tx ! pos"
    define nx where "nx = fst (exponent_end tx pos)"
    have nx: "pos \<le> nx" "nx \<le> length tx" using e True by (simp_all add: nx_def)
    have ih1: "in_range tx pos (scan_number tx (scan_digit s c\<lparr>ns_token := ns_token s @ [c]\<rparr>) (pos + 1))"
      if "expr_is_digit c" "\<not> NUMBER_TOKEN_MAX \<le> length (ns_token s) + 1"
      by (rule later, rule 1(1) [OF _ c_def]) (use that True in simp_all)
    have ih2: "in_range tx pos (scan_number tx
        (s\<lparr>ns_is_real := True, ns_token := ns_token s @ [c], ns_seen_fraction_digit := True\<rparr>) (pos + 1))"
      if "\<not> expr_is_digit c" "\<not> ns_is_real s \<and> c = CHR ''.'' \<and> expr_is_digit (char_at tx (pos + 1))"
        "\<not> NUMBER_TOKEN_MAX \<le> length (ns_token s) + 1"
      by (rule later, rule 1(2) [OF _ c_def]) (use that True in simp_all)
    have ih3: "in_range tx pos (scan_number tx
        (s\<lparr>ns_is_real := True, ns_token := ns_token s @ take (nx - pos) (drop pos tx)\<rparr>) nx)"
      if "\<not> expr_is_digit c" "\<not> (\<not> ns_is_real s \<and> c = CHR ''.'' \<and> expr_is_digit (char_at tx (pos + 1)))"
        "ns_seen_digit s \<and> (c = CHR ''e'' \<or> c = CHR ''E'')" "\<not> \<not> snd (exponent_end tx pos)"
        "\<not> NUMBER_TOKEN_MAX \<le> length (ns_token s) + (nx - pos)"
      by (rule later, rule 1(3) [OF _ c_def _ _ _ nx_def]) (use that True nx in simp_all)
    show ?thesis
      unfolding scan_number.simps [of tx s pos] Let_def c_def [symmetric] nx_def [symmetric]
      by (intro in_range_if; (rule ih1 ih2 ih3; assumption)?; (use True in \<open>simp; fail\<close>)?)
  qed
qed

lemma parse_number_in_range: "pos \<le> length (xe_text env) \<Longrightarrow> in_range (xe_text env) pos (parse_number env pos)"
  using scan_number_in_range [of pos "xe_text env" number_start]
  by (cases "scan_number (xe_text env) number_start pos") (auto simp: parse_number_def split: sum.split)

text \<open>An operator search moves past at least one character when it finds an operator.\<close>

definition advances :: "string \<Rightarrow> (nat \<Rightarrow> char option \<times> nat) \<Rightarrow> bool" where
  "advances tx next_op \<longleftrightarrow> (\<forall>pos \<le> length tx. \<forall>r p. next_op pos = (r, p) \<longrightarrow>
     pos \<le> p \<and> p \<le> length tx \<and> (r \<noteq> None \<longrightarrow> pos < p))"

lemma next_word_advances:
  assumes "w \<noteq> []"
  shows "advances tx (next_word tx w)"
  unfolding advances_def
proof (intro allI impI)
  fix pos r p
  assume pos: "pos \<le> length tx" and n: "next_word tx w pos = (r, p)"
  obtain b q where a: "accept_word tx w pos = (b, q)" by fastforce
  then have "p = q" and "r \<noteq> None \<longleftrightarrow> b" using n by (auto simp: next_word_def split: if_splits)
  then show "pos \<le> p \<and> p \<le> length tx \<and> (r \<noteq> None \<longrightarrow> pos < p)"
    using accept_word_range [OF pos a] assms by simp
qed

lemma next_symbol_advances:
  assumes "CHR 0x00 \<notin> set cs"
  shows "advances tx (next_symbol tx cs)"
  unfolding advances_def
proof (intro allI impI)
  fix pos r p
  assume pos: "pos \<le> length tx" and n: "next_symbol tx cs pos = (r, p)"
  define q where "q = skip_space tx pos"
  have q: "pos \<le> q" "q \<le> length tx" using skip_space_range [OF pos] by (simp_all add: q_def)
  show "pos \<le> p \<and> p \<le> length tx \<and> (r \<noteq> None \<longrightarrow> pos < p)"
  proof (cases "char_at tx q \<in> set cs")
    case True
    then have "char_at tx q \<noteq> CHR 0x00" using assms by metis
    then have "q < length tx" by (rule char_at_some)
    then show ?thesis using n True q by (auto simp: next_symbol_def Let_def q_def [symmetric])
  next
    case False
    then show ?thesis using n q by (auto simp: next_symbol_def Let_def q_def [symmetric])
  qed
qed

lemma operator_loop_in_range:
  assumes "advances tx next_op" and "\<And>q. low \<le> q \<Longrightarrow> q \<le> length tx \<Longrightarrow> in_range tx q (operand q)"
  shows "low \<le> pos \<Longrightarrow> pos \<le> length tx \<Longrightarrow> length tx - pos < n \<Longrightarrow> in_range tx pos (operator_loop n next_op operand combine lhs pos)"
proof (induction n arbitrary: lhs pos)
  case (Suc n)
  obtain r p where n: "next_op pos = (r, p)" by fastforce
  then have p: "pos \<le> p" "p \<le> length tx" "r \<noteq> None \<Longrightarrow> pos < p"
    using assms(1) Suc.prems(2) unfolding advances_def by blast+
  have low: "low \<le> p" using Suc.prems(1) p(1) by simp
  show ?case
  proof (cases r)
    case None
    then show ?thesis using n p by simp
  next
    case (Some op)
    have lt: "pos < p" using p(3) Some by simp
    show ?thesis
    proof (cases "operand p")
      case (Parsed rhs q)
      then have q: "p \<le> q" "q \<le> length tx" using assms(2) [OF low p(2)] by simp_all
      have ih: "in_range tx q (operator_loop n next_op operand combine v q)" for v
        by (rule Suc.IH [OF _ q(2)]) (use lt q low Suc.prems in linarith)+
      have "pos \<le> q" using q lt by simp
      then show ?thesis using n Some Parsed in_range_later [OF ih] q(2) by (simp split: sum.split)
    next
      case Stuck
      then show ?thesis using assms(2) [OF low p(2)] by simp
    next
      case (Failed e q)
      then show ?thesis using n Some assms(2) [OF low p(2)] by simp
    qed
  qed
qed simp


subsection \<open>Induction over the grammar\<close>

text \<open>
  What the five entering functions do at depth \<open>d\<close> follows from everything at depth \<open>d + 1\<close>; the
  others follow from those at the same depth.
\<close>

lemma depth_induct [case_names Or And Not Cmp Add Mul Unary Primary Call Args]:
  fixes d :: nat and O1 A N C S M U P :: "nat \<Rightarrow> nat \<Rightarrow> bool" and F :: "nat \<Rightarrow> string \<Rightarrow> nat \<Rightarrow> bool"
    and G :: "nat \<Rightarrow> 'v list \<Rightarrow> nat \<Rightarrow> bool"
  assumes or: "\<And>d p. (d < EXPRESSION_MAX_DEPTH \<Longrightarrow> (\<And>q. A (d + 1) q)) \<Longrightarrow> O1 d p"
    and "and": "\<And>d p. (\<And>q. N d q) \<Longrightarrow> A d p"
    and not: "\<And>d p. (d < EXPRESSION_MAX_DEPTH \<Longrightarrow> (\<And>q. N (d + 1) q)) \<Longrightarrow> (d < EXPRESSION_MAX_DEPTH \<Longrightarrow> (\<And>q. C (d + 1) q)) \<Longrightarrow> N d p"
    and cmp: "\<And>d p. (\<And>q. S d q) \<Longrightarrow> C d p"
    and add: "\<And>d p. (d < EXPRESSION_MAX_DEPTH \<Longrightarrow> (\<And>q. M (d + 1) q)) \<Longrightarrow> S d p"
    and mul: "\<And>d p. (d < EXPRESSION_MAX_DEPTH \<Longrightarrow> (\<And>q. U (d + 1) q)) \<Longrightarrow> M d p"
    and unary: "\<And>d p. (d < EXPRESSION_MAX_DEPTH \<Longrightarrow> (\<And>q. U (d + 1) q)) \<Longrightarrow> (d < EXPRESSION_MAX_DEPTH \<Longrightarrow> (\<And>q. P (d + 1) q)) \<Longrightarrow> U d p"
    and primary: "\<And>d p. (\<And>q. O1 d q) \<Longrightarrow> (\<And>name q. F d name q) \<Longrightarrow> P d p"
    and call: "\<And>d name p. (\<And>q. G d [] q) \<Longrightarrow> F d name p"
    and args: "\<And>d as p. (d < EXPRESSION_MAX_DEPTH \<Longrightarrow> (\<And>q. O1 (d + 1) q)) \<Longrightarrow>
        (length as < 3 \<Longrightarrow> (\<And>v q. G d (as @ [v]) q)) \<Longrightarrow> G d as p"
  shows "O1 d p" and "A d p" and "N d p" and "C d p" and "S d p" and "M d p" and "U d p" and "P d p"
    and "F d name p" and "G d as p"
proof -
  have "(\<forall>p. O1 d p \<and> A d p \<and> N d p \<and> C d p \<and> S d p \<and> M d p \<and> U d p \<and> P d p) \<and>
      (\<forall>name p. F d name p) \<and> (\<forall>as p. G d as p)" (is "?all d")
  proof (induction "EXPRESSION_MAX_DEPTH - d" arbitrary: d rule: less_induct)
    case less
    have up: "?all (d + 1)" if "d < EXPRESSION_MAX_DEPTH" using that by (intro less) linarith
    have o: "O1 d p" and n: "N d p" and s: "S d p" and m: "M d p" and u: "U d p" for p
      by (rule or not add mul unary; use up in blast)+
    have g: "G d as p" for as p
    proof (induction "3 - length as" arbitrary: as p rule: less_induct)
      case less
      show ?case
      proof (rule args)
        fix v q
        assume "length as < 3"
        then show "G d (as @ [v]) q" by (intro less) simp
      qed (use up in blast)
    qed
    have f: "F d name p" for name p using g by (rule call)
    have "P d p" for p using o f by (rule primary)
    moreover have "A d p" and "C d p" for p by (rule "and" cmp; use n s in blast)+
    ultimately show ?case using o n s m u f g by blast
  qed
  then show "O1 d p" and "A d p" and "N d p" and "C d p" and "S d p" and "M d p" and "U d p" and "P d p"
    and "F d name p" and "G d as p" by blast+
qed


lemma chain_in_range:
  assumes "pos \<le> length tx" and "advances tx next_op" and "\<And>q. pos \<le> q \<Longrightarrow> q \<le> length tx \<Longrightarrow> in_range tx q (operand q)"
  shows "in_range tx pos (case operand pos of
    Parsed v p \<Rightarrow> operator_loop (Suc (length tx)) next_op operand combine v p
  | Failed e p \<Rightarrow> Failed e p | Stuck \<Rightarrow> Stuck)"
proof (cases "operand pos")
  case (Parsed v p)
  then have p: "pos \<le> p" "p \<le> length tx" using assms(1) assms(3) [of pos] by simp_all
  have "in_range tx p (operator_loop (Suc (length tx)) next_op operand combine v p)"
    by (rule operator_loop_in_range [OF assms(2), where low = pos]) (use assms(3) p in auto)
  then show ?thesis using Parsed in_range_later [OF _ p(1)] by simp
next
  case Stuck
  then show ?thesis using assms(1) assms(3) [of pos] by simp
next
  case (Failed e p)
  then show ?thesis using assms(1) assms(3) [of pos] by simp
qed

declare operator_loop.simps [simp del]

subsection \<open>The parser returns\<close>

text \<open>Continuing after a result in range.\<close>

lemma in_range_then:
  assumes "in_range tx pos r" and "\<And>v p. r = Parsed v p \<Longrightarrow> pos \<le> p \<Longrightarrow> p \<le> length tx \<Longrightarrow> in_range tx p (f v p)"
  shows "in_range tx pos (case r of Parsed v p \<Rightarrow> f v p | Failed e p \<Rightarrow> Failed e p | Stuck \<Rightarrow> Stuck)"
proof (cases r)
  case (Parsed v p)
  then have "pos \<le> p" "p \<le> length tx" using assms(1) by simp_all
  then show ?thesis using Parsed assms(2) [OF Parsed] in_range_later by simp
qed (use assms(1) in simp_all)

lemma compare_token_length:
  assumes "compare_token (char_at tx q) (char_at tx (q + 1)) = Some (Some (op, b, n))"
  shows "q + n \<le> length tx"
  using assms char_at_some [of tx q] char_at_some [of tx "q + 1"]
  by (auto simp: compare_token_def split: if_splits)

lemma parse_in_range:
  fixes env :: expr_env
  defines "tx \<equiv> xe_text env"
  shows "pos \<le> length tx \<longrightarrow> in_range tx pos (parse_or env d pos)"
    and "pos \<le> length tx \<longrightarrow> in_range tx pos (parse_and env d pos)"
    and "pos \<le> length tx \<longrightarrow> in_range tx pos (parse_not env d pos)"
    and "pos \<le> length tx \<longrightarrow> in_range tx pos (parse_cmp env d pos)"
    and "pos \<le> length tx \<longrightarrow> in_range tx pos (parse_add env d pos)"
    and "pos \<le> length tx \<longrightarrow> in_range tx pos (parse_mul env d pos)"
    and "pos \<le> length tx \<longrightarrow> in_range tx pos (parse_unary env d pos)"
    and "pos \<le> length tx \<longrightarrow> in_range tx pos (parse_primary env d pos)"
    and "pos \<le> length tx \<longrightarrow> in_range tx pos (parse_call env d name pos)"
    and "pos \<le> length tx \<longrightarrow> in_range tx pos (parse_args env d as pos)"
proof (induction d pos and d pos and d pos and d pos and d pos and d pos and d pos and d pos and d name pos and d as pos
    rule: depth_induct)
  case (Or d p)
  show ?case
    unfolding parse_or.simps tx_def [symmetric]
    by (intro impI in_range_if chain_in_range next_word_advances next_symbol_advances) (use Or in \<open>simp_all add: not_le\<close>)
next
  case (And d p)
  show ?case
    unfolding parse_and.simps tx_def [symmetric]
    by (intro impI chain_in_range next_word_advances next_symbol_advances) (use And in \<open>simp_all add: not_le\<close>)
next
  case (Add d p)
  show ?case
    unfolding parse_add.simps tx_def [symmetric]
    by (intro impI in_range_if chain_in_range next_word_advances next_symbol_advances) (use Add in \<open>simp_all add: not_le\<close>)
next
  case (Mul d p)
  show ?case
    unfolding parse_mul.simps tx_def [symmetric]
    by (intro impI in_range_if chain_in_range next_word_advances next_symbol_advances) (use Mul in \<open>simp_all add: not_le\<close>)
next
  case (Not d p)
  show ?case
  proof (intro impI)
    assume p: "p \<le> length tx"
    obtain b q where a: "accept_word tx ''not'' p = (b, q)" by fastforce
    note q = accept_word_range(1,2) [OF p a]
    have "in_range tx q (case parse_not env (d + 1) q of Parsed v q \<Rightarrow> lift_result q (expr_not v) | Failed e p \<Rightarrow> Failed e p | Stuck \<Rightarrow> Stuck)"
      if "d < EXPRESSION_MAX_DEPTH"
      using Not(1) [OF that] q by (intro in_range_then) simp_all
    then show "in_range tx p (parse_not env d p)"
      using Not(2) [of q] q a in_range_later [OF _ q(1)]
      by (cases b) (auto simp: parse_not.simps tx_def [symmetric] not_le)
  qed
next
  case (Cmp d p)
  show ?case
  proof (intro impI)
    assume p: "p \<le> length tx"
    have rhs: "in_range tx q (case compare_token (char_at tx q) (char_at tx (q + 1)) of
        None \<Rightarrow> Parsed lhs q | Some None \<Rightarrow> Failed EXPR_ERR_SYNTAX q
      | Some (Some (op, or_equal, n)) \<Rightarrow> (case parse_add env d (q + n) of
          Parsed rhs r \<Rightarrow> lift_result r (expr_compare op or_equal lhs rhs) | Failed e p \<Rightarrow> Failed e p | Stuck \<Rightarrow> Stuck))"
      if "q \<le> length tx" for q lhs
    proof (cases "compare_token (char_at tx q) (char_at tx (q + 1))")
      case (Some x)
      show ?thesis
      proof (cases x)
        case (Some y)
        obtain op or_equal n where y: "y = (op, or_equal, n)" by (cases y)
        have "q + n \<le> length tx"
          using compare_token_length \<open>compare_token _ _ = Some x\<close> Some y by metis
        then have "in_range tx (q + n) (case parse_add env d (q + n) of
          Parsed rhs r \<Rightarrow> lift_result r (expr_compare op or_equal lhs rhs) | Failed e p \<Rightarrow> Failed e p | Stuck \<Rightarrow> Stuck)"
          using Cmp [of "q + n"] by (intro in_range_then) simp_all
        then show ?thesis using \<open>compare_token _ _ = Some x\<close> Some y in_range_later [of tx "q + n" _ q] by simp
      qed (use \<open>compare_token _ _ = Some x\<close> that in simp)
    qed (use that in simp)
    show "in_range tx p (parse_cmp env d p)"
      unfolding parse_cmp.simps tx_def [symmetric] Let_def
      by (rule in_range_then, use Cmp p in blast, rule in_range_later [OF rhs]) (use skip_space_range in blast)+
  qed
next
  case (Unary d p)
  show ?case
  proof (intro impI)
    assume p: "p \<le> length tx"
    obtain b q where a: "accept_char tx CHR ''-'' p = (b, q)" by fastforce
    note q = accept_char_range(1,2) [OF p a]
    obtain b2 q2 where a2: "accept_char tx CHR ''+'' q = (b2, q2)" by fastforce
    have q2: "q \<le> q2" "q2 \<le> length tx" using accept_char_range(1,2) [OF _ a2] q by simp_all
    have "in_range tx q (case parse_unary env (d + 1) q of Parsed v q \<Rightarrow> lift_result q (expr_negate v) | Failed e p \<Rightarrow> Failed e p | Stuck \<Rightarrow> Stuck)"
      if "d < EXPRESSION_MAX_DEPTH"
      using Unary(1) [OF that] q by (intro in_range_then) simp_all
    then show "in_range tx p (parse_unary env d p)"
      using Unary(2) [of q2] q q2 a a2 in_range_later [of tx q _ p] in_range_later [of tx q2 _ p]
      by (cases b; cases b2) (auto simp: parse_unary.simps tx_def [symmetric] not_le)
  qed
next
  case (Args d as p)
  show ?case
  proof (intro impI)
    assume p: "p \<le> length tx"
    have "in_range tx q (case accept_char tx CHR '','' q of (True, r) \<Rightarrow> parse_args env d (as @ [v]) r | (False, r) \<Rightarrow> Parsed (as @ [v]) r)"
      if "q \<le> length tx" "length as < 3" for q v
    proof -
      obtain b r where a: "accept_char tx CHR '','' q = (b, r)" by fastforce
      have "q \<le> r" "r \<le> length tx" using accept_char_range(1,2) [OF that(1) a] by simp_all
      then show ?thesis using Args(2) [OF that(2), of r v] a in_range_later [of tx r _ q] by (cases b) auto
    qed
    then show "in_range tx p (parse_args env d as p)"
      unfolding parse_args.simps [of env d as p] tx_def [symmetric]
      using Args(1) [of p] p by (auto simp: not_le intro!: in_range_then)
  qed
next
  case (Call d name p)
  show ?case
  proof (intro impI)
    assume p: "p \<le> length tx"
    obtain b q where a: "accept_char tx CHR ''('' p = (b, q)" by fastforce
    have q: "p \<le> q" "q \<le> length tx" using accept_char_range(1,2) [OF p a] by simp_all
    define s where "s = skip_space tx q"
    have s: "q \<le> s" "s \<le> length tx" using skip_space_range [OF q(2)] by (simp_all add: s_def)
    have close: "in_range tx r (case accept_char tx CHR '')'' r of
        (True, t) \<Rightarrow> lift_result t (expr_apply_call name args) | (False, t) \<Rightarrow> Failed EXPR_ERR_SYNTAX t)"
      if "r \<le> length tx" for r args
    proof -
      obtain b2 t where a2: "accept_char tx CHR '')'' r = (b2, t)" by fastforce
      show ?thesis using accept_char_range(1,2) [OF that a2] a2 by (cases b2) simp_all
    qed
    have "in_range tx s (if char_at tx s \<noteq> CHR '')'' then parse_args env d [] s else Parsed [] s)"
      using Call [of s] s by simp
    then have "in_range tx s (case (if char_at tx s \<noteq> CHR '')'' then parse_args env d [] s else Parsed [] s) of
        Parsed args r \<Rightarrow> (case accept_char tx CHR '')'' r of
          (True, t) \<Rightarrow> lift_result t (expr_apply_call name args) | (False, t) \<Rightarrow> Failed EXPR_ERR_SYNTAX t)
      | Failed e p \<Rightarrow> Failed e p | Stuck \<Rightarrow> Stuck)"
      by (rule in_range_then) (rule close)
    then have "in_range tx p (case (if char_at tx s \<noteq> CHR '')'' then parse_args env d [] s else Parsed [] s) of
        Parsed args r \<Rightarrow> (case accept_char tx CHR '')'' r of
          (True, t) \<Rightarrow> lift_result t (expr_apply_call name args) | (False, t) \<Rightarrow> Failed EXPR_ERR_SYNTAX t)
      | Failed e p \<Rightarrow> Failed e p | Stuck \<Rightarrow> Stuck)"
      by (rule in_range_later) (use s q in simp)
    then show "in_range tx p (parse_call env d name p)"
      unfolding parse_call.simps Let_def tx_def [symmetric] a prod.case s_def [symmetric]
      by (intro in_range_if; cases b) (simp_all only: bool.case in_range.simps p q)
  qed
next
  case (Primary d p)
  show ?case
  proof (intro impI)
    assume p: "p \<le> length tx"
    define s where "s = skip_space tx p"
    have s: "p \<le> s" "s \<le> length tx" using skip_space_range [OF p] by (simp_all add: s_def)
    obtain bt pt bf pf where w: "accept_word tx ''true'' s = (bt, pt)" "accept_word tx ''false'' s = (bf, pf)"
      by fastforce
    note wr = accept_word_range(1,2) [OF s(2) w(1)] accept_word_range(1,2) [OF s(2) w(2)]
    define e where "e = ident_end tx s"
    define q where "q = skip_space tx e"
    have e: "s \<le> e" "e \<le> q" "q \<le> length tx"
      using ident_end_range [OF s(2)] skip_space_range [of e tx] by (simp_all add: e_def q_def)
    have close: "in_range tx r (case accept_char tx CHR '')'' r of (True, t) \<Rightarrow> Parsed v t | (False, t) \<Rightarrow> Failed EXPR_ERR_SYNTAX t)"
      if "r \<le> length tx" for r and v :: signal_value
    proof -
      obtain b2 t where a2: "accept_char tx CHR '')'' r = (b2, t)" by fastforce
      show ?thesis using accept_char_range(1,2) [OF that a2] a2 by (cases b2) simp_all
    qed
    have paren: "in_range tx (s + 1) (case parse_or env d (s + 1) of
        Parsed v r \<Rightarrow> (case accept_char tx CHR '')'' r of (True, t) \<Rightarrow> Parsed v t | (False, t) \<Rightarrow> Failed EXPR_ERR_SYNTAX t)
      | Failed e p \<Rightarrow> Failed e p | Stuck \<Rightarrow> Stuck)" if "char_at tx s = CHR ''(''"
      using Primary(1) [of "s + 1"] char_at_some [of tx s] that by (intro in_range_then close) auto
    have "in_range tx s (parse_primary env d p)"
      unfolding parse_primary.simps Let_def tx_def [symmetric] s_def [symmetric] e_def [symmetric] q_def [symmetric] w
        prod.case
      using parse_number_in_range [of s env] Primary(2) [of q] paren wr s e
      by (intro in_range_if) (auto simp: tx_def [symmetric] intro: in_range_later)
    then show "in_range tx p (parse_primary env d p)" using s(1) by (rule in_range_later)
  qed
qed


lemma parse_or_range: "in_range t 0 (parse_or \<lparr>xe_text = t, xe_context = c, xe_validate_only = v\<rparr> 0 0)"
  using parse_in_range(1) [of 0 "\<lparr>xe_text = t, xe_context = c, xe_validate_only = v\<rparr>" 0] by simp

lemma evaluation_returns: "\<exists>r. expression_evaluate tx cx = Some r"
proof (cases tx)
  case (Some t)
  then show ?thesis
    using parse_or_range [of t cx "cx = None"] by (auto simp: expression_evaluate_def split: parsed.split)
qed (simp add: expression_evaluate_def)

text \<open>C25: The evaluator always returns. Every text, in every context, gives a value or an error, and so
  does validation, whose error offset lies inside the text: recursion is bounded by the depth limit, and
  every loop of the grammar consumes input.\<close>

theorem expression_terminates:
  "(\<exists>r. expression_evaluate tx cx = Some r) \<and>
   (\<exists>r. expression_validate tx = Some r \<and>
      (case r of Inl (e, off) \<Rightarrow> off \<le> (case tx of None \<Rightarrow> 0 | Some t \<Rightarrow> length t) | Inr _ \<Rightarrow> True))"
proof -
  have "\<exists>r. expression_evaluate tx cx = Some r" by (rule evaluation_returns)
  moreover have "\<exists>r. expression_validate tx = Some r \<and>
      (case r of Inl (e, off) \<Rightarrow> off \<le> (case tx of None \<Rightarrow> 0 | Some t \<Rightarrow> length t) | Inr _ \<Rightarrow> True)"
  proof (cases tx)
    case (Some t)
    then show ?thesis
      using parse_or_range [of t None True] by (auto simp: expression_validate_def split: parsed.split)
  qed (simp add: expression_validate_def)
  ultimately show ?thesis by blast
qed


subsection \<open>Validation\<close>

text \<open>The faults that depend on values and names, section 5 of the expression language.\<close>

definition runtime_faults :: "expr_error set" where
  "runtime_faults = {EXPR_ERR_UNDEFINED, EXPR_ERR_UNAUTHORIZED, EXPR_ERR_TYPE, EXPR_ERR_OVERFLOW,
     EXPR_ERR_ZERO_DIVIDE, EXPR_ERR_NOT_A_NUMBER, EXPR_ERR_DOMAIN}"

text \<open>Where the first parse succeeds, the second succeeds at the same position or has a run-time fault.\<close>

definition follows :: "('a \<Rightarrow> 'b \<Rightarrow> bool) \<Rightarrow> 'a parsed \<Rightarrow> 'b parsed \<Rightarrow> bool" where
  "follows R rv rr \<longleftrightarrow> (\<forall>v p. rv = Parsed v p \<longrightarrow>
     (\<exists>w. rr = Parsed w p \<and> R v w) \<or> (\<exists>e q. rr = Failed e q \<and> e \<in> runtime_faults))"

abbreviation follows_any :: "signal_value parsed \<Rightarrow> signal_value parsed \<Rightarrow> bool" where
  "follows_any \<equiv> follows (\<lambda>_ _. True)"

lemma follows_simps [simp]:
  "follows R (Failed e p) rr" "follows R Stuck rr"
  "follows R (Parsed v p) (Parsed w q) \<longleftrightarrow> p = q \<and> R v w"
  "follows R (Parsed v p) (Failed e q) \<longleftrightarrow> e \<in> runtime_faults"
  by (auto simp: follows_def)

lemma follows_fault [simp]: "e \<in> runtime_faults \<Longrightarrow> follows R rv (Failed e q)"
  by (simp add: follows_def)

lemma follows_then:
  assumes "follows R rv rr" and "\<And>v w p. R v w \<Longrightarrow> follows S (f v p) (g w p)"
  shows "follows S (case rv of Parsed v p \<Rightarrow> f v p | Failed e p \<Rightarrow> Failed e p | Stuck \<Rightarrow> Stuck)
    (case rr of Parsed v p \<Rightarrow> g v p | Failed e p \<Rightarrow> Failed e p | Stuck \<Rightarrow> Stuck)"
proof (cases rv)
  case (Parsed v p)
  then show ?thesis using assms by (cases rr) (auto simp: follows_def [of R])
qed simp_all

lemma follows_lift:
  assumes "\<And>x e. r = Inr x \<Longrightarrow> s = Inl e \<Longrightarrow> e \<in> runtime_faults" and "\<And>x y. r = Inr x \<Longrightarrow> s = Inr y \<Longrightarrow> R x y"
  shows "follows R (lift_result q r) (lift_result q s)"
  using assms by (cases r; cases s) (auto simp: lift_result_def)

lemma follows_if: "(b \<Longrightarrow> follows R x y) \<Longrightarrow> (\<not> b \<Longrightarrow> follows R x' y') \<Longrightarrow>
    follows R (if b then x else x') (if b then y else y')"
  by simp

named_theorems runtime_errors

lemma arith_runtime [runtime_errors]: "expr_arith op l r = Inl e \<Longrightarrow> e \<in> runtime_faults"
  by (auto simp: expr_arith_def arith_int_def arith_mul_def arith_real_def runtime_faults_def Let_def
      split: if_splits signal_value.splits)

lemma compare_runtime [runtime_errors]: "expr_compare op b l r = Inl e \<Longrightarrow> e \<in> runtime_faults"
  by (auto simp: expr_compare_def runtime_faults_def Let_def split: if_splits signal_value.splits)

lemma junction_runtime [runtime_errors]: "expr_junction f l r = Inl e \<Longrightarrow> e \<in> runtime_faults"
  by (auto simp: expr_junction_def runtime_faults_def split: if_splits signal_value.splits)

lemma not_runtime [runtime_errors]: "expr_not v = Inl e \<Longrightarrow> e \<in> runtime_faults"
  by (auto simp: expr_not_def runtime_faults_def split: if_splits signal_value.splits)

lemma negate_runtime [runtime_errors]: "expr_negate v = Inl e \<Longrightarrow> e \<in> runtime_faults"
  by (auto simp: expr_negate_def runtime_faults_def split: if_splits signal_value.splits)

text \<open>A call that was accepted has the right number of arguments.\<close>

lemma call_runtime:
  assumes "expr_apply_call name vs = Inr x" and "length ws = length vs" and "expr_apply_call name ws = Inl e"
  shows "e \<in> runtime_faults"
proof -
  have n: "name = ''round'' \<and> length vs = 1 \<or> name = ''abs'' \<and> length vs = 1
      \<or> (name = ''min'' \<or> name = ''max'') \<and> length vs = 2 \<or> name = ''clamp'' \<and> length vs = 3"
    using assms(1)
    by (auto simp: expr_apply_call_def call_round_def call_abs_def call_min_max_def call_clamp_def Let_def split: if_splits)
  then show ?thesis
    using assms(2,3)
    by (auto simp: expr_apply_call_def call_round_def call_abs_def call_min_max_def call_clamp_def Let_def
        runtime_faults_def split: if_splits signal_value.splits option.splits)
qed

lemma read_runtime: "expr_read f b n = Inl e \<Longrightarrow> e \<in> runtime_faults"
  by (auto simp: expr_read_def runtime_faults_def split: option.splits prod.splits if_splits)

lemma resolve_runtime:
  assumes "xe_validate_only ev" and "expr_resolve ev name = Inr v" and "expr_resolve env name = Inl e"
  shows "e \<in> runtime_faults"
proof -
  have u: "EXPR_ERR_UNDEFINED \<in> runtime_faults" by (simp add: runtime_faults_def)
  show ?thesis
    using assms read_runtime u
    by (auto simp: expr_resolve_def Let_def split: if_splits option.splits)
qed

lemma operator_loop_follows:
  assumes "\<And>q. follows_any (operand q) (operand' q)" and "\<And>op l r e. combine op l r = Inl e \<Longrightarrow> e \<in> runtime_faults"
  shows "follows_any (operator_loop n next_op operand combine v p) (operator_loop n next_op operand' combine w p)"
proof (induction n arbitrary: v w p)
  case (Suc n)
  obtain r q where n: "next_op p = (r, q)" by fastforce
  show ?case
  proof (cases r)
    case (Some op)
    have "follows_any (case combine op v x of Inl e \<Rightarrow> Failed e s | Inr y \<Rightarrow> operator_loop n next_op operand combine y s)
        (case combine op w x' of Inl e \<Rightarrow> Failed e s | Inr y \<Rightarrow> operator_loop n next_op operand' combine y s)" for x x' s
      using Suc.IH assms(2) by (cases "combine op v x"; cases "combine op w x'")
        (auto simp: follows_def)
    then have "follows_any
      (case operand q of Parsed x s \<Rightarrow> (case combine op v x of Inl e \<Rightarrow> Failed e s | Inr y \<Rightarrow> operator_loop n next_op operand combine y s)
       | Failed e s \<Rightarrow> Failed e s | Stuck \<Rightarrow> Stuck)
      (case operand' q of Parsed x s \<Rightarrow> (case combine op w x of Inl e \<Rightarrow> Failed e s | Inr y \<Rightarrow> operator_loop n next_op operand' combine y s)
       | Failed e s \<Rightarrow> Failed e s | Stuck \<Rightarrow> Stuck)"
      by (rule follows_then [OF assms(1)])
    then show ?thesis using n Some by (simp add: operator_loop.simps)
  qed (simp add: n operator_loop.simps)
qed (simp add: operator_loop.simps)

lemma chain_follows:
  assumes "\<And>q. follows_any (operand q) (operand' q)" and "\<And>op l r e. combine op l r = Inl e \<Longrightarrow> e \<in> runtime_faults"
  shows "follows_any
    (case operand p of Parsed v q \<Rightarrow> operator_loop n next_op operand combine v q | Failed e q \<Rightarrow> Failed e q | Stuck \<Rightarrow> Stuck)
    (case operand' p of Parsed v q \<Rightarrow> operator_loop n next_op operand' combine v q | Failed e q \<Rightarrow> Failed e q | Stuck \<Rightarrow> Stuck)"
  by (rule follows_then [OF assms(1)]) (rule operator_loop_follows [OF assms])

lemma number_follows: "xe_text ev = xe_text env \<Longrightarrow> follows_any (parse_number ev p) (parse_number env p)"
  by (simp add: parse_number_def split: parsed.split sum.split)

lemma parse_follows:
  fixes ev env :: expr_env
  assumes tx: "xe_text ev = xe_text env" and validating: "xe_validate_only ev"
  shows "follows_any (parse_or ev d pos) (parse_or env d pos)"
    and "follows_any (parse_and ev d pos) (parse_and env d pos)"
    and "follows_any (parse_not ev d pos) (parse_not env d pos)"
    and "follows_any (parse_cmp ev d pos) (parse_cmp env d pos)"
    and "follows_any (parse_add ev d pos) (parse_add env d pos)"
    and "follows_any (parse_mul ev d pos) (parse_mul env d pos)"
    and "follows_any (parse_unary ev d pos) (parse_unary env d pos)"
    and "follows_any (parse_primary ev d pos) (parse_primary env d pos)"
    and "follows_any (parse_call ev d name pos) (parse_call env d name pos)"
    and "\<forall>bs. length bs = length as \<longrightarrow>
      follows (\<lambda>vs ws. length ws = length vs) (parse_args ev d as pos) (parse_args env d bs pos)"
proof (induction d pos and d pos and d pos and d pos and d pos and d pos and d pos and d pos and d name pos and d as pos
    rule: depth_induct)
    case (Or d p)
    then show ?case unfolding parse_or.simps tx
      by (intro follows_if chain_follows) (simp_all add: not_le runtime_errors)
  next
    case (And d p)
    then show ?case unfolding parse_and.simps tx by (intro chain_follows) (simp_all add: runtime_errors)
  next
    case (Add d p)
    then show ?case unfolding parse_add.simps tx
      by (intro follows_if chain_follows) (simp_all add: not_le runtime_errors)
  next
    case (Mul d p)
    then show ?case unfolding parse_mul.simps tx
      by (intro follows_if chain_follows) (simp_all add: not_le runtime_errors)
  next
    case (Not d p)
    obtain b q where a: "accept_word (xe_text env) ''not'' p = (b, q)" by fastforce
    show ?case
    proof (cases "b \<and> d < EXPRESSION_MAX_DEPTH")
      case True
      then have "follows_any
          (case parse_not ev (d + 1) q of Parsed v q \<Rightarrow> lift_result q (expr_not v) | Failed e p \<Rightarrow> Failed e p | Stuck \<Rightarrow> Stuck)
          (case parse_not env (d + 1) q of Parsed v q \<Rightarrow> lift_result q (expr_not v) | Failed e p \<Rightarrow> Failed e p | Stuck \<Rightarrow> Stuck)"
        by (intro follows_then [OF Not(1)] follows_lift) (simp_all add: runtime_errors)
      then show ?thesis using True a by (simp add: parse_not.simps [of ev d p] parse_not.simps [of env d p] tx)
    next
      case False
      then show ?thesis using Not(2) [of q] a
        by (cases b) (auto simp: parse_not.simps [of ev d p] parse_not.simps [of env d p] tx not_le)
    qed
  next
    case (Cmp d p)
    have rhs: "follows_any
        (case compare_token c1 c2 of None \<Rightarrow> Parsed v q | Some None \<Rightarrow> Failed EXPR_ERR_SYNTAX q
         | Some (Some (op, oe, n)) \<Rightarrow> (case parse_add ev d (q + n) of
             Parsed x r \<Rightarrow> lift_result r (expr_compare op oe v x) | Failed e p \<Rightarrow> Failed e p | Stuck \<Rightarrow> Stuck))
        (case compare_token c1 c2 of None \<Rightarrow> Parsed w q | Some None \<Rightarrow> Failed EXPR_ERR_SYNTAX q
         | Some (Some (op, oe, n)) \<Rightarrow> (case parse_add env d (q + n) of
             Parsed x r \<Rightarrow> lift_result r (expr_compare op oe w x) | Failed e p \<Rightarrow> Failed e p | Stuck \<Rightarrow> Stuck))" for c1 c2 v w q
    proof -
      have "follows_any
          (case parse_add ev d (q + n) of Parsed x r \<Rightarrow> lift_result r (expr_compare op oe v x) | Failed e p \<Rightarrow> Failed e p | Stuck \<Rightarrow> Stuck)
          (case parse_add env d (q + n) of Parsed x r \<Rightarrow> lift_result r (expr_compare op oe w x) | Failed e p \<Rightarrow> Failed e p | Stuck \<Rightarrow> Stuck)"
        for op oe n
        by (intro follows_then [OF Cmp] follows_lift) (simp_all add: runtime_errors)
      then show ?thesis by (simp split: option.split prod.split)
    qed
    show ?case unfolding parse_cmp.simps tx Let_def by (intro follows_then [OF Cmp] rhs)
  next
    case (Unary d p)
    obtain b q where a: "accept_char (xe_text env) CHR ''-'' p = (b, q)" by fastforce
    obtain b2 q2 where a2: "accept_char (xe_text env) CHR ''+'' q = (b2, q2)" by fastforce
    show ?case
    proof (cases "b \<and> d < EXPRESSION_MAX_DEPTH")
      case True
      then have "follows_any
          (case parse_unary ev (d + 1) q of Parsed v q \<Rightarrow> lift_result q (expr_negate v) | Failed e p \<Rightarrow> Failed e p | Stuck \<Rightarrow> Stuck)
          (case parse_unary env (d + 1) q of Parsed v q \<Rightarrow> lift_result q (expr_negate v) | Failed e p \<Rightarrow> Failed e p | Stuck \<Rightarrow> Stuck)"
        by (intro follows_then [OF Unary(1)] follows_lift) (simp_all add: runtime_errors)
      then show ?thesis using True a by (simp add: parse_unary.simps [of ev d p] parse_unary.simps [of env d p] tx)
    next
      case False
      then show ?thesis using Unary(2) [of q2] a a2
        by (cases b; cases b2) (auto simp: parse_unary.simps [of ev d p] parse_unary.simps [of env d p] tx not_le)
    qed
  next
    case (Args d as p)
    show ?case
    proof (intro allI impI)
      fix bs :: "signal_value list"
      assume l: "length bs = length as"
      have "follows (\<lambda>vs ws. length ws = length vs)
          (case accept_char (xe_text env) CHR '','' q of (True, r) \<Rightarrow> parse_args ev d (as @ [v]) r | (False, r) \<Rightarrow> Parsed (as @ [v]) r)
          (case accept_char (xe_text env) CHR '','' q of (True, r) \<Rightarrow> parse_args env d (bs @ [w]) r | (False, r) \<Rightarrow> Parsed (bs @ [w]) r)"
        if "length as < 3" for q v w
        using Args(2) [OF that] l by (auto split: prod.split bool.split)
      then show "follows (\<lambda>vs ws. length ws = length vs) (parse_args ev d as p) (parse_args env d bs p)"
        unfolding parse_args.simps [of ev d as p] parse_args.simps [of env d bs p] tx l
        using Args(1) by (intro follows_if) (auto simp: not_le intro!: follows_then)
    qed
  next
    case (Call d name p)
    have args: "follows (\<lambda>vs ws. length ws = length vs)
        (if char_at (xe_text env) q \<noteq> CHR '')'' then parse_args ev d [] q else Parsed [] q)
        (if char_at (xe_text env) q \<noteq> CHR '')'' then parse_args env d [] q else Parsed [] q)" for q
      using Call [of q] by (intro follows_if) simp_all
    have close: "follows_any
        (case accept_char (xe_text env) CHR '')'' q of (True, r) \<Rightarrow> lift_result r (expr_apply_call name vs) | (False, r) \<Rightarrow> Failed EXPR_ERR_SYNTAX r)
        (case accept_char (xe_text env) CHR '')'' q of (True, r) \<Rightarrow> lift_result r (expr_apply_call name ws) | (False, r) \<Rightarrow> Failed EXPR_ERR_SYNTAX r)"
      if "length ws = length vs" for q vs ws
      using call_runtime [OF _ that] by (auto split: prod.split bool.split intro!: follows_lift)
    obtain b q where a: "accept_char (xe_text env) CHR ''('' p = (b, q)" by fastforce
    show ?case
      unfolding parse_call.simps tx Let_def a prod.case
      by (intro follows_if; cases b; simp only: bool.case follows_simps) (rule follows_then [OF args close])
  next
    case (Primary d p)
    have close: "follows_any
        (case accept_char (xe_text env) CHR '')'' q of (True, r) \<Rightarrow> Parsed v r | (False, r) \<Rightarrow> Failed EXPR_ERR_SYNTAX r)
        (case accept_char (xe_text env) CHR '')'' q of (True, r) \<Rightarrow> Parsed w r | (False, r) \<Rightarrow> Failed EXPR_ERR_SYNTAX r)" for q v w
      by (auto split: prod.split bool.split)
    define q where "q = skip_space (xe_text env) p"
    obtain bt pt bf pf where w: "accept_word (xe_text env) ''true'' q = (bt, pt)" "accept_word (xe_text env) ''false'' q = (bf, pf)"
      by fastforce
    have ident: "follows_any (lift_result r (expr_resolve ev n)) (lift_result r (expr_resolve env n))" for r n
      by (rule follows_lift) (use resolve_runtime [OF validating] in blast)+
    show ?case
      unfolding parse_primary.simps tx Let_def q_def [symmetric] w prod.case
      by (intro follows_if follows_then [OF Primary(1) close] number_follows [OF tx] Primary(2) ident; simp only: follows_simps)
qed

text \<open>C26: What validation accepts can only fail for reasons of the run-time values and names. In every
  context an accepted text is parsed to its end: no syntax, depth, namespace, function or length error
  remains, the errors left are those of section 5 of the expression language.\<close>

theorem validated_has_no_structural_error:
  assumes "expression_validate (Some t) = Some (Inr ())"
  shows "\<exists>r. expression_evaluate (Some t) cx = Some r \<and> (\<forall>e. r = Inl e \<longrightarrow> e \<in> runtime_faults)"
proof -
  have l: "\<not> FSM_EXPRESSION_MAX < length t" and
    v: "\<exists>v. parse_or \<lparr>xe_text = t, xe_context = None, xe_validate_only = True\<rparr> 0 0 = Parsed v (length t)"
  proof -
    show "\<not> FSM_EXPRESSION_MAX < length t" using assms by (auto simp: expression_validate_def)
    then show "\<exists>v. parse_or \<lparr>xe_text = t, xe_context = None, xe_validate_only = True\<rparr> 0 0 = Parsed v (length t)"
      using assms parse_in_range(1) [of 0 "\<lparr>xe_text = t, xe_context = None, xe_validate_only = True\<rparr>" 0]
      by (auto simp: expression_validate_def split: parsed.splits if_splits)
  qed
  then obtain v where p: "parse_or \<lparr>xe_text = t, xe_context = None, xe_validate_only = True\<rparr> 0 0 = Parsed v (length t)"
    by blast
  let ?env = "\<lparr>xe_text = t, xe_context = cx, xe_validate_only = (cx = None)\<rparr>"
  have "follows_any (parse_or \<lparr>xe_text = t, xe_context = None, xe_validate_only = True\<rparr> 0 0) (parse_or ?env 0 0)"
    by (rule parse_follows(1)) simp_all
  then have "(\<exists>w. parse_or ?env 0 0 = Parsed w (length t)) \<or> (\<exists>e q. parse_or ?env 0 0 = Failed e q \<and> e \<in> runtime_faults)"
    unfolding follows_def p by blast
  moreover have "EXPR_ERR_UNDEFINED \<in> runtime_faults" by (simp add: runtime_faults_def)
  ultimately show ?thesis using l by (auto simp: expression_evaluate_def)
qed

lemma validated_has_no_structural_error_witness:
  "\<exists>r. expression_evaluate (Some ''10 / 0 > var.n'') None = Some r \<and> (\<forall>e. r = Inl e \<longrightarrow> e \<in> runtime_faults)"
proof -
  have "expression_validate (Some ''10 / 0 > var.n'') = Some (Inr ())" by code_simp
  then show ?thesis by (rule validated_has_no_structural_error)
qed


subsection \<open>Integer arithmetic\<close>

lemma i64_range: "- (2 ^ 63) \<le> sint (i :: 64 word) \<and> sint i < 2 ^ 63"
  using sint_range_size [of i] by (simp add: word_size)

lemma signed_take_64: "- (2 ^ 63) \<le> k \<Longrightarrow> k < 2 ^ 63 \<Longrightarrow> signed_take_bit 63 k = (k :: int)"
  by (rule signed_take_bit_int_eq_self)

lemma sint_i64:
  fixes a b :: "64 word"
  shows "- (2 ^ 63) \<le> sint a + sint b \<Longrightarrow> sint a + sint b < 2 ^ 63 \<Longrightarrow> sint (a + b) = sint a + sint b"
    and "- (2 ^ 63) \<le> sint a - sint b \<Longrightarrow> sint a - sint b < 2 ^ 63 \<Longrightarrow> sint (a - b) = sint a - sint b"
    and "- (2 ^ 63) < sint a \<Longrightarrow> sint (- a) = - sint a"
  using signed_take_64 i64_range [of a] by (simp_all add: sint_word_ariths)

lemma sint_consts: "sint I64_MAX = 2 ^ 63 - 1" "sint I64_MIN = - (2 ^ 63)" "uint I64_MAX = 2 ^ 63 - 1"
  by (simp_all add: I64_MAX_def I64_MIN_def sint_uint)

lemma i64_eqI: "sint a = sint b \<Longrightarrow> a = (b :: 64 word)"
  by (simp add: signed_word_eqI)

lemma sint_of_int_64: "- (2 ^ 63) \<le> k \<Longrightarrow> k < 2 ^ 63 \<Longrightarrow> sint (word_of_int k :: 64 word) = k"
  using signed_take_64 by (simp add: sint_sbintrunc')

lemma uint_i64_mag: "uint (i64_mag i) = \<bar>sint i\<bar>"
proof (cases "sint i < 0")
  case True
  have "i64_mag i = - i" using True by (simp add: i64_mag_def word_sless_alt)
  also have "\<dots> = word_of_int (- sint i)" by simp
  finally have "uint (i64_mag i) = (- sint i) mod 2 ^ 64" by (simp only: uint_word_of_int) simp
  also have "\<dots> = - sint i" using True i64_range [of i] by (intro mod_pos_pos_trivial) simp_all
  finally show ?thesis using True by simp
next
  case False
  have "uint i = sint i mod 2 ^ 64" by (simp add: uint_sint take_bit_eq_mod)
  then have "uint i = sint i" using False i64_range [of i] by simp
  then show ?thesis using False by (simp add: i64_mag_def word_sless_alt)
qed

text \<open>The mathematical result of an operator.\<close>

definition ideal_op :: "char \<Rightarrow> int \<Rightarrow> int \<Rightarrow> int" where
  "ideal_op op a b = (if op = CHR ''+'' then a + b else if op = CHR ''-'' then a - b
     else if op = CHR ''*'' then a * b else if op = CHR ''/'' then a sdiv b else a smod b)"

definition i64_holds :: "int \<Rightarrow> bool" where
  "i64_holds k \<longleftrightarrow> - (2 ^ 63) \<le> k \<and> k < 2 ^ 63"

lemma arith_add_exact:
  "arith_int CHR ''+'' l r = (if i64_holds (sint l + sint r) then Inr (word_of_int (sint l + sint r)) else Inl EXPR_ERR_OVERFLOW)"
proof -
  have "0 <s r \<Longrightarrow> sint (I64_MAX - r) = 2 ^ 63 - 1 - sint r" "r <s 0 \<Longrightarrow> sint (I64_MIN - r) = - (2 ^ 63) - sint r"
    using sint_i64(2) [of I64_MAX r] sint_i64(2) [of I64_MIN r] i64_range [of r] by (simp_all add: sint_consts word_sless_alt)
  then have "(0 <s r \<and> I64_MAX - r <s l \<or> r <s 0 \<and> l <s I64_MIN - r) \<longleftrightarrow> \<not> i64_holds (sint l + sint r)"
    using i64_range [of l] i64_range [of r] by (auto simp: i64_holds_def word_sless_alt)
  then show ?thesis by (simp add: arith_int_def)
qed

lemma arith_sub_exact:
  "arith_int CHR ''-'' l r = (if i64_holds (sint l - sint r) then Inr (word_of_int (sint l - sint r)) else Inl EXPR_ERR_OVERFLOW)"
proof -
  have "r <s 0 \<Longrightarrow> sint (I64_MAX + r) = 2 ^ 63 - 1 + sint r" "0 <s r \<Longrightarrow> sint (I64_MIN + r) = - (2 ^ 63) + sint r"
    using sint_i64(1) [of I64_MAX r] sint_i64(1) [of I64_MIN r] i64_range [of r] by (simp_all add: sint_consts word_sless_alt)
  then have "(r <s 0 \<and> I64_MAX + r <s l \<or> 0 <s r \<and> l <s I64_MIN + r) \<longleftrightarrow> \<not> i64_holds (sint l - sint r)"
    using i64_range [of l] i64_range [of r] by (auto simp: i64_holds_def word_sless_alt)
  then show ?thesis by (simp add: arith_int_def)
qed

lemma int_div_less:
  assumes "0 < (b :: int)"
  shows "x div b < a \<longleftrightarrow> x < a * b"
proof
  assume "x div b < a"
  then have "b * (x div b) \<le> b * (a - 1)" using assms by (intro mult_left_mono) simp_all
  moreover have "b * (a - 1) = a * b - b" by (simp add: algebra_simps)
  ultimately show "x < a * b"
    using mult_div_mod_eq [of b x] pos_mod_bound [OF assms, of x] by linarith
next
  assume x: "x < a * b"
  show "x div b < a"
  proof (rule ccontr)
    assume "\<not> x div b < a"
    then have "b * a \<le> b * (x div b)" using assms by (intro mult_left_mono) simp_all
    then show False
      using x mult_div_mod_eq [of b x] pos_mod_sign [OF assms, of x] by (simp add: mult.commute [of a b])
  qed
qed

lemma arith_mul_exact:
  "arith_int CHR ''*'' l r = (if i64_holds (sint l * sint r) then Inr (word_of_int (sint l * sint r)) else Inl EXPR_ERR_OVERFLOW)"
proof -
  define a b where "a = sint l" and "b = sint r"
  have u: "uint (i64_mag l) = \<bar>a\<bar>" "uint (i64_mag r) = \<bar>b\<bar>" by (simp_all add: uint_i64_mag a_def b_def)
  have lim: "uint (I64_MAX + 1) = 2 ^ 63" by (simp add: I64_MAX_def)
  have guard: "(i64_mag l \<noteq> 0 \<and> i64_mag r \<noteq> 0 \<and> i64_mag l > (I64_MAX + 1) div i64_mag r) \<longleftrightarrow> 2 ^ 63 < \<bar>a * b\<bar>"
  proof (cases "a = 0 \<or> b = 0")
    case True
    then show ?thesis using u by (auto simp: word_uint_eq_iff)
  next
    case False
    have "i64_mag l > (I64_MAX + 1) div i64_mag r \<longleftrightarrow> 2 ^ 63 div \<bar>b\<bar> < \<bar>a\<bar>"
      by (simp only: word_less_def uint_div_distrib lim u)
    also have "\<dots> \<longleftrightarrow> 2 ^ 63 < \<bar>a\<bar> * \<bar>b\<bar>"
      by (rule int_div_less) (use False in simp)
    finally show ?thesis using False u by (auto simp: word_uint_eq_iff abs_mult)
  qed
  have zero: "(l <s 0) \<noteq> (r <s 0) \<longleftrightarrow> (a < 0) \<noteq> (b < 0)" by (simp add: word_sless_alt a_def b_def)
  show ?thesis
  proof (cases "2 ^ 63 < \<bar>a * b\<bar>")
    case True
    then have "\<not> i64_holds (a * b)" by (auto simp: i64_holds_def)
    then show ?thesis
      using True guard by (simp add: arith_int_def arith_mul_def Let_def a_def b_def)
  next
    case False
    have m: "uint (i64_mag l * i64_mag r) = \<bar>a * b\<bar>"
      using False by (simp add: uint_word_ariths u abs_mult)
    then have mw: "i64_mag l * i64_mag r = word_of_int \<bar>a * b\<bar>" by (metis word_of_int_uint)
    have big: "\<not> i64_mag l * i64_mag r > I64_MAX + 1" using False by (simp add: word_less_def m lim)
    have top: "i64_mag l * i64_mag r > I64_MAX \<longleftrightarrow> \<bar>a * b\<bar> = 2 ^ 63" "i64_mag l * i64_mag r = I64_MAX + 1 \<longleftrightarrow> \<bar>a * b\<bar> = 2 ^ 63"
      using False by (auto simp: word_less_def m sint_consts word_uint_eq_iff lim)
    have res: "arith_int CHR ''*'' l r = (if (a < 0) \<noteq> (b < 0)
        then Inr (if \<bar>a * b\<bar> = 2 ^ 63 then I64_MIN else - word_of_int \<bar>a * b\<bar>)
        else if \<bar>a * b\<bar> = 2 ^ 63 then Inl EXPR_ERR_OVERFLOW else Inr (word_of_int \<bar>a * b\<bar>))"
    proof -
      have "arith_int CHR ''*'' l r = arith_mul l r" by (simp add: arith_int_def)
      then show ?thesis by (simp only: arith_mul_def Let_def guard zero big top False if_False mw [symmetric])
    qed
    have sign: "(a < 0) \<noteq> (b < 0) \<Longrightarrow> a * b \<le> 0" "(a < 0) = (b < 0) \<Longrightarrow> 0 \<le> a * b"
      by (auto simp: mult_nonneg_nonpos mult_nonpos_nonneg mult_nonpos_nonpos not_less)
    show ?thesis
      unfolding a_def [symmetric] b_def [symmetric]
    proof (cases "(a < 0) \<noteq> (b < 0)")
      case True
      then have ab: "\<bar>a * b\<bar> = - (a * b)" using sign(1) by simp
      show "arith_int CHR ''*'' l r = (if i64_holds (a * b) then Inr (word_of_int (a * b)) else Inl EXPR_ERR_OVERFLOW)"
      proof (cases "a * b = - (2 ^ 63)")
        case True
        then have "\<bar>a * b\<bar> = 2 ^ 63" by simp
        then have "arith_int CHR ''*'' l r = Inr I64_MIN"
          unfolding res using \<open>(a < 0) \<noteq> (b < 0)\<close> by (simp only: if_True simp_thms)
        moreover have "word_of_int (- (2 ^ 63)) = I64_MIN" by (simp add: I64_MIN_def)
        ultimately show ?thesis unfolding True by (simp add: i64_holds_def)
      next
        case less: False
        then have "\<bar>a * b\<bar> \<noteq> 2 ^ 63" using ab by linarith
        then have "arith_int CHR ''*'' l r = Inr (- word_of_int \<bar>a * b\<bar>)"
          unfolding res using True by (simp only: if_True if_False simp_thms)
        moreover have "i64_holds (a * b)" using False ab sign(1) True by (simp add: i64_holds_def)
        ultimately show ?thesis unfolding ab by simp
      qed
    next
      case same: False
      then have ab: "\<bar>a * b\<bar> = a * b" using sign(2) by simp
      then have "i64_holds (a * b) \<longleftrightarrow> a * b \<noteq> 2 ^ 63" using False sign(2) same by (auto simp: i64_holds_def)
      then show "arith_int CHR ''*'' l r = (if i64_holds (a * b) then Inr (word_of_int (a * b)) else Inl EXPR_ERR_OVERFLOW)"
        unfolding res ab using same by (cases "a * b = 2 ^ 63") (simp_all only: if_True if_False simp_thms)
    qed
  qed
qed

lemma sdiv_range:
  fixes a b :: int
  assumes "b \<noteq> 0" and "- (2 ^ 63) \<le> a" and "a < 2 ^ 63" and "- (2 ^ 63) \<le> b" and "b < 2 ^ 63"
  shows "i64_holds (a sdiv b) \<longleftrightarrow> \<not> (a = - (2 ^ 63) \<and> b = - 1)" and "i64_holds (a smod b)"
proof -
  have q: "- \<bar>a\<bar> \<le> a sdiv b" "a sdiv b \<le> \<bar>a\<bar>" using sdiv_int_range [of a b] by simp_all
  show "i64_holds (a sdiv b) \<longleftrightarrow> \<not> (a = - (2 ^ 63) \<and> b = - 1)"
  proof (cases "a = - (2 ^ 63)")
    case True
    then have "a sdiv b = 2 ^ 63 \<longleftrightarrow> b = - 1" using int_sdiv_negated_is_minus1 [of a b] by simp
    then show ?thesis using q True by (auto simp: i64_holds_def)
  next
    case False
    then show ?thesis using q assms(2,3) by (auto simp: i64_holds_def)
  qed
  show "i64_holds (a smod b)"
    using smod_int_range [OF assms(1), of a] assms(4,5) by (auto simp: i64_holds_def)
qed

text \<open>C27: Integer arithmetic is exact. On the 64-bit integers of the language every operator returns the
  mathematical result when it is representable and an overflow fault when it is not; division truncates
  towards zero, and dividing by zero is its own fault. (The remainder of the smallest integer by -1,
  which would be 0, is refused as an overflow.)\<close>

theorem integer_arithmetic_exact:
  assumes "op \<in> set ''+-*/%''"
  shows "expr_arith op (Value_int l) (Value_int r) =
    (if op \<in> set ''/%'' \<and> r = 0 then Inl EXPR_ERR_ZERO_DIVIDE
     else if op = CHR ''%'' \<and> sint l = - (2 ^ 63) \<and> sint r = - 1 then Inl EXPR_ERR_OVERFLOW
     else if i64_holds (ideal_op op (sint l) (sint r)) then Inr (Value_int (word_of_int (ideal_op op (sint l) (sint r))))
     else Inl EXPR_ERR_OVERFLOW)"
proof -
  have "arith_int op l r =
    (if op \<in> set ''/%'' \<and> r = 0 then Inl EXPR_ERR_ZERO_DIVIDE
     else if op = CHR ''%'' \<and> sint l = - (2 ^ 63) \<and> sint r = - 1 then Inl EXPR_ERR_OVERFLOW
     else if i64_holds (ideal_op op (sint l) (sint r)) then Inr (word_of_int (ideal_op op (sint l) (sint r)))
     else Inl EXPR_ERR_OVERFLOW)"
  proof (cases "op \<in> set ''/%''")
    case True
    have z: "r = 0 \<longleftrightarrow> sint r = 0" by (metis i64_eqI sint_0)
    have e: "l = I64_MIN \<and> r = - 1 \<longleftrightarrow> sint l = - (2 ^ 63) \<and> sint r = - 1"
      by (metis i64_eqI sint_consts(2) sint_n1)
    have h: "i64_holds (sint l sdiv sint r) \<longleftrightarrow> \<not> (l = I64_MIN \<and> r = - 1)" "i64_holds (sint l smod sint r)" if "r \<noteq> 0"
      using sdiv_range [of "sint r" "sint l"] i64_range that unfolding e z by blast+
    have m: "\<not> i64_holds (- sint I64_MIN)" by (simp add: sint_consts i64_holds_def)
    have "op = CHR ''/'' \<or> op = CHR ''%''" using True by auto
    then show ?thesis
      unfolding e [symmetric]
      by (elim disjE; cases "r = 0"; cases "l = I64_MIN \<and> r = - 1") (simp_all add: arith_int_def ideal_op_def h m)
  next
    case False
    then have "op = CHR ''+'' \<or> op = CHR ''-'' \<or> op = CHR ''*''" using assms by auto
    then show ?thesis
      by (elim disjE) (simp_all add: arith_add_exact arith_sub_exact arith_mul_exact ideal_op_def)
  qed
  then show ?thesis by (simp add: expr_arith_def expr_is_wild_def)
qed

lemma integer_arithmetic_exact_witness:
  "expr_arith CHR ''*'' (Value_int 3037000500) (Value_int 3037000500) = Inl EXPR_ERR_OVERFLOW"
proof -
  have "CHR ''*'' \<in> set ''+-*/%''" by simp
  from integer_arithmetic_exact [OF this, of 3037000500 3037000500]
  have "expr_arith CHR ''*'' (Value_int 3037000500) (Value_int 3037000500) =
    (if CHR ''*'' \<in> set ''/%'' \<and> (3037000500 :: 64 word) = 0 then Inl EXPR_ERR_ZERO_DIVIDE
     else if CHR ''*'' = CHR ''%'' \<and> sint (3037000500 :: 64 word) = - (2 ^ 63) \<and> sint (3037000500 :: 64 word) = - 1
     then Inl EXPR_ERR_OVERFLOW
     else if i64_holds (ideal_op CHR ''*'' (sint (3037000500 :: 64 word)) (sint (3037000500 :: 64 word)))
     then Inr (Value_int (word_of_int (ideal_op CHR ''*'' (sint (3037000500 :: 64 word)) (sint (3037000500 :: 64 word)))))
     else Inl EXPR_ERR_OVERFLOW)" .
  also have "\<dots> = Inl EXPR_ERR_OVERFLOW" by code_simp
  finally show ?thesis .
qed


subsection \<open>Types of results\<close>

text \<open>The values of the language: boolean, 64-bit integer, float.\<close>

definition typed_value :: "signal_value \<Rightarrow> bool" where
  "typed_value v \<longleftrightarrow> (case v of Value_bool _ \<Rightarrow> True | Value_int _ \<Rightarrow> True | Value_real _ \<Rightarrow> True | _ \<Rightarrow> False)"

lemma typed_values [simp]:
  "typed_value (Value_bool b)" "typed_value (Value_int i)" "typed_value (Value_real x)"
  "\<not> typed_value (Value_uint u)" "\<not> typed_value Value_unset"
  by (simp_all add: typed_value_def)

definition gives :: "('a \<Rightarrow> bool) \<Rightarrow> 'a parsed \<Rightarrow> bool" where
  "gives P r \<longleftrightarrow> (\<forall>v p. r = Parsed v p \<longrightarrow> P v)"

lemma gives_simps [simp]: "gives P (Parsed v p) = P v" "gives P (Failed e p)" "gives P Stuck"
  by (simp_all add: gives_def)

lemma gives_then: "gives Q r \<Longrightarrow> (\<And>v p. Q v \<Longrightarrow> gives P (f v p)) \<Longrightarrow>
    gives P (case r of Parsed v p \<Rightarrow> f v p | Failed e p \<Rightarrow> Failed e p | Stuck \<Rightarrow> Stuck)"
  by (cases r) simp_all

lemma gives_lift: "(\<And>v. r = Inr v \<Longrightarrow> P v) \<Longrightarrow> gives P (lift_result p r)"
  by (cases r) (simp_all add: lift_result_def)

lemma gives_if: "(b \<Longrightarrow> gives P x) \<Longrightarrow> (\<not> b \<Longrightarrow> gives P y) \<Longrightarrow> gives P (if b then x else y)"
  by simp

named_theorems typing

lemma arith_typed [typing]: "typed_value l \<Longrightarrow> typed_value r \<Longrightarrow> expr_arith op l r = Inr v \<Longrightarrow> typed_value v"
  by (cases l; cases r; cases "arith_int op (case l of Value_int i \<Rightarrow> i) (case r of Value_int i \<Rightarrow> i)";
      cases "arith_real op (expr_to_real l) (expr_to_real r)")
    (auto simp: typed_value_def expr_arith_def expr_is_wild_def)

lemma compare_typed [typing]: "expr_compare op b l r = Inr v \<Longrightarrow> typed_value v"
  by (auto simp: expr_compare_def typed_value_def Let_def split: if_splits signal_value.splits)

lemma junction_typed [typing]: "expr_junction f l r = Inr v \<Longrightarrow> typed_value v"
  by (auto simp: expr_junction_def typed_value_def split: if_splits signal_value.splits)

lemma not_typed [typing]: "typed_value w \<Longrightarrow> expr_not w = Inr v \<Longrightarrow> typed_value v"
  by (auto simp: expr_not_def typed_value_def split: if_splits signal_value.splits)

lemma negate_typed [typing]: "typed_value w \<Longrightarrow> expr_negate w = Inr v \<Longrightarrow> typed_value v"
  by (auto simp: expr_negate_def typed_value_def split: if_splits signal_value.splits)

lemma typed_not_wild: "typed_value v \<Longrightarrow> \<not> expr_is_wild v"
  by (auto simp: typed_value_def expr_is_wild_def)

lemma call_typed [typing]:
  assumes "\<forall>v \<in> set vs. typed_value v" and "expr_apply_call name vs = Inr v"
  shows "typed_value v"
proof -
  have w: "\<not> list_ex expr_is_wild vs" using assms(1) typed_not_wild by (auto simp: list_ex_iff)
  have nth: "i < length vs \<Longrightarrow> typed_value (vs ! i)" for i using assms(1) by simp
  consider "name = ''round''" | "name = ''abs''" | "name = ''min'' \<or> name = ''max''" | "name = ''clamp''"
    using assms(2) by (auto simp: expr_apply_call_def split: if_splits)
  then show ?thesis
  proof cases
    case 3
    then have m: "call_min_max (name = ''min'') vs = Inr v" using assms(2) by (auto simp: expr_apply_call_def)
    then have "length vs = 2" by (auto simp: call_min_max_def split: if_splits)
    then have "typed_value (vs ! 0)" "typed_value (vs ! 1)" using nth by simp_all
    then show ?thesis using m w
      by (auto simp: call_min_max_def Let_def split: if_splits)
  qed (use assms(2) w in \<open>auto simp: expr_apply_call_def call_round_def call_abs_def call_clamp_def Let_def typed_value_def
      split: if_splits signal_value.splits option.splits\<close>)
qed

lemma from_u64_typed [simp]: "typed_value (expr_from_u64 u)"
  by (simp add: expr_from_u64_def)

lemma from_value_typed: "expr_from_value v = Some w \<Longrightarrow> typed_value w"
  by (cases v) auto

lemma zip_rest_typed: "\<forall>(n, w) \<in> set (List.map (\<lambda>n. (n, Some (Value_int 0))) ns). \<forall>x. w = Some x \<longrightarrow> typed_value x"
  by auto

lemma payload_typed: "\<forall>(n, w) \<in> set (payload_fields ty p). \<forall>x. w = Some x \<longrightarrow> typed_value x"
proof (cases "p = Payload_zero")
  case True
  then have "payload_fields ty p = List.map (\<lambda>n. (n, Some (Value_int 0))) (zero_fields ty)"
    by (cases ty) (simp_all add: payload_fields_def zero_fields_def)
  then show ?thesis using zip_rest_typed by simp
next
  case False
  then show ?thesis by (cases ty; cases p) (auto simp: payload_fields_def from_value_typed)
qed

lemma field_typed:
  assumes "expr_field_value e n = Some v"
  shows "typed_value v"
proof -
  let ?ok = "\<lambda>(n, w). \<forall>x. w = Some x \<longrightarrow> typed_value x"
  obtain xs where m: "map_of (xs @ payload_fields (ev_type e) (ev_payload e)) n = Some (Some v)" and xs: "\<forall>y \<in> set xs. ?ok y"
  proof (rule that)
    show "map_of ([(''event_id'', Some (expr_from_u64 (ucast (ev_event_id e)))),
          (''timestamp_us'', Some (expr_from_u64 (ev_timestamp_us e))),
          (''sequence'', Some (expr_from_u64 (ucast (ev_sequence e)))),
          (''cause_sequence'', Some (expr_from_u64 (ucast (ev_cause_sequence e)))),
          (''priority_class'', Some (expr_from_u64 (word_of_int (priority_code (ev_priority_class e))))),
          (''type'', Some (expr_from_u64 (word_of_int (event_type_code (ev_type e)))))]
         @ payload_fields (ev_type e) (ev_payload e)) n = Some (Some v)"
      using assms by (simp only: expr_field_value_def split: option.splits) simp_all
  qed simp
  have "(n, Some v) \<in> set (xs @ payload_fields (ev_type e) (ev_payload e))" using m by (rule map_of_SomeD)
  then show ?thesis using xs payload_typed [of "ev_type e" "ev_payload e"] by fastforce
qed

lemma resolve_typed [typing]:
  assumes "\<not> xe_validate_only env" and "expr_resolve env name = Inr v"
  shows "typed_value v"
proof -
  have read: "expr_read f b n = Inr w \<Longrightarrow> typed_value w" for f b n w
    by (auto simp: expr_read_def from_value_typed split: option.splits prod.splits if_splits)
  show ?thesis
    using assms read field_typed
    by (auto simp: expr_resolve_def Let_def split: if_splits option.splits)
qed

lemma number_typed [typing]: "number_value s = Inr v \<Longrightarrow> typed_value v"
  by (auto simp: number_value_def split: if_splits prod.splits)

lemma parse_number_typed:
  "\<not> xe_validate_only env \<Longrightarrow> gives typed_value (parse_number env p)"
  by (auto simp: parse_number_def gives_def split: parsed.splits sum.splits dest: number_typed)

lemma operator_loop_typed:
  assumes "\<And>q. gives typed_value (operand q)"
    and "\<And>op l r v. typed_value l \<Longrightarrow> typed_value r \<Longrightarrow> combine op l r = Inr v \<Longrightarrow> typed_value v"
  shows "typed_value lhs \<Longrightarrow> gives typed_value (operator_loop n next_op operand combine lhs p)"
proof (induction n arbitrary: lhs p)
  case (Suc n)
  obtain r q where n: "next_op p = (r, q)" by fastforce
  have rest: "gives typed_value (case combine op lhs w of Inl e \<Rightarrow> Failed e t | Inr v \<Rightarrow> operator_loop n next_op operand combine v t)"
    if "typed_value w" for op w t
    using assms(2) [OF Suc.prems that] Suc.IH by (simp split: sum.split)
  show ?case
    unfolding operator_loop.simps n prod.case
    using Suc.prems gives_then [OF assms(1) rest] by (cases r) simp_all
qed (simp add: operator_loop.simps)

lemma parse_typed:
  fixes env :: expr_env
  assumes run: "\<not> xe_validate_only env"
  shows "gives typed_value (parse_or env d pos)" and "gives typed_value (parse_and env d pos)"
    and "gives typed_value (parse_not env d pos)" and "gives typed_value (parse_cmp env d pos)"
    and "gives typed_value (parse_add env d pos)" and "gives typed_value (parse_mul env d pos)"
    and "gives typed_value (parse_unary env d pos)" and "gives typed_value (parse_primary env d pos)"
    and "gives typed_value (parse_call env d name pos)"
    and "(\<forall>v \<in> set vs. typed_value v) \<longrightarrow> gives (\<lambda>ws. \<forall>w \<in> set ws. typed_value w) (parse_args env d vs pos)"
proof (induction d pos and d pos and d pos and d pos and d pos and d pos and d pos and d pos and d name pos and d vs pos
    rule: depth_induct)
  case (Or d p)
  show ?case unfolding parse_or.simps
    by (intro gives_if gives_simps gives_then [of typed_value] operator_loop_typed) ((use Or in \<open>simp add: not_le; fail\<close>) | assumption | erule junction_typed)+
next
  case (And d p)
  show ?case unfolding parse_and.simps
    by (intro gives_then [of typed_value] operator_loop_typed) ((use And in \<open>simp add: not_le; fail\<close>) | assumption | erule junction_typed)+
next
  case (Add d p)
  show ?case unfolding parse_add.simps
    by (intro gives_if gives_simps gives_then [of typed_value] operator_loop_typed) ((use Add in \<open>simp add: not_le; fail\<close>) | assumption | erule (2) arith_typed)+
next
  case (Mul d p)
  show ?case unfolding parse_mul.simps
    by (intro gives_if gives_simps gives_then [of typed_value] operator_loop_typed) ((use Mul in \<open>simp add: not_le; fail\<close>) | assumption | erule (2) arith_typed)+
next
  case (Not d p)
  have n: "gives typed_value (case parse_not env (d + 1) q of Parsed v q \<Rightarrow> lift_result q (expr_not v) | Failed e p \<Rightarrow> Failed e p | Stuck \<Rightarrow> Stuck)"
    if "d < EXPRESSION_MAX_DEPTH" for q
    using Not(1) [OF that] by (rule gives_then) (rule gives_lift, erule (1) not_typed)
  obtain b q where a: "accept_word (xe_text env) ''not'' p = (b, q)" by fastforce
  show ?case unfolding parse_not.simps [of env d p] a prod.case
    by (intro gives_if gives_simps(2); cases b) (simp_all only: bool.case not_le n Not(2))
next
  case (Cmp d p)
  have r: "gives typed_value (case parse_add env d q of Parsed w t \<Rightarrow> lift_result t (expr_compare op b v w) | Failed e p \<Rightarrow> Failed e p | Stuck \<Rightarrow> Stuck)"
    for q op b v
    using Cmp by (rule gives_then) (rule gives_lift, erule compare_typed)
  show ?case unfolding parse_cmp.simps Let_def
    by (rule gives_then, rule Cmp) (use r in \<open>auto split: option.splits\<close>)
next
  case (Unary d p)
  have n: "gives typed_value (case parse_unary env (d + 1) q of Parsed v q \<Rightarrow> lift_result q (expr_negate v) | Failed e p \<Rightarrow> Failed e p | Stuck \<Rightarrow> Stuck)"
    if "d < EXPRESSION_MAX_DEPTH" for q
    using Unary(1) [OF that] by (rule gives_then) (rule gives_lift, erule (1) negate_typed)
  obtain b q where a: "accept_char (xe_text env) CHR ''-'' p = (b, q)" by fastforce
  obtain b2 q2 where a2: "accept_char (xe_text env) CHR ''+'' q = (b2, q2)" by fastforce
  show ?case unfolding parse_unary.simps [of env d p] a prod.case a2
    by (intro gives_if gives_simps(2); cases b; cases b2) (simp_all only: bool.case not_le n Unary(2) gives_simps)
next
  case (Primary d p)
  have paren: "gives typed_value (case parse_or env d q of
      Parsed v r \<Rightarrow> (case accept_char tx c r of (True, t) \<Rightarrow> Parsed v t | (False, t) \<Rightarrow> Failed EXPR_ERR_SYNTAX t)
    | Failed e p \<Rightarrow> Failed e p | Stuck \<Rightarrow> Stuck)" for q tx c
    by (rule gives_then, rule Primary) (auto split: prod.split bool.split)
  show ?case
    unfolding parse_primary.simps Let_def
    by (auto simp: run split: prod.split intro!: gives_if paren parse_number_typed Primary gives_lift dest: resolve_typed [OF run])
next
  case (Call d name p)
  have close: "gives typed_value (case accept_char tx c r of
        (True, t) \<Rightarrow> lift_result t (expr_apply_call name ws) | (False, t) \<Rightarrow> Failed EXPR_ERR_SYNTAX t)"
    if "\<forall>w \<in> set ws. typed_value w" for ws r tx c
    using that by (auto split: prod.split bool.split intro!: gives_lift dest: call_typed)
  have args: "gives (\<lambda>ws. \<forall>w \<in> set ws. typed_value w) (if b then parse_args env d [] q else Parsed [] q)" for b q
    using Call by simp
  obtain b q where a: "accept_char (xe_text env) CHR ''('' p = (b, q)" by fastforce
  show ?case unfolding parse_call.simps Let_def a prod.case
    by (intro gives_if gives_simps; cases b) (simp_all only: bool.case gives_simps gives_then [OF args close])
next
  case (Args d vs p)
  show ?case
  proof (intro impI)
    assume vs: "\<forall>v \<in> set vs. typed_value v"
    show "gives (\<lambda>ws. \<forall>w \<in> set ws. typed_value w) (parse_args env d vs p)"
      unfolding parse_args.simps [of env d vs p]
      by (intro gives_if gives_simps gives_then [of typed_value])
        (use Args vs in \<open>auto simp: not_le split: prod.split bool.split\<close>)
  qed
qed

text \<open>Results are typed. A successful evaluation in a context gives a boolean, a 64-bit integer or a
  float: never the unset value, which the parser uses as its wildcard, and never an unsigned integer,
  whatever the signals, variables and events hold.\<close>

theorem evaluation_typed:
  assumes "expression_evaluate tx (Some c) = Some (Inr v)"
  shows "typed_value v"
proof -
  obtain t where t: "tx = Some t" using assms by (cases tx) (simp_all add: expression_evaluate_def)
  have "gives typed_value (parse_or \<lparr>xe_text = t, xe_context = Some c, xe_validate_only = False\<rparr> 0 0)"
    by (rule parse_typed) simp
  then show ?thesis
    using assms unfolding t expression_evaluate_def by (auto split: if_splits parsed.splits)
qed

lemma evaluation_typed_witness:
  "typed_value (Value_int 7)"
proof (rule evaluation_typed)
  show "expression_evaluate (Some ''2*var.x + 1'')
      (Some \<lparr>xc_read_signal = None, xc_read_variable = Some (\<lambda>n. (FSM_OK, Value_uint 3)), xc_event = None\<rparr>)
    = Some (Inr (Value_int 7))" by code_simp
qed

subsection \<open>Two evaluations\<close>

text \<open>
  Comparison, \<open>min\<close>, \<open>max\<close> and \<open>clamp\<close> go through \<open>double\<close> even for two integers, which merges neighbours
  above 2^53 and pushes the largest integer out of the range \<open>expr_round\<close> accepts.
\<close>

lemma expression_compares_through_double:
  fixes c :: expr_context
  defines "c \<equiv> \<lparr>xc_read_signal = None, xc_read_variable = None, xc_event = None\<rparr>"
  shows "expression_evaluate (Some ''9007199254740993 == 9007199254740992'') (Some c) = Some (Inr (Value_bool True))"
    and "expression_evaluate (Some ''min(9007199254740993, 9007199254740992)'') (Some c) = Some (Inr (Value_int 9007199254740993))"
    and "expression_evaluate (Some ''clamp(9223372036854775807, 0, 9223372036854775807)'') (Some c) = Some (Inl EXPR_ERR_DOMAIN)"
  unfolding c_def by code_simp+

text \<open>
  In validation \<open>round\<close> gives the integer 0 instead of the wildcard, so an expression that divides by a
  rounded value does not validate, whatever it would evaluate to.
\<close>

lemma validation_refuses_rounded_divisor:
  "expression_validate (Some ''round(var.a)/round(var.b)'') = Some (Inl (EXPR_ERR_ZERO_DIVIDE, 25)) \<and>
   expression_evaluate (Some ''round(var.a)/round(var.b)'')
     (Some \<lparr>xc_read_signal = None,
       xc_read_variable = Some (\<lambda>n. (FSM_OK, Value_real (if n = ''a'' then 0x4010000000000000 else 0x4000000000000000))),
       xc_event = None\<rparr>) = Some (Inr (Value_int 2))"
  by code_simp

end
