(* ===== verification/Fsm_Engine_Types.thy ===== *)
theory Fsm_Engine_Types
  imports Fsm_Expression Codec_Namespace Event_Queue_Spec "HOL-Library.Monad_Syntax"
begin

text \<open>
  core/fsm/include/cancestry/fsm/engine.h: the state of the state machine runtime, and the head of
  core/fsm/src/engine.c: value helpers and the trace ring.

  What the engine does to its environment is a history, \<open>en_effects\<close>: every call of the governor, of
  the signal bus that writes, of a sink callback and of a hard-fault hook appends an entry. What the
  environment answers is a function of that history, so a governor, a bus or a sink with any state of
  its own is covered, also when they share it. Callbacks do not re-enter the engine. Counts of the
  bounded tables and indices into them are natural numbers. Pointers to the definition and machine of
  an instance, set for good by the initialisation, are the structures.
\<close>

subsection \<open>Capabilities\<close>

text \<open>A NULL list is the empty list, which permits the same: nothing.\<close>

record interface_capability =
  ica_name :: string
  ica_id :: interface_id
  ica_rx :: bool
  ica_tx :: bool
  ica_tx_ids :: "u32 list"

record fsm_capabilities =
  cp_interfaces :: "interface_capability list"
  cp_signal_read :: "string list"
  cp_signal_write :: "string list"

subsection \<open>Requests and effects\<close>

datatype fsm_governor_decision = FSM_GOVERNOR_APPROVE | FSM_GOVERNOR_DENY

datatype fsm_governor_request_kind = FSM_GOVERNOR_SEND_MESSAGE | FSM_GOVERNOR_SET_SIGNAL

record fsm_governor_request =
  gq_kind :: fsm_governor_request_kind
  gq_instance_id :: u32
  gq_cause :: "event option"
  gq_interface_name :: "string option"
  gq_interface_id :: interface_id
  gq_message_name :: "string option"
  gq_can_id :: u32
  gq_frame :: "u8 list"
  gq_frame_length :: u8
  gq_signal_name :: "string option"
  gq_signal_id :: u32
  gq_value :: "signal_value option"

text \<open>The context of a sink callback; the instance is given by its id.\<close>

record fsm_invocation =
  iv_instance_id :: u32
  iv_event :: "event option"
  iv_action :: "fsm_action option"
  iv_state :: "string option"
  iv_transition :: "fsm_transition option"
  iv_chain_depth :: u16

datatype fsm_effect =
    Effect_governor fsm_governor_request fsm_governor_decision
  | Effect_bus_write string signal_value fsm_status
  | Effect_send_message fsm_invocation string interface_id string u32 "u8 list" u8
  | Effect_signal_write fsm_invocation string u32 signal_value signal_value
  | Effect_log fsm_invocation fsm_log_level string
  | Effect_fault fsm_invocation string fault_severity u32
  | Effect_timer fsm_invocation int string u32 bool
  | Effect_state_change fsm_invocation "string option" string
  | Effect_warning fsm_invocation string
  | Effect_hook hook_call

type_synonym fsm_governor = "fsm_effect list \<Rightarrow> fsm_governor_request \<Rightarrow> fsm_governor_decision"

text \<open>\<open>resolve\<close> gives the contents of \<open>id_out\<close> after the call.\<close>

record fsm_signal_bus =
  bus_read :: "(fsm_effect list \<Rightarrow> string \<Rightarrow> fsm_status \<times> signal_value) option"
  bus_write :: "(fsm_effect list \<Rightarrow> string \<Rightarrow> signal_value \<Rightarrow> fsm_status) option"
  bus_resolve :: "(fsm_effect list \<Rightarrow> string \<Rightarrow> u32) option"

text \<open>A sink says which callbacks are not NULL.\<close>

record fsm_sink =
  sk_send_message :: bool
  sk_signal_write :: bool
  sk_log :: bool
  sk_fault :: bool
  sk_timer :: bool
  sk_state_change :: bool
  sk_warning :: bool

subsection \<open>Trace records and counters\<close>

datatype fsm_trace_kind =
    TRACE_EVENT | TRACE_TRANSITION | TRACE_ACTION | TRACE_ACTION_ERROR | TRACE_GUARD_TRUE
  | TRACE_GUARD_FALSE | TRACE_GUARD_ERROR | TRACE_DENIED | TRACE_TIMER | TRACE_LIFECYCLE
  | TRACE_WARNING | TRACE_FAULT

fun fsm_trace_kind_name :: "fsm_trace_kind \<Rightarrow> string" where
  "fsm_trace_kind_name TRACE_EVENT = ''event''"
| "fsm_trace_kind_name TRACE_TRANSITION = ''transition''"
| "fsm_trace_kind_name TRACE_ACTION = ''action''"
| "fsm_trace_kind_name TRACE_ACTION_ERROR = ''action_error''"
| "fsm_trace_kind_name TRACE_GUARD_TRUE = ''guard_true''"
| "fsm_trace_kind_name TRACE_GUARD_FALSE = ''guard_false''"
| "fsm_trace_kind_name TRACE_GUARD_ERROR = ''guard_error''"
| "fsm_trace_kind_name TRACE_DENIED = ''denied''"
| "fsm_trace_kind_name TRACE_TIMER = ''timer''"
| "fsm_trace_kind_name TRACE_LIFECYCLE = ''lifecycle''"
| "fsm_trace_kind_name TRACE_WARNING = ''warning''"
| "fsm_trace_kind_name TRACE_FAULT = ''fault''"

definition TRACE_DETAIL_MAX :: nat where "TRACE_DETAIL_MAX = 48"

text \<open>\<open>tr_code\<close> is signed in C.\<close>

record fsm_trace_record =
  tr_timestamp_us :: time_us
  tr_instance_id :: u32
  tr_kind :: fsm_trace_kind
  tr_code :: "32 word"
  tr_detail :: string

record fsm_instance_counters =
  ic_events_queued :: u32
  ic_events_processed :: u32
  ic_events_dropped :: u32
  ic_events_suppressed :: u32
  ic_transitions :: u32
  ic_deferred_transitions :: u32
  ic_chain_limit_exceeded :: u32
  ic_deferred_ignored :: u32
  ic_initialization_errors :: u32
  ic_guards_evaluated :: u32
  ic_guards_true :: u32
  ic_guards_false :: u32
  ic_guard_errors :: u32
  ic_actions_executed :: u32
  ic_action_errors :: u32
  ic_governor_denials :: u32
  ic_capability_denials :: u32
  ic_messages_sent :: u32
  ic_signals_set :: u32
  ic_variables_set :: u32
  ic_logs_emitted :: u32
  ic_faults_raised :: u32
  ic_timer_starts :: u32
  ic_timer_stops :: u32
  ic_timer_resets :: u32
  ic_timer_expiries :: u32
  ic_timer_missed_ticks :: u32
  ic_budget_exhausted :: u32

definition zero_instance_counters :: fsm_instance_counters where
  "zero_instance_counters = \<lparr>ic_events_queued = 0, ic_events_processed = 0, ic_events_dropped = 0,
     ic_events_suppressed = 0, ic_transitions = 0, ic_deferred_transitions = 0,
     ic_chain_limit_exceeded = 0, ic_deferred_ignored = 0, ic_initialization_errors = 0,
     ic_guards_evaluated = 0, ic_guards_true = 0, ic_guards_false = 0, ic_guard_errors = 0,
     ic_actions_executed = 0, ic_action_errors = 0, ic_governor_denials = 0,
     ic_capability_denials = 0, ic_messages_sent = 0, ic_signals_set = 0, ic_variables_set = 0,
     ic_logs_emitted = 0, ic_faults_raised = 0, ic_timer_starts = 0, ic_timer_stops = 0,
     ic_timer_resets = 0, ic_timer_expiries = 0, ic_timer_missed_ticks = 0, ic_budget_exhausted = 0\<rparr>"

record fsm_engine_counters =
  ec_events_received :: u32
  ec_events_delivered :: u32
  ec_events_ignored :: u32
  ec_global_queue_drops :: u32
  ec_ticks :: u32
  ec_next_event_id :: event_id

subsection \<open>Instances and engine\<close>

record fsm_variable_slot =
  vs_name :: string
  vs_declared :: value_kind
  vs_value :: signal_value
  vs_initialized :: bool

record fsm_timer_state =
  ts_name :: string
  ts_id :: u32
  ts_running :: bool
  ts_repeat :: bool
  ts_duration_ms :: u32
  ts_deadline_us :: time_us
  ts_expires :: u32
  ts_missed_ticks :: u32

text \<open>The tables are the caller's storage, of which the first \<open>count\<close> slots are in use.\<close>

record fsm_instance =
  in_def :: fsm_instance_def
  in_machine :: fsm_machine
  in_index :: nat
  in_id :: u32
  in_lifecycle :: fsm_lifecycle
  in_state_index :: nat
  in_has_state :: bool
  in_incoming :: event_queue
  in_variables :: "fsm_variable_slot list"
  in_variable_capacity :: nat
  in_variable_count :: nat
  in_timers :: "fsm_timer_state list"
  in_timer_capacity :: nat
  in_timer_count :: nat
  in_deferred_pending :: bool
  in_deferred_target :: nat
  in_processing :: bool
  in_counters :: fsm_instance_counters

record 'c fsm_engine =
  en_sets :: "fsm_set list"
  en_instances :: "fsm_instance list"
  en_clock :: "'c clock option"
  en_now_us :: time_us
  en_ticks :: u64
  en_owns_time_base :: bool
  en_capabilities :: "fsm_capabilities option"
  en_namespace :: "codec_namespace option"
  en_signal_bus :: "fsm_signal_bus option"
  en_global_queue :: "event_queue option"
  en_bindings :: "fsm_binding list"
  en_governor :: "fsm_governor option"
  en_sink :: "fsm_sink option"
  en_trace :: "fsm_trace_record list"
  en_trace_capacity :: u16
  en_trace_count :: u16
  en_trace_next :: u16
  en_trace_dropped :: u32
  en_max_chain_depth :: u16
  en_max_actions_per_event :: u16
  en_max_events_per_activation :: u16
  en_record_events :: bool
  en_counters :: fsm_engine_counters
  en_ready :: bool
  en_effects :: "fsm_effect list"

subsection \<open>Small helpers\<close>

definition fsm_in_id_list :: "u32 list \<Rightarrow> u32 \<Rightarrow> bool" where
  "fsm_in_id_list ids v \<longleftrightarrow> list_ex (\<lambda>x. x = v) ids"

text \<open>The optional name is an event's, which may be NULL.\<close>

definition fsm_in_name_list :: "string list \<Rightarrow> string option \<Rightarrow> bool" where
  "fsm_in_name_list names name \<longleftrightarrow> list_ex (\<lambda>x. Some x = name) names"

definition fsm_sat_add :: "time_us \<Rightarrow> time_us \<Rightarrow> time_us" where
  "fsm_sat_add base delta = (if base > TIME_US_MAX - delta then TIME_US_MAX else base + delta)"

definition fsm_us :: "u32 \<Rightarrow> time_us" where
  "fsm_us ms = (if ms > (ucast (TIME_US_MAX div 1000) :: u32) then TIME_US_MAX else ucast ms * 1000)"

fun fsm_severity_name :: "fault_severity \<Rightarrow> string" where
  "fsm_severity_name FAULT_SEVERITY_INFO = ''info''"
| "fsm_severity_name FAULT_SEVERITY_WARNING = ''warning''"
| "fsm_severity_name FAULT_SEVERITY_ERROR = ''error''"
| "fsm_severity_name FAULT_SEVERITY_CRITICAL = ''critical''"
| "fsm_severity_name FAULT_SEVERITY_COUNT = ''unknown''"

definition fsm_fault_code_hash :: "string option \<Rightarrow> u32" where
  "fsm_fault_code_hash code = (case code of None \<Rightarrow> 1
     | Some s \<Rightarrow>
         let h = foldl (\<lambda>h c. (h XOR of_char c) * 16777619) 2166136261 s
         in if h = 0 then 1 else h)"

text \<open>The same code as \<open>fsm_expr_round\<close>.\<close>

definition fsm_round_half_away :: "double \<Rightarrow> 64 word option" where
  "fsm_round_half_away = expr_round"

fun fsm_value_normalize :: "signal_value \<Rightarrow> signal_value" where
  "fsm_value_normalize (Value_uint u) = (if u \<le> I64_MAX then Value_int u else Value_real (fp_of_int (uint u)))"
| "fsm_value_normalize v = v"

text \<open>Codes of the enumerations that trace records carry.\<close>

fun fsm_lifecycle_code :: "fsm_lifecycle \<Rightarrow> int" where
  "fsm_lifecycle_code LIFECYCLE_DISABLED = 0"
| "fsm_lifecycle_code LIFECYCLE_READY = 1"
| "fsm_lifecycle_code LIFECYCLE_RUNNING = 2"
| "fsm_lifecycle_code LIFECYCLE_SUSPENDED = 3"
| "fsm_lifecycle_code LIFECYCLE_FAULT = 4"

fun fsm_action_kind_code :: "fsm_action \<Rightarrow> int" where
  "fsm_action_kind_code (Action_send_message _ _ _) = 0"
| "fsm_action_kind_code (Action_set_signal _ _) = 1"
| "fsm_action_kind_code (Action_set_variable _ _) = 2"
| "fsm_action_kind_code (Action_start_timer _ _ _) = 3"
| "fsm_action_kind_code (Action_stop_timer _) = 4"
| "fsm_action_kind_code (Action_reset_timer _) = 5"
| "fsm_action_kind_code (Action_log _ _) = 6"
| "fsm_action_kind_code (Action_raise_fault _ _) = 7"
| "fsm_action_kind_code (Action_transition _ _) = 8"

fun fsm_log_level_code :: "fsm_log_level \<Rightarrow> int" where
  "fsm_log_level_code FSM_LOG_INFO = 0"
| "fsm_log_level_code FSM_LOG_WARNING = 1"
| "fsm_log_level_code FSM_LOG_ERROR = 2"

subsection \<open>The trace ring\<close>

text \<open>NULL storage is the empty list. The formatted text is passed; \<open>vsnprintf\<close> keeps what fits.\<close>

definition fsm_trace :: "'c fsm_engine \<Rightarrow> fsm_instance \<Rightarrow> fsm_trace_kind \<Rightarrow> 32 word \<Rightarrow> string \<Rightarrow> 'c fsm_engine" where
  "fsm_trace e i kind code detail =
     (if en_trace e = [] \<or> en_trace_capacity e = 0 then e
      else
        let slot = unat (en_trace_next e);
            e1 = (if en_trace_count e < en_trace_capacity e then e\<lparr>en_trace_count := en_trace_count e + 1\<rparr>
                  else e\<lparr>en_trace_dropped := en_trace_dropped e + 1\<rparr>)
        in e1\<lparr>en_trace := (en_trace e1)[slot := \<lparr>tr_timestamp_us = en_now_us e, tr_instance_id = in_id i,
                  tr_kind = kind, tr_code = code, tr_detail = take (TRACE_DETAIL_MAX - 1) detail\<rparr>],
               en_trace_next := of_nat (if slot + 1 \<ge> unat (en_trace_capacity e) then 0 else slot + 1)\<rparr>)"

definition fsm_trace_index_at :: "'c fsm_engine \<Rightarrow> nat \<Rightarrow> nat" where
  "fsm_trace_index_at e index =
     (let start = (if en_trace_count e = en_trace_capacity e then unat (en_trace_next e) else 0)
      in (start + index) mod unat (en_trace_capacity e))"

definition engine_trace_count :: "'c fsm_engine option \<Rightarrow> nat" where
  "engine_trace_count eng = (case eng of None \<Rightarrow> 0
     | Some e \<Rightarrow> if en_trace e = [] then 0 else unat (en_trace_count e))"

definition engine_trace_record :: "'c fsm_engine option \<Rightarrow> nat \<Rightarrow> fsm_trace_record option" where
  "engine_trace_record eng index = (case eng of None \<Rightarrow> None
     | Some e \<Rightarrow> if en_trace e = [] \<or> index \<ge> unat (en_trace_count e) then None
         else Some (en_trace e ! fsm_trace_index_at e index))"

definition engine_trace_dropped :: "'c fsm_engine option \<Rightarrow> u32" where
  "engine_trace_dropped eng = (case eng of None \<Rightarrow> 0 | Some e \<Rightarrow> en_trace_dropped e)"

definition engine_trace_clear :: "'c fsm_engine option \<Rightarrow> 'c fsm_engine option" where
  "engine_trace_clear eng = map_option (\<lambda>e. e\<lparr>en_trace_count := 0, en_trace_next := 0\<rparr>) eng"

text \<open>Decimal printing, as \<open>%u\<close> and \<open>%d\<close> do.\<close>

fun show_nat :: "nat \<Rightarrow> string" where
  "show_nat n = (if n < 10 then [char_of (48 + n)] else show_nat (n div 10) @ [char_of (48 + n mod 10)])"

declare show_nat.simps [simp del]

definition show_int :: "int \<Rightarrow> string" where
  "show_int k = (if k < 0 then CHR ''-'' # show_nat (nat (- k)) else show_nat (nat k))"

definition fsm_trace_line :: "fsm_trace_record \<Rightarrow> string" where
  "fsm_trace_line r = show_nat (unat (tr_timestamp_us r)) @ '' '' @ show_nat (unat (tr_instance_id r)) @ '' ''
     @ fsm_trace_kind_name (tr_kind r) @ '' '' @ show_int (sint (tr_code r)) @ '' '' @ tr_detail r @ [CHR 0x0A]"

text \<open>The result is the return value and the text in the buffer, up to its NUL.\<close>

fun fsm_render_loop :: "nat \<Rightarrow> string list \<Rightarrow> nat \<Rightarrow> string \<Rightarrow> nat \<times> string" where
  "fsm_render_loop sz [] written out = (written, out)"
| "fsm_render_loop sz (l # ls) written out =
     (if written + 1 \<ge> sz then (written, out)
      else fsm_render_loop sz ls (written + length l) (out @ take (sz - written - 1) l))"

definition engine_trace_render :: "'c fsm_engine option \<Rightarrow> nat \<Rightarrow> nat \<times> string" where
  "engine_trace_render eng sz = (case eng of None \<Rightarrow> (0, [])
     | Some e \<Rightarrow> if sz = 0 \<or> en_trace e = [] then (0, [])
         else fsm_render_loop sz
           (List.map (\<lambda>k. fsm_trace_line (en_trace e ! fsm_trace_index_at e k)) [0..<unat (en_trace_count e)]) 0 [])"

end
