(* ===== verification/Fsm_Engine.thy ===== *)
theory Fsm_Engine
  imports Fsm_Engine_Types
begin

text \<open>
  core/fsm/src/engine.c: name resolution, guards, transition selection, the actions and the execution
  of transitions. An activation carries the engine and the instance it works on, as in C; while an
  activation runs, the instance's entry in the engine's array is out of date and nothing reads it. A
  queue push may never return (the hard-fault escalation spins when its hooks are missing): a function
  that pushes gives an option, \<open>None\<close> when it does not return. The union of an event's payload is the
  member of its type; another member reads as zero.
\<close>

subsection \<open>Reference resolution\<close>

definition fsm_capability_interface :: "'c fsm_engine \<Rightarrow> string \<Rightarrow> interface_capability option" where
  "fsm_capability_interface e name = (case en_capabilities e of None \<Rightarrow> None
     | Some c \<Rightarrow> find (\<lambda>x. ica_name x = name) (cp_interfaces c))"

text \<open>The last argument of the code, \<open>canonical_out\<close>, is NULL in every call.\<close>

definition fsm_resolve_interface :: "'c fsm_engine \<Rightarrow> fsm_instance \<Rightarrow> string \<Rightarrow> interface_capability option" where
  "fsm_resolve_interface e i name = (case fsm_capability_interface e name of
       Some c \<Rightarrow> Some c
     | None \<Rightarrow> (case find (\<lambda>b. fst b = name) (fd_bindings (in_def i)) of
         Some b \<Rightarrow> fsm_capability_interface e (snd b)
       | None \<Rightarrow> (case find (\<lambda>b. fst b = name) (en_bindings e) of
           Some b \<Rightarrow> fsm_capability_interface e (snd b)
         | None \<Rightarrow> None)))"

definition fsm_message_matches :: "string \<Rightarrow> codec_map \<Rightarrow> codec_message \<Rightarrow> bool" where
  "fsm_message_matches name mp msg = (case find_dot name of
       Some dot \<Rightarrow> cmap_name mp = take dot name \<and> cm_name msg = drop (dot + 1) name
     | None \<Rightarrow> cm_name msg = name)"

text \<open>The scan stops at the second match.\<close>

definition fsm_resolve_message :: "'c fsm_engine \<Rightarrow> string option \<Rightarrow> fsm_status \<times> (codec_map \<times> codec_message) option" where
  "fsm_resolve_message e name = (case name of None \<Rightarrow> (FSM_ERR_NULL, None)
     | Some nm \<Rightarrow>
         if \<not> namespace_is_valid (en_namespace e) then (FSM_ERR_NOT_FOUND, None)
         else (case concat (List.map (\<lambda>mp. List.map (Pair mp) (List.filter (fsm_message_matches nm mp) (cmap_messages mp)))
                 (ns_maps (the (en_namespace e)))) of
             [] \<Rightarrow> (FSM_ERR_NOT_FOUND, None)
           | [found] \<Rightarrow> (FSM_OK, Some found)
           | _ \<Rightarrow> (FSM_ERR_AMBIGUOUS, None)))"

fun fsm_first_index :: "('a \<Rightarrow> bool) \<Rightarrow> 'a list \<Rightarrow> nat option" where
  "fsm_first_index P [] = None"
| "fsm_first_index P (x # xs) = (if P x then Some 0 else map_option Suc (fsm_first_index P xs))"

text \<open>\<open>None\<close> is the result -1.\<close>

definition fsm_variable_index :: "fsm_instance \<Rightarrow> string \<Rightarrow> nat option" where
  "fsm_variable_index i name =
     fsm_first_index (\<lambda>s. vs_name s = name) (take (in_variable_count i) (in_variables i))"

definition fsm_timer_index :: "fsm_instance \<Rightarrow> string option \<Rightarrow> nat option" where
  "fsm_timer_index i name =
     fsm_first_index (\<lambda>s. Some (ts_name s) = name) (take (in_timer_count i) (in_timers i))"

definition fsm_current_state :: "fsm_instance \<Rightarrow> fsm_state option" where
  "fsm_current_state i = (if \<not> in_has_state i then None else Some (fm_states (in_machine i) ! in_state_index i))"

subsection \<open>Expression evaluation\<close>

definition fsm_eval_read_signal :: "'c fsm_engine \<Rightarrow> string \<Rightarrow> fsm_status \<times> signal_value" where
  "fsm_eval_read_signal e name =
     (if \<not> fsm_in_name_list (case en_capabilities e of None \<Rightarrow> [] | Some c \<Rightarrow> cp_signal_read c) (Some name)
      then (FSM_ERR_DENIED, Value_unset)
      else case en_signal_bus e of None \<Rightarrow> (FSM_ERR_NOT_FOUND, Value_unset)
      | Some bus \<Rightarrow> (case bus_read bus of None \<Rightarrow> (FSM_ERR_NOT_FOUND, Value_unset)
        | Some f \<Rightarrow> (case f (en_effects e) name of (st, v) \<Rightarrow>
            if st \<noteq> FSM_OK then (FSM_ERR_NOT_FOUND, v) else (FSM_OK, fsm_value_normalize v))))"

definition fsm_eval_read_variable :: "fsm_instance \<Rightarrow> string \<Rightarrow> fsm_status \<times> signal_value" where
  "fsm_eval_read_variable i name = (case fsm_variable_index i name of
       None \<Rightarrow> (FSM_ERR_NOT_FOUND, Value_unset)
     | Some k \<Rightarrow> if \<not> vs_initialized (in_variables i ! k) then (FSM_ERR_NOT_FOUND, Value_unset)
         else (FSM_OK, vs_value (in_variables i ! k)))"

definition fsm_expression_context :: "'c fsm_engine \<Rightarrow> fsm_instance \<Rightarrow> event option \<Rightarrow> expr_context" where
  "fsm_expression_context e i ev = \<lparr>xc_read_signal = Some (fsm_eval_read_signal e),
     xc_read_variable = Some (fsm_eval_read_variable i), xc_event = ev\<rparr>"

subsection \<open>Activations\<close>

record 'c fsm_activation =
  ac_engine :: "'c fsm_engine"
  ac_instance :: fsm_instance
  ac_event :: "event option"
  ac_action_budget :: u16
  ac_suspend_requested :: bool
  ac_expression_error :: expr_error

definition count_in :: "((u32 \<Rightarrow> u32) \<Rightarrow> fsm_instance_counters \<Rightarrow> fsm_instance_counters) \<Rightarrow> fsm_instance \<Rightarrow> fsm_instance" where
  "count_in field i = i\<lparr>in_counters := field (\<lambda>n. n + 1) (in_counters i)\<rparr>"

definition act_count :: "((u32 \<Rightarrow> u32) \<Rightarrow> fsm_instance_counters \<Rightarrow> fsm_instance_counters) \<Rightarrow>
    'c fsm_activation \<Rightarrow> 'c fsm_activation" where
  "act_count field a = a\<lparr>ac_instance := count_in field (ac_instance a)\<rparr>"

definition act_trace :: "fsm_trace_kind \<Rightarrow> 32 word \<Rightarrow> string \<Rightarrow> 'c fsm_activation \<Rightarrow> 'c fsm_activation" where
  "act_trace kind code detail a = a\<lparr>ac_engine := fsm_trace (ac_engine a) (ac_instance a) kind code detail\<rparr>"

definition act_effect :: "fsm_effect \<Rightarrow> 'c fsm_activation \<Rightarrow> 'c fsm_activation" where
  "act_effect x a = a\<lparr>ac_engine := (ac_engine a)\<lparr>en_effects := en_effects (ac_engine a) @ [x]\<rparr>\<rparr>"

text \<open>Whether a sink callback is there.\<close>

definition has_sink :: "(fsm_sink \<Rightarrow> bool) \<Rightarrow> 'c fsm_engine \<Rightarrow> bool" where
  "has_sink callback e \<longleftrightarrow> (case en_sink e of None \<Rightarrow> False | Some s \<Rightarrow> callback s)"

definition fsm_activation_timestamp :: "'c fsm_activation \<Rightarrow> time_us" where
  "fsm_activation_timestamp a = (case ac_event a of Some ev \<Rightarrow> ev_timestamp_us ev | None \<Rightarrow> en_now_us (ac_engine a))"

definition fsm_activation_cause :: "'c fsm_activation \<Rightarrow> sequence" where
  "fsm_activation_cause a = (case ac_event a of Some ev \<Rightarrow> ev_sequence ev | None \<Rightarrow> SEQUENCE_NONE)"

definition fsm_invocation_fill :: "'c fsm_activation \<Rightarrow> fsm_action option \<Rightarrow> fsm_transition option \<Rightarrow>
    string option \<Rightarrow> u16 \<Rightarrow> fsm_invocation" where
  "fsm_invocation_fill a action transition state depth = \<lparr>iv_instance_id = in_id (ac_instance a),
     iv_event = ac_event a, iv_action = action, iv_state = state, iv_transition = transition,
     iv_chain_depth = depth\<rparr>"

definition fsm_next_event_id :: "'c fsm_engine \<Rightarrow> event_id \<times> 'c fsm_engine" where
  "fsm_next_event_id e =
     (let id = ec_next_event_id (en_counters e)
      in (id, e\<lparr>en_counters := (en_counters e)\<lparr>ec_next_event_id := (if id + 1 = EVENT_ID_NONE then 1 else id + 1)\<rparr>\<rparr>))"

definition fsm_warn :: "string \<Rightarrow> 'c fsm_activation \<Rightarrow> 'c fsm_activation" where
  "fsm_warn tx a =
     (let a1 = act_trace TRACE_WARNING 0 tx a
      in if has_sink sk_warning (ac_engine a1)
         then act_effect (Effect_warning (fsm_invocation_fill a1 None None None 0) tx) a1 else a1)"

subsection \<open>Event delivery\<close>

text \<open>A push into a queue, with the hook calls of an escalation added to the history.\<close>

definition fsm_push :: "fsm_effect list \<Rightarrow> event_queue \<Rightarrow> event \<Rightarrow> (event_queue_status \<times> event_queue \<times> fsm_effect list) option" where
  "fsm_push history q ev = (case queue_push q ev of
       (None, q', calls) \<Rightarrow> None
     | (Some st, q', calls) \<Rightarrow> Some (st, q', history @ List.map Effect_hook calls))"

definition fsm_queue_event :: "event \<Rightarrow> 'c fsm_activation \<Rightarrow> 'c fsm_activation option" where
  "fsm_queue_event ev a = do {
     (st, q, effects) \<leftarrow> fsm_push (en_effects (ac_engine a)) (in_incoming (ac_instance a)) ev;
     let a1 = a\<lparr>ac_engine := (ac_engine a)\<lparr>en_effects := effects\<rparr>,
                ac_instance := (ac_instance a)\<lparr>in_incoming := q\<rparr>\<rparr>;
     Some (act_count (if event_queue_status_is_ok st then ic_events_queued_update else ic_events_dropped_update) a1) }"

text \<open>The global queue, if there is a valid one.\<close>

definition fsm_publish_global :: "event \<Rightarrow> 'c fsm_engine \<Rightarrow> 'c fsm_engine option" where
  "fsm_publish_global ev e = (case en_global_queue e of None \<Rightarrow> Some e
     | Some g \<Rightarrow>
         if \<not> event_queue_is_valid (Some g) then Some e
         else do {
           (st, q, effects) \<leftarrow> fsm_push (en_effects e) g ev;
           let e1 = e\<lparr>en_global_queue := Some q, en_effects := effects\<rparr>;
           Some (if event_queue_status_is_ok st then e1
             else e1\<lparr>en_counters := (en_counters e1)\<lparr>ec_global_queue_drops := ec_global_queue_drops (en_counters e1) + 1\<rparr>\<rparr>) })"

definition fsm_publish :: "event \<Rightarrow> 'c fsm_activation \<Rightarrow> 'c fsm_activation option" where
  "fsm_publish ev a = map_option (\<lambda>e. a\<lparr>ac_engine := e\<rparr>) (fsm_publish_global ev (ac_engine a))"

definition fsm_stamped_event :: "event_id \<Rightarrow> event_type \<Rightarrow> priority_class \<Rightarrow> time_us \<Rightarrow> sequence \<Rightarrow> event_payload \<Rightarrow> event" where
  "fsm_stamped_event eid ty prio ts cause payload = zero_event\<lparr>ev_event_id := eid, ev_type := ty,
     ev_priority_class := prio, ev_timestamp_us := ts, ev_cause_sequence := cause, ev_payload := payload\<rparr>"

definition fsm_emit_generated :: "event_type \<Rightarrow> event_payload \<Rightarrow> bool \<Rightarrow> 'c fsm_activation \<Rightarrow> 'c fsm_activation option" where
  "fsm_emit_generated ty payload self_subscribe a = do {
     let (eid, e) = fsm_next_event_id (ac_engine a);
     let a1 = a\<lparr>ac_engine := e\<rparr>;
     let ev = fsm_stamped_event eid ty
       (if ty = EVENT_TYPE_FAULT_RAISED then PRIORITY_CLASS_FAULT else PRIORITY_CLASS_GENERATED)
       (fsm_activation_timestamp a1) (fsm_activation_cause a1) payload;
     a2 \<leftarrow> fsm_publish ev a1;
     if self_subscribe then fsm_queue_event ev a2 else Some a2 }"

definition fsm_subscribes_signal :: "fsm_instance \<Rightarrow> string \<Rightarrow> bool" where
  "fsm_subscribes_signal i name = (case sb_signals (fd_subscriptions (in_def i)) of None \<Rightarrow> False
     | Some names \<Rightarrow> list_ex (\<lambda>x. x = name) names)"

definition fsm_emit_state_event :: "event_type \<Rightarrow> nat \<Rightarrow> 'c fsm_activation \<Rightarrow> 'c fsm_activation option" where
  "fsm_emit_state_event ty state_index a = do {
     let (eid, e) = fsm_next_event_id (ac_engine a);
     let a1 = a\<lparr>ac_engine := e\<rparr>;
     let ev = fsm_stamped_event eid ty PRIORITY_CLASS_GENERATED (fsm_activation_timestamp a1) (fsm_activation_cause a1)
       (Payload_state \<lparr>st_instance_id = in_id (ac_instance a), st_state_id = of_nat state_index + 1,
          st_state_name = Some (fs_name (fm_states (in_machine (ac_instance a)) ! state_index))\<rparr>);
     a2 \<leftarrow> fsm_publish ev a1;
     fsm_queue_event ev a2 }"


subsection \<open>Timers\<close>

definition fsm_timer_arm :: "time_us \<Rightarrow> u32 \<Rightarrow> bool \<Rightarrow> fsm_timer_state \<Rightarrow> fsm_timer_state" where
  "fsm_timer_arm now duration_ms repeat slot = slot\<lparr>ts_duration_ms := duration_ms, ts_repeat := repeat,
     ts_deadline_us := fsm_sat_add now (fsm_us duration_ms), ts_running := True\<rparr>"

text \<open>\<open>None\<close> is the result false, otherwise the number of missed periods and the slot after the expiry.\<close>

definition fsm_timer_advance :: "fsm_timer_state \<Rightarrow> time_us \<Rightarrow> (u32 \<times> fsm_timer_state) option" where
  "fsm_timer_advance slot now =
     (let d0 = fsm_us (ts_duration_ms slot)
      in if \<not> ts_running slot \<or> now < ts_deadline_us slot then None
         else
           let d = (if d0 = 0 then 1000 else d0);
               periods = (if ts_repeat slot then 1 + ucast ((now - ts_deadline_us slot) div d) else 1) :: u32;
               missed = (if ts_repeat slot then periods - 1 else 0);
               s1 = (if ts_repeat slot then slot\<lparr>ts_deadline_us := fsm_sat_add (ts_deadline_us slot) (d * ucast periods)\<rparr>
                     else slot\<lparr>ts_running := False\<rparr>)
           in Some (missed, s1\<lparr>ts_expires := ts_expires s1 + 1, ts_missed_ticks := ts_missed_ticks s1 + missed\<rparr>))"

definition fsm_timer_expired :: "fsm_instance \<Rightarrow> nat \<Rightarrow> time_us \<Rightarrow> (u32 \<times> fsm_instance) option" where
  "fsm_timer_expired i k now = (case fsm_timer_advance (in_timers i ! k) now of
       None \<Rightarrow> None
     | Some (missed, slot) \<Rightarrow> Some (missed,
         i\<lparr>in_timers := (in_timers i)[k := slot],
           in_counters := (in_counters i)\<lparr>ic_timer_expiries := ic_timer_expiries (in_counters i) + 1,
             ic_timer_missed_ticks := ic_timer_missed_ticks (in_counters i) + missed\<rparr>\<rparr>))"

subsection \<open>Guards and transition selection\<close>

definition fsm_evaluate_guard :: "string option \<Rightarrow> 'c fsm_activation \<Rightarrow> (fsm_status \<times> bool \<times> 'c fsm_activation) option" where
  "fsm_evaluate_guard guard a = (case guard of
       None \<Rightarrow> Some (FSM_OK, True, a\<lparr>ac_expression_error := EXPR_OK\<rparr>)
     | Some g \<Rightarrow>
         let a1 = act_count ic_guards_evaluated_update (a\<lparr>ac_expression_error := EXPR_OK\<rparr>);
             fault = (\<lambda>err.
               let a2 = (act_count ic_guard_errors_update a1)\<lparr>ac_suspend_requested := True\<rparr>;
                   a3 = (if err = EXPR_ERR_UNAUTHORIZED then act_count ic_capability_denials_update a2 else a2)
               in Some (FSM_ERR_EXPRESSION, False,
                    act_trace TRACE_GUARD_ERROR (word_of_int (expr_error_code err)) (g @ '': '' @ expr_error_name err) a3))
         in case expression_evaluate (Some g) (Some (fsm_expression_context (ac_engine a1) (ac_instance a1) (ac_event a1))) of
              None \<Rightarrow> None
            | Some (Inl err) \<Rightarrow> fault err
            | Some (Inr v) \<Rightarrow> (case v of
                Value_bool True \<Rightarrow> Some (FSM_OK, True, act_trace TRACE_GUARD_TRUE 0 g (act_count ic_guards_true_update a1))
              | Value_bool False \<Rightarrow> Some (FSM_OK, False, act_trace TRACE_GUARD_FALSE 0 g (act_count ic_guards_false_update a1))
              | _ \<Rightarrow> fault EXPR_OK))"

fun payload_can_rx :: "event_payload \<Rightarrow> interface_id \<times> u32" where
  "payload_can_rx (Payload_can_rx p) = (rx_interface_id p, rx_can_id p)"
| "payload_can_rx _ = (0, 0)"

fun payload_signal_name :: "event_payload \<Rightarrow> string option" where
  "payload_signal_name (Payload_signal_changed p) = sc_signal_name p"
| "payload_signal_name _ = None"

fun payload_timer :: "event_payload \<Rightarrow> u32 \<times> u32" where
  "payload_timer (Payload_timer_expired p) = (te_timer_id p, te_instance_id p)"
| "payload_timer _ = (0, 0)"

fun payload_state_instance :: "event_payload \<Rightarrow> u32" where
  "payload_state_instance (Payload_state p) = st_instance_id p"
| "payload_state_instance _ = 0"

text \<open>The two optional filters of a can_rx selector and of a can_rx subscription.\<close>

definition fsm_interface_is :: "'c fsm_engine \<Rightarrow> fsm_instance \<Rightarrow> string \<Rightarrow> event \<Rightarrow> bool" where
  "fsm_interface_is e i name ev = (case fsm_resolve_interface e i name of None \<Rightarrow> False
     | Some c \<Rightarrow> ica_id c = fst (payload_can_rx (ev_payload ev)))"

definition fsm_message_is :: "'c fsm_engine \<Rightarrow> string \<Rightarrow> event \<Rightarrow> bool" where
  "fsm_message_is e name ev = (case fsm_resolve_message e (Some name) of
       (FSM_OK, Some (_, msg)) \<Rightarrow> cm_id msg = snd (payload_can_rx (ev_payload ev))
     | _ \<Rightarrow> False)"

definition fsm_match_can_rx :: "'c fsm_engine \<Rightarrow> fsm_instance \<Rightarrow> fsm_transition \<Rightarrow> event \<Rightarrow> bool" where
  "fsm_match_can_rx e i t ev \<longleftrightarrow>
     (case ft_interface t of None \<Rightarrow> True | Some n \<Rightarrow> fsm_interface_is e i n ev) \<and>
     (case ft_message t of None \<Rightarrow> True | Some n \<Rightarrow> fsm_message_is e n ev)"

definition fsm_transition_matches :: "'c fsm_engine \<Rightarrow> fsm_instance \<Rightarrow> fsm_transition \<Rightarrow> event \<Rightarrow> bool" where
  "fsm_transition_matches e i t ev \<longleftrightarrow>
     (if ft_event t \<noteq> ev_type ev then False
      else case ev_type ev of
        EVENT_TYPE_CAN_RX \<Rightarrow> fsm_match_can_rx e i t ev
      | EVENT_TYPE_SIGNAL_CHANGED \<Rightarrow> ft_signal t \<noteq> None \<and> ft_signal t = payload_signal_name (ev_payload ev)
      | EVENT_TYPE_TIMER_EXPIRED \<Rightarrow> (case fsm_timer_index i (ft_timer t) of
            None \<Rightarrow> False
          | Some k \<Rightarrow> payload_timer (ev_payload ev) = (of_nat k + 1, in_id i))
      | EVENT_TYPE_STATE_ENTERED \<Rightarrow> payload_state_instance (ev_payload ev) = in_id i
      | EVENT_TYPE_STATE_EXITED \<Rightarrow> payload_state_instance (ev_payload ev) = in_id i
      | EVENT_TYPE_FAULT_RAISED \<Rightarrow> True
      | EVENT_TYPE_POWER_MODE_CHANGED \<Rightarrow> True
      | _ \<Rightarrow> False)"

fun fsm_select_from :: "fsm_transition list \<Rightarrow> event \<Rightarrow> 'c fsm_activation \<Rightarrow> (fsm_transition option \<times> 'c fsm_activation) option" where
  "fsm_select_from [] ev a = Some (None, a)"
| "fsm_select_from (t # ts) ev a =
     (if \<not> fsm_transition_matches (ac_engine a) (ac_instance a) t ev then fsm_select_from ts ev a
      else case fsm_evaluate_guard (ft_guard t) a of
        None \<Rightarrow> None
      | Some (st, holds, a1) \<Rightarrow>
          if st \<noteq> FSM_OK then Some (None, a1)
          else if holds then Some (Some t, a1)
          else fsm_select_from ts ev a1)"

definition fsm_select_transition :: "event \<Rightarrow> 'c fsm_activation \<Rightarrow> (fsm_transition option \<times> 'c fsm_activation) option" where
  "fsm_select_transition ev a = (case fsm_current_state (ac_instance a) of
       None \<Rightarrow> Some (None, a)
     | Some s \<Rightarrow> fsm_select_from (fs_transitions s) ev a)"

subsection \<open>Operands\<close>

definition fsm_evaluate_operand :: "fsm_operand \<Rightarrow> 'c fsm_activation \<Rightarrow> (fsm_status \<times> signal_value \<times> 'c fsm_activation) option" where
  "fsm_evaluate_operand operand a = (case operand of
       Operand_literal v \<Rightarrow> Some (FSM_OK, fsm_value_normalize v, a)
     | Operand_expression x \<Rightarrow>
         let a1 = a\<lparr>ac_expression_error := EXPR_OK\<rparr>
         in case expression_evaluate (Some x) (Some (fsm_expression_context (ac_engine a1) (ac_instance a1) (ac_event a1))) of
              None \<Rightarrow> None
            | Some (Inr v) \<Rightarrow> Some (FSM_OK, v, a1)
            | Some (Inl err) \<Rightarrow>
                let a2 = a1\<lparr>ac_expression_error := err\<rparr>;
                    a3 = (if err = EXPR_ERR_UNAUTHORIZED then act_count ic_capability_denials_update a2 else a2)
                in Some (FSM_ERR_EXPRESSION, Value_unset, a3\<lparr>ac_suspend_requested := True\<rparr>))"

text \<open>\<open>None\<close> is \<open>ERR_ARGUMENT\<close>.\<close>

fun fsm_coerce_to_declared :: "value_kind \<Rightarrow> signal_value \<Rightarrow> signal_value option" where
  "fsm_coerce_to_declared KIND_BOOL (Value_bool b) = Some (Value_bool b)"
| "fsm_coerce_to_declared KIND_INT (Value_int i) = Some (Value_int i)"
| "fsm_coerce_to_declared KIND_INT (Value_real x) = map_option Value_int (fsm_round_half_away x)"
| "fsm_coerce_to_declared KIND_REAL (Value_int i) = Some (Value_real (fp_of_int (sint i)))"
| "fsm_coerce_to_declared KIND_REAL (Value_real x) = Some (Value_real x)"
| "fsm_coerce_to_declared _ _ = None"

definition fsm_value_equals :: "signal_value \<Rightarrow> signal_value \<Rightarrow> bool" where
  "fsm_value_equals x y = (case (fsm_value_normalize x, fsm_value_normalize y) of
       (Value_bool l, Value_bool r) \<Rightarrow> l = r
     | (Value_int l, Value_int r) \<Rightarrow> l = r
     | (Value_uint l, Value_uint r) \<Rightarrow> l = r
     | (Value_real l, Value_real r) \<Rightarrow> fp_eq l r
     | _ \<Rightarrow> False)"


subsection \<open>Actions\<close>

text \<open>The value to encode for a signal; \<open>None\<close> is \<open>ERR_ENCODING\<close>. An unset value has a zero union.\<close>

definition fsm_encoding_value :: "codec_signal \<Rightarrow> signal_value \<Rightarrow> signal_value option" where
  "fsm_encoding_value sg v =
     (if \<not> cs_unscaled sg then
        (case v of
           Value_bool _ \<Rightarrow> None
         | Value_real x \<Rightarrow> Some (Value_real x)
         | Value_int i \<Rightarrow> Some (Value_real (fp_of_int (sint i)))
         | Value_uint u \<Rightarrow> Some (Value_real (fp_of_int (sint u)))
         | Value_unset \<Rightarrow> Some (Value_real (fp_of_int 0)))
      else case cs_type sg of
        SIGNAL_TYPE_BOOLEAN \<Rightarrow> (case v of Value_bool _ \<Rightarrow> Some v | _ \<Rightarrow> None)
      | SIGNAL_TYPE_INT \<Rightarrow> (case v of
            Value_real x \<Rightarrow> map_option Value_int (fsm_round_half_away x)
          | Value_int _ \<Rightarrow> Some v
          | _ \<Rightarrow> None)
      | _ \<Rightarrow>
          let integral = (case v of
              Value_int i \<Rightarrow> Some i
            | Value_real x \<Rightarrow> fsm_round_half_away x
            | Value_bool b \<Rightarrow> Some (if b then 1 else 0)
            | _ \<Rightarrow> None)
          in case integral of None \<Rightarrow> None | Some i \<Rightarrow> if i <s 0 then None else Some (Value_uint i))"

text \<open>The signals of a message into the frame, with the span of bytes used.\<close>

fun fsm_encode_values :: "codec_map \<Rightarrow> (string \<times> fsm_operand) list \<Rightarrow> u8 list \<Rightarrow> nat \<Rightarrow> 'c fsm_activation \<Rightarrow>
    (fsm_status \<times> u8 list \<times> nat \<times> 'c fsm_activation) option" where
  "fsm_encode_values mp [] frame span a = Some (FSM_OK, frame, span, a)"
| "fsm_encode_values mp ((name, operand) # specs) frame span a = (case map_find_signal mp name of
       None \<Rightarrow> Some (FSM_ERR_NOT_FOUND, frame, span, a)
     | Some (j, k) \<Rightarrow>
         let sg = cm_signals (cmap_messages mp ! j) ! k
         in case fsm_evaluate_operand operand a of
              None \<Rightarrow> None
            | Some (st, v, a1) \<Rightarrow>
                if st \<noteq> FSM_OK then Some (st, frame, span, a1)
                else (case fsm_encoding_value sg v of
                    None \<Rightarrow> Some (FSM_ERR_ENCODING, frame, span, a1)
                  | Some enc \<Rightarrow> (case codec_encode_signal (Some sg) (Some enc) (Some frame) None of
                      (cst, frame', _) \<Rightarrow>
                        if codec_status_value cst < 0 then Some (FSM_ERR_ENCODING, the frame', span, a1)
                        else fsm_encode_values mp specs (the frame') (max span (unat (cs_last_bit sg) div 8 + 1)) a1)))"

text \<open>The single approval point: a missing governor denies without a call.\<close>

definition fsm_governor_approves :: "fsm_governor_request \<Rightarrow> 'c fsm_activation \<Rightarrow> bool \<times> 'c fsm_activation" where
  "fsm_governor_approves request a = (case en_governor (ac_engine a) of
       None \<Rightarrow> (False, act_count ic_governor_denials_update a)
     | Some g \<Rightarrow>
         let d = g (en_effects (ac_engine a)) request; a1 = act_effect (Effect_governor request d) a
         in if d \<noteq> FSM_GOVERNOR_APPROVE then (False, act_count ic_governor_denials_update a1) else (True, a1))"

definition fsm_request :: "fsm_governor_request_kind \<Rightarrow> 'c fsm_activation \<Rightarrow> fsm_governor_request" where
  "fsm_request kind a = \<lparr>gq_kind = kind, gq_instance_id = in_id (ac_instance a), gq_cause = ac_event a,
     gq_interface_name = None, gq_interface_id = 0, gq_message_name = None, gq_can_id = 0, gq_frame = [],
     gq_frame_length = 0, gq_signal_name = None, gq_signal_id = 0, gq_value = None\<rparr>"

definition fsm_deny :: "'c fsm_activation \<Rightarrow> fsm_status \<times> 'c fsm_activation" where
  "fsm_deny a = (FSM_ERR_DENIED, act_count ic_capability_denials_update a)"

text \<open>The end of the action: approval and delivery of the encoded frame.\<close>

definition fsm_deliver_message :: "interface_capability \<Rightarrow> string \<Rightarrow> codec_message \<Rightarrow> u8 list \<Rightarrow> fsm_invocation \<Rightarrow>
    'c fsm_activation \<Rightarrow> fsm_status \<times> 'c fsm_activation" where
  "fsm_deliver_message cap name msg frame invo a =
     (case fsm_governor_approves ((fsm_request FSM_GOVERNOR_SEND_MESSAGE a)\<lparr>gq_interface_name := Some (ica_name cap),
         gq_interface_id := ica_id cap, gq_message_name := Some name, gq_can_id := cm_id msg, gq_frame := frame,
         gq_frame_length := cm_dlc msg\<rparr>) a of
        (approved, a1) \<Rightarrow>
          if \<not> approved then (FSM_ERR_DENIED, a1)
          else if \<not> has_sink sk_send_message (ac_engine a1) then (FSM_ERR_UNSUPPORTED, a1)
          else (FSM_OK, act_count ic_messages_sent_update
            (act_effect (Effect_send_message invo (ica_name cap) (ica_id cap) name (cm_id msg) frame (cm_dlc msg)) a1)))"

definition fsm_action_send_message :: "string \<Rightarrow> string \<Rightarrow> (string \<times> fsm_operand) list \<Rightarrow> fsm_invocation \<Rightarrow>
    'c fsm_activation \<Rightarrow> (fsm_status \<times> 'c fsm_activation) option" where
  "fsm_action_send_message iface name specs invo a =
     (if en_capabilities (ac_engine a) = None then Some (fsm_deny a)
      else case fsm_resolve_interface (ac_engine a) (ac_instance a) iface of
        None \<Rightarrow> Some (fsm_deny a)
      | Some cap \<Rightarrow>
          if \<not> ica_tx cap then Some (fsm_deny a)
          else (case fsm_resolve_message (ac_engine a) (Some name) of
            (st, found) \<Rightarrow>
              if st \<noteq> FSM_OK then Some (st, a)
              else
                let mp = fst (the found); msg = snd (the found)
                in if unat (cm_dlc msg) > CAN_FRAME_MAX_LENGTH then Some (FSM_ERR_UNSUPPORTED, a)
                   else if \<not> fsm_in_id_list (ica_tx_ids cap) (cm_id msg) then Some (fsm_deny a)
                   else (case fsm_encode_values mp specs (replicate CAN_FRAME_MAX_LENGTH 0) 0 a of
                     None \<Rightarrow> None
                   | Some (st, frame, span, a1) \<Rightarrow>
                       if st \<noteq> FSM_OK then Some (st, a1)
                       else if span > unat (cm_dlc msg) then Some (FSM_ERR_ENCODING, a1)
                       else Some (fsm_deliver_message cap name msg frame invo a1))))"

text \<open>After the approved write: the sink is told, and a change of value is an event.\<close>

definition fsm_signal_written :: "string \<Rightarrow> u32 \<Rightarrow> bool \<Rightarrow> signal_value \<Rightarrow> signal_value \<Rightarrow> fsm_invocation \<Rightarrow>
    'c fsm_activation \<Rightarrow> (fsm_status \<times> 'c fsm_activation) option" where
  "fsm_signal_written name signal_id had_old old v invo a =
     (let a1 = act_count ic_signals_set_update a;
          a2 = (if has_sink sk_signal_write (ac_engine a1)
                then act_effect (Effect_signal_write invo name signal_id (if had_old then old else Value_unset) v) a1 else a1)
      in if \<not> had_old \<or> \<not> fsm_value_equals old v
         then map_option (Pair FSM_OK) (fsm_emit_generated EVENT_TYPE_SIGNAL_CHANGED
           (Payload_signal_changed \<lparr>sc_signal_id = signal_id, sc_signal_name = Some name,
              sc_old_value = (if had_old then old else Value_unset), sc_new_value = v\<rparr>)
           (fsm_subscribes_signal (ac_instance a2) name) a2)
         else Some (FSM_OK, a2))"

definition fsm_action_set_signal :: "string \<Rightarrow> fsm_operand \<Rightarrow> fsm_invocation \<Rightarrow> 'c fsm_activation \<Rightarrow>
    (fsm_status \<times> 'c fsm_activation) option" where
  "fsm_action_set_signal name operand invo a =
     (if \<not> fsm_in_name_list (case en_capabilities (ac_engine a) of None \<Rightarrow> [] | Some c \<Rightarrow> cp_signal_write c) (Some name)
      then Some (fsm_deny a)
      else case fsm_evaluate_operand operand a of
        None \<Rightarrow> None
      | Some (st, v, a1) \<Rightarrow>
          if st \<noteq> FSM_OK then Some (st, a1)
          else (case en_signal_bus (ac_engine a1) of
            None \<Rightarrow> Some (FSM_ERR_UNSUPPORTED, a1)
          | Some bus \<Rightarrow> (case bus_write bus of
              None \<Rightarrow> Some (FSM_ERR_UNSUPPORTED, a1)
            | Some write \<Rightarrow>
                let old = (case bus_read bus of None \<Rightarrow> None
                    | Some f \<Rightarrow> (case f (en_effects (ac_engine a1)) name of (rst, w) \<Rightarrow>
                        if rst = FSM_OK then Some (fsm_value_normalize w) else None));
                  signal_id = (case bus_resolve bus of None \<Rightarrow> 0 | Some f \<Rightarrow> f (en_effects (ac_engine a1)) name)
                in (case fsm_governor_approves ((fsm_request FSM_GOVERNOR_SET_SIGNAL a1)\<lparr>gq_signal_name := Some name,
                       gq_signal_id := signal_id, gq_value := Some v\<rparr>) a1 of
                    (approved, a2) \<Rightarrow>
                      if \<not> approved then Some (FSM_ERR_DENIED, a2)
                      else
                        let wst = write (en_effects (ac_engine a2)) name v;
                            a3 = act_effect (Effect_bus_write name v wst) a2
                        in if wst \<noteq> FSM_OK then Some (wst, a3)
                           else fsm_signal_written name signal_id (old \<noteq> None)
                             (case old of None \<Rightarrow> Value_unset | Some w \<Rightarrow> w) v invo a3))))"

definition fsm_action_set_variable :: "string \<Rightarrow> fsm_operand \<Rightarrow> 'c fsm_activation \<Rightarrow> (fsm_status \<times> 'c fsm_activation) option" where
  "fsm_action_set_variable name operand a = (case fsm_variable_index (ac_instance a) name of
       None \<Rightarrow> Some (FSM_ERR_NOT_FOUND, a)
     | Some k \<Rightarrow> (case fsm_evaluate_operand operand a of
         None \<Rightarrow> None
       | Some (st, v, a1) \<Rightarrow>
           if st \<noteq> FSM_OK then Some (st, a1)
           else (case fsm_coerce_to_declared (vs_declared (in_variables (ac_instance a1) ! k)) v of
               None \<Rightarrow> Some (FSM_ERR_ARGUMENT, a1)
             | Some stored \<Rightarrow>
                 let i = ac_instance a1; slot = in_variables i ! k
                 in Some (FSM_OK, act_count ic_variables_set_update
                   (a1\<lparr>ac_instance := i\<lparr>in_variables := (in_variables i)[k := slot\<lparr>vs_value := stored, vs_initialized := True\<rparr>]\<rparr>\<rparr>)))))"


text \<open>The timer actions share the lookup and the notification; \<open>change\<close> is what differs.\<close>

definition fsm_timer_change :: "fsm_action \<Rightarrow> time_us \<Rightarrow> fsm_timer_def \<Rightarrow> fsm_timer_state \<Rightarrow> fsm_timer_state" where
  "fsm_timer_change action now def slot = (case action of
       Action_start_timer _ duration rep \<Rightarrow>
         fsm_timer_arm now (case duration of Some d \<Rightarrow> d | None \<Rightarrow> td_duration_ms def)
           (case rep of Some r \<Rightarrow> r | None \<Rightarrow> td_repeat def) slot
     | Action_stop_timer _ \<Rightarrow> slot\<lparr>ts_running := False\<rparr>
     | _ \<Rightarrow> slot\<lparr>ts_deadline_us := fsm_sat_add now (fsm_us (ts_duration_ms slot))\<rparr>)"

definition fsm_action_timer :: "string \<Rightarrow> fsm_action \<Rightarrow> fsm_invocation \<Rightarrow> 'c fsm_activation \<Rightarrow> fsm_status \<times> 'c fsm_activation" where
  "fsm_action_timer name action invo a = (case fsm_timer_index (ac_instance a) (Some name) of
       None \<Rightarrow> (FSM_ERR_NOT_FOUND, a)
     | Some k \<Rightarrow>
         let i = ac_instance a;
             slot = fsm_timer_change action (en_now_us (ac_engine a)) (fm_timers (in_machine i) ! k) (in_timers i ! k);
             field = (case action of Action_start_timer _ _ _ \<Rightarrow> ic_timer_starts_update
               | Action_stop_timer _ \<Rightarrow> ic_timer_stops_update | _ \<Rightarrow> ic_timer_resets_update);
             a1 = act_count field (a\<lparr>ac_instance := i\<lparr>in_timers := (in_timers i)[k := slot]\<rparr>\<rparr>)
         in (FSM_OK, if has_sink sk_timer (ac_engine a1)
             then act_effect (Effect_timer invo (fsm_action_kind_code action) name (ts_duration_ms slot) (ts_repeat slot)) a1
             else a1))"

text \<open>\<open>cancestry_fsm_instance_suspend\<close> and \<open>cancestry_fsm_instance_fault\<close> on an engine and an instance
  that are not NULL.\<close>

definition fsm_stop_timers :: "fsm_instance \<Rightarrow> fsm_instance" where
  "fsm_stop_timers i = i\<lparr>in_timers := List.map (\<lambda>s. s\<lparr>ts_running := False\<rparr>) (take (in_timer_count i) (in_timers i))
     @ drop (in_timer_count i) (in_timers i)\<rparr>"

definition fsm_lifecycle_trace :: "'c fsm_engine \<Rightarrow> fsm_instance \<Rightarrow> string \<Rightarrow> 'c fsm_engine" where
  "fsm_lifecycle_trace e i tx = fsm_trace e i TRACE_LIFECYCLE (word_of_int (fsm_lifecycle_code (in_lifecycle i))) tx"

definition fsm_suspend :: "'c fsm_engine \<Rightarrow> fsm_instance \<Rightarrow> fsm_status \<times> 'c fsm_engine \<times> fsm_instance" where
  "fsm_suspend e i =
     (if \<not> en_ready e then (FSM_ERR_NULL, e, i)
      else if in_lifecycle i \<noteq> LIFECYCLE_RUNNING then (FSM_ERR_STATE, e, i)
      else let i1 = i\<lparr>in_lifecycle := LIFECYCLE_SUSPENDED, in_deferred_pending := False\<rparr>
           in (FSM_OK, fsm_lifecycle_trace e i1 ''suspended'', i1))"

definition fsm_fault :: "'c fsm_engine \<Rightarrow> fsm_instance \<Rightarrow> fsm_status \<times> 'c fsm_engine \<times> fsm_instance" where
  "fsm_fault e i =
     (if \<not> en_ready e then (FSM_ERR_NULL, e, i)
      else if in_lifecycle i \<noteq> LIFECYCLE_RUNNING \<and> in_lifecycle i \<noteq> LIFECYCLE_SUSPENDED then (FSM_ERR_STATE, e, i)
      else let i1 = fsm_stop_timers (i\<lparr>in_lifecycle := LIFECYCLE_FAULT, in_deferred_pending := False\<rparr>)
           in (FSM_OK, fsm_lifecycle_trace e i1 ''fault'', i1))"

definition fsm_action_raise_fault :: "string \<Rightarrow> fault_severity \<Rightarrow> fsm_action \<Rightarrow> 'c fsm_activation \<Rightarrow>
    (fsm_status \<times> 'c fsm_activation) option" where
  "fsm_action_raise_fault code severity action a = do {
     let num = fsm_fault_code_hash (Some code);
     let a1 = act_count ic_faults_raised_update a;
     a2 \<leftarrow> fsm_emit_generated EVENT_TYPE_FAULT_RAISED
       (Payload_fault \<lparr>fr_fault_code = num, fr_severity = severity, fr_source_id = in_id (ac_instance a1)\<rparr>)
       (sb_faults (fd_subscriptions (in_def (ac_instance a1))) = Some True) a1;
     let a3 = act_trace TRACE_FAULT num (code @ ''/'' @ fsm_severity_name severity) a2;
     let a4 = (if has_sink sk_fault (ac_engine a3)
       then act_effect (Effect_fault (fsm_invocation_fill a3 (Some action) None None 0) code severity num) a3 else a3);
     Some (FSM_OK, if severity = FAULT_SEVERITY_CRITICAL
       then (case fsm_fault (ac_engine a4) (ac_instance a4) of (_, e, i) \<Rightarrow> a4\<lparr>ac_engine := e, ac_instance := i\<rparr>)
       else a4) }"

definition fsm_action_transition :: "nat \<Rightarrow> 'c fsm_activation \<Rightarrow> fsm_status \<times> 'c fsm_activation" where
  "fsm_action_transition target a =
     (if in_deferred_pending (ac_instance a)
      then (FSM_OK, fsm_warn ''transition action ignored: one is already pending'' (act_count ic_deferred_ignored_update a))
      else (FSM_OK, a\<lparr>ac_instance := (ac_instance a)\<lparr>in_deferred_pending := True, in_deferred_target := target\<rparr>\<rparr>))"

definition fsm_action_log :: "fsm_log_level \<Rightarrow> string \<Rightarrow> fsm_invocation \<Rightarrow> 'c fsm_activation \<Rightarrow> fsm_status \<times> 'c fsm_activation" where
  "fsm_action_log level message invo a =
     (let a1 = act_trace TRACE_ACTION (word_of_int (fsm_log_level_code level))
            (''log/'' @ fsm_log_level_name level @ '': '' @ message) (act_count ic_logs_emitted_update a)
      in (FSM_OK, if has_sink sk_log (ac_engine a1) then act_effect (Effect_log invo level message) a1 else a1))"

fun fsm_perform :: "fsm_action \<Rightarrow> fsm_invocation \<Rightarrow> 'c fsm_activation \<Rightarrow> (fsm_status \<times> 'c fsm_activation) option" where
  "fsm_perform (Action_send_message iface name specs) invo a = fsm_action_send_message iface name specs invo a"
| "fsm_perform (Action_set_signal name operand) invo a = fsm_action_set_signal name operand invo a"
| "fsm_perform (Action_set_variable name operand) invo a = fsm_action_set_variable name operand a"
| "fsm_perform (Action_start_timer name d r) invo a = Some (fsm_action_timer name (Action_start_timer name d r) invo a)"
| "fsm_perform (Action_stop_timer name) invo a = Some (fsm_action_timer name (Action_stop_timer name) invo a)"
| "fsm_perform (Action_reset_timer name) invo a = Some (fsm_action_timer name (Action_reset_timer name) invo a)"
| "fsm_perform (Action_log level message) invo a = Some (fsm_action_log level message invo a)"
| "fsm_perform (Action_raise_fault code severity) invo a = fsm_action_raise_fault code severity (Action_raise_fault code severity) a"
| "fsm_perform (Action_transition name target) invo a = Some (fsm_action_transition target a)"

text \<open>The counters and trace records after an action.\<close>

definition fsm_action_outcome :: "fsm_action \<Rightarrow> fsm_status \<Rightarrow> 'c fsm_activation \<Rightarrow> 'c fsm_activation" where
  "fsm_action_outcome action st a =
     (let kind = fsm_action_kind_name action
      in if st = FSM_OK
         then act_trace TRACE_ACTION (word_of_int (fsm_action_kind_code action)) (kind @ '' ok'')
           (act_count ic_actions_executed_update a)
         else
           let a1 = act_trace TRACE_ACTION_ERROR (word_of_int (fsm_status_value st))
                 (kind @ '': '' @ fsm_status_name st) (act_count ic_action_errors_update a);
               a2 = (if st = FSM_ERR_EXPRESSION
                 then act_trace TRACE_ACTION_ERROR (word_of_int (expr_error_code (ac_expression_error a1)))
                   (kind @ ''/expr: '' @ expr_error_name (ac_expression_error a1)) a1
                 else a1);
               c = in_counters (ac_instance a2)
           in if st = FSM_ERR_DENIED
              then act_trace TRACE_DENIED (ic_governor_denials c + ic_capability_denials c)
                (kind @ ''/'' @ (if ic_governor_denials c > 0 then ''governor'' else ''capability'')) a2
              else a2)"

fun fsm_run_actions :: "fsm_transition option \<Rightarrow> string option \<Rightarrow> fsm_action list \<Rightarrow> u16 \<Rightarrow> 'c fsm_activation \<Rightarrow>
    'c fsm_activation option" where
  "fsm_run_actions transition state [] depth a = Some a"
| "fsm_run_actions transition state (x # xs) depth a =
     (if ac_suspend_requested a then Some a
      else if ac_action_budget a = 0
      then Some (fsm_warn ''action budget exhausted'' (act_count ic_budget_exhausted_update a))
      else
        let a1 = a\<lparr>ac_action_budget := ac_action_budget a - 1\<rparr>
        in case fsm_perform x (fsm_invocation_fill a1 (Some x) transition state depth) a1 of
             None \<Rightarrow> None
           | Some (st, a2) \<Rightarrow> fsm_run_actions transition state xs depth (fsm_action_outcome x st a2))"

subsection \<open>Transition execution\<close>

text \<open>From the commitment of the new state on.\<close>

definition fsm_commit_transition :: "fsm_transition option \<Rightarrow> string option \<Rightarrow> nat \<Rightarrow> u16 \<Rightarrow> 'c fsm_activation \<Rightarrow>
    'c fsm_activation option" where
  "fsm_commit_transition transition from target depth a =
     (let to = fm_states (in_machine (ac_instance a)) ! target;
          a1 = act_count ic_transitions_update
            (a\<lparr>ac_instance := (ac_instance a)\<lparr>in_state_index := target, in_has_state := True\<rparr>\<rparr>);
          a2 = (if transition = None then act_count ic_deferred_transitions_update a1 else a1);
          a3 = act_trace TRACE_TRANSITION (ucast depth)
            ((case from of None \<Rightarrow> ''(initial)'' | Some n \<Rightarrow> n) @ ''->'' @ fs_name to) a2;
          a4 = (if has_sink sk_state_change (ac_engine a3)
            then act_effect (Effect_state_change (fsm_invocation_fill a3 None transition (Some (fs_name to)) depth) from (fs_name to)) a3
            else a3)
      in do {
        a5 \<leftarrow> fsm_emit_state_event EVENT_TYPE_STATE_ENTERED target a4;
        fsm_run_actions transition (Some (fs_name to)) (fs_entry to) depth a5 })"

definition fsm_execute_transition :: "fsm_transition option \<Rightarrow> u16 \<Rightarrow> 'c fsm_activation \<Rightarrow> 'c fsm_activation option" where
  "fsm_execute_transition transition depth a =
     (let i = ac_instance a;
          from = fsm_current_state i;
          target = (case transition of Some t \<Rightarrow> ft_target_index t | None \<Rightarrow> in_deferred_target i)
      in if target \<ge> length (fm_states (in_machine i)) then Some (a\<lparr>ac_suspend_requested := True\<rparr>)
         else do {
           a1 \<leftarrow> (case from of None \<Rightarrow> Some a
             | Some s \<Rightarrow> do {
                 b \<leftarrow> fsm_run_actions transition (Some (fs_name s)) (fs_exit s) depth a;
                 if ac_suspend_requested b then Some b
                 else fsm_emit_state_event EVENT_TYPE_STATE_EXITED (in_state_index i) b });
           a2 \<leftarrow> (case transition of None \<Rightarrow> Some a1 | Some t \<Rightarrow> fsm_run_actions transition None (ft_actions t) depth a1);
           if ac_suspend_requested a2 then Some a2
           else fsm_commit_transition transition (map_option fs_name from) target depth a2 })"

definition fsm_enter_initial :: "'c fsm_activation \<Rightarrow> 'c fsm_activation option" where
  "fsm_enter_initial a =
     (let i = ac_instance a; m = in_machine i; target = fm_initial_index m; initial = fm_states m ! target
      in if target \<ge> length (fm_states m) then Some (a\<lparr>ac_suspend_requested := True\<rparr>)
         else
           let a1 = act_count ic_transitions_update (a\<lparr>ac_instance := i\<lparr>in_state_index := target, in_has_state := True\<rparr>\<rparr>);
               a2 = act_trace TRACE_TRANSITION 1 (''(initial)->'' @ fs_name initial) a1;
               a3 = (if has_sink sk_state_change (ac_engine a2)
                 then act_effect (Effect_state_change (fsm_invocation_fill a2 None None (Some (fs_name initial)) 1) None (fs_name initial)) a2
                 else a2)
           in do {
             a4 \<leftarrow> fsm_emit_state_event EVENT_TYPE_STATE_ENTERED target a3;
             fsm_run_actions None (Some (fs_name initial)) (fs_entry initial) 1 a4 })"

text \<open>The loop ends because each pass increases the depth up to the limit.\<close>

function fsm_run_deferred_chain :: "u16 \<Rightarrow> 'c fsm_activation \<Rightarrow> 'c fsm_activation option" where
  "fsm_run_deferred_chain depth a =
     (let clear = (\<lambda>b. b\<lparr>ac_instance := (ac_instance b)\<lparr>in_deferred_pending := False\<rparr>\<rparr>)
      in if \<not> in_deferred_pending (ac_instance a) then Some a
         else if ac_suspend_requested a then Some (clear a)
         else if depth \<ge> en_max_chain_depth (ac_engine a)
         then Some ((fsm_warn ''transition chain limit exceeded'' (act_count ic_chain_limit_exceeded_update (clear a)))
           \<lparr>ac_suspend_requested := True\<rparr>)
         else (case fsm_execute_transition None (depth + 1) (clear a) of
             None \<Rightarrow> None
           | Some a1 \<Rightarrow> fsm_run_deferred_chain (depth + 1) a1))"
  by pat_completeness auto

termination
proof (relation "measure (\<lambda>(depth, a). 2 ^ 16 - unat depth)")
  fix depth :: u16 and a a1 :: "'c fsm_activation" and x
  assume "\<not> en_max_chain_depth (ac_engine a) \<le> depth"
  then have "unat depth < unat (en_max_chain_depth (ac_engine a))" by (simp add: word_le_nat_alt)
  then have "unat depth < 65535" using unat_u16_lt [of "en_max_chain_depth (ac_engine a)"] by linarith
  then have "unat (depth + 1) = Suc (unat depth)" by (intro unat_inc) simp
  then show "((depth + 1, a1), depth, a) \<in> measure (\<lambda>(depth, a). 2 ^ 16 - unat depth)"
    using unat_u16_lt [of depth] by simp
qed simp

end
