(* ===== verification/Fsm_Runtime.thy ===== *)
theory Fsm_Runtime
  imports Fsm_Engine
begin

text \<open>
  core/fsm/src/engine.c: the subscription gate, event processing, the instance manager, the dispatcher
  and the tick, initialisation and inspection. The internal functions take the engine and the instance;
  the public ones take pointers that may be NULL, an instance being its position in the engine. The
  loops over the instances thread the engine and put the instances back.
\<close>

subsection \<open>Subscription gate\<close>

definition fsm_declares_event :: "fsm_instance \<Rightarrow> event_type \<Rightarrow> bool" where
  "fsm_declares_event i ty \<longleftrightarrow>
     list_ex (\<lambda>s. list_ex (\<lambda>t. ft_event t = ty) (fs_transitions s)) (fm_states (in_machine i))"

definition fsm_can_rx_selected :: "'c fsm_engine \<Rightarrow> fsm_instance \<Rightarrow> fsm_can_rx_subscription \<Rightarrow> event \<Rightarrow> bool" where
  "fsm_can_rx_selected e i s ev \<longleftrightarrow> fsm_interface_is e i (cr_interface s) ev \<and>
     (case cr_can_id s of None \<Rightarrow> True | Some c \<Rightarrow> c = snd (payload_can_rx (ev_payload ev))) \<and>
     (case cr_message s of None \<Rightarrow> True | Some n \<Rightarrow> fsm_message_is e n ev)"

text \<open>The flag pair of a boolean subscription: not declared, declared off, declared on.\<close>

definition fsm_flag_accepts :: "bool option \<Rightarrow> bool \<Rightarrow> bool \<times> bool" where
  "fsm_flag_accepts flag undeclared = (case flag of None \<Rightarrow> (undeclared, False) | Some b \<Rightarrow> (b, \<not> b))"

text \<open>The second component is \<open>*suppressed\<close>.\<close>

definition fsm_instance_accepts :: "'c fsm_engine \<Rightarrow> fsm_instance \<Rightarrow> event \<Rightarrow> bool \<times> bool" where
  "fsm_instance_accepts e i ev =
     (let sb = fd_subscriptions (in_def i)
      in case ev_type ev of
        EVENT_TYPE_CAN_RX \<Rightarrow> (case sb_can_rx sb of
            None \<Rightarrow> (fsm_declares_event i EVENT_TYPE_CAN_RX, False)
          | Some ss \<Rightarrow> (list_ex (\<lambda>s. fsm_can_rx_selected e i s ev) ss, False))
      | EVENT_TYPE_SIGNAL_CHANGED \<Rightarrow> (case sb_signals sb of
            None \<Rightarrow> (fsm_declares_event i EVENT_TYPE_SIGNAL_CHANGED, False)
          | Some names \<Rightarrow> if names = [] then (False, True)
              else (fsm_in_name_list names (payload_signal_name (ev_payload ev)), False))
      | EVENT_TYPE_TIMER_EXPIRED \<Rightarrow> fsm_flag_accepts (sb_timers sb) True
      | EVENT_TYPE_FAULT_RAISED \<Rightarrow> fsm_flag_accepts (sb_faults sb) (fsm_declares_event i EVENT_TYPE_FAULT_RAISED)
      | EVENT_TYPE_POWER_MODE_CHANGED \<Rightarrow>
          fsm_flag_accepts (sb_power_mode sb) (fsm_declares_event i EVENT_TYPE_POWER_MODE_CHANGED)
      | _ \<Rightarrow> (False, False))"

subsection \<open>Event processing\<close>

definition fsm_process_queued_event :: "event \<Rightarrow> 'c fsm_activation \<Rightarrow> 'c fsm_activation option" where
  "fsm_process_queued_event ev a =
     (let a1 = act_count ic_events_processed_update a;
          a2 = (if en_record_events (ac_engine a1)
            then act_trace TRACE_EVENT (word_of_int (event_type_code (ev_type ev)))
              (fsm_event_type_name (ev_type ev) @ '' seq='' @ show_nat (unat (ev_sequence ev))) a1
            else a1)
      in if \<not> in_has_state (ac_instance a2) then Some a2
         else do {
           (found, a3) \<leftarrow> fsm_select_transition ev a2;
           a4 \<leftarrow> (case found of None \<Rightarrow> Some a3 | Some t \<Rightarrow> fsm_execute_transition (Some t) 1 a3);
           if in_deferred_pending (ac_instance a4)
             then fsm_run_deferred_chain (if found = None then 0 else 1) a4
             else Some a4 })"

definition fsm_activation_start :: "'c fsm_engine \<Rightarrow> fsm_instance \<Rightarrow> event option \<Rightarrow> 'c fsm_activation" where
  "fsm_activation_start e i ev = \<lparr>ac_engine = e, ac_instance = i, ac_event = ev,
     ac_action_budget = en_max_actions_per_event e, ac_suspend_requested = False, ac_expression_error = EXPR_OK\<rparr>"

text \<open>The end of an activation: a requested suspension takes effect.\<close>

definition fsm_activation_end :: "'c fsm_activation \<Rightarrow> 'c fsm_engine \<times> fsm_instance" where
  "fsm_activation_end a = (if ac_suspend_requested a then snd (fsm_suspend (ac_engine a) (ac_instance a))
     else (ac_engine a, ac_instance a))"

definition fsm_activate :: "'c fsm_engine \<Rightarrow> fsm_instance \<Rightarrow> event \<Rightarrow> ('c fsm_engine \<times> fsm_instance) option" where
  "fsm_activate e i ev = map_option fsm_activation_end (fsm_process_queued_event ev (fsm_activation_start e i (Some ev)))"

function fsm_drain_loop :: "u16 \<Rightarrow> 'c fsm_engine \<Rightarrow> fsm_instance \<Rightarrow> ('c fsm_engine \<times> fsm_instance) option" where
  "fsm_drain_loop processed e i =
     (if event_queue_is_empty (Some (in_incoming i)) then Some (e, i)
      else if \<not> fsm_lifecycle_is_active (in_lifecycle i) then Some (e, i)
      else if processed \<ge> en_max_events_per_activation e
      then let i1 = count_in ic_budget_exhausted_update i
           in Some (fsm_trace e i1 TRACE_WARNING 0 ''event budget exhausted'', i1)
      else case queue_pop (in_incoming i) of
        (st, q, out) \<Rightarrow>
          let i1 = i\<lparr>in_incoming := q\<rparr>
          in if st \<noteq> EQ_OK then Some (e, i1)
             else (case fsm_activate e i1 (the out) of
               None \<Rightarrow> None
             | Some (e2, i2) \<Rightarrow> fsm_drain_loop (processed + 1) e2 i2))"
  by pat_completeness auto

termination
proof (relation "measure (\<lambda>(processed, e, i). 2 ^ 16 - unat processed)")
  fix processed :: u16 and e e2 :: "'c fsm_engine" and i i1 i2 x y q out z
  assume "\<not> en_max_events_per_activation e \<le> processed"
  then have "unat processed < unat (en_max_events_per_activation e)" by (simp add: word_le_nat_alt)
  then have "unat processed < 65535" using unat_u16_lt [of "en_max_events_per_activation e"] by linarith
  then have "unat (processed + 1) = Suc (unat processed)" by (intro unat_inc) simp
  then show "((processed + 1, e2, i2), processed, e, i) \<in> measure (\<lambda>(processed, e, i). 2 ^ 16 - unat processed)"
    using unat_u16_lt [of processed] by simp
qed simp

declare fsm_drain_loop.simps [simp del] fsm_run_deferred_chain.simps [simp del]

definition fsm_drain_instance :: "'c fsm_engine \<Rightarrow> fsm_instance \<Rightarrow> ('c fsm_engine \<times> fsm_instance) option" where
  "fsm_drain_instance e i =
     (if in_processing i then Some (e, i)
      else map_option (\<lambda>(e, i). (e, i\<lparr>in_processing := False\<rparr>)) (fsm_drain_loop 0 e (i\<lparr>in_processing := True\<rparr>)))"


subsection \<open>Instance manager\<close>

definition fsm_fresh_variables :: "fsm_variable_def list \<Rightarrow> fsm_variable_slot list \<Rightarrow> fsm_variable_slot list" where
  "fsm_fresh_variables defs storage = List.map (\<lambda>d. \<lparr>vs_name = vd_name d, vs_declared = vd_type d,
     vs_value = Value_unset, vs_initialized = False\<rparr>) defs @ drop (length defs) storage"

text \<open>\<open>expires\<close> and \<open>missed_ticks\<close> keep what the storage holds.\<close>

definition fsm_fresh_timers :: "fsm_timer_def list \<Rightarrow> fsm_timer_state list \<Rightarrow> fsm_timer_state list" where
  "fsm_fresh_timers defs storage = List.map (\<lambda>(k, d, s). s\<lparr>ts_name := td_name d, ts_id := of_nat k + 1,
     ts_duration_ms := td_duration_ms d, ts_repeat := td_repeat d, ts_running := False, ts_deadline_us := 0\<rparr>)
       (zip [0..<length defs] (zip defs storage)) @ drop (length defs) storage"

text \<open>One default or override: evaluated, coerced, stored. A default that fails is traced, an override is not.\<close>

definition fsm_init_variable :: "nat \<Rightarrow> fsm_operand \<Rightarrow> string option \<Rightarrow> 'c fsm_activation \<Rightarrow> 'c fsm_activation option" where
  "fsm_init_variable k operand traced a =
     (let failed = (\<lambda>st suffix b.
        let b1 = act_count ic_initialization_errors_update b
        in case traced of None \<Rightarrow> b1
           | Some name \<Rightarrow> act_trace TRACE_ACTION_ERROR (word_of_int (fsm_status_value st)) (''default '' @ name @ suffix) b1)
      in case fsm_evaluate_operand operand a of
           None \<Rightarrow> None
         | Some (st, v, a1) \<Rightarrow>
             if st \<noteq> FSM_OK then Some (failed FSM_ERR_EXPRESSION [] (a1\<lparr>ac_suspend_requested := False\<rparr>))
             else
               let i = ac_instance a1; slot = in_variables i ! k
               in case fsm_coerce_to_declared (vs_declared slot) v of
                    None \<Rightarrow> Some (failed FSM_ERR_ARGUMENT '' type'' a1)
                  | Some w \<Rightarrow> Some (a1\<lparr>ac_instance :=
                      i\<lparr>in_variables := (in_variables i)[k := slot\<lparr>vs_value := w, vs_initialized := True\<rparr>]\<rparr>\<rparr>))"

fun fsm_init_defaults :: "nat \<Rightarrow> fsm_variable_def list \<Rightarrow> 'c fsm_activation \<Rightarrow> 'c fsm_activation option" where
  "fsm_init_defaults k [] a = Some a"
| "fsm_init_defaults k (d # ds) a = do {
     a1 \<leftarrow> (case vd_default d of None \<Rightarrow> Some a | Some operand \<Rightarrow> fsm_init_variable k operand (Some (vd_name d)) a);
     fsm_init_defaults (k + 1) ds a1 }"

fun fsm_init_overrides :: "(string \<times> fsm_operand) list \<Rightarrow> 'c fsm_activation \<Rightarrow> 'c fsm_activation option" where
  "fsm_init_overrides [] a = Some a"
| "fsm_init_overrides ((name, operand) # os) a = do {
     a1 \<leftarrow> (case fsm_variable_index (ac_instance a) name of
         None \<Rightarrow> Some (act_count ic_initialization_errors_update a)
       | Some k \<Rightarrow> fsm_init_variable k operand None a);
     fsm_init_overrides os a1 }"

definition fsm_instance_clear :: "fsm_instance \<Rightarrow> fsm_instance" where
  "fsm_instance_clear i =
     (let vars = take (in_variable_capacity i) (fm_variables (in_machine i));
          timers = take (in_timer_capacity i) (fm_timers (in_machine i))
      in i\<lparr>in_has_state := False, in_state_index := 0, in_deferred_pending := False,
           in_incoming := the (event_queue_clear (Some (in_incoming i))),
           in_variables := fsm_fresh_variables vars (in_variables i), in_variable_count := length vars,
           in_timers := fsm_fresh_timers timers (in_timers i), in_timer_count := length timers\<rparr>)"

definition fsm_instance_initialize :: "'c fsm_engine \<Rightarrow> fsm_instance \<Rightarrow> ('c fsm_engine \<times> fsm_instance) option" where
  "fsm_instance_initialize e i = do {
     let i1 = fsm_instance_clear i;
     a1 \<leftarrow> fsm_init_defaults 0 (take (in_variable_capacity i) (fm_variables (in_machine i))) (fsm_activation_start e i1 None);
     a2 \<leftarrow> fsm_init_overrides (fd_variables (in_def i)) a1;
     Some (ac_engine a2, ac_instance a2) }"

type_synonym 'c instance_result = "(fsm_status \<times> 'c fsm_engine \<times> fsm_instance) option"

definition fsm_become :: "fsm_lifecycle \<Rightarrow> string \<Rightarrow> 'c fsm_engine \<Rightarrow> fsm_instance \<Rightarrow> 'c fsm_engine \<times> fsm_instance" where
  "fsm_become l tx e i = (let i1 = i\<lparr>in_lifecycle := l\<rparr> in (fsm_lifecycle_trace e i1 tx, i1))"

definition fsm_enable :: "'c fsm_engine \<Rightarrow> fsm_instance \<Rightarrow> 'c instance_result" where
  "fsm_enable e i =
     (if in_lifecycle i \<noteq> LIFECYCLE_DISABLED then Some (FSM_ERR_STATE, e, i)
      else do {
        (e1, i1) \<leftarrow> fsm_instance_initialize e i;
        Some (FSM_OK, fsm_become LIFECYCLE_READY ''ready'' e1 i1) })"

definition fsm_auto_start :: "time_us \<Rightarrow> fsm_instance \<Rightarrow> fsm_instance" where
  "fsm_auto_start now i = i\<lparr>in_timers := List.map (\<lambda>(d, s). if td_auto_start d then fsm_timer_arm now (td_duration_ms d) (td_repeat d) s else s)
       (zip (take (in_timer_count i) (fm_timers (in_machine i))) (take (in_timer_count i) (in_timers i)))
     @ drop (in_timer_count i) (in_timers i)\<rparr>"

definition fsm_start :: "'c fsm_engine \<Rightarrow> fsm_instance \<Rightarrow> 'c instance_result" where
  "fsm_start e i =
     (if in_lifecycle i \<noteq> LIFECYCLE_READY then Some (FSM_ERR_STATE, e, i)
      else do {
        let i1 = i\<lparr>in_lifecycle := LIFECYCLE_RUNNING, in_incoming := the (event_queue_clear (Some (in_incoming i))),
          in_deferred_pending := False, in_has_state := False\<rparr>;
        let e1 = fsm_lifecycle_trace e i1 ''running'';
        a1 \<leftarrow> fsm_enter_initial (fsm_activation_start e1 (fsm_auto_start (en_now_us e1) i1) None);
        a2 \<leftarrow> (if in_deferred_pending (ac_instance a1) then fsm_run_deferred_chain 1 a1 else Some a1);
        (e3, i3) \<leftarrow> fsm_drain_instance (fst (fsm_activation_end a2)) (snd (fsm_activation_end a2));
        Some (FSM_OK, e3, i3) })"

definition fsm_resume :: "'c fsm_engine \<Rightarrow> fsm_instance \<Rightarrow> 'c instance_result" where
  "fsm_resume e i =
     (if in_lifecycle i \<noteq> LIFECYCLE_SUSPENDED then Some (FSM_ERR_STATE, e, i)
      else do {
        let (e1, i1) = fsm_become LIFECYCLE_RUNNING ''running'' e i;
        (e2, i2) \<leftarrow> fsm_drain_instance e1 i1;
        Some (FSM_OK, e2, i2) })"

definition fsm_reset :: "'c fsm_engine \<Rightarrow> fsm_instance \<Rightarrow> 'c instance_result" where
  "fsm_reset e i =
     (if in_lifecycle i \<noteq> LIFECYCLE_FAULT \<and> in_lifecycle i \<noteq> LIFECYCLE_SUSPENDED then Some (FSM_ERR_STATE, e, i)
      else do {
        (e1, i1) \<leftarrow> fsm_instance_initialize e i;
        Some (FSM_OK, fsm_become LIFECYCLE_READY ''ready (reset)'' e1 i1) })"

definition fsm_disable :: "'c fsm_engine \<Rightarrow> fsm_instance \<Rightarrow> 'c instance_result" where
  "fsm_disable e i = Some (FSM_OK, fsm_become LIFECYCLE_DISABLED ''disabled'' e
     (fsm_stop_timers (i\<lparr>in_deferred_pending := False, in_incoming := the (event_queue_clear (Some (in_incoming i)))\<rparr>)))"

subsection \<open>Public operations on an instance\<close>

text \<open>The checks of the pointers, and the instance taken out of the engine and put back.\<close>

definition engine_is_valid :: "'c fsm_engine option \<Rightarrow> bool" where
  "engine_is_valid eng \<longleftrightarrow> (case eng of None \<Rightarrow> False | Some e \<Rightarrow> en_ready e)"

definition on_instance :: "('c fsm_engine \<Rightarrow> fsm_instance \<Rightarrow> 'c instance_result) \<Rightarrow> 'c fsm_engine option \<Rightarrow> nat option \<Rightarrow>
    (fsm_status \<times> 'c fsm_engine option) option" where
  "on_instance f eng inst =
     (if \<not> engine_is_valid eng \<or> inst = None then Some (FSM_ERR_NULL, eng)
      else do {
        let e = the eng;
        let k = the inst;
        (st, e1, i1) \<leftarrow> f e (en_instances e ! k);
        Some (st, Some (e1\<lparr>en_instances := (en_instances e1)[k := i1]\<rparr>)) })"

definition instance_enable :: "'c fsm_engine option \<Rightarrow> nat option \<Rightarrow> (fsm_status \<times> 'c fsm_engine option) option" where
  "instance_enable = on_instance fsm_enable"
definition instance_start :: "'c fsm_engine option \<Rightarrow> nat option \<Rightarrow> (fsm_status \<times> 'c fsm_engine option) option" where
  "instance_start = on_instance fsm_start"
definition instance_suspend :: "'c fsm_engine option \<Rightarrow> nat option \<Rightarrow> (fsm_status \<times> 'c fsm_engine option) option" where
  "instance_suspend = on_instance (\<lambda>e i. Some (fsm_suspend e i))"
definition instance_resume :: "'c fsm_engine option \<Rightarrow> nat option \<Rightarrow> (fsm_status \<times> 'c fsm_engine option) option" where
  "instance_resume = on_instance fsm_resume"
definition instance_fault :: "'c fsm_engine option \<Rightarrow> nat option \<Rightarrow> (fsm_status \<times> 'c fsm_engine option) option" where
  "instance_fault = on_instance (\<lambda>e i. Some (fsm_fault e i))"
definition instance_reset :: "'c fsm_engine option \<Rightarrow> nat option \<Rightarrow> (fsm_status \<times> 'c fsm_engine option) option" where
  "instance_reset = on_instance fsm_reset"
definition instance_disable :: "'c fsm_engine option \<Rightarrow> nat option \<Rightarrow> (fsm_status \<times> 'c fsm_engine option) option" where
  "instance_disable = on_instance fsm_disable"

subsection \<open>Dispatcher and tick\<close>

fun fsm_for_instances :: "('s \<Rightarrow> fsm_instance \<Rightarrow> ('s \<times> fsm_instance) option) \<Rightarrow> 's \<Rightarrow> fsm_instance list \<Rightarrow> ('s \<times> fsm_instance list) option" where
  "fsm_for_instances f s [] = Some (s, [])"
| "fsm_for_instances f s (i # is) = do {
     (s1, i1) \<leftarrow> f s i;
     (s2, is2) \<leftarrow> fsm_for_instances f s1 is;
     Some (s2, i1 # is2) }"

text \<open>A push into the incoming queue with the instance's counters; whether it was admitted.\<close>

definition fsm_push_incoming :: "event \<Rightarrow> 'c fsm_engine \<Rightarrow> fsm_instance \<Rightarrow> (bool \<times> 'c fsm_engine \<times> fsm_instance) option" where
  "fsm_push_incoming ev e i = do {
     (st, q, effects) \<leftarrow> fsm_push (en_effects e) (in_incoming i) ev;
     let okay = event_queue_status_is_ok st;
     Some (okay, e\<lparr>en_effects := effects\<rparr>,
       count_in (if okay then ic_events_queued_update else ic_events_dropped_update) (i\<lparr>in_incoming := q\<rparr>)) }"

definition fsm_count_suppressed :: "bool \<Rightarrow> fsm_instance \<Rightarrow> fsm_instance" where
  "fsm_count_suppressed suppressed i = (if suppressed then count_in ic_events_suppressed_update i else i)"

definition fsm_deliver :: "event \<Rightarrow> nat \<times> 'c fsm_engine \<Rightarrow> fsm_instance \<Rightarrow> ((nat \<times> 'c fsm_engine) \<times> fsm_instance) option" where
  "fsm_deliver ev s i = (case s of (delivered, e) \<Rightarrow>
     if \<not> fsm_lifecycle_is_active (in_lifecycle i) then Some (s, i)
     else case fsm_instance_accepts e i ev of (accepts, suppressed) \<Rightarrow>
       if \<not> accepts then Some (s, fsm_count_suppressed suppressed i)
       else do {
         (okay, e1, i1) \<leftarrow> fsm_push_incoming ev e i;
         Some ((if okay then delivered + 1 else delivered, e1), i1) })"

definition engine_process_event :: "'c fsm_engine option \<Rightarrow> event option \<Rightarrow> (fsm_status \<times> 'c fsm_engine option) option" where
  "engine_process_event eng ev =
     (if \<not> engine_is_valid eng \<or> ev = None then Some (FSM_ERR_NULL, eng)
      else if \<not> event_is_valid ev then Some (FSM_ERR_ARGUMENT, eng)
      else do {
        let e = the eng;
        let e1 = e\<lparr>en_counters := (en_counters e)\<lparr>ec_events_received := ec_events_received (en_counters e) + 1\<rparr>\<rparr>;
        ((delivered, e2), is2) \<leftarrow> fsm_for_instances (fsm_deliver (the ev)) (0, e1) (en_instances e1);
        let c = en_counters e2;
        let e3 = e2\<lparr>en_counters := (if delivered = 0 then c\<lparr>ec_events_ignored := ec_events_ignored c + 1\<rparr>
          else c\<lparr>ec_events_delivered := ec_events_delivered c + 1\<rparr>)\<rparr>;
        (e4, is4) \<leftarrow> fsm_for_instances fsm_drain_instance e3 is2;
        Some (FSM_OK, Some (e4\<lparr>en_instances := is4\<rparr>)) })"

definition fsm_inject :: "event \<Rightarrow> 'c fsm_engine \<Rightarrow> fsm_instance \<Rightarrow> 'c instance_result" where
  "fsm_inject ev e i =
     (if \<not> event_is_valid (Some ev) then Some (FSM_ERR_ARGUMENT, e, i)
      else if \<not> fsm_lifecycle_is_active (in_lifecycle i) then Some (FSM_ERR_STATE, e, i)
      else case fsm_instance_accepts e i ev of (accepts, suppressed) \<Rightarrow>
        if \<not> accepts then Some (FSM_ERR_NOT_FOUND, e, fsm_count_suppressed suppressed i)
        else do {
          (okay, e1, i1) \<leftarrow> fsm_push_incoming ev e i;
          if \<not> okay then Some (FSM_ERR_QUEUE_FULL, e1, i1)
          else do {
            let c = en_counters e1;
            (e2, i2) \<leftarrow> fsm_drain_instance (e1\<lparr>en_counters := c\<lparr>ec_events_received := ec_events_received c + 1,
              ec_events_delivered := ec_events_delivered c + 1\<rparr>\<rparr>) i1;
            Some (FSM_OK, e2, i2) } })"

definition engine_inject_event :: "'c fsm_engine option \<Rightarrow> nat option \<Rightarrow> event option \<Rightarrow> (fsm_status \<times> 'c fsm_engine option) option" where
  "engine_inject_event eng inst ev =
     (case ev of None \<Rightarrow> Some (FSM_ERR_NULL, eng) | Some x \<Rightarrow> on_instance (fsm_inject x) eng inst)"

text \<open>One timer of an active instance.\<close>

definition fsm_expire_timer :: "'c fsm_engine \<Rightarrow> fsm_instance \<Rightarrow> nat \<Rightarrow> ('c fsm_engine \<times> fsm_instance) option" where
  "fsm_expire_timer e i k = (case fsm_timer_expired i k (en_now_us e) of
       None \<Rightarrow> Some (e, i)
     | Some (missed, i1) \<Rightarrow> do {
         let (eid, e1) = fsm_next_event_id e;
         let slot = in_timers i1 ! k;
         let ev = fsm_stamped_event eid EVENT_TYPE_TIMER_EXPIRED PRIORITY_CLASS_TIMER (en_now_us e1) SEQUENCE_NONE
           (Payload_timer_expired \<lparr>te_timer_id = ts_id slot, te_instance_id = in_id i1, te_missed_count = missed,
              te_is_periodic = (if ts_repeat slot then 1 else 0)\<rparr>);
         e2 \<leftarrow> fsm_publish_global ev e1;
         (case fsm_instance_accepts e2 i1 ev of (accepts, suppressed) \<Rightarrow>
           if \<not> accepts then Some (e2, fsm_count_suppressed suppressed i1)
           else do {
             (okay, e3, i3) \<leftarrow> fsm_push_incoming ev e2 i1;
             Some (fsm_trace e3 i3 TRACE_TIMER missed (ts_name slot @ '' expired''), i3) }) })"

fun fsm_expire_timers :: "nat list \<Rightarrow> 'c fsm_engine \<Rightarrow> fsm_instance \<Rightarrow> ('c fsm_engine \<times> fsm_instance) option" where
  "fsm_expire_timers [] e i = Some (e, i)"
| "fsm_expire_timers (k # ks) e i = do {
     (e1, i1) \<leftarrow> fsm_expire_timer e i k;
     fsm_expire_timers ks e1 i1 }"

definition fsm_tick_instance :: "'c fsm_engine \<Rightarrow> fsm_instance \<Rightarrow> ('c fsm_engine \<times> fsm_instance) option" where
  "fsm_tick_instance e i =
     (if \<not> fsm_lifecycle_is_active (in_lifecycle i) then Some (e, i)
      else do {
        (e1, i1) \<leftarrow> fsm_expire_timers [0..<in_timer_count i] e i;
        fsm_drain_instance e1 i1 })"

definition fsm_advance_time :: "'c fsm_engine \<Rightarrow> 'c fsm_engine" where
  "fsm_advance_time e = e\<lparr>en_ticks := en_ticks e + 1,
     en_counters := (en_counters e)\<lparr>ec_ticks := ec_ticks (en_counters e) + 1\<rparr>,
     en_now_us := (if en_owns_time_base e then fsm_sat_add (en_now_us e) 1000 else clock_now_us (en_clock e))\<rparr>"

definition engine_tick :: "'c fsm_engine option \<Rightarrow> (fsm_status \<times> 'c fsm_engine option) option" where
  "engine_tick eng =
     (if \<not> engine_is_valid eng then Some (FSM_ERR_NULL, eng)
      else do {
        let e1 = fsm_advance_time (the eng);
        (e2, is2) \<leftarrow> fsm_for_instances fsm_tick_instance e1 (en_instances e1);
        Some (FSM_OK, Some (e2\<lparr>en_instances := is2\<rparr>)) })"

text \<open>Between two ticks of an advance the clock's context does not change.\<close>

fun fsm_advance_loop :: "nat \<Rightarrow> 'c fsm_engine option \<Rightarrow> (fsm_status \<times> 'c fsm_engine option) option" where
  "fsm_advance_loop 0 eng = Some (FSM_OK, eng)"
| "fsm_advance_loop (Suc n) eng = do {
     (st, eng1) \<leftarrow> engine_tick eng;
     if st \<noteq> FSM_OK then Some (st, eng1) else fsm_advance_loop n eng1 }"

definition engine_advance :: "'c fsm_engine option \<Rightarrow> u32 \<Rightarrow> (fsm_status \<times> 'c fsm_engine option) option" where
  "engine_advance eng tick_count = (if eng = None then Some (FSM_ERR_NULL, eng) else fsm_advance_loop (unat tick_count) eng)"


subsection \<open>Initialisation\<close>

record fsm_instance_storage =
  sg_event_slots :: "event list"
  sg_event_capacity :: u16
  sg_variables :: "fsm_variable_slot list"
  sg_variable_capacity :: nat
  sg_timers :: "fsm_timer_state list"
  sg_timer_capacity :: nat

text \<open>\<open>cf_instances\<close> says whether the instance array is given; the bindings are its first \<open>count\<close> entries.\<close>

record 'c fsm_engine_config =
  cf_sets :: "fsm_set list"
  cf_instances :: bool
  cf_storage :: "fsm_instance_storage list option"
  cf_instance_capacity :: nat
  cf_clock :: "'c clock option"
  cf_capabilities :: "fsm_capabilities option"
  cf_namespace :: "codec_namespace option"
  cf_signal_bus :: "fsm_signal_bus option"
  cf_global_queue :: "event_queue option"
  cf_bindings :: "fsm_binding list option"
  cf_binding_count :: nat
  cf_governor :: "fsm_governor option"
  cf_sink :: "fsm_sink option"
  cf_trace :: "fsm_trace_record list"
  cf_trace_capacity :: u16
  cf_max_chain_depth :: u16
  cf_max_actions_per_event :: u16
  cf_max_events_per_activation :: u16
  cf_record_events :: bool

text \<open>The zeroed structure, with the history that starts with the engine.\<close>

definition fsm_zero_engine :: "'c fsm_engine" where
  "fsm_zero_engine = \<lparr>en_sets = [], en_instances = [], en_clock = None, en_now_us = 0, en_ticks = 0,
     en_owns_time_base = False, en_capabilities = None, en_namespace = None, en_signal_bus = None,
     en_global_queue = None, en_bindings = [], en_governor = None, en_sink = None, en_trace = [],
     en_trace_capacity = 0, en_trace_count = 0, en_trace_next = 0, en_trace_dropped = 0,
     en_max_chain_depth = 0, en_max_actions_per_event = 0, en_max_events_per_activation = 0,
     en_record_events = False, en_counters = \<lparr>ec_events_received = 0, ec_events_delivered = 0,
       ec_events_ignored = 0, ec_global_queue_drops = 0, ec_ticks = 0, ec_next_event_id = 0\<rparr>,
     en_ready = False, en_effects = []\<rparr>"

text \<open>NULL sets and an empty list are refused alike.\<close>

definition fsm_config_ok :: "'c fsm_engine_config \<Rightarrow> bool" where
  "fsm_config_ok c \<longleftrightarrow> cf_sets c \<noteq> [] \<and> cf_instances c \<and> cf_storage c \<noteq> None \<and> cf_instance_capacity c \<noteq> 0 \<and>
     \<not> (cf_trace_capacity c \<noteq> 0 \<and> cf_trace c = []) \<and> \<not> (cf_bindings c = None \<and> cf_binding_count c \<noteq> 0)"

definition fsm_engine_from :: "'c fsm_engine_config \<Rightarrow> 'c fsm_engine" where
  "fsm_engine_from c = fsm_zero_engine\<lparr>en_sets := cf_sets c, en_clock := cf_clock c,
     en_capabilities := cf_capabilities c, en_namespace := cf_namespace c, en_signal_bus := cf_signal_bus c,
     en_global_queue := cf_global_queue c,
     en_bindings := (case cf_bindings c of None \<Rightarrow> [] | Some b \<Rightarrow> take (cf_binding_count c) b),
     en_governor := cf_governor c, en_sink := cf_sink c, en_trace := cf_trace c,
     en_trace_capacity := cf_trace_capacity c,
     en_max_chain_depth := (if cf_max_chain_depth c \<noteq> 0 then cf_max_chain_depth c else FSM_TRANSITION_CHAIN_MAX_DEPTH),
     en_max_actions_per_event := (if cf_max_actions_per_event c \<noteq> 0 then cf_max_actions_per_event c else FSM_MAX_ACTIONS_PER_EVENT),
     en_max_events_per_activation :=
       (if cf_max_events_per_activation c \<noteq> 0 then cf_max_events_per_activation c else FSM_MAX_EVENTS_PER_ACTIVATION),
     en_record_events := cf_record_events c,
     en_now_us := (if cf_clock c \<noteq> None then clock_now_us (cf_clock c) else 0),
     en_owns_time_base := (cf_clock c = None),
     en_counters := (en_counters (fsm_zero_engine :: 'c fsm_engine))\<lparr>ec_next_event_id := 1\<rparr>\<rparr>"

definition fsm_storage_fits :: "fsm_machine \<Rightarrow> fsm_instance_storage \<Rightarrow> bool" where
  "fsm_storage_fits m s \<longleftrightarrow> sg_event_slots s \<noteq> [] \<and> sg_event_capacity s \<noteq> 0 \<and>
     (fm_variables m \<noteq> [] \<longrightarrow> sg_variables s \<noteq> [] \<and> length (fm_variables m) \<le> sg_variable_capacity s) \<and>
     (fm_timers m \<noteq> [] \<longrightarrow> sg_timers s \<noteq> [] \<and> length (fm_timers m) \<le> sg_timer_capacity s)"

text \<open>One declared instance: \<open>None\<close> when initialisation fails.\<close>

definition fsm_bind_instance :: "'c fsm_engine_config \<Rightarrow> fsm_instance list \<Rightarrow> fsm_set \<times> fsm_instance_def \<Rightarrow> fsm_instance option" where
  "fsm_bind_instance c bound sd = (case sd of (s, d) \<Rightarrow>
     if fd_machine_index d \<ge> length (fq_machines s) \<or> length bound \<ge> cf_instance_capacity c then None
     else
       let m = fq_machines s ! fd_machine_index d; st = the (cf_storage c) ! length bound
       in if \<not> fsm_storage_fits m st then None
          else if list_ex (\<lambda>i. fd_id (in_def i) = fd_id d) bound then None
          else (case event_queue_init (Some zero_queue) (sg_event_slots st) (sg_event_capacity st) of
            (True, Some q) \<Rightarrow> Some \<lparr>in_def = d, in_machine = m, in_index = length bound, in_id = of_nat (length bound) + 1,
              in_lifecycle = LIFECYCLE_DISABLED, in_state_index = 0, in_has_state = False, in_incoming = q,
              in_variables = sg_variables st, in_variable_capacity = sg_variable_capacity st, in_variable_count = 0,
              in_timers = sg_timers st, in_timer_capacity = sg_timer_capacity st, in_timer_count = 0,
              in_deferred_pending = False, in_deferred_target = 0, in_processing = False,
              in_counters = zero_instance_counters\<rparr>
          | _ \<Rightarrow> None))"

fun fsm_bind_instances :: "'c fsm_engine_config \<Rightarrow> fsm_instance list \<Rightarrow> (fsm_set \<times> fsm_instance_def) list \<Rightarrow> fsm_instance list option" where
  "fsm_bind_instances c bound [] = Some bound"
| "fsm_bind_instances c bound (sd # sds) = (case fsm_bind_instance c bound sd of
       None \<Rightarrow> None
     | Some i \<Rightarrow> fsm_bind_instances c (bound @ [i]) sds)"

definition fsm_enable_declared :: "'c fsm_engine \<Rightarrow> fsm_instance \<Rightarrow> ('c fsm_engine \<times> fsm_instance) option" where
  "fsm_enable_declared e i = (if fd_enabled (in_def i) then map_option snd (fsm_enable e i) else Some (e, i))"

text \<open>The result and the engine; a NULL engine stays NULL.\<close>

definition engine_init :: "'c fsm_engine option \<Rightarrow> 'c fsm_engine_config option \<Rightarrow> (bool \<times> 'c fsm_engine option) option" where
  "engine_init eng config = (case (eng, config) of
       (None, _) \<Rightarrow> Some (False, None)
     | (Some _, None) \<Rightarrow> Some (False, Some fsm_zero_engine)
     | (Some _, Some c) \<Rightarrow>
         if \<not> fsm_config_ok c then Some (False, Some fsm_zero_engine)
         else (case fsm_bind_instances c [] (concat (List.map (\<lambda>s. List.map (Pair s) (fq_instances s)) (cf_sets c))) of
             None \<Rightarrow> Some (False, Some fsm_zero_engine)
           | Some is \<Rightarrow> do {
               (e, is1) \<leftarrow> fsm_for_instances fsm_enable_declared ((fsm_engine_from c)\<lparr>en_instances := is, en_ready := True\<rparr>) is;
               Some (True, Some (e\<lparr>en_instances := is1\<rparr>)) }))"

subsection \<open>Inspection\<close>

definition engine_instance_count :: "'c fsm_engine option \<Rightarrow> nat" where
  "engine_instance_count eng = (if \<not> engine_is_valid eng then 0 else length (en_instances (the eng)))"

definition engine_counters :: "'c fsm_engine option \<Rightarrow> fsm_engine_counters option" where
  "engine_counters eng = (if \<not> engine_is_valid eng then None else Some (en_counters (the eng)))"

definition fsm_add_counters :: "fsm_instance_counters \<Rightarrow> fsm_instance_counters \<Rightarrow> fsm_instance_counters" where
  "fsm_add_counters x y = \<lparr>ic_events_queued = ic_events_queued x + ic_events_queued y,
     ic_events_processed = ic_events_processed x + ic_events_processed y,
     ic_events_dropped = ic_events_dropped x + ic_events_dropped y,
     ic_events_suppressed = ic_events_suppressed x + ic_events_suppressed y,
     ic_transitions = ic_transitions x + ic_transitions y,
     ic_deferred_transitions = ic_deferred_transitions x + ic_deferred_transitions y,
     ic_chain_limit_exceeded = ic_chain_limit_exceeded x + ic_chain_limit_exceeded y,
     ic_deferred_ignored = ic_deferred_ignored x + ic_deferred_ignored y,
     ic_initialization_errors = ic_initialization_errors x + ic_initialization_errors y,
     ic_guards_evaluated = ic_guards_evaluated x + ic_guards_evaluated y,
     ic_guards_true = ic_guards_true x + ic_guards_true y,
     ic_guards_false = ic_guards_false x + ic_guards_false y,
     ic_guard_errors = ic_guard_errors x + ic_guard_errors y,
     ic_actions_executed = ic_actions_executed x + ic_actions_executed y,
     ic_action_errors = ic_action_errors x + ic_action_errors y,
     ic_governor_denials = ic_governor_denials x + ic_governor_denials y,
     ic_capability_denials = ic_capability_denials x + ic_capability_denials y,
     ic_messages_sent = ic_messages_sent x + ic_messages_sent y,
     ic_signals_set = ic_signals_set x + ic_signals_set y,
     ic_variables_set = ic_variables_set x + ic_variables_set y,
     ic_logs_emitted = ic_logs_emitted x + ic_logs_emitted y,
     ic_faults_raised = ic_faults_raised x + ic_faults_raised y,
     ic_timer_starts = ic_timer_starts x + ic_timer_starts y,
     ic_timer_stops = ic_timer_stops x + ic_timer_stops y,
     ic_timer_resets = ic_timer_resets x + ic_timer_resets y,
     ic_timer_expiries = ic_timer_expiries x + ic_timer_expiries y,
     ic_timer_missed_ticks = ic_timer_missed_ticks x + ic_timer_missed_ticks y,
     ic_budget_exhausted = ic_budget_exhausted x + ic_budget_exhausted y\<rparr>"

definition engine_totals :: "'c fsm_engine option \<Rightarrow> fsm_instance_counters option \<Rightarrow> fsm_status \<times> fsm_instance_counters option" where
  "engine_totals eng out =
     (if out = None then (FSM_ERR_NULL, None)
      else if \<not> engine_is_valid eng then (FSM_ERR_NULL, Some zero_instance_counters)
      else (FSM_OK, Some (foldl fsm_add_counters zero_instance_counters (List.map in_counters (en_instances (the eng))))))"

definition engine_now_us :: "'c fsm_engine option \<Rightarrow> time_us" where
  "engine_now_us eng = (case eng of None \<Rightarrow> 0 | Some e \<Rightarrow> en_now_us e)"

definition instance_at :: "'c fsm_engine option \<Rightarrow> nat \<Rightarrow> nat option" where
  "instance_at eng index = (if \<not> engine_is_valid eng \<or> index \<ge> length (en_instances (the eng)) then None else Some index)"

definition instance_by_id :: "'c fsm_engine option \<Rightarrow> string option \<Rightarrow> nat option" where
  "instance_by_id eng name = (case name of None \<Rightarrow> None
     | Some n \<Rightarrow> if \<not> engine_is_valid eng then None
         else fsm_first_index (\<lambda>i. fd_id (in_def i) = n) (en_instances (the eng)))"

definition instance_lifecycle :: "fsm_instance option \<Rightarrow> fsm_lifecycle" where
  "instance_lifecycle inst = (case inst of None \<Rightarrow> LIFECYCLE_DISABLED | Some i \<Rightarrow> in_lifecycle i)"

definition instance_state_name :: "fsm_instance option \<Rightarrow> string option" where
  "instance_state_name inst = (case inst of None \<Rightarrow> None | Some i \<Rightarrow> map_option fs_name (fsm_current_state i))"

definition instance_counters :: "fsm_instance option \<Rightarrow> fsm_instance_counters option" where
  "instance_counters inst = map_option in_counters inst"

text \<open>The value is \<open>None\<close> when nothing is stored through the out pointer, which is not NULL.\<close>

definition instance_get_variable :: "'c fsm_engine option \<Rightarrow> fsm_instance option \<Rightarrow> string option \<Rightarrow> fsm_status \<times> signal_value option" where
  "instance_get_variable eng inst name = (case (inst, name) of
       (Some i, Some n) \<Rightarrow>
         if \<not> engine_is_valid eng then (FSM_ERR_NULL, None)
         else (case fsm_variable_index i n of
             None \<Rightarrow> (FSM_ERR_NOT_FOUND, None)
           | Some k \<Rightarrow> (FSM_OK, Some (vs_value (in_variables i ! k))))
     | _ \<Rightarrow> (FSM_ERR_NULL, None))"

definition instance_get_timer :: "'c fsm_engine option \<Rightarrow> fsm_instance option \<Rightarrow> string option \<Rightarrow> fsm_status \<times> fsm_timer_state option" where
  "instance_get_timer eng inst name = (case (inst, name) of
       (Some i, Some n) \<Rightarrow>
         if \<not> engine_is_valid eng then (FSM_ERR_NULL, None)
         else (case fsm_timer_index i (Some n) of
             None \<Rightarrow> (FSM_ERR_NOT_FOUND, None)
           | Some k \<Rightarrow> (FSM_OK, Some (in_timers i ! k)))
     | _ \<Rightarrow> (FSM_ERR_NULL, None))"

end
