(* ===== verification/History.thy ===== *)
theory History
  imports Prelude
begin

text \<open>
  Histories of effects: a list whose every element is allowed by what stands before it. The two engines
  record what they do to their environment in such a list.
\<close>

definition lawful_history :: "('a list \<Rightarrow> 'a \<Rightarrow> bool) \<Rightarrow> 'a list \<Rightarrow> bool" where
  "lawful_history ok h \<longleftrightarrow> (\<forall>xs x zs. h = xs @ x # zs \<longrightarrow> ok xs x)"

lemma lawful_history_Nil [simp]: "lawful_history ok []"
  by (simp add: lawful_history_def)

lemma lawful_history_snoc: "lawful_history ok (h @ [x]) \<longleftrightarrow> lawful_history ok h \<and> ok h x"
proof
  assume l: "lawful_history ok (h @ [x])"
  have "ok xs y" if "h = xs @ y # zs" for xs y zs
  proof -
    have "h @ [x] = xs @ y # (zs @ [x])" using that by simp
    then show ?thesis using l unfolding lawful_history_def by blast
  qed
  moreover have "ok h x" using l unfolding lawful_history_def by blast
  ultimately show "lawful_history ok h \<and> ok h x"
    unfolding lawful_history_def by blast
next
  assume l: "lawful_history ok h \<and> ok h x"
  show "lawful_history ok (h @ [x])"
    unfolding lawful_history_def
  proof (intro allI impI)
    fix xs y zs
    assume e: "h @ [x] = xs @ y # zs"
    show "ok xs y"
    proof (cases zs rule: rev_cases)
      case Nil
      then show ?thesis using e l by simp
    next
      case (snoc ws w)
      then have "h = xs @ y # ws" using e by simp
      then show ?thesis using l unfolding lawful_history_def by blast
    qed
  qed
qed

lemma lawful_history_at: "lawful_history ok h \<Longrightarrow> h = xs @ x # zs \<Longrightarrow> ok xs x"
  by (simp add: lawful_history_def)

text \<open>Entries that are always allowed.\<close>

lemma lawful_history_free:
  assumes "lawful_history ok h" and "\<And>h c. ok h (f c)"
  shows "lawful_history ok (h @ List.map f cs)"
proof (induction cs rule: rev_induct)
  case (snoc c cs)
  have "lawful_history ok ((h @ List.map f cs) @ [f c])"
    using snoc assms(2) by (simp only: lawful_history_snoc)
  then show ?case by simp
qed (use assms(1) in simp)

end
