(* ===== verification/Fsm_Engine_Inv.thy ===== *)
theory Fsm_Engine_Inv
  imports Fsm_Runtime Fsm_Expression_Properties Event_Queue_Properties History
begin

text \<open>
  What every step of the state machine runtime preserves: the configuration and the identity of the
  instance, the lawfulness of the history of effects, the well-formedness of the instance and of the
  queues. \<open>act_after\<close> relates an activation to a later one, \<open>act_quiet\<close> adds that no transition was
  committed and no action accounted in between; both are reflexive and transitive, so the lemma on an
  operation follows from those on its parts.
\<close>

subsection \<open>Lawful histories\<close>

definition fsm_approved :: "fsm_effect list \<Rightarrow> fsm_governor_request \<Rightarrow> bool" where
  "fsm_approved h r \<longleftrightarrow> h \<noteq> [] \<and> last h = Effect_governor r FSM_GOVERNOR_APPROVE"

text \<open>What an effect needs of the capabilities and of the history before it.\<close>

definition effect_lawful :: "fsm_capabilities option \<Rightarrow> fsm_governor option \<Rightarrow> fsm_effect list \<Rightarrow> fsm_effect \<Rightarrow> bool" where
  "effect_lawful caps gov h x \<longleftrightarrow> (case x of
       Effect_governor r d \<Rightarrow> (\<exists>g. gov = Some g \<and> d = g h r)
     | Effect_bus_write name v st \<Rightarrow>
         (\<exists>c. caps = Some c \<and> name \<in> set (cp_signal_write c)) \<and>
         (\<exists>r. fsm_approved h r \<and> gq_kind r = FSM_GOVERNOR_SET_SIGNAL \<and> gq_signal_name r = Some name \<and> gq_value r = Some v)
     | Effect_send_message invo iface iid name can_id frame len \<Rightarrow>
         (\<exists>c cap. caps = Some c \<and> cap \<in> set (cp_interfaces c) \<and> ica_name cap = iface \<and> ica_id cap = iid \<and>
            ica_tx cap \<and> can_id \<in> set (ica_tx_ids cap)) \<and> unat len \<le> CAN_FRAME_MAX_LENGTH \<and>
         (\<exists>r. fsm_approved h r \<and> gq_kind r = FSM_GOVERNOR_SEND_MESSAGE \<and> gq_interface_name r = Some iface \<and>
            gq_interface_id r = iid \<and> gq_message_name r = Some name \<and> gq_can_id r = can_id \<and> gq_frame r = frame \<and>
            gq_frame_length r = len)
     | _ \<Rightarrow> True)"

definition history_lawful :: "fsm_capabilities option \<Rightarrow> fsm_governor option \<Rightarrow> fsm_effect list \<Rightarrow> bool" where
  "history_lawful caps gov h \<longleftrightarrow> lawful_history (effect_lawful caps gov) h"

lemma history_lawful_Nil [simp]: "history_lawful caps gov []"
  by (simp add: history_lawful_def)

lemma history_lawful_snoc:
  "history_lawful caps gov (h @ [x]) \<longleftrightarrow> history_lawful caps gov h \<and> effect_lawful caps gov h x"
  by (simp add: history_lawful_def lawful_history_snoc)

lemma history_lawful_hooks: "history_lawful caps gov h \<Longrightarrow> history_lawful caps gov (h @ List.map Effect_hook cs)"
  unfolding history_lawful_def by (erule lawful_history_free) (simp add: effect_lawful_def)

subsection \<open>Well-formed instances\<close>

fun value_kind_of :: "signal_value \<Rightarrow> value_kind" where
  "value_kind_of Value_unset = KIND_UNSET"
| "value_kind_of (Value_bool _) = KIND_BOOL"
| "value_kind_of (Value_int _) = KIND_INT"
| "value_kind_of (Value_uint _) = KIND_UINT"
| "value_kind_of (Value_real _) = KIND_REAL"

definition slot_typed :: "fsm_variable_slot \<Rightarrow> bool" where
  "slot_typed s \<longleftrightarrow> (vs_initialized s \<longrightarrow> value_kind_of (vs_value s) = vs_declared s)"

definition instance_ok :: "fsm_instance \<Rightarrow> bool" where
  "instance_ok i \<longleftrightarrow> queue_inv (in_incoming i) \<and>
     in_variable_capacity i \<le> length (in_variables i) \<and> in_timer_capacity i \<le> length (in_timers i) \<and>
     (in_has_state i \<longrightarrow> in_state_index i < length (fm_states (in_machine i))) \<and>
     in_variable_count i \<le> length (in_variables i) \<and> in_timer_count i \<le> length (in_timers i) \<and>
     in_timer_count i \<le> length (fm_timers (in_machine i)) \<and>
     (\<forall>s \<in> set (take (in_variable_count i) (in_variables i)). slot_typed s)"

definition same_instance :: "fsm_instance \<Rightarrow> fsm_instance \<Rightarrow> bool" where
  "same_instance i i' \<longleftrightarrow> in_def i' = in_def i \<and> in_machine i' = in_machine i \<and> in_index i' = in_index i \<and>
     in_id i' = in_id i \<and> in_variable_capacity i' = in_variable_capacity i \<and>
     in_variable_count i' = in_variable_count i \<and> in_timer_capacity i' = in_timer_capacity i \<and>
     in_timer_count i' = in_timer_count i \<and> in_processing i' = in_processing i \<and>
     List.map vs_declared (in_variables i') = List.map vs_declared (in_variables i) \<and>
     length (in_timers i') = length (in_timers i) \<and>
     eq_hard_fault_hooks (in_incoming i') = eq_hard_fault_hooks (in_incoming i)"

definition same_config :: "'c fsm_engine \<Rightarrow> 'c fsm_engine \<Rightarrow> bool" where
  "same_config e e' \<longleftrightarrow> en_sets e' = en_sets e \<and> en_instances e' = en_instances e \<and> en_clock e' = en_clock e \<and>
     en_now_us e' = en_now_us e \<and> en_ticks e' = en_ticks e \<and> en_owns_time_base e' = en_owns_time_base e \<and>
     en_capabilities e' = en_capabilities e \<and> en_namespace e' = en_namespace e \<and>
     en_signal_bus e' = en_signal_bus e \<and> en_bindings e' = en_bindings e \<and> en_governor e' = en_governor e \<and>
     en_sink e' = en_sink e \<and> en_trace_capacity e' = en_trace_capacity e \<and>
     en_max_chain_depth e' = en_max_chain_depth e \<and> en_max_actions_per_event e' = en_max_actions_per_event e \<and>
     en_max_events_per_activation e' = en_max_events_per_activation e \<and> en_record_events e' = en_record_events e \<and>
     en_ready e' = en_ready e \<and>
     map_option eq_hard_fault_hooks (en_global_queue e') = map_option eq_hard_fault_hooks (en_global_queue e)"

definition global_ok :: "'c fsm_engine \<Rightarrow> bool" where
  "global_ok e \<longleftrightarrow> (case en_global_queue e of None \<Rightarrow> True | Some g \<Rightarrow> queue_inv g)"

definition engine_ok :: "'c fsm_engine \<Rightarrow> bool" where
  "engine_ok e \<longleftrightarrow> history_lawful (en_capabilities e) (en_governor e) (en_effects e) \<and> global_ok e"

text \<open>The engine and the instance after some work on the instance.\<close>

definition pair_after :: "'c fsm_engine \<Rightarrow> fsm_instance \<Rightarrow> 'c fsm_engine \<Rightarrow> fsm_instance \<Rightarrow> bool" where
  "pair_after e i e' i' \<longleftrightarrow> same_config e e' \<and> same_instance i i' \<and> (engine_ok e \<longrightarrow> engine_ok e') \<and>
     (engine_ok e \<and> instance_ok i \<longrightarrow> instance_ok i')"

lemma same_config_refl [simp]: "same_config e e"
  by (simp add: same_config_def)

lemma same_config_trans: "same_config e f \<Longrightarrow> same_config f g \<Longrightarrow> same_config e g"
  by (simp add: same_config_def)

lemma same_instance_refl [simp]: "same_instance i i"
  by (simp add: same_instance_def)

lemma same_instance_trans: "same_instance i j \<Longrightarrow> same_instance j k \<Longrightarrow> same_instance i k"
  by (simp add: same_instance_def)

lemma pair_after_refl [simp]: "pair_after e i e i"
  by (simp add: pair_after_def)

lemma pair_after_trans: "pair_after e i f j \<Longrightarrow> pair_after f j g k \<Longrightarrow> pair_after e i g k"
  unfolding pair_after_def by (meson same_config_trans same_instance_trans)

definition act_after :: "'c fsm_activation \<Rightarrow> 'c fsm_activation \<Rightarrow> bool" where
  "act_after a b \<longleftrightarrow> pair_after (ac_engine a) (ac_instance a) (ac_engine b) (ac_instance b) \<and> ac_event b = ac_event a"

definition act_quiet :: "'c fsm_activation \<Rightarrow> 'c fsm_activation \<Rightarrow> bool" where
  "act_quiet a b \<longleftrightarrow> act_after a b \<and> in_state_index (ac_instance b) = in_state_index (ac_instance a) \<and>
     in_has_state (ac_instance b) = in_has_state (ac_instance a) \<and>
     ic_transitions (in_counters (ac_instance b)) = ic_transitions (in_counters (ac_instance a)) \<and>
     ic_actions_executed (in_counters (ac_instance b)) = ic_actions_executed (in_counters (ac_instance a)) \<and>
     ic_action_errors (in_counters (ac_instance b)) = ic_action_errors (in_counters (ac_instance a)) \<and>
     ac_action_budget b = ac_action_budget a \<and> (ac_suspend_requested a \<longrightarrow> ac_suspend_requested b)"

lemma act_after_refl [simp]: "act_after a a"
  by (simp add: act_after_def)

lemma act_after_trans [trans]: "act_after a b \<Longrightarrow> act_after b c \<Longrightarrow> act_after a c"
  unfolding act_after_def by (metis pair_after_trans)

lemma act_quiet_refl [simp]: "act_quiet a a"
  by (simp add: act_quiet_def)

lemma act_quiet_trans [trans]: "act_quiet a b \<Longrightarrow> act_quiet b c \<Longrightarrow> act_quiet a c"
  unfolding act_quiet_def using act_after_trans [of a b c] by simp

lemma act_quiet_after: "act_quiet a b \<Longrightarrow> act_after a b"
  by (simp add: act_quiet_def)

subsection \<open>Elementary steps\<close>

named_theorems quiet \<open>steps that commit no transition\<close>

lemma trace_after [simp]: "pair_after e i (fsm_trace e j kind code tx) i"
  by (simp add: pair_after_def fsm_trace_def Let_def same_config_def engine_ok_def global_ok_def)

lemma act_trace_quiet [quiet, simp]: "act_quiet a (act_trace kind code tx a)"
  by (simp add: act_quiet_def act_after_def act_trace_def)

text \<open>A counter that \<open>act_quiet\<close> does not watch.\<close>

definition unwatched :: "((u32 \<Rightarrow> u32) \<Rightarrow> fsm_instance_counters \<Rightarrow> fsm_instance_counters) \<Rightarrow> bool" where
  "unwatched field \<longleftrightarrow> (\<forall>f c. ic_transitions (field f c) = ic_transitions c \<and>
     ic_actions_executed (field f c) = ic_actions_executed c \<and> ic_action_errors (field f c) = ic_action_errors c)"

lemma count_in_after [simp]: "pair_after e i e (count_in field i)"
  by (simp add: pair_after_def count_in_def same_instance_def instance_ok_def)

lemma act_count_after [simp]: "act_after a (act_count field a)"
  by (simp add: act_after_def act_count_def)

lemma act_count_quiet [quiet]: "unwatched field \<Longrightarrow> act_quiet a (act_count field a)"
  unfolding act_quiet_def by (simp add: act_count_def count_in_def unwatched_def act_after_def
      pair_after_def same_instance_def instance_ok_def)

lemma act_effect_quiet [quiet]:
  assumes "effect_lawful (en_capabilities (ac_engine a)) (en_governor (ac_engine a)) (en_effects (ac_engine a)) x"
  shows "act_quiet a (act_effect x a)"
  using assms
  by (simp add: act_quiet_def act_after_def act_effect_def pair_after_def same_config_def engine_ok_def global_ok_def
      history_lawful_snoc)

text \<open>Effects that need no approval: notifications of the sink.\<close>

fun notifies :: "fsm_effect \<Rightarrow> bool" where
  "notifies (Effect_governor _ _) = False"
| "notifies (Effect_bus_write _ _ _) = False"
| "notifies (Effect_send_message _ _ _ _ _ _ _) = False"
| "notifies _ = True"

lemma notify_quiet [quiet]: "notifies x \<Longrightarrow> act_quiet a (if b then act_effect x a else a)"
  by (cases b; cases x) (simp_all add: act_effect_quiet effect_lawful_def)

lemma warn_quiet [quiet, simp]: "act_quiet a (fsm_warn tx a)"
proof -
  have "act_quiet (act_trace TRACE_WARNING 0 tx a) (fsm_warn tx a)"
    by (simp only: fsm_warn_def Let_def) (rule notify_quiet, simp)
  with act_trace_quiet show ?thesis by (rule act_quiet_trans)
qed

subsection \<open>Queues\<close>

lemma fsm_push_after:
  assumes "fsm_push h q ev = Some (st, q', h')"
  shows "queue_inv q \<Longrightarrow> queue_inv q'" and "eq_hard_fault_hooks q' = eq_hard_fault_hooks q"
    and "history_lawful caps gov h \<Longrightarrow> history_lawful caps gov h'"
proof -
  have q: "q' = push_queue (queue_push q ev)" and h: "\<exists>cs. h' = h @ List.map Effect_hook cs"
    using assms by (auto simp: fsm_push_def split: prod.splits option.splits)
  show "queue_inv q \<Longrightarrow> queue_inv q'" unfolding q by (rule queue_push_inv)
  show "eq_hard_fault_hooks q' = eq_hard_fault_hooks q" unfolding q by (rule push_hooks)
  show "history_lawful caps gov h \<Longrightarrow> history_lawful caps gov h'" using h history_lawful_hooks by blast
qed

lemma push_incoming_after:
  assumes "fsm_push (en_effects e) (in_incoming i) ev = Some (st, q, h)"
  shows "pair_after e i (e\<lparr>en_effects := h\<rparr>) (i\<lparr>in_incoming := q\<rparr>)"
  using fsm_push_after(1,2) [OF assms] fsm_push_after(3) [OF assms, of "en_capabilities e" "en_governor e"]
  by (simp add: pair_after_def same_config_def same_instance_def engine_ok_def global_ok_def instance_ok_def)

lemma unwatched_fields [simp]:
  "unwatched ic_events_queued_update" "unwatched ic_events_processed_update" "unwatched ic_events_dropped_update"
  "unwatched ic_events_suppressed_update" "unwatched ic_chain_limit_exceeded_update" "unwatched ic_deferred_ignored_update"
  "unwatched ic_initialization_errors_update" "unwatched ic_guards_evaluated_update" "unwatched ic_guards_true_update"
  "unwatched ic_guards_false_update" "unwatched ic_guard_errors_update" "unwatched ic_governor_denials_update"
  "unwatched ic_capability_denials_update" "unwatched ic_messages_sent_update" "unwatched ic_signals_set_update"
  "unwatched ic_variables_set_update" "unwatched ic_logs_emitted_update" "unwatched ic_faults_raised_update"
  "unwatched ic_timer_starts_update" "unwatched ic_timer_stops_update" "unwatched ic_timer_resets_update"
  "unwatched ic_budget_exhausted_update" "unwatched ic_deferred_transitions_update"
  by (simp_all add: unwatched_def)

lemma queue_event_quiet [quiet]: "fsm_queue_event ev a = Some b \<Longrightarrow> act_quiet a b"
proof -
  assume r: "fsm_queue_event ev a = Some b"
  then obtain st q h where p: "fsm_push (en_effects (ac_engine a)) (in_incoming (ac_instance a)) ev = Some (st, q, h)"
    and b: "b = act_count (if event_queue_status_is_ok st then ic_events_queued_update else ic_events_dropped_update)
      (a\<lparr>ac_engine := (ac_engine a)\<lparr>en_effects := h\<rparr>, ac_instance := (ac_instance a)\<lparr>in_incoming := q\<rparr>\<rparr>)"
    by (auto simp: fsm_queue_event_def Let_def bind_eq_Some_conv split: if_splits)
  have "act_quiet a (a\<lparr>ac_engine := (ac_engine a)\<lparr>en_effects := h\<rparr>, ac_instance := (ac_instance a)\<lparr>in_incoming := q\<rparr>\<rparr>)"
    using push_incoming_after [OF p] by (simp add: act_quiet_def act_after_def)
  then show ?thesis unfolding b by (rule act_quiet_trans) (simp add: act_count_quiet)
qed

lemma publish_global_after:
  assumes "fsm_publish_global ev e = Some e'"
  shows "pair_after e i e' i"
proof (cases "en_global_queue e")
  case None
  then show ?thesis using assms by (simp add: fsm_publish_global_def)
next
  case (Some g)
  show ?thesis
  proof (cases "event_queue_is_valid (Some g)")
    case False
    then show ?thesis using assms Some by (simp add: fsm_publish_global_def del: event_queue_is_valid.simps)
  next
    case True
    then obtain st q h where p: "fsm_push (en_effects e) g ev = Some (st, q, h)"
      and e': "e' = e\<lparr>en_global_queue := Some q, en_effects := h\<rparr> \<or>
        (\<exists>c. e' = e\<lparr>en_global_queue := Some q, en_effects := h, en_counters := c\<rparr>)"
      using assms Some
      by (auto simp: fsm_publish_global_def Let_def bind_eq_Some_conv simp del: event_queue_is_valid.simps split: if_splits)
    then show ?thesis
      using fsm_push_after(1,2) [OF p] fsm_push_after(3) [OF p, of "en_capabilities e" "en_governor e"] Some
      by (auto simp: pair_after_def same_config_def engine_ok_def global_ok_def)
  qed
qed

lemma publish_quiet [quiet]: "fsm_publish ev a = Some b \<Longrightarrow> act_quiet a b"
  using publish_global_after [of ev "ac_engine a" _ "ac_instance a"]
  by (auto simp: fsm_publish_def act_quiet_def act_after_def)

lemma next_event_id_quiet: "act_quiet a (a\<lparr>ac_engine := snd (fsm_next_event_id (ac_engine a))\<rparr>)"
  by (simp add: act_quiet_def act_after_def pair_after_def fsm_next_event_id_def Let_def same_config_def
      engine_ok_def global_ok_def)

lemma emit_generated_quiet [quiet]:
  assumes "fsm_emit_generated ty payload own a = Some b"
  shows "act_quiet a b"
proof -
  define a1 where "a1 = a\<lparr>ac_engine := snd (fsm_next_event_id (ac_engine a))\<rparr>"
  obtain ev a2 where p: "fsm_publish ev a1 = Some a2" and b: "(if own then fsm_queue_event ev a2 else Some a2) = Some b"
    using assms by (auto simp: fsm_emit_generated_def Let_def a1_def bind_eq_Some_conv split: prod.splits)
  have "act_quiet a a1" unfolding a1_def by (rule next_event_id_quiet)
  also have "act_quiet a1 a2" using p by (rule publish_quiet)
  also have "act_quiet a2 b" using b queue_event_quiet [of ev a2 b] by (cases own) simp_all
  finally show ?thesis .
qed

lemma emit_state_event_quiet [quiet]:
  assumes "fsm_emit_state_event ty k a = Some b"
  shows "act_quiet a b"
proof -
  define a1 where "a1 = a\<lparr>ac_engine := snd (fsm_next_event_id (ac_engine a))\<rparr>"
  obtain ev a2 where p: "fsm_publish ev a1 = Some a2" and b: "fsm_queue_event ev a2 = Some b"
    using assms by (auto simp: fsm_emit_state_event_def Let_def a1_def bind_eq_Some_conv split: prod.splits)
  have "act_quiet a a1" unfolding a1_def by (rule next_event_id_quiet)
  also have "act_quiet a1 a2" using p by (rule publish_quiet)
  also have "act_quiet a2 b" using b by (rule queue_event_quiet)
  finally show ?thesis .
qed


subsection \<open>Guards and operands\<close>

lemma clear_error_quiet [simp]: "act_quiet a (a\<lparr>ac_expression_error := x\<rparr>)"
  by (simp add: act_quiet_def act_after_def)

lemma request_suspend_quiet [simp]: "act_quiet a (a\<lparr>ac_suspend_requested := True\<rparr>)"
  by (simp add: act_quiet_def act_after_def)

lemma capability_denial_quiet:
  "act_quiet a (if b then act_count ic_capability_denials_update a else a)"
  by (simp add: act_count_quiet)

lemma guard_quiet [quiet]:
  assumes "fsm_evaluate_guard guard a = Some (st, h, b)"
  shows "act_quiet a b"
proof (cases guard)
  case None
  then show ?thesis using assms by (auto simp: fsm_evaluate_guard_def)
next
  case (Some g)
  define a1 where "a1 = act_count ic_guards_evaluated_update (a\<lparr>ac_expression_error := EXPR_OK\<rparr>)"
  have 1: "act_quiet a a1" unfolding a1_def by (rule act_quiet_trans [OF clear_error_quiet act_count_quiet]) simp
  define faulty where "faulty = (\<lambda>err.
      act_trace TRACE_GUARD_ERROR (word_of_int (expr_error_code err)) (g @ '': '' @ expr_error_name err)
        (if err = EXPR_ERR_UNAUTHORIZED
         then act_count ic_capability_denials_update ((act_count ic_guard_errors_update a1)\<lparr>ac_suspend_requested := True\<rparr>)
         else (act_count ic_guard_errors_update a1)\<lparr>ac_suspend_requested := True\<rparr>))"
  have 2: "act_quiet a1 (faulty err)" for err
    unfolding faulty_def
    by (rule act_quiet_trans [OF act_count_quiet act_quiet_trans [OF request_suspend_quiet
          act_quiet_trans [OF capability_denial_quiet act_trace_quiet]]]) simp
  define r where "r = expression_evaluate (Some g) (Some (fsm_expression_context (ac_engine a1) (ac_instance a1) (ac_event a1)))"
  have ev: "(case r of None \<Rightarrow> None | Some (Inl err) \<Rightarrow> Some (FSM_ERR_EXPRESSION, False, faulty err)
      | Some (Inr v) \<Rightarrow> (case v of
          Value_bool True \<Rightarrow> Some (FSM_OK, True, act_trace TRACE_GUARD_TRUE 0 g (act_count ic_guards_true_update a1))
        | Value_bool False \<Rightarrow> Some (FSM_OK, False, act_trace TRACE_GUARD_FALSE 0 g (act_count ic_guards_false_update a1))
        | _ \<Rightarrow> Some (FSM_ERR_EXPRESSION, False, faulty EXPR_OK))) = Some (st, h, b)"
    using assms unfolding Some fsm_evaluate_guard_def option.case Let_def a1_def [symmetric] r_def [symmetric] faulty_def .
  have 3: "act_quiet a1 (act_trace TRACE_GUARD_TRUE 0 g (act_count ic_guards_true_update a1))"
    "act_quiet a1 (act_trace TRACE_GUARD_FALSE 0 g (act_count ic_guards_false_update a1))"
    by (rule act_quiet_trans [OF act_count_quiet act_trace_quiet], simp)+
  have "act_quiet a1 b"
  proof (cases r)
    case None
    then show ?thesis using ev by simp
  next
    case (Some x)
    show ?thesis
    proof (cases x)
      case (Inl err)
      then show ?thesis using ev Some 2 by auto
    next
      case (Inr v)
      then show ?thesis using ev Some 2 3 by (cases v) (auto split: bool.splits)
    qed
  qed
  with 1 show ?thesis by (rule act_quiet_trans)
qed

lemma select_quiet:
  "fsm_select_from ts ev a = Some (r, b) \<Longrightarrow> act_quiet a b"
proof (induction ts ev a rule: fsm_select_from.induct)
  case (2 t ts ev a)
  show ?case
  proof (cases "fsm_transition_matches (ac_engine a) (ac_instance a) t ev")
    case False
    then show ?thesis using 2 by simp
  next
    case True
    then obtain st h a1 where g: "fsm_evaluate_guard (ft_guard t) a = Some (st, h, a1)"
      using 2(3) by (auto split: option.splits)
    have q: "act_quiet a a1" using g by (rule guard_quiet)
    have "act_quiet a1 b"
      using 2(3) True g 2(2) [of "(st, h, a1)" st "(h, a1)" h a1] by (auto split: if_splits)
    with q show ?thesis by (rule act_quiet_trans)
  qed
qed simp

lemma select_transition_quiet [quiet]: "fsm_select_transition ev a = Some (r, b) \<Longrightarrow> act_quiet a b"
  by (auto simp: fsm_select_transition_def dest: select_quiet split: option.splits)

lemma operand_quiet [quiet]:
  assumes "fsm_evaluate_operand operand a = Some (st, v, b)"
  shows "act_quiet a b"
proof (cases operand)
  case (Operand_literal v)
  then show ?thesis using assms by (simp add: fsm_evaluate_operand_def)
next
  case (Operand_expression x)
  define a1 where "a1 = a\<lparr>ac_expression_error := EXPR_OK\<rparr>"
  have 2: "act_quiet a1 ((if c then act_count ic_capability_denials_update (a1\<lparr>ac_expression_error := err\<rparr>)
      else a1\<lparr>ac_expression_error := err\<rparr>)\<lparr>ac_suspend_requested := True\<rparr>)" for c err
    by (rule act_quiet_trans [OF clear_error_quiet act_quiet_trans [OF capability_denial_quiet request_suspend_quiet]])
  have "act_quiet a1 b"
    using assms Operand_expression 2
    by (auto simp: fsm_evaluate_operand_def Let_def a1_def [symmetric] split: option.splits sum.splits)
  then show ?thesis using clear_error_quiet [of a EXPR_OK] act_quiet_trans unfolding a1_def by blast
qed

lemma coerce_typed: "fsm_coerce_to_declared k v = Some w \<Longrightarrow> value_kind_of w = k"
  by (cases "(k, v)" rule: fsm_coerce_to_declared.cases) auto

lemma first_index_some: "fsm_first_index P xs = Some k \<Longrightarrow> k < length xs \<and> P (xs ! k)"
  by (induction xs arbitrary: k) (auto split: if_splits)

lemma variable_index_some:
  assumes "fsm_variable_index i name = Some k"
  shows "k < in_variable_count i" and "k < length (in_variables i)" and "vs_name (in_variables i ! k) = name"
  using first_index_some assms unfolding fsm_variable_index_def by fastforce+

lemma timer_index_some:
  assumes "fsm_timer_index i name = Some k"
  shows "k < in_timer_count i" and "k < length (in_timers i)" and "Some (ts_name (in_timers i ! k)) = name"
  using first_index_some assms unfolding fsm_timer_index_def by fastforce+

text \<open>Storing a value of the declared kind in a slot.\<close>

lemma store_variable_after:
  assumes "value_kind_of w = vs_declared (in_variables i ! k)"
  shows "pair_after e i e (i\<lparr>in_variables := (in_variables i)[k := (in_variables i ! k)\<lparr>vs_value := w, vs_initialized := True\<rparr>]\<rparr>)"
proof -
  let ?s = "(in_variables i ! k)\<lparr>vs_value := w, vs_initialized := True\<rparr>"
  have "slot_typed ?s" using assms by (simp add: slot_typed_def)
  then have "\<forall>s \<in> set (take n (in_variables i)). slot_typed s \<Longrightarrow> \<forall>s \<in> set (take n ((in_variables i)[k := ?s])). slot_typed s" for n
    using set_update_subset_insert [of "take n (in_variables i)" k ?s] by (auto simp: take_update_swap)
  moreover have "List.map vs_declared ((in_variables i)[k := ?s]) = List.map vs_declared (in_variables i)"
    by (cases "k < length (in_variables i)") (simp_all add: map_update list_update_same_conv list_update_beyond)
  ultimately show ?thesis
    by (auto simp: pair_after_def same_instance_def instance_ok_def)
qed


subsection \<open>Actions\<close>

lemma governor_quiet:
  assumes "fsm_governor_approves r a = (okay, b)"
  shows "act_quiet a b" and "okay \<Longrightarrow> fsm_approved (en_effects (ac_engine b)) r"
proof -
  have "act_quiet a b \<and> (okay \<longrightarrow> fsm_approved (en_effects (ac_engine b)) r)"
  proof (cases "en_governor (ac_engine a)")
    case None
    then show ?thesis using assms by (auto simp: fsm_governor_approves_def act_count_quiet)
  next
    case (Some g)
    let ?d = "g (en_effects (ac_engine a)) r"
    have q: "act_quiet a (act_effect (Effect_governor r ?d) a)"
      by (rule act_effect_quiet) (simp add: effect_lawful_def Some)
    have c: "act_quiet a (act_count ic_governor_denials_update (act_effect (Effect_governor r ?d) a))"
      using q by (rule act_quiet_trans) (simp add: act_count_quiet)
    have h: "?d = FSM_GOVERNOR_APPROVE \<Longrightarrow> fsm_approved (en_effects (ac_engine (act_effect (Effect_governor r ?d) a))) r"
      by (simp add: fsm_approved_def act_effect_def)
    show ?thesis using assms q c h by (auto simp: fsm_governor_approves_def Some Let_def split: if_splits)
  qed
  then show "act_quiet a b" and "okay \<Longrightarrow> fsm_approved (en_effects (ac_engine b)) r" by blast+
qed

lemma quiet_config:
  assumes "act_quiet a b"
  shows "en_capabilities (ac_engine b) = en_capabilities (ac_engine a)" and "en_governor (ac_engine b) = en_governor (ac_engine a)"
    and "in_variable_count (ac_instance b) = in_variable_count (ac_instance a)"
    and "length (in_variables (ac_instance b)) = length (in_variables (ac_instance a))"
    and "List.map vs_declared (in_variables (ac_instance b)) = List.map vs_declared (in_variables (ac_instance a))"
proof -
  have c: "same_config (ac_engine a) (ac_engine b)" and i: "same_instance (ac_instance a) (ac_instance b)"
    using assms by (simp_all add: act_quiet_def act_after_def pair_after_def)
  show "en_capabilities (ac_engine b) = en_capabilities (ac_engine a)" and "en_governor (ac_engine b) = en_governor (ac_engine a)"
    using c by (simp_all add: same_config_def)
  show d: "List.map vs_declared (in_variables (ac_instance b)) = List.map vs_declared (in_variables (ac_instance a))"
    and "in_variable_count (ac_instance b) = in_variable_count (ac_instance a)"
    using i by (simp_all add: same_instance_def)
  show "length (in_variables (ac_instance b)) = length (in_variables (ac_instance a))"
    using arg_cong [OF d, of length] by simp
qed

lemma deny_quiet [quiet]: "fsm_deny a = (st, b) \<Longrightarrow> act_quiet a b"
  by (auto simp: fsm_deny_def act_count_quiet)

lemma deliver_quiet:
  assumes "fsm_deliver_message cap name msg frame invo a = (st, b)"
    and "en_capabilities (ac_engine a) = Some c" and "cap \<in> set (cp_interfaces c)" and "ica_tx cap"
    and "cm_id msg \<in> set (ica_tx_ids cap)" and "unat (cm_dlc msg) \<le> CAN_FRAME_MAX_LENGTH"
  shows "act_quiet a b"
proof -
  define r where "r = (fsm_request FSM_GOVERNOR_SEND_MESSAGE a)\<lparr>gq_interface_name := Some (ica_name cap),
         gq_interface_id := ica_id cap, gq_message_name := Some name, gq_can_id := cm_id msg, gq_frame := frame,
         gq_frame_length := cm_dlc msg\<rparr>"
  obtain okay a1 where g: "fsm_governor_approves r a = (okay, a1)" by fastforce
  note q = governor_quiet [OF g]
  let ?x = "Effect_send_message invo (ica_name cap) (ica_id cap) name (cm_id msg) frame (cm_dlc msg)"
  have "effect_lawful (en_capabilities (ac_engine a1)) (en_governor (ac_engine a1)) (en_effects (ac_engine a1)) ?x" if okay
    using q(2) [OF that] assms(2-6) quiet_config(1) [OF q(1)]
    by (auto simp: effect_lawful_def r_def fsm_request_def)
  then have "act_quiet a1 (act_count ic_messages_sent_update (act_effect ?x a1))" if okay
    using that by (intro act_quiet_trans [OF act_effect_quiet act_count_quiet]) simp_all
  then have "act_quiet a1 b"
    using assms(1) g by (auto simp: fsm_deliver_message_def r_def [symmetric] split: if_splits)
  with q(1) show ?thesis by (rule act_quiet_trans)
qed

lemma encode_values_quiet:
  "fsm_encode_values mp specs frame span a = Some (st, frame', span', b) \<Longrightarrow> act_quiet a b"
proof (induction mp specs frame span a rule: fsm_encode_values.induct)
  case (2 mp name operand specs frame span a)
  show ?case
  proof (cases "map_find_signal mp name")
    case None
    then show ?thesis using 2(2) by simp
  next
    case (Some jk)
    obtain j k where jk: "jk = (j, k)" by (cases jk)
    obtain ost v a1 where o: "fsm_evaluate_operand operand a = Some (ost, v, a1)"
      using 2(2) Some jk by (auto simp: Let_def split: option.splits)
    have q: "act_quiet a a1" using o by (rule operand_quiet)
    have "act_quiet a1 b"
    proof (cases "ost = FSM_OK")
      case False
      then show ?thesis using 2(2) Some jk o by (simp add: Let_def)
    next
      case True
      let ?sg = "cm_signals (cmap_messages mp ! j) ! k"
      show ?thesis
      proof (cases "fsm_encoding_value ?sg v")
        case None
        then show ?thesis using 2(2) Some jk o True by (simp add: Let_def)
      next
        case enc: (Some ev)
        obtain cst fr w where c: "codec_encode_signal (Some ?sg) (Some ev) (Some frame) None = (cst, fr, w)"
          by (cases "codec_encode_signal (Some ?sg) (Some ev) (Some frame) None") auto
        show ?thesis
        proof (cases "codec_status_value cst < 0")
          case True
          then show ?thesis using 2(2) Some jk o \<open>ost = FSM_OK\<close> enc c by (simp add: Let_def)
        next
          case neg: False
          have "fsm_encode_values mp specs (the fr) (max span (unat (cs_last_bit ?sg) div 8 + 1)) a1 = Some (st, frame', span', b)"
            using 2(2) neg Some jk o True enc c by (simp add: Let_def)
          then show ?thesis
            using 2(1) [OF Some] jk o enc c True neg by simp
        qed
      qed
    qed
    with q show ?thesis by (rule act_quiet_trans)
  qed
qed simp

lemma find_member: "find P xs = Some x \<Longrightarrow> x \<in> set xs"
  by (induction xs) (auto split: if_splits)

lemma resolve_interface_declared:
  assumes "fsm_resolve_interface e i name = Some cap"
  shows "\<exists>c. en_capabilities e = Some c \<and> cap \<in> set (cp_interfaces c)"
proof -
  have "fsm_capability_interface e n = Some cap \<Longrightarrow> \<exists>c. en_capabilities e = Some c \<and> cap \<in> set (cp_interfaces c)" for n
    by (auto simp: fsm_capability_interface_def dest: find_member split: option.splits)
  then show ?thesis using assms by (auto simp: fsm_resolve_interface_def split: option.splits)
qed

lemma send_message_quiet [quiet]:
  assumes "fsm_action_send_message iface name specs invo a = Some (st, b)"
  shows "act_quiet a b"
proof (cases "fsm_resolve_interface (ac_engine a) (ac_instance a) iface")
  case None
  then show ?thesis using assms
    by (cases "en_capabilities (ac_engine a)") (auto simp: fsm_action_send_message_def intro: deny_quiet)
next
  case (Some cap)
  then obtain c where c: "en_capabilities (ac_engine a) = Some c" "cap \<in> set (cp_interfaces c)"
    using resolve_interface_declared by blast
  obtain mst found where m: "fsm_resolve_message (ac_engine a) (Some name) = (mst, found)" by fastforce
  define mp where "mp = fst (the found)"
  define msg where "msg = snd (the found)"
  consider "\<not> ica_tx cap" | "ica_tx cap" "mst \<noteq> FSM_OK" | "ica_tx cap" "mst = FSM_OK" "unat (cm_dlc msg) > CAN_FRAME_MAX_LENGTH"
    | "ica_tx cap" "mst = FSM_OK" "unat (cm_dlc msg) \<le> CAN_FRAME_MAX_LENGTH" "\<not> fsm_in_id_list (ica_tx_ids cap) (cm_id msg)"
    | "ica_tx cap" "mst = FSM_OK" "unat (cm_dlc msg) \<le> CAN_FRAME_MAX_LENGTH" "fsm_in_id_list (ica_tx_ids cap) (cm_id msg)"
    by linarith
  then show ?thesis
  proof cases
    case 5
    have u: "(case fsm_encode_values mp specs (replicate CAN_FRAME_MAX_LENGTH 0) 0 a of None \<Rightarrow> None
       | Some (st, frame, span, a1) \<Rightarrow> if st \<noteq> FSM_OK then Some (st, a1) else if span > unat (cm_dlc msg) then Some (FSM_ERR_ENCODING, a1)
           else Some (fsm_deliver_message cap name msg frame invo a1)) = Some (st, b)"
      using assms c Some m 5 unfolding mp_def msg_def by (simp add: fsm_action_send_message_def Let_def)
    then obtain est frame span a1 where e: "fsm_encode_values mp specs (replicate CAN_FRAME_MAX_LENGTH 0) 0 a = Some (est, frame, span, a1)"
      by (cases "fsm_encode_values mp specs (replicate CAN_FRAME_MAX_LENGTH 0) 0 a") auto
    have r: "(if est \<noteq> FSM_OK then Some (est, a1) else if span > unat (cm_dlc msg) then Some (FSM_ERR_ENCODING, a1)
        else Some (fsm_deliver_message cap name msg frame invo a1)) = Some (st, b)"
      using u e by simp
    have q: "act_quiet a a1" using e by (rule encode_values_quiet)
    have id: "cm_id msg \<in> set (ica_tx_ids cap)" using 5(4) by (auto simp: fsm_in_id_list_def list_ex_iff)
    have "act_quiet a1 b"
      using r deliver_quiet [of cap name msg frame invo a1 st b c] c 5 id quiet_config(1) [OF q] by (auto split: if_splits)
    with q show ?thesis by (rule act_quiet_trans)
  qed (use assms c Some m in \<open>auto simp: fsm_action_send_message_def Let_def mp_def [symmetric] msg_def [symmetric] intro: deny_quiet\<close>)
qed


lemma signal_written_quiet:
  assumes "fsm_signal_written name sid had old v invo a = Some (st, b)"
  shows "act_quiet a b"
proof -
  define a1 where "a1 = act_count ic_signals_set_update a"
  define a2 where "a2 = (if has_sink sk_signal_write (ac_engine a1)
      then act_effect (Effect_signal_write invo name sid (if had then old else Value_unset) v) a1 else a1)"
  have 1: "act_quiet a a1" unfolding a1_def by (rule act_count_quiet) simp
  have 2: "act_quiet a1 a2" unfolding a2_def by (rule notify_quiet) simp
  have "act_quiet a2 b"
    using assms emit_generated_quiet
    by (auto simp: fsm_signal_written_def Let_def a1_def [symmetric] a2_def [symmetric] split: if_splits)
  with act_quiet_trans [OF 1 2] show ?thesis by (rule act_quiet_trans)
qed

lemma set_signal_quiet [quiet]:
  assumes "fsm_action_set_signal name operand invo a = Some (st, b)"
  shows "act_quiet a b"
proof (cases "fsm_in_name_list (case en_capabilities (ac_engine a) of None \<Rightarrow> [] | Some c \<Rightarrow> cp_signal_write c) (Some name)")
  case False
  then show ?thesis using assms by (auto simp: fsm_action_set_signal_def intro: deny_quiet)
next
  case True
  then obtain c where c: "en_capabilities (ac_engine a) = Some c" "name \<in> set (cp_signal_write c)"
    by (cases "en_capabilities (ac_engine a)") (auto simp: fsm_in_name_list_def list_ex_iff)
  obtain ost v a1 where o: "fsm_evaluate_operand operand a = Some (ost, v, a1)"
    using assms True by (auto simp: fsm_action_set_signal_def split: option.splits)
  have q: "act_quiet a a1" using o by (rule operand_quiet)
  show ?thesis
  proof (cases "\<exists>bus wr. ost = FSM_OK \<and> en_signal_bus (ac_engine a1) = Some bus \<and> bus_write bus = Some wr")
    case False
    then have "a1 = b" using assms True o by (auto simp: fsm_action_set_signal_def split: option.splits if_splits)
    then show ?thesis using q by simp
  next
    case w: True
    then obtain bus wr where w: "ost = FSM_OK" "en_signal_bus (ac_engine a1) = Some bus" "bus_write bus = Some wr" by blast
    obtain r old sid okay a2 where r: "r = (fsm_request FSM_GOVERNOR_SET_SIGNAL a1)\<lparr>gq_signal_name := Some name,
          gq_signal_id := sid, gq_value := Some v\<rparr>"
      and g: "fsm_governor_approves r a1 = (okay, a2)"
      and d: "(if \<not> okay then Some (FSM_ERR_DENIED, a2)
         else let wst = wr (en_effects (ac_engine a2)) name v; a3 = act_effect (Effect_bus_write name v wst) a2
           in if wst \<noteq> FSM_OK then Some (wst, a3)
              else fsm_signal_written name sid (old \<noteq> None) (case old of None \<Rightarrow> Value_unset | Some w \<Rightarrow> w) v invo a3) = Some (st, b)"
      using assms True o w unfolding fsm_action_set_signal_def Let_def by (auto split: prod.splits)
    note gq = governor_quiet [OF g]
    define x where "x = Effect_bus_write name v (wr (en_effects (ac_engine a2)) name v)"
    have "effect_lawful (en_capabilities (ac_engine a2)) (en_governor (ac_engine a2)) (en_effects (ac_engine a2)) x" if okay
      using gq(2) [OF that] c quiet_config(1) [OF q] quiet_config(1) [OF gq(1)]
      by (auto simp: effect_lawful_def x_def r fsm_request_def)
    then have 3: "act_quiet a2 (act_effect x a2)" if okay
      using that by (intro act_effect_quiet) simp
    have "act_quiet a2 b"
    proof (cases okay)
      case False
      then show ?thesis using d by simp
    next
      case True
      have "act_quiet (act_effect x a2) b"
        using d True signal_written_quiet by (auto simp: Let_def x_def split: if_splits)
      with 3 [OF True] show ?thesis by (rule act_quiet_trans)
    qed
    with act_quiet_trans [OF q gq(1)] show ?thesis by (rule act_quiet_trans)
  qed
qed

lemma map_nth_eq: "List.map f xs = List.map f ys \<Longrightarrow> k < length xs \<Longrightarrow> f (xs ! k) = f (ys ! k)"
  by (metis length_map nth_map)

lemma set_variable_quiet [quiet]:
  assumes "fsm_action_set_variable name operand a = Some (st, b)"
  shows "act_quiet a b"
proof (cases "fsm_variable_index (ac_instance a) name")
  case None
  then show ?thesis using assms by (simp add: fsm_action_set_variable_def)
next
  case (Some k)
  then obtain ost v a1 where o: "fsm_evaluate_operand operand a = Some (ost, v, a1)"
    using assms by (auto simp: fsm_action_set_variable_def split: option.splits)
  have q: "act_quiet a a1" using o by (rule operand_quiet)
  have "act_quiet a1 b"
  proof (cases "ost = FSM_OK \<and> (\<exists>w. fsm_coerce_to_declared (vs_declared (in_variables (ac_instance a1) ! k)) v = Some w)")
    case False
    then show ?thesis using assms Some o by (auto simp: fsm_action_set_variable_def split: option.splits if_splits)
  next
    case True
    then obtain w where w: "fsm_coerce_to_declared (vs_declared (in_variables (ac_instance a1) ! k)) v = Some w" by blast
    let ?i = "ac_instance a1"
    let ?a2 = "a1\<lparr>ac_instance := ?i\<lparr>in_variables := (in_variables ?i)[k := (in_variables ?i ! k)\<lparr>vs_value := w, vs_initialized := True\<rparr>]\<rparr>\<rparr>"
    have b: "b = act_count ic_variables_set_update ?a2"
      using assms Some o True w by (simp add: fsm_action_set_variable_def Let_def)
    have "act_quiet a1 ?a2"
      using store_variable_after [OF coerce_typed [OF w]] by (simp add: act_quiet_def act_after_def)
    then show ?thesis unfolding b by (rule act_quiet_trans) (simp add: act_count_quiet)
  qed
  with q show ?thesis by (rule act_quiet_trans)
qed

lemma timers_after: "length ts = length (in_timers i) \<Longrightarrow> pair_after e i e (i\<lparr>in_timers := ts\<rparr>)"
  by (simp add: pair_after_def same_instance_def instance_ok_def)

lemma action_timer_quiet:
  assumes "fsm_action_timer name action invo a = (st, b)"
  shows "act_quiet a b"
proof (cases "fsm_timer_index (ac_instance a) (Some name)")
  case None
  then show ?thesis using assms by (simp add: fsm_action_timer_def)
next
  case (Some k)
  let ?i = "ac_instance a"
  define slot where "slot = fsm_timer_change action (en_now_us (ac_engine a)) (fm_timers (in_machine ?i) ! k) (in_timers ?i ! k)"
  define field :: "(u32 \<Rightarrow> u32) \<Rightarrow> fsm_instance_counters \<Rightarrow> fsm_instance_counters"
    where "field = (case action of Action_start_timer _ _ _ \<Rightarrow> ic_timer_starts_update
      | Action_stop_timer _ \<Rightarrow> ic_timer_stops_update | _ \<Rightarrow> ic_timer_resets_update)"
  define a0 where "a0 = a\<lparr>ac_instance := ?i\<lparr>in_timers := (in_timers ?i)[k := slot]\<rparr>\<rparr>"
  have u: "unwatched field" unfolding field_def by (cases action) simp_all
  have 0: "act_quiet a a0" unfolding a0_def using timers_after [of "(in_timers ?i)[k := slot]" ?i]
    by (simp add: act_quiet_def act_after_def)
  have "(FSM_OK, if has_sink sk_timer (ac_engine (act_count field a0))
      then act_effect (Effect_timer invo (fsm_action_kind_code action) name (ts_duration_ms slot) (ts_repeat slot)) (act_count field a0)
      else act_count field a0) = (st, b)"
    using assms unfolding fsm_action_timer_def Some option.case Let_def slot_def field_def a0_def .
  then have b: "b = (if has_sink sk_timer (ac_engine (act_count field a0))
      then act_effect (Effect_timer invo (fsm_action_kind_code action) name (ts_duration_ms slot) (ts_repeat slot)) (act_count field a0)
      else act_count field a0)"
    by (elim Pair_inject) (rule sym)
  have "act_quiet (act_count field a0) b" unfolding b by (rule notify_quiet) simp
  then show ?thesis by (rule act_quiet_trans [OF act_quiet_trans [OF 0 act_count_quiet [OF u]]])
qed

lemma stop_timers_fields:
  "length (in_timers (fsm_stop_timers i)) = length (in_timers i)"
  by (simp add: fsm_stop_timers_def)

lemma lifecycle_after [simp]:
  "pair_after e i (fsm_lifecycle_trace e j tx) (i\<lparr>in_lifecycle := l, in_deferred_pending := d\<rparr>)"
  by (simp add: pair_after_def fsm_lifecycle_trace_def fsm_trace_def Let_def same_config_def engine_ok_def global_ok_def
      same_instance_def instance_ok_def)

lemma suspend_after: "fsm_suspend e i = (st, e', i') \<Longrightarrow> pair_after e i e' i'"
  by (auto simp: fsm_suspend_def Let_def split: if_splits)

lemma stop_timers_after: "pair_after e i e (fsm_stop_timers i)"
  unfolding fsm_stop_timers_def by (rule timers_after) simp

lemma fault_after:
  assumes "fsm_fault e i = (st, e', i')"
  shows "pair_after e i e' i'" and "in_state_index i' = in_state_index i" and "in_has_state i' = in_has_state i"
    and "in_counters i' = in_counters i"
proof -
  have "pair_after e i (fsm_lifecycle_trace e (fsm_stop_timers (i\<lparr>in_lifecycle := LIFECYCLE_FAULT, in_deferred_pending := False\<rparr>)) tx)
      (fsm_stop_timers (i\<lparr>in_lifecycle := LIFECYCLE_FAULT, in_deferred_pending := False\<rparr>))" for tx
    using lifecycle_after stop_timers_after by (rule pair_after_trans)
  then show "pair_after e i e' i'" using assms by (auto simp: fsm_fault_def Let_def split: if_splits)
  show "in_state_index i' = in_state_index i" and "in_has_state i' = in_has_state i" and "in_counters i' = in_counters i"
    using assms by (auto simp: fsm_fault_def fsm_stop_timers_def Let_def split: if_splits)
qed

lemma raise_fault_quiet [quiet]:
  assumes "fsm_action_raise_fault code severity action a = Some (st, b)"
  shows "act_quiet a b"
proof -
  define num where "num = fsm_fault_code_hash (Some code)"
  define a1 where "a1 = act_count ic_faults_raised_update a"
  obtain a2 where e: "fsm_emit_generated EVENT_TYPE_FAULT_RAISED
       (Payload_fault \<lparr>fr_fault_code = num, fr_severity = severity, fr_source_id = in_id (ac_instance a1)\<rparr>)
       (sb_faults (fd_subscriptions (in_def (ac_instance a1))) = Some True) a1 = Some a2"
    using assms by (auto simp: fsm_action_raise_fault_def num_def a1_def Let_def split: bind_splits)
  define a3 where "a3 = act_trace TRACE_FAULT num (code @ ''/'' @ fsm_severity_name severity) a2"
  define a4 where "a4 = (if has_sink sk_fault (ac_engine a3)
       then act_effect (Effect_fault (fsm_invocation_fill a3 (Some action) None None 0) code severity num) a3 else a3)"
  have b: "b = (if severity = FAULT_SEVERITY_CRITICAL
       then (case fsm_fault (ac_engine a4) (ac_instance a4) of (_, e, i) \<Rightarrow> a4\<lparr>ac_engine := e, ac_instance := i\<rparr>) else a4)"
    using assms e by (auto simp: fsm_action_raise_fault_def num_def a1_def a3_def a4_def Let_def)
  have 1: "act_quiet a a1" unfolding a1_def by (rule act_count_quiet) simp
  have 2: "act_quiet a1 a2" using e by (rule emit_generated_quiet)
  have 3: "act_quiet a2 a3" unfolding a3_def by (rule act_trace_quiet)
  have 4: "act_quiet a3 a4" unfolding a4_def by (rule notify_quiet) simp
  have "act_quiet a4 b"
  proof (cases "fsm_fault (ac_engine a4) (ac_instance a4)")
    case (fields fst e' i')
    then show ?thesis unfolding b using fault_after [OF fields] by (simp add: act_quiet_def act_after_def)
  qed
  with act_quiet_trans [OF act_quiet_trans [OF 1 2] act_quiet_trans [OF 3 4]] show ?thesis by (rule act_quiet_trans)
qed

lemma deferred_quiet: "act_quiet a (a\<lparr>ac_instance := (ac_instance a)\<lparr>in_deferred_pending := d, in_deferred_target := t\<rparr>\<rparr>)"
  "act_quiet a (a\<lparr>ac_instance := (ac_instance a)\<lparr>in_deferred_pending := d\<rparr>\<rparr>)"
  by (simp_all add: act_quiet_def act_after_def pair_after_def same_instance_def instance_ok_def)

lemma action_transition_quiet: "fsm_action_transition target a = (st, b) \<Longrightarrow> act_quiet a b"
  using deferred_quiet(1) [of a target True]
    act_quiet_trans [OF act_count_quiet [of ic_deferred_ignored_update a] warn_quiet]
  by (cases "in_deferred_pending (ac_instance a)") (auto simp: fsm_action_transition_def simp del: act_count_after)

lemma action_log_quiet:
  assumes "fsm_action_log level message invo a = (st, b)"
  shows "act_quiet a b"
proof -
  define a1 where "a1 = act_trace TRACE_ACTION (word_of_int (fsm_log_level_code level))
      (''log/'' @ fsm_log_level_name level @ '': '' @ message) (act_count ic_logs_emitted_update a)"
  have 1: "act_quiet a a1" unfolding a1_def by (rule act_quiet_trans [OF act_count_quiet act_trace_quiet]) simp
  have b: "b = (if has_sink sk_log (ac_engine a1) then act_effect (Effect_log invo level message) a1 else a1)"
    using assms unfolding fsm_action_log_def Let_def a1_def by simp
  have "act_quiet a1 b" unfolding b by (rule notify_quiet) simp
  with 1 show ?thesis by (rule act_quiet_trans)
qed

lemma perform_quiet [quiet]: "fsm_perform x invo a = Some (st, b) \<Longrightarrow> act_quiet a b"
  by (cases x) (simp_all add: quiet action_timer_quiet action_transition_quiet action_log_quiet)


subsection \<open>Runs of actions and transitions\<close>

text \<open>
  Every action taken from the budget is accounted as executed or failed: \<open>spent\<close> is constant. \<open>act_step k\<close>
  bounds the number of transitions committed in between by \<open>k\<close>.
\<close>

definition spent :: "'c fsm_activation \<Rightarrow> u32" where
  "spent a = ic_actions_executed (in_counters (ac_instance a)) + ic_action_errors (in_counters (ac_instance a)) + ucast (ac_action_budget a)"

definition act_step :: "nat \<Rightarrow> 'c fsm_activation \<Rightarrow> 'c fsm_activation \<Rightarrow> bool" where
  "act_step k a b \<longleftrightarrow> act_after a b \<and> spent b = spent a \<and> ac_action_budget b \<le> ac_action_budget a \<and>
     (\<exists>n \<le> k. ic_transitions (in_counters (ac_instance b)) = ic_transitions (in_counters (ac_instance a)) + of_nat n) \<and>
     (ac_suspend_requested a \<longrightarrow> ac_suspend_requested b)"

definition same_state :: "fsm_instance \<Rightarrow> fsm_instance \<Rightarrow> bool" where
  "same_state i j \<longleftrightarrow> in_state_index j = in_state_index i \<and> in_has_state j = in_has_state i \<and>
     ic_transitions (in_counters j) = ic_transitions (in_counters i)"

lemma same_state_refl [simp]: "same_state i i"
  by (simp add: same_state_def)

lemma same_state_trans: "same_state i j \<Longrightarrow> same_state j k \<Longrightarrow> same_state i k"
  by (simp add: same_state_def)

lemma act_step_refl [simp]: "act_step k a a"
  by (auto simp: act_step_def intro: exI [of _ 0])

lemma act_step_trans: "act_step j a b \<Longrightarrow> act_step k b c \<Longrightarrow> act_step (j + k) a c"
proof -
  assume 1: "act_step j a b" and 2: "act_step k b c"
  obtain m n where m: "m \<le> j" "ic_transitions (in_counters (ac_instance b)) = ic_transitions (in_counters (ac_instance a)) + of_nat m"
    and n: "n \<le> k" "ic_transitions (in_counters (ac_instance c)) = ic_transitions (in_counters (ac_instance b)) + of_nat n"
    using 1 2 unfolding act_step_def by blast
  have "m + n \<le> j + k \<and> ic_transitions (in_counters (ac_instance c)) = ic_transitions (in_counters (ac_instance a)) + of_nat (m + n)"
    using m n by (simp add: add.assoc)
  then have t: "\<exists>n \<le> j + k. ic_transitions (in_counters (ac_instance c)) = ic_transitions (in_counters (ac_instance a)) + of_nat n"
    by blast
  have "act_after a c" using 1 2 act_after_trans [of a b c] by (simp add: act_step_def)
  then show "act_step (j + k) a c" using 1 2 t by (auto simp: act_step_def)
qed

lemma act_step_mono: "act_step j a b \<Longrightarrow> j \<le> k \<Longrightarrow> act_step k a b"
  using act_step_trans [of j a b "k - j" b] by simp

lemma quiet_step [simp]: "act_quiet a b \<Longrightarrow> act_step 0 a b" "act_quiet a b \<Longrightarrow> same_state (ac_instance a) (ac_instance b)"
  by (simp_all add: act_quiet_def act_step_def spent_def same_state_def)

lemma step_after: "act_step k a b \<Longrightarrow> act_after a b"
  by (simp add: act_step_def)

lemma spent_step:
  assumes "ac_action_budget a \<noteq> 0" and "field \<in> {ic_actions_executed_update, ic_action_errors_update}"
    and "act_quiet (a\<lparr>ac_action_budget := ac_action_budget a - 1\<rparr>) b"
  shows "act_step 0 a (act_count field b)" and "same_state (ac_instance a) (ac_instance (act_count field b))"
proof -
  let ?a = "a\<lparr>ac_action_budget := ac_action_budget a - 1\<rparr>"
  have p: "unat (ac_action_budget a) > 0" using assms(1) by (simp add: unat_gt_0)
  have "unat (ac_action_budget a - 1) = unat (ac_action_budget a) - unat (1 :: u16)"
    using p by (intro unat_sub) (simp add: word_le_nat_alt)
  then have e: "unat (ac_action_budget a - 1) = unat (ac_action_budget a) - 1" by simp
  have up: "unat (ucast x :: u32) = unat x" for x :: u16
    using unat_u16_lt [of x] by (simp add: unsigned_ucast_eq take_bit_nat_eq_self)
  have "unat (ucast (ac_action_budget a - 1) + 1 :: u32) = unat (ucast (ac_action_budget a) :: u32)"
    using e p unat_u16_lt [of "ac_action_budget a"] by (simp add: unat_word_ariths up)
  then have u: "ucast (ac_action_budget a - 1) + 1 = (ucast (ac_action_budget a) :: u32)"
    by (rule word_unat_eq_iff [THEN iffD2])
  have s: "spent ?a + 1 = spent a" using u by (simp add: spent_def add.assoc)
  have l: "ac_action_budget a - 1 \<le> ac_action_budget a" using e by (simp add: word_le_nat_alt)
  have b: "act_step 0 ?a b" "same_state (ac_instance ?a) (ac_instance b)" using quiet_step [OF assms(3)] by blast+
  have "spent (act_count field b) = spent b + 1"
    using assms(2) by (auto simp: spent_def act_count_def count_in_def)
  moreover have "act_after a ?a" by (simp add: act_after_def)
  moreover have "act_after ?a (act_count field b)"
    using act_after_trans [OF step_after [OF b(1)] act_count_after] .
  moreover have "ic_transitions (in_counters (ac_instance (act_count field b))) = ic_transitions (in_counters (ac_instance b))"
    using assms(2) by (auto simp: act_count_def count_in_def)
  moreover have "ac_action_budget (act_count field b) = ac_action_budget b" "ac_suspend_requested (act_count field b) = ac_suspend_requested b"
    by (simp_all add: act_count_def)
  ultimately show "act_step 0 a (act_count field b)"
    using b(1) s l act_after_trans [of a ?a] by (auto simp: act_step_def)
  show "same_state (ac_instance a) (ac_instance (act_count field b))"
    using b(2) assms(2) by (auto simp: same_state_def act_count_def count_in_def)
qed

lemma trace_if_quiet: "act_quiet a c \<Longrightarrow> act_quiet a (if p then act_trace k n tx c else c)"
  using act_quiet_trans [OF _ act_trace_quiet] by auto

lemma outcome_quiet:
  "act_quiet (act_count (if st = FSM_OK then ic_actions_executed_update else ic_action_errors_update) a) (fsm_action_outcome x st a)"
proof (cases "st = FSM_OK")
  case True
  then show ?thesis by (simp add: fsm_action_outcome_def)
next
  case False
  show ?thesis
    unfolding fsm_action_outcome_def Let_def if_not_P [OF False]
    by (rule trace_if_quiet, rule trace_if_quiet, rule act_trace_quiet)
qed

lemma action_step:
  assumes "ac_action_budget a \<noteq> 0" and "fsm_perform x invo (a\<lparr>ac_action_budget := ac_action_budget a - 1\<rparr>) = Some (st, b)"
  shows "act_step 0 a (fsm_action_outcome x st b)" and "same_state (ac_instance a) (ac_instance (fsm_action_outcome x st b))"
proof -
  define field where "field = (if st = FSM_OK then ic_actions_executed_update :: (u32 \<Rightarrow> u32) \<Rightarrow> fsm_instance_counters \<Rightarrow> _ else ic_action_errors_update)"
  have f: "field \<in> {ic_actions_executed_update, ic_action_errors_update}" by (simp add: field_def)
  have q: "act_quiet (act_count field b) (fsm_action_outcome x st b)" unfolding field_def by (rule outcome_quiet)
  note s = spent_step [OF assms(1) f perform_quiet [OF assms(2)]]
  show "act_step 0 a (fsm_action_outcome x st b)" using act_step_trans [OF s(1) quiet_step(1) [OF q]] by simp
  show "same_state (ac_instance a) (ac_instance (fsm_action_outcome x st b))"
    using same_state_trans [OF s(2) quiet_step(2) [OF q]] .
qed

lemma run_actions_step:
  "fsm_run_actions t s xs depth a = Some b \<Longrightarrow> act_step 0 a b \<and> same_state (ac_instance a) (ac_instance b)"
proof (induction t s xs depth a rule: fsm_run_actions.induct)
  case (2 t s x xs depth a)
  let ?a = "a\<lparr>ac_action_budget := ac_action_budget a - 1\<rparr>"
  show ?case
  proof (cases "ac_suspend_requested a \<or> ac_action_budget a = 0")
    case True
    have "act_quiet a (fsm_warn ''action budget exhausted'' (act_count ic_budget_exhausted_update a))"
      by (rule act_quiet_trans [OF act_count_quiet warn_quiet]) simp
    then show ?thesis using True 2(2) by (auto split: if_splits)
  next
    case False
    then obtain st c where p: "fsm_perform x (fsm_invocation_fill ?a (Some x) t s depth) ?a = Some (st, c)"
      and r: "fsm_run_actions t s xs depth (fsm_action_outcome x st c) = Some b"
      using 2(2) by (auto simp: Let_def split: option.splits)
    have i: "act_step 0 (fsm_action_outcome x st c) b \<and> same_state (ac_instance (fsm_action_outcome x st c)) (ac_instance b)"
      using 2(1) [OF _ _ refl p refl] False r by simp
    have "ac_action_budget a \<noteq> 0" using False by simp
    note j = action_step [OF this p]
    show ?thesis
      using act_step_trans [OF j(1) conjunct1 [OF i]] same_state_trans [OF j(2) conjunct2 [OF i]] by simp
  qed
qed simp


lemma enter_state_after:
  assumes "target < length (fm_states (in_machine i))"
  shows "pair_after e i e (i\<lparr>in_state_index := target, in_has_state := True\<rparr>)"
  using assms by (simp add: pair_after_def same_instance_def instance_ok_def)

text \<open>The new state with its counter, before the records and the notification.\<close>

lemma enter_state_step:
  assumes "target < length (fm_states (in_machine (ac_instance a)))"
  shows "act_step 1 a (act_count ic_transitions_update (a\<lparr>ac_instance := (ac_instance a)\<lparr>in_state_index := target, in_has_state := True\<rparr>\<rparr>))"
    (is "act_step 1 a (act_count _ ?b)")
proof -
  have "act_after a ?b" using enter_state_after [OF assms] by (simp add: act_after_def)
  then have "act_after a (act_count ic_transitions_update ?b)" using act_after_trans act_count_after by blast
  moreover have "\<exists>n \<le> 1. ic_transitions (in_counters (ac_instance (act_count ic_transitions_update ?b))) =
      ic_transitions (in_counters (ac_instance a)) + of_nat n"
    by (intro exI [of _ 1]) (simp add: act_count_def count_in_def)
  ultimately show ?thesis by (simp add: act_step_def spent_def act_count_def count_in_def)
qed

lemma step_quiet: "act_step k a b \<Longrightarrow> act_quiet b c \<Longrightarrow> act_step k a c"
  using act_step_trans [OF _ quiet_step(1), of k a b c] by simp

text \<open>After the commit: the target is the state and one transition is counted.\<close>

definition entered :: "nat \<Rightarrow> 'c fsm_activation \<Rightarrow> 'c fsm_activation \<Rightarrow> bool" where
  "entered target a b \<longleftrightarrow> act_step 1 a b \<and> in_state_index (ac_instance b) = target \<and> in_has_state (ac_instance b) \<and>
     ic_transitions (in_counters (ac_instance b)) = ic_transitions (in_counters (ac_instance a)) + 1"

lemma entered_quiet: "entered target a b \<Longrightarrow> act_quiet b c \<Longrightarrow> entered target a c"
  using step_quiet [of 1 a b c] by (simp add: entered_def act_quiet_def)

lemma entered_actions:
  assumes "entered target a b" and "fsm_run_actions t s xs depth b = Some c"
  shows "entered target a c"
  using assms(1) run_actions_step [OF assms(2)] act_step_trans [of 1 a b 0 c] by (simp add: entered_def same_state_def)

lemma entered_start:
  assumes "target < length (fm_states (in_machine (ac_instance a)))"
  shows "entered target a (act_count ic_transitions_update (a\<lparr>ac_instance := (ac_instance a)\<lparr>in_state_index := target, in_has_state := True\<rparr>\<rparr>))"
  using enter_state_step [OF assms] by (simp add: entered_def act_count_def count_in_def)

lemma commit_entered:
  assumes "fsm_commit_transition t from target depth a = Some b"
    and "target < length (fm_states (in_machine (ac_instance a)))"
  shows "entered target a b"
proof -
  define a1 where "a1 = act_count ic_transitions_update (a\<lparr>ac_instance := (ac_instance a)\<lparr>in_state_index := target, in_has_state := True\<rparr>\<rparr>)"
  define a2 where "a2 = (if t = None then act_count ic_deferred_transitions_update a1 else a1)"
  define to where "to = fm_states (in_machine (ac_instance a)) ! target"
  define a3 where "a3 = act_trace TRACE_TRANSITION (ucast depth) ((case from of None \<Rightarrow> ''(initial)'' | Some n \<Rightarrow> n) @ ''->'' @ fs_name to) a2"
  define a4 where "a4 = (if has_sink sk_state_change (ac_engine a3)
      then act_effect (Effect_state_change (fsm_invocation_fill a3 None t (Some (fs_name to)) depth) from (fs_name to)) a3 else a3)"
  obtain a5 where e: "fsm_emit_state_event EVENT_TYPE_STATE_ENTERED target a4 = Some a5"
    and r: "fsm_run_actions t (Some (fs_name to)) (fs_entry to) depth a5 = Some b"
    using assms(1) unfolding fsm_commit_transition_def Let_def a1_def [symmetric] a2_def [symmetric] to_def [symmetric] a3_def [symmetric] a4_def [symmetric]
    by (auto split: bind_splits)
  have "act_quiet a1 a2" unfolding a2_def by (cases "t = None") (simp_all add: act_count_quiet)
  moreover have "act_quiet a2 a3" unfolding a3_def by (rule act_trace_quiet)
  moreover have "act_quiet a3 a4" unfolding a4_def by (rule notify_quiet) simp
  moreover have "act_quiet a4 a5" using e by (rule emit_state_event_quiet)
  ultimately have "entered target a a5"
    using entered_start [OF assms(2)] unfolding a1_def [symmetric] by (blast intro: entered_quiet)
  then show ?thesis using r by (rule entered_actions)
qed

text \<open>A transition commits its target, or requests the suspension with the state as it was.\<close>

definition commits_or_suspends :: "nat \<Rightarrow> 'c fsm_activation \<Rightarrow> 'c fsm_activation \<Rightarrow> bool" where
  "commits_or_suspends target a b \<longleftrightarrow> act_step 1 a b \<and>
     ((in_state_index (ac_instance b) = target \<and> in_has_state (ac_instance b) \<and>
         ic_transitions (in_counters (ac_instance b)) = ic_transitions (in_counters (ac_instance a)) + 1) \<or>
      (ac_suspend_requested b \<and> same_state (ac_instance a) (ac_instance b)))"

lemma same_machine: "act_after a b \<Longrightarrow> in_machine (ac_instance b) = in_machine (ac_instance a)"
  by (simp add: act_after_def pair_after_def same_instance_def)

definition stays :: "'c fsm_activation \<Rightarrow> 'c fsm_activation \<Rightarrow> bool" where
  "stays a b \<longleftrightarrow> act_step 0 a b \<and> same_state (ac_instance a) (ac_instance b)"

lemma stays_refl [simp]: "stays a a"
  by (simp add: stays_def)

lemma stays_trans: "stays a b \<Longrightarrow> stays b c \<Longrightarrow> stays a c"
  unfolding stays_def using act_step_trans [of 0 a b 0 c] same_state_trans by auto

lemma quiet_stays: "act_quiet a b \<Longrightarrow> stays a b"
  by (simp add: stays_def)

lemma leave_state_stays:
  assumes "(case cur of None \<Rightarrow> Some a
             | Some s \<Rightarrow> do {
                 b \<leftarrow> fsm_run_actions t (Some (fs_name s)) (fs_exit s) depth a;
                 if ac_suspend_requested b then Some b
                 else fsm_emit_state_event EVENT_TYPE_STATE_EXITED k b }) = Some c"
  shows "stays a c"
proof (cases cur)
  case None
  then show ?thesis using assms by simp
next
  case (Some s)
  then obtain b where r: "fsm_run_actions t (Some (fs_name s)) (fs_exit s) depth a = Some b"
    and e: "(if ac_suspend_requested b then Some b else fsm_emit_state_event EVENT_TYPE_STATE_EXITED k b) = Some c"
    using assms by (auto split: bind_splits)
  have "stays a b" using run_actions_step [OF r] by (simp add: stays_def)
  moreover have "stays b c" using e quiet_stays [OF emit_state_event_quiet] by (auto split: if_splits)
  ultimately show ?thesis by (rule stays_trans)
qed

lemma execute_commits:
  assumes "fsm_execute_transition t depth a = Some b"
  shows "commits_or_suspends (case t of Some t \<Rightarrow> ft_target_index t | None \<Rightarrow> in_deferred_target (ac_instance a)) a b"
proof -
  define target where "target = (case t of Some t \<Rightarrow> ft_target_index t | None \<Rightarrow> in_deferred_target (ac_instance a))"
  show ?thesis
  proof (cases "target \<ge> length (fm_states (in_machine (ac_instance a)))")
    case True
    then have "b = a\<lparr>ac_suspend_requested := True\<rparr>"
      using assms by (simp add: fsm_execute_transition_def Let_def target_def [symmetric])
    then show ?thesis using quiet_stays [OF request_suspend_quiet [of a]]
      using act_step_mono [of 0 a "a\<lparr>ac_suspend_requested := True\<rparr>" 1] by (simp add: commits_or_suspends_def stays_def)
  next
    case False
    obtain a1 a2 where l: "(case fsm_current_state (ac_instance a) of None \<Rightarrow> Some a
             | Some s \<Rightarrow> do {
                 b \<leftarrow> fsm_run_actions t (Some (fs_name s)) (fs_exit s) depth a;
                 if ac_suspend_requested b then Some b
                 else fsm_emit_state_event EVENT_TYPE_STATE_EXITED (in_state_index (ac_instance a)) b }) = Some a1"
      and r: "(case t of None \<Rightarrow> Some a1 | Some t' \<Rightarrow> fsm_run_actions t None (ft_actions t') depth a1) = Some a2"
      and c: "(if ac_suspend_requested a2 then Some a2
           else fsm_commit_transition t (map_option fs_name (fsm_current_state (ac_instance a))) target depth a2) = Some b"
      using assms False unfolding fsm_execute_transition_def Let_def target_def [symmetric] by (auto split: bind_splits)
    have 1: "stays a a1" using l by (rule leave_state_stays)
    have 2: "stays a1 a2"
    proof (cases t)
      case None
      then show ?thesis using r by simp
    next
      case (Some u)
      then have "fsm_run_actions t None (ft_actions u) depth a1 = Some a2" using r by simp
      then show ?thesis using run_actions_step unfolding stays_def by blast
    qed
    have s: "stays a a2" using 1 2 by (rule stays_trans)
    show ?thesis
    proof (cases "ac_suspend_requested a2")
      case True
      then show ?thesis using c s act_step_mono [of 0 a a2 1] by (simp add: commits_or_suspends_def stays_def)
    next
      case no: False
      then have k: "fsm_commit_transition t (map_option fs_name (fsm_current_state (ac_instance a))) target depth a2 = Some b"
        using c by simp
      have "target < length (fm_states (in_machine (ac_instance a2)))"
        using False same_machine [of a a2] step_after [of 0 a a2] s by (simp add: stays_def)
      then have "entered target a2 b" using k commit_entered by blast
      then show ?thesis
        using s act_step_trans [of 0 a a2 1 b] unfolding target_def [symmetric]
        by (simp add: commits_or_suspends_def entered_def stays_def same_state_def)
    qed
  qed
qed

lemma execute_step: "fsm_execute_transition t depth a = Some b \<Longrightarrow> act_step 1 a b"
  using execute_commits unfolding commits_or_suspends_def by blast

lemma enter_initial_step:
  assumes "fsm_enter_initial a = Some b"
  shows "act_step 1 a b"
proof -
  define i where "i = ac_instance a"
  define target where "target = fm_initial_index (in_machine i)"
  define initial where "initial = fm_states (in_machine i) ! target"
  show ?thesis
  proof (cases "target \<ge> length (fm_states (in_machine i))")
    case True
    then have "b = a\<lparr>ac_suspend_requested := True\<rparr>"
      using assms by (simp add: fsm_enter_initial_def Let_def i_def target_def)
    then show ?thesis using step_quiet [OF act_step_refl request_suspend_quiet] by blast
  next
    case False
    define a1 where "a1 = act_count ic_transitions_update (a\<lparr>ac_instance := i\<lparr>in_state_index := target, in_has_state := True\<rparr>\<rparr>)"
    define a2 where "a2 = act_trace TRACE_TRANSITION 1 (''(initial)->'' @ fs_name initial) a1"
    define a3 where "a3 = (if has_sink sk_state_change (ac_engine a2)
       then act_effect (Effect_state_change (fsm_invocation_fill a2 None None (Some (fs_name initial)) 1) None (fs_name initial)) a2
       else a2)"
    obtain a4 where e: "fsm_emit_state_event EVENT_TYPE_STATE_ENTERED target a3 = Some a4"
      and r: "fsm_run_actions None (Some (fs_name initial)) (fs_entry initial) 1 a4 = Some b"
      using assms False unfolding fsm_enter_initial_def Let_def i_def [symmetric] target_def [symmetric] initial_def [symmetric]
        a1_def [symmetric] a2_def [symmetric] a3_def [symmetric]
      by (auto split: bind_splits)
    have "entered target a a1" unfolding a1_def i_def by (rule entered_start) (use False i_def in simp)
    moreover have "act_quiet a1 a2" unfolding a2_def by (rule act_trace_quiet)
    moreover have "act_quiet a2 a3" unfolding a3_def by (rule notify_quiet) simp
    moreover have "act_quiet a3 a4" using e by (rule emit_state_event_quiet)
    ultimately have "entered target a a4" by (blast intro: entered_quiet)
    then show ?thesis using entered_actions [OF _ r] by (simp add: entered_def)
  qed
qed


lemma chain_limit_config: "act_after a b \<Longrightarrow> en_max_chain_depth (ac_engine b) = en_max_chain_depth (ac_engine a)"
  by (simp add: act_after_def pair_after_def same_config_def)

lemma chain_step:
  "fsm_run_deferred_chain depth a = Some b \<Longrightarrow>
     act_step (unat (en_max_chain_depth (ac_engine a)) - unat depth) a b \<and> \<not> in_deferred_pending (ac_instance b)"
proof (induction depth a rule: fsm_run_deferred_chain.induct)
  case (1 depth a)
  let ?clear = "\<lambda>b. b\<lparr>ac_instance := (ac_instance b)\<lparr>in_deferred_pending := False\<rparr>\<rparr>"
  let ?limit = "en_max_chain_depth (ac_engine a)"
  have q: "act_quiet a (?clear a)" by (rule deferred_quiet(2))
  consider (idle) "\<not> in_deferred_pending (ac_instance a)" | (suspended) "in_deferred_pending (ac_instance a)" "ac_suspend_requested a"
    | (limit) "in_deferred_pending (ac_instance a)" "\<not> ac_suspend_requested a" "depth \<ge> ?limit"
    | (run) "in_deferred_pending (ac_instance a)" "\<not> ac_suspend_requested a" "\<not> depth \<ge> ?limit"
    by blast
  then show ?case
  proof cases
    case idle
    then show ?thesis using 1(2) by (simp add: fsm_run_deferred_chain.simps [of depth a])
  next
    case suspended
    then have "b = ?clear a" using 1(2) by (simp add: fsm_run_deferred_chain.simps [of depth a])
    then show ?thesis using act_step_mono [OF quiet_step(1) [OF q]] by simp
  next
    case limit
    let ?w = "fsm_warn ''transition chain limit exceeded'' (act_count ic_chain_limit_exceeded_update (?clear a))"
    have b: "b = ?w\<lparr>ac_suspend_requested := True\<rparr>"
      using limit 1(2) by (simp add: fsm_run_deferred_chain.simps [of depth a] Let_def)
    have "act_quiet (?clear a) ?w" by (rule act_quiet_trans [OF act_count_quiet warn_quiet]) simp
    then have "act_quiet a b"
      unfolding b by (intro act_quiet_trans [OF act_quiet_trans [OF q] request_suspend_quiet])
    moreover have "\<not> in_deferred_pending (ac_instance b)"
      unfolding b by (simp add: fsm_warn_def act_trace_def act_effect_def act_count_def count_in_def Let_def)
    ultimately show ?thesis using act_step_mono [OF quiet_step(1)] by blast
  next
    case run
    then obtain a1 where x: "fsm_execute_transition None (depth + 1) (?clear a) = Some a1"
      and r: "fsm_run_deferred_chain (depth + 1) a1 = Some b"
      using 1(2) by (auto simp: fsm_run_deferred_chain.simps [of depth a] Let_def split: option.splits)
    have s1: "act_step 1 a a1"
      using act_step_trans [OF quiet_step(1) [OF q] execute_step [OF x]] by simp
    have l: "unat depth < unat ?limit" using run(3) by (simp add: word_le_nat_alt)
    then have d: "unat (depth + 1) = Suc (unat depth)"
      using unat_u16_lt [of ?limit] by (intro unat_inc) simp
    have "act_step (unat (en_max_chain_depth (ac_engine a1)) - unat (depth + 1)) a1 b \<and> \<not> in_deferred_pending (ac_instance b)"
      by (rule 1(1) [OF refl _ _ _ x r]) (use run in simp_all)
    then have s2: "act_step (unat ?limit - unat (depth + 1)) a1 b" "\<not> in_deferred_pending (ac_instance b)"
      using chain_limit_config [OF step_after [OF s1]] by simp_all
    have "1 + (unat ?limit - unat (depth + 1)) = unat ?limit - unat depth" using l d by simp
    then show ?thesis using act_step_trans [OF s1 s2(1)] s2(2) by simp
  qed
qed

subsection \<open>Activations\<close>

lemma process_event_step:
  assumes "fsm_process_queued_event ev a = Some b"
  shows "act_step (max 1 (unat (en_max_chain_depth (ac_engine a)))) a b" and
    "(in_deferred_pending (ac_instance a) \<longrightarrow> in_has_state (ac_instance a)) \<Longrightarrow> \<not> in_deferred_pending (ac_instance b)"
proof -
  define a1 where "a1 = act_count ic_events_processed_update a"
  define a2 where "a2 = (if en_record_events (ac_engine a1)
            then act_trace TRACE_EVENT (word_of_int (event_type_code (ev_type ev)))
              (fsm_event_type_name (ev_type ev) @ '' seq='' @ show_nat (unat (ev_sequence ev))) a1
            else a1)"
  have "act_quiet a1 a2" unfolding a2_def by (rule trace_if_quiet) simp
  then have q: "act_quiet a a2" by (rule act_quiet_trans [rotated]) (simp add: a1_def act_count_quiet)
  have "act_step (max 1 (unat (en_max_chain_depth (ac_engine a)))) a b \<and>
    ((in_deferred_pending (ac_instance a) \<longrightarrow> in_has_state (ac_instance a)) \<longrightarrow> \<not> in_deferred_pending (ac_instance b))"
  proof (cases "in_has_state (ac_instance a2)")
    case False
    have "in_has_state (ac_instance a) = in_has_state (ac_instance a2)" "in_deferred_pending (ac_instance a) = in_deferred_pending (ac_instance a2)"
      by (simp_all add: a2_def a1_def act_trace_def act_count_def count_in_def)
    then show ?thesis
      using False assms act_step_mono [OF quiet_step(1) [OF q]]
      unfolding fsm_process_queued_event_def Let_def a1_def [symmetric] a2_def [symmetric] by simp
  next
    case True
    obtain found a3 a4 where s: "fsm_select_transition ev a2 = Some (found, a3)"
      and x: "(case found of None \<Rightarrow> Some a3 | Some t \<Rightarrow> fsm_execute_transition (Some t) 1 a3) = Some a4"
      and c: "(if in_deferred_pending (ac_instance a4) then fsm_run_deferred_chain (if found = None then 0 else 1) a4 else Some a4) = Some b"
      using assms True unfolding fsm_process_queued_event_def Let_def a1_def [symmetric] a2_def [symmetric]
      by (auto split: bind_splits)
    have q3: "act_quiet a a3" using act_quiet_trans [OF q select_transition_quiet [OF s]] .
    let ?d = "if found = None then 0 else 1 :: nat"
    have s4: "act_step ?d a a4"
    proof (cases found)
      case None
      then show ?thesis using x q3 by simp
    next
      case (Some t)
      then have "fsm_execute_transition (Some t) 1 a3 = Some a4" using x by simp
      then show ?thesis using act_step_trans [OF quiet_step(1) [OF q3] execute_step] Some by simp
    qed
    have m: "en_max_chain_depth (ac_engine a4) = en_max_chain_depth (ac_engine a)"
      using chain_limit_config [OF step_after [OF s4]] .
    have d: "unat (if found = None then 0 else 1 :: u16) = ?d" by simp
    show ?thesis
    proof (cases "in_deferred_pending (ac_instance a4)")
      case True
      then have "fsm_run_deferred_chain (if found = None then 0 else 1) a4 = Some b" using c by simp
      note ch = chain_step [OF this, unfolded m d]
      have "act_step (?d + (unat (en_max_chain_depth (ac_engine a)) - ?d)) a b \<and> \<not> in_deferred_pending (ac_instance b)"
        using act_step_trans [OF s4 conjunct1 [OF ch]] conjunct2 [OF ch] by (rule conjI)
      moreover have "?d + (unat (en_max_chain_depth (ac_engine a)) - ?d) \<le> max 1 (unat (en_max_chain_depth (ac_engine a)))"
        by (cases found) auto
      ultimately show ?thesis using act_step_mono by blast
    next
      case False
      then have "b = a4" using c by simp
      moreover have "?d \<le> max 1 (unat (en_max_chain_depth (ac_engine a)))" by simp
      ultimately show ?thesis using s4 act_step_mono False by blast
    qed
  qed
  then show "act_step (max 1 (unat (en_max_chain_depth (ac_engine a)))) a b" and
    "(in_deferred_pending (ac_instance a) \<longrightarrow> in_has_state (ac_instance a)) \<Longrightarrow> \<not> in_deferred_pending (ac_instance b)"
    by blast+
qed

text \<open>Between activations nothing is deferred.\<close>

definition settled :: "fsm_instance \<Rightarrow> bool" where
  "settled i \<longleftrightarrow> \<not> in_deferred_pending i"

definition settled_after :: "'c fsm_engine \<Rightarrow> fsm_instance \<Rightarrow> 'c fsm_engine \<Rightarrow> fsm_instance \<Rightarrow> bool" where
  "settled_after e i e' i' \<longleftrightarrow> pair_after e i e' i' \<and> (settled i \<longrightarrow> settled i')"

lemma settled_after_refl [simp]: "settled_after e i e i"
  by (simp add: settled_after_def)

lemma settled_after_trans: "settled_after e i f j \<Longrightarrow> settled_after f j g k \<Longrightarrow> settled_after e i g k"
  unfolding settled_after_def using pair_after_trans by blast

lemma start_activation [simp]:
  "ac_engine (fsm_activation_start e i ev) = e" "ac_instance (fsm_activation_start e i ev) = i"
  by (simp_all add: fsm_activation_start_def)

lemma activation_end_after:
  assumes "fsm_activation_end a = (e, i)"
  shows "settled_after (ac_engine a) (ac_instance a) e i"
proof (cases "ac_suspend_requested a")
  case True
  then have "snd (fsm_suspend (ac_engine a) (ac_instance a)) = (e, i)" using assms by (simp add: fsm_activation_end_def)
  then obtain st where s: "fsm_suspend (ac_engine a) (ac_instance a) = (st, e, i)" by (cases "fsm_suspend (ac_engine a) (ac_instance a)") auto
  then show ?thesis using suspend_after [OF s]
    by (auto simp: settled_after_def settled_def fsm_suspend_def Let_def split: if_splits)
next
  case False
  then show ?thesis using assms by (simp add: fsm_activation_end_def)
qed

lemma activate_after:
  assumes "fsm_activate e i ev = Some (e', i')"
  shows "settled_after e i e' i'"
proof -
  obtain b where p: "fsm_process_queued_event ev (fsm_activation_start e i (Some ev)) = Some b"
    and f: "fsm_activation_end b = (e', i')"
    using assms by (auto simp: fsm_activate_def)
  note s = process_event_step [OF p, unfolded start_activation]
  have "settled_after e i (ac_engine b) (ac_instance b)"
    using step_after [OF s(1)] s(2) by (auto simp: settled_after_def settled_def act_after_def)
  with activation_end_after [OF f] show ?thesis using settled_after_trans by blast
qed

lemma pop_hooks: "eq_hard_fault_hooks (fst (snd (queue_pop q))) = eq_hard_fault_hooks q"
  by (simp add: queue_pop_def queue_remove_at_def Let_def)

lemma incoming_pop_after:
  assumes "queue_pop (in_incoming i) = (st, q, out)"
  shows "settled_after e i e (i\<lparr>in_incoming := q\<rparr>)"
proof -
  have "q = fst (snd (queue_pop (in_incoming i)))" using assms by simp
  then have "queue_inv (in_incoming i) \<Longrightarrow> queue_inv q" "eq_hard_fault_hooks q = eq_hard_fault_hooks (in_incoming i)"
    using queue_pop_inv pop_hooks by auto
  then show ?thesis
    by (simp add: settled_after_def settled_def pair_after_def same_instance_def instance_ok_def)
qed


lemma count_in_settled: "settled_after e i e (count_in field i)"
  using count_in_after [of e i field] by (simp add: settled_after_def settled_def count_in_def)

lemma trace_settled: "settled_after e i (fsm_trace e j kind code tx) i"
  by (simp add: settled_after_def)

lemma drain_loop_after: "fsm_drain_loop n e i = Some (e', i') \<Longrightarrow> settled_after e i e' i'"
proof (induction n e i rule: fsm_drain_loop.induct)
  case (1 n e i)
  obtain st q out where p: "queue_pop (in_incoming i) = (st, q, out)" by (cases "queue_pop (in_incoming i)") auto
  let ?j = "i\<lparr>in_incoming := q\<rparr>"
  have pa: "settled_after e i e ?j" using p by (rule incoming_pop_after)
  consider (rest) "event_queue_is_empty (Some (in_incoming i)) \<or> \<not> fsm_lifecycle_is_active (in_lifecycle i)"
    | (budget) "\<not> event_queue_is_empty (Some (in_incoming i))" "fsm_lifecycle_is_active (in_lifecycle i)" "n \<ge> en_max_events_per_activation e"
    | (pop) "\<not> event_queue_is_empty (Some (in_incoming i))" "fsm_lifecycle_is_active (in_lifecycle i)" "\<not> n \<ge> en_max_events_per_activation e"
    by blast
  then show ?case
  proof cases
    case rest
    then show ?thesis
      using 1(2) by (cases "event_queue_is_empty (Some (in_incoming i))") (simp_all add: fsm_drain_loop.simps [of n e i])
  next
    case budget
    then have "i' = count_in ic_budget_exhausted_update i"
      "e' = fsm_trace e i' TRACE_WARNING 0 ''event budget exhausted''"
      using 1(2) by (auto simp: fsm_drain_loop.simps [of n e i] Let_def)
    then show ?thesis using settled_after_trans [OF count_in_settled trace_settled] by simp
  next
    case pop
    show ?thesis
    proof (cases "st = EQ_OK")
      case False
      then show ?thesis using 1(2) pop p pa by (simp add: fsm_drain_loop.simps [of n e i] Let_def)
    next
      case True
      then obtain e2 i2 where x: "fsm_activate e ?j (the out) = Some (e2, i2)" and r: "fsm_drain_loop (n + 1) e2 i2 = Some (e', i')"
        using 1(2) pop p by (auto simp: fsm_drain_loop.simps [of n e i] Let_def split: option.splits)
      have "settled_after e2 i2 e' i'"
        by (rule 1(1) [OF _ _ _ p [symmetric] refl refl _ x refl r]) (use pop True in simp_all)
      then show ?thesis using settled_after_trans [OF settled_after_trans [OF pa activate_after [OF x]]] by blast
    qed
  qed
qed

end
