(* ===== verification/Fsm_Engine_Reach.thy ===== *)
theory Fsm_Engine_Reach
  imports Fsm_Engine_Inv
begin

text \<open>
  The state machine runtime as a whole: what every lifecycle operation, the tick and the dispatcher
  preserve of the engine and the instance, the calls of the environment as a step relation, and the
  invariant of every reachable engine by rule induction.
\<close>

subsection \<open>Operations on an instance\<close>

text \<open>Enabling and resetting rebuild the variables and the timers: the slots may differ, the identity stays.\<close>

definition same_identity :: "fsm_instance \<Rightarrow> fsm_instance \<Rightarrow> bool" where
  "same_identity i i' \<longleftrightarrow> in_def i' = in_def i \<and> in_machine i' = in_machine i \<and> in_index i' = in_index i \<and>
     in_id i' = in_id i \<and> in_processing i' = in_processing i \<and>
     eq_hard_fault_hooks (in_incoming i') = eq_hard_fault_hooks (in_incoming i)"

definition lives :: "'c fsm_engine \<Rightarrow> fsm_instance \<Rightarrow> 'c fsm_engine \<Rightarrow> fsm_instance \<Rightarrow> bool" where
  "lives e i e' i' \<longleftrightarrow> same_config e e' \<and> same_identity i i' \<and> (engine_ok e \<longrightarrow> engine_ok e') \<and>
     (engine_ok e \<and> instance_ok i \<longrightarrow> instance_ok i') \<and> (settled i \<longrightarrow> settled i')"

lemma lives_refl [simp]: "lives e i e i"
  by (simp add: lives_def same_identity_def)

lemma lives_trans: "lives e i f j \<Longrightarrow> lives f j g k \<Longrightarrow> lives e i g k"
  unfolding lives_def same_identity_def using same_config_trans [of e f g] by auto

lemma settled_lives: "settled_after e i e' i' \<Longrightarrow> lives e i e' i'"
  by (simp add: settled_after_def pair_after_def lives_def same_instance_def same_identity_def)

lemma drain_lives:
  assumes "fsm_drain_instance e i = Some (e', i')"
  shows "lives e i e' i'"
proof (cases "in_processing i")
  case True
  then show ?thesis using assms by (simp add: fsm_drain_instance_def)
next
  case False
  then obtain j where d: "fsm_drain_loop 0 e (i\<lparr>in_processing := True\<rparr>) = Some (e', j)" and i': "i' = j\<lparr>in_processing := False\<rparr>"
    using assms by (auto simp: fsm_drain_instance_def)
  have "lives e (i\<lparr>in_processing := True\<rparr>) e' j" using settled_lives [OF drain_loop_after [OF d]] .
  then show ?thesis using False unfolding i' by (auto simp: lives_def same_identity_def instance_ok_def settled_def)
qed

lemma push_incoming_lives:
  assumes "fsm_push_incoming ev e i = Some (okay, e', i')"
  shows "lives e i e' i'"
proof -
  obtain st q h where p: "fsm_push (en_effects e) (in_incoming i) ev = Some (st, q, h)"
    and e': "e' = e\<lparr>en_effects := h\<rparr>" and i': "\<exists>field. i' = count_in field (i\<lparr>in_incoming := q\<rparr>)"
    using assms by (auto simp: fsm_push_incoming_def Let_def split: bind_splits)
  have "settled_after e i e' (i\<lparr>in_incoming := q\<rparr>)"
    unfolding e' using push_incoming_after [OF p] by (simp add: settled_after_def settled_def)
  then show ?thesis using i' settled_after_trans [OF _ count_in_settled] settled_lives by blast
qed

lemma count_suppressed_lives [simp]: "lives e i e (fsm_count_suppressed b i)"
  by (simp add: fsm_count_suppressed_def settled_lives count_in_settled)

lemma lifecycle_lives: "lives e i e (i\<lparr>in_lifecycle := l\<rparr>)"
  by (simp add: lives_def same_identity_def instance_ok_def settled_def)

lemma trace_lives: "lives e i (fsm_lifecycle_trace e j tx) i"
  unfolding fsm_lifecycle_trace_def using trace_settled by (rule settled_lives)

lemma become_lives: "fsm_become l tx e i = (e', i') \<Longrightarrow> lives e i e' i'"
  using lives_trans [OF lifecycle_lives trace_lives] by (auto simp: fsm_become_def Let_def)

lemma suspend_lives: "fsm_suspend e i = (st, e', i') \<Longrightarrow> lives e i e' i'"
  using suspend_after [of e i st e' i']
  by (intro settled_lives) (auto simp: settled_after_def settled_def fsm_suspend_def Let_def split: if_splits)

lemma fault_lives: "fsm_fault e i = (st, e', i') \<Longrightarrow> lives e i e' i'"
  using fault_after(1) [of e i st e' i']
  by (intro settled_lives) (auto simp: settled_after_def settled_def fsm_fault_def fsm_stop_timers_def Let_def split: if_splits)

lemma cleared_queue:
  assumes "queue_inv q"
  shows "queue_inv (the (event_queue_clear (Some q)))"
  using queue_clear_inv [OF assms] by (metis option.sel)

lemma clear_hooks [simp]: "eq_hard_fault_hooks (the (event_queue_clear (Some q))) = eq_hard_fault_hooks q"
  by (simp add: event_queue_clear_def)

lemma clear_instance:
  shows "same_identity i (fsm_instance_clear i)" and "settled (fsm_instance_clear i)"
    and "instance_ok i \<Longrightarrow> instance_ok (fsm_instance_clear i)"
proof -
  show "same_identity i (fsm_instance_clear i)" and "settled (fsm_instance_clear i)"
    by (simp_all add: fsm_instance_clear_def same_identity_def settled_def Let_def)
  assume ok: "instance_ok i"
  then have cap: "in_variable_capacity i \<le> length (in_variables i)" "in_timer_capacity i \<le> length (in_timers i)"
    and q: "queue_inv (in_incoming i)"
    by (simp_all add: instance_ok_def)
  have v: "\<forall>s \<in> set (take (length vars) (fsm_fresh_variables vars st)). slot_typed s" for vars st
    by (auto simp: fsm_fresh_variables_def slot_typed_def)
  show "instance_ok (fsm_instance_clear i)"
    using cap cleared_queue [OF q] v
    by (simp add: instance_ok_def fsm_instance_clear_def Let_def fsm_fresh_timers_def) (simp add: fsm_fresh_variables_def min_le_iff_disj)
qed

lemma init_variable_stays:
  assumes "fsm_init_variable k operand traced a = Some b"
  shows "act_after a b" and "in_deferred_pending (ac_instance b) = in_deferred_pending (ac_instance a)"
proof -
  obtain st v a1 where o: "fsm_evaluate_operand operand a = Some (st, v, a1)"
    using assms by (auto simp: fsm_init_variable_def Let_def split: option.splits)
  have d: "in_deferred_pending (ac_instance a1) = in_deferred_pending (ac_instance a)"
    using o by (auto simp: fsm_evaluate_operand_def Let_def act_count_def count_in_def split: fsm_operand.splits option.splits sum.splits if_splits)
  have 1: "act_after a a1" using act_quiet_after [OF operand_quiet [OF o]] .
  have f: "act_after c (case traced of None \<Rightarrow> act_count ic_initialization_errors_update c
      | Some name \<Rightarrow> act_trace TRACE_ACTION_ERROR k (''default '' @ name @ suffix) (act_count ic_initialization_errors_update c))"
    for c k suffix
    using act_after_trans [OF act_count_after act_quiet_after [OF act_trace_quiet]] by (cases traced) auto
  have s: "act_after a1 (a1\<lparr>ac_suspend_requested := False\<rparr>)" by (simp add: act_after_def)
  have w: "act_after a1 (a1\<lparr>ac_instance := (ac_instance a1)\<lparr>in_variables := (in_variables (ac_instance a1))
      [k := (in_variables (ac_instance a1) ! k)\<lparr>vs_value := w, vs_initialized := True\<rparr>]\<rparr>\<rparr>)"
    if "fsm_coerce_to_declared (vs_declared (in_variables (ac_instance a1) ! k)) v = Some w" for w
    using store_variable_after [OF coerce_typed [OF that]] by (simp add: act_after_def)
  have "act_after a1 b"
  proof (cases "st = FSM_OK")
    case False
    have eb: "b = (case traced of None \<Rightarrow> act_count ic_initialization_errors_update (a1\<lparr>ac_suspend_requested := False\<rparr>)
      | Some name \<Rightarrow> act_trace TRACE_ACTION_ERROR (word_of_int (fsm_status_value FSM_ERR_EXPRESSION)) (''default '' @ name @ [])
          (act_count ic_initialization_errors_update (a1\<lparr>ac_suspend_requested := False\<rparr>)))"
      using assms o False by (cases traced) (auto simp: fsm_init_variable_def Let_def)
    show ?thesis unfolding eb by (rule act_after_trans [OF s f])
  next
    case True
    then show ?thesis using assms o f w by (auto simp: fsm_init_variable_def Let_def split: option.splits)
  qed
  with 1 show "act_after a b" by (rule act_after_trans)
  show "in_deferred_pending (ac_instance b) = in_deferred_pending (ac_instance a)"
    unfolding d [symmetric] using assms o
    by (auto simp: fsm_init_variable_def Let_def act_trace_def act_count_def count_in_def split: option.splits if_splits)
qed

lemma init_defaults_stays:
  "fsm_init_defaults k ds a = Some b \<Longrightarrow> act_after a b \<and> in_deferred_pending (ac_instance b) = in_deferred_pending (ac_instance a)"
proof (induction k ds a rule: fsm_init_defaults.induct)
  case (2 k d ds a)
  obtain a1 where f: "(case vd_default d of None \<Rightarrow> Some a | Some operand \<Rightarrow> fsm_init_variable k operand (Some (vd_name d)) a) = Some a1"
    and r: "fsm_init_defaults (k + 1) ds a1 = Some b"
    using 2(2) by (auto split: bind_splits)
  have "act_after a a1 \<and> in_deferred_pending (ac_instance a1) = in_deferred_pending (ac_instance a)"
  proof (cases "vd_default d")
    case None
    then show ?thesis using f by simp
  next
    case (Some x)
    then have "fsm_init_variable k x (Some (vd_name d)) a = Some a1" using f by simp
    then show ?thesis using init_variable_stays by blast
  qed
  then show ?case using 2(1) [OF f r] act_after_trans [of a a1 b] by simp
qed simp

lemma init_overrides_stays:
  "fsm_init_overrides os a = Some b \<Longrightarrow> act_after a b \<and> in_deferred_pending (ac_instance b) = in_deferred_pending (ac_instance a)"
proof (induction os a rule: fsm_init_overrides.induct)
  case (2 name operand os a)
  obtain a1 where f: "(case fsm_variable_index (ac_instance a) name of None \<Rightarrow> Some (act_count ic_initialization_errors_update a)
       | Some k \<Rightarrow> fsm_init_variable k operand None a) = Some a1"
    and r: "fsm_init_overrides os a1 = Some b"
    using 2(2) by (auto split: bind_splits)
  have "act_after a a1 \<and> in_deferred_pending (ac_instance a1) = in_deferred_pending (ac_instance a)"
  proof (cases "fsm_variable_index (ac_instance a) name")
    case None
    then have "a1 = act_count ic_initialization_errors_update a" using f by simp
    then show ?thesis by (simp add: act_count_after) (simp add: act_count_def count_in_def)
  next
    case (Some x)
    then have "fsm_init_variable x operand None a = Some a1" using f by simp
    then show ?thesis using init_variable_stays by blast
  qed
  then show ?case using 2(1) [OF f r] act_after_trans [of a a1 b] by simp
qed simp

lemma initialize_lives:
  assumes "fsm_instance_initialize e i = Some (e', i')"
  shows "lives e i e' i'" and "settled i'"
proof -
  obtain a1 a2 where 1: "fsm_init_defaults 0 (take (in_variable_capacity i) (fm_variables (in_machine i)))
        (fsm_activation_start e (fsm_instance_clear i) None) = Some a1"
    and 2: "fsm_init_overrides (fd_variables (in_def i)) a1 = Some a2" and r: "e' = ac_engine a2" "i' = ac_instance a2"
    using assms by (auto simp: fsm_instance_initialize_def Let_def split: bind_splits)
  have "act_after (fsm_activation_start e (fsm_instance_clear i) None) a2"
    and d: "in_deferred_pending i' = in_deferred_pending (fsm_instance_clear i)"
    using init_defaults_stays [OF 1] init_overrides_stays [OF 2] act_after_trans r by auto
  then have "pair_after e (fsm_instance_clear i) e' i'" by (simp add: act_after_def r)
  then show "lives e i e' i'"
    using clear_instance [of i] d
    by (auto simp: lives_def pair_after_def same_identity_def same_instance_def settled_def)
  show "settled i'" using d clear_instance(2) [of i] by (simp add: settled_def)
qed


lemma stop_timers_settled: "settled_after e i e (fsm_stop_timers i)"
  using stop_timers_after [of e i] by (simp add: settled_after_def settled_def fsm_stop_timers_def)

lemma auto_start_lives:
  assumes "instance_ok i"
  shows "length (in_timers (fsm_auto_start now i)) = length (in_timers i)"
  using assms by (simp add: fsm_auto_start_def instance_ok_def)

lemma enable_lives: "fsm_enable e i = Some (st, e', i') \<Longrightarrow> lives e i e' i'"
  using lives_trans [OF initialize_lives(1) become_lives]
  by (auto simp: fsm_enable_def split: if_splits bind_splits)

lemma reset_lives: "fsm_reset e i = Some (st, e', i') \<Longrightarrow> lives e i e' i'"
  using lives_trans [OF initialize_lives(1) become_lives]
  by (auto simp: fsm_reset_def split: if_splits bind_splits)

lemma disable_lives:
  assumes "fsm_disable e i = Some (st, e', i')"
  shows "lives e i e' i'"
proof -
  let ?i = "i\<lparr>in_deferred_pending := False, in_incoming := the (event_queue_clear (Some (in_incoming i)))\<rparr>"
  have "lives e i e ?i"
    using cleared_queue by (simp add: lives_def same_identity_def instance_ok_def settled_def)
  then have "lives e i e (fsm_stop_timers ?i)" using settled_lives [OF stop_timers_settled] lives_trans by blast
  then show ?thesis using assms become_lives lives_trans unfolding fsm_disable_def by blast
qed

lemma resume_lives:
  assumes "fsm_resume e i = Some (st, e', i')"
  shows "lives e i e' i'"
proof -
  obtain e1 i1 where b: "fsm_become LIFECYCLE_RUNNING ''running'' e i = (e1, i1)" by fastforce
  have 1: "lives e i e1 i1" using b by (rule become_lives)
  show ?thesis
    using assms b 1 lives_trans [OF 1 drain_lives] by (auto simp: fsm_resume_def split: if_splits bind_splits)
qed

lemma start_lives:
  assumes "fsm_start e i = Some (st, e', i')"
  shows "lives e i e' i'"
proof (cases "in_lifecycle i = LIFECYCLE_READY")
  case False
  then show ?thesis using assms by (simp add: fsm_start_def)
next
  case True
  define i1 where "i1 = i\<lparr>in_lifecycle := LIFECYCLE_RUNNING, in_incoming := the (event_queue_clear (Some (in_incoming i))),
          in_deferred_pending := False, in_has_state := False\<rparr>"
  define e1 where "e1 = fsm_lifecycle_trace e i1 ''running''"
  define i2 where "i2 = fsm_auto_start (en_now_us e1) i1"
  obtain a1 a2 where n: "fsm_enter_initial (fsm_activation_start e1 i2 None) = Some a1"
    and c: "(if in_deferred_pending (ac_instance a1) then fsm_run_deferred_chain 1 a1 else Some a1) = Some a2"
    and d0: "fsm_drain_instance (fst (fsm_activation_end a2)) (snd (fsm_activation_end a2)) = Some (e', i')"
    using assms True unfolding fsm_start_def Let_def i1_def [symmetric] e1_def [symmetric] i2_def [symmetric]
    by (auto split: bind_splits)
  obtain e3 i3 where f: "fsm_activation_end a2 = (e3, i3)" by fastforce
  have d: "fsm_drain_instance e3 i3 = Some (e', i')" using d0 f by simp
  have 1: "lives e i e1 i2"
  proof -
    have "lives e i e i1"
      using cleared_queue unfolding i1_def by (simp add: lives_def same_identity_def instance_ok_def settled_def)
    moreover have "lives e i1 e1 i1" unfolding e1_def by (rule trace_lives)
    moreover have "lives e1 i1 e1 i2"
      using auto_start_lives unfolding i2_def
      by (auto simp: lives_def same_identity_def settled_def) (auto simp: instance_ok_def fsm_auto_start_def)
    ultimately show ?thesis using lives_trans by blast
  qed
  have s1: "act_after (fsm_activation_start e1 i2 None) a1" using step_after [OF enter_initial_step [OF n]] .
  have "act_after a1 a2 \<and> \<not> in_deferred_pending (ac_instance a2)"
  proof (cases "in_deferred_pending (ac_instance a1)")
    case True
    then have "fsm_run_deferred_chain 1 a1 = Some a2" using c by simp
    then show ?thesis using chain_step step_after by blast
  next
    case False
    then show ?thesis using c by simp
  qed
  then have "settled_after e1 i2 (ac_engine a2) (ac_instance a2)"
    using act_after_trans [OF s1] by (auto simp: settled_after_def settled_def act_after_def)
  then have "lives e1 i2 e3 i3" using settled_after_trans [OF _ activation_end_after [OF f]] settled_lives by blast
  then show ?thesis using 1 drain_lives [OF d] lives_trans by blast
qed

lemma inject_lives:
  assumes "fsm_inject ev e i = Some (st, e', i')"
  shows "lives e i e' i'"
proof -
  have c: "lives x j (x\<lparr>en_counters := n\<rparr>) j" for x :: "'a fsm_engine" and j n
    by (simp add: lives_def same_config_def same_identity_def engine_ok_def global_ok_def)
  obtain acc sp where s: "fsm_instance_accepts e i ev = (acc, sp)" by fastforce
  consider "\<not> event_is_valid (Some ev) \<or> \<not> fsm_lifecycle_is_active (in_lifecycle i)"
    | "event_is_valid (Some ev)" "fsm_lifecycle_is_active (in_lifecycle i)" "\<not> acc"
    | "event_is_valid (Some ev)" "fsm_lifecycle_is_active (in_lifecycle i)" "acc" by blast
  then show ?thesis
  proof cases
    case 1
    then show ?thesis using assms by (cases "event_is_valid (Some ev)") (simp_all add: fsm_inject_def)
  next
    case 2
    then show ?thesis using assms s by (auto simp: fsm_inject_def)
  next
    case 3
    then obtain okay e1 i1 where p: "fsm_push_incoming ev e i = Some (okay, e1, i1)"
      using assms s by (auto simp: fsm_inject_def simp del: event_is_valid.simps split: bind_splits)
    note pl = push_incoming_lives [OF p]
    show ?thesis
    proof (cases okay)
      case False
      then show ?thesis using assms s 3 p pl by (auto simp: fsm_inject_def simp del: event_is_valid.simps)
    next
      case True
      then obtain x where "fsm_drain_instance (e1\<lparr>en_counters := x\<rparr>) i1 = Some (e', i')"
        using assms s 3 p by (auto simp: fsm_inject_def Let_def simp del: event_is_valid.simps split: bind_splits)
      then show ?thesis using lives_trans [OF lives_trans [OF pl c] drain_lives] by blast
    qed
  qed
qed

lemma timer_expired_lives: "fsm_timer_expired i k now = Some (missed, i') \<Longrightarrow> lives e i e i'"
  by (auto simp: fsm_timer_expired_def lives_def same_identity_def settled_def instance_ok_def split: option.splits)

lemma expire_timer_lives:
  assumes "fsm_expire_timer e i k = Some (e', i')"
  shows "lives e i e' i'"
proof (cases "fsm_timer_expired i k (en_now_us e)")
  case None
  then show ?thesis using assms by (simp add: fsm_expire_timer_def)
next
  case (Some mi)
  obtain missed i1 where mi: "mi = (missed, i1)" by (cases mi)
  define e1 where "e1 = snd (fsm_next_event_id e)"
  obtain ev e2 where g: "fsm_publish_global ev e1 = Some e2"
    and r: "(case fsm_instance_accepts e2 i1 ev of (acc, sp) \<Rightarrow>
           if \<not> acc then Some (e2, fsm_count_suppressed sp i1)
           else do {
             (okay, e3, i3) \<leftarrow> fsm_push_incoming ev e2 i1;
             Some (fsm_trace e3 i3 TRACE_TIMER missed (ts_name (in_timers i1 ! k) @ '' expired''), i3) }) = Some (e', i')"
    using assms Some mi unfolding fsm_expire_timer_def e1_def Let_def by (auto split: bind_splits prod.splits)
  have 1: "lives e i e i1" using Some mi by (simp add: timer_expired_lives)
  have "lives e i1 e1 i1"
    unfolding e1_def by (simp add: lives_def same_config_def same_identity_def engine_ok_def global_ok_def fsm_next_event_id_def Let_def)
  moreover have "lives e1 i1 e2 i1"
    using publish_global_after [OF g, of i1] by (intro settled_lives) (simp add: settled_after_def)
  ultimately have 2: "lives e i e2 i1" using 1 lives_trans by blast
  show ?thesis
  proof (cases "fst (fsm_instance_accepts e2 i1 ev)")
    case False
    then show ?thesis using r lives_trans [OF 2 count_suppressed_lives] by (auto split: prod.splits)
  next
    case True
    then obtain okay e3 i3 tx where p: "fsm_push_incoming ev e2 i1 = Some (okay, e3, i3)"
      and e': "e' = fsm_trace e3 i3 TRACE_TIMER missed tx" and i': "i' = i3"
      using r True by (cases "fsm_instance_accepts e2 i1 ev") (auto split: bind_splits)
    show ?thesis unfolding e' i'
      using lives_trans [OF 2 lives_trans [OF push_incoming_lives [OF p] settled_lives [OF trace_settled]]] .
  qed
qed

lemma expire_timers_lives: "fsm_expire_timers ks e i = Some (e', i') \<Longrightarrow> lives e i e' i'"
proof (induction ks e i rule: fsm_expire_timers.induct)
  case (2 k ks e i)
  obtain e1 i1 where x: "fsm_expire_timer e i k = Some (e1, i1)" and r: "fsm_expire_timers ks e1 i1 = Some (e', i')"
    using 2(2) by (auto split: bind_splits)
  show ?case by (rule lives_trans [OF expire_timer_lives [OF x] 2(1) [OF x refl r]])
qed simp

lemma tick_instance_lives:
  assumes "fsm_tick_instance e i = Some (e', i')"
  shows "lives e i e' i'"
proof (cases "fsm_lifecycle_is_active (in_lifecycle i)")
  case False
  then show ?thesis using assms by (simp add: fsm_tick_instance_def)
next
  case True
  then obtain e1 i1 where "fsm_expire_timers [0..<in_timer_count i] e i = Some (e1, i1)" "fsm_drain_instance e1 i1 = Some (e', i')"
    using assms by (auto simp: fsm_tick_instance_def split: bind_splits)
  then show ?thesis using expire_timers_lives drain_lives lives_trans by blast
qed

lemma deliver_lives:
  assumes "fsm_deliver ev (n, e) i = Some ((n', e'), i')"
  shows "lives e i e' i'"
proof -
  obtain acc sp where s: "fsm_instance_accepts e i ev = (acc, sp)" by fastforce
  show ?thesis
  proof (cases "fsm_lifecycle_is_active (in_lifecycle i) \<and> acc")
    case False
    then have "e' = e \<and> (\<exists>b. i' = fsm_count_suppressed b i \<or> i' = i)"
      using assms s by (cases "fsm_lifecycle_is_active (in_lifecycle i)") (auto simp: fsm_deliver_def)
    then show ?thesis by auto
  next
    case True
    then obtain okay where "fsm_push_incoming ev e i = Some (okay, e', i')"
      using assms s by (auto simp: fsm_deliver_def split: bind_splits)
    then show ?thesis by (rule push_incoming_lives)
  qed
qed


subsection \<open>The whole engine\<close>

definition instance_wf :: "fsm_instance \<Rightarrow> bool" where
  "instance_wf i \<longleftrightarrow> instance_ok i \<and> settled i \<and> \<not> in_processing i"

definition engine_wf :: "'c fsm_engine \<Rightarrow> bool" where
  "engine_wf e \<longleftrightarrow> engine_ok e \<and> list_all instance_wf (en_instances e)"

lemma lives_wf: "lives e i e' i' \<Longrightarrow> engine_ok e \<Longrightarrow> instance_wf i \<Longrightarrow> instance_wf i'"
  by (simp add: lives_def instance_wf_def same_identity_def)

lemma for_instances_lives:
  assumes "\<And>s i s' i'. f s i = Some (s', i') \<Longrightarrow> lives (g s) i (g s') i'"
  shows "fsm_for_instances f s is = Some (s', is') \<Longrightarrow> same_config (g s) (g s') \<and> list_all2 same_identity is is' \<and>
    (engine_ok (g s) \<longrightarrow> engine_ok (g s')) \<and> (engine_ok (g s) \<longrightarrow> list_all instance_wf is \<longrightarrow> list_all instance_wf is')"
proof (induction "is" arbitrary: s is')
  case (Cons i "is")
  obtain s1 i1 is1 where x: "f s i = Some (s1, i1)" and r: "fsm_for_instances f s1 is = Some (s', is1)" and is': "is' = i1 # is1"
    using Cons.prems by (auto split: bind_splits)
  have l: "lives (g s) i (g s1) i1" using x by (rule assms)
  have "same_config (g s1) (g s') \<and> list_all2 same_identity is is1 \<and>
    (engine_ok (g s1) \<longrightarrow> engine_ok (g s')) \<and> (engine_ok (g s1) \<longrightarrow> list_all instance_wf is \<longrightarrow> list_all instance_wf is1)"
    using Cons.IH [OF r] .
  then show ?case
    using l lives_wf [OF l] same_config_trans [of "g s" "g s1" "g s'"] unfolding is' by (auto simp: lives_def)
qed simp

text \<open>The calls of the environment, with the changes it makes between them: the clock, and the
  consumer of the global queue.\<close>

inductive engine_call :: "'c fsm_engine \<Rightarrow> 'c fsm_engine \<Rightarrow> bool" where
  call_event: "engine_process_event (Some e) ev = Some (st, Some e') \<Longrightarrow> engine_call e e'"
| call_inject: "engine_inject_event (Some e) (Some k) ev = Some (st, Some e') \<Longrightarrow> k < length (en_instances e) \<Longrightarrow> engine_call e e'"
| call_tick: "engine_tick (Some e) = Some (st, Some e') \<Longrightarrow> engine_call e e'"
| call_enable: "instance_enable (Some e) (Some k) = Some (st, Some e') \<Longrightarrow> k < length (en_instances e) \<Longrightarrow> engine_call e e'"
| call_start: "instance_start (Some e) (Some k) = Some (st, Some e') \<Longrightarrow> k < length (en_instances e) \<Longrightarrow> engine_call e e'"
| call_suspend: "instance_suspend (Some e) (Some k) = Some (st, Some e') \<Longrightarrow> k < length (en_instances e) \<Longrightarrow> engine_call e e'"
| call_resume: "instance_resume (Some e) (Some k) = Some (st, Some e') \<Longrightarrow> k < length (en_instances e) \<Longrightarrow> engine_call e e'"
| call_fault: "instance_fault (Some e) (Some k) = Some (st, Some e') \<Longrightarrow> k < length (en_instances e) \<Longrightarrow> engine_call e e'"
| call_reset: "instance_reset (Some e) (Some k) = Some (st, Some e') \<Longrightarrow> k < length (en_instances e) \<Longrightarrow> engine_call e e'"
| call_disable: "instance_disable (Some e) (Some k) = Some (st, Some e') \<Longrightarrow> k < length (en_instances e) \<Longrightarrow> engine_call e e'"
| call_trace_clear: "engine_trace_clear (Some e) = Some e' \<Longrightarrow> engine_call e e'"
| call_clock: "engine_call e (e\<lparr>en_clock := c\<rparr>)"
| call_consume: "queue_inv q \<Longrightarrow> engine_call e (e\<lparr>en_global_queue := Some q\<rparr>)"

definition config_sound :: "'c fsm_engine_config \<Rightarrow> bool" where
  "config_sound c \<longleftrightarrow> (case cf_storage c of None \<Rightarrow> True
     | Some ss \<Rightarrow> cf_instance_capacity c \<le> length ss \<and>
         (\<forall>s \<in> set ss. unat (sg_event_capacity s) \<le> length (sg_event_slots s) \<and>
            sg_variable_capacity s \<le> length (sg_variables s) \<and> sg_timer_capacity s \<le> length (sg_timers s))) \<and>
     (case cf_global_queue c of None \<Rightarrow> True | Some q \<Rightarrow> queue_inv q)"

inductive engine_reachable :: "'c fsm_engine_config \<Rightarrow> 'c fsm_engine \<Rightarrow> bool" for c where
  reach_init: "engine_init (Some e0) (Some c) = Some (True, Some e) \<Longrightarrow> engine_reachable c e"
| reach_call: "engine_reachable c e \<Longrightarrow> engine_call e e' \<Longrightarrow> engine_reachable c e'"

definition configured :: "'c fsm_engine_config \<Rightarrow> 'c fsm_engine \<Rightarrow> bool" where
  "configured c e \<longleftrightarrow> en_capabilities e = cf_capabilities c \<and> en_governor e = cf_governor c"

definition kept :: "'c fsm_engine \<Rightarrow> 'c fsm_engine \<Rightarrow> bool" where
  "kept e e' \<longleftrightarrow> en_capabilities e' = en_capabilities e \<and> en_governor e' = en_governor e \<and> (engine_wf e \<longrightarrow> engine_wf e')"

lemma kept_refl [simp]: "kept e e"
  by (simp add: kept_def)

lemma on_instance_kept:
  assumes "on_instance f (Some e) (Some k) = Some (st, Some e')" and "k < length (en_instances e)"
    and f: "\<And>e i st e' i'. f e i = Some (st, e', i') \<Longrightarrow> lives e i e' i'"
  shows "kept e e'"
proof (cases "en_ready e")
  case False
  then show ?thesis using assms(1) by (simp add: on_instance_def engine_is_valid_def)
next
  case True
  then obtain e1 i1 where x: "f e (en_instances e ! k) = Some (st, e1, i1)" and e': "e' = e1\<lparr>en_instances := (en_instances e1)[k := i1]\<rparr>"
    using assms(1) by (auto simp: on_instance_def engine_is_valid_def Let_def split: bind_splits)
  note l = f [OF x]
  have s: "same_config e e1" and k: "engine_ok e \<longrightarrow> engine_ok e1" using l by (simp_all add: lives_def)
  have "list_all instance_wf ((en_instances e)[k := i1])" if "engine_wf e"
    using that assms(2) lives_wf [OF l] by (auto simp: engine_wf_def list_all_length nth_list_update)
  then show ?thesis
    using s k unfolding e' by (auto simp: kept_def engine_wf_def same_config_def engine_ok_def global_ok_def)
qed

lemma engine_ok_counters [simp]: "engine_ok (e\<lparr>en_counters := x\<rparr>) = engine_ok e"
  by (simp add: engine_ok_def global_ok_def)

lemma process_event_kept:
  assumes "engine_process_event (Some e) ev = Some (st, Some e')"
  shows "kept e e'"
proof (cases "en_ready e \<and> ev \<noteq> None \<and> event_is_valid ev")
  case False
  then have "e' = e" using assms by (auto simp: engine_process_event_def engine_is_valid_def simp del: event_is_valid.simps split: if_splits)
  then show ?thesis by simp
next
  case True
  obtain x y n e2 is2 e4 is4 where d: "fsm_for_instances (fsm_deliver (the ev)) (0, e\<lparr>en_counters := x\<rparr>) (en_instances e) = Some ((n, e2), is2)"
    and r: "fsm_for_instances fsm_drain_instance (e2\<lparr>en_counters := y\<rparr>) is2 = Some (e4, is4)"
    and e': "e' = e4\<lparr>en_instances := is4\<rparr>"
    using assms True by (auto simp: engine_process_event_def engine_is_valid_def Let_def simp del: event_is_valid.simps split: bind_splits)
  have 1: "same_config (e\<lparr>en_counters := x\<rparr>) e2 \<and> list_all2 same_identity (en_instances e) is2 \<and> (engine_ok e \<longrightarrow> engine_ok e2) \<and>
    (engine_ok e \<longrightarrow> list_all instance_wf (en_instances e) \<longrightarrow> list_all instance_wf is2)"
    using for_instances_lives [of "fsm_deliver (the ev)" snd, OF _ d] deliver_lives by fastforce
  have 2: "same_config (e2\<lparr>en_counters := y\<rparr>) e4 \<and> list_all2 same_identity is2 is4 \<and> (engine_ok e2 \<longrightarrow> engine_ok e4) \<and>
    (engine_ok e2 \<longrightarrow> list_all instance_wf is2 \<longrightarrow> list_all instance_wf is4)"
    using for_instances_lives [of fsm_drain_instance "\<lambda>e. e", OF _ r] drain_lives by fastforce
  show ?thesis using 1 2 unfolding e' by (auto simp: kept_def engine_wf_def same_config_def engine_ok_def global_ok_def)
qed

lemma tick_kept:
  assumes "engine_tick (Some e) = Some (st, Some e')"
  shows "kept e e'"
proof (cases "en_ready e")
  case False
  then show ?thesis using assms by (simp add: engine_tick_def engine_is_valid_def)
next
  case True
  obtain e2 is2 where r: "fsm_for_instances fsm_tick_instance (fsm_advance_time e) (en_instances e) = Some (e2, is2)"
    and e': "e' = e2\<lparr>en_instances := is2\<rparr>"
    using assms True by (auto simp: engine_tick_def engine_is_valid_def Let_def fsm_advance_time_def split: bind_splits)
  have a: "engine_ok (fsm_advance_time e) = engine_ok e" by (simp add: fsm_advance_time_def engine_ok_def global_ok_def)
  have "same_config (fsm_advance_time e) e2 \<and> list_all2 same_identity (en_instances e) is2 \<and> (engine_ok e \<longrightarrow> engine_ok e2) \<and>
    (engine_ok e \<longrightarrow> list_all instance_wf (en_instances e) \<longrightarrow> list_all instance_wf is2)"
    using for_instances_lives [of fsm_tick_instance "\<lambda>e. e", OF _ r] tick_instance_lives unfolding a by fastforce
  then show ?thesis unfolding e' by (auto simp: kept_def engine_wf_def same_config_def engine_ok_def global_ok_def fsm_advance_time_def)
qed

lemma engine_call_kept: "engine_call e e' \<Longrightarrow> kept e e'"
proof (induction rule: engine_call.induct)
  case (call_inject e k ev st e')
  then show ?case
  proof (cases ev)
    case None
    then show ?thesis using call_inject by (simp add: engine_inject_event_def)
  next
    case (Some x)
    then have "on_instance (fsm_inject x) (Some e) (Some k) = Some (st, Some e')"
      using call_inject(1) by (simp add: engine_inject_event_def)
    then show ?thesis using call_inject(2) inject_lives by (rule on_instance_kept)
  qed
next
  case (call_enable e k st e')
  show ?case by (rule on_instance_kept [OF call_enable(1) [unfolded instance_enable_def] call_enable(2)]) (simp add: enable_lives)
next
  case (call_start e k st e')
  show ?case by (rule on_instance_kept [OF call_start(1) [unfolded instance_start_def] call_start(2)]) (simp add: start_lives)
next
  case (call_suspend e k st e')
  show ?case by (rule on_instance_kept [OF call_suspend(1) [unfolded instance_suspend_def] call_suspend(2)]) (simp add: suspend_lives)
next
  case (call_resume e k st e')
  show ?case by (rule on_instance_kept [OF call_resume(1) [unfolded instance_resume_def] call_resume(2)]) (simp add: resume_lives)
next
  case (call_fault e k st e')
  show ?case by (rule on_instance_kept [OF call_fault(1) [unfolded instance_fault_def] call_fault(2)]) (simp add: fault_lives)
next
  case (call_reset e k st e')
  show ?case by (rule on_instance_kept [OF call_reset(1) [unfolded instance_reset_def] call_reset(2)]) (simp add: reset_lives)
next
  case (call_disable e k st e')
  show ?case by (rule on_instance_kept [OF call_disable(1) [unfolded instance_disable_def] call_disable(2)]) (simp add: disable_lives)
next
  case (call_event e ev st e')
  then show ?case by (rule process_event_kept)
next
  case (call_tick e st e')
  then show ?case by (rule tick_kept)
qed (auto simp: kept_def engine_wf_def engine_ok_def global_ok_def engine_trace_clear_def)


lemma fresh_incoming:
  assumes "event_queue_init (Some zero_queue) slots cap = (True, Some q)" and "unat cap \<le> length slots"
  shows "queue_inv q"
  using queue_inv_fresh(1) assms unfolding event_queue_init_def by blast

lemma bind_instance_wf:
  assumes "fsm_bind_instance c bound sd = Some i" and "config_sound c" and "cf_storage c \<noteq> None"
  shows "instance_wf i"
proof -
  obtain s d where sd: "sd = (s, d)" by (cases sd)
  define m where "m = fq_machines s ! fd_machine_index d"
  define st where "st = the (cf_storage c) ! length bound"
  have n: "length bound < cf_instance_capacity c"
    using assms(1) sd by (auto simp: fsm_bind_instance_def split: if_splits)
  obtain ss where ss: "cf_storage c = Some ss" using assms(3) by auto
  then have "st \<in> set ss" using n assms(2) by (auto simp: config_sound_def st_def)
  then have b: "unat (sg_event_capacity st) \<le> length (sg_event_slots st)" "sg_variable_capacity st \<le> length (sg_variables st)"
    "sg_timer_capacity st \<le> length (sg_timers st)"
    using ss assms(2) by (auto simp: config_sound_def)
  obtain q where q: "event_queue_init (Some zero_queue) (sg_event_slots st) (sg_event_capacity st) = (True, Some q)"
    and i: "in_incoming i = q" "in_has_state i = False" "in_variables i = sg_variables st" "in_variable_capacity i = sg_variable_capacity st"
      "in_variable_count i = 0" "in_timers i = sg_timers st" "in_timer_capacity i = sg_timer_capacity st" "in_timer_count i = 0"
      "in_deferred_pending i = False" "in_processing i = False"
    using assms(1) unfolding sd fsm_bind_instance_def m_def [symmetric] st_def [symmetric]
    by (auto simp: Let_def simp del: event_queue_init_with_reserved.simps split: if_splits prod.splits bool.splits option.splits)
  show ?thesis using fresh_incoming [OF q b(1)] b i by (simp add: instance_wf_def instance_ok_def settled_def)
qed

lemma bind_instances_wf:
  "fsm_bind_instances c bound sds = Some is \<Longrightarrow> config_sound c \<Longrightarrow> cf_storage c \<noteq> None \<Longrightarrow> list_all instance_wf bound \<Longrightarrow>
     list_all instance_wf is"
  by (induction c bound sds rule: fsm_bind_instances.induct) (auto split: option.splits dest: bind_instance_wf)

lemma enable_declared_lives:
  assumes "fsm_enable_declared e i = Some (e', i')"
  shows "lives e i e' i'"
proof (cases "fd_enabled (in_def i)")
  case True
  then obtain st where "fsm_enable e i = Some (st, e', i')" using assms by (auto simp: fsm_enable_declared_def)
  then show ?thesis by (rule enable_lives)
next
  case False
  then show ?thesis using assms by (simp add: fsm_enable_declared_def)
qed

lemma engine_init_wf:
  assumes "engine_init (Some e0) (Some c) = Some (True, Some e)" and "config_sound c"
  shows "engine_wf e" and "configured c e"
proof -
  have ok: "fsm_config_ok c" using assms(1) by (auto simp: engine_init_def split: if_splits)
  then have st: "cf_storage c \<noteq> None" by (simp add: fsm_config_ok_def)
  obtain "is" e1 is1 where b: "fsm_bind_instances c [] (concat (List.map (\<lambda>s. List.map (Pair s) (fq_instances s)) (cf_sets c))) = Some is"
    and f: "fsm_for_instances fsm_enable_declared ((fsm_engine_from c)\<lparr>en_instances := is, en_ready := True\<rparr>) is = Some (e1, is1)"
    and e: "e = e1\<lparr>en_instances := is1\<rparr>"
    using assms(1) ok by (auto simp: engine_init_def split: option.splits bind_splits)
  let ?e = "(fsm_engine_from c)\<lparr>en_instances := is, en_ready := True\<rparr>"
  have w: "list_all instance_wf is" using bind_instances_wf [OF b assms(2) st] by simp
  have k: "engine_ok ?e" using assms(2)
    by (simp add: engine_ok_def global_ok_def fsm_engine_from_def fsm_zero_engine_def config_sound_def)
  have "same_config ?e e1 \<and> list_all2 same_identity is is1 \<and> (engine_ok ?e \<longrightarrow> engine_ok e1) \<and>
    (engine_ok ?e \<longrightarrow> list_all instance_wf is \<longrightarrow> list_all instance_wf is1)"
    using for_instances_lives [of fsm_enable_declared "\<lambda>e. e", OF _ f] enable_declared_lives by blast
  then show "engine_wf e" and "configured c e"
    using w k unfolding e
    by (auto simp: engine_wf_def same_config_def engine_ok_def global_ok_def configured_def fsm_engine_from_def)
qed

lemma reachable_invariant: "engine_reachable c e \<Longrightarrow> config_sound c \<Longrightarrow> engine_wf e \<and> configured c e"
proof (induction rule: engine_reachable.induct)
  case (reach_init e0 e)
  then show ?case using engine_init_wf by blast
next
  case (reach_call e e')
  then show ?case using engine_call_kept [OF reach_call.hyps(2)] by (auto simp: kept_def configured_def)
qed

end
