(* ===== verification/Fsm_Engine_Properties.thy ===== *)
theory Fsm_Engine_Properties
  imports Fsm_Engine_Reach
begin

text \<open>
  The properties of the state machine runtime, with a small configuration for their witnesses: one
  machine whose entry action writes a signal and whose timer moves it to a second state.
\<close>

subsection \<open>A configuration\<close>

definition demo_fsm :: fsm_machine where
  "demo_fsm = \<lparr>fm_name = ''m'', fm_description = None, fm_initial = ''a'', fm_initial_index = 0,
     fm_variables = [\<lparr>vd_name = ''n'', vd_type = KIND_INT, vd_default = Some (Operand_literal (Value_int 7))\<rparr>],
     fm_timers = [\<lparr>td_name = ''t'', td_duration_ms = 1, td_repeat = True, td_auto_start = True\<rparr>],
     fm_states = [
       \<lparr>fs_name = ''a'', fs_entry = [Action_set_signal ''s'' (Operand_literal (Value_bool True))], fs_exit = [],
         fs_transitions = [\<lparr>ft_event = EVENT_TYPE_TIMER_EXPIRED, ft_interface = None, ft_message = None, ft_signal = None,
           ft_timer = Some ''t'', ft_guard = None, ft_actions = [Action_set_variable ''n'' (Operand_literal (Value_real 0))],
           ft_target = ''b'', ft_target_index = 1\<rparr>]\<rparr>,
       \<lparr>fs_name = ''b'', fs_entry = [], fs_exit = [], fs_transitions = []\<rparr>]\<rparr>"

definition demo_set :: fsm_set where
  "demo_set = \<lparr>fq_machines = [demo_fsm], fq_instances = [\<lparr>fd_id = ''i'', fd_machine = ''m'', fd_machine_index = 0,
     fd_enabled = True, fd_bindings = [], fd_variables = [],
     fd_subscriptions = \<lparr>sb_can_rx = None, sb_signals = None, sb_timers = None, sb_faults = None, sb_power_mode = None\<rparr>\<rparr>]\<rparr>"

definition demo_fsm_config :: "unit fsm_engine_config" where
  "demo_fsm_config = \<lparr>cf_sets = [demo_set], cf_instances = True,
     cf_storage = Some [\<lparr>sg_event_slots = replicate 2 zero_event, sg_event_capacity = 2,
       sg_variables = [\<lparr>vs_name = [], vs_declared = KIND_UNSET, vs_value = Value_unset, vs_initialized = False\<rparr>],
       sg_variable_capacity = 1,
       sg_timers = [\<lparr>ts_name = [], ts_id = 0, ts_running = False, ts_repeat = False, ts_duration_ms = 0, ts_deadline_us = 0,
         ts_expires = 0, ts_missed_ticks = 0\<rparr>], sg_timer_capacity = 1\<rparr>],
     cf_instance_capacity = 1, cf_clock = None,
     cf_capabilities = Some \<lparr>cp_interfaces = [], cp_signal_read = [], cp_signal_write = [''s'']\<rparr>, cf_namespace = None,
     cf_signal_bus = Some \<lparr>bus_read = None, bus_write = Some (\<lambda>h n v. FSM_OK), bus_resolve = None\<rparr>,
     cf_global_queue = None, cf_bindings = None, cf_binding_count = 0,
     cf_governor = Some (\<lambda>h r. FSM_GOVERNOR_APPROVE), cf_sink = None, cf_trace = [], cf_trace_capacity = 0,
     cf_max_chain_depth = 0, cf_max_actions_per_event = 0, cf_max_events_per_activation = 0, cf_record_events = False\<rparr>"

lemma demo_fsm_config_sound: "config_sound demo_fsm_config"
  by (simp add: config_sound_def demo_fsm_config_def)

definition demo_runtime :: "unit fsm_engine" where
  "demo_runtime = the (snd (the (engine_init (Some fsm_zero_engine) (Some demo_fsm_config))))"

definition demo_started :: "unit fsm_engine" where
  "demo_started = the (snd (the (instance_start (Some demo_runtime) (Some 0))))"

definition demo_ticked :: "unit fsm_engine" where
  "demo_ticked = the (snd (the (engine_tick (Some demo_started))))"

lemma demo_results:
  "(case engine_init (Some fsm_zero_engine) (Some demo_fsm_config) of Some (okay, Some e) \<Rightarrow> okay | _ \<Rightarrow> False)"
  "(case instance_start (Some demo_runtime) (Some 0) of Some (st, Some e) \<Rightarrow> st = FSM_OK | _ \<Rightarrow> False)"
  "(case engine_tick (Some demo_started) of Some (st, Some e) \<Rightarrow> st = FSM_OK | _ \<Rightarrow> False)"
  "length (en_instances demo_runtime) = 1" "length (en_instances demo_ticked) = 1"
  by code_simp+

lemma demo_started_effects:
  "(case en_effects demo_started of [Effect_governor r d, Effect_bus_write n v st] \<Rightarrow> True | _ \<Rightarrow> False)"
  by code_simp

lemma demo_ticked_state:
  "in_state_index (en_instances demo_ticked ! 0) = 1 \<and> List.map vs_value (in_variables (en_instances demo_ticked ! 0)) = [Value_int 0]"
  by code_simp

lemma demo_steps:
  "engine_init (Some fsm_zero_engine) (Some demo_fsm_config) = Some (True, Some demo_runtime)"
  "instance_start (Some demo_runtime) (Some 0) = Some (FSM_OK, Some demo_started)"
  "engine_tick (Some demo_started) = Some (FSM_OK, Some demo_ticked)"
  using demo_results(1-3)
  by (auto simp: demo_runtime_def [symmetric] demo_started_def demo_ticked_def split: option.splits prod.splits)
    (auto simp: demo_runtime_def)

lemma demo_reachable:
  "engine_reachable demo_fsm_config demo_started" "engine_reachable demo_fsm_config demo_ticked"
proof -
  have 0: "engine_reachable demo_fsm_config demo_runtime" using demo_steps(1) by (rule reach_init)
  show 1: "engine_reachable demo_fsm_config demo_started"
    by (rule reach_call [OF 0 call_start [OF demo_steps(2)]]) (simp add: demo_results(4))
  show "engine_reachable demo_fsm_config demo_ticked"
    by (rule reach_call [OF 1 call_tick [OF demo_steps(3)]])
qed

subsection \<open>Safety of the commands\<close>

text \<open>C28: No command leaves a machine without the governor. In the history of any reachable engine,
  every message handed to the sink names a declared transmit interface and an identifier that interface
  may transmit, every write of the bus a declared writable signal, and the effect just before it is the
  governor's approval of that very frame or value; every recorded decision is the governor's own.\<close>

theorem commands_are_governed:
  assumes "config_sound c" and "engine_reachable c e" and "en_effects e = xs @ x # ys"
  shows "effect_lawful (cf_capabilities c) (cf_governor c) xs x"
proof -
  have "engine_wf e" "configured c e" using reachable_invariant [OF assms(2,1)] by blast+
  then have "history_lawful (cf_capabilities c) (cf_governor c) (en_effects e)"
    by (simp add: engine_wf_def engine_ok_def configured_def)
  then show ?thesis unfolding history_lawful_def using assms(3) by (rule lawful_history_at)
qed

lemma commands_are_governed_witness:
  "\<exists>g w. en_effects demo_started = [g] @ w # [] \<and> (\<exists>n v st. w = Effect_bus_write n v st) \<and>
     effect_lawful (cf_capabilities demo_fsm_config) (cf_governor demo_fsm_config) [g] w"
proof -
  obtain g w where gw: "en_effects demo_started = [g] @ w # []" and k: "\<exists>n v st. w = Effect_bus_write n v st"
    using demo_started_effects by (auto split: list.splits fsm_effect.splits)
  then show ?thesis using commands_are_governed [OF demo_fsm_config_sound demo_reachable(1) gw] by blast
qed

text \<open>C29: The type invariant of the runtime. In any reachable engine every instance has a well-formed
  incoming queue and a state of its machine, every initialised variable holds a value of its declared
  type, the timers in use are those of the machine, no deferred transition is pending and no instance is
  marked as processing.\<close>

theorem reachable_instances_are_typed:
  assumes "config_sound c" and "engine_reachable c e" and "i \<in> set (en_instances e)"
  shows "queue_inv (in_incoming i) \<and>
     (in_has_state i \<longrightarrow> in_state_index i < length (fm_states (in_machine i))) \<and>
     (\<forall>k < in_variable_count i. vs_initialized (in_variables i ! k) \<longrightarrow>
        value_kind_of (vs_value (in_variables i ! k)) = vs_declared (in_variables i ! k)) \<and>
     in_timer_count i \<le> length (fm_timers (in_machine i)) \<and> \<not> in_deferred_pending i \<and> \<not> in_processing i"
proof -
  have "engine_wf e" using reachable_invariant [OF assms(2,1)] by blast
  then have w: "instance_wf i" using assms(3) by (auto simp: engine_wf_def list_all_iff)
  have "slot_typed (in_variables i ! k)" if "k < in_variable_count i" for k
  proof -
    have ok: "instance_ok i" using w by (simp add: instance_wf_def)
    then have "in_variables i ! k \<in> set (take (in_variable_count i) (in_variables i))"
      using that by (auto simp: instance_ok_def in_set_conv_nth intro!: exI [of _ k])
    then show ?thesis using ok by (simp add: instance_ok_def)
  qed
  then show ?thesis using w by (auto simp: instance_wf_def instance_ok_def settled_def slot_typed_def)
qed

lemma reachable_instances_are_typed_witness:
  "in_variables (en_instances demo_ticked ! 0) \<noteq> [] \<and> queue_inv (in_incoming (en_instances demo_ticked ! 0)) \<and>
   \<not> in_deferred_pending (en_instances demo_ticked ! 0)"
proof -
  have "en_instances demo_ticked ! 0 \<in> set (en_instances demo_ticked)" using demo_results(5) by simp
  from reachable_instances_are_typed [OF demo_fsm_config_sound demo_reachable(2) this]
  show ?thesis using demo_ticked_state by auto
qed

subsection \<open>Selection of a transition\<close>

text \<open>The reference: guards are pure functions of the activation before any of them is evaluated.
  \<open>None\<close> is a guard that fails or is not boolean.\<close>

definition guard_value :: "expr_context \<Rightarrow> string option \<Rightarrow> bool option" where
  "guard_value cx guard = (case guard of None \<Rightarrow> Some True
     | Some g \<Rightarrow> (case expression_evaluate (Some g) (Some cx) of Some (Inr (Value_bool b)) \<Rightarrow> Some b | _ \<Rightarrow> None))"

fun first_enabled :: "(fsm_transition \<Rightarrow> bool) \<Rightarrow> expr_context \<Rightarrow> fsm_transition list \<Rightarrow> fsm_transition option" where
  "first_enabled selects cx [] = None"
| "first_enabled selects cx (t # ts) =
     (if \<not> selects t then first_enabled selects cx ts
      else case guard_value cx (ft_guard t) of
        None \<Rightarrow> None
      | Some b \<Rightarrow> if b then Some t else first_enabled selects cx ts)"

definition view_of :: "'c fsm_activation \<Rightarrow> (event \<Rightarrow> fsm_transition \<Rightarrow> bool) \<times> expr_context" where
  "view_of a = (\<lambda>ev t. fsm_transition_matches (ac_engine a) (ac_instance a) t ev,
     fsm_expression_context (ac_engine a) (ac_instance a) (ac_event a))"

lemma view_trace [simp]: "view_of (act_trace kind code tx a) = view_of a"
  by (simp add: view_of_def act_trace_def fsm_trace_def Let_def fsm_transition_matches_def fsm_match_can_rx_def
      fsm_interface_is_def fsm_message_is_def fsm_resolve_interface_def fsm_capability_interface_def fsm_resolve_message_def
      fsm_expression_context_def fsm_eval_read_signal_def [abs_def] cong: if_cong option.case_cong event_type.case_cong)

lemma view_count [simp]: "view_of (act_count field a) = view_of a"
  by (simp add: view_of_def act_count_def count_in_def fsm_transition_matches_def fsm_match_can_rx_def
      fsm_interface_is_def fsm_resolve_interface_def fsm_timer_index_def fsm_variable_index_def
      fsm_expression_context_def fsm_eval_read_variable_def [abs_def] cong: if_cong option.case_cong event_type.case_cong)

lemma view_flags [simp]:
  "view_of (a\<lparr>ac_suspend_requested := b\<rparr>) = view_of a" "view_of (a\<lparr>ac_expression_error := err\<rparr>) = view_of a"
  by (simp_all add: view_of_def)

lemma guard_views:
  assumes "fsm_evaluate_guard guard a = Some (st, holds, b)"
  shows "view_of b = view_of a" and "ac_event b = ac_event a"
    and "guard_value (snd (view_of a)) guard = (if st = FSM_OK then Some holds else None)"
    and "st \<noteq> FSM_OK \<Longrightarrow> ac_suspend_requested b"
proof -
  have ev: "ac_event (act_count f c) = ac_event c" "ac_event (act_trace k n tx c) = ac_event c"
    "ac_suspend_requested (act_count f c) = ac_suspend_requested c" "ac_suspend_requested (act_trace k n tx c) = ac_suspend_requested c"
    for f :: "(u32 \<Rightarrow> u32) \<Rightarrow> fsm_instance_counters \<Rightarrow> fsm_instance_counters" and c :: "'a fsm_activation" and k n tx
    by (simp_all add: act_count_def act_trace_def)
  have "view_of b = view_of a \<and> ac_event b = ac_event a \<and>
    guard_value (snd (view_of a)) guard = (if st = FSM_OK then Some holds else None) \<and> (st \<noteq> FSM_OK \<longrightarrow> ac_suspend_requested b)"
  proof (cases guard)
    case None
    then show ?thesis using assms by (auto simp: fsm_evaluate_guard_def guard_value_def)
  next
    case (Some g)
    define a1 where "a1 = act_count ic_guards_evaluated_update (a\<lparr>ac_expression_error := EXPR_OK\<rparr>)"
    have v: "view_of a1 = view_of a" "ac_event a1 = ac_event a" by (simp_all add: a1_def ev)
    have cx: "fsm_expression_context (ac_engine a1) (ac_instance a1) (ac_event a1) = snd (view_of a)"
      using v by (simp add: view_of_def)
    obtain x where x: "expression_evaluate (Some g) (Some (snd (view_of a))) = Some x"
      using evaluation_returns by blast
    show ?thesis
    proof (cases x)
      case (Inl err)
      then show ?thesis
        using assms x v unfolding Some fsm_evaluate_guard_def option.case Let_def a1_def [symmetric] cx
        by (auto simp: ev guard_value_def split: if_splits)
    next
      case (Inr y)
      then show ?thesis
        using assms x v unfolding Some fsm_evaluate_guard_def option.case Let_def a1_def [symmetric] cx
        by (cases y) (auto simp: ev guard_value_def split: if_splits bool.splits)
    qed
  qed
  then show "view_of b = view_of a" and "ac_event b = ac_event a"
    and "guard_value (snd (view_of a)) guard = (if st = FSM_OK then Some holds else None)"
    and "st \<noteq> FSM_OK \<Longrightarrow> ac_suspend_requested b"
    by blast+
qed

lemma guard_returns: "\<exists>st holds b. fsm_evaluate_guard guard a = Some (st, holds, b)"
proof (cases guard)
  case None
  then have "fsm_evaluate_guard guard a = Some (FSM_OK, True, a\<lparr>ac_expression_error := EXPR_OK\<rparr>)"
    by (simp add: fsm_evaluate_guard_def)
  then show ?thesis by blast
next
  case (Some g)
  define a1 where "a1 = act_count ic_guards_evaluated_update (a\<lparr>ac_expression_error := EXPR_OK\<rparr>)"
  obtain x where x: "expression_evaluate (Some g) (Some (fsm_expression_context (ac_engine a1) (ac_instance a1) (ac_event a1))) = Some x"
    using evaluation_returns by blast
  show ?thesis
    unfolding Some fsm_evaluate_guard_def option.case Let_def a1_def [symmetric] x
    by (auto split: sum.splits signal_value.splits bool.splits)
qed

lemma select_is_reference:
  "\<exists>b. fsm_select_from ts ev a = Some (first_enabled (fst (view_of a) ev) (snd (view_of a)) ts, b)"
proof (induction ts arbitrary: a)
  case (Cons t ts)
  show ?case
  proof (cases "fsm_transition_matches (ac_engine a) (ac_instance a) t ev")
    case False
    then show ?thesis using Cons [of a] by (simp add: view_of_def)
  next
    case True
    obtain st holds b where g: "fsm_evaluate_guard (ft_guard t) a = Some (st, holds, b)" using guard_returns by blast
    have m: "fst (view_of a) ev t" using True by (simp add: view_of_def)
    show ?thesis using Cons [of b] True m guard_views(1,3) [OF g] g by auto
  qed
qed simp

text \<open>C30: Selection always returns, and returns what the reference says: the first transition in the
  order of declaration that matches the event and whose guard is true, where all guards are judged on the
  activation as it was before the first of them; a guard that fails or is not boolean ends the search with
  no transition, and evaluating guards writes nothing a later guard could see.\<close>

theorem selection_is_first_enabled:
  "\<exists>b. fsm_select_from ts ev a =
     Some (first_enabled (\<lambda>t. fsm_transition_matches (ac_engine a) (ac_instance a) t ev)
       (fsm_expression_context (ac_engine a) (ac_instance a) (ac_event a)) ts, b)"
  using select_is_reference [of ts ev a] by (simp add: view_of_def)

subsection \<open>Transitions\<close>

text \<open>What happens before the commitment: the exit actions and the exit event, then the actions of the
  transition.\<close>

definition leave_state :: "fsm_transition option \<Rightarrow> u16 \<Rightarrow> 'c fsm_activation \<Rightarrow> 'c fsm_activation option" where
  "leave_state t depth a = do {
     b \<leftarrow> (case fsm_current_state (ac_instance a) of None \<Rightarrow> Some a
       | Some s \<Rightarrow> do {
           c \<leftarrow> fsm_run_actions t (Some (fs_name s)) (fs_exit s) depth a;
           if ac_suspend_requested c then Some c
           else fsm_emit_state_event EVENT_TYPE_STATE_EXITED (in_state_index (ac_instance a)) c });
     (case t of None \<Rightarrow> Some b | Some u \<Rightarrow> fsm_run_actions t None (ft_actions u) depth b) }"

lemma leave_state_keeps_state:
  assumes "leave_state t depth a = Some c"
  shows "stays a c"
proof -
  obtain b where l: "(case fsm_current_state (ac_instance a) of None \<Rightarrow> Some a
       | Some s \<Rightarrow> do {
           c \<leftarrow> fsm_run_actions t (Some (fs_name s)) (fs_exit s) depth a;
           if ac_suspend_requested c then Some c
           else fsm_emit_state_event EVENT_TYPE_STATE_EXITED (in_state_index (ac_instance a)) c }) = Some b"
    and r: "(case t of None \<Rightarrow> Some b | Some u \<Rightarrow> fsm_run_actions t None (ft_actions u) depth b) = Some c"
    using assms unfolding leave_state_def by (auto split: bind_splits)
  have "stays b c"
  proof (cases t)
    case (Some u)
    then have "fsm_run_actions t None (ft_actions u) depth b = Some c" using r by simp
    then show ?thesis using run_actions_step unfolding stays_def by blast
  qed (use r in simp)
  with leave_state_stays [OF l] show ?thesis by (rule stays_trans)
qed

lemma execute_after_leaving:
  assumes "leave_state t depth a = Some c"
    and "(case t of Some u \<Rightarrow> ft_target_index u | None \<Rightarrow> in_deferred_target (ac_instance a)) < length (fm_states (in_machine (ac_instance a)))"
  shows "fsm_execute_transition t depth a = (if ac_suspend_requested c then Some c
     else fsm_commit_transition t (map_option fs_name (fsm_current_state (ac_instance a)))
       (case t of Some u \<Rightarrow> ft_target_index u | None \<Rightarrow> in_deferred_target (ac_instance a)) depth c)"
  using assms unfolding fsm_execute_transition_def leave_state_def Let_def not_less [symmetric]
  by (auto split: bind_splits option.splits if_splits)

text \<open>C31: A transition is atomic. When the exit actions and the actions of the transition ask for a
  suspension, the transition ends there: the state, its validity and the count of transitions are what
  they were. Otherwise the target becomes the current state and exactly one transition is counted,
  whatever the entry actions do after that.\<close>

theorem transition_commits_or_suspends:
  assumes "fsm_execute_transition t depth a = Some b" and "leave_state t depth a = Some c"
    and "target = (case t of Some u \<Rightarrow> ft_target_index u | None \<Rightarrow> in_deferred_target (ac_instance a))"
    and "target < length (fm_states (in_machine (ac_instance a)))"
  shows "if ac_suspend_requested c
    then b = c \<and> in_has_state (ac_instance b) = in_has_state (ac_instance a) \<and>
      in_state_index (ac_instance b) = in_state_index (ac_instance a) \<and>
      ic_transitions (in_counters (ac_instance b)) = ic_transitions (in_counters (ac_instance a))
    else in_has_state (ac_instance b) \<and> in_state_index (ac_instance b) = target \<and>
      ic_transitions (in_counters (ac_instance b)) = ic_transitions (in_counters (ac_instance a)) + 1"
proof -
  note x = execute_after_leaving [OF assms(2), folded assms(3), OF assms(4)]
  have s: "stays a c" using assms(2) by (rule leave_state_keeps_state)
  show ?thesis
  proof (cases "ac_suspend_requested c")
    case True
    then show ?thesis using x assms(1) s by (simp add: stays_def same_state_def)
  next
    case False
    then have k: "fsm_commit_transition t (map_option fs_name (fsm_current_state (ac_instance a))) target depth c = Some b"
      using x assms(1) by simp
    have "target < length (fm_states (in_machine (ac_instance c)))"
      using assms(4) same_machine [of a c] step_after [of 0 a c] s by (simp add: stays_def)
    with k have "entered target c b" by (rule commit_entered)
    then show ?thesis using False s by (simp add: entered_def stays_def same_state_def)
  qed
qed

definition demo_activation :: "unit fsm_activation" where
  "demo_activation = fsm_activation_start demo_started (en_instances demo_started ! 0) None"

definition demo_transition :: fsm_transition where
  "demo_transition = fs_transitions (fm_states demo_fsm ! 0) ! 0"

lemma demo_transition_runs:
  "(case leave_state (Some demo_transition) 1 demo_activation of Some c \<Rightarrow> \<not> ac_suspend_requested c | None \<Rightarrow> False)"
  "(case fsm_execute_transition (Some demo_transition) 1 demo_activation of Some b \<Rightarrow> True | None \<Rightarrow> False)"
  "1 < length (fm_states (in_machine (ac_instance demo_activation)))"
  by code_simp+

lemma transition_commits_or_suspends_witness:
  "\<exists>b. fsm_execute_transition (Some demo_transition) 1 demo_activation = Some b \<and> in_state_index (ac_instance b) = 1"
proof -
  obtain b c where b: "fsm_execute_transition (Some demo_transition) 1 demo_activation = Some b"
    and c: "leave_state (Some demo_transition) 1 demo_activation = Some c" "\<not> ac_suspend_requested c"
    using demo_transition_runs(1,2) by (auto split: option.splits)
  have t: "1 = (case Some demo_transition of Some u \<Rightarrow> ft_target_index u | None \<Rightarrow> in_deferred_target (ac_instance demo_activation))"
    by (simp add: demo_transition_def demo_fsm_def)
  show ?thesis using transition_commits_or_suspends [OF b c(1) t demo_transition_runs(3)] b c(2) by simp
qed

text \<open>C32: One event is bounded work. Whatever the machine declares, an activation commits at most the
  configured chain depth of transitions (at least one) and takes at most the configured number of actions,
  each accounted as executed or failed.\<close>

theorem event_work_is_bounded:
  assumes "fsm_activate e i ev = Some (e', i')"
  shows "\<exists>n m. n \<le> max 1 (unat (en_max_chain_depth e)) \<and> m \<le> unat (en_max_actions_per_event e) \<and>
     ic_transitions (in_counters i') = ic_transitions (in_counters i) + of_nat n \<and>
     ic_actions_executed (in_counters i') + ic_action_errors (in_counters i') =
       ic_actions_executed (in_counters i) + ic_action_errors (in_counters i) + of_nat m"
proof -
  let ?a = "fsm_activation_start e i (Some ev)"
  obtain b where p: "fsm_process_queued_event ev ?a = Some b" and f: "fsm_activation_end b = (e', i')"
    using assms by (auto simp: fsm_activate_def)
  have s: "act_step (max 1 (unat (en_max_chain_depth e))) ?a b" using process_event_step(1) [OF p] by simp
  have c: "in_counters i' = in_counters (ac_instance b)"
    using f by (auto simp: fsm_activation_end_def fsm_suspend_def Let_def split: if_splits)
  have l: "unat (ac_action_budget b) \<le> unat (en_max_actions_per_event e)"
    using s by (simp add: act_step_def fsm_activation_start_def word_le_nat_alt)
  let ?m = "unat (en_max_actions_per_event e) - unat (ac_action_budget b)"
  have m: "ucast (en_max_actions_per_event e) = (of_nat ?m + ucast (ac_action_budget b) :: u32)"
    using l by (simp add: of_nat_diff)
  have "spent b = spent ?a" using s by (simp add: act_step_def)
  then have "ic_actions_executed (in_counters i') + ic_action_errors (in_counters i') + ucast (ac_action_budget b) =
       ic_actions_executed (in_counters i) + ic_action_errors (in_counters i) + of_nat ?m + ucast (ac_action_budget b)"
    unfolding spent_def c by (simp add: fsm_activation_start_def m add.assoc)
  then have "ic_actions_executed (in_counters i') + ic_action_errors (in_counters i') =
       ic_actions_executed (in_counters i) + ic_action_errors (in_counters i) + of_nat ?m"
    by (rule add_right_imp_eq)
  moreover have "?m \<le> unat (en_max_actions_per_event e)" by simp
  moreover obtain n where "n \<le> max 1 (unat (en_max_chain_depth e))"
      "ic_transitions (in_counters i') = ic_transitions (in_counters i) + of_nat n"
    using s unfolding act_step_def c by auto
  ultimately show ?thesis by blast
qed

lemma demo_activates: "(case fsm_activate demo_started (en_instances demo_started ! 0) zero_event of Some (e, i) \<Rightarrow> True | None \<Rightarrow> False)"
  by code_simp

lemma event_work_is_bounded_witness:
  "\<exists>e i n. fsm_activate demo_started (en_instances demo_started ! 0) zero_event = Some (e, i) \<and> n \<le> max 1 (unat (en_max_chain_depth demo_started)) \<and>
     ic_transitions (in_counters i) = ic_transitions (in_counters (en_instances demo_started ! 0)) + of_nat n"
proof -
  obtain e i where f: "fsm_activate demo_started (en_instances demo_started ! 0) zero_event = Some (e, i)"
    using demo_activates by (auto split: option.splits)
  then show ?thesis using event_work_is_bounded [OF f] by blast
qed

subsection \<open>Timers\<close>

lemma fsm_us_small:
  assumes "unat ms \<le> 1271310319"
  shows "unat (fsm_us ms) = 1000 * unat ms"
proof -
  have "\<not> ms > (1271310319 :: u32)" using assms by (simp add: word_less_nat_alt)
  moreover have "(ucast (TIME_US_MAX div 1000) :: u32) = 1271310319" by (simp add: TIME_US_MAX_def)
  ultimately have "fsm_us ms = ucast ms * 1000" by (simp add: fsm_us_def)
  moreover have "unat (ucast ms :: u64) = unat ms" by (rule unat_ucast_up) simp
  ultimately show ?thesis using assms by (simp add: unat_word_ariths)
qed

lemma sat_add_exact:
  assumes "unat x + unat y < 2 ^ 64"
  shows "unat (fsm_sat_add x y) = unat x + unat y"
proof -
  have "fsm_sat_add x y = time_sat_add x y" by (simp add: fsm_sat_add_def time_sat_add_def)
  then show ?thesis using assms by (simp add: unat_time_sat_add)
qed

text \<open>C33: A periodic timer keeps to its grid. With a period of 1 ms to 1271310319 ms (14.7 days), found
  expired at any time that leaves room for one more period before the end of the 64-bit clock, the new
  deadline is the old one plus a whole number of periods. While fewer than \<open>2 ^ 32 - 1\<close> periods have
  elapsed it is the first such instant after now and the missed periods are counted exactly, however late
  the tick. Beyond that the 32-bit count of periods wraps: the count reported is the remainder, and the new
  deadline is not after now, so that the timer is overdue again at once.\<close>

theorem periodic_timer_does_not_drift:
  fixes slot :: fsm_timer_state and now :: time_us
  defines "D \<equiv> 1000 * unat (ts_duration_ms slot)"
  defines "elapsed \<equiv> (unat now - unat (ts_deadline_us slot)) div D"
  assumes "ts_running slot" and "ts_repeat slot" and "ts_deadline_us slot \<le> now"
    and "0 < unat (ts_duration_ms slot)" and "unat (ts_duration_ms slot) \<le> 1271310319"
    and "unat now + D < 2 ^ 64"
  shows "\<exists>missed slot'. fsm_timer_advance slot now = Some (missed, slot') \<and> ts_running slot' \<and>
     unat missed = elapsed mod 2 ^ 32 \<and>
     unat (ts_deadline_us slot') = unat (ts_deadline_us slot) + (elapsed + 1) mod 2 ^ 32 * D \<and>
     (if elapsed < 2 ^ 32 - 1
      then unat now < unat (ts_deadline_us slot') \<and> unat (ts_deadline_us slot') \<le> unat now + D
      else ts_deadline_us slot' \<le> now)"
proof -
  define d where "d = fsm_us (ts_duration_ms slot)"
  define late where "late = unat now - unat (ts_deadline_us slot)"
  define n where "n = (elapsed + 1) mod 2 ^ 32"
  have ud: "unat d = D" unfolding d_def D_def using assms(7) by (rule fsm_us_small)
  have D0: "0 < D" using assms(6) by (simp add: D_def)
  have d0: "d \<noteq> 0" using ud D0 by auto
  have le: "unat (ts_deadline_us slot) \<le> unat now" using assms(5) by (simp add: word_le_nat_alt)
  have uq: "unat ((now - ts_deadline_us slot) div d) = elapsed"
    using assms(5) by (simp add: unat_div_distrib ud elapsed_def unat_sub)
  have mq: "(ucast ((now - ts_deadline_us slot) div d) :: u32) = of_nat elapsed"
    unfolding uq [symmetric] by simp
  define periods where "periods = (1 + ucast ((now - ts_deadline_us slot) div d) :: u32)"
  have pm: "unat (periods - 1) = elapsed mod 2 ^ 32" by (simp add: periods_def mq unat_of_nat)
  have "periods = of_nat (elapsed + 1)" by (simp add: periods_def mq)
  then have up: "unat (ucast periods :: u64) = n"
    by (simp add: unat_ucast_up unat_of_nat n_def del: of_nat_add of_nat_Suc)
  have ql: "elapsed * D \<le> late" "late < (elapsed + 1) * D"
    using D0 dividend_less_div_times [of D late] by (simp_all add: elapsed_def late_def)
  have nq: "n * D \<le> (elapsed + 1) * D" by (rule mult_le_mono1) (simp add: n_def)
  then have b: "unat (ts_deadline_us slot) + n * D < 2 ^ 64"
    using assms(8) le ql(1) by (simp add: late_def algebra_simps)
  have dm: "unat (d * ucast periods) = n * D" using b by (simp add: unat_word_ariths ud up mult.commute)
  have dl: "unat (fsm_sat_add (ts_deadline_us slot) (d * ucast periods)) = unat (ts_deadline_us slot) + n * D"
    using sat_add_exact [of "ts_deadline_us slot" "d * ucast periods"] b dm by simp
  have r: "fsm_timer_advance slot now = Some (periods - 1,
      slot\<lparr>ts_deadline_us := fsm_sat_add (ts_deadline_us slot) (d * ucast periods), ts_expires := ts_expires slot + 1,
        ts_missed_ticks := ts_missed_ticks slot + (periods - 1)\<rparr>)"
    using assms(3-5) d0 unfolding periods_def
    by (simp add: fsm_timer_advance_def Let_def d_def [symmetric] not_less)
  have grid: "if elapsed < 2 ^ 32 - 1
      then unat now < unat (ts_deadline_us slot) + n * D \<and> unat (ts_deadline_us slot) + n * D \<le> unat now + D
      else unat (ts_deadline_us slot) + n * D \<le> unat now"
  proof (cases "elapsed < 2 ^ 32 - 1")
    case True
    then have "n = elapsed + 1" by (simp add: n_def)
    moreover have "elapsed * D + unat (ts_deadline_us slot) \<le> unat now"
      "unat now < (elapsed + 1) * D + unat (ts_deadline_us slot)"
      using ql le unfolding late_def by linarith+
    ultimately show ?thesis using True by simp
  next
    case False
    then have "n \<le> elapsed" by (cases "elapsed = 2 ^ 32 - 1") (simp_all add: n_def le_mod_geq)
    then have "n * D \<le> late" using ql(1) mult_le_mono1 [of n elapsed D] by linarith
    then have "unat (ts_deadline_us slot) + n * D \<le> unat now" using le unfolding late_def by linarith
    then show ?thesis using False by simp
  qed
  obtain slot' where r': "fsm_timer_advance slot now = Some (periods - 1, slot')"
    and f: "ts_running slot' = ts_running slot"
      "ts_deadline_us slot' = fsm_sat_add (ts_deadline_us slot) (d * ucast periods)"
    using r by simp
  have "ts_running slot'" using f(1) assms(3) by simp
  moreover have "unat (ts_deadline_us slot') = unat (ts_deadline_us slot) + (elapsed + 1) mod 2 ^ 32 * D"
    using dl by (simp only: f(2) n_def)
  moreover have "if elapsed < 2 ^ 32 - 1
      then unat now < unat (ts_deadline_us slot') \<and> unat (ts_deadline_us slot') \<le> unat now + D
      else ts_deadline_us slot' \<le> now"
    using grid by (simp only: f(2) dl word_le_nat_alt)
  ultimately show ?thesis using r' pm by blast
qed

definition demo_timer :: fsm_timer_state where
  "demo_timer = \<lparr>ts_name = ''t'', ts_id = 1, ts_running = True, ts_repeat = True, ts_duration_ms = 10, ts_deadline_us = 10000,
     ts_expires = 0, ts_missed_ticks = 0\<rparr>"

lemma periodic_timer_does_not_drift_witness:
  "\<exists>missed slot'. fsm_timer_advance demo_timer 35000 = Some (missed, slot') \<and>
     unat missed = 2 \<and> unat (ts_deadline_us slot') = 40000"
  using periodic_timer_does_not_drift [of demo_timer 35000] by (auto simp: demo_timer_def)

text \<open>The wrap: a timer of 1 ms found about 50 days late keeps its deadline and reports the wrong count.\<close>

lemma overdue_timer_wraps:
  "\<exists>missed slot'. fsm_timer_advance (demo_timer\<lparr>ts_duration_ms := 1\<rparr>) 4294967305000 = Some (missed, slot') \<and>
     unat missed = 4294967295 \<and> ts_deadline_us slot' = 10000"
  by (simp add: fsm_timer_advance_def fsm_us_def fsm_sat_add_def demo_timer_def Let_def TIME_US_MAX_def)

text \<open>C34: A timer of more than 1271310319 ms (14.7 days) never expires: the limit of the conversion to
  microseconds is truncated to 32 bits, the deadline saturates to the end of time, and no reading of the
  clock before it finds the timer expired.\<close>

theorem long_timer_never_expires:
  assumes "1271310319 < ms" and "now < TIME_US_MAX"
  shows "fsm_timer_advance (fsm_timer_arm start ms rep slot) now = None"
proof -
  have "(ucast (TIME_US_MAX div 1000) :: u32) = 1271310319" by (simp add: TIME_US_MAX_def)
  then have "fsm_us ms = TIME_US_MAX" using assms(1) by (simp add: fsm_us_def)
  then have "fsm_sat_add start (fsm_us ms) = TIME_US_MAX"
    by (auto simp: fsm_sat_add_def word_gt_0)
  then show ?thesis using assms(2) by (simp add: fsm_timer_advance_def fsm_timer_arm_def Let_def)
qed

lemma long_timer_never_expires_witness:
  "fsm_timer_advance (fsm_timer_arm 0 1296000000 True demo_timer) 1296000000000 = None"
  by (rule long_timer_never_expires) (simp_all add: TIME_US_MAX_def)

subsection \<open>Inactive instances\<close>

lemma for_instances_nth:
  "fsm_for_instances f s is = Some (s', is') \<Longrightarrow>
     length is' = length is \<and> (\<forall>k < length is. \<exists>s1 s2. f s1 (is ! k) = Some (s2, is' ! k))"
proof (induction "is" arbitrary: s is')
  case (Cons i "is")
  obtain s1 i1 is1 where x: "f s i = Some (s1, i1)" and r: "fsm_for_instances f s1 is = Some (s', is1)" and is': "is' = i1 # is1"
    using Cons.prems by (auto split: bind_splits)
  show ?case using Cons.IH [OF r] x unfolding is' by (auto simp: nth_Cons split: nat.splits)
qed simp

lemma inactive_drain:
  assumes "fsm_drain_instance e i = Some (e', i')" and "\<not> fsm_lifecycle_is_active (in_lifecycle i)"
  shows "i' = i"
proof (cases "in_processing i")
  case True
  then show ?thesis using assms(1) by (simp add: fsm_drain_instance_def)
next
  case False
  have "fsm_drain_loop 0 e (i\<lparr>in_processing := True\<rparr>) = Some (e, i\<lparr>in_processing := True\<rparr>)"
    using assms(2) by (simp add: fsm_drain_loop.simps [of 0])
  then show ?thesis using assms(1) False by (auto simp: fsm_drain_instance_def)
qed

lemma inactive_deliver:
  "fsm_deliver ev s i = Some (s', i') \<Longrightarrow> \<not> fsm_lifecycle_is_active (in_lifecycle i) \<Longrightarrow> i' = i"
  by (cases s) (simp add: fsm_deliver_def)

text \<open>An instance that is disabled, ready, suspended or faulted is not touched by the dispatcher or by
  the tick: whatever the event and whatever the other instances do meanwhile, it is the same instance
  afterwards, its queue, variables, timers and counters included.\<close>

theorem inactive_instances_are_untouched:
  fixes e :: "'c fsm_engine"
  assumes "engine_process_event (Some e) ev = Some (st, Some e') \<or> engine_tick (Some e) = Some (st, Some e')"
    and "k < length (en_instances e)" and "\<not> fsm_lifecycle_is_active (in_lifecycle (en_instances e ! k))"
  shows "en_instances e' ! k = en_instances e ! k"
  using assms(1)
proof
  assume p: "engine_process_event (Some e) ev = Some (st, Some e')"
  show ?thesis
  proof (cases "en_ready e \<and> ev \<noteq> None \<and> event_is_valid ev")
    case False
    then have "e' = e" using p by (auto simp: engine_process_event_def engine_is_valid_def simp del: event_is_valid.simps split: if_splits)
    then show ?thesis by simp
  next
    case True
    obtain s1 s2 :: "nat \<times> 'c fsm_engine" and s3 e4 :: "'c fsm_engine" and is2 is4
      where d: "fsm_for_instances (fsm_deliver (the ev)) s1 (en_instances e) = Some (s2, is2)"
      and r: "fsm_for_instances fsm_drain_instance s3 is2 = Some (e4, is4)" and e': "en_instances e' = is4"
      using p True by (auto simp: engine_process_event_def engine_is_valid_def Let_def simp del: event_is_valid.simps split: bind_splits)
    have 1: "is2 ! k = en_instances e ! k" "k < length is2"
    proof -
      obtain x y :: "nat \<times> 'c fsm_engine" where "fsm_deliver (the ev) x (en_instances e ! k) = Some (y, is2 ! k)"
        using for_instances_nth [OF d] assms(2) by blast
      then show "is2 ! k = en_instances e ! k" using assms(3) by (rule inactive_deliver)
      show "k < length is2" using for_instances_nth [OF d] assms(2) by simp
    qed
    then have "is4 ! k = is2 ! k" using for_instances_nth [OF r] inactive_drain assms(3) by metis
    then show ?thesis using 1 e' by simp
  qed
next
  assume t: "engine_tick (Some e) = Some (st, Some e')"
  show ?thesis
  proof (cases "en_ready e")
    case False
    then show ?thesis using t by (simp add: engine_tick_def engine_is_valid_def)
  next
    case True
    obtain s1 e2 is2 where r: "fsm_for_instances fsm_tick_instance s1 (en_instances e) = Some (e2, is2)" and e': "e' = e2\<lparr>en_instances := is2\<rparr>"
      using t True by (auto simp: engine_tick_def engine_is_valid_def Let_def fsm_advance_time_def split: bind_splits)
    obtain x y :: "'c fsm_engine" where "fsm_tick_instance x (en_instances e ! k) = Some (y, is2 ! k)"
      using for_instances_nth [OF r] assms(2) by blast
    then show ?thesis using assms(3) e' by (simp add: fsm_tick_instance_def)
  qed
qed

lemma inactive_instances_are_untouched_witness:
  "\<exists>e'. engine_tick (Some demo_runtime) = Some (FSM_OK, Some e') \<and> en_instances e' ! 0 = en_instances demo_runtime ! 0"
proof -
  have "(case engine_tick (Some demo_runtime) of Some (st, Some e') \<Rightarrow> st = FSM_OK | _ \<Rightarrow> False)" by code_simp
  then obtain e' where t: "engine_tick (Some demo_runtime) = Some (FSM_OK, Some e')" by (auto split: option.splits)
  have "\<not> fsm_lifecycle_is_active (in_lifecycle (en_instances demo_runtime ! 0))" by code_simp
  then show ?thesis using inactive_instances_are_untouched [of demo_runtime None FSM_OK e' 0] t demo_results(4) by auto
qed

end
