(* ===== verification/Recipe_Types.thy ===== *)
theory Recipe_Types
  imports Signal_Store
begin

text \<open>
  core/recipe/include/cancestry/recipe/types.h and core/recipe/src/types.c: the recipes of a loaded set
  and the name helpers. An array with its count is a list, an optional string an option; the strings
  the schema requires are strings. The tagged union of actions is a datatype, whose constructors are
  the kinds.
\<close>

definition RECIPE_EXPRESSION_MAX :: nat where "RECIPE_EXPRESSION_MAX = 256"

fun recipe_status_name :: "recipe_status \<Rightarrow> string" where
  "recipe_status_name RECIPE_OK = ''OK''"
| "recipe_status_name RECIPE_ERR_NULL = ''ERR_NULL''"
| "recipe_status_name RECIPE_ERR_ARGUMENT = ''ERR_ARGUMENT''"
| "recipe_status_name RECIPE_ERR_NOT_FOUND = ''ERR_NOT_FOUND''"
| "recipe_status_name RECIPE_ERR_AMBIGUOUS = ''ERR_AMBIGUOUS''"
| "recipe_status_name RECIPE_ERR_DENIED = ''ERR_DENIED''"
| "recipe_status_name RECIPE_ERR_EXPRESSION = ''ERR_EXPRESSION''"
| "recipe_status_name RECIPE_ERR_ENCODING = ''ERR_ENCODING''"
| "recipe_status_name RECIPE_ERR_CAPACITY = ''ERR_CAPACITY''"
| "recipe_status_name RECIPE_ERR_PARSE = ''ERR_PARSE''"
| "recipe_status_name RECIPE_ERR_CONFLICT = ''ERR_CONFLICT''"
| "recipe_status_name RECIPE_ERR_NO_MEMORY = ''ERR_NO_MEMORY''"
| "recipe_status_name RECIPE_ERR_UNSUPPORTED = ''ERR_UNSUPPORTED''"

subsection \<open>Triggers\<close>

datatype recipe_trigger_event =
    RECIPE_TRIGGER_CAN_RX | RECIPE_TRIGGER_SIGNAL_CHANGED | RECIPE_TRIGGER_TIMER_EXPIRED
  | RECIPE_TRIGGER_TIMEOUT | RECIPE_TRIGGER_FAULT_RAISED | RECIPE_TRIGGER_POWER_MODE_CHANGED
  | RECIPE_TRIGGER_COUNT

fun recipe_trigger_event_name :: "recipe_trigger_event \<Rightarrow> string" where
  "recipe_trigger_event_name RECIPE_TRIGGER_CAN_RX = ''can_rx''"
| "recipe_trigger_event_name RECIPE_TRIGGER_SIGNAL_CHANGED = ''signal_changed''"
| "recipe_trigger_event_name RECIPE_TRIGGER_TIMER_EXPIRED = ''timer_expired''"
| "recipe_trigger_event_name RECIPE_TRIGGER_TIMEOUT = ''timeout''"
| "recipe_trigger_event_name RECIPE_TRIGGER_FAULT_RAISED = ''fault_raised''"
| "recipe_trigger_event_name RECIPE_TRIGGER_POWER_MODE_CHANGED = ''power_mode_changed''"
| "recipe_trigger_event_name RECIPE_TRIGGER_COUNT = ''invalid''"

fun recipe_trigger_event_type :: "recipe_trigger_event \<Rightarrow> event_type" where
  "recipe_trigger_event_type RECIPE_TRIGGER_CAN_RX = EVENT_TYPE_CAN_RX"
| "recipe_trigger_event_type RECIPE_TRIGGER_SIGNAL_CHANGED = EVENT_TYPE_SIGNAL_CHANGED"
| "recipe_trigger_event_type RECIPE_TRIGGER_TIMER_EXPIRED = EVENT_TYPE_TIMER_EXPIRED"
| "recipe_trigger_event_type RECIPE_TRIGGER_FAULT_RAISED = EVENT_TYPE_FAULT_RAISED"
| "recipe_trigger_event_type RECIPE_TRIGGER_POWER_MODE_CHANGED = EVENT_TYPE_POWER_MODE_CHANGED"
| "recipe_trigger_event_type _ = EVENT_TYPE_INVALID"

record recipe_trigger =
  tg_event :: recipe_trigger_event
  tg_interface :: "string option"
  tg_message :: "string option"
  tg_signal :: "string option"
  tg_timer :: "string option"
  tg_timeout_ms :: u32
  tg_has_timeout_ms :: bool

subsection \<open>Actions\<close>

datatype recipe_operand = Recipe_literal signal_value | Recipe_expression string

datatype recipe_log_level = RECIPE_LOG_INFO | RECIPE_LOG_WARNING | RECIPE_LOG_ERROR

fun recipe_log_level_name :: "recipe_log_level \<Rightarrow> string" where
  "recipe_log_level_name RECIPE_LOG_INFO = ''info''"
| "recipe_log_level_name RECIPE_LOG_WARNING = ''warning''"
| "recipe_log_level_name RECIPE_LOG_ERROR = ''error''"

text \<open>The components of a start are the timer, the duration, whether it was declared, and the repeat
  flag.\<close>

datatype recipe_action =
    Recipe_send_message string string "(string \<times> recipe_operand) list"
  | Recipe_set_signal string recipe_operand
  | Recipe_set_variable string recipe_operand
  | Recipe_start_timer string u32 bool bool
  | Recipe_stop_timer string
  | Recipe_reset_timer string
  | Recipe_log recipe_log_level string
  | Recipe_raise_fault string fault_severity

fun recipe_action_kind_name :: "recipe_action \<Rightarrow> string" where
  "recipe_action_kind_name (Recipe_send_message _ _ _) = ''send_message''"
| "recipe_action_kind_name (Recipe_set_signal _ _) = ''set_signal''"
| "recipe_action_kind_name (Recipe_set_variable _ _) = ''set_variable''"
| "recipe_action_kind_name (Recipe_start_timer _ _ _ _) = ''start_timer''"
| "recipe_action_kind_name (Recipe_stop_timer _) = ''stop_timer''"
| "recipe_action_kind_name (Recipe_reset_timer _) = ''reset_timer''"
| "recipe_action_kind_name (Recipe_log _ _) = ''log''"
| "recipe_action_kind_name (Recipe_raise_fault _ _) = ''raise_fault''"

datatype recipe_on_error = RECIPE_ON_ERROR_STOP | RECIPE_ON_ERROR_CONTINUE

fun recipe_on_error_name :: "recipe_on_error \<Rightarrow> string" where
  "recipe_on_error_name RECIPE_ON_ERROR_STOP = ''stop''"
| "recipe_on_error_name RECIPE_ON_ERROR_CONTINUE = ''continue''"

subsection \<open>Recipes\<close>

record recipe =
  rp_name :: string
  rp_description :: "string option"
  rp_enabled :: bool
  rp_trigger :: recipe_trigger
  rp_conditions :: "string list"
  rp_actions :: "recipe_action list"
  rp_on_error :: recipe_on_error

record recipe_set =
  rq_recipes :: "recipe list"

text \<open>A pointer to a recipe of an engine: the index of its set and its index in the set. The sets of
  an engine are distinct objects, so equal pointers are equal positions.\<close>

type_synonym recipe_ref = "nat \<times> nat"

end
