(* ===== verification/Recipe_Expression.thy ===== *)
theory Recipe_Expression
  imports Recipe_Types Fsm_Expression Codec_Namespace
begin

text \<open>
  The built-in expression evaluator of core/recipe/src/engine.c. It has the grammar of the state machine
  expressions without functions, wildcards or a depth limit, and its own scan of numbers. The helpers
  that are the same code in both are shared: characters and blanks, checked 64-bit arithmetic, the
  conversion of event values. The evaluator reports no reason for a failure; the reason and the
  position that a \<open>Failed\<close> result carries are for the reader only, and the entry point drops them.
  The recursion of the parser is bounded by fuel, its nesting depth; the length of the text is enough.
\<close>

subsection \<open>Context and names\<close>

text \<open>\<open>rv_recipe\<close> is \<open>None\<close> for the zeroed slot.\<close>

record recipe_variable =
  rv_recipe :: "recipe_ref option"
  rv_name :: string
  rv_value :: signal_value

record recipe_expression_context =
  rctx_recipe :: recipe_ref
  rctx_event :: "event option"
  rctx_namespace :: "codec_namespace option"
  rctx_signals :: "sig_store option"
  rctx_variables :: "recipe_variable list"
  rctx_variable_count :: nat

definition recipe_is_ident_char :: "char \<Rightarrow> bool" where
  "recipe_is_ident_char c \<longleftrightarrow> char_in_range (CHR ''a'') (CHR ''z'') c \<or> char_in_range (CHR ''A'') (CHR ''Z'') c \<or>
     char_in_range (CHR ''0'') (CHR ''9'') c \<or> c = CHR ''_'' \<or> c = CHR ''.''"

definition recipe_accept_word :: "string \<Rightarrow> string \<Rightarrow> nat \<Rightarrow> bool \<times> nat" where
  "recipe_accept_word tx word pos =
     (let p = skip_space tx pos
      in if take (length word) (drop p tx) \<noteq> word then (False, p)
         else if recipe_is_ident_char (char_at tx (p + length word)) then (False, p)
         else (True, p + length word))"

text \<open>The members of the payload union that the fields read; another member reads as zero.\<close>

fun payload_signal :: "event_payload \<Rightarrow> u32 \<times> signal_value" where
  "payload_signal (Payload_signal_changed p) = (sc_signal_id p, sc_new_value p)"
| "payload_signal _ = (0, Value_unset)"

fun payload_frame_id :: "event_payload \<Rightarrow> interface_id \<times> u32" where
  "payload_frame_id (Payload_can_rx p) = (rx_interface_id p, rx_can_id p)"
| "payload_frame_id _ = (0, 0)"

fun payload_expiry :: "event_payload \<Rightarrow> u32 \<times> u32" where
  "payload_expiry (Payload_timer_expired p) = (te_timer_id p, te_missed_count p)"
| "payload_expiry _ = (0, 0)"

fun payload_fault_code :: "event_payload \<Rightarrow> u32" where
  "payload_fault_code (Payload_fault p) = fr_fault_code p"
| "payload_fault_code _ = 0"

fun payload_to_mode :: "event_payload \<Rightarrow> mode" where
  "payload_to_mode (Payload_mode p) = mc_to_mode p"
| "payload_to_mode _ = MODE_BOOT"

definition zero_resolution :: codec_resolution where
  "zero_resolution = \<lparr>rs_signal_id = 0, rs_map = None, rs_signal = None\<rparr>"

definition recipe_read_signal :: "recipe_expression_context \<Rightarrow> string \<Rightarrow> signal_value option" where
  "recipe_read_signal cx name =
     (case namespace_resolve (rctx_namespace cx) (Some name) (Some zero_resolution) of
        (CODEC_OK, Some res) \<Rightarrow>
          let fresh = (case rctx_event cx of None \<Rightarrow> None
            | Some ev \<Rightarrow> if ev_type ev = EVENT_TYPE_SIGNAL_CHANGED \<and> fst (payload_signal (ev_payload ev)) = rs_signal_id res
                then Some (snd (payload_signal (ev_payload ev))) else None)
          in (case fresh of
                Some v \<Rightarrow> expr_from_value v
              | None \<Rightarrow> (case signal_store_get (rctx_signals cx) (rs_signal_id res) (Some Value_unset) of
                  (RECIPE_OK, Some v) \<Rightarrow> expr_from_value v | _ \<Rightarrow> None))
      | _ \<Rightarrow> None)"

definition recipe_read_variable :: "recipe_expression_context \<Rightarrow> string \<Rightarrow> signal_value option" where
  "recipe_read_variable cx name =
     (case find (\<lambda>v. rv_recipe v = Some (rctx_recipe cx) \<and> rv_name v = name) (take (rctx_variable_count cx) (rctx_variables cx)) of
        None \<Rightarrow> None | Some v \<Rightarrow> expr_from_value (rv_value v))"

definition recipe_read_event :: "event \<Rightarrow> string \<Rightarrow> signal_value option" where
  "recipe_read_event ev field =
     (if field = ''timestamp_us'' then Some (expr_from_u64 (ev_timestamp_us ev))
      else if field = ''sequence'' then Some (expr_from_u64 (ucast (ev_sequence ev)))
      else if field = ''cause_sequence'' then Some (expr_from_u64 (ucast (ev_cause_sequence ev)))
      else if field = ''can_id'' \<or> field = ''interface_id'' then
        (if ev_type ev \<noteq> EVENT_TYPE_CAN_RX then None
         else if hd field = CHR ''c'' then Some (expr_from_u64 (ucast (snd (payload_frame_id (ev_payload ev)))))
         else Some (expr_from_u64 (ucast (fst (payload_frame_id (ev_payload ev))))))
      else if field = ''signal_value'' then
        (if ev_type ev \<noteq> EVENT_TYPE_SIGNAL_CHANGED then None
         else expr_from_value (snd (payload_signal (ev_payload ev))))
      else if field = ''fault_code'' then
        (if ev_type ev \<noteq> EVENT_TYPE_FAULT_RAISED then None
         else Some (expr_from_u64 (ucast (payload_fault_code (ev_payload ev)))))
      else if field = ''missed_count'' then
        (if ev_type ev \<noteq> EVENT_TYPE_TIMER_EXPIRED then None
         else Some (expr_from_u64 (ucast (snd (payload_expiry (ev_payload ev))))))
      else if field = ''to_mode'' then
        (if ev_type ev \<noteq> EVENT_TYPE_POWER_MODE_CHANGED then None
         else Some (expr_from_u64 (word_of_int (mode_code (payload_to_mode (ev_payload ev))))))
      else None)"

definition recipe_resolve_name :: "recipe_expression_context \<Rightarrow> string \<Rightarrow> signal_value option" where
  "recipe_resolve_name cx name =
     (if name = [] \<or> length name > RECIPE_EXPRESSION_MAX then None
      else case find_dot name of
        None \<Rightarrow> None
      | Some dot \<Rightarrow>
          let scope = take dot name; rest = drop (dot + 1) name
          in if dot = 0 \<or> rest = [] then None
             else if scope = ''sig'' then recipe_read_signal cx rest
             else if scope = ''var'' then recipe_read_variable cx rest
             else if scope = ''evt'' then (case rctx_event cx of None \<Rightarrow> None | Some ev \<Rightarrow> recipe_read_event ev rest)
             else None)"

subsection \<open>Operators\<close>

fun recipe_is_bool :: "signal_value \<Rightarrow> bool" where
  "recipe_is_bool (Value_bool _) = True"
| "recipe_is_bool _ = False"

text \<open>The bodies of the loops of \<open>parse_mul\<close> and \<open>parse_add\<close>; the arithmetic on two reals and on two
  integers is that of the state machine expressions.\<close>

definition recipe_arith :: "char \<Rightarrow> signal_value \<Rightarrow> signal_value \<Rightarrow> expr_error + signal_value" where
  "recipe_arith op lhs rhs =
     (if expr_is_real lhs \<or> expr_is_real rhs
      then (if recipe_is_bool lhs \<or> recipe_is_bool rhs then Inl EXPR_ERR_TYPE
            else map_sum id Value_real (arith_real op (expr_to_real lhs) (expr_to_real rhs)))
      else (case (lhs, rhs) of
          (Value_int l, Value_int r) \<Rightarrow> map_sum id Value_int (arith_int op l r)
        | _ \<Rightarrow> Inl EXPR_ERR_TYPE))"

definition recipe_negate :: "signal_value \<Rightarrow> expr_error + signal_value" where
  "recipe_negate v = (case v of
       Value_int i \<Rightarrow> if i = I64_MIN then Inl EXPR_ERR_OVERFLOW else Inr (Value_int (- i))
     | Value_real x \<Rightarrow> Inr (Value_real (fp_uminus x))
     | _ \<Rightarrow> Inl EXPR_ERR_TYPE)"

text \<open>The operator is its first character and its length in characters.\<close>

definition recipe_compare :: "char \<Rightarrow> nat \<Rightarrow> signal_value \<Rightarrow> signal_value \<Rightarrow> expr_error + signal_value" where
  "recipe_compare op len lhs rhs = (case (lhs, rhs) of
       (Value_bool l, Value_bool r) \<Rightarrow>
         if len \<noteq> 2 then Inl EXPR_ERR_TYPE
         else Inr (Value_bool (if op = CHR ''='' then l = r else l \<noteq> r))
     | _ \<Rightarrow>
         if \<not> recipe_is_bool lhs \<and> \<not> recipe_is_bool rhs
         then
           let x = expr_to_real lhs; y = expr_to_real rhs
           in Inr (Value_bool
             (if op = CHR ''='' then fp_eq x y
              else if op = CHR ''!'' then \<not> fp_eq x y
              else if op = CHR ''<'' then (if len = 2 then fp_le x y else fp_less x y)
              else (if len = 2 then fp_le y x else fp_less y x)))
         else Inl EXPR_ERR_TYPE)"

definition recipe_not :: "signal_value \<Rightarrow> expr_error + signal_value" where
  "recipe_not v = (case v of Value_bool b \<Rightarrow> Inr (Value_bool (\<not> b)) | _ \<Rightarrow> Inl EXPR_ERR_TYPE)"

definition recipe_junction :: "(bool \<Rightarrow> bool \<Rightarrow> bool) \<Rightarrow> signal_value \<Rightarrow> signal_value \<Rightarrow> expr_error + signal_value" where
  "recipe_junction f lhs rhs = (case (lhs, rhs) of
       (Value_bool l, Value_bool r) \<Rightarrow> Inr (Value_bool (f l r))
     | _ \<Rightarrow> Inl EXPR_ERR_TYPE)"

subsection \<open>Numbers\<close>

definition REAL_TEN :: double where "REAL_TEN = 0x4024000000000000"
definition REAL_TENTH :: double where "REAL_TENTH = 0x3FB999999999999A"
definition REAL_308 :: double where "REAL_308 = 0x4073400000000000"
definition REAL_ONE :: double where "REAL_ONE = 0x3FF0000000000000"

definition digit_real :: "char \<Rightarrow> double" where
  "digit_real c = fp_of_int (of_char c - 48)"

text \<open>One digit of the integer part: the magnitude with its overflow flag, and a real accumulator.\<close>

definition recipe_scan_magnitude :: "u64 \<times> bool \<Rightarrow> char \<Rightarrow> u64 \<times> bool" where
  "recipe_scan_magnitude acc c = (case acc of (magnitude, overflow) \<Rightarrow>
     let digit = of_char c - 48
     in if magnitude > (0xFFFFFFFFFFFFFFFF - digit) div 10 then (magnitude, True)
        else if \<not> overflow then (magnitude * 10 + digit, overflow)
        else (magnitude, overflow))"

definition recipe_scan_real :: "double \<Rightarrow> char \<Rightarrow> double" where
  "recipe_scan_real x c = fp_add (fp_mul x REAL_TEN) (digit_real c)"

definition recipe_scan_fraction :: "double \<times> double \<Rightarrow> char \<Rightarrow> double \<times> double" where
  "recipe_scan_fraction acc c = (case acc of (x, scale) \<Rightarrow> (fp_add x (fp_mul (digit_real c) scale), fp_div scale REAL_TEN))"

definition digits_at :: "string \<Rightarrow> nat \<Rightarrow> string" where
  "digits_at tx pos = takeWhile expr_is_digit (drop pos tx)"

definition recipe_scale :: "bool \<Rightarrow> double \<Rightarrow> double \<Rightarrow> double" where
  "recipe_scale negative exponent x =
     (let multiplier = ((\<lambda>m. fp_mul m REAL_TEN) ^^ nat (fp_to_int exponent)) REAL_ONE
      in if negative then fp_div x multiplier else fp_mul x multiplier)"

text \<open>The exponent after the mantissa \<open>x\<close>, if there is one.\<close>

definition recipe_exponent :: "string \<Rightarrow> bool \<Rightarrow> double \<Rightarrow> nat \<Rightarrow> (bool \<times> double) parsed" where
  "recipe_exponent tx is_real x pos =
     (if char_at tx pos = CHR ''e'' \<or> char_at tx pos = CHR ''E'' then
        let sgn = char_at tx (pos + 1);
            p = (if sgn = CHR ''+'' \<or> sgn = CHR ''-'' then pos + 2 else pos + 1);
            ds = digits_at tx p;
            exponent = foldl recipe_scan_real 0 ds
        in if ds = [] then Failed EXPR_ERR_SYNTAX pos
           else if fp_less REAL_308 exponent then Failed EXPR_ERR_OVERFLOW pos
           else Parsed (True, recipe_scale (sgn = CHR ''-'') exponent x) (p + length ds)
      else Parsed (is_real, x) pos)"

definition recipe_mantissa :: "string \<Rightarrow> double \<Rightarrow> nat \<Rightarrow> (bool \<times> double) parsed" where
  "recipe_mantissa tx x pos =
     (if char_at tx pos = CHR ''.'' then
        let ds = digits_at tx (pos + 1)
        in if ds = [] then Failed EXPR_ERR_SYNTAX pos
           else recipe_exponent tx True (fst (foldl recipe_scan_fraction (x, REAL_TENTH) ds)) (pos + 1 + length ds)
      else recipe_exponent tx False x pos)"

definition recipe_number :: "string \<Rightarrow> nat \<Rightarrow> signal_value parsed" where
  "recipe_number tx pos =
     (let ds = digits_at tx pos
      in case foldl recipe_scan_magnitude (0, False) ds of
        (magnitude, overflow) \<Rightarrow>
          (case recipe_mantissa tx (foldl recipe_scan_real 0 ds) (pos + length ds) of
             Failed e p \<Rightarrow> Failed e p
           | Stuck \<Rightarrow> Stuck
           | Parsed (is_real, x) p \<Rightarrow>
               if is_real \<or> overflow
               then (if expr_is_finite x then Parsed (Value_real x) p else Failed EXPR_ERR_NOT_A_NUMBER p)
               else if magnitude > I64_MAX then Parsed (Value_real x) p
               else Parsed (Value_int magnitude) p))"

subsection \<open>The grammar\<close>

definition recipe_next_word :: "string \<Rightarrow> string \<Rightarrow> nat \<Rightarrow> char option \<times> nat" where
  "recipe_next_word tx word pos =
     (case recipe_accept_word tx word pos of (b, p) \<Rightarrow> (if b then Some (hd word) else None, p))"

definition recipe_ident_end :: "string \<Rightarrow> nat \<Rightarrow> nat" where
  "recipe_ident_end tx pos = pos + length (takeWhile recipe_is_ident_char (drop pos tx))"

text \<open>A word: a boolean literal or a name.\<close>

definition recipe_identifier :: "recipe_expression_context \<Rightarrow> string \<Rightarrow> nat \<Rightarrow> signal_value parsed" where
  "recipe_identifier cx tx pos =
     (let e = recipe_ident_end tx pos; name = take (e - pos) (drop pos tx)
      in if name = ''true'' then Parsed (Value_bool True) e
         else if name = ''false'' then Parsed (Value_bool False) e
         else (case recipe_resolve_name cx name of None \<Rightarrow> Failed EXPR_ERR_UNDEFINED e | Some v \<Rightarrow> Parsed v e))"

function recipe_parse_or :: "nat \<Rightarrow> recipe_expression_context \<Rightarrow> string \<Rightarrow> nat \<Rightarrow> signal_value parsed"
  and recipe_parse_and :: "nat \<Rightarrow> recipe_expression_context \<Rightarrow> string \<Rightarrow> nat \<Rightarrow> signal_value parsed"
  and recipe_parse_not :: "nat \<Rightarrow> recipe_expression_context \<Rightarrow> string \<Rightarrow> nat \<Rightarrow> signal_value parsed"
  and recipe_parse_cmp :: "nat \<Rightarrow> recipe_expression_context \<Rightarrow> string \<Rightarrow> nat \<Rightarrow> signal_value parsed"
  and recipe_parse_add :: "nat \<Rightarrow> recipe_expression_context \<Rightarrow> string \<Rightarrow> nat \<Rightarrow> signal_value parsed"
  and recipe_parse_mul :: "nat \<Rightarrow> recipe_expression_context \<Rightarrow> string \<Rightarrow> nat \<Rightarrow> signal_value parsed"
  and recipe_parse_unary :: "nat \<Rightarrow> recipe_expression_context \<Rightarrow> string \<Rightarrow> nat \<Rightarrow> signal_value parsed"
  and recipe_parse_primary :: "nat \<Rightarrow> recipe_expression_context \<Rightarrow> string \<Rightarrow> nat \<Rightarrow> signal_value parsed"
  where
  "recipe_parse_or n cx tx pos = (case recipe_parse_and n cx tx pos of
       Parsed v p \<Rightarrow> operator_loop (Suc (length tx)) (recipe_next_word tx ''or'')
         (\<lambda>q. recipe_parse_and n cx tx q) (\<lambda>_. recipe_junction (\<lambda>a b. a \<or> b)) v p
     | Failed e p \<Rightarrow> Failed e p | Stuck \<Rightarrow> Stuck)"
| "recipe_parse_and n cx tx pos = (case recipe_parse_not n cx tx pos of
       Parsed v p \<Rightarrow> operator_loop (Suc (length tx)) (recipe_next_word tx ''and'')
         (\<lambda>q. recipe_parse_not n cx tx q) (\<lambda>_. recipe_junction (\<lambda>a b. a \<and> b)) v p
     | Failed e p \<Rightarrow> Failed e p | Stuck \<Rightarrow> Stuck)"
| "recipe_parse_not n cx tx pos = (case recipe_accept_word tx ''not'' pos of
       (True, p) \<Rightarrow> (case n of 0 \<Rightarrow> Stuck
         | Suc m \<Rightarrow> (case recipe_parse_not m cx tx p of
             Parsed v q \<Rightarrow> lift_result q (recipe_not v)
           | Failed e q \<Rightarrow> Failed e q | Stuck \<Rightarrow> Stuck))
     | (False, p) \<Rightarrow> recipe_parse_cmp n cx tx p)"
| "recipe_parse_cmp n cx tx pos = (case recipe_parse_add n cx tx pos of
       Parsed v p \<Rightarrow>
         (let q = skip_space tx p
          in case compare_token (char_at tx q) (char_at tx (q + 1)) of
               None \<Rightarrow> Parsed v q
             | Some None \<Rightarrow> Failed EXPR_ERR_SYNTAX q
             | Some (Some (op, _, len)) \<Rightarrow> (case recipe_parse_add n cx tx (q + len) of
                 Parsed w r \<Rightarrow> lift_result r (recipe_compare op len v w)
               | Failed e r \<Rightarrow> Failed e r | Stuck \<Rightarrow> Stuck))
     | Failed e p \<Rightarrow> Failed e p | Stuck \<Rightarrow> Stuck)"
| "recipe_parse_add n cx tx pos = (case recipe_parse_mul n cx tx pos of
       Parsed v p \<Rightarrow> operator_loop (Suc (length tx)) (next_symbol tx ''+-'')
         (\<lambda>q. recipe_parse_mul n cx tx q) recipe_arith v p
     | Failed e p \<Rightarrow> Failed e p | Stuck \<Rightarrow> Stuck)"
| "recipe_parse_mul n cx tx pos = (case recipe_parse_unary n cx tx pos of
       Parsed v p \<Rightarrow> operator_loop (Suc (length tx)) (next_symbol tx ''*/%'')
         (\<lambda>q. recipe_parse_unary n cx tx q) recipe_arith v p
     | Failed e p \<Rightarrow> Failed e p | Stuck \<Rightarrow> Stuck)"
| "recipe_parse_unary n cx tx pos = (case accept_char tx (CHR ''-'') pos of
       (True, p) \<Rightarrow> (case n of 0 \<Rightarrow> Stuck
         | Suc m \<Rightarrow> (case recipe_parse_unary m cx tx p of
             Parsed v q \<Rightarrow> lift_result q (recipe_negate v)
           | Failed e q \<Rightarrow> Failed e q | Stuck \<Rightarrow> Stuck))
     | (False, p) \<Rightarrow> recipe_parse_primary n cx tx p)"
| "recipe_parse_primary n cx tx pos =
     (let p = skip_space tx pos; c = char_at tx p
      in if c = CHR ''('' then (case n of 0 \<Rightarrow> Stuck
           | Suc m \<Rightarrow> (case recipe_parse_or m cx tx (p + 1) of
               Parsed v q \<Rightarrow> (case accept_char tx (CHR '')'') q of
                   (True, r) \<Rightarrow> Parsed v r | (False, r) \<Rightarrow> Failed EXPR_ERR_SYNTAX r)
             | Failed e q \<Rightarrow> Failed e q | Stuck \<Rightarrow> Stuck))
         else if expr_is_digit c then recipe_number tx p
         else if expr_is_ident_start c then recipe_identifier cx tx p
         else Failed EXPR_ERR_SYNTAX p)"
  by pat_completeness auto

termination
  by (relation "measures
    [case_sum (case_sum (case_sum (\<lambda>(n, _). n) (\<lambda>(n, _). n)) (case_sum (\<lambda>(n, _). n) (\<lambda>(n, _). n)))
       (case_sum (case_sum (\<lambda>(n, _). n) (\<lambda>(n, _). n)) (case_sum (\<lambda>(n, _). n) (\<lambda>(n, _). n))),
     case_sum (case_sum (case_sum (\<lambda>_. 7) (\<lambda>_. 6)) (case_sum (\<lambda>_. 5) (\<lambda>_. 4)))
       (case_sum (case_sum (\<lambda>_. 3) (\<lambda>_. 2)) (case_sum (\<lambda>_. 1) (\<lambda>_. 0)))]")
    auto

declare recipe_parse_or.simps [simp del] recipe_parse_and.simps [simp del] recipe_parse_not.simps [simp del]
  recipe_parse_cmp.simps [simp del] recipe_parse_add.simps [simp del] recipe_parse_mul.simps [simp del]
  recipe_parse_unary.simps [simp del] recipe_parse_primary.simps [simp del]

text \<open>\<open>Some None\<close> is the result false; \<open>None\<close> would be a call that does not return.\<close>

definition recipe_expr_evaluate :: "string \<Rightarrow> recipe_expression_context \<Rightarrow> signal_value option option" where
  "recipe_expr_evaluate tx cx = (case recipe_parse_or (length tx) cx tx 0 of
       Parsed v p \<Rightarrow> Some (if char_at tx (skip_space tx p) \<noteq> CHR 0x00 then None else Some v)
     | Failed e p \<Rightarrow> Some None
     | Stuck \<Rightarrow> None)"

end
