(* ===== verification/Recipe_Expression_Properties.thy ===== *)
theory Recipe_Expression_Properties
  imports Recipe_Expression Fsm_Expression_Properties
begin

text \<open>
  Properties of the recipe expressions: the parser returns within its fuel and stays inside the text,
  results are typed, and two divergences from the language it implements.
\<close>

lemmas recipe_parse_unfold = recipe_parse_or.simps recipe_parse_and.simps recipe_parse_not.simps recipe_parse_cmp.simps
  recipe_parse_add.simps recipe_parse_mul.simps recipe_parse_unary.simps recipe_parse_primary.simps

subsection \<open>Positions\<close>

lemma recipe_accept_word_range:
  assumes "pos \<le> length tx" and "recipe_accept_word tx w pos = (b, p)"
  shows "pos \<le> p" and "p \<le> length tx" and "b \<Longrightarrow> w \<noteq> [] \<Longrightarrow> pos < p"
proof -
  let ?q = "skip_space tx pos"
  have "?q + length w \<le> length tx" if "take (length w) (drop ?q tx) = w"
    using arg_cong [OF that, of length] skip_space_range [OF assms(1)] by (simp add: min_def split: if_splits)
  then have "pos \<le> p \<and> p \<le> length tx \<and> (b \<longrightarrow> w \<noteq> [] \<longrightarrow> pos < p)"
    using assms skip_space_range [OF assms(1)]
    by (auto simp: recipe_accept_word_def Let_def split: if_splits intro: le_less_trans)
  then show "pos \<le> p" and "p \<le> length tx" and "b \<Longrightarrow> w \<noteq> [] \<Longrightarrow> pos < p" by blast+
qed

lemma recipe_next_word_advances:
  assumes "w \<noteq> []"
  shows "advances tx (recipe_next_word tx w)"
  unfolding advances_def
proof (intro allI impI)
  fix pos r p
  assume pos: "pos \<le> length tx" and n: "recipe_next_word tx w pos = (r, p)"
  obtain b q where a: "recipe_accept_word tx w pos = (b, q)" by fastforce
  then have "p = q" and "r \<noteq> None \<longleftrightarrow> b" using n by (auto simp: recipe_next_word_def split: if_splits)
  then show "pos \<le> p \<and> p \<le> length tx \<and> (r \<noteq> None \<longrightarrow> pos < p)"
    using recipe_accept_word_range [OF pos a] assms by simp
qed

lemma digits_at_range: "pos \<le> length tx \<Longrightarrow> pos + length (digits_at tx pos) \<le> length tx"
  using length_takeWhile_le [of expr_is_digit "drop pos tx"] by (simp add: digits_at_def)

lemma digits_at_some: "digits_at tx pos \<noteq> [] \<Longrightarrow> pos \<le> length tx"
  by (cases "pos \<le> length tx") (simp_all add: digits_at_def)

lemma recipe_exponent_in_range: "pos \<le> length tx \<Longrightarrow> in_range tx pos (recipe_exponent tx b x pos)"
  using digits_at_range [of "pos + 2" tx] digits_at_range [of "pos + 1" tx] digits_at_some [of tx "pos + 2"]
    digits_at_some [of tx "pos + 1"]
  by (auto simp: recipe_exponent_def Let_def)

lemma recipe_mantissa_in_range:
  assumes "pos \<le> length tx"
  shows "in_range tx pos (recipe_mantissa tx x pos)"
proof (cases "char_at tx pos = CHR ''.'' \<and> digits_at tx (pos + 1) \<noteq> []")
  case True
  then have "pos + 1 + length (digits_at tx (pos + 1)) \<le> length tx"
    using digits_at_range [of "pos + 1" tx] digits_at_some [of tx "pos + 1"] by simp
  then have "in_range tx (pos + 1 + length (digits_at tx (pos + 1)))
      (recipe_exponent tx True y (pos + 1 + length (digits_at tx (pos + 1))))" for y
    by (rule recipe_exponent_in_range)
  then have "in_range tx pos (recipe_exponent tx True y (pos + 1 + length (digits_at tx (pos + 1))))" for y
    by (rule in_range_later) simp
  then show ?thesis using True by (simp add: recipe_mantissa_def Let_def)
next
  case False
  then show ?thesis using assms by (auto simp: recipe_mantissa_def Let_def recipe_exponent_in_range)
qed

lemma recipe_number_in_range:
  assumes "pos \<le> length tx"
  shows "in_range tx pos (recipe_number tx pos)"
proof -
  have "in_range tx (pos + length (digits_at tx pos)) (recipe_mantissa tx x (pos + length (digits_at tx pos)))" for x
    using digits_at_range [OF assms] by (rule recipe_mantissa_in_range)
  then show ?thesis
    by (auto simp: recipe_number_def Let_def split: prod.split parsed.split dest: add_leD1)
      (metis in_range.simps add_leD1)+
qed

lemma recipe_identifier_in_range: "pos \<le> length tx \<Longrightarrow> in_range tx pos (recipe_identifier cx tx pos)"
  using length_takeWhile_le [of recipe_is_ident_char "drop pos tx"]
  by (auto simp: recipe_identifier_def recipe_ident_end_def Let_def split: option.split)

subsection \<open>The parser returns\<close>

text \<open>What the eight functions do with fuel \<open>n\<close> follows from the three that nest with less fuel.\<close>

lemma fuel_induct [case_names Or And Not Cmp Add Mul Unary Primary]:
  fixes n :: nat and O1 A N C S M U P :: "nat \<Rightarrow> nat \<Rightarrow> bool"
  assumes or: "\<And>n p. (\<And>q. A n q) \<Longrightarrow> O1 n p"
    and "and": "\<And>n p. (\<And>q. N n q) \<Longrightarrow> A n p"
    and not: "\<And>n p. (\<And>m q. n = Suc m \<Longrightarrow> N m q) \<Longrightarrow> (\<And>q. C n q) \<Longrightarrow> N n p"
    and cmp: "\<And>n p. (\<And>q. S n q) \<Longrightarrow> C n p"
    and add: "\<And>n p. (\<And>q. M n q) \<Longrightarrow> S n p"
    and mul: "\<And>n p. (\<And>q. U n q) \<Longrightarrow> M n p"
    and unary: "\<And>n p. (\<And>m q. n = Suc m \<Longrightarrow> U m q) \<Longrightarrow> (\<And>q. P n q) \<Longrightarrow> U n p"
    and primary: "\<And>n p. (\<And>m q. n = Suc m \<Longrightarrow> O1 m q) \<Longrightarrow> P n p"
  shows "O1 n p" and "A n p" and "N n p" and "C n p" and "S n p" and "M n p" and "U n p" and "P n p"
proof -
  have "\<forall>p. O1 n p \<and> A n p \<and> N n p \<and> C n p \<and> S n p \<and> M n p \<and> U n p \<and> P n p" (is "?all n")
  proof (induction n)
    case 0
    have p: "P 0 q" for q by (rule primary) simp
    have u: "U 0 q" for q by (rule unary [OF _ p]) simp
    have s: "S 0 q" for q by (rule add, rule mul, rule u)
    have n: "N 0 q" for q by (rule not [OF _ cmp]) (simp_all add: s)
    show ?case using p u s n mul cmp or "and" by metis
  next
    case (Suc n)
    have p: "P (Suc n) q" for q by (rule primary) (use Suc in simp)
    have u: "U (Suc n) q" for q by (rule unary [OF _ p]) (use Suc in simp)
    have s: "S (Suc n) q" for q by (rule add, rule mul, rule u)
    have n: "N (Suc n) q" for q by (rule not [OF _ cmp]) (use s Suc in simp_all)
    show ?case using p u s n mul cmp or "and" by metis
  qed
  then show "O1 n p" and "A n p" and "N n p" and "C n p" and "S n p" and "M n p" and "U n p" and "P n p" by blast+
qed

lemma recipe_parse_in_range:
  shows "pos \<le> length tx \<longrightarrow> length tx \<le> pos + n \<longrightarrow> in_range tx pos (recipe_parse_or n cx tx pos)"
    and "pos \<le> length tx \<longrightarrow> length tx \<le> pos + n \<longrightarrow> in_range tx pos (recipe_parse_and n cx tx pos)"
    and "pos \<le> length tx \<longrightarrow> length tx \<le> pos + n \<longrightarrow> in_range tx pos (recipe_parse_not n cx tx pos)"
    and "pos \<le> length tx \<longrightarrow> length tx \<le> pos + n \<longrightarrow> in_range tx pos (recipe_parse_cmp n cx tx pos)"
    and "pos \<le> length tx \<longrightarrow> length tx \<le> pos + n \<longrightarrow> in_range tx pos (recipe_parse_add n cx tx pos)"
    and "pos \<le> length tx \<longrightarrow> length tx \<le> pos + n \<longrightarrow> in_range tx pos (recipe_parse_mul n cx tx pos)"
    and "pos \<le> length tx \<longrightarrow> length tx \<le> pos + n \<longrightarrow> in_range tx pos (recipe_parse_unary n cx tx pos)"
    and "pos \<le> length tx \<longrightarrow> length tx \<le> pos + n \<longrightarrow> in_range tx pos (recipe_parse_primary n cx tx pos)"
proof (induction n pos and n pos and n pos and n pos and n pos and n pos and n pos and n pos rule: fuel_induct)
  case (Or n p)
  show ?case unfolding recipe_parse_or.simps
    by (intro impI chain_in_range recipe_next_word_advances) (use Or in \<open>simp_all add: trans_le_add1\<close>)
next
  case (And n p)
  show ?case unfolding recipe_parse_and.simps
    by (intro impI chain_in_range recipe_next_word_advances) (use And in simp_all)
next
  case (Add n p)
  show ?case unfolding recipe_parse_add.simps
    by (intro impI chain_in_range next_symbol_advances) (use Add in simp_all)
next
  case (Mul n p)
  show ?case unfolding recipe_parse_mul.simps
    by (intro impI chain_in_range next_symbol_advances) (use Mul in simp_all)
next
  case (Not n p)
  show ?case
  proof (intro impI)
    assume p: "p \<le> length tx" "length tx \<le> p + n"
    obtain b q where a: "recipe_accept_word tx ''not'' p = (b, q)" by fastforce
    note q = recipe_accept_word_range [OF p(1) a]
    show "in_range tx p (recipe_parse_not n cx tx p)"
    proof (cases b)
      case False
      then show ?thesis using a Not(2) [of q] p q(1,2) in_range_later [OF _ q(1)] by (simp add: recipe_parse_not.simps)
    next
      case True
      then have lt: "p < q" using q(3) by simp
      then obtain m where n: "n = Suc m" using p(2) q(2) by (cases n) simp_all
      have "in_range tx q (recipe_parse_not m cx tx q)" using Not(1) [OF n, of q] p(2) lt n q(2) by simp
      then have "in_range tx q (case recipe_parse_not m cx tx q of Parsed v r \<Rightarrow> lift_result r (recipe_not v)
          | Failed e r \<Rightarrow> Failed e r | Stuck \<Rightarrow> Stuck)"
        by (rule in_range_then) simp
      then show ?thesis using a True n in_range_later [OF _ q(1)] by (simp add: recipe_parse_not.simps)
    qed
  qed
next
  case (Unary n p)
  show ?case
  proof (intro impI)
    assume p: "p \<le> length tx" "length tx \<le> p + n"
    obtain b q where a: "accept_char tx (CHR ''-'') p = (b, q)" by fastforce
    note q = accept_char_range [OF p(1) a]
    show "in_range tx p (recipe_parse_unary n cx tx p)"
    proof (cases b)
      case False
      then show ?thesis using a Unary(2) [of q] p q(1,2) in_range_later [OF _ q(1)] by (simp add: recipe_parse_unary.simps)
    next
      case True
      then have lt: "p < q" using q(3) by simp
      then obtain m where n: "n = Suc m" using p(2) q(2) by (cases n) simp_all
      have "in_range tx q (recipe_parse_unary m cx tx q)" using Unary(1) [OF n, of q] p(2) lt n q(2) by simp
      then have "in_range tx q (case recipe_parse_unary m cx tx q of Parsed v r \<Rightarrow> lift_result r (recipe_negate v)
          | Failed e r \<Rightarrow> Failed e r | Stuck \<Rightarrow> Stuck)"
        by (rule in_range_then) simp
      then show ?thesis using a True n in_range_later [OF _ q(1)] by (simp add: recipe_parse_unary.simps)
    qed
  qed
next
  case (Cmp n p)
  show ?case
  proof (intro impI)
    assume p: "p \<le> length tx" "length tx \<le> p + n"
    have rhs: "in_range tx q (case recipe_parse_add n cx tx r of Parsed w t \<Rightarrow> lift_result t (recipe_compare op len v w)
        | Failed e t \<Rightarrow> Failed e t | Stuck \<Rightarrow> Stuck)" if "p \<le> q" "q \<le> r" "r \<le> length tx" for q r op len v
    proof -
      have "in_range tx r (recipe_parse_add n cx tx r)" using Cmp [of r] that p(2) by simp
      then have "in_range tx r (case recipe_parse_add n cx tx r of Parsed w t \<Rightarrow> lift_result t (recipe_compare op len v w)
          | Failed e t \<Rightarrow> Failed e t | Stuck \<Rightarrow> Stuck)" by (rule in_range_then) simp
      then show ?thesis using that(2) by (rule in_range_later)
    qed
    show "in_range tx p (recipe_parse_cmp n cx tx p)"
      unfolding recipe_parse_cmp.simps Let_def
    proof (rule in_range_then)
      show "in_range tx p (recipe_parse_add n cx tx p)" using Cmp [of p] p by simp
      fix v q
      assume q: "p \<le> q" "q \<le> length tx"
      let ?s = "skip_space tx q"
      have s: "q \<le> ?s" "?s \<le> length tx" using skip_space_range [OF q(2)] by simp_all
      show "in_range tx q (case compare_token (char_at tx ?s) (char_at tx (?s + 1)) of
          None \<Rightarrow> Parsed v ?s | Some None \<Rightarrow> Failed EXPR_ERR_SYNTAX ?s
        | Some (Some (op, _, len)) \<Rightarrow> (case recipe_parse_add n cx tx (?s + len) of
            Parsed w r \<Rightarrow> lift_result r (recipe_compare op len v w) | Failed e r \<Rightarrow> Failed e r | Stuck \<Rightarrow> Stuck))"
        using s q(1) compare_token_length [of tx ?s] rhs [OF q(1)] by (auto split: option.split)
    qed
  qed
next
  case (Primary n p)
  show ?case
  proof (intro impI)
    assume p: "p \<le> length tx" "length tx \<le> p + n"
    let ?s = "skip_space tx p"
    have s: "p \<le> ?s" "?s \<le> length tx" using skip_space_range [OF p(1)] by simp_all
    have later: "in_range tx p r" if "in_range tx ?s r" for r :: "signal_value parsed" using that s(1) by (rule in_range_later)
    show "in_range tx p (recipe_parse_primary n cx tx p)"
    proof (cases "char_at tx ?s = CHR ''(''")
      case False
      then show ?thesis using s later recipe_number_in_range [OF s(2)] recipe_identifier_in_range [OF s(2), of cx]
        by (simp add: recipe_parse_primary.simps Let_def)
    next
      case True
      then have lt: "?s < length tx" using char_at_some [of tx ?s] by simp
      then obtain m where n: "n = Suc m" using p(2) s(1) by (cases n) simp_all
      have "in_range tx (?s + 1) (recipe_parse_or m cx tx (?s + 1))" using Primary [OF n, of "?s + 1"] p(2) s(1) lt n by simp
      then have "in_range tx (?s + 1) (case recipe_parse_or m cx tx (?s + 1) of
          Parsed v q \<Rightarrow> (case accept_char tx (CHR '')'') q of
            (True, r) \<Rightarrow> Parsed v r | (False, r) \<Rightarrow> Failed EXPR_ERR_SYNTAX r)
        | Failed e q \<Rightarrow> Failed e q | Stuck \<Rightarrow> Stuck)"
        by (rule in_range_then) (auto split: prod.split bool.split dest: accept_char_range)
      then show ?thesis using True n s(1) in_range_later [of tx "?s + 1" _ p] by (simp add: recipe_parse_primary.simps Let_def)
    qed
  qed
qed

lemma recipe_parse_or_range: "in_range tx 0 (recipe_parse_or (length tx) cx tx 0)"
  using recipe_parse_in_range(1) [of 0 tx "length tx" cx] by simp

lemma recipe_evaluation_returns: "\<exists>r. recipe_expr_evaluate tx cx = Some r"
  using recipe_parse_or_range [of tx cx] by (cases "recipe_parse_or (length tx) cx tx 0") (simp_all add: recipe_expr_evaluate_def)


subsection \<open>Types of results\<close>

lemma map_sum_Inr: "map_sum id f x = Inr v \<Longrightarrow> \<exists>y. v = f y"
  by (cases x) auto

lemma recipe_arith_typed: "recipe_arith op l r = Inr v \<Longrightarrow> typed_value v"
  by (auto simp: recipe_arith_def split: if_splits signal_value.splits dest!: map_sum_Inr)

lemma recipe_operators_typed:
  "recipe_compare op len l r = Inr v \<Longrightarrow> typed_value v" "recipe_not w = Inr v \<Longrightarrow> typed_value v"
  "recipe_negate w = Inr v \<Longrightarrow> typed_value v" "recipe_junction f l r = Inr v \<Longrightarrow> typed_value v"
  by (auto simp: recipe_compare_def recipe_not_def recipe_negate_def recipe_junction_def Let_def
      split: if_splits signal_value.splits)

lemma recipe_resolve_typed: "recipe_resolve_name cx name = Some v \<Longrightarrow> typed_value v"
  by (auto simp: recipe_resolve_name_def recipe_read_signal_def recipe_read_variable_def recipe_read_event_def Let_def
      split: if_splits option.splits prod.splits codec_status.splits recipe_status.splits dest: from_value_typed)

lemma recipe_number_typed: "gives typed_value (recipe_number tx p)"
  by (auto simp: recipe_number_def gives_def Let_def split: prod.splits parsed.splits if_splits)

lemma recipe_identifier_typed: "gives typed_value (recipe_identifier cx tx p)"
  by (auto simp: recipe_identifier_def gives_def Let_def split: option.splits if_splits dest: recipe_resolve_typed)

lemma recipe_parse_typed:
  shows "gives typed_value (recipe_parse_or n cx tx pos)" and "gives typed_value (recipe_parse_and n cx tx pos)"
    and "gives typed_value (recipe_parse_not n cx tx pos)" and "gives typed_value (recipe_parse_cmp n cx tx pos)"
    and "gives typed_value (recipe_parse_add n cx tx pos)" and "gives typed_value (recipe_parse_mul n cx tx pos)"
    and "gives typed_value (recipe_parse_unary n cx tx pos)" and "gives typed_value (recipe_parse_primary n cx tx pos)"
proof (induction n pos and n pos and n pos and n pos and n pos and n pos and n pos and n pos rule: fuel_induct)
  case (Or n p)
  show ?case unfolding recipe_parse_or.simps
    by (intro gives_then [of typed_value] operator_loop_typed Or) (auto dest: recipe_operators_typed)
next
  case (And n p)
  show ?case unfolding recipe_parse_and.simps
    by (intro gives_then [of typed_value] operator_loop_typed And) (auto dest: recipe_operators_typed)
next
  case (Add n p)
  show ?case unfolding recipe_parse_add.simps
    by (intro gives_then [of typed_value] operator_loop_typed Add) (auto dest: recipe_arith_typed)
next
  case (Mul n p)
  show ?case unfolding recipe_parse_mul.simps
    by (intro gives_then [of typed_value] operator_loop_typed Mul) (auto dest: recipe_arith_typed)
next
  case (Not n p)
  have "gives typed_value (case recipe_parse_not m cx tx q of Parsed v r \<Rightarrow> lift_result r (recipe_not v)
      | Failed e r \<Rightarrow> Failed e r | Stuck \<Rightarrow> Stuck)" if "n = Suc m" for m q
    using Not(1) [OF that] by (rule gives_then) (rule gives_lift, erule recipe_operators_typed)
  then show ?case using Not(2) by (auto simp: recipe_parse_not.simps [of n] split: prod.split bool.split nat.split)
next
  case (Unary n p)
  have "gives typed_value (case recipe_parse_unary m cx tx q of Parsed v r \<Rightarrow> lift_result r (recipe_negate v)
      | Failed e r \<Rightarrow> Failed e r | Stuck \<Rightarrow> Stuck)" if "n = Suc m" for m q
    using Unary(1) [OF that] by (rule gives_then) (rule gives_lift, erule recipe_operators_typed)
  then show ?case using Unary(2) by (auto simp: recipe_parse_unary.simps [of n] split: prod.split bool.split nat.split)
next
  case (Cmp n p)
  have r: "gives typed_value (case recipe_parse_add n cx tx q of Parsed w t \<Rightarrow> lift_result t (recipe_compare op b v w)
      | Failed e p \<Rightarrow> Failed e p | Stuck \<Rightarrow> Stuck)" for q op b v
    using Cmp by (rule gives_then) (rule gives_lift, erule recipe_operators_typed)
  show ?case unfolding recipe_parse_cmp.simps Let_def
    by (rule gives_then, rule Cmp) (use r in \<open>auto split: option.splits\<close>)
next
  case (Primary n p)
  have "gives typed_value (case recipe_parse_or m cx tx q of
      Parsed v r \<Rightarrow> (case accept_char tx c r of (True, t) \<Rightarrow> Parsed v t | (False, t) \<Rightarrow> Failed EXPR_ERR_SYNTAX t)
    | Failed e p \<Rightarrow> Failed e p | Stuck \<Rightarrow> Stuck)" if "n = Suc m" for m q c
    using Primary [OF that] by (rule gives_then) (auto split: prod.split bool.split)
  then show ?case
    by (auto simp: recipe_parse_primary.simps [of n] Let_def recipe_number_typed recipe_identifier_typed split: nat.split)
qed

text \<open>C39: The recipe evaluator always returns, and a result is typed. Whatever the text, its nesting and
  the context, the recursive-descent parser ends within the fuel of the text's length, and a value is a
  boolean, a 64-bit integer or a float, never the unset value or an unsigned integer.\<close>

theorem recipe_evaluation_returns_typed:
  "case recipe_expr_evaluate tx cx of Some None \<Rightarrow> True | Some (Some v) \<Rightarrow> typed_value v | None \<Rightarrow> False"
proof (cases "recipe_parse_or (length tx) cx tx 0")
  case (Parsed v p)
  then have "typed_value v" using recipe_parse_typed(1) [of "length tx" cx tx 0] by simp
  then show ?thesis using Parsed by (simp add: recipe_expr_evaluate_def)
qed (use recipe_parse_or_range [of tx cx] in \<open>simp_all add: recipe_expr_evaluate_def\<close>)

subsection \<open>Divergences\<close>

text \<open>The evaluator means to refuse to order booleans, but \<open>recipe_compare\<close> tells \<open><\<close> from the equalities by
  its length only: every operator of length 2 except \<open>==\<close> is an inequality on booleans.\<close>

lemma recipe_boolean_order:
  "recipe_compare op n (Value_bool a) (Value_bool b) = (if n \<noteq> 2 then Inl EXPR_ERR_TYPE
     else if op = CHR ''='' then Inr (Value_bool (a = b)) else Inr (Value_bool (a \<noteq> b)))"
  by (simp add: recipe_compare_def)

lemma recipe_true_le_true: "recipe_expr_evaluate ''true <= true'' cx = Some (Some (Value_bool False))"
  by code_simp

text \<open>The literal \<open>0.3\<close> is not the double nearest to 0.3: the digits are accumulated with rounding.\<close>

lemma recipe_literal_is_not_nearest:
  "recipe_expr_evaluate ''0.3'' cx = Some (Some (Value_real 0x3FD3333333333334))"
  "fst (decimal_to_double ''3'' (- 1)) = 0x3FD3333333333333"
  by code_simp+

end
