(* ===== verification/Recipe_Engine_Types.thy ===== *)
theory Recipe_Engine_Types
  imports Recipe_Expression Codec Event_Queue_Spec "HOL-Library.Monad_Syntax"
begin

text \<open>
  core/recipe/include/cancestry/recipe/engine.h: the configuration and the state of the recipe engine.
  The stores the engine borrows, its queue and its variables are part of its state. What it does to its
  environment is a history, \<open>re_effects\<close>: every call of the governor, of a configured evaluator, of a
  sink callback and of a hard-fault hook, and every write of the signal store, which the caller shares.
  What the governor and the evaluator answer is a function of that history, so they may have any state
  of their own. Callbacks do not re-enter the engine. A table with its count is a list.
\<close>

subsection \<open>Tables\<close>

record recipe_interface =
  if_name :: "string option"
  if_id :: interface_id

record recipe_binding =
  bd_alias :: "string option"
  bd_physical :: "string option"

record recipe_timer =
  tm_name :: "string option"
  tm_id :: u32

subsection \<open>Requests and effects\<close>

datatype recipe_governor_decision = RECIPE_GOVERNOR_APPROVE | RECIPE_GOVERNOR_DENY

datatype recipe_governor_request_kind = RECIPE_GOVERNOR_SEND_MESSAGE | RECIPE_GOVERNOR_SET_SIGNAL

record recipe_governor_request =
  rg_kind :: recipe_governor_request_kind
  rg_recipe :: recipe_ref
  rg_cause :: event
  rg_interface_name :: "string option"
  rg_interface_id :: interface_id
  rg_message_name :: "string option"
  rg_can_id :: u32
  rg_frame :: "u8 list"
  rg_frame_length :: u8
  rg_signal_name :: "string option"
  rg_signal_id :: u32
  rg_value :: "signal_value option"

record recipe_invocation =
  vo_recipe :: recipe_ref
  vo_ordinal :: u32
  vo_event :: event
  vo_action :: recipe_action

text \<open>The kind that the timer callback receives is that of the invocation's action.\<close>

datatype recipe_effect =
    Recipe_effect_governor recipe_governor_request recipe_governor_decision
  | Recipe_effect_evaluate string recipe_expression_context "signal_value option"
  | Recipe_effect_store u32 signal_value recipe_status
  | Recipe_effect_send_message recipe_invocation interface_id string u32 "u8 list" u8
  | Recipe_effect_signal_set recipe_invocation u32 string signal_value signal_value
  | Recipe_effect_log recipe_invocation recipe_log_level string
  | Recipe_effect_fault recipe_invocation string fault_severity u32
  | Recipe_effect_timer recipe_invocation string u32 bool
  | Recipe_effect_hook hook_call

type_synonym recipe_governor = "recipe_effect list \<Rightarrow> recipe_governor_request \<Rightarrow> recipe_governor_decision"

text \<open>\<open>None\<close> is the result false.\<close>

type_synonym recipe_evaluator =
  "recipe_effect list \<Rightarrow> string \<Rightarrow> recipe_expression_context \<Rightarrow> signal_value option"

text \<open>A sink says which callbacks are not NULL.\<close>

record recipe_sink =
  rk_send_message :: bool
  rk_signal_set :: bool
  rk_log :: bool
  rk_fault :: bool
  rk_timer :: bool

subsection \<open>Engine\<close>

record recipe_engine_counters =
  rc_events_processed :: u32
  rc_recipes_invoked :: u32
  rc_recipes_skipped_conditions :: u32
  rc_trigger_unresolved :: u32
  rc_conditions_evaluated :: u32
  rc_condition_errors :: u32
  rc_actions_executed :: u32
  rc_action_errors :: u32
  rc_governor_denials :: u32
  rc_recipes_halted :: u32
  rc_messages_sent :: u32
  rc_signals_set :: u32
  rc_variables_set :: u32
  rc_timers_requested :: u32
  rc_logs_emitted :: u32
  rc_faults_raised :: u32
  rc_codec_warnings :: codec_warnings

definition zero_recipe_counters :: recipe_engine_counters where
  "zero_recipe_counters = \<lparr>rc_events_processed = 0, rc_recipes_invoked = 0, rc_recipes_skipped_conditions = 0,
     rc_trigger_unresolved = 0, rc_conditions_evaluated = 0, rc_condition_errors = 0, rc_actions_executed = 0,
     rc_action_errors = 0, rc_governor_denials = 0, rc_recipes_halted = 0, rc_messages_sent = 0, rc_signals_set = 0,
     rc_variables_set = 0, rc_timers_requested = 0, rc_logs_emitted = 0, rc_faults_raised = 0,
     rc_codec_warnings = \<lparr>cw_frame_too_short = 0, cw_value_clamped = 0, cw_enum_unknown = 0\<rparr>\<rparr>"

record recipe_engine =
  re_sets :: "recipe_set list"
  re_namespace :: "codec_namespace option"
  re_interfaces :: "recipe_interface list"
  re_bindings :: "recipe_binding list"
  re_timers :: "recipe_timer list"
  re_signals :: "sig_store option"
  re_queue :: "event_queue option"
  re_sink :: "recipe_sink option"
  re_governor :: "recipe_governor option"
  re_evaluator :: "recipe_evaluator option"
  re_variables :: "recipe_variable list"
  re_variable_capacity :: nat
  re_variable_count :: nat
  re_counters :: recipe_engine_counters
  re_effects :: "recipe_effect list"

record recipe_engine_config =
  rf_sets :: "recipe_set list"
  rf_signal_namespace :: "codec_namespace option"
  rf_interfaces :: "recipe_interface list"
  rf_bindings :: "recipe_binding list"
  rf_timers :: "recipe_timer list"
  rf_signal_store :: "sig_store option"
  rf_event_queue :: "event_queue option"
  rf_sink :: "recipe_sink option"
  rf_governor :: "recipe_governor option"
  rf_evaluator :: "recipe_evaluator option"
  rf_variable_storage :: "recipe_variable list option"
  rf_variable_capacity :: nat

subsection \<open>Lifecycle\<close>

text \<open>The engine after \<open>memset\<close>, with an empty history.\<close>

definition recipe_zero_engine :: recipe_engine where
  "recipe_zero_engine = \<lparr>re_sets = [], re_namespace = None, re_interfaces = [], re_bindings = [], re_timers = [],
     re_signals = None, re_queue = None, re_sink = None, re_governor = None, re_evaluator = None, re_variables = [],
     re_variable_capacity = 0, re_variable_count = 0, re_counters = zero_recipe_counters, re_effects = []\<rparr>"

definition recipe_engine_init :: "recipe_engine option \<Rightarrow> recipe_engine_config option \<Rightarrow> bool \<times> recipe_engine option" where
  "recipe_engine_init eng config = (case (eng, config) of
       (Some _, Some c) \<Rightarrow>
         if rf_sets c = [] then (False, Some recipe_zero_engine)
         else if rf_variable_storage c = None \<and> rf_variable_capacity c \<noteq> 0 then (False, Some recipe_zero_engine)
         else (True, Some (recipe_zero_engine\<lparr>re_sets := rf_sets c, re_namespace := rf_signal_namespace c,
           re_interfaces := rf_interfaces c, re_bindings := rf_bindings c, re_timers := rf_timers c,
           re_signals := rf_signal_store c, re_queue := rf_event_queue c, re_sink := rf_sink c,
           re_governor := rf_governor c, re_evaluator := rf_evaluator c,
           re_variables := (case rf_variable_storage c of None \<Rightarrow> [] | Some vs \<Rightarrow> vs),
           re_variable_capacity := rf_variable_capacity c, re_variable_count := 0,
           re_counters := zero_recipe_counters\<rparr>))
     | _ \<Rightarrow> (False, eng))"

definition recipe_engine_is_valid :: "recipe_engine option \<Rightarrow> bool" where
  "recipe_engine_is_valid eng = (case eng of None \<Rightarrow> False
     | Some e \<Rightarrow> re_sets e \<noteq> [] \<and> length (re_sets e) > 0 \<and> re_variable_count e \<le> re_variable_capacity e)"

definition recipe_engine_recipe_count :: "recipe_engine option \<Rightarrow> nat" where
  "recipe_engine_recipe_count eng =
     (if \<not> recipe_engine_is_valid eng then 0
      else sum_list (List.map (\<lambda>s. length (rq_recipes s)) (re_sets (the eng))))"

definition recipe_counters_of :: "recipe_engine option \<Rightarrow> recipe_engine_counters option" where
  "recipe_counters_of eng = (if \<not> recipe_engine_is_valid eng then None else Some (re_counters (the eng)))"

text \<open>\<open>recipe_find_variable\<close>: the index of the first used slot; \<open>None\<close> is NULL.\<close>

definition recipe_find_variable :: "recipe_engine \<Rightarrow> recipe_ref \<Rightarrow> string \<Rightarrow> nat option" where
  "recipe_find_variable e r name =
     find (\<lambda>i. rv_recipe (re_variables e ! i) = Some r \<and> rv_name (re_variables e ! i) = name) [0..<re_variable_count e]"

definition recipe_engine_get_variable :: "recipe_engine option \<Rightarrow> recipe_ref option \<Rightarrow> string option \<Rightarrow> signal_value option
    \<Rightarrow> recipe_status \<times> signal_value option" where
  "recipe_engine_get_variable eng r name out = (case (eng, r, name, out) of
       (Some e, Some rr, Some nm, Some _) \<Rightarrow>
         if \<not> recipe_engine_is_valid eng then (RECIPE_ERR_NULL, out)
         else (case recipe_find_variable e rr nm of
             None \<Rightarrow> (RECIPE_ERR_NOT_FOUND, out)
           | Some i \<Rightarrow> (RECIPE_OK, Some (rv_value (re_variables e ! i))))
     | _ \<Rightarrow> (RECIPE_ERR_NULL, out))"

subsection \<open>Helpers of the model\<close>

definition recipe_count :: "((u32 \<Rightarrow> u32) \<Rightarrow> recipe_engine_counters \<Rightarrow> recipe_engine_counters) \<Rightarrow> recipe_engine \<Rightarrow> recipe_engine" where
  "recipe_count field e = e\<lparr>re_counters := field (\<lambda>n. n + 1) (re_counters e)\<rparr>"

definition recipe_log_effect :: "recipe_effect \<Rightarrow> recipe_engine \<Rightarrow> recipe_engine" where
  "recipe_log_effect x e = e\<lparr>re_effects := re_effects e @ [x]\<rparr>"

definition recipe_has_sink :: "(recipe_sink \<Rightarrow> bool) \<Rightarrow> recipe_engine \<Rightarrow> bool" where
  "recipe_has_sink callback e \<longleftrightarrow> (case re_sink e of None \<Rightarrow> False | Some s \<Rightarrow> callback s)"

text \<open>After a queue operation; \<open>None\<close> when it did not return.\<close>

definition recipe_after_push :: "event_queue_status option \<times> event_queue option \<times> hook_call list \<Rightarrow> recipe_engine
    \<Rightarrow> (event_queue_status \<times> recipe_engine) option" where
  "recipe_after_push result e = (case result of (st, q, calls) \<Rightarrow>
     map_option (\<lambda>s. (s, e\<lparr>re_queue := q, re_effects := re_effects e @ List.map Recipe_effect_hook calls\<rparr>)) st)"

end
