(* ===== verification/Recipe_Engine.thy ===== *)
theory Recipe_Engine
  imports Recipe_Engine_Types
begin

text \<open>
  core/recipe/src/engine.c from the name resolution to the end: triggers, conditions, the eight actions
  and the processing of an event. A queue push may never return (the hard-fault escalation spins when
  its hooks are missing), so what pushes gives an option, \<open>None\<close> when it does not return.
\<close>

subsection \<open>Names\<close>

definition recipe_fault_code_hash :: "string option \<Rightarrow> u32" where
  "recipe_fault_code_hash code = (case code of None \<Rightarrow> 1
     | Some s \<Rightarrow>
         let hash = foldl (\<lambda>h c. (h XOR of_char c) * 16777619) 2166136261 s
         in if hash = 0 then 1 else hash)"

definition recipe_name_equals :: "string option \<Rightarrow> string option \<Rightarrow> bool" where
  "recipe_name_equals tx name = (case (tx, name) of (Some a, Some b) \<Rightarrow> a = b | _ \<Rightarrow> False)"

definition recipe_message_matches :: "string \<Rightarrow> codec_map \<Rightarrow> codec_message \<Rightarrow> bool" where
  "recipe_message_matches name mp msg = (case find_dot name of
       Some dot \<Rightarrow> cmap_name mp = take dot name \<and> cm_name msg = drop (dot + 1) name
     | None \<Rightarrow> cm_name msg = name)"

text \<open>The scan stops at the second match.\<close>

definition recipe_resolve_message :: "recipe_engine \<Rightarrow> string \<Rightarrow> recipe_status \<times> (codec_map \<times> codec_message) option" where
  "recipe_resolve_message e name =
     (if \<not> namespace_is_valid (re_namespace e) then (RECIPE_ERR_NOT_FOUND, None)
      else (case concat (List.map (\<lambda>mp. List.map (Pair mp) (List.filter (recipe_message_matches name mp) (cmap_messages mp)))
              (ns_maps (the (re_namespace e)))) of
          [] \<Rightarrow> (RECIPE_ERR_NOT_FOUND, None)
        | [found] \<Rightarrow> (RECIPE_OK, Some found)
        | _ \<Rightarrow> (RECIPE_ERR_AMBIGUOUS, None)))"

definition recipe_resolve_signal :: "recipe_engine \<Rightarrow> string \<Rightarrow> recipe_status \<times> codec_resolution" where
  "recipe_resolve_signal e name =
     (if \<not> namespace_is_valid (re_namespace e) then (RECIPE_ERR_NOT_FOUND, zero_resolution)
      else (case namespace_resolve (re_namespace e) (Some name) (Some zero_resolution) of
          (CODEC_OK, r) \<Rightarrow> (RECIPE_OK, the r)
        | (CODEC_ERR_AMBIGUOUS, r) \<Rightarrow> (RECIPE_ERR_AMBIGUOUS, the r)
        | (_, r) \<Rightarrow> (RECIPE_ERR_NOT_FOUND, the r)))"

text \<open>The name of the signal a resolution found.\<close>

definition recipe_signal_name :: "recipe_engine \<Rightarrow> codec_resolution \<Rightarrow> string" where
  "recipe_signal_name e r = cs_name (signal_of (the (re_namespace e)) (the (rs_signal r)))"

definition recipe_resolve_interface :: "recipe_engine \<Rightarrow> string \<Rightarrow> (interface_id \<times> string) option" where
  "recipe_resolve_interface e name =
     (let physical = (\<lambda>n. map_option (\<lambda>i. (if_id i, the (if_name i))) (find (\<lambda>i. recipe_name_equals (if_name i) n) (re_interfaces e)))
      in case physical (Some name) of
           Some r \<Rightarrow> Some r
         | None \<Rightarrow> (case find (\<lambda>b. recipe_name_equals (bd_alias b) (Some name)) (re_bindings e) of
             Some b \<Rightarrow> physical (bd_physical b)
           | None \<Rightarrow> None))"

definition recipe_resolve_timer :: "recipe_engine \<Rightarrow> string \<Rightarrow> u32 option" where
  "recipe_resolve_timer e name = map_option tm_id (find (\<lambda>t. recipe_name_equals (tm_name t) (Some name)) (re_timers e))"

subsection \<open>Governor\<close>

definition recipe_governor_check :: "recipe_governor_request \<Rightarrow> recipe_engine \<Rightarrow> bool \<times> recipe_engine" where
  "recipe_governor_check request e = (case re_governor e of
       None \<Rightarrow> (False, recipe_count rc_governor_denials_update e)
     | Some g \<Rightarrow>
         let d = g (re_effects e) request; e1 = recipe_log_effect (Recipe_effect_governor request d) e
         in if d \<noteq> RECIPE_GOVERNOR_APPROVE then (False, recipe_count rc_governor_denials_update e1) else (True, e1))"

text \<open>The zeroed request with its kind, recipe and cause.\<close>

definition recipe_request :: "recipe_governor_request_kind \<Rightarrow> recipe_invocation \<Rightarrow> recipe_governor_request" where
  "recipe_request kind v = \<lparr>rg_kind = kind, rg_recipe = vo_recipe v, rg_cause = vo_event v, rg_interface_name = None,
     rg_interface_id = 0, rg_message_name = None, rg_can_id = 0, rg_frame = [], rg_frame_length = 0,
     rg_signal_name = None, rg_signal_id = 0, rg_value = None\<rparr>"

subsection \<open>Triggers and conditions\<close>

definition recipe_trigger_filters_applicable :: "recipe_trigger \<Rightarrow> bool" where
  "recipe_trigger_filters_applicable t \<longleftrightarrow> (case recipe_trigger_event_type (tg_event t) of
       EVENT_TYPE_CAN_RX \<Rightarrow> tg_signal t = None \<and> tg_timer t = None \<and> \<not> tg_has_timeout_ms t
     | EVENT_TYPE_SIGNAL_CHANGED \<Rightarrow>
         tg_interface t = None \<and> tg_message t = None \<and> tg_timer t = None \<and> \<not> tg_has_timeout_ms t
     | EVENT_TYPE_TIMER_EXPIRED \<Rightarrow>
         tg_interface t = None \<and> tg_message t = None \<and> tg_signal t = None \<and> \<not> tg_has_timeout_ms t
     | EVENT_TYPE_FAULT_RAISED \<Rightarrow>
         tg_interface t = None \<and> tg_message t = None \<and> tg_signal t = None \<and> tg_timer t = None \<and> \<not> tg_has_timeout_ms t
     | EVENT_TYPE_POWER_MODE_CHANGED \<Rightarrow>
         tg_interface t = None \<and> tg_message t = None \<and> tg_signal t = None \<and> tg_timer t = None \<and> \<not> tg_has_timeout_ms t
     | _ \<Rightarrow> False)"

text \<open>What one filter of a trigger does: \<open>None\<close> when its name does not resolve, which is counted, and
  whether the event is the one it names.\<close>

definition recipe_filter :: "string option \<Rightarrow> (string \<Rightarrow> bool option) \<Rightarrow> recipe_engine \<Rightarrow> bool \<times> recipe_engine" where
  "recipe_filter name selects e = (case name of None \<Rightarrow> (True, e)
     | Some nm \<Rightarrow> (case selects nm of
         None \<Rightarrow> (False, recipe_count rc_trigger_unresolved_update e)
       | Some b \<Rightarrow> (b, e)))"

definition recipe_interface_filter :: "recipe_engine \<Rightarrow> event \<Rightarrow> string \<Rightarrow> bool option" where
  "recipe_interface_filter e ev name =
     map_option (\<lambda>i. fst (payload_frame_id (ev_payload ev)) = fst i) (recipe_resolve_interface e name)"

definition recipe_message_filter :: "recipe_engine \<Rightarrow> event \<Rightarrow> string \<Rightarrow> bool option" where
  "recipe_message_filter e ev name = (case recipe_resolve_message e name of
       (RECIPE_OK, Some (_, msg)) \<Rightarrow> Some (snd (payload_frame_id (ev_payload ev)) = cm_id msg)
     | _ \<Rightarrow> None)"

definition recipe_signal_filter :: "recipe_engine \<Rightarrow> event \<Rightarrow> string \<Rightarrow> bool option" where
  "recipe_signal_filter e ev name = (case recipe_resolve_signal e name of
       (RECIPE_OK, r) \<Rightarrow> Some (fst (payload_signal (ev_payload ev)) = rs_signal_id r)
     | _ \<Rightarrow> None)"

definition recipe_timer_filter :: "recipe_engine \<Rightarrow> event \<Rightarrow> string \<Rightarrow> bool option" where
  "recipe_timer_filter e ev name =
     map_option (\<lambda>t. fst (payload_expiry (ev_payload ev)) = t) (recipe_resolve_timer e name)"

definition recipe_trigger_matches :: "recipe \<Rightarrow> event \<Rightarrow> recipe_engine \<Rightarrow> bool \<times> recipe_engine" where
  "recipe_trigger_matches r ev e =
     (let t = rp_trigger r; ty = recipe_trigger_event_type (tg_event t)
      in if ty = EVENT_TYPE_INVALID \<or> ev_type ev \<noteq> ty then (False, e)
         else if \<not> recipe_trigger_filters_applicable t then (False, e)
         else (case ty of
             EVENT_TYPE_CAN_RX \<Rightarrow> (case recipe_filter (tg_interface t) (recipe_interface_filter e ev) e of
                 (b, e1) \<Rightarrow> if \<not> b then (False, e1) else recipe_filter (tg_message t) (recipe_message_filter e1 ev) e1)
           | EVENT_TYPE_SIGNAL_CHANGED \<Rightarrow> recipe_filter (tg_signal t) (recipe_signal_filter e ev) e
           | EVENT_TYPE_TIMER_EXPIRED \<Rightarrow> recipe_filter (tg_timer t) (recipe_timer_filter e ev) e
           | _ \<Rightarrow> (True, e)))"

definition recipe_context :: "recipe_engine \<Rightarrow> recipe_ref \<Rightarrow> event \<Rightarrow> recipe_expression_context" where
  "recipe_context e r ev = \<lparr>rctx_recipe = r, rctx_event = Some ev, rctx_namespace = re_namespace e,
     rctx_signals = re_signals e, rctx_variables = re_variables e, rctx_variable_count = re_variable_count e\<rparr>"

definition recipe_evaluate_expression :: "recipe_expression_context \<Rightarrow> string \<Rightarrow> recipe_engine
    \<Rightarrow> (signal_value option \<times> recipe_engine) option" where
  "recipe_evaluate_expression cx tx e = (case re_evaluator e of
       Some f \<Rightarrow> let v = f (re_effects e) tx cx in Some (v, recipe_log_effect (Recipe_effect_evaluate tx cx v) e)
     | None \<Rightarrow> map_option (\<lambda>v. (v, e)) (recipe_expr_evaluate tx cx))"

fun recipe_conditions_from :: "string list \<Rightarrow> recipe_expression_context \<Rightarrow> recipe_engine \<Rightarrow> (bool \<times> recipe_engine) option" where
  "recipe_conditions_from [] cx e = Some (True, e)"
| "recipe_conditions_from (c # cs) cx e =
     (case recipe_evaluate_expression cx c (recipe_count rc_conditions_evaluated_update e) of
        None \<Rightarrow> None
      | Some (v, e1) \<Rightarrow> (case v of
          Some (Value_bool b) \<Rightarrow> if \<not> b then Some (False, e1) else recipe_conditions_from cs cx e1
        | _ \<Rightarrow> Some (False, recipe_count rc_condition_errors_update e1)))"

definition recipe_conditions_hold :: "recipe_ref \<Rightarrow> recipe \<Rightarrow> event \<Rightarrow> recipe_engine \<Rightarrow> (bool \<times> recipe_engine) option" where
  "recipe_conditions_hold ref r ev e = recipe_conditions_from (rp_conditions r) (recipe_context e ref ev) e"

fun recipe_evaluate_operand :: "recipe_operand \<Rightarrow> recipe_invocation \<Rightarrow> recipe_engine
    \<Rightarrow> (recipe_status \<times> signal_value \<times> recipe_engine) option" where
  "recipe_evaluate_operand (Recipe_literal v) invo e = Some (RECIPE_OK, v, e)"
| "recipe_evaluate_operand (Recipe_expression tx) invo e =
     map_option (\<lambda>(r, e1). case r of
         None \<Rightarrow> (RECIPE_ERR_EXPRESSION, Value_unset, e1)
       | Some v \<Rightarrow> (RECIPE_OK, v, e1))
       (recipe_evaluate_expression (recipe_context e (vo_recipe invo) (vo_event invo)) tx e)"

fun recipe_values_equal :: "signal_value \<Rightarrow> signal_value \<Rightarrow> bool" where
  "recipe_values_equal (Value_bool a) (Value_bool b) \<longleftrightarrow> a = b"
| "recipe_values_equal (Value_int a) (Value_int b) \<longleftrightarrow> a = b"
| "recipe_values_equal (Value_uint a) (Value_uint b) \<longleftrightarrow> a = b"
| "recipe_values_equal (Value_real a) (Value_real b) \<longleftrightarrow> fp_eq a b"
| "recipe_values_equal Value_unset Value_unset \<longleftrightarrow> True"
| "recipe_values_equal _ _ \<longleftrightarrow> False"

subsection \<open>Values for the encoder\<close>

text \<open>\<open>None\<close> is the result false.\<close>

definition recipe_round_half_away :: "double \<Rightarrow> 64 word option" where
  "recipe_round_half_away q =
     (if \<not> (fp_less (fp_uminus FP_2_63) q \<and> fp_less q FP_2_63) then None
      else
        let rounded = (if fp_le 0 q then fp_of_int (fp_to_int (fp_add q FP_HALF)) else fp_of_int (fp_to_int (fp_sub q FP_HALF)))
        in Some (word_of_int (fp_to_int rounded)))"

text \<open>\<open>None\<close> is \<open>ERR_ENCODING\<close>.\<close>

definition recipe_coerce_for_signal :: "codec_signal \<Rightarrow> signal_value \<Rightarrow> signal_value option" where
  "recipe_coerce_for_signal sg v = (case cs_type sg of
       SIGNAL_TYPE_UINT \<Rightarrow> (case v of
           Value_uint u \<Rightarrow> Some v
         | Value_int i \<Rightarrow> if i <s 0 then None else Some (Value_uint i)
         | Value_real x \<Rightarrow>
             if \<not> cs_unscaled sg then Some v
             else (case recipe_round_half_away x of None \<Rightarrow> None | Some i \<Rightarrow> if i <s 0 then None else Some (Value_uint i))
         | _ \<Rightarrow> None)
     | SIGNAL_TYPE_INT \<Rightarrow> (case v of
           Value_int i \<Rightarrow> Some v
         | Value_uint u \<Rightarrow> if u > I64_MAX then None else Some (Value_int u)
         | Value_real x \<Rightarrow> if \<not> cs_unscaled sg then Some v else map_option Value_int (recipe_round_half_away x)
         | _ \<Rightarrow> None)
     | SIGNAL_TYPE_BOOLEAN \<Rightarrow> (case v of
           Value_bool b \<Rightarrow> Some v
         | Value_int i \<Rightarrow> if i = 0 \<or> i = 1 then Some (Value_bool (i \<noteq> 0)) else None
         | _ \<Rightarrow> None)
     | SIGNAL_TYPE_ENUM \<Rightarrow> (case v of
           Value_int i \<Rightarrow> if i <s 0 then None else Some v
         | Value_uint u \<Rightarrow> if u > I64_MAX then None else Some (Value_int u)
         | _ \<Rightarrow> None)
     | SIGNAL_TYPE_COUNT \<Rightarrow> None)"

subsection \<open>Actions\<close>

text \<open>The signals of a message into the frame, with the span of bytes used. The encoder counts its
  warnings in the engine, also when the action fails afterwards.\<close>

fun recipe_encode_values :: "codec_map \<Rightarrow> (string \<times> recipe_operand) list \<Rightarrow> u8 list \<Rightarrow> nat \<Rightarrow> recipe_invocation
    \<Rightarrow> recipe_engine \<Rightarrow> (recipe_status \<times> u8 list \<times> nat \<times> recipe_engine) option" where
  "recipe_encode_values mp [] frame span invo e = Some (RECIPE_OK, frame, span, e)"
| "recipe_encode_values mp ((name, operand) # specs) frame span invo e = (case map_find_signal mp name of
       None \<Rightarrow> Some (RECIPE_ERR_NOT_FOUND, frame, span, e)
     | Some (j, k) \<Rightarrow>
         let sg = cm_signals (cmap_messages mp ! j) ! k
         in case recipe_evaluate_operand operand invo e of
              None \<Rightarrow> None
            | Some (st, v, e1) \<Rightarrow>
                if st \<noteq> RECIPE_OK then Some (st, frame, span, e1)
                else (case recipe_coerce_for_signal sg v of
                    None \<Rightarrow> Some (RECIPE_ERR_ENCODING, frame, span, e1)
                  | Some coerced \<Rightarrow>
                      (case codec_encode_signal (Some sg) (Some coerced) (Some frame) (Some (rc_codec_warnings (re_counters e1))) of
                        (cst, frame', w) \<Rightarrow>
                          let e2 = e1\<lparr>re_counters := (re_counters e1)\<lparr>rc_codec_warnings := the w\<rparr>\<rparr>
                          in if codec_status_value cst < 0 then Some (RECIPE_ERR_ENCODING, the frame', span, e2)
                             else recipe_encode_values mp specs (the frame')
                               (max span (unat (cs_last_bit sg) div 8 + 1)) invo e2)))"

text \<open>The end of the action: approval and delivery of the encoded frame.\<close>

definition recipe_deliver_message :: "interface_id \<Rightarrow> string \<Rightarrow> string \<Rightarrow> codec_message \<Rightarrow> u8 list \<Rightarrow> recipe_invocation
    \<Rightarrow> recipe_engine \<Rightarrow> recipe_status \<times> recipe_engine" where
  "recipe_deliver_message iid iname name msg frame invo e =
     (case recipe_governor_check ((recipe_request RECIPE_GOVERNOR_SEND_MESSAGE invo)\<lparr>rg_interface_name := Some iname,
         rg_interface_id := iid, rg_message_name := Some name, rg_can_id := cm_id msg, rg_frame := frame,
         rg_frame_length := cm_dlc msg\<rparr>) e of
        (approved, e1) \<Rightarrow>
          if \<not> approved then (RECIPE_ERR_DENIED, e1)
          else if \<not> recipe_has_sink rk_send_message e1 then (RECIPE_ERR_UNSUPPORTED, e1)
          else (RECIPE_OK, recipe_count rc_messages_sent_update
            (recipe_log_effect (Recipe_effect_send_message invo iid iname (cm_id msg) frame (cm_dlc msg)) e1)))"

definition recipe_action_send_message :: "string \<Rightarrow> string \<Rightarrow> (string \<times> recipe_operand) list \<Rightarrow> recipe_invocation
    \<Rightarrow> recipe_engine \<Rightarrow> (recipe_status \<times> recipe_engine) option" where
  "recipe_action_send_message iface name specs invo e = (case recipe_resolve_interface e iface of
       None \<Rightarrow> Some (RECIPE_ERR_NOT_FOUND, e)
     | Some (iid, iname) \<Rightarrow> (case recipe_resolve_message e name of (st, found) \<Rightarrow>
         if st \<noteq> RECIPE_OK then Some (st, e)
         else
           let mp = fst (the found); msg = snd (the found)
           in if unat (cm_dlc msg) > CAN_FRAME_MAX_LENGTH then Some (RECIPE_ERR_UNSUPPORTED, e)
              else (case recipe_encode_values mp specs (replicate CAN_FRAME_MAX_LENGTH 0) 0 invo e of
                  None \<Rightarrow> None
                | Some (st, frame, span, e1) \<Rightarrow>
                    if st \<noteq> RECIPE_OK then Some (st, e1)
                    else if span > unat (cm_dlc msg) then Some (RECIPE_ERR_ENCODING, e1)
                    else Some (recipe_deliver_message iid iname name msg frame invo e1))))"

text \<open>The write of the store after the approval, and what follows a change.\<close>

definition recipe_signal_changed :: "u32 \<Rightarrow> string \<Rightarrow> signal_value \<Rightarrow> signal_value \<Rightarrow> recipe_invocation
    \<Rightarrow> recipe_engine \<Rightarrow> recipe_engine option" where
  "recipe_signal_changed sid name old v invo e = do {
     e1 \<leftarrow> (if re_queue e = None \<or> \<not> event_queue_is_valid (re_queue e) then Some e
       else map_option snd (recipe_after_push (event_queue_emit_generated (re_queue e) (Some (vo_event invo))
         EVENT_TYPE_SIGNAL_CHANGED
         (Some (Payload_signal_changed \<lparr>sc_signal_id = sid, sc_signal_name = Some name, sc_old_value = old, sc_new_value = v\<rparr>))
         0) e));
     Some (if recipe_has_sink rk_signal_set e1
       then recipe_log_effect (Recipe_effect_signal_set invo sid name old v) e1 else e1) }"

definition recipe_store_signal :: "u32 \<Rightarrow> string \<Rightarrow> signal_value \<Rightarrow> recipe_invocation \<Rightarrow> recipe_engine
    \<Rightarrow> (recipe_status \<times> recipe_engine) option" where
  "recipe_store_signal sid name v invo e =
     (case signal_store_get (re_signals e) sid (Some Value_unset) of (gst, old) \<Rightarrow>
        (case signal_store_set (re_signals e) sid (Some v) of (st, store) \<Rightarrow>
           let e1 = recipe_log_effect (Recipe_effect_store sid v st) (e\<lparr>re_signals := store\<rparr>)
           in if st \<noteq> RECIPE_OK then Some (st, e1)
              else if gst \<noteq> RECIPE_OK \<or> \<not> recipe_values_equal (the old) v
              then map_option (\<lambda>e2. (RECIPE_OK, recipe_count rc_signals_set_update e2))
                (recipe_signal_changed sid name (if gst = RECIPE_OK then the old else Value_unset) v invo e1)
              else Some (RECIPE_OK, recipe_count rc_signals_set_update e1)))"

definition recipe_action_set_signal :: "string \<Rightarrow> recipe_operand \<Rightarrow> recipe_invocation \<Rightarrow> recipe_engine
    \<Rightarrow> (recipe_status \<times> recipe_engine) option" where
  "recipe_action_set_signal name operand invo e = (case recipe_resolve_signal e name of (st, res) \<Rightarrow>
     if st \<noteq> RECIPE_OK then Some (st, e)
     else (case recipe_evaluate_operand operand invo e of
         None \<Rightarrow> None
       | Some (st, v, e1) \<Rightarrow>
           if st \<noteq> RECIPE_OK then Some (st, e1)
           else (case recipe_governor_check ((recipe_request RECIPE_GOVERNOR_SET_SIGNAL invo)\<lparr>rg_signal_name := Some name,
                   rg_signal_id := rs_signal_id res, rg_value := Some v\<rparr>) e1 of
               (approved, e2) \<Rightarrow>
                 if \<not> approved then Some (RECIPE_ERR_DENIED, e2)
                 else if re_signals e2 = None then Some (RECIPE_ERR_UNSUPPORTED, e2)
                 else recipe_store_signal (rs_signal_id res) (recipe_signal_name e2 res) v invo e2)))"

definition recipe_store_variable :: "recipe_ref \<Rightarrow> string \<Rightarrow> signal_value \<Rightarrow> recipe_engine \<Rightarrow> recipe_status \<times> recipe_engine" where
  "recipe_store_variable r name v e = (case recipe_find_variable e r name of
       Some i \<Rightarrow> (RECIPE_OK, recipe_count rc_variables_set_update
         (e\<lparr>re_variables := (re_variables e)[i := (re_variables e ! i)\<lparr>rv_value := v\<rparr>]\<rparr>))
     | None \<Rightarrow>
         if re_variable_count e \<ge> re_variable_capacity e then (RECIPE_ERR_CAPACITY, e)
         else (RECIPE_OK, recipe_count rc_variables_set_update
           (e\<lparr>re_variables := (re_variables e)[re_variable_count e := \<lparr>rv_recipe = Some r, rv_name = name, rv_value = v\<rparr>],
              re_variable_count := re_variable_count e + 1\<rparr>)))"

definition recipe_action_set_variable :: "string \<Rightarrow> recipe_operand \<Rightarrow> recipe_invocation \<Rightarrow> recipe_engine
    \<Rightarrow> (recipe_status \<times> recipe_engine) option" where
  "recipe_action_set_variable name operand invo e = (case recipe_evaluate_operand operand invo e of
       None \<Rightarrow> None
     | Some (st, v, e1) \<Rightarrow>
         if st \<noteq> RECIPE_OK then Some (st, e1) else Some (recipe_store_variable (vo_recipe invo) name v e1))"

definition recipe_action_timer :: "string \<Rightarrow> u32 \<Rightarrow> bool \<Rightarrow> recipe_invocation \<Rightarrow> recipe_engine \<Rightarrow> recipe_status \<times> recipe_engine" where
  "recipe_action_timer name duration_ms rep invo e =
     (if \<not> recipe_has_sink rk_timer e then (RECIPE_ERR_UNSUPPORTED, e)
      else (RECIPE_OK, recipe_count rc_timers_requested_update
        (recipe_log_effect (Recipe_effect_timer invo name duration_ms rep) e)))"

definition recipe_action_log :: "recipe_log_level \<Rightarrow> string \<Rightarrow> recipe_invocation \<Rightarrow> recipe_engine \<Rightarrow> recipe_status \<times> recipe_engine" where
  "recipe_action_log level message invo e =
     (if \<not> recipe_has_sink rk_log e then (RECIPE_ERR_UNSUPPORTED, e)
      else (RECIPE_OK, recipe_count rc_logs_emitted_update (recipe_log_effect (Recipe_effect_log invo level message) e)))"

definition recipe_fault_event :: "u32 \<Rightarrow> fault_severity \<Rightarrow> recipe_invocation \<Rightarrow> event" where
  "recipe_fault_event num severity invo = zero_event\<lparr>ev_type := EVENT_TYPE_FAULT_RAISED,
     ev_priority_class := PRIORITY_CLASS_FAULT, ev_timestamp_us := ev_timestamp_us (vo_event invo),
     ev_cause_sequence := ev_sequence (vo_event invo),
     ev_payload := Payload_fault \<lparr>fr_fault_code = num, fr_severity = severity, fr_source_id = vo_ordinal invo\<rparr>\<rparr>"

definition recipe_action_raise_fault :: "string \<Rightarrow> fault_severity \<Rightarrow> recipe_invocation \<Rightarrow> recipe_engine
    \<Rightarrow> (recipe_status \<times> recipe_engine) option" where
  "recipe_action_raise_fault code severity invo e = do {
     let num = recipe_fault_code_hash (Some code);
     (queued, e1) \<leftarrow> (if re_queue e = None \<or> \<not> event_queue_is_valid (re_queue e) then Some (False, e)
       else map_option (apfst event_queue_status_is_ok)
         (recipe_after_push (event_queue_push (re_queue e) (Some (recipe_fault_event num severity invo))) e));
     let told = recipe_has_sink rk_fault e1;
     let e2 = (if told then recipe_log_effect (Recipe_effect_fault invo code severity num) e1 else e1);
     Some (if \<not> (queued \<or> told) then (RECIPE_ERR_UNSUPPORTED, e2)
       else (RECIPE_OK, recipe_count rc_faults_raised_update e2)) }"

definition recipe_execute_action :: "recipe_invocation \<Rightarrow> recipe_engine \<Rightarrow> (recipe_status \<times> recipe_engine) option" where
  "recipe_execute_action invo e = (case vo_action invo of
       Recipe_send_message iface name specs \<Rightarrow> recipe_action_send_message iface name specs invo e
     | Recipe_set_signal name operand \<Rightarrow> recipe_action_set_signal name operand invo e
     | Recipe_set_variable name operand \<Rightarrow> recipe_action_set_variable name operand invo e
     | Recipe_start_timer name duration has_duration rep \<Rightarrow> Some (recipe_action_timer name duration rep invo e)
     | Recipe_stop_timer name \<Rightarrow> Some (recipe_action_timer name 0 False invo e)
     | Recipe_reset_timer name \<Rightarrow> Some (recipe_action_timer name 0 False invo e)
     | Recipe_log level message \<Rightarrow> Some (recipe_action_log level message invo e)
     | Recipe_raise_fault code severity \<Rightarrow> recipe_action_raise_fault code severity invo e)"

subsection \<open>Event processing\<close>

text \<open>The loop over the actions of an invocation.\<close>

fun recipe_run_actions :: "recipe_on_error \<Rightarrow> (recipe_action \<Rightarrow> recipe_invocation) \<Rightarrow> recipe_action list \<Rightarrow> recipe_engine
    \<Rightarrow> recipe_engine option" where
  "recipe_run_actions policy invocation [] e = Some e"
| "recipe_run_actions policy invocation (a # as) e = (case recipe_execute_action (invocation a) e of
       None \<Rightarrow> None
     | Some (st, e1) \<Rightarrow>
         if st = RECIPE_OK then recipe_run_actions policy invocation as (recipe_count rc_actions_executed_update e1)
         else
           let e2 = recipe_count rc_action_errors_update e1
           in if policy = RECIPE_ON_ERROR_STOP then Some (recipe_count rc_recipes_halted_update e2)
              else recipe_run_actions policy invocation as e2)"

text \<open>The body of the loop over the recipes.\<close>

definition recipe_dispatch :: "recipe_ref \<Rightarrow> u32 \<Rightarrow> recipe \<Rightarrow> event \<Rightarrow> recipe_engine \<Rightarrow> recipe_engine option" where
  "recipe_dispatch ref ordinal r ev e =
     (if \<not> rp_enabled r then Some e
      else (case recipe_trigger_matches r ev e of (matches, e1) \<Rightarrow>
        if \<not> matches then Some e1
        else (case recipe_conditions_hold ref r ev (recipe_count rc_recipes_invoked_update e1) of
            None \<Rightarrow> None
          | Some (hold, e2) \<Rightarrow>
              if \<not> hold then Some (recipe_count rc_recipes_skipped_conditions_update e2)
              else recipe_run_actions (rp_on_error r)
                (\<lambda>a. \<lparr>vo_recipe = ref, vo_ordinal = ordinal, vo_event = ev, vo_action = a\<rparr>) (rp_actions r) e2)))"

fun recipe_dispatch_set :: "nat \<Rightarrow> nat \<Rightarrow> u32 \<Rightarrow> recipe list \<Rightarrow> event \<Rightarrow> recipe_engine \<Rightarrow> (u32 \<times> recipe_engine) option" where
  "recipe_dispatch_set s k ordinal [] ev e = Some (ordinal, e)"
| "recipe_dispatch_set s k ordinal (r # rs) ev e = (case recipe_dispatch (s, k) (ordinal + 1) r ev e of
       None \<Rightarrow> None
     | Some e1 \<Rightarrow> recipe_dispatch_set s (k + 1) (ordinal + 1) rs ev e1)"

fun recipe_dispatch_sets :: "nat \<Rightarrow> u32 \<Rightarrow> recipe_set list \<Rightarrow> event \<Rightarrow> recipe_engine \<Rightarrow> recipe_engine option" where
  "recipe_dispatch_sets s ordinal [] ev e = Some e"
| "recipe_dispatch_sets s ordinal (q # qs) ev e = (case recipe_dispatch_set s 0 ordinal (rq_recipes q) ev e of
       None \<Rightarrow> None
     | Some (ordinal', e1) \<Rightarrow> recipe_dispatch_sets (s + 1) ordinal' qs ev e1)"

definition recipe_engine_process_event :: "recipe_engine option \<Rightarrow> event option \<Rightarrow> (recipe_status \<times> recipe_engine option) option" where
  "recipe_engine_process_event eng event = (case eng of
       None \<Rightarrow> Some (RECIPE_ERR_NULL, None)
     | Some e \<Rightarrow>
         if \<not> recipe_engine_is_valid eng then Some (RECIPE_ERR_NULL, eng)
         else (case event of
             None \<Rightarrow> Some (RECIPE_ERR_NULL, eng)
           | Some ev \<Rightarrow>
               if \<not> event_is_valid event then Some (RECIPE_ERR_ARGUMENT, eng)
               else map_option (\<lambda>e1. (RECIPE_OK, Some e1))
                 (recipe_dispatch_sets 0 0 (re_sets e) ev (recipe_count rc_events_processed_update e))))"

end
