(* ===== verification/Recipe_Engine_Inv.thy ===== *)
theory Recipe_Engine_Inv
  imports Recipe_Engine Recipe_Expression_Properties History
begin

text \<open>
  Invariants of the recipe engine: the history is lawful, the signal store is its initial contents with
  the writes of the history applied, the variables in use fit their storage, and an invocation writes
  the variables of its own recipe only.
\<close>

subsection \<open>Lawful effects\<close>

definition recipe_approved :: "recipe_effect list \<Rightarrow> recipe_governor_request \<Rightarrow> bool" where
  "recipe_approved h r \<longleftrightarrow> h \<noteq> [] \<and> last h = Recipe_effect_governor r RECIPE_GOVERNOR_APPROVE"

definition recipe_message_request :: "recipe_invocation \<Rightarrow> interface_id \<Rightarrow> string \<Rightarrow> string \<Rightarrow> u32 \<Rightarrow> u8 list \<Rightarrow> u8 \<Rightarrow>
    recipe_governor_request" where
  "recipe_message_request v iid iname name can_id frame len = (recipe_request RECIPE_GOVERNOR_SEND_MESSAGE v)
     \<lparr>rg_interface_name := Some iname, rg_interface_id := iid, rg_message_name := Some name, rg_can_id := can_id,
      rg_frame := frame, rg_frame_length := len\<rparr>"

definition recipe_signal_request :: "recipe_invocation \<Rightarrow> string \<Rightarrow> u32 \<Rightarrow> signal_value \<Rightarrow> recipe_governor_request" where
  "recipe_signal_request v name sid val = (recipe_request RECIPE_GOVERNOR_SET_SIGNAL v)
     \<lparr>rg_signal_name := Some name, rg_signal_id := sid, rg_value := Some val\<rparr>"

text \<open>A decision is the governor's own; a frame that leaves and a write of the store stand right after
  the approval of that frame and that value.\<close>

definition recipe_effect_lawful :: "recipe_governor option \<Rightarrow> recipe_effect list \<Rightarrow> recipe_effect \<Rightarrow> bool" where
  "recipe_effect_lawful gov h x \<longleftrightarrow> (case x of
       Recipe_effect_governor r d \<Rightarrow> (\<exists>g. gov = Some g \<and> d = g h r)
     | Recipe_effect_send_message v iid iname can_id frame len \<Rightarrow>
         (\<exists>name. recipe_approved h (recipe_message_request v iid iname name can_id frame len))
     | Recipe_effect_store sid val st \<Rightarrow> (\<exists>v name. recipe_approved h (recipe_signal_request v name sid val))
     | _ \<Rightarrow> True)"

text \<open>The writes of a history.\<close>

fun replay_store :: "recipe_effect list \<Rightarrow> sig_store option \<Rightarrow> sig_store option" where
  "replay_store [] s = s"
| "replay_store (Recipe_effect_store sid v st # xs) s = replay_store xs (snd (signal_store_set s sid (Some v)))"
| "replay_store (_ # xs) s = replay_store xs s"

fun writes_store :: "recipe_effect \<Rightarrow> bool" where
  "writes_store (Recipe_effect_store _ _ _) = True"
| "writes_store _ = False"

lemma replay_store_append [simp]: "replay_store (xs @ ys) s = replay_store ys (replay_store xs s)"
  by (induction xs s rule: replay_store.induct) simp_all

lemma replay_store_other: "list_all (\<lambda>x. \<not> writes_store x) xs \<Longrightarrow> replay_store xs s = s"
  by (induction xs s rule: replay_store.induct) simp_all

subsection \<open>Keyed slots\<close>

text \<open>The value of a key in the used slots of a table.\<close>

definition slot_value :: "('a \<Rightarrow> 'k) \<Rightarrow> ('a \<Rightarrow> 'v) \<Rightarrow> 'a list \<Rightarrow> nat \<Rightarrow> 'k \<Rightarrow> 'v option" where
  "slot_value key val xs n k = map_option (\<lambda>i. val (xs ! i)) (find (\<lambda>i. key (xs ! i) = k) [0..<n])"

lemma slot_value_overwrite:
  assumes "find (\<lambda>i. key (xs ! i) = k) [0..<n] = Some i" and "n \<le> length xs" and "key x = k"
  shows "slot_value key val (xs[i := x]) n k' = (if k' = k then Some (val x) else slot_value key val xs n k')"
proof -
  have i: "i < n" "key (xs ! i) = k" using assms(1) by (auto simp: find_Some_iff)
  have keys: "key (xs[i := x] ! j) = key (xs ! j)" for j
    using i assms(2,3) by (cases "j = i") simp_all
  show ?thesis
  proof (cases "k' = k")
    case True
    then show ?thesis using assms(1,2) i by (simp add: slot_value_def keys)
  next
    case False
    then have "j \<noteq> i" if "find (\<lambda>i. key (xs ! i) = k') [0..<n] = Some j" for j
      using that i(2) by (auto simp: find_Some_iff)
    then show ?thesis using False by (cases "find (\<lambda>i. key (xs ! i) = k') [0..<n]") (auto simp: slot_value_def keys)
  qed
qed

lemma find_append: "find P (xs @ ys) = (case find P xs of Some x \<Rightarrow> Some x | None \<Rightarrow> find P ys)"
  by (induction xs) simp_all

lemma slot_value_add:
  assumes "find (\<lambda>i. key (xs ! i) = k) [0..<n] = None" and "n < length xs" and "key x = k"
  shows "slot_value key val (xs[n := x]) (n + 1) k' = (if k' = k then Some (val x) else slot_value key val xs n k')"
proof -
  have same: "find (\<lambda>i. key (xs[n := x] ! i) = k'') [0..<n] = find (\<lambda>i. key (xs ! i) = k'') [0..<n]" for k''
    by (rule find_cong) auto
  have "j \<noteq> n" if "find (\<lambda>i. key (xs ! i) = k') [0..<n] = Some j" for j
    using that by (auto simp: find_Some_iff)
  then show ?thesis
    using assms same [of k'] by (cases "find (\<lambda>i. key (xs ! i) = k') [0..<n]") (auto simp: slot_value_def find_append)
qed

subsection \<open>The variables are a value store\<close>

definition variables_ok :: "recipe_engine \<Rightarrow> bool" where
  "variables_ok e \<longleftrightarrow> re_variable_count e \<le> re_variable_capacity e \<and> re_variable_capacity e \<le> length (re_variables e)"

definition variable_lookup :: "recipe_engine \<Rightarrow> recipe_ref \<times> string \<Rightarrow> signal_value option" where
  "variable_lookup e k = map_option (\<lambda>i. rv_value (re_variables e ! i)) (recipe_find_variable e (fst k) (snd k))"

definition variable_update :: "recipe_engine \<Rightarrow> recipe_ref \<times> string \<Rightarrow> signal_value \<Rightarrow> recipe_engine option" where
  "variable_update e k v = (case recipe_store_variable (fst k) (snd k) v e of (RECIPE_OK, t) \<Rightarrow> Some t | _ \<Rightarrow> None)"

definition variable_key :: "recipe_variable \<Rightarrow> recipe_ref option \<times> string" where
  "variable_key x = (rv_recipe x, rv_name x)"

lemma find_variable_key:
  "recipe_find_variable e r name = find (\<lambda>i. variable_key (re_variables e ! i) = (Some r, name)) [0..<re_variable_count e]"
  by (simp add: recipe_find_variable_def variable_key_def)

lemma variable_lookup_slot:
  "variable_lookup e k = slot_value variable_key rv_value (re_variables e) (re_variable_count e) (Some (fst k), snd k)"
  by (simp add: variable_lookup_def slot_value_def find_variable_key)

lemma variable_update_cases:
  assumes "variables_ok e" and "recipe_store_variable r name v e = (st, t)"
  shows "variables_ok t" and "st \<noteq> RECIPE_OK \<Longrightarrow> t = e \<and> variable_lookup e (r, name) = None"
    and "st = RECIPE_OK \<Longrightarrow> variable_lookup t k' = (if k' = (r, name) then Some v else variable_lookup e k')"
proof -
  have c: "re_variable_count e \<le> length (re_variables e)" using assms(1) by (simp add: variables_ok_def)
  have "variables_ok t \<and> (st \<noteq> RECIPE_OK \<longrightarrow> t = e \<and> variable_lookup e (r, name) = None) \<and>
      (st = RECIPE_OK \<longrightarrow> variable_lookup t k' = (if k' = (r, name) then Some v else variable_lookup e k'))"
  proof (cases "recipe_find_variable e r name")
    case (Some i)
    have key: "variable_key ((re_variables e ! i)\<lparr>rv_value := v\<rparr>) = (Some r, name)"
      using Some by (auto simp: find_variable_key find_Some_iff variable_key_def)
    have t: "st = RECIPE_OK" "re_variables t = (re_variables e)[i := (re_variables e ! i)\<lparr>rv_value := v\<rparr>]"
      "re_variable_count t = re_variable_count e" "re_variable_capacity t = re_variable_capacity e"
      using assms(2) Some by (auto simp: recipe_store_variable_def recipe_count_def)
    have "variable_lookup t k' = (if k' = (r, name) then Some v else variable_lookup e k')"
      using slot_value_overwrite [OF Some [unfolded find_variable_key] c key, of rv_value "(Some (fst k'), snd k')"]
      by (cases k') (simp add: variable_lookup_slot t)
    then show ?thesis using assms(1) t by (simp add: variables_ok_def)
  next
    case None
    note n = None [unfolded find_variable_key]
    have key: "variable_key \<lparr>rv_recipe = Some r, rv_name = name, rv_value = v\<rparr> = (Some r, name)" by (simp add: variable_key_def)
    show ?thesis
    proof (cases "re_variable_count e < re_variable_capacity e")
      case False
      then show ?thesis using None assms by (auto simp: recipe_store_variable_def variable_lookup_def)
    next
      case True
      then have t: "st = RECIPE_OK"
        "re_variables t = (re_variables e)[re_variable_count e := \<lparr>rv_recipe = Some r, rv_name = name, rv_value = v\<rparr>]"
        "re_variable_count t = re_variable_count e + 1" "re_variable_capacity t = re_variable_capacity e"
        using assms(2) None by (auto simp: recipe_store_variable_def recipe_count_def)
      have "re_variable_count e < length (re_variables e)" using True assms(1) by (simp add: variables_ok_def)
      then have "variable_lookup t k' = (if k' = (r, name) then Some v else variable_lookup e k')"
        using slot_value_add [OF n, of "\<lparr>rv_recipe = Some r, rv_name = name, rv_value = v\<rparr>" rv_value "(Some (fst k'), snd k')"] key
        by (cases k') (simp add: variable_lookup_slot t)
      then show ?thesis using assms(1) True t by (simp add: variables_ok_def)
    qed
  qed
  then show "variables_ok t" and "st \<noteq> RECIPE_OK \<Longrightarrow> t = e \<and> variable_lookup e (r, name) = None"
    and "st = RECIPE_OK \<Longrightarrow> variable_lookup t k' = (if k' = (r, name) then Some v else variable_lookup e k')" by blast+
qed

lemma variable_update_some:
  "variable_update e k v = Some t \<longleftrightarrow> recipe_store_variable (fst k) (snd k) v e = (RECIPE_OK, t)"
  by (auto simp: variable_update_def split: prod.splits recipe_status.splits)

interpretation variables: value_store variable_lookup variable_update variables_ok
proof unfold_locales
  fix s :: recipe_engine and k k' :: "recipe_ref \<times> string" and v t
  assume ok: "variables_ok s" and u: "variable_update s k v = Some t"
  note c = variable_update_cases [OF ok u [unfolded variable_update_some]]
  show "variables_ok t" by (rule c(1))
  show "variable_lookup t k' = (if k' = k then Some v else variable_lookup s k')" using c(3) [of k'] by simp
next
  fix s :: recipe_engine and k :: "recipe_ref \<times> string" and v
  assume ok: "variables_ok s" and k: "variable_lookup s k \<noteq> None"
  obtain st t where u: "recipe_store_variable (fst k) (snd k) v s = (st, t)" by fastforce
  then show "variable_update s k v \<noteq> None"
    using variable_update_cases(2) [OF ok u] k by (cases "st = RECIPE_OK") (simp_all add: variable_update_def)
qed


subsection \<open>What an operation keeps\<close>

definition same_recipe_config :: "recipe_engine \<Rightarrow> recipe_engine \<Rightarrow> bool" where
  "same_recipe_config e e' \<longleftrightarrow> re_sets e' = re_sets e \<and> re_namespace e' = re_namespace e \<and>
     re_interfaces e' = re_interfaces e \<and> re_bindings e' = re_bindings e \<and> re_timers e' = re_timers e \<and>
     re_sink e' = re_sink e \<and> re_governor e' = re_governor e \<and> re_evaluator e' = re_evaluator e \<and>
     re_variable_capacity e' = re_variable_capacity e"

definition recipe_history_ok :: "recipe_engine \<Rightarrow> bool" where
  "recipe_history_ok e \<longleftrightarrow> lawful_history (recipe_effect_lawful (re_governor e)) (re_effects e)"

definition recipe_queue_ok :: "recipe_engine \<Rightarrow> bool" where
  "recipe_queue_ok e \<longleftrightarrow> (case re_queue e of None \<Rightarrow> True | Some q \<Rightarrow> queue_inv q)"

text \<open>With the hard-fault hooks installed, every push returns.\<close>

definition recipe_hooks_ok :: "recipe_engine \<Rightarrow> bool" where
  "recipe_hooks_ok e \<longleftrightarrow> (case re_queue e of None \<Rightarrow> True | Some q \<Rightarrow> hooks_complete (eq_hard_fault_hooks q))"

text \<open>The engine after some work on behalf of the recipes in \<open>R\<close>.\<close>

definition recipe_after :: "recipe_ref set \<Rightarrow> recipe_engine \<Rightarrow> recipe_engine \<Rightarrow> bool" where
  "recipe_after R e e' \<longleftrightarrow> same_recipe_config e e' \<and> (recipe_history_ok e \<longrightarrow> recipe_history_ok e') \<and>
     (\<exists>new. re_effects e' = re_effects e @ new \<and> re_signals e' = replay_store new (re_signals e)) \<and>
     (variables_ok e \<longrightarrow> variables_ok e' \<and> (\<forall>k. fst k \<notin> R \<longrightarrow> variable_lookup e' k = variable_lookup e k)) \<and>
     (recipe_queue_ok e \<longrightarrow> recipe_queue_ok e') \<and> (recipe_hooks_ok e \<longrightarrow> recipe_hooks_ok e')"

lemma after_refl [simp, intro]: "recipe_after R e e"
  by (auto simp: recipe_after_def same_recipe_config_def intro: exI [of _ "[]"])

lemma after_trans [trans]:
  assumes "recipe_after R e1 e2" and "recipe_after R e2 e3"
  shows "recipe_after R e1 e3"
proof -
  obtain n1 n2 where n: "re_effects e2 = re_effects e1 @ n1" "re_signals e2 = replay_store n1 (re_signals e1)"
    "re_effects e3 = re_effects e2 @ n2" "re_signals e3 = replay_store n2 (re_signals e2)"
    using assms by (auto simp: recipe_after_def)
  then have "\<exists>new. re_effects e3 = re_effects e1 @ new \<and> re_signals e3 = replay_store new (re_signals e1)"
    by (intro exI [of _ "n1 @ n2"]) simp
  then show ?thesis using assms by (simp add: recipe_after_def same_recipe_config_def)
qed

lemma after_mono: "recipe_after R e e' \<Longrightarrow> R \<subseteq> R' \<Longrightarrow> recipe_after R' e e'"
  unfolding recipe_after_def by blast

lemma after_variable: "recipe_after R e e' \<Longrightarrow> variables_ok e \<Longrightarrow> fst k \<notin> R \<Longrightarrow> variable_lookup e' k = variable_lookup e k"
  unfolding recipe_after_def by blast

text \<open>An update of what no variable lookup reads.\<close>

lemma variable_state_cong:
  assumes "re_variables e' = re_variables e" and "re_variable_count e' = re_variable_count e"
    and "re_variable_capacity e' = re_variable_capacity e"
  shows "variables_ok e' = variables_ok e" and "variable_lookup e' = variable_lookup e"
  using assms by (auto simp: variables_ok_def variable_lookup_def recipe_find_variable_def)

lemma after_counters: "recipe_after R e (e\<lparr>re_counters := c\<rparr>)"
  using variable_state_cong [of "e\<lparr>re_counters := c\<rparr>" e]
  by (auto simp: recipe_after_def same_recipe_config_def recipe_history_ok_def recipe_queue_ok_def recipe_hooks_ok_def intro: exI [of _ "[]"])

lemma after_count: "recipe_after R e (recipe_count field e)"
  unfolding recipe_count_def by (rule after_counters)

lemma after_then_count: "recipe_after R e e' \<Longrightarrow> recipe_after R e (recipe_count field e')"
  by (erule after_trans) (rule after_count)

lemma after_log:
  assumes "recipe_effect_lawful (re_governor e) (re_effects e) x" and "\<not> writes_store x"
  shows "recipe_after R e (recipe_log_effect x e)"
proof -
  have "\<exists>new. re_effects (recipe_log_effect x e) = re_effects e @ new \<and> re_signals (recipe_log_effect x e) = replay_store new (re_signals e)"
    using assms(2) by (intro exI [of _ "[x]"]) (simp add: recipe_log_effect_def replay_store_other)
  then show ?thesis
    using assms(1) variable_state_cong [of "recipe_log_effect x e" e]
    by (simp add: recipe_after_def same_recipe_config_def recipe_history_ok_def recipe_queue_ok_def recipe_hooks_ok_def recipe_log_effect_def
        lawful_history_snoc)
qed

text \<open>Effects that need no approval.\<close>

fun recipe_notifies :: "recipe_effect \<Rightarrow> bool" where
  "recipe_notifies (Recipe_effect_governor _ _) = False"
| "recipe_notifies (Recipe_effect_send_message _ _ _ _ _ _) = False"
| "recipe_notifies (Recipe_effect_store _ _ _) = False"
| "recipe_notifies _ = True"

lemma after_notify: "recipe_notifies x \<Longrightarrow> recipe_after R e (recipe_log_effect x e)"
  by (rule after_log; cases x) (simp_all add: recipe_effect_lawful_def)

lemma after_notifies:
  "recipe_after R e (recipe_log_effect (Recipe_effect_fault v c s n) e)"
  "recipe_after R e (recipe_log_effect (Recipe_effect_timer v t d r) e)"
  "recipe_after R e (recipe_log_effect (Recipe_effect_log v l m) e)"
  by (simp_all add: after_notify)

lemma event_push_keeps:
  assumes "event_queue_push q0 ev = (st, q, calls)"
  shows "(case q0 of None \<Rightarrow> True | Some p \<Rightarrow> queue_inv p) \<Longrightarrow> (case q of None \<Rightarrow> True | Some p \<Rightarrow> queue_inv p)"
    and "(case q0 of None \<Rightarrow> True | Some p \<Rightarrow> hooks_complete (eq_hard_fault_hooks p)) \<Longrightarrow>
      (case q of None \<Rightarrow> True | Some p \<Rightarrow> hooks_complete (eq_hard_fault_hooks p))"
proof -
  have "(queue_inv p \<longrightarrow> queue_inv q') \<and> eq_hard_fault_hooks q' = eq_hard_fault_hooks p"
    if "queue_push p x = (s, q', c)" for p x s q' c
    using queue_push_inv [of p x] push_hooks [of p x] that by simp
  then show "(case q0 of None \<Rightarrow> True | Some p \<Rightarrow> queue_inv p) \<Longrightarrow> (case q of None \<Rightarrow> True | Some p \<Rightarrow> queue_inv p)"
    and "(case q0 of None \<Rightarrow> True | Some p \<Rightarrow> hooks_complete (eq_hard_fault_hooks p)) \<Longrightarrow>
      (case q of None \<Rightarrow> True | Some p \<Rightarrow> hooks_complete (eq_hard_fault_hooks p))"
    using assms by (cases q0; cases ev; auto split: prod.splits)+
qed

lemma push_returns: "hooks_complete (eq_hard_fault_hooks q) \<Longrightarrow> \<exists>st. push_status (queue_push q e) = Some st"
  using hard_fault_escalate_complete [of "eq_hard_fault_hooks q"]
  by (auto simp: queue_push_def queue_push_full_def Let_def simp del: hard_fault_escalate.simps split: option.split prod.split)

lemma after_push:
  assumes "recipe_after_push (st, q, calls) e = Some (s, e')"
    and "event_queue_push (re_queue e) ev = (st, q, calls)"
  shows "recipe_after R e e'"
proof -
  have q: "recipe_queue_ok e \<longrightarrow> (case q of None \<Rightarrow> True | Some p \<Rightarrow> queue_inv p)"
    "recipe_hooks_ok e \<longrightarrow> (case q of None \<Rightarrow> True | Some p \<Rightarrow> hooks_complete (eq_hard_fault_hooks p))"
    using event_push_keeps [OF assms(2)] by (auto simp: recipe_queue_ok_def recipe_hooks_ok_def)
  have e: "e' = e\<lparr>re_queue := q, re_effects := re_effects e @ List.map Recipe_effect_hook calls\<rparr>"
    using assms(1) by (auto simp: recipe_after_push_def)
  have "replay_store (List.map Recipe_effect_hook calls) s = s" for s
    by (rule replay_store_other) (simp add: list_all_iff)
  moreover have "lawful_history (recipe_effect_lawful (re_governor e)) (re_effects e @ List.map Recipe_effect_hook calls)"
    if "recipe_history_ok e"
    using that unfolding recipe_history_ok_def by (rule lawful_history_free) (simp add: recipe_effect_lawful_def)
  ultimately show ?thesis
    using q variable_state_cong [of e' e]
    by (simp add: recipe_after_def same_recipe_config_def recipe_history_ok_def recipe_queue_ok_def recipe_hooks_ok_def e)
qed

subsection \<open>Expressions\<close>

lemma evaluate_after:
  assumes "recipe_evaluate_expression cx tx e = Some (v, e')"
  shows "recipe_after R e e'"
  using assms
  by (cases "re_evaluator e") (auto simp: recipe_evaluate_expression_def Let_def intro: after_notify)

lemma evaluate_returns: "\<exists>r. recipe_evaluate_expression cx tx e = Some r"
  using recipe_evaluation_returns [of tx cx]
  by (cases "re_evaluator e") (auto simp: recipe_evaluate_expression_def Let_def)

lemma conditions_after:
  "recipe_conditions_from cs cx e = Some (b, e') \<Longrightarrow> recipe_after R e e'"
proof (induction cs cx e rule: recipe_conditions_from.induct)
  case (2 c cs cx e)
  obtain v e1 where v: "recipe_evaluate_expression cx c (recipe_count rc_conditions_evaluated_update e) = Some (v, e1)"
    using 2(2) by (auto split: option.splits)
  have 1: "recipe_after R e e1" by (rule after_trans [OF after_count evaluate_after [OF v]])
  show ?case
  proof (cases "v = Some (Value_bool True)")
    case True
    then have "recipe_after R e1 e'" using 2(1) [OF v] 2(2) v by simp
    then show ?thesis by (rule after_trans [OF 1])
  next
    case False
    then have "e' = e1 \<or> e' = recipe_count rc_condition_errors_update e1"
      using 2(2) v by (auto split: option.splits signal_value.splits if_splits)
    then show ?thesis using 1 after_then_count [OF 1] by blast
  qed
qed auto

lemma operand_after: "recipe_evaluate_operand operand invo e = Some (st, v, e') \<Longrightarrow> recipe_after R e e'"
  by (cases operand) (auto split: option.splits intro: evaluate_after)

lemma filter_after: "recipe_filter name f e = (b, e') \<Longrightarrow> recipe_after R e e'"
  by (auto simp: recipe_filter_def split: option.splits intro: after_count)

lemma trigger_after: "recipe_trigger_matches r ev e = (b, e') \<Longrightarrow> recipe_after R e e'"
  by (auto simp: recipe_trigger_matches_def Let_def split: if_splits event_type.splits prod.splits
      intro: filter_after after_trans)


subsection \<open>Actions\<close>

text \<open>The history and the configuration after an approval.\<close>

lemma governor_after:
  assumes "recipe_governor_check req e = (b, e')"
  shows "recipe_after R e e'" and "b \<Longrightarrow> recipe_approved (re_effects e') req"
proof -
  have "recipe_after R e e' \<and> (b \<longrightarrow> recipe_approved (re_effects e') req)"
  proof (cases "re_governor e")
    case None
    then show ?thesis using assms by (auto simp: recipe_governor_check_def intro: after_count)
  next
    case (Some g)
    let ?e = "recipe_log_effect (Recipe_effect_governor req (g (re_effects e) req)) e"
    have 1: "recipe_after R e ?e" by (rule after_log) (simp_all add: recipe_effect_lawful_def Some)
    have "recipe_approved (re_effects ?e) req" if "g (re_effects e) req = RECIPE_GOVERNOR_APPROVE"
      using that by (simp add: recipe_approved_def recipe_log_effect_def)
    then show ?thesis
      using assms Some 1 after_then_count [OF 1] by (auto simp: recipe_governor_check_def Let_def split: if_splits)
  qed
  then show "recipe_after R e e'" and "b \<Longrightarrow> recipe_approved (re_effects e') req" by blast+
qed

lemma encode_values_after:
  "recipe_encode_values mp specs frame span invo e = Some (st, frame', span', e') \<Longrightarrow> recipe_after R e e'"
proof (induction mp specs frame span invo e rule: recipe_encode_values.induct)
  case (2 mp name operand specs frame span invo e)
  show ?case
  proof (cases "map_find_signal mp name")
    case None
    then show ?thesis using 2(2) by simp
  next
    case (Some p)
    obtain j k where p: "map_find_signal mp name = Some (j, k)" using Some by (cases p) simp
    define sg where "sg = cm_signals (cmap_messages mp ! j) ! k"
    obtain s1 v e1 where o: "recipe_evaluate_operand operand invo e = Some (s1, v, e1)"
      using 2(2) p by (auto simp: Let_def split: option.splits)
    have 1: "recipe_after R e e1" using o by (rule operand_after)
    show ?thesis
    proof (cases "s1 = RECIPE_OK \<and> recipe_coerce_for_signal sg v \<noteq> None")
      case False
      then show ?thesis using 2(2) p o 1 by (auto simp: Let_def sg_def split: option.splits if_splits)
    next
      case True
      then obtain w where w: "recipe_coerce_for_signal sg v = Some w" and s1: "s1 = RECIPE_OK" by blast
      obtain cst fr wa where c: "codec_encode_signal (Some sg) (Some w) (Some frame) (Some (rc_codec_warnings (re_counters e1))) = (cst, fr, wa)"
        by (metis prod_cases3)
      define e2 where "e2 = e1\<lparr>re_counters := (re_counters e1)\<lparr>rc_codec_warnings := the wa\<rparr>\<rparr>"
      have two: "recipe_after R e e2" unfolding e2_def by (rule after_trans [OF 1 after_counters])
      show ?thesis
      proof (cases "codec_status_value cst < 0")
        case True
        then show ?thesis using 2(2) p o s1 w c two by (simp add: Let_def sg_def [symmetric] e2_def)
      next
        case False
        have "recipe_after R e2 e'"
          by (rule 2(1) [OF p refl sg_def o refl refl _ w c [symmetric] refl e2_def])
            (use False s1 2(2) p o w c in \<open>simp_all add: Let_def sg_def [symmetric] e2_def\<close>)
        then show ?thesis by (rule after_trans [OF two])
      qed
    qed
  qed
qed simp

lemma recipe_deliver_after:
  assumes "recipe_deliver_message iid iname name msg frame invo e = (st, e')"
  shows "recipe_after R e e'"
proof -
  obtain b e1 where g: "recipe_governor_check (recipe_message_request invo iid iname name (cm_id msg) frame (cm_dlc msg)) e = (b, e1)"
    by fastforce
  note a = governor_after [OF g]
  have send: "recipe_after R e (recipe_count rc_messages_sent_update
      (recipe_log_effect (Recipe_effect_send_message invo iid iname (cm_id msg) frame (cm_dlc msg)) e1))" if b
    by (intro after_then_count after_trans [OF a(1)] after_log)
      (use a(2) [OF that] in \<open>auto simp: recipe_effect_lawful_def\<close>)
  show ?thesis
    using assms g a(1) send
    by (auto simp: recipe_deliver_message_def recipe_message_request_def split: if_splits)
qed

lemma send_message_after: "recipe_action_send_message iface name specs invo e = Some (st, e') \<Longrightarrow> recipe_after R e e'"
  by (auto simp: recipe_action_send_message_def Let_def split: option.splits prod.splits if_splits
      intro: encode_values_after recipe_deliver_after after_trans)

lemma signal_changed_after:
  assumes "recipe_signal_changed sid name old v invo e = Some e'"
  shows "recipe_after R e e'"
proof -
  obtain e1 where 1: "recipe_after R e e1" and
    e': "e' = (if recipe_has_sink rk_signal_set e1 then recipe_log_effect (Recipe_effect_signal_set invo sid name old v) e1 else e1)"
  proof (cases "re_queue e = None \<or> \<not> event_queue_is_valid (re_queue e)")
    case True
    then show thesis using assms that [of e] by (auto simp: recipe_signal_changed_def)
  next
    case False
    then obtain q where q: "re_queue e = Some q" by (cases "re_queue e") simp_all
    let ?p = "event_queue_emit_generated (re_queue e) (Some (vo_event invo)) EVENT_TYPE_SIGNAL_CHANGED
         (Some (Payload_signal_changed \<lparr>sc_signal_id = sid, sc_signal_name = Some name, sc_old_value = old, sc_new_value = v\<rparr>)) 0"
    obtain st q' calls where p: "?p = (st, q', calls)" by (cases ?p) auto
    then obtain s e1 where s: "recipe_after_push (st, q', calls) e = Some (s, e1)" and
      e': "e' = (if recipe_has_sink rk_signal_set e1 then recipe_log_effect (Recipe_effect_signal_set invo sid name old v) e1 else e1)"
      using assms False by (auto simp: recipe_signal_changed_def split: Option.bind_splits)
    have "recipe_after R e e1"
      by (rule after_push [OF s]) (use p q in \<open>simp only: event_queue_emit_generated_def prod.case option.case\<close>)
    then show thesis using that e' by blast
  qed
  then show ?thesis by (auto intro: after_trans [OF 1 after_notify])
qed

lemma store_signal_after:
  assumes "recipe_store_signal sid name v invo e = Some (st, e')"
    and "recipe_approved (re_effects e) (recipe_signal_request w nm sid v)"
  shows "recipe_after R e e'"
proof -
  obtain sst store where s: "signal_store_set (re_signals e) sid (Some v) = (sst, store)" by fastforce
  obtain gst old where g: "signal_store_get (re_signals e) sid (Some Value_unset) = (gst, old)" by fastforce
  let ?e = "recipe_log_effect (Recipe_effect_store sid v sst) (e\<lparr>re_signals := store\<rparr>)"
  have "recipe_effect_lawful (re_governor e) (re_effects e) (Recipe_effect_store sid v sst)"
    using assms(2) by (auto simp: recipe_effect_lawful_def)
  moreover have "\<exists>new. re_effects ?e = re_effects e @ new \<and> re_signals ?e = replay_store new (re_signals e)"
    by (intro exI [of _ "[Recipe_effect_store sid v sst]"]) (simp add: recipe_log_effect_def s)
  ultimately have 1: "recipe_after R e ?e"
    using variable_state_cong [of ?e e]
    by (simp add: recipe_after_def same_recipe_config_def recipe_history_ok_def recipe_queue_ok_def recipe_hooks_ok_def recipe_log_effect_def
        lawful_history_snoc)
  show ?thesis
    using assms(1) s g 1 after_then_count [OF 1]
    by (auto simp: recipe_store_signal_def Let_def split: if_splits
        intro: after_then_count [OF after_trans [OF 1 signal_changed_after]])
qed

lemma set_signal_after:
  assumes "recipe_action_set_signal name operand invo e = Some (st, e')"
  shows "recipe_after R e e'"
proof -
  obtain rst res where r: "recipe_resolve_signal e name = (rst, res)" by fastforce
  show ?thesis
  proof (cases "rst = RECIPE_OK")
    case False
    then show ?thesis using assms r by (simp add: recipe_action_set_signal_def)
  next
    case True
    then obtain s1 v e1 where o: "recipe_evaluate_operand operand invo e = Some (s1, v, e1)"
      using assms r by (auto simp: recipe_action_set_signal_def split: option.splits)
    have 1: "recipe_after R e e1" using o by (rule operand_after)
    obtain b e2 where g: "recipe_governor_check (recipe_signal_request invo name (rs_signal_id res) v) e1 = (b, e2)" by fastforce
    note a = governor_after [OF g]
    have 2: "recipe_after R e e2" using 1 a(1) by (rule after_trans)
    show ?thesis
      using assms r True o g 1 2 a(2)
      by (auto simp: recipe_action_set_signal_def recipe_signal_request_def split: if_splits
          intro: after_trans [OF 2 store_signal_after [of _ _ _ _ _ _ _ invo name]])
  qed
qed

lemma recipe_store_variable_after:
  assumes "recipe_store_variable r name v e = (st, e')"
  shows "recipe_after {r} e e'"
proof -
  have c: "re_sets e' = re_sets e" "re_namespace e' = re_namespace e" "re_interfaces e' = re_interfaces e"
    "re_bindings e' = re_bindings e" "re_timers e' = re_timers e" "re_sink e' = re_sink e" "re_governor e' = re_governor e"
    "re_evaluator e' = re_evaluator e" "re_variable_capacity e' = re_variable_capacity e" "re_effects e' = re_effects e"
    "re_signals e' = re_signals e" "re_queue e' = re_queue e"
    using assms by (auto simp: recipe_store_variable_def recipe_count_def split: option.splits if_splits)
  have v: "variables_ok e' \<and> (\<forall>k. fst k \<notin> {r} \<longrightarrow> variable_lookup e' k = variable_lookup e k)" if "variables_ok e"
    using variable_update_cases [OF that assms] by (cases "st = RECIPE_OK") auto
  show ?thesis
    unfolding recipe_after_def
    using v by (simp add: same_recipe_config_def recipe_history_ok_def recipe_queue_ok_def recipe_hooks_ok_def c exI [of _ "[]"])
qed

lemma set_variable_after:
  assumes "recipe_action_set_variable name operand invo e = Some (st, e')"
  shows "recipe_after {vo_recipe invo} e e'"
proof -
  obtain s v e1 where o: "recipe_evaluate_operand operand invo e = Some (s, v, e1)"
    using assms by (auto simp: recipe_action_set_variable_def split: option.splits)
  have 1: "recipe_after {vo_recipe invo} e e1" using o by (rule operand_after)
  show ?thesis
    using assms o 1
    by (auto simp: recipe_action_set_variable_def split: if_splits intro: after_trans [OF 1 recipe_store_variable_after])
qed

lemma recipe_raise_fault_after:
  assumes "recipe_action_raise_fault code severity invo e = Some (st, e')"
  shows "recipe_after R e e'"
proof -
  let ?num = "recipe_fault_code_hash (Some code)"
  let ?p = "event_queue_push (re_queue e) (Some (recipe_fault_event ?num severity invo))"
  obtain s q' calls where p: "?p = (s, q', calls)" by (cases ?p) auto
  obtain queued e1 where 1: "recipe_after R e e1" and
    e': "e' = (let e2 = (if recipe_has_sink rk_fault e1 then recipe_log_effect (Recipe_effect_fault invo code severity ?num) e1 else e1)
      in if \<not> (queued \<or> recipe_has_sink rk_fault e1) then e2 else recipe_count rc_faults_raised_update e2)"
  proof (cases "re_queue e = None \<or> \<not> event_queue_is_valid (re_queue e)")
    case True
    then show thesis using assms that [of e False] by (auto simp: recipe_action_raise_fault_def Let_def split: if_splits)
  next
    case False
    then obtain x e1 where x: "recipe_after_push (s, q', calls) e = Some (x, e1)"
      using assms p by (auto simp: recipe_action_raise_fault_def Let_def split: Option.bind_splits)
    have "recipe_after R e e1"
      using x p by (rule after_push)
    then show thesis
      using assms p x False that [of e1 "event_queue_status_is_ok x"]
      by (auto simp: recipe_action_raise_fault_def Let_def split: if_splits)
  qed
  show ?thesis
    using e' 1 after_then_count [OF 1] after_trans [OF 1 after_notifies(1)] after_then_count [OF after_trans [OF 1 after_notifies(1)]]
    by (auto simp: Let_def split: if_splits)
qed

lemma execute_after:
  assumes "recipe_execute_action invo e = Some (st, e')"
  shows "recipe_after {vo_recipe invo} e e'"
  using assms
  by (auto simp: recipe_execute_action_def recipe_action_timer_def recipe_action_log_def split: recipe_action.splits if_splits
      intro: send_message_after set_signal_after set_variable_after recipe_raise_fault_after after_then_count after_notifies)


subsection \<open>Events\<close>

lemma run_actions_after:
  assumes "\<And>a. vo_recipe (invocation a) = r"
  shows "recipe_run_actions policy invocation as e = Some e' \<Longrightarrow> recipe_after {r} e e'"
proof (induction as arbitrary: e)
  case (Cons a as)
  obtain st e1 where x: "recipe_execute_action (invocation a) e = Some (st, e1)"
    using Cons.prems by (auto split: option.splits)
  have 1: "recipe_after {r} e e1" using execute_after [OF x] assms by simp
  show ?case
    using Cons.prems x 1 Cons.IH after_then_count [OF 1] after_then_count [OF after_then_count [OF 1]]
    by (auto simp: Let_def split: if_splits intro: after_trans)
qed simp

text \<open>A recipe an event can reach: enabled, with a trigger of the event's type.\<close>

definition recipe_addressed :: "event \<Rightarrow> recipe \<Rightarrow> bool" where
  "recipe_addressed ev r \<longleftrightarrow> rp_enabled r \<and> recipe_trigger_event_type (tg_event (rp_trigger r)) = ev_type ev"

lemma dispatch_idle: "\<not> recipe_addressed ev r \<Longrightarrow> recipe_dispatch ref ordinal r ev e = Some e"
  by (auto simp: recipe_dispatch_def recipe_trigger_matches_def recipe_addressed_def)

lemma dispatch_after:
  assumes "recipe_dispatch ref ordinal r ev e = Some e'" and "recipe_addressed ev r \<Longrightarrow> ref \<in> R"
  shows "recipe_after R e e'"
proof (cases "recipe_addressed ev r")
  case False
  then show ?thesis using assms(1) dispatch_idle [OF False] by simp
next
  case True
  then have R: "{ref} \<subseteq> R" using assms(2) by simp
  obtain b e1 where t: "recipe_trigger_matches r ev e = (b, e1)" by fastforce
  have 1: "recipe_after R e e1" using t by (rule trigger_after)
  show ?thesis
  proof (cases b)
    case False
    then show ?thesis using assms(1) True t 1 by (simp add: recipe_dispatch_def recipe_addressed_def)
  next
    case b: True
    obtain h e2 where c: "recipe_conditions_hold ref r ev (recipe_count rc_recipes_invoked_update e1) = Some (h, e2)"
      using assms(1) True t b by (auto simp: recipe_dispatch_def recipe_addressed_def split: option.splits)
    have 2: "recipe_after R e e2"
      by (rule after_trans [OF after_then_count [OF 1] conditions_after [OF c [unfolded recipe_conditions_hold_def]]])
    have "recipe_after R e2 e'" if h
      using assms(1) True t b c that by (intro after_mono [OF run_actions_after R]) (auto simp: recipe_dispatch_def recipe_addressed_def)
    then show ?thesis
      using assms(1) True t b c 2 after_then_count [OF 2] after_trans [OF 2]
      by (cases h) (auto simp: recipe_dispatch_def recipe_addressed_def)
  qed
qed

lemma dispatch_set_after:
  "recipe_dispatch_set s k ordinal rs ev e = Some (ordinal', e') \<Longrightarrow>
   (\<And>i. i < length rs \<Longrightarrow> recipe_addressed ev (rs ! i) \<Longrightarrow> (s, k + i) \<in> R) \<Longrightarrow> recipe_after R e e'"
proof (induction rs arbitrary: k ordinal e)
  case (Cons r rs)
  obtain e1 where d: "recipe_dispatch (s, k) (ordinal + 1) r ev e = Some e1" using Cons.prems(1) by (auto split: option.splits)
  have 1: "recipe_after R e e1" using d by (rule dispatch_after) (use Cons.prems(2) [of 0] in simp)
  have "recipe_after R e1 e'"
  proof (rule Cons.IH)
    show "recipe_dispatch_set s (k + 1) (ordinal + 1) rs ev e1 = Some (ordinal', e')" using Cons.prems(1) d by simp
    show "(s, k + 1 + i) \<in> R" if "i < length rs" "recipe_addressed ev (rs ! i)" for i
      using Cons.prems(2) [of "Suc i"] that by simp
  qed
  then show ?case by (rule after_trans [OF 1])
qed simp

text \<open>The recipes of an engine that an event can reach.\<close>

definition reached_recipes :: "nat \<Rightarrow> recipe_set list \<Rightarrow> event \<Rightarrow> recipe_ref set" where
  "reached_recipes base sets ev = {(s, k). \<exists>q. base \<le> s \<and> s - base < length sets \<and> q = sets ! (s - base) \<and>
     k < length (rq_recipes q) \<and> recipe_addressed ev (rq_recipes q ! k)}"

lemma dispatch_sets_after:
  "recipe_dispatch_sets s ordinal qs ev e = Some e' \<Longrightarrow> reached_recipes s qs ev \<subseteq> R \<Longrightarrow> recipe_after R e e'"
proof (induction qs arbitrary: s ordinal e)
  case (Cons q qs)
  obtain o1 e1 where d: "recipe_dispatch_set s 0 ordinal (rq_recipes q) ev e = Some (o1, e1)"
    using Cons.prems(1) by (auto split: option.splits)
  have "(s, i) \<in> reached_recipes s (q # qs) ev" if "i < length (rq_recipes q)" "recipe_addressed ev (rq_recipes q ! i)" for i
    using that by (simp add: reached_recipes_def)
  then have 1: "recipe_after R e e1" using Cons.prems(2) by (intro dispatch_set_after [OF d]) auto
  have "reached_recipes (s + 1) qs ev \<subseteq> reached_recipes s (q # qs) ev"
  proof
    fix x
    assume "x \<in> reached_recipes (s + 1) qs ev"
    then obtain t k where x: "x = (t, k)" "s + 1 \<le> t" "t - (s + 1) < length qs" "k < length (rq_recipes (qs ! (t - (s + 1))))"
      "recipe_addressed ev (rq_recipes (qs ! (t - (s + 1))) ! k)"
      by (auto simp: reached_recipes_def)
    then have "t - s = Suc (t - (s + 1))" by simp
    then show "x \<in> reached_recipes s (q # qs) ev" using x by (simp add: reached_recipes_def)
  qed
  then have "recipe_after R e1 e'" using Cons.prems d by (intro Cons.IH [of "s + 1" o1]) auto
  then show ?case by (rule after_trans [OF 1])
qed simp

lemma process_event_after:
  assumes "recipe_engine_process_event (Some e) (Some ev) = Some (st, Some e')"
  shows "recipe_after (reached_recipes 0 (re_sets e) ev) e e'"
proof (cases "recipe_engine_is_valid (Some e) \<and> event_is_valid (Some ev)")
  case True
  then have "recipe_dispatch_sets 0 0 (re_sets e) ev (recipe_count rc_events_processed_update e) = Some e'"
    using assms by (auto simp: recipe_engine_process_event_def simp del: event_is_valid.simps)
  then have "recipe_after (reached_recipes 0 (re_sets e) ev) (recipe_count rc_events_processed_update e) e'"
    by (rule dispatch_sets_after) simp
  then show ?thesis by (rule after_trans [OF after_count])
next
  case False
  then have "e' = e" using assms by (auto simp: recipe_engine_process_event_def simp del: event_is_valid.simps split: if_splits)
  then show ?thesis by simp
qed

end
