(* ===== verification/Recipe_Properties.thy ===== *)
theory Recipe_Properties
  imports Recipe_Engine_Inv
begin

text \<open>
  The properties of the recipe engine: the processing of an event returns, what leaves the engine is
  governed, recipes keep to their own variables and stop at their first error. A small configuration
  serves the witnesses.
\<close>

subsection \<open>Processing returns\<close>

lemma operand_returns: "recipe_evaluate_operand operand invo e \<noteq> None"
  using evaluate_returns by (cases operand) auto

lemma conditions_return: "recipe_conditions_from cs cx e \<noteq> None"
proof (induction cs cx e rule: recipe_conditions_from.induct)
  case (2 c cs cx e)
  obtain v e1 where v: "recipe_evaluate_expression cx c (recipe_count rc_conditions_evaluated_update e) = Some (v, e1)"
    using evaluate_returns by fastforce
  then show ?case using 2 [OF v refl] by (auto split: option.split signal_value.split)
qed simp

lemma encode_values_return: "recipe_encode_values mp specs frame span invo e \<noteq> None"
proof (induction mp specs frame span invo e rule: recipe_encode_values.induct)
  case (2 mp name operand specs frame span invo e)
  then show ?case
    using operand_returns [of operand invo e] by (auto simp: Let_def split: option.split prod.split)
qed simp

lemma recipe_push_returns:
  assumes "recipe_hooks_ok e" and "re_queue e = Some q"
  shows "recipe_after_push (event_queue_push (Some q) (Some ev)) e \<noteq> None"
proof -
  obtain st q' calls where p: "queue_push q ev = (Some st, q', calls)"
    using push_returns [of q ev] assms by (cases "queue_push q ev") (auto simp: recipe_hooks_ok_def)
  show ?thesis by (simp add: p recipe_after_push_def)
qed

lemma signal_changed_returns: "recipe_hooks_ok e \<Longrightarrow> recipe_signal_changed sid nm old v invo e \<noteq> None"
proof (cases "re_queue e")
  case (Some q)
  assume "recipe_hooks_ok e"
  from recipe_push_returns [OF this Some] show ?thesis
    by (simp add: recipe_signal_changed_def event_queue_emit_generated_def Some Option.bind_eq_None_conv
        del: event_queue_push.simps event_queue_is_valid.simps not_None_eq)
qed (simp add: recipe_signal_changed_def)

lemma store_signal_returns: "recipe_hooks_ok e \<Longrightarrow> recipe_store_signal sid nm v invo e \<noteq> None"
proof -
  assume "recipe_hooks_ok e"
  then have "recipe_hooks_ok (recipe_log_effect x (e\<lparr>re_signals := s\<rparr>))" for x s
    by (simp add: recipe_hooks_ok_def recipe_log_effect_def)
  from signal_changed_returns [OF this] show ?thesis
    by (simp add: recipe_store_signal_def Let_def split: prod.split del: not_None_eq)
qed

lemma set_signal_returns:
  assumes "recipe_hooks_ok e"
  shows "recipe_action_set_signal name operand invo e \<noteq> None"
proof -
  obtain rst res where r: "recipe_resolve_signal e name = (rst, res)" by fastforce
  obtain st v e1 where o: "recipe_evaluate_operand operand invo e = Some (st, v, e1)"
    using operand_returns [of operand invo e] by auto
  obtain b e2 where g: "recipe_governor_check ((recipe_request RECIPE_GOVERNOR_SET_SIGNAL invo)\<lparr>rg_signal_name := Some name,
      rg_signal_id := rs_signal_id res, rg_value := Some v\<rparr>) e1 = (b, e2)" by fastforce
  have "recipe_after {} e e2" using operand_after [OF o] governor_after(1) [OF g] by (rule after_trans)
  then have "recipe_hooks_ok e2" using assms by (simp add: recipe_after_def)
  from store_signal_returns [OF this] show ?thesis by (simp add: recipe_action_set_signal_def r o g del: not_None_eq)
qed

lemma raise_fault_returns:
  assumes "recipe_hooks_ok e"
  shows "recipe_action_raise_fault code severity invo e \<noteq> None"
proof (cases "re_queue e")
  case (Some q)
  from recipe_push_returns [OF assms Some] show ?thesis
    by (simp add: recipe_action_raise_fault_def Let_def Some Option.bind_eq_None_conv split: prod.split
        del: event_queue_push.simps event_queue_is_valid.simps not_None_eq)
qed (simp add: recipe_action_raise_fault_def Let_def)

lemma send_message_returns: "recipe_action_send_message iface name specs invo e \<noteq> None"
  using encode_values_return
  by (simp add: recipe_action_send_message_def Let_def split: option.split prod.split del: not_None_eq)

lemma execute_returns:
  assumes "recipe_hooks_ok e"
  shows "\<exists>st e'. recipe_execute_action invo e = Some (st, e') \<and> recipe_hooks_ok e'"
proof -
  have "recipe_action_set_variable name operand invo e \<noteq> None" for name operand
    using operand_returns [of operand invo e] by (auto simp: recipe_action_set_variable_def)
  then have "recipe_execute_action invo e \<noteq> None"
    using send_message_returns set_signal_returns [OF assms] raise_fault_returns [OF assms]
    by (simp add: recipe_execute_action_def split: recipe_action.split del: not_None_eq)
  then obtain st e' where x: "recipe_execute_action invo e = Some (st, e')" by auto
  then show ?thesis using execute_after [OF x] assms by (simp add: recipe_after_def)
qed

lemma hooks_ok_count [simp]: "recipe_hooks_ok (recipe_count field e) = recipe_hooks_ok e"
  by (simp add: recipe_hooks_ok_def recipe_count_def)

lemma run_actions_return:
  "recipe_hooks_ok e \<Longrightarrow> \<exists>e'. recipe_run_actions policy invocation as e = Some e'"
proof (induction as arbitrary: e)
  case (Cons a as)
  obtain st e1 where x: "recipe_execute_action (invocation a) e = Some (st, e1)" "recipe_hooks_ok e1"
    using execute_returns [OF Cons.prems] by blast
  then show ?case using Cons.IH by (simp add: Let_def)
qed simp

lemma dispatch_returns:
  assumes "recipe_hooks_ok e"
  shows "\<exists>e'. recipe_dispatch ref ordinal r ev e = Some e' \<and> recipe_hooks_ok e'"
proof -
  obtain b e1 where t: "recipe_trigger_matches r ev e = (b, e1)" by fastforce
  obtain h e2 where c: "recipe_conditions_hold ref r ev (recipe_count rc_recipes_invoked_update e1) = Some (h, e2)"
    using conditions_return unfolding recipe_conditions_hold_def by fastforce
  have "recipe_after {} e e2"
    by (rule after_trans [OF after_then_count [OF trigger_after [OF t]] conditions_after [OF c [unfolded recipe_conditions_hold_def]]])
  then have "recipe_hooks_ok e2" using assms by (simp add: recipe_after_def)
  from run_actions_return [OF this] have "\<exists>e'. recipe_dispatch ref ordinal r ev e = Some e'"
    by (simp add: recipe_dispatch_def t c)
  then obtain e' where d: "recipe_dispatch ref ordinal r ev e = Some e'" by blast
  then show ?thesis using dispatch_after [OF d, of UNIV] assms by (simp add: recipe_after_def)
qed

lemma dispatch_set_returns:
  "recipe_hooks_ok e \<Longrightarrow> \<exists>o1 e'. recipe_dispatch_set s k ordinal rs ev e = Some (o1, e') \<and> recipe_hooks_ok e'"
proof (induction rs arbitrary: k ordinal e)
  case (Cons r rs)
  then show ?case using dispatch_returns [OF Cons.prems, of "(s, k)" "ordinal + 1" r ev] by fastforce
qed simp

lemma dispatch_sets_return: "recipe_hooks_ok e \<Longrightarrow> \<exists>e'. recipe_dispatch_sets s ordinal qs ev e = Some e'"
proof (induction qs arbitrary: s ordinal e)
  case (Cons q qs)
  then show ?case using dispatch_set_returns [OF Cons.prems, of s 0 ordinal "rq_recipes q" ev] by fastforce
qed simp


subsection \<open>Reachable engines\<close>

text \<open>Between two events the environment may write the signal store and use the queue.\<close>

inductive recipe_reachable :: "recipe_engine_config \<Rightarrow> recipe_engine \<Rightarrow> bool" for c where
  recipe_reach_init: "recipe_engine_init (Some e0) (Some c) = (True, Some e) \<Longrightarrow> recipe_reachable c e"
| recipe_reach_event: "recipe_reachable c e \<Longrightarrow>
    recipe_engine_process_event (Some (e\<lparr>re_signals := s, re_queue := q\<rparr>)) (Some ev) = Some (st, Some e') \<Longrightarrow>
    recipe_reachable c e'"

lemma recipe_reachable_history:
  "recipe_reachable c e \<Longrightarrow> re_governor e = rf_governor c \<and> recipe_history_ok e"
proof (induction rule: recipe_reachable.induct)
  case (recipe_reach_init e0 e)
  then show ?case
    by (auto simp: recipe_engine_init_def recipe_history_ok_def recipe_zero_engine_def split: if_splits)
next
  case (recipe_reach_event e q s ev st e')
  let ?e = "e\<lparr>re_signals := s, re_queue := q\<rparr>"
  have "recipe_history_ok ?e" using recipe_reach_event(3) by (auto simp: recipe_history_ok_def)
  then show ?case
    using process_event_after [OF recipe_reach_event(2)] recipe_reach_event(3)
    by (simp add: recipe_after_def same_recipe_config_def)
qed

lemma recipe_reachable_variables:
  assumes "rf_variable_capacity c \<le> length (case rf_variable_storage c of None \<Rightarrow> [] | Some vs \<Rightarrow> vs)"
  shows "recipe_reachable c e \<Longrightarrow> variables_ok e"
proof (induction rule: recipe_reachable.induct)
  case (recipe_reach_init e0 e)
  then show ?case using assms
    by (auto simp: recipe_engine_init_def variables_ok_def split: if_splits option.splits)
next
  case (recipe_reach_event e q s ev st e')
  have "variables_ok (e\<lparr>re_signals := s, re_queue := q\<rparr>)" using recipe_reach_event(3) by (simp add: variables_ok_def)
  then show ?case
    using process_event_after [OF recipe_reach_event(2)] by (simp add: recipe_after_def)
qed


subsection \<open>A configuration\<close>

definition demo_can_event :: event where
  "demo_can_event = zero_event\<lparr>ev_type := EVENT_TYPE_CAN_RX, ev_priority_class := PRIORITY_CLASS_CAN_RX,
     ev_timestamp_us := 50, ev_sequence := 4,
     ev_payload := Payload_can_rx \<lparr>rx_interface_id = 1, rx_can_id = 0x123, rx_is_extended = 0, rx_is_fd = 0,
       rx_length = 0, rx_data = []\<rparr>\<rparr>"

definition demo_trigger :: recipe_trigger where
  "demo_trigger = \<lparr>tg_event = RECIPE_TRIGGER_CAN_RX, tg_interface = Some ''can0'', tg_message = Some ''Status'',
     tg_signal = None, tg_timer = None, tg_timeout_ms = 0, tg_has_timeout_ms = False\<rparr>"

definition demo_recipe :: recipe where
  "demo_recipe = \<lparr>rp_name = ''r'', rp_description = None, rp_enabled = True, rp_trigger = demo_trigger,
     rp_conditions = [''not false''],
     rp_actions = [Recipe_set_variable ''n'' (Recipe_literal (Value_int 5)),
       Recipe_set_signal ''Torque'' (Recipe_expression ''var.n''),
       Recipe_send_message ''can0'' ''Status'' [(''Torque'', Recipe_literal (Value_int 5))],
       Recipe_set_signal ''Unknown'' (Recipe_literal (Value_bool True)),
       Recipe_log RECIPE_LOG_INFO ''done''],
     rp_on_error = RECIPE_ON_ERROR_STOP\<rparr>"

definition demo_idle_recipe :: recipe where
  "demo_idle_recipe = demo_recipe\<lparr>rp_trigger := demo_trigger\<lparr>tg_event := RECIPE_TRIGGER_FAULT_RAISED\<rparr>\<rparr>"

definition demo_recipe_config :: recipe_engine_config where
  "demo_recipe_config = \<lparr>rf_sets = [\<lparr>rq_recipes = [demo_recipe, demo_idle_recipe]\<rparr>],
     rf_signal_namespace = Some \<lparr>ns_slots = [engine_map], ns_capacity = 1, ns_count = 1\<rparr>,
     rf_interfaces = [\<lparr>if_name = Some ''can0'', if_id = 1\<rparr>], rf_bindings = [], rf_timers = [],
     rf_signal_store = Some \<lparr>st_slots = replicate 2 zero_slot, st_capacity = 2, st_count = 0\<rparr>,
     rf_event_queue = None,
     rf_sink = Some \<lparr>rk_send_message = True, rk_signal_set = False, rk_log = True, rk_fault = True, rk_timer = True\<rparr>,
     rf_governor = Some (\<lambda>h r. RECIPE_GOVERNOR_APPROVE), rf_evaluator = None,
     rf_variable_storage = Some (replicate 2 \<lparr>rv_recipe = None, rv_name = [], rv_value = Value_unset\<rparr>),
     rf_variable_capacity = 2\<rparr>"

definition demo_recipes :: recipe_engine where
  "demo_recipes = the (snd (recipe_engine_init (Some recipe_zero_engine) (Some demo_recipe_config)))"

definition demo_recipes_ran :: recipe_engine where
  "demo_recipes_ran = the (snd (the (recipe_engine_process_event (Some demo_recipes) (Some demo_can_event))))"

lemma demo_recipes_results:
  "(case recipe_engine_init (Some recipe_zero_engine) (Some demo_recipe_config) of (okay, Some e) \<Rightarrow> okay | _ \<Rightarrow> False)"
  "(case recipe_engine_process_event (Some demo_recipes) (Some demo_can_event) of Some (st, Some e) \<Rightarrow> st = RECIPE_OK | _ \<Rightarrow> False)"
  "re_queue demo_recipes = None" "re_variable_count demo_recipes = 0" "length (re_variables demo_recipes) = 2"
  "re_variable_capacity demo_recipes = 2"
  by code_simp+

lemma demo_recipes_effects:
  "length (re_effects demo_recipes_ran) = 4"
  "(case re_effects demo_recipes_ran ! 3 of
      Recipe_effect_send_message v iid iname can_id frame len \<Rightarrow> frame = [0, 40, 0, 0, 0, 0, 0, 0] | _ \<Rightarrow> False)"
  by code_simp+

lemma demo_recipes_run:
  "recipe_engine_init (Some recipe_zero_engine) (Some demo_recipe_config) = (True, Some demo_recipes)"
  "recipe_engine_process_event (Some demo_recipes) (Some demo_can_event) = Some (RECIPE_OK, Some demo_recipes_ran)"
  using demo_recipes_results(1,2)
  by (auto simp: demo_recipes_ran_def demo_recipes_def split: option.splits prod.splits)

lemma demo_recipes_reachable: "recipe_reachable demo_recipe_config demo_recipes_ran"
proof -
  have "recipe_engine_process_event (Some (demo_recipes\<lparr>re_signals := re_signals demo_recipes, re_queue := re_queue demo_recipes\<rparr>))
      (Some demo_can_event) = Some (RECIPE_OK, Some demo_recipes_ran)"
    using demo_recipes_run(2) by simp
  then show ?thesis by (rule recipe_reach_event [OF recipe_reach_init [OF demo_recipes_run(1)]])
qed

subsection \<open>Properties\<close>

text \<open>C36: Processing an event always returns. With no event queue, or with a queue whose hard-fault hooks
  are installed, the engine finishes every recipe of every set, whatever the conditions, the actions and
  their failures, and says so with a status.\<close>

theorem recipe_processing_returns:
  assumes "recipe_hooks_ok e"
  shows "\<exists>st e'. recipe_engine_process_event (Some e) ev = Some (st, Some e')"
proof -
  have "recipe_hooks_ok (recipe_count rc_events_processed_update e)" using assms by simp
  from dispatch_sets_return [OF this]
  have "\<exists>e'. recipe_dispatch_sets 0 0 (re_sets e) x (recipe_count rc_events_processed_update e) = Some e'" for x
    by blast
  then show ?thesis
    by (cases ev) (auto simp: recipe_engine_process_event_def simp del: event_is_valid.simps)
qed

lemma recipe_processing_returns_witness:
  "\<exists>st e'. recipe_engine_process_event (Some demo_recipes) (Some demo_can_event) = Some (st, Some e')"
  by (rule recipe_processing_returns) (simp add: recipe_hooks_ok_def demo_recipes_results(3))

text \<open>C35: No command leaves the recipes without the governor. In the history of any reachable engine, the
  effect just before a frame handed to the sink is the governor's approval of that very frame, message
  and interface for that recipe, the one before a write of the signal store its approval of that signal
  and value; every recorded decision is the governor's own.\<close>

theorem recipe_commands_are_governed:
  assumes "recipe_reachable c e" and "re_effects e = xs @ x # ys"
  shows "recipe_effect_lawful (rf_governor c) xs x"
proof -
  have "lawful_history (recipe_effect_lawful (rf_governor c)) (re_effects e)"
    using recipe_reachable_history [OF assms(1)] by (auto simp: recipe_history_ok_def)
  then show ?thesis using assms(2) by (rule lawful_history_at)
qed

lemma recipe_commands_are_governed_witness:
  "\<exists>h m. re_effects demo_recipes_ran = h @ m # [] \<and>
     (\<exists>v iid iname can_id frame len. m = Recipe_effect_send_message v iid iname can_id frame len) \<and>
     recipe_effect_lawful (rf_governor demo_recipe_config) h m"
proof -
  let ?h = "take 3 (re_effects demo_recipes_ran)" and ?m = "re_effects demo_recipes_ran ! 3"
  have h: "re_effects demo_recipes_ran = ?h @ ?m # []"
    using demo_recipes_effects(1) take_Suc_conv_app_nth [of 3 "re_effects demo_recipes_ran"] by simp
  have "\<exists>v iid iname can_id frame len. ?m = Recipe_effect_send_message v iid iname can_id frame len"
    using demo_recipes_effects(2) by (auto split: recipe_effect.splits)
  then show ?thesis using h recipe_commands_are_governed [OF demo_recipes_reachable h] by blast
qed

text \<open>Without a governor the store is read-only. When none is configured, processing an event leaves
  the signal store as it was, whatever the recipes do: the engine fails closed.\<close>

theorem recipe_store_needs_governor:
  assumes "rf_governor c = None" and "recipe_reachable c e"
    and "recipe_engine_process_event (Some e) (Some ev) = Some (st, Some e')"
  shows "re_signals e' = re_signals e"
proof -
  obtain new where new: "re_effects e' = re_effects e @ new" "re_signals e' = replay_store new (re_signals e)"
    using process_event_after [OF assms(3)] by (auto simp: recipe_after_def)
  have "e\<lparr>re_signals := re_signals e, re_queue := re_queue e\<rparr> = e" by simp
  then have "recipe_reachable c e'" using recipe_reach_event [OF assms(2), of "re_queue e" "re_signals e"] assms(3) by simp
  then have l: "lawful_history (recipe_effect_lawful None) (re_effects e')"
    using recipe_reachable_history [of c e'] assms(1) by (auto simp: recipe_history_ok_def)
  have "\<not> writes_store x" if "x \<in> set new" for x
  proof
    assume w: "writes_store x"
    obtain ps qs where s: "re_effects e' = ps @ x # qs" using \<open>x \<in> set new\<close> new(1) by (metis in_set_conv_decomp append.assoc)
    then have "recipe_effect_lawful None ps x" using lawful_history_at [OF l] by blast
    then obtain r where "recipe_approved ps r" using w by (cases x) (auto simp: recipe_effect_lawful_def)
    then obtain ts where "ps = ts @ [Recipe_effect_governor r RECIPE_GOVERNOR_APPROVE]"
      unfolding recipe_approved_def by (metis append_butlast_last_id)
    then have "recipe_effect_lawful None ts (Recipe_effect_governor r RECIPE_GOVERNOR_APPROVE)"
      using lawful_history_at [OF l, of ts _ "x # qs"] s by simp
    then show False by (simp add: recipe_effect_lawful_def)
  qed
  then show ?thesis using new(2) by (simp add: replay_store_other list_all_iff)
qed

lemma recipe_store_needs_governor_witness:
  "\<exists>e e' st. recipe_engine_process_event (Some e) (Some demo_can_event) = Some (st, Some e') \<and>
     re_signals e' = rf_signal_store demo_recipe_config"
proof -
  let ?c = "demo_recipe_config\<lparr>rf_governor := None\<rparr>"
  obtain e where e: "recipe_engine_init (Some recipe_zero_engine) (Some ?c) = (True, Some e)"
    "re_signals e = rf_signal_store demo_recipe_config" "re_queue e = None"
    by (auto simp: recipe_engine_init_def demo_recipe_config_def)
  have "\<exists>st e'. recipe_engine_process_event (Some e) (Some demo_can_event) = Some (st, Some e')"
  proof -
    have h: "recipe_hooks_ok e" using e(3) by (simp add: recipe_hooks_ok_def)
    then have "recipe_hooks_ok (recipe_count rc_events_processed_update e)" by simp
    from dispatch_sets_return [OF this] show ?thesis
      by (auto simp: recipe_engine_process_event_def simp del: event_is_valid.simps)
  qed
  then obtain st e' where p: "recipe_engine_process_event (Some e) (Some demo_can_event) = Some (st, Some e')" by blast
  show ?thesis
    using p recipe_store_needs_governor [OF _ recipe_reach_init [OF e(1)] p] e(2) by auto
qed

lemma get_variable_lookup:
  "variables_ok e \<Longrightarrow> recipe_engine_get_variable (Some e) (Some r) (Some n) (Some v0) =
     (if re_sets e = [] then (RECIPE_ERR_NULL, Some v0)
      else case variable_lookup e (r, n) of None \<Rightarrow> (RECIPE_ERR_NOT_FOUND, Some v0) | Some v \<Rightarrow> (RECIPE_OK, Some v))"
  by (simp add: recipe_engine_get_variable_def recipe_engine_is_valid_def variables_ok_def variable_lookup_def
      split: option.split)

text \<open>C38: Recipes keep to their own variables. Processing an event leaves every variable of every recipe
  that the event does not reach (disabled, or triggered by another type of event) as it was, also when
  the reached recipes fill the storage.\<close>

theorem recipe_variables_are_private:
  assumes "variables_ok e" and "recipe_engine_process_event (Some e) (Some ev) = Some (st, Some e')"
    and "r \<notin> reached_recipes 0 (re_sets e) ev"
  shows "recipe_engine_get_variable (Some e') (Some r) name out = recipe_engine_get_variable (Some e) (Some r) name out"
proof -
  note a = process_event_after [OF assms(2)]
  have ok: "variables_ok e'" and sets: "re_sets e' = re_sets e" using a assms(1) by (simp_all add: recipe_after_def same_recipe_config_def)
  have "variable_lookup e' (r, n) = variable_lookup e (r, n)" for n
    using after_variable [OF a assms(1), of "(r, n)"] assms(3) by simp
  then show ?thesis
    using get_variable_lookup [OF assms(1)] get_variable_lookup [OF ok] sets
    by (cases name; cases out) (simp_all add: recipe_engine_get_variable_def)
qed

lemma recipe_variables_are_private_witness:
  "recipe_engine_get_variable (Some demo_recipes_ran) (Some (0, 1)) (Some ''n'') (Some Value_unset) =
     recipe_engine_get_variable (Some demo_recipes) (Some (0, 1)) (Some ''n'') (Some Value_unset)"
proof (rule recipe_variables_are_private [OF _ demo_recipes_run(2)])
  show "variables_ok demo_recipes" using demo_recipes_results(4-6) by (simp add: variables_ok_def)
  have "re_sets demo_recipes = [\<lparr>rq_recipes = [demo_recipe, demo_idle_recipe]\<rparr>]"
    by (simp add: demo_recipes_def recipe_engine_init_def demo_recipe_config_def)
  then show "(0, 1) \<notin> reached_recipes 0 (re_sets demo_recipes) demo_can_event"
    by (simp add: reached_recipes_def recipe_addressed_def demo_idle_recipe_def demo_recipe_def demo_trigger_def demo_can_event_def)
qed

text \<open>The last write wins. After any sequence of variable writes by any recipes, a variable that
  existed before holds the last value written under its recipe and name, or its old value when there
  was none.\<close>

definition store_variables :: "(recipe_ref \<times> string \<times> signal_value) list \<Rightarrow> recipe_engine \<Rightarrow> recipe_engine" where
  "store_variables ws e = foldl (\<lambda>e (r, name, v). snd (recipe_store_variable r name v e)) e ws"

lemma store_variables_updates:
  "variables_ok e \<Longrightarrow> store_variables ws e = variables.updates e (List.map (\<lambda>(r, name, v). ((r, name), v)) ws)"
proof (induction ws arbitrary: e)
  case (Cons w ws)
  obtain r name v where w: "w = (r, name, v)" by (cases w)
  obtain st t where s: "recipe_store_variable r name v e = (st, t)" by fastforce
  note u = variable_update_cases [OF Cons.prems s]
  have "variable_update e (r, name) v = (if st = RECIPE_OK then Some t else None)"
    by (simp add: variable_update_def s split: recipe_status.split)
  then have "variables.updates e (((r, name), v) # kvs) = variables.updates t kvs" for kvs
    using u(2) by (cases "st = RECIPE_OK") (simp_all add: variables.updates.simps)
  then show ?case
    using Cons.IH [OF u(1)] s by (simp add: store_variables_def w)
qed (simp add: store_variables_def variables.updates.simps)

theorem recipe_last_write_wins:
  assumes "variables_ok e" and "variable_lookup e (r, name) = Some old"
  shows "variable_lookup (store_variables ws e) (r, name) =
    Some (last (old # List.map (\<lambda>(r, name, v). v) (List.filter (\<lambda>(r', name', v). r' = r \<and> name' = name) ws)))"
proof -
  let ?f = "\<lambda>(r, name, v). ((r, name), v)"
  have f: "List.filter (\<lambda>p. fst p = (r, name)) (List.map ?f ws) =
      List.map ?f (List.filter (\<lambda>(r', name', v). r' = r \<and> name' = name) ws)"
    by (induction ws) auto
  have "variable_lookup (variables.updates e (List.map ?f ws)) (r, name) =
      (if List.filter (\<lambda>p. fst p = (r, name)) (List.map ?f ws) = [] then variable_lookup e (r, name)
       else Some (snd (last (List.filter (\<lambda>p. fst p = (r, name)) (List.map ?f ws)))))"
    by (rule variables.last_write_wins [OF assms(1)]) (simp add: assms(2))
  then show ?thesis
    unfolding store_variables_updates [OF assms(1)] f
    by (auto simp: assms(2) last_map split_beta)
qed

lemma recipe_last_write_wins_witness:
  "variable_lookup (store_variables [((0, 0), ''n'', Value_int 1), ((0, 1), ''n'', Value_int 2), ((0, 0), ''n'', Value_int 3)]
     demo_recipes_ran) ((0, 0), ''n'') = Some (Value_int 3)"
proof -
  have l: "variable_lookup demo_recipes_ran ((0, 0), ''n'') = Some (Value_int 5)" by code_simp
  have ok: "variables_ok demo_recipes_ran"
    by (rule recipe_reachable_variables [OF _ demo_recipes_reachable]) (simp add: demo_recipe_config_def)
  show ?thesis unfolding recipe_last_write_wins [OF ok l] by simp
qed

subsection \<open>Failure policy\<close>

text \<open>The reference: every action of a list runs, its status is noted and counted.\<close>

fun recipe_trace :: "(recipe_action \<Rightarrow> recipe_invocation) \<Rightarrow> recipe_action list \<Rightarrow> recipe_engine
    \<Rightarrow> (recipe_status list \<times> recipe_engine) option" where
  "recipe_trace invocation [] e = Some ([], e)"
| "recipe_trace invocation (a # as) e = (case recipe_execute_action (invocation a) e of
       None \<Rightarrow> None
     | Some (st, e1) \<Rightarrow> map_option (apfst (Cons st)) (recipe_trace invocation as
         (recipe_count (if st = RECIPE_OK then rc_actions_executed_update else rc_action_errors_update) e1)))"

lemma run_continue:
  "recipe_run_actions RECIPE_ON_ERROR_CONTINUE invocation as e = map_option snd (recipe_trace invocation as e)"
  by (induction as arbitrary: e) (auto simp: Let_def option.map_comp comp_def split: option.split)

text \<open>C37: A recipe with the stop policy stops at its first error. Its engine is the one after the shortest
  prefix of its actions that ends with a failure, with the halt counted, or after all of them when none
  fails: what comes after a failed action is never executed, what comes before it is never undone.\<close>

theorem recipe_stops_at_first_error:
  assumes "recipe_run_actions RECIPE_ON_ERROR_STOP invocation as e = Some e'"
  shows "\<exists>n sts e1. n \<le> length as \<and> recipe_trace invocation (take n as) e = Some (sts, e1) \<and>
    (list_all (\<lambda>st. st = RECIPE_OK) sts \<and> n = length as \<and> e' = e1 \<or>
     sts \<noteq> [] \<and> list_all (\<lambda>st. st = RECIPE_OK) (butlast sts) \<and> last sts \<noteq> RECIPE_OK \<and>
     e' = recipe_count rc_recipes_halted_update e1)"
  using assms
proof (induction as arbitrary: e)
  case (Cons a as)
  obtain st e1 where x: "recipe_execute_action (invocation a) e = Some (st, e1)"
    using Cons.prems by (auto split: option.splits)
  show ?case
  proof (cases "st = RECIPE_OK")
    case False
    then have "e' = recipe_count rc_recipes_halted_update (recipe_count rc_action_errors_update e1)"
      using Cons.prems x by simp
    then show ?thesis using x False by (intro exI [of _ 1] exI [of _ "[st]"]) simp
  next
    case True
    then have "recipe_run_actions RECIPE_ON_ERROR_STOP invocation as (recipe_count rc_actions_executed_update e1) = Some e'"
      using Cons.prems x by simp
    from Cons.IH [OF this] obtain n sts e2 where n: "n \<le> length as"
      "recipe_trace invocation (take n as) (recipe_count rc_actions_executed_update e1) = Some (sts, e2)"
      "list_all (\<lambda>st. st = RECIPE_OK) sts \<and> n = length as \<and> e' = e2 \<or>
       sts \<noteq> [] \<and> list_all (\<lambda>st. st = RECIPE_OK) (butlast sts) \<and> last sts \<noteq> RECIPE_OK \<and>
       e' = recipe_count rc_recipes_halted_update e2" by blast
    then have "recipe_trace invocation (take (Suc n) (a # as)) e = Some (st # sts, e2)"
      using x True by simp
    then show ?thesis using n(1,3) True by (intro exI [of _ "Suc n"] exI [of _ "st # sts"] exI [of _ e2]) auto
  qed
qed simp

lemma recipe_stops_at_first_error_witness:
  "\<exists>e' n sts e1. recipe_run_actions RECIPE_ON_ERROR_STOP
      (\<lambda>a. \<lparr>vo_recipe = (0, 0), vo_ordinal = 1, vo_event = demo_can_event, vo_action = a\<rparr>) (rp_actions demo_recipe) demo_recipes = Some e' \<and>
    recipe_trace (\<lambda>a. \<lparr>vo_recipe = (0, 0), vo_ordinal = 1, vo_event = demo_can_event, vo_action = a\<rparr>)
      (take n (rp_actions demo_recipe)) demo_recipes = Some (sts, e1)"
proof -
  have "recipe_hooks_ok demo_recipes" by (simp add: recipe_hooks_ok_def demo_recipes_results(3))
  from run_actions_return [OF this] obtain e' where
    e': "recipe_run_actions RECIPE_ON_ERROR_STOP
      (\<lambda>a. \<lparr>vo_recipe = (0, 0), vo_ordinal = 1, vo_event = demo_can_event, vo_action = a\<rparr>) (rp_actions demo_recipe) demo_recipes = Some e'" by blast
  from recipe_stops_at_first_error [OF this] show ?thesis using e' by blast
qed

end
