(* ===== verification/Spec2Isabelle.thy ===== *)
theory Spec2Isabelle
  imports Prelude Ring Clock Event_Types Fault Event_Heap Event_Queue Event_Queue_Inv Event_Queue_Push Event_Queue_Spec Event_Queue_Properties Isr_Queue Isr_Spsc Bms_Governor Hal_Types Hal Mock_Hal Hal_Inv Hal_Properties Transport_Types Transport Transport_Inv
  Transport_Segments Transport_Link Transport_Properties Double Codec_Types Codec_Bits Codec Codec_Inv Codec_Properties Codec_Namespace Codec_Namespace_Properties
  Signal_Store Uds_Types Uds Uds_Properties Fsm_Types Fsm_Expression Fsm_Expression_Properties
  Fsm_Engine_Types Fsm_Engine Fsm_Runtime Fsm_Engine_Inv Fsm_Engine_Reach Fsm_Engine_Properties
  History Recipe_Types Recipe_Expression Recipe_Expression_Properties Recipe_Engine_Types Recipe_Engine Recipe_Engine_Inv Recipe_Properties
begin

text \<open>
  CANcestry (src/) is a C runtime for vehicle gateways: CAN frames enter through a HAL, become
  events, are decoded into signals, drive state machines and recipes, and go out again as frames or
  ISO-TP messages. This library models the deterministic core of that runtime in HOL and proves
  what makes it correct. Every definition is executable and follows one C function, type or block.

  \<^bold>\<open>Parts and how they interact.\<close>
  The event model and the clock (core/event) are used by everything. The HAL (core/hal) polls a
  backend (platform/mock is the one modelled), filters frames and pushes events into the event
  queue; interrupt handlers use the single-producer ring of isr_queue.c, which a drain empties into
  the same queue. A saturated queue escalates through the hooks of fault.c. The transport engine
  (core/transport) takes CAN frames from the consumer and hands frames, messages and fault events to
  callbacks. The governor (core/governor) bounds what the BMS may be asked for. The codec
  (core/codec) reads and writes the signals of a payload and names them. The diagnostic server
  (core/uds) reads and writes data identifiers and mirrored signals of the value store (head of
  core/recipe/src/engine.c) after asking the governor. The state machine runtime (core/fsm) takes
  events from a dispatcher and timers, selects transitions by guards the expression evaluator judges,
  and acts through capabilities and the governor. The recipe engine (core/recipe) runs the recipes whose
  trigger and conditions an event meets: their actions send frames through the sink, write the value
  store, keep variables, ask for timers and raise faults, the first two after asking the governor.

  \<^bold>\<open>Theories.\<close>
  \<^item> Prelude, Ring: shared word lemmas and collections; the locale \<open>bounded_fifo\<close> of a ring with a contents view.
  \<^item> Clock, Event_Types, Fault: clock.c, types.c and fault.c of core/event.
  \<^item> Event_Heap, Event_Queue: queue.c, the binary heap and the queue's operations.
    Event_Queue_Inv and Event_Queue_Push hold the invariant \<open>queue_inv\<close> and its preservation,
    Event_Queue_Spec the abstract admission policy over multisets and the refinement of it,
    Event_Queue_Properties the properties.
  \<^item> Isr_Queue, Isr_Spsc: isr_queue.c, sequentially and as an interleaving of producer and consumer.
  \<^item> Bms_Governor: bms_governor.c.
  \<^item> Hal_Types, Hal, Mock_Hal: types.c and hal.c of core/hal, mock_hal.c. Hal_Inv proves the
    backend's contract for the mock and the ring invariants, Hal_Properties the properties.
  \<^item> Transport_Types, Transport: types.c and engine.c of core/transport. Transport_Inv holds the
    invariant \<open>tp_ok\<close>, Transport_Segments the reference segmentation of a message,
    Transport_Link two engines on a lossless wire (First Frame, Flow Control, paced Consecutive Frames) up
    to the delivery, Transport_Properties the properties.
  \<^item> Double: the part of IEEE 754 binary64 arithmetic the codec uses, on 64-bit patterns.
  \<^item> Codec_Types, Codec_Bits, Codec: types.h, codec_bits.h, decoder.c and encoder.c of core/codec.
    Codec_Inv and Codec_Properties hold the lemmas on bits, bounds and round trips.
  \<^item> Codec_Namespace, Codec_Namespace_Properties: namespace.c.
  \<^item> Signal_Store: the value store of core/recipe/src/engine.c.
  \<^item> Uds_Types, Uds, Uds_Properties: types.c and services.c of core/uds.
  \<^item> Fsm_Types, Fsm_Expression, Fsm_Expression_Properties: types.h and expression.c of core/fsm. The
    parser functions are one mutual recursion; the induction \<open>depth_induct\<close> over the depth carries the
    three simulations: in range, validated against evaluated, typed.
  \<^item> History: a list of effects each lawful after those before it, shared by both engines.
  \<^item> Fsm_Engine_Types, Fsm_Engine, Fsm_Runtime: engine.h and engine.c of core/fsm, in the order of the
    file: data and trace ring; resolution, guards, actions and transitions; gate, dispatcher, lifecycle,
    tick, initialisation and inspection. Fsm_Engine_Inv relates an activation before and after each of
    its steps (\<open>act_quiet\<close>, \<open>act_step\<close>), Fsm_Engine_Reach carries that to the whole engine and its
    reachable states, Fsm_Engine_Properties holds the properties.
  \<^item> Recipe_Types, Recipe_Expression, Recipe_Expression_Properties: types.h and types.c of core/recipe
    and the expression evaluator in the middle of its engine.c, a mutual recursion with fuel.
  \<^item> Recipe_Engine_Types, Recipe_Engine: engine.h and the rest of engine.c. Recipe_Engine_Inv relates
    an engine before and after each of its steps (\<open>recipe_after\<close>: configuration kept, effects appended,
    store replayed from them, variables of other recipes kept) and interprets the locale \<open>value_store\<close> on
    its variables, Recipe_Properties holds the properties.

  \<^bold>\<open>State and data.\<close>
  A C struct is a record, an enum a datatype, a fixed-width integer a word of its width, \<open>size_t\<close> a
  natural number. NULL is \<open>None\<close>, NULL storage is the empty list, an array with a count is the
  list of its used entries unless slots are addressed by index. An operation returns the updated
  state with its result; out parameters are returned. Callbacks are functions on the contents of
  their user data and do not re-enter the module. A function that never returns (the safe-spin loop
  of fault.c) has result \<open>None\<close>. Wrap-around is that of the words. The state machine runtime keeps
  the history of its effects (calls of governor, bus, sink and fault hooks): governor and bus are
  functions of that history, so that they may depend on everything that happened before. The recipe
  engine keeps the same kind of history, with the store writes and the calls of a configured evaluator;
  a pointer to a recipe is the pair of the index of its set and its index in it. Its callbacks do not
  write the engine's stores, and the variable storage is the engine's own.

  \<^bold>\<open>What is shown.\<close>
  The queue keeps its heap invariant, refines the admission policy, never loses a fault while a
  non-fault can be evicted, and drains in order. The interrupt ring is a lossless FIFO under every
  interleaving, and draining it into the queue returns and is exact. The governor never exceeds a limit, fails closed and reports
  what it reduces, save a torque requested without power. The HAL delivers per interface
  in strictly increasing timestamp order, whole frames only, and reports faults. The transport
  engine never writes past its buffers in any run; two connected engines bring a message across
  whatever block size and separation time the receiver asks for, within its timeout; it fails
  closed on sequence errors and times out a silent peer. The codec touches the signal's bits only
  and decoding and encoding are inverse on unscaled signals (but for the upper half of a 64-bit
  enumeration, which is refused); a frame decodes whole or not at all;
  names and ids of the namespace agree. The diagnostic server changes nothing the governor did not
  approve, answers every request in bounds, and reads back what was written. The expression
  evaluator always returns, evaluates what validates without structural errors, gives typed
  results, and computes integers exactly or faults. In every reachable state of the state machine
  runtime each command was approved by the governor just before and lies within the capabilities, and
  every instance is well typed; selection is the first enabled transition, a transition commits whole or
  suspends, one event is bounded work, periodic timers do not drift (while the periods missed fit 32 bits, and it is said what happens then), and instances that do not run are
  not touched. In every reachable recipe engine each frame sent and each store write follows the
  governor's approval of just that frame or value; processing an event returns, a recipe that stops on
  errors stops at the first one, and recipes keep to their own variables; the evaluator returns typed
  values. Where the code deviates from this a lemma states the deviation: a declined frame sent
  twice, a wait limit that never trips, a signed bound that rounds up, sequence numbers that wrap,
  integers compared through floats, long timers that never expire, booleans ordered by inequality.

  \<^bold>\<open>Bounds and fuel.\<close>
  Loops are recursions on a list or a count. \<open>isr_drain_loop\<close>, \<open>hal_drain_rx\<close> and the loops of the
  mock take the number of elements present as their fuel, which each step decreases.
  \<open>tp_tx_pump_cf\<close> terminates by the bytes left to send. \<open>operator_loop\<close> takes the length of the text
  plus one, enough because each operator consumes a character; the parser itself terminates by the
  depth limit of 32. The recipe parser has no such limit; its fuel is the nesting, and the length of the
  text is enough because each level consumes a character. The deferred chain and the drain of an instance terminate because their 16-bit
  count grows up to a configured limit. Code without a bound of its own returns \<open>None\<close> when it does
  not end.

  \<^bold>\<open>Not modelled.\<close>
  The YAML loaders (codec, fsm, recipe, uds) are parsers with heap allocation that build the
  read-only tables the modelled code takes as input. SocketCAN, the STM32 backend and the watchdog are operating-system or
  register access. The examples, tests and tools are not part of the library.
\<close>

end
